(* ===== verification/Prelude.thy ===== *)
theory Prelude
  imports Main "HOL-Library.Word" "HOL-Library.Monad_Syntax"
begin

text \<open>
  Shared vocabulary of the development: the machine types of the C sources, the result
  codes of \<^verbatim>\<open>osd.h\<close>, the conventions for calls that may not return, and byte codecs.

  Conventions used by every other theory:
  \<^item> A call whose result type is \<open>'a option\<close> yields \<open>None\<close> when the C function does not
    return to its caller: an \<^verbatim>\<open>assert()\<close> failed, the code would run into undefined
    behaviour (an access outside an allocation, a use of freed memory, a call through a
    null pointer), or a loop runs forever. A theorem that states \<open>f x = Some y\<close> hence says
    that the call returns, and what it returns.
  \<^item> Effects on the outside world are threaded explicitly: the world is a type variable
    \<open>'w\<close>, and operations of libraries that are not part of the repository are arguments.
  \<^item> The \<^verbatim>\<open>OSD_FAILED(rv) \<rightarrow> return rv\<close> idiom is the combinator \<open>on_ok\<close>: \<open>Inl rv\<close> is a
    failed call with its (negative) result code, \<open>Inr v\<close> is \<open>OSD_OK\<close> with its output.
  \<^item> Memory allocation succeeds. Log messages (\<^verbatim>\<open>dbg\<close>, \<^verbatim>\<open>info\<close>, \<^verbatim>\<open>err\<close>) have no effect on
    the modelled state. The host is little endian.
\<close>

unbundle bit_operations_syntax

section \<open>Machine types and result codes\<close>

type_synonym u8 = "8 word"
type_synonym u16 = "16 word"
type_synonym u32 = "32 word"
type_synonym u64 = "64 word"

type_synonym osd_result = int

named_theorems osd_codes \<open>the numeric values of the result codes\<close>

definition OSD_OK :: osd_result where [osd_codes]: "OSD_OK = 0"
definition OSD_ERROR_FAILURE :: osd_result where [osd_codes]: "OSD_ERROR_FAILURE = -1"
definition OSD_ERROR_DEVICE_ERROR :: osd_result where [osd_codes]: "OSD_ERROR_DEVICE_ERROR = -2"
definition OSD_ERROR_DEVICE_INVALID_DATA :: osd_result
  where [osd_codes]: "OSD_ERROR_DEVICE_INVALID_DATA = -3"
definition OSD_ERROR_COM :: osd_result where [osd_codes]: "OSD_ERROR_COM = -4"
definition OSD_ERROR_TIMEDOUT :: osd_result where [osd_codes]: "OSD_ERROR_TIMEDOUT = -5"
definition OSD_ERROR_NOT_CONNECTED :: osd_result where [osd_codes]: "OSD_ERROR_NOT_CONNECTED = -6"
definition OSD_ERROR_PARTIAL_RESULT :: osd_result where [osd_codes]: "OSD_ERROR_PARTIAL_RESULT = -7"
definition OSD_ERROR_ABORTED :: osd_result where [osd_codes]: "OSD_ERROR_ABORTED = -8"
definition OSD_ERROR_CONNECTION_FAILED :: osd_result
  where [osd_codes]: "OSD_ERROR_CONNECTION_FAILED = -9"
definition OSD_ERROR_OOM :: osd_result where [osd_codes]: "OSD_ERROR_OOM = -11"
definition OSD_ERROR_FILE :: osd_result where [osd_codes]: "OSD_ERROR_FILE = -12"
definition OSD_ERROR_MEM_VERIFY_FAILED :: osd_result
  where [osd_codes]: "OSD_ERROR_MEM_VERIFY_FAILED = -13"
definition OSD_ERROR_WRONG_MODULE :: osd_result where [osd_codes]: "OSD_ERROR_WRONG_MODULE = -14"

definition OSD_FAILED :: "osd_result \<Rightarrow> bool" where [osd_codes]: "OSD_FAILED rv \<longleftrightarrow> rv < 0"
definition OSD_SUCCEEDED :: "osd_result \<Rightarrow> bool" where [osd_codes]: "OSD_SUCCEEDED rv \<longleftrightarrow> rv \<ge> 0"

lemma OSD_FAILED_codes [simp]:
  "\<not> OSD_FAILED OSD_OK"
  "OSD_FAILED OSD_ERROR_FAILURE" "OSD_FAILED OSD_ERROR_DEVICE_ERROR"
  "OSD_FAILED OSD_ERROR_DEVICE_INVALID_DATA" "OSD_FAILED OSD_ERROR_COM"
  "OSD_FAILED OSD_ERROR_TIMEDOUT" "OSD_FAILED OSD_ERROR_NOT_CONNECTED"
  "OSD_FAILED OSD_ERROR_PARTIAL_RESULT" "OSD_FAILED OSD_ERROR_ABORTED"
  "OSD_FAILED OSD_ERROR_CONNECTION_FAILED" "OSD_FAILED OSD_ERROR_OOM"
  "OSD_FAILED OSD_ERROR_FILE" "OSD_FAILED OSD_ERROR_MEM_VERIFY_FAILED"
  "OSD_FAILED OSD_ERROR_WRONG_MODULE"
  by (simp_all add: osd_codes)

lemma OSD_SUCCEEDED_iff: "OSD_SUCCEEDED rv \<longleftrightarrow> \<not> OSD_FAILED rv"
  by (auto simp: osd_codes)

section \<open>Calls that may not return, and early returns\<close>

definition c_assert :: "bool \<Rightarrow> unit option" where
  "c_assert b = (if b then Some () else None)"

lemma c_assert_bind [simp]: "c_assert b \<bind> f = (if b then f () else None)"
  by (simp add: c_assert_def)

lemma c_assert_eq_Some [simp]: "c_assert b = Some u \<longleftrightarrow> b"
  by (simp add: c_assert_def)

definition on_ok ::
  "((osd_result + 'a) \<times> 'w) option \<Rightarrow> ('a \<Rightarrow> 'w \<Rightarrow> ((osd_result + 'b) \<times> 'w) option)
    \<Rightarrow> ((osd_result + 'b) \<times> 'w) option" where
  "on_ok m k = m \<bind> (\<lambda>(r, w). case r of Inl e \<Rightarrow> Some (Inl e, w) | Inr v \<Rightarrow> k v w)"

lemma on_ok_simps [simp]:
  "on_ok None k = None"
  "on_ok (Some (Inl e, w)) k = Some (Inl e, w)"
  "on_ok (Some (Inr v, w)) k = k v w"
  by (simp_all add: on_ok_def)

lemma on_ok_eq_Some:
  "on_ok m k = Some (r, w') \<longleftrightarrow>
     (\<exists>e. m = Some (Inl e, w') \<and> r = Inl e) \<or> (\<exists>v w. m = Some (Inr v, w) \<and> k v w = Some (r, w'))"
proof (cases m)
  case (Some p)
  then show ?thesis by (cases p; cases "fst p") auto
qed simp

section \<open>Byte codecs for 16 bit words\<close>

definition le16 :: "u8 \<Rightarrow> u8 \<Rightarrow> u16" where
  "le16 a b = ucast a OR push_bit 8 (ucast b)"

definition le16_bytes :: "u16 \<Rightarrow> u8 list" where
  "le16_bytes w = [ucast w, ucast (drop_bit 8 w)]"

definition be16 :: "u8 \<Rightarrow> u8 \<Rightarrow> u16" where
  "be16 a b = push_bit 8 (ucast a) OR ucast b"

definition be16_bytes :: "u16 \<Rightarrow> u8 list" where
  "be16_bytes w = [ucast (drop_bit 8 w), ucast w]"

fun dec_words :: "(u8 \<Rightarrow> u8 \<Rightarrow> u16) \<Rightarrow> u8 list \<Rightarrow> u16 list" where
  "dec_words dec (a # b # bs) = dec a b # dec_words dec bs"
| "dec_words dec bs = []"

definition enc_words :: "(u16 \<Rightarrow> u8 list) \<Rightarrow> u16 list \<Rightarrow> u8 list" where
  "enc_words enc ws = concat (map enc ws)"

lemma enc_words_simps [simp]:
  "enc_words enc [] = []"
  "enc_words enc (w # ws) = enc w @ enc_words enc ws"
  "enc_words enc (ws @ vs) = enc_words enc ws @ enc_words enc vs"
  by (simp_all add: enc_words_def)

lemma bit_u8_high [simp]: "\<not> bit (a :: u8) (8 + n)"
  using bit_imp_le_length [of a "8 + n"] by auto

lemma bit_u16_lt: "bit (x :: u16) n \<Longrightarrow> n < 16"
  using bit_imp_le_length [of x n] by simp

lemma bit_u8_lt: "bit (x :: u8) n \<Longrightarrow> n < 8"
  using bit_imp_le_length [of x n] by simp

lemma unat_of_nat_u8: "n < 256 \<Longrightarrow> unat (of_nat n :: u8) = n"
  by (simp add: unsigned_of_nat take_bit_nat_eq_self)

lemma unat_of_nat_u16: "n < 65536 \<Longrightarrow> unat (of_nat n :: u16) = n"
  by (simp add: unsigned_of_nat take_bit_nat_eq_self)

lemma unat_of_nat_u32: "n < 2 ^ 32 \<Longrightarrow> unat (of_nat n :: u32) = n"
  by (simp add: unsigned_of_nat take_bit_nat_eq_self)

lemma unat_of_nat_u64: "n < 2 ^ 64 \<Longrightarrow> unat (of_nat n :: u64) = n"
  by (simp add: unsigned_of_nat take_bit_nat_eq_self)

lemma unat_u16_lt: "unat (x :: u16) < 65536"
  using unsigned_less [of x, where ?'a = nat] by simp

lemma uint_u16_le: "uint (x :: u16) \<le> 65535"
  using unsigned_less [of x, where ?'a = int] by simp

lemma uint_u16_ge: "0 \<le> uint (x :: u16)"
  by simp

lemma uint_u16_int_range: "- (2 ^ 31) \<le> uint (x :: u16)" "uint (x :: u16) < 2 ^ 31"
proof -
  have "(2 :: int) ^ 31 = 2147483648" by simp
  then show "- (2 ^ 31) \<le> uint x" "uint x < 2 ^ 31"
    using uint_u16_le [of x] uint_u16_ge [of x] by linarith+
qed

lemma unat_u8_lt: "unat (x :: u8) < 256"
  using unsigned_less [of x, where ?'a = nat] by simp

lemma unat_ucast_u16_u32 [simp]: "unat (ucast (x :: u16) :: u32) = unat x"
  using unat_u16_lt [of x] by (simp add: unsigned_ucast_eq take_bit_nat_eq_self)

lemma ucast_u16_u32_inject [simp]: "(ucast (x :: u16) :: u32) = ucast y \<longleftrightarrow> x = y"
  by (metis unat_ucast_u16_u32 word_unat_eq_iff)

lemma ucast_u16_u32_u16 [simp]: "(ucast (ucast (x :: u16) :: u32) :: u16) = x"
  by (rule bit_word_eqI) (auto simp: bit_simps)

lemma of_nat_unat_eq: "unat (x :: 'a::len word) = n \<Longrightarrow> x = of_nat n"
  by auto

text \<open>
  A two-byte codec: what the transports rely on when a packet crosses a socket, a file or
  the link to the device. The list-level facts are proved once for every byte order.
\<close>

locale word_codec =
  fixes enc :: "u16 \<Rightarrow> u8 list" and dec :: "u8 \<Rightarrow> u8 \<Rightarrow> u16"
  assumes enc_dec: "enc (dec a b) = [a, b]"
    and dec_enc: "\<exists>a b. enc w = [a, b] \<and> dec a b = w"
begin

lemma length_enc [simp]: "length (enc w) = 2"
  using dec_enc [of w] by auto

lemma length_enc_words [simp]: "length (enc_words enc ws) = 2 * length ws"
  by (induction ws) auto

lemma dec_words_append: "even (length xs) \<Longrightarrow> dec_words dec (xs @ ys) = dec_words dec xs @ dec_words dec ys"
  by (induction dec xs rule: dec_words.induct) auto

lemma dec_enc_words [simp]: "dec_words dec (enc_words enc ws) = ws"
proof (induction ws)
  case (Cons w ws)
  obtain a b where "enc w = [a, b]" "dec a b = w"
    using dec_enc [of w] by blast
  with Cons show ?case by simp
qed simp

lemma enc_dec_words: "even (length bs) \<Longrightarrow> enc_words enc (dec_words dec bs) = bs"
proof (induction bs rule: induct_list012)
  case (3 x y zs)
  then show ?case using enc_dec [of x y] by simp
qed simp_all

lemma length_dec_words: "length (dec_words dec bs) = length bs div 2"
  by (induction bs rule: induct_list012) auto

lemma enc_words_inject: "enc_words enc xs = enc_words enc ys \<longleftrightarrow> xs = ys"
  by (metis dec_enc_words)

end

interpretation le: word_codec le16_bytes le16
proof
  fix a b :: u8 and w :: u16
  show "le16_bytes (le16 a b) = [a, b]"
    by (auto simp: le16_bytes_def le16_def bit_simps intro!: bit_word_eqI)
  have "le16 (ucast w) (ucast (drop_bit 8 w)) = w"
    unfolding le16_def by (rule bit_word_eqI) (auto simp: bit_simps)
  then show "\<exists>a b. le16_bytes w = [a, b] \<and> le16 a b = w"
    by (simp add: le16_bytes_def)
qed

interpretation be: word_codec be16_bytes be16
proof
  fix a b :: u8 and w :: u16
  show "be16_bytes (be16 a b) = [a, b]"
    by (auto simp: be16_bytes_def be16_def bit_simps intro!: bit_word_eqI)
  have "be16 (ucast (drop_bit 8 w)) (ucast w) = w"
    unfolding be16_def by (rule bit_word_eqI) (auto simp: bit_simps)
  then show "\<exists>a b. be16_bytes w = [a, b] \<and> be16 a b = w"
    by (simp add: be16_bytes_def)
qed

end
