(* ===== verification/C_Stdlib.thy ===== *)
theory C_Stdlib
  imports Prelude
begin

text \<open>
  The parts of the C standard library the sources use, as functions on values: the
  \<^verbatim>\<open>printf\<close> conversions for unsigned numbers, \<^verbatim>\<open>strtol\<close> in base 10, string comparison, and
  \<^verbatim>\<open>FILE\<close> streams as byte sequences. They are library vocabulary: none of them models code
  of the repository.
\<close>

text \<open>The end of a line.\<close>

abbreviation NL :: char where "NL \<equiv> CHR 0x0A"

section \<open>printf conversions\<close>

definition digit_char :: "nat \<Rightarrow> char" where
  "digit_char d = (if d < 10 then char_of (48 + d) else char_of (87 + d))"

fun digits_base :: "nat \<Rightarrow> nat \<Rightarrow> string" where
  "digits_base b n =
     (if n < b \<or> b < 2 then [digit_char n] else digits_base b (n div b) @ [digit_char (n mod b)])"

declare digits_base.simps [simp del]

definition fmt_u :: "nat \<Rightarrow> string" where
  "fmt_u n = digits_base 10 n"

definition zero_pad :: "nat \<Rightarrow> string \<Rightarrow> string" where
  "zero_pad k s = replicate (k - length s) (CHR ''0'') @ s"

definition fmt_0x :: "nat \<Rightarrow> nat \<Rightarrow> string" where
  "fmt_0x k n = zero_pad k (digits_base 16 n)"

definition fmt_d :: "int \<Rightarrow> string" where
  "fmt_d i = (if i < 0 then CHR ''-'' # fmt_u (nat (- i)) else fmt_u (nat i))"

section \<open>strtol in base 10\<close>

definition is_space :: "char \<Rightarrow> bool" where
  "is_space c \<longleftrightarrow> of_char c \<in> {32 :: nat, 9, 10, 11, 12, 13}"

definition is_digit :: "char \<Rightarrow> bool" where
  "is_digit c \<longleftrightarrow> 48 \<le> (of_char c :: nat) \<and> (of_char c :: nat) \<le> 57"

definition digit_val :: "char \<Rightarrow> nat" where
  "digit_val c = of_char c - 48"

definition digits_val :: "string \<Rightarrow> nat" where
  "digits_val s = foldl (\<lambda>a c. 10 * a + digit_val c) 0 s"

definition LONG_MAX :: int where "LONG_MAX = 2 ^ 63 - 1"
definition LONG_MIN :: int where "LONG_MIN = - (2 ^ 63)"

text \<open>
  The value and the unparsed rest. Without a digit nothing is consumed and the value is 0;
  a value outside the range of \<^verbatim>\<open>long\<close> is clamped.
\<close>

definition strtol10 :: "string \<Rightarrow> int \<times> string" where
  "strtol10 s =
     (let s1 = dropWhile is_space s;
          (neg, s2) = (case s1 of c # cs \<Rightarrow>
             (if c = CHR ''-'' then (True, cs) else if c = CHR ''+'' then (False, cs) else (False, s1))
             | [] \<Rightarrow> (False, s1));
          ds = takeWhile is_digit s2
      in if ds = [] then (0, s)
         else (let v = (if neg then - int (digits_val ds) else int (digits_val ds))
               in (max LONG_MIN (min LONG_MAX v), dropWhile is_digit s2)))"

lemma of_char_digit_char: "d < 10 \<Longrightarrow> (of_char (digit_char d) :: nat) = 48 + d"
  by (simp add: digit_char_def)

lemma is_digit_digit_char [simp]: "d < 10 \<Longrightarrow> is_digit (digit_char d)"
  by (simp add: is_digit_def of_char_digit_char)

lemma digit_val_digit_char [simp]: "d < 10 \<Longrightarrow> digit_val (digit_char d) = d"
  by (simp add: digit_val_def of_char_digit_char)

lemma digits_base_10_digits: "list_all is_digit (digits_base 10 n)"
proof (induction "10 :: nat" n rule: digits_base.induct)
  case (1 n)
  then show ?case by (cases "n < 10") (simp_all add: digits_base.simps [of 10 n])
qed

lemma digits_val_digits_base: "digits_val (digits_base 10 n) = n"
proof (induction "10 :: nat" n rule: digits_base.induct)
  case (1 n)
  then show ?case
    by (cases "n < 10") (simp_all add: digits_base.simps [of 10 n] digits_val_def)
qed

lemma digits_base_not_Nil [simp]: "digits_base b n \<noteq> []"
  by (subst digits_base.simps) simp

lemma length_digits_base: "2 \<le> b \<Longrightarrow> 0 < k \<Longrightarrow> n < b ^ k \<Longrightarrow> length (digits_base b n) \<le> k"
proof (induction b n arbitrary: k rule: digits_base.induct)
  case (1 b n)
  show ?case
  proof (cases "n < b")
    case False
    then have k: "2 \<le> k" using 1 by (cases k; cases "k - 1") auto
    then have "n < b ^ (k - 1) * b" using 1 by (cases k) (simp_all add: mult.commute)
    then have "length (digits_base b (n div b)) \<le> k - 1"
      using 1 False k by (intro 1) (simp_all add: less_mult_imp_div_less)
    then show ?thesis using 1 False k by (subst digits_base.simps) simp
  qed (use 1 in \<open>simp add: digits_base.simps [of b n]\<close>)
qed

lemma fmt_u_not_Nil [simp]: "fmt_u n \<noteq> []"
  by (simp add: fmt_u_def)

lemma hd_digits_not_space_sign:
  assumes "list_all is_digit (c # cs)"
  shows "\<not> is_space c" "c \<noteq> CHR ''-''" "c \<noteq> CHR ''+''"
  using assms by (auto simp: is_digit_def is_space_def)

text \<open>Parsing a printed number returns the number and consumes the whole string.\<close>

lemma strtol10_fmt_u:
  assumes "n < 2 ^ 63"
  shows "strtol10 (fmt_u n) = (int n, [])"
proof -
  let ?s = "digits_base 10 n"
  have d: "list_all is_digit ?s" by (rule digits_base_10_digits)
  obtain c cs where s: "?s = c # cs" by (cases ?s) auto
  note h = hd_digits_not_space_sign [OF d [unfolded s]]
  have tw: "takeWhile is_digit ?s = ?s" "dropWhile is_digit ?s = []"
    using d by (auto simp: list_all_iff takeWhile_eq_all_conv)
  have "int n \<le> LONG_MAX" "LONG_MIN \<le> int n"
    using assms by (auto simp: LONG_MAX_def LONG_MIN_def)
  then show ?thesis
    using h tw digits_val_digits_base [of n] by (simp add: strtol10_def fmt_u_def s Let_def)
qed

section \<open>Streams\<close>

record c_file =
  rd_buf :: "u8 list"
  wr_buf :: "u8 list"
  wr_cap :: nat

text \<open>
  \<open>fread n\<close> asks for one item of \<open>n\<close> bytes; the number of complete items (0 or 1) comes
  with the bytes. An item of size 0 is never counted. \<open>fwrite\<close> of one item writes as much as
  the medium takes.
\<close>

definition fread :: "nat \<Rightarrow> c_file \<Rightarrow> nat \<times> u8 list \<times> c_file" where
  "fread n f =
     (if n = 0 then (0, [], f)
      else (if n \<le> length (rd_buf f) then 1 else 0, take n (rd_buf f),
            f\<lparr>rd_buf := drop n (rd_buf f)\<rparr>))"

definition fwrite :: "u8 list \<Rightarrow> c_file \<Rightarrow> nat \<times> c_file" where
  "fwrite bs f =
     (if bs = [] then (0, f)
      else (if length bs \<le> wr_cap f then 1 else 0,
            f\<lparr>wr_buf := wr_buf f @ take (wr_cap f) bs, wr_cap := wr_cap f - length bs\<rparr>))"

text \<open>The open files of a program, by their \<^verbatim>\<open>FILE *\<close>; output through one of them, whose success nobody checks.\<close>

type_synonym c_files = "nat \<Rightarrow> c_file"

definition fput :: "nat \<Rightarrow> u8 list \<Rightarrow> c_files \<Rightarrow> c_files" where
  "fput fp bs fs = fs(fp := snd (fwrite bs (fs fp)))"

lemma fput_room:
  "length bs \<le> wr_cap (fs fp) \<Longrightarrow> wr_buf (fput fp bs fs fp) = wr_buf (fs fp) @ bs"
  "wr_cap (fput fp bs fs fp) = wr_cap (fs fp) - length bs"
  by (auto simp: fput_def fwrite_def)

lemma fput_other [simp]: "fq \<noteq> fp \<Longrightarrow> fput fp bs fs fq = fs fq"
  by (simp add: fput_def)

section \<open>Strings as bytes\<close>

definition str_bytes :: "string \<Rightarrow> u8 list" where
  "str_bytes s = map (\<lambda>c. of_nat (of_char c)) s"

definition bytes_str :: "u8 list \<Rightarrow> string" where
  "bytes_str bs = map (\<lambda>b. char_of (unat b)) bs"

lemma bytes_str_str_bytes [simp]: "bytes_str (str_bytes s) = s"
proof -
  have "unat (of_nat (of_char c) :: u8) = of_char c" for c :: char
    by (cases c) (simp add: unsigned_of_nat take_bit_nat_eq_self of_char_def)
  then show ?thesis by (simp add: bytes_str_def str_bytes_def comp_def)
qed

lemma str_bytes_inject [simp]: "str_bytes s = str_bytes t \<longleftrightarrow> s = t"
  by (metis bytes_str_str_bytes)

lemma fmt_u_no_nul: "c \<in> set (fmt_u n) \<Longrightarrow> c \<noteq> CHR 0x00"
  using digits_base_10_digits [of n] by (auto simp: fmt_u_def list_all_iff is_digit_def)

end
