(* ===== verification/Packet.thy ===== *)
theory Packet
  imports C_Stdlib
begin

text \<open>
  Debug interconnect packets (\<^verbatim>\<open>packet.c\<close>, \<^verbatim>\<open>packet.h\<close>): the packet structure, its header
  fields, construction from a message frame, reallocation and combination, the text
  dump, the file format and the comparison.

  A packet is the size field of the structure and the words of its allocation. The two
  agree for every packet the library builds (\<open>packet_wf\<close>); accesses outside the allocation
  yield \<open>None\<close>.
\<close>

section \<open>Data\<close>

record osd_packet =
  data_size_words :: u16
  data_raw :: "u16 list"

named_theorems pkt_consts \<open>numeric constants of packet.h\<close>

definition OSD_PACKET_TYPE_REG :: u32 where [pkt_consts]: "OSD_PACKET_TYPE_REG = 0"
definition OSD_PACKET_TYPE_RES1 :: u32 where [pkt_consts]: "OSD_PACKET_TYPE_RES1 = 1"
definition OSD_PACKET_TYPE_EVENT :: u32 where [pkt_consts]: "OSD_PACKET_TYPE_EVENT = 2"
definition OSD_PACKET_TYPE_RES2 :: u32 where [pkt_consts]: "OSD_PACKET_TYPE_RES2 = 3"

definition REQ_READ_REG_16 :: u32 where [pkt_consts]: "REQ_READ_REG_16 = 0b0000"
definition REQ_READ_REG_32 :: u32 where [pkt_consts]: "REQ_READ_REG_32 = 0b0001"
definition REQ_READ_REG_64 :: u32 where [pkt_consts]: "REQ_READ_REG_64 = 0b0010"
definition REQ_READ_REG_128 :: u32 where [pkt_consts]: "REQ_READ_REG_128 = 0b0011"
definition RESP_READ_REG_SUCCESS_16 :: u32 where [pkt_consts]: "RESP_READ_REG_SUCCESS_16 = 0b1000"
definition RESP_READ_REG_SUCCESS_32 :: u32 where [pkt_consts]: "RESP_READ_REG_SUCCESS_32 = 0b1001"
definition RESP_READ_REG_SUCCESS_64 :: u32 where [pkt_consts]: "RESP_READ_REG_SUCCESS_64 = 0b1010"
definition RESP_READ_REG_SUCCESS_128 :: u32 where [pkt_consts]: "RESP_READ_REG_SUCCESS_128 = 0b1011"
definition RESP_READ_REG_ERROR :: u32 where [pkt_consts]: "RESP_READ_REG_ERROR = 0b1100"
definition REQ_WRITE_REG_16 :: u32 where [pkt_consts]: "REQ_WRITE_REG_16 = 0b0100"
definition REQ_WRITE_REG_32 :: u32 where [pkt_consts]: "REQ_WRITE_REG_32 = 0b0101"
definition REQ_WRITE_REG_64 :: u32 where [pkt_consts]: "REQ_WRITE_REG_64 = 0b0110"
definition REQ_WRITE_REG_128 :: u32 where [pkt_consts]: "REQ_WRITE_REG_128 = 0b0111"
definition RESP_WRITE_REG_SUCCESS :: u32 where [pkt_consts]: "RESP_WRITE_REG_SUCCESS = 0b1110"
definition RESP_WRITE_REG_ERROR :: u32 where [pkt_consts]: "RESP_WRITE_REG_ERROR = 0b1111"

definition EV_LAST :: u32 where [pkt_consts]: "EV_LAST = 0"
definition EV_CONT :: u32 where [pkt_consts]: "EV_CONT = 1"
definition EV_OVERFLOW :: u32 where [pkt_consts]: "EV_OVERFLOW = 5"

definition DP_HEADER_TYPE_SHIFT :: nat where [pkt_consts]: "DP_HEADER_TYPE_SHIFT = 14"
definition DP_HEADER_TYPE_MASK :: u32 where [pkt_consts]: "DP_HEADER_TYPE_MASK = 0b11"
definition DP_HEADER_TYPE_SUB_SHIFT :: nat where [pkt_consts]: "DP_HEADER_TYPE_SUB_SHIFT = 10"
definition DP_HEADER_TYPE_SUB_MASK :: u32 where [pkt_consts]: "DP_HEADER_TYPE_SUB_MASK = 0b1111"
definition DP_HEADER_SRC_SHIFT :: nat where [pkt_consts]: "DP_HEADER_SRC_SHIFT = 0"
definition DP_HEADER_SRC_MASK :: u32 where [pkt_consts]: "DP_HEADER_SRC_MASK = 0xFFFF"
definition DP_HEADER_DEST_SHIFT :: nat where [pkt_consts]: "DP_HEADER_DEST_SHIFT = 0"
definition DP_HEADER_DEST_MASK :: u32 where [pkt_consts]: "DP_HEADER_DEST_MASK = 0xFFFF"

definition PACKET_HEADER_WORD_CNT :: nat where [pkt_consts]: "PACKET_HEADER_WORD_CNT = 3"

section \<open>Sizes and allocation\<close>

definition osd_packet_sizeconv_payload2data :: "nat \<Rightarrow> nat option" where
  "osd_packet_sizeconv_payload2data payload_words =
     (let s = (payload_words + PACKET_HEADER_WORD_CNT) mod 2 ^ 32
      in do { c_assert (s \<le> 65535); Some s })"

definition osd_packet_sizeconv_data2payload :: "nat \<Rightarrow> nat option" where
  "osd_packet_sizeconv_data2payload data_words =
     do { c_assert (data_words \<ge> PACKET_HEADER_WORD_CNT);
          Some (data_words - PACKET_HEADER_WORD_CNT) }"

definition osd_packet_new :: "nat \<Rightarrow> osd_packet" where
  "osd_packet_new n = \<lparr>data_size_words = of_nat n, data_raw = replicate n 0\<rparr>"

text \<open>
  Memory added by \<^verbatim>\<open>realloc\<close> has indeterminate contents: \<open>junk i\<close> is what happens to be in
  word \<open>i\<close> of the new allocation.
\<close>

definition osd_packet_realloc :: "(nat \<Rightarrow> u16) \<Rightarrow> osd_packet \<Rightarrow> nat \<Rightarrow> osd_packet" where
  "osd_packet_realloc junk p n =
     \<lparr>data_size_words = of_nat n,
      data_raw = take n (data_raw p) @ map junk [length (data_raw p)..<n]\<rparr>"

text \<open>
  The frame is copied with its full byte size; an odd size writes one byte past the
  allocation.
\<close>

definition osd_packet_new_from_zframe :: "u8 list \<Rightarrow> osd_packet option" where
  "osd_packet_new_from_zframe frame =
     (let data_size_words = length frame div 2
      in do { c_assert (data_size_words \<ge> PACKET_HEADER_WORD_CNT);
              c_assert (even (length frame));
              Some ((osd_packet_new data_size_words)\<lparr>data_raw := dec_words le16 frame\<rparr>) })"

definition osd_packet_free :: "osd_packet option \<Rightarrow> osd_packet option" where
  "osd_packet_free packet_p = None"

section \<open>Field access\<close>

definition packet_word :: "osd_packet \<Rightarrow> nat \<Rightarrow> u16 option" where
  "packet_word p i = (if i < length (data_raw p) then Some (data_raw p ! i) else None)"

definition packet_set_word :: "osd_packet \<Rightarrow> nat \<Rightarrow> u16 \<Rightarrow> osd_packet option" where
  "packet_set_word p i v =
     (if i < length (data_raw p) then Some (p\<lparr>data_raw := (data_raw p)[i := v]\<rparr>) else None)"

definition packet_payload :: "osd_packet \<Rightarrow> nat \<Rightarrow> u16 option" where
  "packet_payload p i = packet_word p (PACKET_HEADER_WORD_CNT + i)"

definition packet_set_payload :: "osd_packet \<Rightarrow> nat \<Rightarrow> u16 \<Rightarrow> osd_packet option" where
  "packet_set_payload p i v = packet_set_word p (PACKET_HEADER_WORD_CNT + i) v"

definition osd_packet_get_dest :: "osd_packet \<Rightarrow> u32 option" where
  "osd_packet_get_dest p =
     do { c_assert (unat (data_size_words p) \<ge> PACKET_HEADER_WORD_CNT);
          dest \<leftarrow> packet_word p 0;
          Some (drop_bit DP_HEADER_DEST_SHIFT (ucast dest) AND DP_HEADER_DEST_MASK) }"

definition osd_packet_get_src :: "osd_packet \<Rightarrow> u32 option" where
  "osd_packet_get_src p =
     do { c_assert (unat (data_size_words p) \<ge> PACKET_HEADER_WORD_CNT);
          src \<leftarrow> packet_word p 1;
          Some (drop_bit DP_HEADER_SRC_SHIFT (ucast src) AND DP_HEADER_SRC_MASK) }"

definition osd_packet_get_type :: "osd_packet \<Rightarrow> u32 option" where
  "osd_packet_get_type p =
     do { c_assert (unat (data_size_words p) \<ge> PACKET_HEADER_WORD_CNT);
          flags \<leftarrow> packet_word p 2;
          Some (drop_bit DP_HEADER_TYPE_SHIFT (ucast flags) AND DP_HEADER_TYPE_MASK) }"

definition osd_packet_get_type_sub :: "osd_packet \<Rightarrow> u32 option" where
  "osd_packet_get_type_sub p =
     do { c_assert (unat (data_size_words p) \<ge> PACKET_HEADER_WORD_CNT);
          flags \<leftarrow> packet_word p 2;
          Some (drop_bit DP_HEADER_TYPE_SUB_SHIFT (ucast flags) AND DP_HEADER_TYPE_SUB_MASK) }"

definition osd_packet_set_type_sub :: "osd_packet \<Rightarrow> u32 \<Rightarrow> osd_packet option" where
  "osd_packet_set_type_sub p type_sub =
     do { c_assert (type_sub AND DP_HEADER_TYPE_SUB_MASK = type_sub);
          flags \<leftarrow> packet_word p 2;
          let flags = flags AND ucast (NOT (push_bit DP_HEADER_TYPE_SUB_SHIFT DP_HEADER_TYPE_SUB_MASK));
          let flags = flags OR
                ucast (push_bit DP_HEADER_TYPE_SUB_SHIFT (type_sub AND DP_HEADER_TYPE_SUB_MASK));
          packet_set_word p 2 flags }"

definition osd_packet_set_header ::
  "osd_packet \<Rightarrow> u32 \<Rightarrow> u32 \<Rightarrow> u32 \<Rightarrow> u32 \<Rightarrow> osd_packet option" where
  "osd_packet_set_header p dest src type type_sub =
     do { c_assert (unat (data_size_words p) \<ge> PACKET_HEADER_WORD_CNT);
          p \<leftarrow> packet_set_word p 0 0;
          p \<leftarrow> packet_set_word p 1 0;
          p \<leftarrow> packet_set_word p 2 0;
          c_assert (dest AND DP_HEADER_DEST_MASK = dest);
          d \<leftarrow> packet_word p 0;
          p \<leftarrow> packet_set_word p 0
                 (d OR ucast (push_bit DP_HEADER_DEST_SHIFT (dest AND DP_HEADER_DEST_MASK)));
          c_assert (src AND DP_HEADER_SRC_MASK = src);
          s \<leftarrow> packet_word p 1;
          p \<leftarrow> packet_set_word p 1
                 (s OR ucast (push_bit DP_HEADER_SRC_SHIFT (src AND DP_HEADER_SRC_MASK)));
          c_assert (type AND DP_HEADER_TYPE_MASK = type);
          f \<leftarrow> packet_word p 2;
          p \<leftarrow> packet_set_word p 2
                 (f OR ucast (push_bit DP_HEADER_TYPE_SHIFT (type AND DP_HEADER_TYPE_MASK)));
          osd_packet_set_type_sub p type_sub }"

definition osd_packet_sizeof :: "osd_packet \<Rightarrow> nat" where
  "osd_packet_sizeof p = unat (data_size_words p) * 2"

section \<open>Combination\<close>

text \<open>
  The new size is computed in 16 bits. The copy of the second payload starts behind the
  payload of the first; it is undefined when it leaves the reallocated memory or reads past
  the second packet.
\<close>

definition osd_packet_combine ::
  "(nat \<Rightarrow> u16) \<Rightarrow> osd_packet \<Rightarrow> osd_packet \<Rightarrow> osd_packet option" where
  "osd_packet_combine junk first second =
     do { first_payload_size \<leftarrow> osd_packet_sizeconv_data2payload (unat (data_size_words first));
          second_payload_size \<leftarrow> osd_packet_sizeconv_data2payload (unat (data_size_words second));
          let old_size = data_size_words first;
          let new_size = old_size + of_nat second_payload_size;
          let p = osd_packet_realloc junk first (unat new_size);
          let at = PACKET_HEADER_WORD_CNT + first_payload_size;
          c_assert (at + second_payload_size \<le> length (data_raw p));
          c_assert (PACKET_HEADER_WORD_CNT + second_payload_size \<le> length (data_raw second));
          let copied = take second_payload_size (drop PACKET_HEADER_WORD_CNT (data_raw second));
          Some (p\<lparr>data_raw := take at (data_raw p) @ copied
                    @ drop (at + second_payload_size) (data_raw p)\<rparr>) }"

section \<open>Text dump\<close>

definition osd_packet_type_name :: "string list" where
  "osd_packet_type_name =
     [''OSD_PACKET_TYPE_REG'', ''OSD_PACKET_TYPE_RES1'',
      ''OSD_PACKET_TYPE_EVENT'', ''OSD_PACKET_TYPE_RES2'']"

definition sprintf_append :: "string option \<Rightarrow> string \<Rightarrow> string option" where
  "sprintf_append str s = (case str of None \<Rightarrow> Some s | Some t \<Rightarrow> Some (t @ s))"

fun dump_words :: "osd_packet \<Rightarrow> nat \<Rightarrow> nat \<Rightarrow> string option \<Rightarrow> string option option" where
  "dump_words p i 0 str = Some str"
| "dump_words p i (Suc k) str =
     do { w \<leftarrow> packet_word p i;
          dump_words p (Suc i) k
            (sprintf_append str (''  0x'' @ fmt_0x 4 (unat w) @ [CHR 0x0A])) }"

definition osd_packet_to_string :: "osd_packet \<Rightarrow> string option \<Rightarrow> string option option" where
  "osd_packet_to_string p str =
     do { let str = sprintf_append str
             (''Packet of '' @ fmt_u (unat (data_size_words p)) @ '' data words:'' @ [CHR 0x0A]);
          str \<leftarrow>
            (if unat (data_size_words p) \<ge> PACKET_HEADER_WORD_CNT then
               do { dest \<leftarrow> osd_packet_get_dest p;
                    src \<leftarrow> osd_packet_get_src p;
                    type \<leftarrow> osd_packet_get_type p;
                    type_sub \<leftarrow> osd_packet_get_type_sub p;
                    c_assert (unat type < length osd_packet_type_name);
                    Some (sprintf_append str
                      (''DEST = '' @ fmt_u (unat dest) @ '', SRC = '' @ fmt_u (unat src)
                        @ '', TYPE = '' @ fmt_u (unat type)
                        @ '' ('' @ osd_packet_type_name ! unat type @ '')''
                        @ '', TYPE_SUB = '' @ fmt_u (unat type_sub) @ [CHR 0x0A])) }
             else Some str);
          let str = sprintf_append str (''Packet data (including header):'' @ [CHR 0x0A]);
          dump_words p 0 (unat (data_size_words p)) str }"

definition osd_packet_dump :: "osd_packet \<Rightarrow> c_file \<Rightarrow> c_file option" where
  "osd_packet_dump p fd =
     do { str \<leftarrow> osd_packet_to_string p None;
          s \<leftarrow> str;
          Some (snd (fwrite (str_bytes s) fd)) }"

section \<open>Files\<close>

text \<open>The bytes of the structure in memory: the size field, then the data words.\<close>

definition packet_struct_bytes :: "osd_packet \<Rightarrow> u8 list" where
  "packet_struct_bytes p = enc_words le16_bytes (data_size_words p # data_raw p)"

definition osd_packet_fwrite :: "osd_packet \<Rightarrow> c_file \<Rightarrow> (bool \<times> c_file) option" where
  "osd_packet_fwrite p fd =
     do { let n = osd_packet_sizeof p + 2;
          c_assert (n \<le> length (packet_struct_bytes p));
          let (items_written, fd) = fwrite (take n (packet_struct_bytes p)) fd;
          Some (items_written = 1, fd) }"

definition osd_packet_fread :: "c_file \<Rightarrow> osd_packet option \<times> c_file" where
  "osd_packet_fread fd =
     (case fread 2 fd of (items_read, size_bytes, fd) \<Rightarrow>
        if items_read \<noteq> 1 then (None, fd)
        else (let data_size_words = unat (hd (dec_words le16 size_bytes));
                  pkg = osd_packet_new data_size_words
              in case fread (data_size_words * 2) fd of (items_read, bs, fd) \<Rightarrow>
                   if items_read \<noteq> 1 then (None, fd)
                   else (Some (pkg\<lparr>data_raw := dec_words le16 bs\<rparr>), fd)))"

section \<open>Comparison\<close>

text \<open>A pointer is an address with the structure it points to, or \<open>None\<close> for NULL.\<close>

definition osd_packet_equal ::
  "(nat \<times> osd_packet) option \<Rightarrow> (nat \<times> osd_packet) option \<Rightarrow> bool option" where
  "osd_packet_equal p1 p2 =
     (case (p1, p2) of
        (Some (a1, q1), Some (a2, q2)) \<Rightarrow>
          if a1 = a2 then Some True
          else if osd_packet_sizeof q1 \<noteq> osd_packet_sizeof q2 then Some False
          else do { let n = osd_packet_sizeof q1;
                    c_assert (n \<le> length (packet_struct_bytes q1));
                    c_assert (n \<le> length (packet_struct_bytes q2));
                    Some (take n (packet_struct_bytes q1) = take n (packet_struct_bytes q2)) }
      | _ \<Rightarrow> Some False)"

section \<open>Well-formed packets\<close>

text \<open>
  The size field describes the allocation, and the allocation holds at least the header.
\<close>

definition packet_wf :: "osd_packet \<Rightarrow> bool" where
  "packet_wf p \<longleftrightarrow> length (data_raw p) = unat (data_size_words p)
     \<and> PACKET_HEADER_WORD_CNT \<le> length (data_raw p)"

abbreviation payload_of :: "osd_packet \<Rightarrow> u16 list" where
  "payload_of p \<equiv> drop 3 (data_raw p)"

definition flags_word :: "u32 \<Rightarrow> u32 \<Rightarrow> u16" where
  "flags_word type type_sub = push_bit 14 (ucast type) OR push_bit 10 (ucast type_sub)"

text \<open>The packet with a given header in front of a given payload.\<close>

definition mk_packet :: "u32 \<Rightarrow> u32 \<Rightarrow> u32 \<Rightarrow> u32 \<Rightarrow> u16 list \<Rightarrow> osd_packet" where
  "mk_packet dest src type type_sub payload =
     \<lparr>data_size_words = of_nat (3 + length payload),
      data_raw = ucast dest # ucast src # flags_word type type_sub # payload\<rparr>"

definition hdr_in_range :: "u32 \<Rightarrow> u32 \<Rightarrow> u32 \<Rightarrow> u32 \<Rightarrow> bool" where
  "hdr_in_range dest src type type_sub \<longleftrightarrow>
     unat dest < 2 ^ 16 \<and> unat src < 2 ^ 16 \<and> unat type < 4 \<and> unat type_sub < 16"

lemma and_mask_eq_iff:
  fixes x :: u32
  shows "x AND mask n = x \<longleftrightarrow> unat x < 2 ^ n"
proof -
  have "x AND mask n = take_bit n x" by (simp add: take_bit_eq_mask)
  moreover have "take_bit n x = x \<longleftrightarrow> unat x < 2 ^ n"
    by (metis take_bit_nat_eq_self_iff unsigned_take_bit_eq unsigned_word_eqI)
  ultimately show ?thesis by simp
qed

lemma mask_lits: "(0xFFFF :: u32) = mask 16" "(0b1111 :: u32) = mask 4" "(0b11 :: u32) = mask 2"
  by (simp_all add: mask_eq_exp_minus_1)

lemma hdr_guards:
  "(dest AND DP_HEADER_DEST_MASK = dest) \<longleftrightarrow> unat dest < 2 ^ 16"
  "(src AND DP_HEADER_SRC_MASK = src) \<longleftrightarrow> unat src < 2 ^ 16"
  "(type AND DP_HEADER_TYPE_MASK = type) \<longleftrightarrow> unat type < 4"
  "(type_sub AND DP_HEADER_TYPE_SUB_MASK = type_sub) \<longleftrightarrow> unat type_sub < 16"
  unfolding pkt_consts mask_lits and_mask_eq_iff by simp_all

lemma packet_wf_words:
  assumes "packet_wf p"
  obtains d s f pl where "data_raw p = d # s # f # pl" "unat (data_size_words p) = 3 + length pl"
proof -
  from assms have "3 \<le> length (data_raw p)" and l: "length (data_raw p) = unat (data_size_words p)"
    by (simp_all add: packet_wf_def pkt_consts)
  then obtain d s f pl where "data_raw p = d # s # f # pl"
    by (metis (no_types) Suc_le_length_iff numeral_3_eq_3)
  with l show thesis using that by simp
qed

section \<open>Header fields\<close>

lemma set_type_sub_eq:
  assumes "packet_wf p" "unat type_sub < 16"
  shows "osd_packet_set_type_sub p type_sub =
     Some (p\<lparr>data_raw := (data_raw p)[2 := data_raw p ! 2 AND NOT (push_bit 10 0xF)
             OR push_bit 10 (ucast type_sub)]\<rparr>)"
proof -
  from assms obtain d s f pl where w: "data_raw p = d # s # f # pl" by (blast elim: packet_wf_words)
  have g: "type_sub AND DP_HEADER_TYPE_SUB_MASK = type_sub"
    using assms by (simp add: hdr_guards)
  have u: "ucast (push_bit 10 type_sub) = (push_bit 10 (ucast type_sub) :: u16)"
    by (rule bit_word_eqI) (auto simp: bit_simps)
  have n: "ucast (NOT (push_bit 10 DP_HEADER_TYPE_SUB_MASK) :: u32) = (NOT (push_bit 10 0xF) :: u16)"
    by (simp add: pkt_consts)
  show ?thesis
    using w by (simp add: osd_packet_set_type_sub_def g DP_HEADER_TYPE_SUB_SHIFT_def
        packet_word_def packet_set_word_def u n)
qed

lemma set_type_sub_out_of_range:
  "\<not> unat type_sub < 16 \<Longrightarrow> osd_packet_set_type_sub p type_sub = None"
  by (simp add: osd_packet_set_type_sub_def hdr_guards)

lemma ucast_push_bit: "ucast (push_bit n (x :: u32)) = (push_bit n (ucast x) :: u16)"
  by (rule bit_word_eqI) (auto simp: bit_simps)

lemma packet_eqI:
  fixes p q :: osd_packet
  assumes "data_size_words p = data_size_words q" "data_raw p = data_raw q"
  shows "p = q"
  using assms by simp

lemma bit_type_sub_field: "bit (15360 :: u16) n \<longleftrightarrow> 10 \<le> n \<and> n < 14"
proof -
  have "(15360 :: u16) = push_bit 10 (mask 4)" by (simp add: mask_eq_exp_minus_1)
  then show ?thesis by (simp only: bit_push_bit_iff bit_mask_iff) auto
qed

lemma type_sub_field_mask: "(- 15361 :: u16) = NOT 15360"
  by simp

lemma flags_word_clear: "push_bit 14 (x :: u16) AND - 15361 = push_bit 14 x"
  unfolding type_sub_field_mask
  by (rule bit_word_eqI) (auto simp only: bit_simps bit_type_sub_field)

lemma set_header_eq:
  assumes wf: "packet_wf p" and r: "hdr_in_range dest src type type_sub"
  shows "osd_packet_set_header p dest src type type_sub =
     Some (mk_packet dest src type type_sub (payload_of p))"
proof -
  from wf obtain d s f pl where w: "data_raw p = d # s # f # pl"
    and n: "unat (data_size_words p) = 3 + length pl" by (blast elim: packet_wf_words)
  have g: "dest AND DP_HEADER_DEST_MASK = dest" "src AND DP_HEADER_SRC_MASK = src"
    "type AND DP_HEADER_TYPE_MASK = type" and ts: "unat type_sub < 16"
    using r by (simp_all add: hdr_guards hdr_in_range_def)
  have size: "data_size_words p = of_nat (3 + length pl)"
    using n by (rule of_nat_unat_eq)
  let ?q = "p\<lparr>data_raw := ucast dest # ucast src # push_bit 14 (ucast type) # pl\<rparr>"
  have q: "packet_wf ?q" using n by (simp add: packet_wf_def pkt_consts)
  have "osd_packet_set_header p dest src type type_sub = osd_packet_set_type_sub ?q type_sub"
    using n w by (simp add: osd_packet_set_header_def g packet_word_def packet_set_word_def
        ucast_push_bit DP_HEADER_DEST_SHIFT_def DP_HEADER_SRC_SHIFT_def DP_HEADER_TYPE_SHIFT_def
        PACKET_HEADER_WORD_CNT_def)
  also have "\<dots> = Some (mk_packet dest src type type_sub (payload_of p))"
    using w by (simp add: set_type_sub_eq [OF q ts] mk_packet_def flags_word_def
        flags_word_clear size)
  finally show ?thesis .
qed

lemma set_header_out_of_range:
  assumes "\<not> hdr_in_range dest src type type_sub"
  shows "osd_packet_set_header p dest src type type_sub = None"
  using assms by (auto simp: osd_packet_set_header_def hdr_guards hdr_in_range_def
      packet_word_def packet_set_word_def set_type_sub_out_of_range)

lemma packet_wf_mk_packet [simp]:
  "length payload < 65533 \<Longrightarrow> packet_wf (mk_packet dest src type type_sub payload)"
  using unat_of_nat_u16 [of "3 + length payload"]
  by (simp add: packet_wf_def mk_packet_def pkt_consts)

lemma get_dest_wf: "packet_wf p \<Longrightarrow> osd_packet_get_dest p = Some (ucast (data_raw p ! 0))"
  and get_src_wf: "packet_wf p \<Longrightarrow> osd_packet_get_src p = Some (ucast (data_raw p ! 1))"
  and get_type_wf: "packet_wf p \<Longrightarrow> osd_packet_get_type p = Some (ucast (drop_bit 14 (data_raw p ! 2)))"
  and get_type_sub_wf:
    "packet_wf p \<Longrightarrow> osd_packet_get_type_sub p = Some (ucast (take_bit 4 (drop_bit 10 (data_raw p ! 2))))"
proof -
  assume wf: "packet_wf p"
  then obtain d s f pl where w: "data_raw p = d # s # f # pl"
    and n: "unat (data_size_words p) = 3 + length pl" by (blast elim: packet_wf_words)
  have m: "ucast x AND (mask 16 :: u32) = ucast x" for x :: u16
    by (rule bit_word_eqI) (auto simp: bit_simps dest: bit_u16_lt)
  have t: "drop_bit 14 (ucast f :: u32) AND mask 2 = ucast (drop_bit 14 f)"
    by (rule bit_word_eqI) (auto simp: bit_simps dest: bit_u16_lt)
  have ts: "drop_bit 10 (ucast f :: u32) AND mask 4 = ucast (take_bit 4 (drop_bit 10 f))"
    by (rule bit_word_eqI) (auto simp: bit_simps)
  show "osd_packet_get_dest p = Some (ucast (data_raw p ! 0))"
    using n w m by (simp add: osd_packet_get_dest_def pkt_consts packet_word_def mask_lits)
  show "osd_packet_get_src p = Some (ucast (data_raw p ! 1))"
    using n w m by (simp add: osd_packet_get_src_def pkt_consts packet_word_def mask_lits)
  show "osd_packet_get_type p = Some (ucast (drop_bit 14 (data_raw p ! 2)))"
    using n w t by (simp add: osd_packet_get_type_def pkt_consts packet_word_def mask_lits)
  show "osd_packet_get_type_sub p = Some (ucast (take_bit 4 (drop_bit 10 (data_raw p ! 2))))"
    using n w ts by (simp add: osd_packet_get_type_sub_def pkt_consts packet_word_def mask_lits)
qed

lemmas packet_getters_wf = get_dest_wf get_src_wf get_type_wf get_type_sub_wf

lemma packet_wf_of_zframe:
  "osd_packet_new_from_zframe fr = Some p \<Longrightarrow> length fr < 131072 \<Longrightarrow> packet_wf p"
  using unat_of_nat_u16 [of "length fr div 2"]
  by (auto simp: osd_packet_new_from_zframe_def osd_packet_new_def packet_wf_def Let_def
      le.length_dec_words split: if_splits)

lemma packet_wf_new:
  "3 \<le> n \<Longrightarrow> n < 65536 \<Longrightarrow> packet_wf (osd_packet_new n)"
  by (simp add: packet_wf_def osd_packet_new_def pkt_consts unat_of_nat_u16)

lemma payload_of_new [simp]: "payload_of (osd_packet_new n) = replicate (n - 3) 0"
  by (simp add: osd_packet_new_def)

lemma payload_of_mk_packet [simp]:
  "payload_of (mk_packet dest src type type_sub payload) = payload"
  by (simp add: mk_packet_def)

lemma ucast_u16_u32_id:
  assumes "unat (x :: u32) < 2 ^ 16"
  shows "ucast (ucast x :: u16) = x"
proof -
  have "take_bit 16 x = x" using assms by (simp add: and_mask_eq_iff take_bit_eq_mask)
  then have "bit x n \<Longrightarrow> n < 16" for n by (metis bit_take_bit_iff)
  then show ?thesis by (intro bit_word_eqI) (auto simp: bit_simps)
qed

lemma mk_packet_getters:
  assumes "hdr_in_range dest src type type_sub" "length payload < 65533"
  shows "osd_packet_get_dest (mk_packet dest src type type_sub payload) = Some dest"
    "osd_packet_get_src (mk_packet dest src type type_sub payload) = Some src"
    "osd_packet_get_type (mk_packet dest src type type_sub payload) = Some type"
    "osd_packet_get_type_sub (mk_packet dest src type type_sub payload) = Some type_sub"
proof -
  note wf = packet_wf_mk_packet [OF assms(2), of dest src type type_sub]
  have r: "unat dest < 2 ^ 16" "unat src < 2 ^ 16" and t: "take_bit 2 type = type"
    and ts: "take_bit 4 type_sub = type_sub"
    using assms(1) by (simp_all add: hdr_in_range_def and_mask_eq_iff take_bit_eq_mask)
  show "osd_packet_get_dest (mk_packet dest src type type_sub payload) = Some dest"
    "osd_packet_get_src (mk_packet dest src type type_sub payload) = Some src"
    using wf r by (simp_all add: packet_getters_wf mk_packet_def ucast_u16_u32_id)
  have tb: "bit type n \<Longrightarrow> n < 2" for n
    by (metis t bit_take_bit_iff)
  have sb: "bit type_sub n \<Longrightarrow> n < 4" for n
    by (metis ts bit_take_bit_iff)
  have "ucast (drop_bit 14 (flags_word type type_sub)) = type"
    by (rule bit_word_eqI) (auto simp: flags_word_def bit_simps dest: tb sb)
  then show "osd_packet_get_type (mk_packet dest src type type_sub payload) = Some type"
    using wf by (simp add: packet_getters_wf mk_packet_def)
  have "ucast (take_bit 4 (drop_bit 10 (flags_word type type_sub))) = type_sub"
    by (rule bit_word_eqI) (auto simp: flags_word_def bit_simps dest: tb sb)
  then show "osd_packet_get_type_sub (mk_packet dest src type type_sub payload) = Some type_sub"
    using wf by (simp add: packet_getters_wf mk_packet_def)
qed

lemma zframe_of_packet:
  assumes "packet_wf p"
  shows "osd_packet_new_from_zframe (enc_words le16_bytes (data_raw p)) = Some p"
  using assms by (simp add: osd_packet_new_from_zframe_def packet_wf_def osd_packet_new_def)

lemma length_packet_struct_bytes [simp]:
  "length (packet_struct_bytes p) = 2 + 2 * length (data_raw p)"
  unfolding packet_struct_bytes_def le.length_enc_words by simp

section \<open>Combination, comparison and files\<close>

lemma length_realloc [simp]: "length (data_raw (osd_packet_realloc junk p n)) = n"
  by (simp add: osd_packet_realloc_def)

lemma combine_steps:
  fixes junk :: "nat \<Rightarrow> u16"
  assumes "unat (data_size_words p) = n" "3 \<le> n" "unat (data_size_words q) = 3 + m"
    and "length (data_raw q) = 3 + m"
  defines "new \<equiv> unat (of_nat (n + m) :: u16)"
  defines "r \<equiv> osd_packet_realloc junk p new"
  shows "osd_packet_combine junk p q =
      (if n + m \<le> new
       then Some (r\<lparr>data_raw := take n (data_raw r) @ payload_of q @ drop (n + m) (data_raw r)\<rparr>)
       else None)"
proof -
  have size: "data_size_words p + of_nat m = of_nat (n + m)"
    using assms(1) by (metis of_nat_add of_nat_unat_eq)
  have "3 + (n - 3) = n" "take m (payload_of q) = payload_of q"
    using assms(2,4) by simp_all
  then show ?thesis
    unfolding osd_packet_combine_def osd_packet_sizeconv_data2payload_def Let_def
    using assms(1-4) by (simp add: size pkt_consts new_def r_def del: of_nat_add)
qed

lemma combine_eq:
  assumes p: "packet_wf p" and q: "packet_wf q"
  shows "osd_packet_combine junk p q =
     (if length (data_raw p) + length (payload_of q) < 65536
      then Some \<lparr>data_size_words = of_nat (length (data_raw p) + length (payload_of q)),
                 data_raw = data_raw p @ payload_of q\<rparr>
      else None)"
proof -
  let ?n = "length (data_raw p)"
  obtain m where m: "unat (data_size_words q) = 3 + m" "length (data_raw q) = 3 + m"
    using q by (auto elim!: packet_wf_words)
  let ?new = "unat (of_nat (?n + m) :: u16)"
  let ?r = "osd_packet_realloc junk p ?new"
  have lp: "unat (data_size_words p) = ?n" "3 \<le> ?n"
    using p by (simp_all add: packet_wf_def pkt_consts)
  note step = combine_steps [OF lp m, of junk]
  show ?thesis
  proof (cases "?n + m < 65536")
    case True
    then have n: "?new = ?n + m" by (rule unat_of_nat_u16)
    show ?thesis using True m(2)
      unfolding step n by (simp add: osd_packet_realloc_def)
  next
    case False
    then have "?new < ?n + m" using unat_u16_lt [of "of_nat (?n + m)"] by linarith
    then show ?thesis using False m(2) by (simp add: step)
  qed
qed

lemma packet_wf_combine:
  assumes "packet_wf p" "packet_wf q" "osd_packet_combine junk p q = Some r"
  shows "packet_wf r"
  using assms unat_of_nat_u16 [of "length (data_raw p) + length (payload_of q)"]
  by (auto simp: combine_eq packet_wf_def pkt_consts split: if_splits)

lemma take_struct_bytes:
  "n = unat (data_size_words p) \<Longrightarrow> n = length (data_raw p) \<Longrightarrow>
   take (2 * n) (packet_struct_bytes p) = enc_words le16_bytes (butlast (data_size_words p # data_raw p))"
proof -
  assume n: "n = unat (data_size_words p)" "n = length (data_raw p)"
  let ?ws = "data_size_words p # data_raw p"
  have "packet_struct_bytes p = enc_words le16_bytes (butlast ?ws) @ le16_bytes (last ?ws)"
    unfolding packet_struct_bytes_def
    by (metis append_butlast_last_id enc_words_simps list.distinct(1) append_Nil2)
  moreover have "length (enc_words le16_bytes (butlast ?ws)) = 2 * n"
    using n(2) unfolding le.length_enc_words by simp
  ultimately show ?thesis by (metis append_eq_conv_conj)
qed

lemma equal_eq:
  assumes wp: "length (data_raw p) = unat (data_size_words p)"
    and wq: "length (data_raw q) = unat (data_size_words q)"
    and ab: "a \<noteq> b"
  shows "osd_packet_equal (Some (a, p)) (Some (b, q)) =
     Some (data_size_words p = data_size_words q \<and> butlast (data_raw p) = butlast (data_raw q))"
proof (cases "data_size_words p = data_size_words q")
  case True
  define n where "n = unat (data_size_words q)"
  have n: "unat (data_size_words p) = n" "unat (data_size_words q) = n"
    "length (data_raw p) = n" "length (data_raw q) = n"
    using True wp wq by (simp_all add: n_def)
  have "osd_packet_equal (Some (a, p)) (Some (b, q)) =
      Some (take (2 * n) (packet_struct_bytes p) = take (2 * n) (packet_struct_bytes q))"
    using ab n by (simp add: osd_packet_equal_def osd_packet_sizeof_def Let_def mult.commute)
  also have "\<dots> = Some (butlast (data_size_words p # data_raw p) = butlast (data_size_words q # data_raw q))"
    using n by (simp only: take_struct_bytes le.enc_words_inject)
  also have "\<dots> = Some (butlast (data_raw p) = butlast (data_raw q))"
    using True n by auto
  finally show ?thesis using True by simp
qed (use ab in \<open>auto simp: osd_packet_equal_def osd_packet_sizeof_def word_unat_eq_iff\<close>)

lemma fread_two:
  "rd_buf f = le16_bytes x @ rest \<Longrightarrow> fread 2 f = (1, le16_bytes x, f\<lparr>rd_buf := rest\<rparr>)"
  by (simp add: fread_def le16_bytes_def)

lemma packet_fread_struct:
  assumes "length (data_raw p) = unat (data_size_words p)" "data_raw p \<noteq> []"
    and "rd_buf f = packet_struct_bytes p @ rest"
  shows "osd_packet_fread f = (Some p, f\<lparr>rd_buf := rest\<rparr>)"
proof -
  let ?bs = "enc_words le16_bytes (data_raw p)"
  have "rd_buf f = le16_bytes (data_size_words p) @ ?bs @ rest"
    using assms(3) by (simp add: packet_struct_bytes_def)
  then have r1: "fread 2 f = (1, le16_bytes (data_size_words p), f\<lparr>rd_buf := ?bs @ rest\<rparr>)"
    by (rule fread_two)
  have sz: "dec_words le16 (le16_bytes (data_size_words p)) = [data_size_words p]"
    using le.dec_enc_words [of "[data_size_words p]"] by simp
  have "length ?bs = unat (data_size_words p) * 2" "unat (data_size_words p) > 0"
    using assms by (simp_all add: le.length_enc_words flip: assms(1))
  then have "fread (unat (data_size_words p) * 2) (f\<lparr>rd_buf := ?bs @ rest\<rparr>) = (1, ?bs, f\<lparr>rd_buf := rest\<rparr>)"
    by (simp add: fread_def)
  then show ?thesis
    by (simp add: osd_packet_fread_def r1 sz osd_packet_new_def)
qed

lemma packet_fread_empty:
  assumes "data_size_words p = 0" "data_raw p = []" "rd_buf f = packet_struct_bytes p @ rest"
  shows "fst (osd_packet_fread f) = None"
proof -
  have "rd_buf f = le16_bytes 0 @ rest"
    using assms by (simp add: packet_struct_bytes_def)
  then have r1: "fread 2 f = (1, le16_bytes 0, f\<lparr>rd_buf := rest\<rparr>)"
    by (rule fread_two)
  have sz: "dec_words le16 (le16_bytes 0) = [0]"
    using le.dec_enc_words [of "[0]"] by simp
  have "fread 0 g = (0, [], g)" for g by (simp add: fread_def)
  then show ?thesis by (simp add: osd_packet_fread_def r1 sz)
qed

lemma packet_fwrite_struct:
  assumes "length (data_raw p) = unat (data_size_words p)" "2 + osd_packet_sizeof p \<le> wr_cap f"
  shows "osd_packet_fwrite p f =
     Some (True, f\<lparr>wr_buf := wr_buf f @ packet_struct_bytes p,
                   wr_cap := wr_cap f - length (packet_struct_bytes p)\<rparr>)"
proof -
  have "osd_packet_sizeof p + 2 = length (packet_struct_bytes p)"
    using assms(1) by (simp add: osd_packet_sizeof_def)
  moreover have "packet_struct_bytes p \<noteq> []"
    by (metis length_packet_struct_bytes list.size(3) add_is_0 zero_neq_numeral)
  ultimately show ?thesis
    using assms(2) by (simp add: osd_packet_fwrite_def fwrite_def Let_def)
qed

lemma dump_words_total:
  "i + k \<le> length (data_raw p) \<Longrightarrow>
   dump_words p i k (Some s) =
     Some (Some (s @ concat (map (\<lambda>w. ''  0x'' @ fmt_0x 4 (unat w) @ [CHR 0x0A]) (take k (drop i (data_raw p))))))"
proof (induction k arbitrary: i s)
  case (Suc k)
  then have "drop i (data_raw p) = data_raw p ! i # drop (Suc i) (data_raw p)"
    by (simp add: Cons_nth_drop_Suc)
  with Suc show ?case by (simp add: packet_word_def sprintf_append_def)
qed simp

section \<open>Packets as the library builds them\<close>

inductive built :: "osd_packet \<Rightarrow> bool" where
  built_new: "3 \<le> n \<Longrightarrow> n < 65536 \<Longrightarrow> built (osd_packet_new n)"
| built_frame: "osd_packet_new_from_zframe fr = Some p \<Longrightarrow> length fr < 131072 \<Longrightarrow> built p"
| built_fread: "osd_packet_fread f = (Some p, f') \<Longrightarrow> 3 \<le> unat (data_size_words p) \<Longrightarrow> built p"
| built_realloc: "built p \<Longrightarrow> 3 \<le> n \<Longrightarrow> n < 65536 \<Longrightarrow> built (osd_packet_realloc junk p n)"
| built_header: "built p \<Longrightarrow> osd_packet_set_header p dest src type type_sub = Some q \<Longrightarrow> built q"
| built_type_sub: "built p \<Longrightarrow> osd_packet_set_type_sub p type_sub = Some q \<Longrightarrow> built q"
| built_payload: "built p \<Longrightarrow> packet_set_payload p i v = Some q \<Longrightarrow> built q"
| built_combine: "built p \<Longrightarrow> built q \<Longrightarrow> osd_packet_combine junk p q = Some r \<Longrightarrow> built r"

lemma packet_set_word_wf: "packet_set_word p i v = Some q \<Longrightarrow> packet_wf p \<Longrightarrow> packet_wf q"
  by (auto simp: packet_set_word_def packet_wf_def split: if_splits)

lemma set_type_sub_wf: "osd_packet_set_type_sub p s = Some q \<Longrightarrow> packet_wf p \<Longrightarrow> packet_wf q"
  by (auto simp: osd_packet_set_type_sub_def Let_def split: bind_splits if_splits intro: packet_set_word_wf)

lemma set_header_wf: "osd_packet_set_header p dest src type type_sub = Some q \<Longrightarrow> packet_wf p \<Longrightarrow> packet_wf q"
  by (auto simp: osd_packet_set_header_def Let_def split: bind_splits if_splits dest!: packet_set_word_wf set_type_sub_wf)

lemma packet_fread_wf:
  assumes "osd_packet_fread f = (Some p, f')" "3 \<le> unat (data_size_words p)"
  shows "packet_wf p"
proof -
  obtain k bs g where "fread 2 f = (k, bs, g)" by (rule prod_cases3)
  moreover define n where "n = unat (hd (dec_words le16 bs))"
  moreover obtain k' bs' g' where r: "fread (n * 2) g = (k', bs', g')" by (rule prod_cases3)
  ultimately have p: "k' = 1 \<and> p = (osd_packet_new n)\<lparr>data_raw := dec_words le16 bs'\<rparr>"
    using assms(1) unfolding osd_packet_fread_def by (simp only: Let_def prod.case split: if_splits) auto
  have "length bs' = n * 2" using r p by (simp only: fread_def split: if_splits) auto
  moreover have "n < 65536" unfolding n_def by (rule unat_u16_lt)
  ultimately show ?thesis
    using assms(2) p by (simp add: packet_wf_def osd_packet_new_def pkt_consts unat_of_nat_u16 le.length_dec_words)
qed

lemma built_wf: "built p \<Longrightarrow> packet_wf p"
proof (induction rule: built.induct)
  case (built_new n)
  then show ?case by (intro packet_wf_new) simp_all
next
  case (built_fread f p f')
  then show ?case by (rule packet_fread_wf)
next
  case (built_realloc p n junk)
  then show ?case by (simp add: packet_wf_def pkt_consts) (simp add: osd_packet_realloc_def unat_of_nat_u16)
next
  case (built_payload p i v q)
  then show ?case by (auto simp: packet_set_payload_def intro: packet_set_word_wf)
qed (auto intro: packet_wf_of_zframe set_header_wf set_type_sub_wf packet_wf_combine)

section \<open>Properties\<close>

text \<open>
  (C38) Writing the header of a well-formed packet and reading it back: for field values in
  range, \<open>osd_packet_set_header\<close> returns, every getter returns the value written, and
  size and payload are untouched.
\<close>

theorem packet_header_roundtrip:
  assumes "packet_wf p" "hdr_in_range dest src type type_sub"
  shows "\<exists>q. osd_packet_set_header p dest src type type_sub = Some q \<and> packet_wf q
     \<and> osd_packet_get_dest q = Some dest \<and> osd_packet_get_src q = Some src
     \<and> osd_packet_get_type q = Some type \<and> osd_packet_get_type_sub q = Some type_sub
     \<and> data_size_words q = data_size_words p \<and> payload_of q = payload_of p"
proof -
  let ?q = "mk_packet dest src type type_sub (payload_of p)"
  from assms(1) obtain d s f pl where w: "data_raw p = d # s # f # pl"
    and n: "unat (data_size_words p) = 3 + length pl" by (blast elim: packet_wf_words)
  then have l: "length (payload_of p) < 65533"
    using unat_u16_lt [of "data_size_words p"] by simp
  have "data_size_words ?q = data_size_words p"
    using w of_nat_unat_eq [OF n] by (simp add: mk_packet_def)
  then show ?thesis
    using set_header_eq [OF assms] packet_wf_mk_packet [OF l] mk_packet_getters [OF assms(2) l]
    by simp
qed

theorem packet_header_roundtrip_witness:
  "\<exists>q. osd_packet_set_header (osd_packet_new 5) 0x1ab 0x157 OSD_PACKET_TYPE_EVENT EV_OVERFLOW = Some q
     \<and> osd_packet_get_dest q = Some 0x1ab \<and> osd_packet_get_type_sub q = Some 5"
proof -
  have "packet_wf (osd_packet_new 5)" by (rule packet_wf_new) simp_all
  moreover have "hdr_in_range 0x1ab 0x157 OSD_PACKET_TYPE_EVENT EV_OVERFLOW"
    by (simp add: hdr_in_range_def pkt_consts)
  ultimately show ?thesis
    using packet_header_roundtrip [of "osd_packet_new 5" "0x1ab" "0x157" OSD_PACKET_TYPE_EVENT EV_OVERFLOW]
    by (auto simp: EV_OVERFLOW_def)
qed

text \<open>
  \<open>osd_packet_combine\<close> on two well-formed packets: when the combined size fits the
  16 bit size field the result is the first packet followed by the payload of the second,
  independent of what the reallocated memory held; when it does not fit, the 16 bit size
  wraps and the copy leaves the allocation, so the call does not return a packet.
\<close>

theorem packet_combine_correct:
  assumes "packet_wf p" "packet_wf q"
  shows "osd_packet_combine junk p q =
     (if length (data_raw p) + length (payload_of q) < 65536
      then Some \<lparr>data_size_words = of_nat (length (data_raw p) + length (payload_of q)),
                 data_raw = data_raw p @ payload_of q\<rparr>
      else None)"
  using assms by (rule combine_eq)

theorem packet_combine_correct_witness:
  "osd_packet_combine (\<lambda>_. 0xABCD) (mk_packet 1 2 2 1 [10, 11]) (mk_packet 1 2 2 0 [12]) =
     Some \<lparr>data_size_words = 6, data_raw = [1, 2, flags_word 2 1, 10, 11, 12]\<rparr>"
  using packet_combine_correct [of "mk_packet 1 2 2 1 [10, 11]" "mk_packet 1 2 2 0 [12]" "\<lambda>_. 0xABCD"]
  by (simp add: mk_packet_def packet_wf_def pkt_consts)

text \<open>
  What \<open>osd_packet_equal\<close> decides for two different packet objects: \<^verbatim>\<open>memcmp\<close> gets the
  size of the data words only, while it starts at the size field, so the last data word of
  the packets is never compared.
\<close>

theorem packet_equal_ignores_last_word:
  assumes "length (data_raw p) = unat (data_size_words p)" "length (data_raw q) = unat (data_size_words q)"
    and "a \<noteq> b"
  shows "osd_packet_equal (Some (a, p)) (Some (b, q)) =
     Some (data_size_words p = data_size_words q \<and> butlast (data_raw p) = butlast (data_raw q))"
  using assms by (rule equal_eq)

theorem packet_equal_ignores_last_word_witness:
  "osd_packet_equal (Some (1, mk_packet 1 2 2 0 [0xdead, 0xbeef])) (Some (2, mk_packet 1 2 2 0 [0xdead, 0])) = Some True
   \<and> mk_packet 1 2 2 0 [0xdead, 0xbeef] \<noteq> mk_packet 1 2 2 0 [0xdead, 0]"
  using packet_equal_ignores_last_word
    [of "mk_packet 1 2 2 0 [0xdead, 0xbeef]" "mk_packet 1 2 2 0 [0xdead, 0]" 1 2]
  by (simp add: mk_packet_def)

text \<open>
  File round trip: a packet with at least one data word that is written to a stream
  with enough room is written completely, and reading a stream that holds the written bytes
  returns exactly this packet and consumes exactly these bytes.
\<close>

theorem packet_file_roundtrip:
  assumes "length (data_raw p) = unat (data_size_words p)" "data_raw p \<noteq> []"
    and "2 + osd_packet_sizeof p \<le> wr_cap f" "wr_buf f = []"
  shows "\<exists>f'. osd_packet_fwrite p f = Some (True, f')
     \<and> (\<forall>g rest. rd_buf g = wr_buf f' @ rest \<longrightarrow> osd_packet_fread g = (Some p, g\<lparr>rd_buf := rest\<rparr>))"
  using packet_fwrite_struct [OF assms(1,3)] packet_fread_struct [OF assms(1,2)] assms(4) by simp

theorem packet_file_roundtrip_witness:
  "\<exists>f'. osd_packet_fwrite (osd_packet_new 4) \<lparr>rd_buf = [], wr_buf = [], wr_cap = 10\<rparr> = Some (True, f')
     \<and> osd_packet_fread \<lparr>rd_buf = wr_buf f' @ [7], wr_buf = [], wr_cap = 0\<rparr> =
         (Some (osd_packet_new 4), \<lparr>rd_buf = [7], wr_buf = [], wr_cap = 0\<rparr>)"
proof -
  let ?f = "\<lparr>rd_buf = [], wr_buf = [], wr_cap = 10\<rparr> :: c_file"
  have "length (data_raw (osd_packet_new 4)) = unat (data_size_words (osd_packet_new 4))"
    "data_raw (osd_packet_new 4) \<noteq> []" "2 + osd_packet_sizeof (osd_packet_new 4) \<le> wr_cap ?f" "wr_buf ?f = []"
    by (simp_all add: osd_packet_new_def osd_packet_sizeof_def)
  from packet_file_roundtrip [OF this] show ?thesis by fastforce
qed

text \<open>
  The text dump of a well-formed packet returns: the index into the table of type names
  is always in range, and no word outside the allocation is read. Its last part lists all
  data words.
\<close>

theorem packet_to_string_total:
  assumes "packet_wf p"
  shows "\<exists>s. osd_packet_to_string p None = Some (Some (s @
     concat (map (\<lambda>w. ''  0x'' @ fmt_0x 4 (unat w) @ [CHR 0x0A]) (data_raw p))))"
proof -
  have l: "length (data_raw p) = unat (data_size_words p)" "3 \<le> unat (data_size_words p)"
    using assms by (simp_all add: packet_wf_def pkt_consts)
  have "unat (ucast (drop_bit 14 (data_raw p ! 2)) :: u32) = unat (data_raw p ! 2) div 2 ^ 14"
    by (simp add: drop_bit_eq_div unat_div)
  also have "\<dots> < 4"
    using unat_u16_lt [of "data_raw p ! 2"] by simp
  finally show ?thesis
    using l by (simp add: osd_packet_to_string_def packet_getters_wf [OF assms] pkt_consts
        osd_packet_type_name_def sprintf_append_def dump_words_total Let_def)
qed

theorem packet_to_string_total_witness:
  "\<exists>s. osd_packet_to_string (mk_packet 1 2 OSD_PACKET_TYPE_REG 3 [0xabcd]) None = Some (Some (s @
     concat (map (\<lambda>w. ''  0x'' @ fmt_0x 4 (unat w) @ [CHR 0x0A])
       (data_raw (mk_packet 1 2 OSD_PACKET_TYPE_REG 3 [0xabcd])))))"
  by (rule packet_to_string_total) simp

text \<open>
  (C33) Every packet that is allocated with a size that covers the header, created from a frame of less than 128 KiB, or read from a file
  with a size field that covers the header, and then changed by the operations of the library (setting the header, the
  subtype or a payload word, combining, reallocating to a size that covers the header) in any order, is well formed: its size field is the
  number of its data words and covers the header. Therefore none of the accessors of the header fields fails on it. The
  sizes are conditions since the code does not check them: \<^verbatim>\<open>osd_packet_new\<close>, \<^verbatim>\<open>osd_packet_realloc\<close> and \<^verbatim>\<open>osd_packet_fread\<close> also make packets
  of less than three words, on which the accessors abort.
\<close>

theorem built_packets_well_formed:
  assumes "built p"
  shows "length (data_raw p) = unat (data_size_words p) \<and> 3 \<le> length (data_raw p)
     \<and> (\<exists>dest src type sub. osd_packet_get_dest p = Some dest \<and> osd_packet_get_src p = Some src
          \<and> osd_packet_get_type p = Some type \<and> osd_packet_get_type_sub p = Some sub)"
  using built_wf [OF assms] by (simp add: get_dest_wf get_src_wf get_type_wf get_type_sub_wf) (simp add: packet_wf_def pkt_consts)

theorem built_packets_well_formed_witness:
  "\<exists>q. osd_packet_set_header (osd_packet_new 4) 1 2 2 0 = Some q \<and> built q \<and> length (data_raw q) = 4 \<and> osd_packet_get_dest q \<noteq> None"
proof -
  have b: "built (osd_packet_new 4)"
    by (rule built_new) simp_all
  have "packet_wf (osd_packet_new 4)" by (rule packet_wf_new) simp_all
  then obtain q where q: "osd_packet_set_header (osd_packet_new 4) 1 2 2 0 = Some q" "data_size_words q = 4"
    using set_header_eq [of "osd_packet_new 4" 1 2 2 0] by (auto simp: hdr_in_range_def mk_packet_def)
  have "built q" using b q(1) by (rule built_header)
  from built_packets_well_formed [OF this] this q show ?thesis by auto
qed

end
