(* ===== verification/Diaddr.thy ===== *)
theory Diaddr
  imports Prelude
begin

text \<open>
  Addresses of the debug interconnect (\<^verbatim>\<open>util.c\<close>, \<^verbatim>\<open>osd.h\<close>): a 16 bit address is a 6 bit
  subnet and a 10 bit local address.
\<close>

section \<open>Definitions\<close>

definition OSD_DIADDR_SUBNET_BITS :: nat where "OSD_DIADDR_SUBNET_BITS = 6"
definition OSD_DIADDR_LOCAL_BITS :: nat where "OSD_DIADDR_LOCAL_BITS = 16 - OSD_DIADDR_SUBNET_BITS"
definition OSD_DIADDR_SUBNET_MAX :: u32
  where "OSD_DIADDR_SUBNET_MAX = push_bit OSD_DIADDR_SUBNET_BITS 1 - 1"
definition OSD_DIADDR_LOCAL_MAX :: u32
  where "OSD_DIADDR_LOCAL_MAX = push_bit OSD_DIADDR_LOCAL_BITS 1 - 1"

definition osd_diaddr_subnet :: "u32 \<Rightarrow> u32" where
  "osd_diaddr_subnet diaddr = drop_bit OSD_DIADDR_LOCAL_BITS diaddr"

definition osd_diaddr_localaddr :: "u32 \<Rightarrow> u32" where
  "osd_diaddr_localaddr diaddr = diaddr AND (push_bit OSD_DIADDR_LOCAL_BITS 1 - 1)"

definition osd_diaddr_build :: "u32 \<Rightarrow> u32 \<Rightarrow> u32 option" where
  "osd_diaddr_build subnet local_diaddr =
     do { c_assert (subnet \<le> OSD_DIADDR_SUBNET_MAX);
          c_assert (local_diaddr \<le> OSD_DIADDR_LOCAL_MAX);
          Some (push_bit OSD_DIADDR_LOCAL_BITS subnet OR local_diaddr) }"

section \<open>Values\<close>

lemma diaddr_consts [simp]:
  "OSD_DIADDR_LOCAL_BITS = 10" "OSD_DIADDR_SUBNET_MAX = 63" "OSD_DIADDR_LOCAL_MAX = 1023"
  by (simp_all add: OSD_DIADDR_LOCAL_BITS_def OSD_DIADDR_SUBNET_BITS_def
      OSD_DIADDR_SUBNET_MAX_def OSD_DIADDR_LOCAL_MAX_def)

lemma localaddr_take_bit: "osd_diaddr_localaddr d = take_bit 10 d"
  by (simp add: osd_diaddr_localaddr_def take_bit_eq_mask mask_eq_exp_minus_1)

lemma unat_subnet: "unat (osd_diaddr_subnet d) = unat d div 1024"
  by (simp add: osd_diaddr_subnet_def unat_div drop_bit_eq_div)

lemma unat_localaddr: "unat (osd_diaddr_localaddr d) = unat d mod 1024"
  by (simp add: localaddr_take_bit take_bit_eq_mod unat_mod)

lemma unat_diaddr_or:
  assumes "unat s < 64" "unat l < 1024"
  shows "unat (push_bit 10 s OR l :: u32) = unat s * 1024 + unat l"
proof -
  have "take_bit 10 l = l"
    using assms(2) by (simp add: word_unat_eq_iff unsigned_take_bit_eq take_bit_nat_eq_self)
  then have "\<not> bit l n" if "10 \<le> n" for n using that by (metis bit_take_bit_iff not_le)
  then have "push_bit 10 s AND l = 0"
    by (intro bit_word_eqI) (auto simp: bit_simps)
  then have "push_bit 10 s OR l = push_bit 10 s + l"
    by (simp add: disjunctive_add_eq_or)
  moreover have "unat (push_bit 10 s :: u32) = unat s * 1024"
    using assms(1) by (simp add: push_bit_eq_mult unat_word_ariths)
  ultimately show ?thesis
    using assms by (simp add: unat_word_ariths)
qed

lemma build_eq:
  "osd_diaddr_build s l =
     (if unat s < 64 \<and> unat l < 1024 then Some (of_nat (unat s * 1024 + unat l)) else None)"
proof (cases "unat s < 64 \<and> unat l < 1024")
  case True
  then have "push_bit 10 s OR l = of_nat (unat s * 1024 + unat l)"
    by (intro of_nat_unat_eq unat_diaddr_or) simp_all
  with True show ?thesis by (simp add: osd_diaddr_build_def word_le_nat_alt)
qed (auto simp: osd_diaddr_build_def word_le_nat_alt)

lemma build_Some_unat:
  "osd_diaddr_build s l = Some d \<Longrightarrow> unat d = unat s * 1024 + unat l \<and> unat s < 64 \<and> unat l < 1024"
  using unat_of_nat_u32 [of "unat s * 1024 + unat l"] by (auto simp: build_eq split: if_splits)

section \<open>Properties\<close>

text \<open>
  Splitting and building addresses are inverse to each other: \<open>osd_diaddr_build\<close>
  returns exactly for a subnet up to 63 and a local address up to 1023, its result is below
  \<open>2 ^ 16\<close> and splits into these parts, and every 16 bit address is rebuilt from its parts.
\<close>

theorem diaddr_split_build:
  "osd_diaddr_build s l = Some d \<longleftrightarrow>
     unat d < 2 ^ 16 \<and> osd_diaddr_subnet d = s \<and> osd_diaddr_localaddr d = l"
proof
  assume "osd_diaddr_build s l = Some d"
  from build_Some_unat [OF this] show "unat d < 2 ^ 16 \<and> osd_diaddr_subnet d = s \<and> osd_diaddr_localaddr d = l"
    by (simp add: word_unat_eq_iff unat_subnet unat_localaddr)
next
  assume d: "unat d < 2 ^ 16 \<and> osd_diaddr_subnet d = s \<and> osd_diaddr_localaddr d = l"
  then have "unat s = unat d div 1024" "unat l = unat d mod 1024"
    by (auto simp: unat_subnet unat_localaddr)
  moreover have "unat d div 1024 < 64" using d by (simp add: less_mult_imp_div_less)
  ultimately show "osd_diaddr_build s l = Some d"
    by (simp add: build_eq)
qed

end
