(* ===== verification/Modules.thy ===== *)
theory Modules
  imports Prelude
begin

text \<open>
  Well-known debug modules (\<^verbatim>\<open>module.c\<close>, \<^verbatim>\<open>module.h\<close>): vendor and type identifiers, the
  descriptor of a module instance and the tables of names.
\<close>

section \<open>Definitions\<close>

named_theorems module_ids \<open>numeric values of vendor and type identifiers\<close>

definition OSD_MODULE_VENDOR_UNKNOWN :: u16 where [module_ids]: "OSD_MODULE_VENDOR_UNKNOWN = 0x0000"
definition OSD_MODULE_VENDOR_OSD :: u16 where [module_ids]: "OSD_MODULE_VENDOR_OSD = 0x0001"
definition OSD_MODULE_VENDOR_OPTIMSOC :: u16 where [module_ids]: "OSD_MODULE_VENDOR_OPTIMSOC = 0x0002"
definition OSD_MODULE_VENDOR_LOWRISC :: u16 where [module_ids]: "OSD_MODULE_VENDOR_LOWRISC = 0x0003"

definition OSD_MODULE_TYPE_STD_UNKNOWN :: u16 where [module_ids]: "OSD_MODULE_TYPE_STD_UNKNOWN = 0x0000"
definition OSD_MODULE_TYPE_STD_SCM :: u16 where [module_ids]: "OSD_MODULE_TYPE_STD_SCM = 0x0001"
definition OSD_MODULE_TYPE_STD_DEM_UART :: u16 where [module_ids]: "OSD_MODULE_TYPE_STD_DEM_UART = 0x0002"
definition OSD_MODULE_TYPE_STD_MAM :: u16 where [module_ids]: "OSD_MODULE_TYPE_STD_MAM = 0x0003"
definition OSD_MODULE_TYPE_STD_STM :: u16 where [module_ids]: "OSD_MODULE_TYPE_STD_STM = 0x0004"
definition OSD_MODULE_TYPE_STD_CTM :: u16 where [module_ids]: "OSD_MODULE_TYPE_STD_CTM = 0x0005"
definition OSD_MODULE_TYPE_STD_CDM :: u16 where [module_ids]: "OSD_MODULE_TYPE_STD_CDM = 0x0006"

record osd_module_desc =
  mod_addr :: u16
  mod_vendor :: u16
  mod_type :: u16
  mod_version :: u16

definition OSD_MODULE_TYPE_STD_shortnames :: "string list" where
  "OSD_MODULE_TYPE_STD_shortnames =
     [''UNKNOWN'', ''SCM'', ''DEM_UART'', ''MAM'', ''STM'', ''CTM'', ''CDM'']"

definition OSD_MODULE_TYPE_STD_longnames :: "string list" where
  "OSD_MODULE_TYPE_STD_longnames =
     [''UNKNOWN'', ''Subnet Control Module'', ''Device Emulation Module UART'',
      ''Memory Access Module'', ''System Trace Module'', ''Core Trace Module'', ''Core Debug Module'']"

text \<open>
  The guard compares the type with \<^verbatim>\<open>sizeof\<close> of the table, its size in bytes: eight times
  the number of entries on a 64 bit host. Reading an entry behind the table is undefined.
\<close>

definition sizeof_ptr_array :: "'a list \<Rightarrow> nat" where
  "sizeof_ptr_array tab = 8 * length tab"

definition osd_module_get_type_short_name :: "u32 \<Rightarrow> u32 \<Rightarrow> string option" where
  "osd_module_get_type_short_name vendor_id type_id =
     (if vendor_id \<noteq> ucast OSD_MODULE_VENDOR_OSD then Some ''UNKNOWN''
      else if unat type_id \<ge> sizeof_ptr_array OSD_MODULE_TYPE_STD_shortnames then Some ''UNKNOWN''
      else do { c_assert (unat type_id < length OSD_MODULE_TYPE_STD_shortnames);
                Some (OSD_MODULE_TYPE_STD_shortnames ! unat type_id) })"

definition osd_module_get_type_long_name :: "u32 \<Rightarrow> u32 \<Rightarrow> string option" where
  "osd_module_get_type_long_name vendor_id type_id =
     (if vendor_id \<noteq> ucast OSD_MODULE_VENDOR_OSD then Some ''UNKNOWN''
      else if unat type_id \<ge> sizeof_ptr_array OSD_MODULE_TYPE_STD_longnames then Some ''UNKNOWN''
      else do { c_assert (unat type_id < length OSD_MODULE_TYPE_STD_longnames);
                Some (OSD_MODULE_TYPE_STD_longnames ! unat type_id) })"

section \<open>Properties\<close>

text \<open>
  The name lookups are undefined exactly for the module types 7 to 55 of the vendor OSD:
  the range check uses the size of the table in bytes, so types that have no entry pass it
  and the lookup reads behind the table instead of returning \<^verbatim>\<open>UNKNOWN\<close>.
\<close>

theorem module_name_out_of_bounds:
  "(osd_module_get_type_short_name vendor_id type_id = None \<longleftrightarrow>
     vendor_id = 1 \<and> 7 \<le> unat type_id \<and> unat type_id < 56)
   \<and> (osd_module_get_type_long_name vendor_id type_id = None \<longleftrightarrow>
     vendor_id = 1 \<and> 7 \<le> unat type_id \<and> unat type_id < 56)"
  by (auto simp: osd_module_get_type_short_name_def osd_module_get_type_long_name_def
      sizeof_ptr_array_def OSD_MODULE_TYPE_STD_shortnames_def OSD_MODULE_TYPE_STD_longnames_def
      OSD_MODULE_VENDOR_OSD_def)

end
