(* ===== verification/Osd_Log.thy ===== *)
theory Osd_Log
  imports C_Stdlib
begin

text \<open>
  The logging context (\<^verbatim>\<open>log.c\<close>) and the conditional logging macros of \<^verbatim>\<open>osd-private.h\<close>.
  The log callback is supplied by the user of the library: a function from priority and
  formatted message to an effect on the world. The mutex is the flag \<open>log_locked\<close>.
\<close>

section \<open>Definitions\<close>

text \<open>Priorities of \<^verbatim>\<open>syslog.h\<close>.\<close>

definition LOG_ERR :: int where "LOG_ERR = 3"
definition LOG_INFO :: int where "LOG_INFO = 6"
definition LOG_DEBUG :: int where "LOG_DEBUG = 7"

definition LOG_PRIORITY_DEFAULT :: int where "LOG_PRIORITY_DEFAULT = LOG_ERR"

record ('c, 'w) osd_log_ctx =
  log_fn :: "(int \<Rightarrow> string \<Rightarrow> 'w \<Rightarrow> 'w) option"
  log_priority :: int
  caller_ctx :: "'c option"
  log_locked :: bool

text \<open>Locking a locked non-recursive mutex never returns.\<close>

definition osd_vlog ::
  "('c, 'w) osd_log_ctx \<Rightarrow> int \<Rightarrow> string \<Rightarrow> 'w \<Rightarrow> (('c, 'w) osd_log_ctx \<times> 'w) option" where
  "osd_vlog ctx priority msg w =
     (case log_fn ctx of
        None \<Rightarrow> Some (ctx, w)
      | Some f \<Rightarrow> do { c_assert (\<not> log_locked ctx);
                      let ctx = ctx\<lparr>log_locked := True\<rparr>;
                      let w = f priority msg w;
                      let ctx = ctx\<lparr>log_locked := False\<rparr>;
                      Some (ctx, w) })"

definition osd_log ::
  "('c, 'w) osd_log_ctx \<Rightarrow> int \<Rightarrow> string \<Rightarrow> 'w \<Rightarrow> (('c, 'w) osd_log_ctx \<times> 'w) option" where
  "osd_log ctx priority msg w = osd_vlog ctx priority msg w"

definition osd_log_new ::
  "int \<Rightarrow> (int \<Rightarrow> string \<Rightarrow> 'w \<Rightarrow> 'w) option \<Rightarrow> ('c, 'w) osd_log_ctx" where
  "osd_log_new log_prio fn =
     \<lparr>log_fn = fn, log_priority = (if log_prio = 0 then LOG_PRIORITY_DEFAULT else log_prio),
      caller_ctx = None, log_locked = False\<rparr>"

definition osd_log_free :: "('c, 'w) osd_log_ctx option \<Rightarrow> ('c, 'w) osd_log_ctx option" where
  "osd_log_free ctx_p = (case ctx_p of None \<Rightarrow> None | Some ctx \<Rightarrow> None)"

definition osd_log_set_fn ::
  "('c, 'w) osd_log_ctx \<Rightarrow> (int \<Rightarrow> string \<Rightarrow> 'w \<Rightarrow> 'w) option \<Rightarrow> ('c, 'w) osd_log_ctx" where
  "osd_log_set_fn ctx fn = ctx\<lparr>log_fn := fn\<rparr>"

definition osd_log_get_priority :: "('c, 'w) osd_log_ctx \<Rightarrow> int" where
  "osd_log_get_priority ctx = log_priority ctx"

definition osd_log_set_priority :: "('c, 'w) osd_log_ctx \<Rightarrow> int \<Rightarrow> ('c, 'w) osd_log_ctx" where
  "osd_log_set_priority ctx priority = ctx\<lparr>log_priority := priority\<rparr>"

definition osd_log_set_caller_ctx :: "('c, 'w) osd_log_ctx \<Rightarrow> 'c option \<Rightarrow> ('c, 'w) osd_log_ctx" where
  "osd_log_set_caller_ctx ctx c = ctx\<lparr>caller_ctx := c\<rparr>"

definition osd_log_get_caller_ctx :: "('c, 'w) osd_log_ctx \<Rightarrow> 'c option" where
  "osd_log_get_caller_ctx ctx = caller_ctx ctx"

text \<open>The macro \<^verbatim>\<open>osd_log_cond\<close>; a NULL context is \<open>None\<close>.\<close>

definition osd_log_cond ::
  "('c, 'w) osd_log_ctx option \<Rightarrow> int \<Rightarrow> string \<Rightarrow> 'w \<Rightarrow> (('c, 'w) osd_log_ctx option \<times> 'w) option" where
  "osd_log_cond ctx prio msg w =
     (case ctx of
        None \<Rightarrow> Some (None, w)
      | Some c \<Rightarrow> if osd_log_get_priority c \<ge> prio
                 then do { (c, w) \<leftarrow> osd_log c prio msg w; Some (Some c, w) }
                 else Some (Some c, w))"

section \<open>Properties\<close>

text \<open>
  Which messages reach the callback: with an unlocked context, logging always returns
  and leaves the context unlocked and unchanged, and the callback runs exactly once if a
  callback is set and the message is at most as verbose as the configured priority, else
  not at all.
\<close>

theorem log_cond_delivers:
  assumes "\<not> log_locked c"
  shows "osd_log_cond (Some c) prio msg w =
     Some (Some c, (case log_fn c of
        Some f \<Rightarrow> if prio \<le> log_priority c then f prio msg w else w
      | None \<Rightarrow> w))"
  using assms by (auto simp: osd_log_cond_def osd_log_def osd_vlog_def osd_log_get_priority_def
      Let_def split: option.splits)

theorem log_cond_delivers_witness:
  "let c = osd_log_new 0 (Some (\<lambda>p m w. w @ [m])) in
   osd_log_cond (Some c) LOG_ERR ''boom'' [] = Some (Some (c :: (unit, string list) osd_log_ctx), [''boom''])
   \<and> osd_log_cond (Some c) LOG_DEBUG ''noise'' [] = Some (Some c, [])"
proof -
  let ?c = "osd_log_new 0 (Some (\<lambda>p m w. w @ [m])) :: (unit, string list) osd_log_ctx"
  have "\<not> log_locked ?c" by (simp add: osd_log_new_def)
  note log_cond_delivers [OF this, of LOG_ERR "''boom''" "[]"]
    and log_cond_delivers [OF this, of LOG_DEBUG "''noise''" "[]"]
  then show ?thesis
    by (simp add: Let_def) (simp add: osd_log_new_def LOG_PRIORITY_DEFAULT_def LOG_ERR_def LOG_DEBUG_def)
qed

end
