(* ===== verification/Zmq.thy ===== *)
theory Zmq
  imports C_Stdlib
begin

text \<open>
  The messaging library (czmq) and POSIX threads as parameters. The sources only call these
  libraries, so their operations are the fields of a record that every definition using
  them takes as its first argument. What a theorem relies on is stated by the named
  predicates below (\<open>fifo_recv\<close>, \<open>zlist_laws\<close>, ...), which describe documented behaviour:
  messages of a socket arrive in order, a receive without a message times out, a list keeps
  its items in order and removes the item it is told to remove.

  A message is a list of frames, a frame a list of bytes.
\<close>

section \<open>Messages\<close>

type_synonym zframe = "u8 list"
type_synonym zmsg = "zframe list"

text \<open>
  \<open>frame_str\<close> is the C string a frame is duplicated to: it ends at the first zero byte.
  \<open>frame_streq\<close> compares the whole frame.
\<close>

definition frame_str :: "zframe \<Rightarrow> string" where
  "frame_str f = bytes_str (takeWhile (\<lambda>b. b \<noteq> 0) f)"

definition frame_streq :: "zframe \<Rightarrow> string \<Rightarrow> bool" where
  "frame_streq f s \<longleftrightarrow> f = str_bytes s"

text \<open>An \<^verbatim>\<open>int\<close> as the frame of its four bytes.\<close>

definition int_bytes :: "int \<Rightarrow> u8 list" where
  "int_bytes i = (let w = word_of_int i :: u32 in
     [ucast w, ucast (drop_bit 8 w), ucast (drop_bit 16 w), ucast (drop_bit 24 w)])"

definition bytes_int :: "u8 list \<Rightarrow> int" where
  "bytes_int bs =
     sint (ucast (bs ! 0) OR push_bit 8 (ucast (bs ! 1)) OR push_bit 16 (ucast (bs ! 2))
           OR push_bit 24 (ucast (bs ! 3)) :: u32)"

section \<open>Sockets, the event loop and threads\<close>

text \<open>The sockets of one component, by the structure member that holds them.\<close>

datatype sock =
    Inproc_main      \<comment> \<open>\<^verbatim>\<open>worker_ctx.inproc_socket\<close>\<close>
  | Inproc_thread    \<comment> \<open>\<^verbatim>\<open>worker_thread_ctx.inproc_socket\<close>\<close>
  | Hostctrl_socket  \<comment> \<open>\<^verbatim>\<open>hostctrl_socket\<close>\<close>
  | Router_socket    \<comment> \<open>\<^verbatim>\<open>router_socket\<close>\<close>
  | Device_rx_main   \<comment> \<open>\<^verbatim>\<open>osd_gateway_ctx.device_rx_socket\<close>\<close>
  | Device_rx_thread \<comment> \<open>\<^verbatim>\<open>hostiothread_usr_ctx.device_rx_socket\<close>\<close>

datatype recv_result = Received zmsg | Again | Interrupted

record 'w zmq =
  zmsg_send :: "sock \<Rightarrow> zmsg \<Rightarrow> 'w \<Rightarrow> int \<times> 'w"
  zmsg_recv :: "sock \<Rightarrow> 'w \<Rightarrow> recv_result \<times> 'w"
  zsock_new :: "sock \<Rightarrow> string \<Rightarrow> 'w \<Rightarrow> bool \<times> 'w"
  zsock_bind :: "sock \<Rightarrow> string \<Rightarrow> 'w \<Rightarrow> int \<times> 'w"
  zsock_connect :: "sock \<Rightarrow> string \<Rightarrow> 'w \<Rightarrow> int \<times> 'w"
  zsock_destroy :: "sock \<Rightarrow> 'w \<Rightarrow> 'w"
  zloop_reader :: "sock \<Rightarrow> 'w \<Rightarrow> int \<times> 'w"
  zloop_reader_end :: "sock \<Rightarrow> 'w \<Rightarrow> 'w"
  zuuid_str :: "'w \<Rightarrow> string \<times> 'w"
  pthread_create :: "'w \<Rightarrow> int \<times> 'w"
  pthread_join :: "'w \<Rightarrow> 'w"
  pthread_cancel :: "'w \<Rightarrow> 'w"
  thread_is_running :: "'w \<Rightarrow> bool"

text \<open>
  \<open>fifo_recv z s q\<close>: \<open>q w\<close> are the messages waiting at socket \<open>s\<close>; a receive takes the first
  one, and times out when there is none.
\<close>

definition fifo_recv :: "'w zmq \<Rightarrow> sock \<Rightarrow> ('w \<Rightarrow> zmsg list) \<Rightarrow> bool" where
  "fifo_recv z s q \<longleftrightarrow>
     (\<forall>w. case q w of
        [] \<Rightarrow> fst (zmsg_recv z s w) = Again \<and> q (snd (zmsg_recv z s w)) = []
      | m # ms \<Rightarrow> fst (zmsg_recv z s w) = Received m \<and> q (snd (zmsg_recv z s w)) = ms)"

lemma fifo_recv_Cons:
  assumes "fifo_recv z s q" "q w = m # ms"
  obtains w' where "zmsg_recv z s w = (Received m, w')" "q w' = ms"
  using assms by (metis (mono_tags, lifting) fifo_recv_def list.simps(5) prod.collapse)

lemma fifo_recv_Nil:
  assumes "fifo_recv z s q" "q w = []"
  obtains w' where "zmsg_recv z s w = (Again, w')" "q w' = []"
  using assms by (metis (mono_tags, lifting) fifo_recv_def list.simps(4) prod.collapse)

section \<open>Lists with a cursor\<close>

record ('l, 'p) zlist =
  zlist_append :: "'l \<Rightarrow> 'p \<Rightarrow> 'l"
  zlist_first :: "'l \<Rightarrow> 'p option \<times> 'l"
  zlist_next :: "'l \<Rightarrow> 'p option \<times> 'l"
  zlist_remove :: "'l \<Rightarrow> 'p option \<Rightarrow> 'l"

text \<open>
  \<open>zlist_laws zl items rest\<close>: \<open>items l\<close> are the items of a list, \<open>rest l\<close> those that
  \<open>zlist_next\<close> has still to return. Removing an item takes its first occurrence out and
  leaves the position alone; removing NULL, which is no item, changes nothing.
\<close>

definition head_opt :: "'p list \<Rightarrow> 'p option" where
  "head_opt xs = (case xs of [] \<Rightarrow> None | x # _ \<Rightarrow> Some x)"

definition zlist_laws :: "('l, 'p) zlist \<Rightarrow> ('l \<Rightarrow> 'p list) \<Rightarrow> ('l \<Rightarrow> 'p list) \<Rightarrow> bool" where
  "zlist_laws zl items rest \<longleftrightarrow>
     (\<forall>l p. items (zlist_append zl l p) = items l @ [p])
   \<and> (\<forall>l. fst (zlist_first zl l) = head_opt (items l)
          \<and> items (snd (zlist_first zl l)) = items l
          \<and> rest (snd (zlist_first zl l)) = tl (items l))
   \<and> (\<forall>l. fst (zlist_next zl l) = head_opt (rest l)
          \<and> items (snd (zlist_next zl l)) = items l
          \<and> rest (snd (zlist_next zl l)) = tl (rest l))
   \<and> (\<forall>l p. items (zlist_remove zl l (Some p)) = remove1 p (items l)
          \<and> (p \<notin> set (rest l) \<longrightarrow> rest (zlist_remove zl l (Some p)) = rest l))
   \<and> (\<forall>l. items (zlist_remove zl l None) = items l \<and> rest (zlist_remove zl l None) = rest l)"

section \<open>Lemmas\<close>

lemma frame_str_bytes:
  assumes "\<forall>c \<in> set s. c \<noteq> CHR 0x00"
  shows "frame_str (str_bytes s) = s"
proof -
  have "(of_nat (of_char c) :: u8) \<noteq> 0" if "c \<noteq> CHR 0x00" for c
  proof
    assume "(of_nat (of_char c) :: u8) = 0"
    then have "str_bytes [c] = str_bytes [CHR 0x00]" by (simp add: str_bytes_def)
    with that show False by simp
  qed
  with assms have "takeWhile (\<lambda>b. b \<noteq> 0) (str_bytes s) = str_bytes s"
    by (auto simp: str_bytes_def takeWhile_eq_all_conv)
  then show ?thesis unfolding frame_str_def by (simp only: bytes_str_str_bytes)
qed

lemma length_int_bytes [simp]: "length (int_bytes i) = 4"
  by (simp add: int_bytes_def Let_def)

lemma bytes_int_int_bytes:
  assumes "- (2 ^ 31) \<le> i" "i < 2 ^ 31"
  shows "bytes_int (int_bytes i) = i"
proof -
  let ?w = "word_of_int i :: u32"
  have "ucast (ucast ?w :: u8) OR push_bit 8 (ucast (ucast (drop_bit 8 ?w) :: u8))
      OR push_bit 16 (ucast (ucast (drop_bit 16 ?w) :: u8))
      OR push_bit 24 (ucast (ucast (drop_bit 24 ?w) :: u8)) = ?w"
  proof (rule bit_word_eqI)
    fix n assume "n < LENGTH(32)"
    then consider "n < 8" | "8 \<le> n" "n < 16" | "16 \<le> n" "n < 24" | "24 \<le> n" "n < 32" by fastforce
    then show "bit (ucast (ucast ?w :: u8) OR push_bit 8 (ucast (ucast (drop_bit 8 ?w) :: u8))
        OR push_bit 16 (ucast (ucast (drop_bit 16 ?w) :: u8))
        OR push_bit 24 (ucast (ucast (drop_bit 24 ?w) :: u8)) :: u32) n = bit ?w n"
      by cases (auto simp: bit_simps)
  qed
  moreover have "sint ?w = i"
    using assms by (simp add: signed_of_int signed_take_bit_int_eq_self)
  ultimately show ?thesis by (simp add: bytes_int_def int_bytes_def Let_def)
qed

end
