(* ===== verification/Worker.thy ===== *)
theory Worker
  imports Zmq
begin

text \<open>
  The reactive in-process worker (\<^verbatim>\<open>worker.c\<close>, \<^verbatim>\<open>worker.h\<close>) under the host module, the host
  controller and the gateway: status messages between the main thread and the worker
  thread, the dispatcher of the worker thread, its main function, and its creation and
  shutdown.

  \<open>'s\<close> is the user context of the worker thread, \<open>'w\<close> the world.
\<close>

section \<open>Messages between the threads\<close>

definition worker_send_data ::
  "'w zmq \<Rightarrow> sock \<Rightarrow> string \<Rightarrow> u8 list option \<Rightarrow> 'w \<Rightarrow> 'w option" where
  "worker_send_data z socket name data w =
     do { let msg = str_bytes name # (case data of
                Some d \<Rightarrow> if length d > 0 then [d] else []
              | None \<Rightarrow> []);
          let (zmq_rv, w) = zmsg_send z socket msg w;
          c_assert (zmq_rv = 0);
          Some w }"

definition worker_send_status :: "'w zmq \<Rightarrow> sock \<Rightarrow> string \<Rightarrow> int \<Rightarrow> 'w \<Rightarrow> 'w option" where
  "worker_send_status z socket name value w =
     worker_send_data z socket name (Some (int_bytes value)) w"

definition worker_main_send_status ::
  "'w zmq \<Rightarrow> string \<Rightarrow> int \<Rightarrow> 'w \<Rightarrow> (osd_result \<times> 'w) option" where
  "worker_main_send_status z name value w =
     (if \<not> thread_is_running z w then Some (OSD_ERROR_NOT_CONNECTED, w)
      else do { w \<leftarrow> worker_send_status z Inproc_main name value w; Some (OSD_OK, w) })"

text \<open>
  The receive loop: messages whose name does not start with \<^verbatim>\<open>I-\<close> are dropped, the first
  status message ends the loop. The result is the status value, or the error code.
\<close>

partial_function (option) wait_loop ::
  "'w zmq \<Rightarrow> sock \<Rightarrow> string \<Rightarrow> 'w \<Rightarrow> ((osd_result + int) \<times> 'w) option" where
  "wait_loop z socket name w =
     (case zmsg_recv z socket w of
        (Again, w) \<Rightarrow> Some (Inl OSD_ERROR_TIMEDOUT, w)
      | (Interrupted, w) \<Rightarrow> Some (Inl OSD_ERROR_FAILURE, w)
      | (Received msg, w) \<Rightarrow>
          (case msg of
             [] \<Rightarrow> None
           | name_frame # msg \<Rightarrow>
               (if take 2 (frame_str name_frame) \<noteq> ''I-'' then wait_loop z socket name w
                else if frame_str name_frame \<noteq> name then Some (Inl OSD_ERROR_FAILURE, w)
                else (case msg of
                        [] \<Rightarrow> None
                      | data_frame # _ \<Rightarrow>
                          do { c_assert (length data_frame = 4);
                               Some (Inr (bytes_int data_frame), w) }))))"

definition worker_wait_for_status ::
  "'w zmq \<Rightarrow> sock \<Rightarrow> string \<Rightarrow> 'w \<Rightarrow> ((osd_result + int) \<times> 'w) option" where
  "worker_wait_for_status z socket name w =
     do { c_assert (take 2 name = ''I-''); wait_loop z socket name w }"

section \<open>The worker thread\<close>

type_synonym ('s, 'w) thread_fn = "'s option \<Rightarrow> 'w \<Rightarrow> (osd_result \<times> 's option \<times> 'w) option"

record ('s, 'w) worker_thread_ctx =
  inproc_socket_name :: string
  usr :: "'s option"
  init_fn :: "('s, 'w) thread_fn option"
  destroy_fn :: "('s, 'w) thread_fn option"
  cmd_handler_fn :: "(string \<Rightarrow> zmsg \<Rightarrow> ('s, 'w) thread_fn) option"

text \<open>
  One message from the main thread. Without a command handler the message is destroyed,
  but the handler is called all the same.
\<close>

definition thread_inproc_rcv ::
  "'w zmq \<Rightarrow> ('s, 'w) worker_thread_ctx \<Rightarrow> 'w \<Rightarrow> (int \<times> ('s, 'w) worker_thread_ctx \<times> 'w) option" where
  "thread_inproc_rcv z t w =
     (case zmsg_recv z Inproc_thread w of
        (Received msg, w) \<Rightarrow>
          (case msg of
             [] \<Rightarrow> None
           | type_frame # _ \<Rightarrow>
               let type_str = frame_str type_frame in
               if type_str = ''I-SHUTDOWN'' then Some (-1, t, w)
               else (case cmd_handler_fn t of
                       None \<Rightarrow> None
                     | Some handler \<Rightarrow>
                         do { (rv, u, w) \<leftarrow> handler type_str msg (usr t) w;
                              Some (0, t\<lparr>usr := u\<rparr>, w) }))
      | (_, w) \<Rightarrow> Some (-1, t, w))"

text \<open>
  The thread function. \<open>zloop_start\<close> stands for the event loop of czmq: it calls the
  registered handlers until one of them returns -1.
\<close>

definition thread_main ::
  "'w zmq \<Rightarrow> (('s, 'w) worker_thread_ctx \<Rightarrow> 'w \<Rightarrow> (int \<times> ('s, 'w) worker_thread_ctx \<times> 'w) option)
    \<Rightarrow> ('s, 'w) worker_thread_ctx \<Rightarrow> 'w \<Rightarrow> 'w option" where
  "thread_main z zloop_start t w =
     do { let (ok, w) = zsock_new z Inproc_thread '''' w;
          c_assert ok;
          let (zmq_rv, w) = zsock_connect z Inproc_thread (''inproc://'' @ inproc_socket_name t) w;
          if zmq_rv = -1 then Some (zsock_destroy z Inproc_thread w)
          else do {
            let (zmq_rv, w) = zloop_reader z Inproc_thread w;
            c_assert (zmq_rv = 0);
            (osd_rv, u, w) \<leftarrow> (case init_fn t of
                 None \<Rightarrow> Some (OSD_OK, usr t, w)
               | Some f \<Rightarrow> f (usr t) w);
            let t = t\<lparr>usr := u\<rparr>;
            if OSD_FAILED osd_rv then
              do { w \<leftarrow> worker_send_status z Inproc_thread ''I-THREADINIT-DONE'' osd_rv w;
                   Some (zsock_destroy z Inproc_thread w) }
            else do {
              w \<leftarrow> worker_send_status z Inproc_thread ''I-THREADINIT-DONE'' OSD_OK w;
              (zmq_rv, t, w) \<leftarrow> zloop_start t w;
              (osd_rv, u, w) \<leftarrow> (case destroy_fn t of
                   None \<Rightarrow> Some (OSD_OK, usr t, w)
                 | Some f \<Rightarrow> f (usr t) w);
              let t = t\<lparr>usr := u\<rparr>;
              w \<leftarrow> worker_send_status z Inproc_thread ''I-SHUTDOWN-DONE'' OSD_OK w;
              c_assert (usr t = None);
              Some (zsock_destroy z Inproc_thread w) } } }"

section \<open>Creation and shutdown, on the main thread\<close>

definition generate_unique_inproc_name :: "'w zmq \<Rightarrow> 'w \<Rightarrow> (string \<times> 'w) option" where
  "generate_unique_inproc_name z w =
     do { let (uuid, w) = zuuid_str z w;
          c_assert (length uuid = 32);
          Some (uuid, w) }"

text \<open>
  The result code, whether the context was handed out (\<^verbatim>\<open>*ctx\<close> set), and the world. The
  status variable is not initialised: \<open>uninit\<close> is what it holds when no status arrives.
\<close>

definition worker_new :: "'w zmq \<Rightarrow> int \<Rightarrow> 'w \<Rightarrow> (osd_result \<times> bool \<times> 'w) option" where
  "worker_new z uninit w =
     do { (inproc_socket_name, w) \<leftarrow> generate_unique_inproc_name z w;
          let (ok, w) = zsock_new z Inproc_main '''' w;
          c_assert ok;
          let (rv, w) = zsock_bind z Inproc_main (''inproc://'' @ inproc_socket_name) w;
          if rv = -1 then Some (OSD_ERROR_FAILURE, False, w)
          else do {
            let (rv, w) = pthread_create z w;
            c_assert (rv = 0);
            (st, w) \<leftarrow> worker_wait_for_status z Inproc_main ''I-THREADINIT-DONE'' w;
            let retval = (case st of Inl _ \<Rightarrow> uninit | Inr v \<Rightarrow> v);
            if OSD_FAILED retval then
              (let w = pthread_join z w; w = zsock_destroy z Inproc_main w in Some (rv, False, w))
            else Some (OSD_OK, True, w) } }"

definition worker_free :: "'w zmq \<Rightarrow> bool \<Rightarrow> 'w \<Rightarrow> 'w option" where
  "worker_free z ctx_set w =
     (if \<not> ctx_set then Some w
      else do {
        w \<leftarrow> (if thread_is_running z w then
                do { w \<leftarrow> worker_send_status z Inproc_main ''I-SHUTDOWN'' 0 w;
                     (osd_rv, w) \<leftarrow> worker_wait_for_status z Inproc_main ''I-SHUTDOWN-DONE'' w;
                     case osd_rv of
                       Inl _ \<Rightarrow> Some (pthread_cancel z w)
                     | Inr _ \<Rightarrow> Some w }
              else Some w);
        let w = pthread_join z w;
        Some (zsock_destroy z Inproc_main w) })"

section \<open>The wait loop on a queue of messages\<close>

text \<open>
  Specification of the wait: the outcome as a function of the queue of waiting messages,
  with what is left in the queue.
\<close>

fun await_status :: "string \<Rightarrow> zmsg list \<Rightarrow> ((osd_result + int) \<times> zmsg list) option" where
  "await_status name [] = Some (Inl OSD_ERROR_TIMEDOUT, [])"
| "await_status name ([] # ms) = None"
| "await_status name ((n # fs) # ms) =
     (if take 2 (frame_str n) \<noteq> ''I-'' then await_status name ms
      else if frame_str n \<noteq> name then Some (Inl OSD_ERROR_FAILURE, ms)
      else if fs \<noteq> [] \<and> length (hd fs) = 4 then Some (Inr (bytes_int (hd fs)), ms)
      else None)"

lemma wait_loop_refines_queue:
  assumes "fifo_recv z s q"
  shows "map_option (\<lambda>(r, w). (r, q w)) (wait_loop z s name w) = await_status name (q w)"
proof (induction "q w" arbitrary: w)
  case Nil
  then obtain w' where "zmsg_recv z s w = (Again, w')" "q w' = []"
    using assms by (metis fifo_recv_Nil)
  then show ?case by (simp add: wait_loop.simps [of z s name w] flip: Nil)
next
  case (Cons m ms)
  then obtain w' where r: "zmsg_recv z s w = (Received m, w')" "q w' = ms"
    using assms by (metis fifo_recv_Cons)
  have IH: "map_option (\<lambda>(r, w). (r, q w)) (wait_loop z s name w') = await_status name ms"
    using Cons(1) [of w'] r(2) by simp
  show ?case
  proof (cases m)
    case Nil
    then show ?thesis using r Cons(2) by (simp add: wait_loop.simps [of z s name w] flip: Cons(2))
  next
    case (Cons n fs)
    then show ?thesis
      using r IH \<open>m # ms = q w\<close> by (cases fs) (auto simp: wait_loop.simps [of z s name w] simp flip: \<open>m # ms = q w\<close>)
  qed
qed

lemma await_status_skip:
  "\<forall>m \<in> set ds. m \<noteq> [] \<and> take 2 (frame_str (hd m)) \<noteq> ''I-'' \<Longrightarrow>
   await_status name (ds @ ms) = await_status name ms"
proof (induction ds)
  case (Cons d ds)
  then show ?case by (cases d) auto
qed simp

text \<open>The status message a sender produces, seen by the receiver.\<close>

lemma await_status_sent:
  assumes "take 2 name = ''I-''" "\<forall>c \<in> set name. c \<noteq> CHR 0x00" "- (2 ^ 31) \<le> v" "v < 2 ^ 31"
  shows "await_status name ([str_bytes name, int_bytes v] # ms) = Some (Inr v, ms)"
  using assms by (simp add: frame_str_bytes bytes_int_int_bytes)

lemma wait_loop_error:
  assumes "wait_loop z s name w = Some (Inl rv, w')"
  shows "OSD_FAILED rv"
proof -
  have "case (Inl rv :: osd_result + int, w') of (r, _) \<Rightarrow> \<forall>e. r = Inl e \<longrightarrow> OSD_FAILED e"
    using assms
    by (rule wait_loop.raw_induct [where P = "\<lambda>z s name w r. case r of (r, _) \<Rightarrow> \<forall>e. r = Inl e \<longrightarrow> OSD_FAILED e", rotated])
      (fastforce simp: osd_codes split: prod.splits recv_result.splits list.splits if_splits bind_splits)
  then show ?thesis by simp
qed
lemma wait_for_status_error:
  "worker_wait_for_status z s name w = Some (Inl rv, w') \<Longrightarrow> OSD_FAILED rv"
  by (auto simp: worker_wait_for_status_def split: if_splits dest: wait_loop_error)

section \<open>Properties\<close>

text \<open>
  (C39) Waiting for a status terminates and is decided by the queue alone: on a socket that
  delivers its messages in order, \<open>worker_wait_for_status\<close> drops the data messages in front
  of the first status message and returns its value if it is the expected one, reports a
  failure on any other status, and times out on a queue without a status message. The
  messages behind the status stay in the queue.
\<close>

theorem wait_for_status_refines_queue:
  assumes "fifo_recv z s q" "take 2 name = ''I-''"
  shows "map_option (\<lambda>(r, w). (r, q w)) (worker_wait_for_status z s name w) = await_status name (q w)"
  using wait_loop_refines_queue [OF assms(1), of name w] assms(2)
  by (simp add: worker_wait_for_status_def)

definition queue_zmq :: "zmsg list zmq" where
  "queue_zmq = \<lparr>zmsg_send = (\<lambda>s m w. (0, w @ [m])),
     zmsg_recv = (\<lambda>s w. case w of [] \<Rightarrow> (Again, []) | m # ms \<Rightarrow> (Received m, ms)),
     zsock_new = (\<lambda>s a w. (True, w)), zsock_bind = (\<lambda>s a w. (0, w)),
     zsock_connect = (\<lambda>s a w. (0, w)), zsock_destroy = (\<lambda>s w. w),
     zloop_reader = (\<lambda>s w. (0, w)), zloop_reader_end = (\<lambda>s w. w),
     zuuid_str = (\<lambda>w. (replicate 32 (CHR ''a''), w)),
     pthread_create = (\<lambda>w. (0, w)), pthread_join = (\<lambda>w. w), pthread_cancel = (\<lambda>w. w),
     thread_is_running = (\<lambda>w. True)\<rparr>"

lemma queue_zmq_fifo: "fifo_recv queue_zmq s (\<lambda>w. w)"
  by (simp add: fifo_recv_def queue_zmq_def split: list.splits)

theorem wait_for_status_refines_queue_witness:
  "map_option (\<lambda>(r, w). (r, w))
     (worker_wait_for_status queue_zmq Inproc_main ''I-CONNECT-DONE''
        [[str_bytes ''D'', [1, 2]], [str_bytes ''I-CONNECT-DONE'', int_bytes (-1)], [str_bytes ''D'']])
   = Some (Inr (-1), [[str_bytes ''D'']])"
proof -
  have "await_status ''I-CONNECT-DONE''
        [[str_bytes ''D'', [1, 2]], [str_bytes ''I-CONNECT-DONE'', int_bytes (-1)], [str_bytes ''D'']]
     = Some (Inr (-1), [[str_bytes ''D'']])"
    by (simp add: frame_str_bytes bytes_int_int_bytes)
  then show ?thesis
    using wait_for_status_refines_queue [OF queue_zmq_fifo, of "''I-CONNECT-DONE''" Inproc_main
        "[[str_bytes ''D'', [1, 2]], [str_bytes ''I-CONNECT-DONE'', int_bytes (-1)], [str_bytes ''D'']]"]
    by simp
qed

text \<open>
  When the worker thread reports a failed initialisation, \<open>worker_new\<close> cleans up but
  returns the result of \<^verbatim>\<open>pthread_create\<close>, which is 0: the caller sees \<open>OSD_OK\<close> although no
  worker context was handed out.
\<close>

theorem worker_new_hides_init_failure:
  assumes "zuuid_str z w = (name, w1)" "length name = 32"
    and "zsock_new z Inproc_main '''' w1 = (True, w2)"
    and "zsock_bind z Inproc_main (''inproc://'' @ name) w2 = (0, w3)"
    and "pthread_create z w3 = (0, w4)"
    and "worker_wait_for_status z Inproc_main ''I-THREADINIT-DONE'' w4 = Some (Inr v, w5)" "OSD_FAILED v"
  shows "worker_new z uninit w = Some (OSD_OK, False, zsock_destroy z Inproc_main (pthread_join z w5))"
  using assms by (simp add: worker_new_def generate_unique_inproc_name_def OSD_OK_def)

theorem worker_new_hides_init_failure_witness:
  "worker_new queue_zmq 0 [[str_bytes ''I-THREADINIT-DONE'', int_bytes (-1)]] = Some (OSD_OK, False, [])"
proof -
  let ?w = "[[str_bytes ''I-THREADINIT-DONE'', int_bytes (-1)]] :: zmsg list"
  have wait: "worker_wait_for_status queue_zmq Inproc_main ''I-THREADINIT-DONE'' ?w = Some (Inr (-1), [])"
    by (simp add: worker_wait_for_status_def wait_loop.simps queue_zmq_def frame_str_bytes
        bytes_int_int_bytes)
  have "worker_new queue_zmq 0 ?w =
      Some (OSD_OK, False, zsock_destroy queue_zmq Inproc_main (pthread_join queue_zmq []))"
    by (rule worker_new_hides_init_failure [where name = "replicate 32 (CHR ''a'')"])
      (rule wait | simp add: queue_zmq_def OSD_FAILED_def)+
  then show ?thesis by (simp add: queue_zmq_def)
qed

end
