(* ===== verification/Hostmod_Io.thy ===== *)
theory Hostmod_Io
  imports Packet Worker Diaddr
begin

text \<open>
  The I/O thread of a host module (first half of \<^verbatim>\<open>hostmod.c\<close>): reassembly of event packets,
  messages from the host controller, and the connection to the host controller.

  Packets received by the thread live in a heap, a map from addresses to packets: the
  reassembly buffer holds addresses, and the code frees packets whose addresses it may
  still hold. Reading an address that is not mapped is a use of freed memory (\<open>None\<close>).
  Parameters: \<open>zl\<close> the list operations, \<open>junk\<close> the contents of memory added by
  \<^verbatim>\<open>realloc\<close>, \<open>realloc_addr\<close> the address a reallocated packet gets, \<open>malloc\<close> the address of
  a new packet.
\<close>

section \<open>Definitions\<close>

type_synonym heap = "nat \<rightharpoonup> osd_packet"

record ('l, 'w) iothread_usr_ctx =
  hostctrl_socket :: bool
  host_controller_address :: string
  event_handler :: "(osd_packet \<Rightarrow> 'w \<Rightarrow> (osd_result \<times> 'w) option) option"
  event_reassembly_buf :: 'l

definition heap_combine ::
  "(nat \<Rightarrow> u16) \<Rightarrow> (heap \<Rightarrow> nat \<Rightarrow> nat) \<Rightarrow> heap \<Rightarrow> nat \<Rightarrow> nat \<Rightarrow> (nat \<times> heap) option" where
  "heap_combine junk realloc_addr h first_p second =
     do { p \<leftarrow> h first_p;
          q \<leftarrow> h second;
          r \<leftarrow> osd_packet_combine junk p q;
          c_assert (first_p \<noteq> second);
          let first_p' = realloc_addr h first_p;
          Some (first_p', (h(first_p := None))(first_p' \<mapsto> r)) }"

text \<open>The loop over the reassembly buffer; \<open>pkg_inbuf\<close> and \<open>fwd_pkg\<close> are the pointers of the code.\<close>

partial_function (option) reassemble_loop ::
  "('l, nat) zlist \<Rightarrow> (nat \<Rightarrow> u16) \<Rightarrow> (heap \<Rightarrow> nat \<Rightarrow> nat) \<Rightarrow> nat
    \<Rightarrow> nat option \<Rightarrow> nat option \<Rightarrow> 'l \<Rightarrow> heap \<Rightarrow> (nat option \<times> 'l \<times> heap) option" where
  "reassemble_loop zl junk realloc_addr pkg pkg_inbuf fwd_pkg l h =
     (case pkg_inbuf of
        None \<Rightarrow> Some (fwd_pkg, l, h)
      | Some pb \<Rightarrow>
          do { inbuf \<leftarrow> h pb;
               p \<leftarrow> h pkg;
               src_inbuf \<leftarrow> osd_packet_get_src inbuf;
               src \<leftarrow> osd_packet_get_src p;
               if src_inbuf \<noteq> src then
                 reassemble_loop zl junk realloc_addr pkg
                   (fst (zlist_next zl l)) fwd_pkg (snd (zlist_next zl l)) h
               else
                 (case fwd_pkg of
                    None \<Rightarrow>
                      do { q \<leftarrow> osd_packet_set_type_sub inbuf EV_LAST;
                           let l = zlist_remove zl l (Some pb);
                           reassemble_loop zl junk realloc_addr pkg
                             (fst (zlist_next zl l)) (Some pb) (snd (zlist_next zl l)) (h(pb \<mapsto> q)) }
                  | Some fwd \<Rightarrow>
                      do { (fwd, h) \<leftarrow> heap_combine junk realloc_addr h fwd pb;
                           let h = h(pb := None);
                           let l = zlist_remove zl l None;
                           reassemble_loop zl junk realloc_addr pkg
                             (fst (zlist_next zl l)) (Some fwd) (snd (zlist_next zl l)) h }) })"

text \<open>
  Handling of one event packet at address \<open>pkg\<close>. The result is the address of a packet for the
  main thread (or \<open>None\<close>), the context, the heap and the world. The registered event handler
  takes over the packet it is given.
\<close>

definition iothread_handle_in_eventpkg ::
  "('l, nat) zlist \<Rightarrow> (nat \<Rightarrow> u16) \<Rightarrow> (heap \<Rightarrow> nat \<Rightarrow> nat)
    \<Rightarrow> ('l, 'w) iothread_usr_ctx \<Rightarrow> heap \<Rightarrow> nat \<Rightarrow> 'w
    \<Rightarrow> (nat option \<times> ('l, 'w) iothread_usr_ctx \<times> heap \<times> 'w) option" where
  "iothread_handle_in_eventpkg zl junk realloc_addr usrctx h pkg w =
     do { p \<leftarrow> h pkg;
          type_sub \<leftarrow> osd_packet_get_type_sub p;
          if type_sub = EV_CONT then
            Some (None,
              usrctx\<lparr>event_reassembly_buf := zlist_append zl (event_reassembly_buf usrctx) pkg\<rparr>, h, w)
          else do {
            (fwd_pkg, usrctx, h) \<leftarrow>
              (if type_sub \<noteq> EV_LAST then Some (pkg, usrctx, h)
               else do {
                 let (pkg_inbuf, l) = zlist_first zl (event_reassembly_buf usrctx);
                 (fwd_pkg, l, h) \<leftarrow> reassemble_loop zl junk realloc_addr pkg pkg_inbuf None l h;
                 let usrctx = usrctx\<lparr>event_reassembly_buf := l\<rparr>;
                 (case fwd_pkg of
                    None \<Rightarrow>
                      do { p \<leftarrow> h pkg;
                           q \<leftarrow> osd_packet_set_type_sub p EV_LAST;
                           Some (pkg, usrctx, h(pkg \<mapsto> q)) }
                  | Some fwd \<Rightarrow>
                      do { (fwd, h) \<leftarrow> heap_combine junk realloc_addr h fwd pkg;
                           Some (fwd, usrctx, h(pkg := None)) }) });
            (case event_handler usrctx of
               Some handler \<Rightarrow>
                 do { p \<leftarrow> h fwd_pkg;
                      (osd_rv, w) \<leftarrow> handler p w;
                      Some (None, usrctx, h(fwd_pkg := None), w) }
             | None \<Rightarrow> Some (Some fwd_pkg, usrctx, h, w)) } }"

text \<open>The bytes of the data words, as they are put into a message frame.\<close>

definition packet_frame :: "osd_packet \<Rightarrow> zframe option" where
  "packet_frame p =
     do { c_assert (unat (data_size_words p) \<le> length (data_raw p));
          Some (take (osd_packet_sizeof p) (enc_words le16_bytes (data_raw p))) }"

definition iothread_handle_in_data_msg ::
  "('l, nat) zlist \<Rightarrow> (nat \<Rightarrow> u16) \<Rightarrow> (heap \<Rightarrow> nat \<Rightarrow> nat) \<Rightarrow> (heap \<Rightarrow> nat)
    \<Rightarrow> ('l, 'w) iothread_usr_ctx \<Rightarrow> heap \<Rightarrow> zmsg \<Rightarrow> 'w
    \<Rightarrow> (zmsg option \<times> ('l, 'w) iothread_usr_ctx \<times> heap \<times> 'w) option" where
  "iothread_handle_in_data_msg zl junk realloc_addr malloc usrctx h msg w =
     (case msg of
        type_frame # data_frame # _ \<Rightarrow>
          do { p \<leftarrow> osd_packet_new_from_zframe data_frame;
               let pkg = malloc h;
               let h = h(pkg \<mapsto> p);
               type \<leftarrow> osd_packet_get_type p;
               if type = OSD_PACKET_TYPE_EVENT then
                 do { (fwd_pkg, usrctx, h, w) \<leftarrow>
                        iothread_handle_in_eventpkg zl junk realloc_addr usrctx h pkg w;
                      (case fwd_pkg of
                         None \<Rightarrow> Some (None, usrctx, h, w)
                       | Some fwd \<Rightarrow>
                           do { q \<leftarrow> h fwd;
                                frame \<leftarrow> packet_frame q;
                                Some (Some [str_bytes ''D'', frame], usrctx, h(fwd := None), w) }) }
               else Some (Some msg, usrctx, h(pkg := None), w) }
      | _ \<Rightarrow> None)"

definition iothread_rcv_from_hostctrl ::
  "'w zmq \<Rightarrow> ('l, nat) zlist \<Rightarrow> (nat \<Rightarrow> u16) \<Rightarrow> (heap \<Rightarrow> nat \<Rightarrow> nat) \<Rightarrow> (heap \<Rightarrow> nat)
    \<Rightarrow> ('l, 'w) iothread_usr_ctx \<Rightarrow> heap \<Rightarrow> 'w
    \<Rightarrow> (int \<times> ('l, 'w) iothread_usr_ctx \<times> heap \<times> 'w) option" where
  "iothread_rcv_from_hostctrl z zl junk realloc_addr malloc usrctx h w =
     (case zmsg_recv z Hostctrl_socket w of
        (Received msg, w) \<Rightarrow>
          (case msg of
             [] \<Rightarrow> None
           | type_frame # _ \<Rightarrow>
               if frame_streq type_frame ''D'' then
                 do { (out_msg, usrctx, h, w) \<leftarrow>
                        iothread_handle_in_data_msg zl junk realloc_addr malloc usrctx h msg w;
                      (case out_msg of
                         None \<Rightarrow> Some (0, usrctx, h, w)
                       | Some m \<Rightarrow>
                           do { let (rv, w) = zmsg_send z Inproc_thread m w;
                                c_assert (rv = 0);
                                Some (0, usrctx, h, w) }) }
               else None)
      | (_, w) \<Rightarrow> Some (-1, usrctx, h, w))"

definition iothread_obtain_diaddr :: "'w zmq \<Rightarrow> 'w \<Rightarrow> ((osd_result + u16) \<times> 'w) option" where
  "iothread_obtain_diaddr z w =
     (case zmsg_send z Hostctrl_socket [str_bytes ''M'', str_bytes ''DIADDR_REQUEST''] w of (rv, w) \<Rightarrow>
        if rv \<noteq> 0 then Some (Inl OSD_ERROR_CONNECTION_FAILED, w)
        else (case zmsg_recv z Hostctrl_socket w of
                (Received msg_resp, w) \<Rightarrow>
                  (case msg_resp of
                     type_frame # addr_frame # _ \<Rightarrow>
                       do { c_assert (frame_streq type_frame ''M'');
                            let (addr, end) = strtol10 (frame_str addr_frame);
                            c_assert (end = []);
                            c_assert (addr \<le> 65535);
                            Some (Inr (word_of_int addr), w) }
                   | _ \<Rightarrow> None)
              | (_, w) \<Rightarrow> Some (Inl OSD_ERROR_CONNECTION_FAILED, w)))"

definition iothread_connect_to_hostctrl ::
  "'w zmq \<Rightarrow> ('l, 'w) iothread_usr_ctx \<Rightarrow> 'w \<Rightarrow> (('l, 'w) iothread_usr_ctx \<times> 'w) option" where
  "iothread_connect_to_hostctrl z usrctx w =
     do { let (ok, w) = zsock_new z Hostctrl_socket (host_controller_address usrctx) w;
          let usrctx = usrctx\<lparr>hostctrl_socket := ok\<rparr>;
          (retval, w) \<leftarrow>
            (if \<not> ok then Some (-1, w)
             else do {
               (r, w) \<leftarrow> iothread_obtain_diaddr z w;
               (case r of
                  Inl _ \<Rightarrow> Some (-1, w)
                | Inr di_addr \<Rightarrow>
                    do { let (zmq_rv, w) = zloop_reader z Hostctrl_socket w;
                         c_assert (zmq_rv = 0);
                         Some (uint di_addr, w) }) });
          let (usrctx, w) =
            (if retval = -1 \<and> hostctrl_socket usrctx
             then (usrctx\<lparr>hostctrl_socket := False\<rparr>, zsock_destroy z Hostctrl_socket w)
             else (usrctx, w));
          w \<leftarrow> worker_send_status z Inproc_thread ''I-CONNECT-DONE'' retval w;
          Some (usrctx, w) }"

definition iothread_disconnect_from_hostctrl ::
  "'w zmq \<Rightarrow> ('l, 'w) iothread_usr_ctx \<Rightarrow> 'w \<Rightarrow> (('l, 'w) iothread_usr_ctx \<times> 'w) option" where
  "iothread_disconnect_from_hostctrl z usrctx w =
     do { let w = zloop_reader_end z Hostctrl_socket w;
          let w = zsock_destroy z Hostctrl_socket w;
          let usrctx = usrctx\<lparr>hostctrl_socket := False\<rparr>;
          w \<leftarrow> worker_send_status z Inproc_thread ''I-DISCONNECT-DONE'' OSD_OK w;
          Some (usrctx, w) }"

definition iothread_handle_inproc_request ::
  "'w zmq \<Rightarrow> string \<Rightarrow> zmsg \<Rightarrow> ('l, 'w) iothread_usr_ctx \<Rightarrow> 'w
    \<Rightarrow> (osd_result \<times> ('l, 'w) iothread_usr_ctx \<times> 'w) option" where
  "iothread_handle_inproc_request z name msg usrctx w =
     (if name = ''I-CONNECT'' then
        do { (usrctx, w) \<leftarrow> iothread_connect_to_hostctrl z usrctx w; Some (OSD_OK, usrctx, w) }
      else if name = ''I-DISCONNECT'' then
        do { (usrctx, w) \<leftarrow> iothread_disconnect_from_hostctrl z usrctx w; Some (OSD_OK, usrctx, w) }
      else if name = ''D'' then
        do { let (rv, w) = zmsg_send z Hostctrl_socket msg w;
             c_assert (rv = 0);
             Some (OSD_OK, usrctx, w) }
      else None)"

definition iothread_destroy ::
  "('l, 'w) iothread_usr_ctx option \<Rightarrow> 'w \<Rightarrow> (osd_result \<times> ('l, 'w) iothread_usr_ctx option \<times> 'w) option" where
  "iothread_destroy usrctx w =
     do { u \<leftarrow> usrctx; Some (OSD_OK, None, w) }"

section \<open>Reassembly\<close>

text \<open>
  The allocator: a reallocated packet stays where it is or moves to an unused address.
\<close>

definition realloc_ok :: "(heap \<Rightarrow> nat \<Rightarrow> nat) \<Rightarrow> bool" where
  "realloc_ok realloc_addr \<longleftrightarrow> (\<forall>h f. realloc_addr h f = f \<or> realloc_addr h f \<notin> dom h)"

abbreviation src_of :: "osd_packet \<Rightarrow> u16" where
  "src_of p \<equiv> data_raw p ! 1"

definition live :: "heap \<Rightarrow> nat list \<Rightarrow> bool" where
  "live h ps \<longleftrightarrow> (\<forall>x \<in> set ps. \<exists>q. h x = Some q \<and> packet_wf q)"

definition from_src :: "heap \<Rightarrow> u16 \<Rightarrow> nat list \<Rightarrow> nat list" where
  "from_src h s ps = filter (\<lambda>x. src_of (the (h x)) = s) ps"

abbreviation payloads :: "heap \<Rightarrow> nat list \<Rightarrow> u16 list" where
  "payloads h ps \<equiv> concat (map (\<lambda>x. payload_of (the (h x))) ps)"

text \<open>The addresses the loop has still to visit.\<close>

definition pending :: "('l \<Rightarrow> nat list) \<Rightarrow> nat option \<Rightarrow> 'l \<Rightarrow> nat list" where
  "pending rest cur l = (case cur of None \<Rightarrow> [] | Some c \<Rightarrow> c # rest l)"

lemma live_Cons [simp]: "live h (x # ps) \<longleftrightarrow> (\<exists>q. h x = Some q \<and> packet_wf q) \<and> live h ps"
  by (auto simp: live_def)

lemma live_cong: "(\<And>x. x \<in> set ps \<Longrightarrow> h' x = h x) \<Longrightarrow> live h' ps = live h ps"
  by (simp add: live_def)

lemma from_src_cong: "(\<And>x. x \<in> set ps \<Longrightarrow> h' x = h x) \<Longrightarrow> from_src h' s ps = from_src h s ps"
  by (auto simp: from_src_def intro: filter_cong)

lemma from_src_subset: "x \<in> set (from_src h s ps) \<Longrightarrow> x \<in> set ps"
  by (simp add: from_src_def)

lemma from_src_distinct: "distinct ps \<Longrightarrow> distinct (from_src h s ps)"
  by (simp add: from_src_def)

lemma zlist_next_pending:
  assumes "zlist_laws zl items rest"
  shows "pending rest (fst (zlist_next zl l)) (snd (zlist_next zl l)) = rest l"
    and "items (snd (zlist_next zl l)) = items l"
  using assms by (auto simp: zlist_laws_def pending_def head_opt_def split: list.splits)

lemma zlist_first_pending:
  assumes "zlist_laws zl items rest"
  shows "pending rest (fst (zlist_first zl l)) (snd (zlist_first zl l)) = items l"
    and "items (snd (zlist_first zl l)) = items l"
  using assms by (auto simp: zlist_laws_def pending_def head_opt_def split: list.splits)

lemma zlist_remove_item:
  assumes "zlist_laws zl items rest" "p \<notin> set (rest l)"
  shows "items (zlist_remove zl l (Some p)) = remove1 p (items l)"
    and "rest (zlist_remove zl l (Some p)) = rest l"
  using assms by (auto simp: zlist_laws_def)

lemma zlist_remove_null:
  assumes "zlist_laws zl items rest"
  shows "items (zlist_remove zl l None) = items l" and "rest (zlist_remove zl l None) = rest l"
  using assms by (auto simp: zlist_laws_def)

lemmas zlist_facts = zlist_next_pending zlist_first_pending zlist_remove_null

lemma heap_combine_eq:
  assumes "h f = Some fp" "packet_wf fp" "h x = Some q" "packet_wf q" "f \<noteq> x"
    and "length (data_raw fp) + length (payload_of q) < 65536"
  shows "heap_combine junk ra h f x =
     Some (ra h f, (h(f := None))(ra h f \<mapsto>
        \<lparr>data_size_words = of_nat (length (data_raw fp) + length (payload_of q)),
         data_raw = data_raw fp @ payload_of q\<rparr>))"
  using assms by (simp add: heap_combine_def combine_eq Let_def)

text \<open>Once a first packet was found, the payload of every further match is appended to it.\<close>

definition fwd_post ::
  "heap \<Rightarrow> nat \<Rightarrow> nat \<Rightarrow> osd_packet \<Rightarrow> nat list \<Rightarrow> nat \<Rightarrow> heap \<Rightarrow> bool" where
  "fwd_post h pkg f fp mine f' h' \<longleftrightarrow>
     (\<exists>r. h' f' = Some r \<and> packet_wf r \<and> data_raw r = data_raw fp @ payloads h mine)
   \<and> f' \<noteq> pkg \<and> (f' = f \<or> f' \<in> set mine \<or> f' \<notin> dom h) \<and> (f \<noteq> f' \<longrightarrow> h' f = None)
   \<and> (\<forall>y. y \<notin> set mine \<and> y \<noteq> f \<and> y \<noteq> f' \<longrightarrow> h' y = h y)
   \<and> (\<forall>y \<in> set mine. y \<noteq> f' \<longrightarrow> h' y = None)"

lemma fwd_post_step:
  assumes post: "fwd_post h2 pkg f1 r1 mine f' h'"
    and h2: "h2 = (h(f := None, f1 \<mapsto> r1))(x := None)"
    and f1: "f1 = f \<or> f1 \<notin> dom h" and fx: "f \<noteq> x" "x \<in> dom h" "x \<notin> set mine" "f \<notin> set mine"
    and r1: "data_raw r1 = data_raw fp @ payload_of (the (h x))"
    and mine: "\<And>y. y \<in> set mine \<Longrightarrow> h2 y = h y"
  shows "fwd_post h pkg f fp (x # mine) f' h'"
proof -
  have f1x: "f1 \<noteq> x" using f1 fx by auto
  have pl: "payloads h2 mine = payloads h mine"
    using mine by (metis (no_types, lifting) map_eq_conv)
  from post obtain r where r: "h' f' = Some r" "packet_wf r" "data_raw r = data_raw r1 @ payloads h2 mine"
    and a: "f' \<noteq> pkg" "f' = f1 \<or> f' \<in> set mine \<or> f' \<notin> dom h2" "f1 \<noteq> f' \<longrightarrow> h' f1 = None"
    and b: "\<And>y. y \<notin> set mine \<Longrightarrow> y \<noteq> f1 \<Longrightarrow> y \<noteq> f' \<Longrightarrow> h' y = h2 y"
    and c: "\<And>y. y \<in> set mine \<Longrightarrow> y \<noteq> f' \<Longrightarrow> h' y = None"
    by (auto simp: fwd_post_def)
  have "f' = f \<or> f' \<in> set (x # mine) \<or> f' \<notin> dom h"
    using a(2) f1 by (auto simp: h2 split: if_splits)
  moreover have "h' f = None" if "f \<noteq> f'"
    using that a(3) b [of f] fx by (cases "f = f1") (auto simp: h2)
  moreover have "h' y = h y" if "y \<notin> set (x # mine)" "y \<noteq> f" "y \<noteq> f'" for y
    using that a(3) b [of y] f1 by (cases "y = f1") (auto simp: h2 domIff)
  moreover have "h' y = None" if "y \<in> set (x # mine)" "y \<noteq> f'" for y
    using that b [of x] c [of y] f1x fx by (auto simp: h2)
  ultimately show ?thesis
    using r a(1) by (auto simp: fwd_post_def pl r1)
qed

lemma reassemble_loop_fwd:
  assumes Z: "zlist_laws zl items rest" and R: "realloc_ok ra"
  shows "pending rest cur l = ps \<Longrightarrow> distinct ps \<Longrightarrow> live h ps \<Longrightarrow> h pkg = Some p \<Longrightarrow> packet_wf p
     \<Longrightarrow> pkg \<notin> set ps \<Longrightarrow> f \<notin> set ps \<Longrightarrow> f \<noteq> pkg \<Longrightarrow> h f = Some fp \<Longrightarrow> packet_wf fp
     \<Longrightarrow> length (data_raw fp) + length (payloads h (from_src h (src_of p) ps)) < 65536
     \<Longrightarrow> \<exists>f' l' h'. reassemble_loop zl junk ra pkg cur (Some f) l h = Some (Some f', l', h')
          \<and> items l' = items l \<and> fwd_post h pkg f fp (from_src h (src_of p) ps) f' h'"
proof (induction ps arbitrary: cur l h f fp)
  case Nil
  then have "cur = None" by (auto simp: pending_def split: option.splits)
  then have "reassemble_loop zl junk ra pkg cur (Some f) l h = Some (Some f, l, h)"
    by (simp add: reassemble_loop.simps [of zl junk ra pkg None])
  moreover have "fwd_post h pkg f fp (from_src h (src_of p) []) f h"
    using Nil by (simp add: from_src_def fwd_post_def)
  ultimately show ?case by blast
next
  case (Cons x ps)
  from Cons.prems(1) have cur: "cur = Some x" and rest: "rest l = ps"
    by (auto simp: pending_def split: option.splits)
  from Cons.prems(3) obtain q where q: "h x = Some q" "packet_wf q" and live: "live h ps" by auto
  note wf = Cons.prems(5) Cons.prems(10)
  show ?case
  proof (cases "src_of q = src_of p")
    case False
    have "\<exists>f' l' h'. reassemble_loop zl junk ra pkg (fst (zlist_next zl l)) (Some f)
         (snd (zlist_next zl l)) h = Some (Some f', l', h')
       \<and> items l' = items (snd (zlist_next zl l)) \<and> fwd_post h pkg f fp (from_src h (src_of p) ps) f' h'"
      using Cons.prems False q live rest zlist_facts(1) [OF Z, of l]
      by (intro Cons.IH) (auto simp: from_src_def)
    then show ?thesis
      using False q wf Cons.prems(4) zlist_facts(2) [OF Z, of l]
      by (simp add: cur reassemble_loop.simps [of zl junk ra pkg "Some x"] get_src_wf from_src_def)
  next
    case True
    let ?r1 = "\<lparr>data_size_words = of_nat (length (data_raw fp) + length (payload_of q)),
         data_raw = data_raw fp @ payload_of q\<rparr>"
    let ?f1 = "ra h f"
    define h2 where "h2 = (h(f := None, ?f1 \<mapsto> ?r1))(x := None)"
    define l2 where "l2 = zlist_remove zl l None"
    have mine: "from_src h (src_of p) (x # ps) = x # from_src h (src_of p) ps"
      using True q by (simp add: from_src_def)
    have len: "length (data_raw fp) + length (payload_of q)
        + length (payloads h (from_src h (src_of p) ps)) < 65536"
      using Cons.prems(11) q unfolding mine by simp
    have f1: "?f1 = f \<or> ?f1 \<notin> dom h" using R by (auto simp: realloc_ok_def)
    have same: "h2 y = h y" if "y \<in> set ps" for y
      using that Cons.prems live f1 by (auto simp: h2_def live_def)
    have fs: "from_src h2 s ps = from_src h s ps" for s by (rule from_src_cong) (rule same)
    have wf1: "packet_wf ?r1"
      using len wf unat_of_nat_u16 [of "length (data_raw fp) + length (payload_of q)"]
      by (simp add: packet_wf_def)
    have pl: "payloads h2 (from_src h (src_of p) ps) = payloads h (from_src h (src_of p) ps)"
      using same from_src_subset by (metis (mono_tags, lifting) map_eq_conv)
    have "\<exists>f' l' h'. reassemble_loop zl junk ra pkg (fst (zlist_next zl l2)) (Some ?f1)
         (snd (zlist_next zl l2)) h2 = Some (Some f', l', h')
       \<and> items l' = items (snd (zlist_next zl l2)) \<and> fwd_post h2 pkg ?f1 ?r1 (from_src h2 (src_of p) ps) f' h'"
    proof (intro Cons.IH)
      show "pending rest (fst (zlist_next zl l2)) (snd (zlist_next zl l2)) = ps"
        using zlist_facts [OF Z] rest by (simp add: l2_def)
      show "live h2 ps" using live same by (simp add: live_def)
      show "h2 pkg = Some p" using Cons.prems f1 by (auto simp: h2_def)
      show "?f1 \<notin> set ps" using f1 Cons.prems(7) live by (auto simp: live_def)
      show "?f1 \<noteq> pkg" using f1 Cons.prems by auto
      show "h2 ?f1 = Some ?r1" using f1 Cons.prems(7) q by (auto simp: h2_def)
      show "length (data_raw ?r1) + length (payloads h2 (from_src h2 (src_of p) ps)) < 65536"
        using len unfolding fs pl by simp
    qed (use Cons.prems wf1 in auto)
    then obtain f' l' h' where
      run: "reassemble_loop zl junk ra pkg (fst (zlist_next zl l2)) (Some ?f1) (snd (zlist_next zl l2)) h2 = Some (Some f', l', h')"
      and items: "items l' = items l"
      and post: "fwd_post h2 pkg ?f1 ?r1 (from_src h (src_of p) ps) f' h'"
      using zlist_facts [OF Z] by (auto simp: fs l2_def)
    have "fwd_post h pkg f fp (x # from_src h (src_of p) ps) f' h'"
      using post f1 Cons.prems q same
      by (intro fwd_post_step [OF post h2_def]) (auto dest: from_src_subset)
    moreover have "reassemble_loop zl junk ra pkg cur (Some f) l h = Some (Some f', l', h')"
      using run True q wf Cons.prems(4,7,9) len
      by (simp add: cur reassemble_loop.simps [of zl junk ra pkg "Some x"] get_src_wf
          heap_combine_eq [of h f fp x q] h2_def l2_def Let_def)
    ultimately show ?thesis using items unfolding mine by blast
  qed
qed

definition as_last :: "osd_packet \<Rightarrow> osd_packet" where
  "as_last q = q\<lparr>data_raw := (data_raw q)[2 := data_raw q ! 2 AND NOT (push_bit 10 0xF)]\<rparr>"

lemma set_type_sub_last: "packet_wf q \<Longrightarrow> osd_packet_set_type_sub q EV_LAST = Some (as_last q)"
  by (simp add: set_type_sub_eq as_last_def EV_LAST_def)

lemma packet_wf_as_last [simp]: "packet_wf (as_last q) = packet_wf q"
  by (simp add: packet_wf_def as_last_def)

lemma payload_of_as_last [simp]: "payload_of (as_last q) = payload_of q"
  by (simp add: as_last_def)

lemma length_as_last [simp]: "length (data_raw (as_last q)) = length (data_raw q)"
  by (simp add: as_last_def)

lemma as_last_flags:
  "take_bit 4 (drop_bit 10 (x AND NOT (push_bit 10 0xF))) = (0 :: u16)"
  "drop_bit 14 (x AND NOT (push_bit 10 0xF)) = (drop_bit 14 x :: u16)"
proof -
  have f: "push_bit 10 0xF = (15360 :: u16)" by simp
  show "take_bit 4 (drop_bit 10 (x AND NOT (push_bit 10 0xF))) = (0 :: u16)"
    unfolding f by (rule bit_word_eqI, auto simp only: bit_simps bit_type_sub_field o_apply) simp_all
  show "drop_bit 14 (x AND NOT (push_bit 10 0xF)) = (drop_bit 14 x :: u16)"
    unfolding f by (rule bit_word_eqI, auto simp only: bit_simps bit_type_sub_field o_apply)
      (auto dest: bit_u16_lt)
qed

text \<open>The loop from its start: the first match is taken out of the buffer and becomes the packet.\<close>

lemma reassemble_loop_start:
  assumes Z: "zlist_laws zl items rest" and R: "realloc_ok ra"
  shows "pending rest cur l = ps \<Longrightarrow> distinct ps \<Longrightarrow> live h ps \<Longrightarrow> h pkg = Some p \<Longrightarrow> packet_wf p
     \<Longrightarrow> pkg \<notin> set ps \<Longrightarrow> from_src h (src_of p) ps = x # others
     \<Longrightarrow> 3 + length (payloads h (x # others)) < 65536
     \<Longrightarrow> \<exists>f' l' h'. reassemble_loop zl junk ra pkg cur None l h = Some (Some f', l', h')
          \<and> items l' = remove1 x (items l)
          \<and> fwd_post (h(x \<mapsto> as_last (the (h x)))) pkg x (as_last (the (h x))) others f' h'"
proof (induction ps arbitrary: cur l)
  case (Cons y ps)
  from Cons.prems(1) have cur: "cur = Some y" and rest: "rest l = ps"
    by (auto simp: pending_def split: option.splits)
  from Cons.prems(3) obtain q where q: "h y = Some q" "packet_wf q" and live: "live h ps" by auto
  note wf = Cons.prems(5)
  show ?case
  proof (cases "src_of q = src_of p")
    case False
    have "\<exists>f' l' h'. reassemble_loop zl junk ra pkg (fst (zlist_next zl l)) None
         (snd (zlist_next zl l)) h = Some (Some f', l', h')
       \<and> items l' = remove1 x (items (snd (zlist_next zl l)))
       \<and> fwd_post (h(x \<mapsto> as_last (the (h x)))) pkg x (as_last (the (h x))) others f' h'"
      using Cons.prems False q live rest zlist_facts(1) [OF Z, of l]
      by (intro Cons.IH) (auto simp: from_src_def)
    moreover have "reassemble_loop zl junk ra pkg cur None l h =
        reassemble_loop zl junk ra pkg (fst (zlist_next zl l)) None (snd (zlist_next zl l)) h"
      using False q wf Cons.prems(4)
      by (simp add: cur reassemble_loop.simps [of zl junk ra pkg "Some y"] get_src_wf)
    ultimately show ?thesis using zlist_facts(2) [OF Z, of l] by metis
  next
    case True
    then have xy: "x = y" "others = from_src h (src_of p) ps"
      using Cons.prems(7) q by (simp_all add: from_src_def)
    define h2 where "h2 = h(x \<mapsto> as_last q)"
    define l2 where "l2 = zlist_remove zl l (Some x)"
    have same: "h2 z = h z" if "z \<in> set ps" for z using that Cons.prems(2) xy by (auto simp: h2_def)
    have fs: "from_src h2 s ps = from_src h s ps" for s by (rule from_src_cong) (rule same)
    have pl: "payloads h2 others = payloads h others"
      using same from_src_subset xy by (metis (mono_tags, lifting) map_eq_conv)
    have l2: "items l2 = remove1 x (items l)" "rest l2 = ps"
      using zlist_remove_item [OF Z] rest Cons.prems(2) xy by (simp_all add: l2_def)
    have "\<exists>f' l' h'. reassemble_loop zl junk ra pkg (fst (zlist_next zl l2)) (Some x)
         (snd (zlist_next zl l2)) h2 = Some (Some f', l', h')
       \<and> items l' = items (snd (zlist_next zl l2)) \<and> fwd_post h2 pkg x (as_last q) (from_src h2 (src_of p) ps) f' h'"
    proof (intro reassemble_loop_fwd [OF Z R])
      show "pending rest (fst (zlist_next zl l2)) (snd (zlist_next zl l2)) = ps"
        using zlist_facts [OF Z] l2 by simp
      show "live h2 ps" using live same by (simp add: live_def)
      show "h2 x = Some (as_last q)" "h2 pkg = Some p" using Cons.prems xy by (auto simp: h2_def)
      have "length (data_raw q) = 3 + length (payload_of q)"
        using q(2) by (simp add: packet_wf_def pkt_consts)
      then show "length (data_raw (as_last q)) + length (payloads h2 (from_src h2 (src_of p) ps)) < 65536"
        using Cons.prems(8) q xy pl fs by simp
    qed (use Cons.prems q xy in auto)
    moreover have "reassemble_loop zl junk ra pkg cur None l h =
        reassemble_loop zl junk ra pkg (fst (zlist_next zl l2)) (Some x) (snd (zlist_next zl l2)) h2"
      using q wf True Cons.prems(4) xy
      by (simp add: cur reassemble_loop.simps [of zl junk ra pkg "Some y"] get_src_wf
          set_type_sub_last h2_def l2_def Let_def)
    moreover have "as_last (the (h x)) = as_last q" using q xy by simp
    ultimately show ?thesis
      using zlist_facts(2) [OF Z, of l2] l2(1) xy fs unfolding h2_def by metis
  qed
qed (simp add: from_src_def)

text \<open>
  The handling of the last packet of a transmission, up to the hand-over of the result: the
  forwarded packet, and the state of the buffer and the heap behind it.
\<close>

lemma handle_last_reassembles:
  assumes Z: "zlist_laws zl items rest" and R: "realloc_ok ra"
    and ps: "items (event_reassembly_buf u) = ps" "distinct ps" "live h ps" "pkg \<notin> set ps"
    and p: "h pkg = Some p" "packet_wf p" "osd_packet_get_type_sub p = Some EV_LAST"
    and mine: "from_src h (src_of p) ps = x # others"
    and len: "3 + length (payloads h (x # others)) + length (payload_of p) < 65536"
    and hd: "event_handler u = None"
  shows "\<exists>fwd l' h' r. iothread_handle_in_eventpkg zl junk ra u h pkg w
       = Some (Some fwd, u\<lparr>event_reassembly_buf := l'\<rparr>, h', w)
     \<and> items l' = remove1 x ps
     \<and> h' fwd = Some r \<and> packet_wf r
     \<and> data_raw r = data_raw (as_last (the (h x))) @ payloads h others @ payload_of p
     \<and> (\<forall>y \<in> set (pkg # others). y \<noteq> fwd \<longrightarrow> h' y = None)
     \<and> (\<forall>y \<in> set ps. src_of (the (h y)) \<noteq> src_of p \<longrightarrow> h' y = h y)"
proof -
  obtain q where q: "h x = Some q" "packet_wf q" and x: "x \<in> set ps"
    using mine ps(3) from_src_subset [of x h "src_of p" ps] by (auto simp: live_def)
  have sub: "set others \<subseteq> set ps" "x \<notin> set others"
    using from_src_distinct [OF ps(2), of h "src_of p"] from_src_subset [of _ h "src_of p" ps]
    unfolding mine by auto
  let ?h0 = "h(x \<mapsto> as_last (the (h x)))"
  obtain cur l0 where first: "zlist_first zl (event_reassembly_buf u) = (cur, l0)" by fastforce
  have l0: "pending rest cur l0 = ps" "items l0 = ps"
    using zlist_facts(3,4) [OF Z, of "event_reassembly_buf u"] first ps(1) by simp_all
  obtain f1 l' h1 where run: "reassemble_loop zl junk ra pkg cur None l0 h = Some (Some f1, l', h1)"
    and items: "items l' = remove1 x ps"
    and post: "fwd_post ?h0 pkg x (as_last (the (h x))) others f1 h1"
    using reassemble_loop_start [OF Z R l0(1) ps(2,3) p(1,2) ps(4) mine, of junk] len l0(2) by auto
  have pl: "payloads ?h0 others = payloads h others"
    using sub(2) by (metis (mono_tags, lifting) fun_upd_apply map_eq_conv)
  from post obtain r1 where r1: "h1 f1 = Some r1" "packet_wf r1"
    "data_raw r1 = data_raw (as_last q) @ payloads h others"
    and f1: "f1 \<noteq> pkg" "f1 = x \<or> f1 \<in> set others \<or> f1 \<notin> dom ?h0" and x': "x \<noteq> f1 \<longrightarrow> h1 x = None"
    and keep: "\<And>y. y \<notin> set others \<Longrightarrow> y \<noteq> x \<Longrightarrow> y \<noteq> f1 \<Longrightarrow> h1 y = ?h0 y"
    and freed: "\<And>y. y \<in> set others \<Longrightarrow> y \<noteq> f1 \<Longrightarrow> h1 y = None"
    unfolding fwd_post_def pl using q(1) by auto
  have pkg: "h1 pkg = Some p"
    using keep [of pkg] p(1) f1(1) sub x ps(4) by auto
  have dq: "length (data_raw (as_last q)) = 3 + length (payload_of q)"
    using q(2) by (simp add: packet_wf_def pkt_consts)
  have "length (payload_of q) + length (payloads h others) = length (payloads h (x # others))"
    using q(1) by simp
  then have bound: "length (data_raw r1) + length (payload_of p) < 65536"
    using len unfolding r1(3) length_append dq by linarith
  let ?r = "\<lparr>data_size_words = of_nat (length (data_raw r1) + length (payload_of p)),
        data_raw = data_raw r1 @ payload_of p\<rparr>"
  have wf: "packet_wf ?r"
    using bound r1(2) unat_of_nat_u16 [of "length (data_raw r1) + length (payload_of p)"]
    by (simp add: packet_wf_def)
  let ?f2 = "ra h1 f1"
  let ?h' = "(h1(f1 := None, ?f2 \<mapsto> ?r))(pkg := None)"
  have f2: "?f2 = f1 \<or> ?f2 \<notin> dom h1" using R by (auto simp: realloc_ok_def)
  then have f2p: "?f2 \<noteq> pkg" using f1(1) pkg by auto
  have run2: "iothread_handle_in_eventpkg zl junk ra u h pkg w
     = Some (Some ?f2, u\<lparr>event_reassembly_buf := l'\<rparr>, ?h', w)"
    using p hd run first f1(1) r1 pkg bound
    by (simp add: iothread_handle_in_eventpkg_def EV_LAST_def EV_CONT_def
        heap_combine_eq [of h1 f1 r1 pkg p] Let_def)
  have dead: "?h' y = None" if "y \<in> set (pkg # others)" "y \<noteq> ?f2" for y
    using that freed [of y] by auto
  have other: "?h' y = h y" if y: "y \<in> set ps" "src_of (the (h y)) \<noteq> src_of p" for y
  proof -
    have "y \<notin> set (x # others)"
      unfolding mine [symmetric] using y by (simp add: from_src_def)
    moreover have "y \<noteq> pkg" "y \<in> dom h" using y(1) ps(3,4) by (auto simp: live_def)
    moreover from calculation have yf1: "y \<noteq> f1" using f1(2) by auto
    moreover have "h1 y = h y" using keep [of y] calculation by auto
    moreover from this have "y \<noteq> ?f2" using f2 yf1 \<open>y \<in> dom h\<close> by (metis domIff)
    ultimately show ?thesis by simp
  qed
  have "?h' ?f2 = Some ?r" using f2p by simp
  moreover have "data_raw ?r = data_raw (as_last (the (h x))) @ payloads h others @ payload_of p"
    using r1(3) q(1) by simp
  ultimately show ?thesis using run2 items wf dead other by blast
qed

lemma reassembled_header:
  assumes "packet_wf q" "packet_wf r" "data_raw r = data_raw (as_last q) @ ws"
  shows "osd_packet_get_dest r = osd_packet_get_dest q" "osd_packet_get_src r = osd_packet_get_src q"
    "osd_packet_get_type r = osd_packet_get_type q" "osd_packet_get_type_sub r = Some EV_LAST"
    "payload_of r = payload_of q @ ws"
proof -
  from assms(1) obtain d s f pl where w: "data_raw q = d # s # f # pl" by (blast elim: packet_wf_words)
  then have r: "data_raw r = d # s # (f AND NOT (push_bit 10 0xF)) # pl @ ws"
    using assms(3) by (simp add: as_last_def)
  show "osd_packet_get_dest r = osd_packet_get_dest q" "osd_packet_get_src r = osd_packet_get_src q"
    "payload_of r = payload_of q @ ws"
    using w r by (simp_all add: packet_getters_wf assms(1,2))
  have "data_raw r ! 2 = data_raw q ! 2 AND NOT (push_bit 10 0xF)" using w r by simp
  then show "osd_packet_get_type r = osd_packet_get_type q" "osd_packet_get_type_sub r = Some EV_LAST"
    by (simp_all only: packet_getters_wf assms(1,2) as_last_flags EV_LAST_def unsigned_0)
qed

text \<open>The item at the front of a transmission is live and leaves the buffer; the rest stays.\<close>

lemma from_src_head:
  assumes "from_src h s ps = x # others" "live h ps"
  obtains q where "h x = Some q" "packet_wf q"
  using assms from_src_subset [of x h s ps] by (auto simp: live_def)

lemma from_src_tail_stays:
  assumes "from_src h s ps = x # others" "distinct ps" "y \<in> set others"
  shows "y \<in> set (remove1 x ps)"
  using assms from_src_subset [of y h s ps] from_src_distinct [of ps h s] by auto

text \<open>A list with a cursor, and an allocator that reallocates in place.\<close>

definition cursor_zlist :: "(nat list \<times> nat list, nat) zlist" where
  "cursor_zlist = \<lparr>zlist_append = (\<lambda>(xs, r) p. (xs @ [p], r)),
     zlist_first = (\<lambda>(xs, r). (head_opt xs, (xs, tl xs))),
     zlist_next = (\<lambda>(xs, r). (head_opt r, (xs, tl r))),
     zlist_remove = (\<lambda>(xs, r) p. case p of None \<Rightarrow> (xs, r) | Some p \<Rightarrow> (remove1 p xs, remove1 p r))\<rparr>"

lemma cursor_zlist_laws: "zlist_laws cursor_zlist fst snd"
  by (simp add: zlist_laws_def cursor_zlist_def remove1_idem split: prod.splits)

lemma realloc_in_place: "realloc_ok (\<lambda>h f. f)"
  by (simp add: realloc_ok_def)

definition demo_ctx :: "nat list \<Rightarrow> (nat list \<times> nat list, unit) iothread_usr_ctx" where
  "demo_ctx ps = \<lparr>hostctrl_socket = True, host_controller_address = [], event_handler = None,
     event_reassembly_buf = (ps, [])\<rparr>"

text \<open>Two parts of a transmission from module 5 around one from module 6, and the last part.\<close>

definition demo_heap :: heap where
  "demo_heap = [31 \<mapsto> mk_packet 9 5 OSD_PACKET_TYPE_EVENT EV_CONT [10, 11],
     32 \<mapsto> mk_packet 9 6 OSD_PACKET_TYPE_EVENT EV_CONT [20],
     33 \<mapsto> mk_packet 9 5 OSD_PACKET_TYPE_EVENT EV_CONT [12],
     34 \<mapsto> mk_packet 9 5 OSD_PACKET_TYPE_EVENT EV_LAST [13]]"

lemma demo_hdr: "hdr_in_range 9 5 OSD_PACKET_TYPE_EVENT EV_LAST" "hdr_in_range 9 5 OSD_PACKET_TYPE_EVENT EV_CONT"
  by (simp_all add: hdr_in_range_def pkt_consts)

lemma demo_facts:
  "live demo_heap [31, 32, 33]" "from_src demo_heap 5 [31, 32, 33] = [31, 33]"
  "demo_heap 34 = Some (mk_packet 9 5 OSD_PACKET_TYPE_EVENT EV_LAST [13])"
  "src_of (mk_packet 9 5 OSD_PACKET_TYPE_EVENT EV_LAST [13]) = 5"
  "payloads demo_heap [31, 33] = [10, 11, 12]" "demo_heap 31 = Some (mk_packet 9 5 OSD_PACKET_TYPE_EVENT EV_CONT [10, 11])"
  by (simp_all add: demo_heap_def live_def from_src_def mk_packet_def packet_wf_def pkt_consts)

lemma demo_fresh: "demo_heap 40 = None"
  by (simp add: demo_heap_def)

section \<open>Properties\<close>

text \<open>
  (C1) Event reassembly, for a buffer that holds each packet once and none that has been freed (\<open>distinct ps\<close>, \<open>live h ps\<close>)
  and a transmission of less than 65536 words. When its last packet arrives, packets from its source are buffered and no event handler
  is registered, the packet handed to the main thread has the header of the first buffered
  packet from the same source, marked as last, and its payload is the payloads of all
  buffered packets from this source in order of arrival, followed by the payload of the last
  packet. The packets of other sources keep their contents and stay in the buffer.
  The condition on the buffer is one the code itself breaks: after a transmission of three or more packets the freed packets in the middle
  are still in the buffer (\<open>reassembly_keeps_freed_packets\<close>, \<^verbatim>\<open>hostmod.c:125\<close>), and the statement says nothing about the next
  transmission then.
\<close>

theorem reassembly_correct:
  assumes "zlist_laws zl items rest" "realloc_ok ra"
    and "items (event_reassembly_buf u) = ps" "distinct ps" "live h ps" "pkg \<notin> set ps"
    and "h pkg = Some p" "packet_wf p" "osd_packet_get_type_sub p = Some EV_LAST"
    and "from_src h (src_of p) ps = x # others"
    and "3 + length (payloads h (x # others)) + length (payload_of p) < 65536"
    and "event_handler u = None"
  shows "\<exists>fwd l' h' r. iothread_handle_in_eventpkg zl junk ra u h pkg w
       = Some (Some fwd, u\<lparr>event_reassembly_buf := l'\<rparr>, h', w)
     \<and> h' fwd = Some r \<and> packet_wf r
     \<and> payload_of r = payloads h (x # others) @ payload_of p
     \<and> osd_packet_get_dest r = osd_packet_get_dest (the (h x))
     \<and> osd_packet_get_src r = osd_packet_get_src (the (h x))
     \<and> osd_packet_get_type r = osd_packet_get_type (the (h x))
     \<and> osd_packet_get_type_sub r = Some EV_LAST
     \<and> items l' = remove1 x ps
     \<and> (\<forall>y \<in> set ps. src_of (the (h y)) \<noteq> src_of p \<longrightarrow> h' y = h y)"
proof -
  obtain q where q: "h x = Some q" "packet_wf q" using assms(5,10) by (elim from_src_head)
  obtain fwd l' h' r where run: "iothread_handle_in_eventpkg zl junk ra u h pkg w
       = Some (Some fwd, u\<lparr>event_reassembly_buf := l'\<rparr>, h', w)" "items l' = remove1 x ps"
    and r: "h' fwd = Some r" "packet_wf r" "data_raw r = data_raw (as_last q) @ payloads h others @ payload_of p"
    and keep: "\<forall>y \<in> set ps. src_of (the (h y)) \<noteq> src_of p \<longrightarrow> h' y = h y"
    using handle_last_reassembles [OF assms, of junk w] q(1) by auto
  show ?thesis
    using run r(1,2) keep reassembled_header [OF q(2) r(2,3)] q(1)
    by (intro exI [of _ fwd] exI [of _ l'] exI [of _ h'] exI [of _ r] conjI) simp_all
qed

theorem reassembly_correct_witness:
  "\<exists>fwd u' h' r. iothread_handle_in_eventpkg cursor_zlist (\<lambda>_. 0) (\<lambda>h f. f) (demo_ctx [31, 32, 33]) demo_heap 34 ()
       = Some (Some fwd, u', h', ()) \<and> h' fwd = Some r \<and> payload_of r = [10, 11, 12, 13]
     \<and> fst (event_reassembly_buf u') = [32, 33] \<and> osd_packet_get_type_sub r = Some EV_LAST"
proof -
  have "\<exists>fwd l' h' r. iothread_handle_in_eventpkg cursor_zlist (\<lambda>_. 0) (\<lambda>h f. f) (demo_ctx [31, 32, 33]) demo_heap 34 ()
       = Some (Some fwd, (demo_ctx [31, 32, 33])\<lparr>event_reassembly_buf := l'\<rparr>, h', ())
     \<and> h' fwd = Some r \<and> packet_wf r
     \<and> payload_of r = payloads demo_heap [31, 33] @ payload_of (mk_packet 9 5 OSD_PACKET_TYPE_EVENT EV_LAST [13])
     \<and> osd_packet_get_dest r = osd_packet_get_dest (the (demo_heap 31))
     \<and> osd_packet_get_src r = osd_packet_get_src (the (demo_heap 31))
     \<and> osd_packet_get_type r = osd_packet_get_type (the (demo_heap 31))
     \<and> osd_packet_get_type_sub r = Some EV_LAST
     \<and> fst l' = remove1 31 [31, 32, 33]
     \<and> (\<forall>y \<in> set [31, 32, 33]. src_of (the (demo_heap y))
          \<noteq> src_of (mk_packet 9 5 OSD_PACKET_TYPE_EVENT EV_LAST [13]) \<longrightarrow> h' y = demo_heap y)"
    by (rule reassembly_correct [OF cursor_zlist_laws realloc_in_place _ _ demo_facts(1) _ demo_facts(3)],
        unfold demo_facts(4))
      (simp_all add: demo_facts(2) demo_facts(5) demo_ctx_def mk_packet_getters demo_hdr del: list.map concat.simps)
  then show ?thesis by (force simp: demo_facts(5) simp del: list.map concat.simps)
qed

lemma from_src_fresh:
  assumes "a \<notin> set ps"
  shows "from_src (h(a := v)) s ps = from_src h s ps" "live (h(a := v)) ps = live h ps"
  using assms by (auto intro!: from_src_cong live_cong)

lemma packet_frame_wf:
  "packet_wf p \<Longrightarrow> packet_frame p = Some (enc_words le16_bytes (data_raw p))"
  by (simp add: packet_frame_def packet_wf_def osd_packet_sizeof_def le.length_enc_words)

text \<open>
  After a transmission of at least three packets was reassembled from a message of the host
  controller, the reassembly buffer still holds the addresses of all packets between the
  first and the last one, and these packets have been freed: \<^verbatim>\<open>osd_packet_free\<close> sets the
  pointer to NULL before it is passed to \<^verbatim>\<open>zlist_remove\<close>. The next transmission reads them.
\<close>

theorem reassembly_keeps_freed_packets:
  assumes Z: "zlist_laws zl items rest" "realloc_ok ra" "malloc h \<notin> dom h"
    and ps: "items (event_reassembly_buf u) = ps" "distinct ps" "live h ps"
    and p: "packet_wf p" "osd_packet_get_type p = Some OSD_PACKET_TYPE_EVENT"
      "osd_packet_get_type_sub p = Some EV_LAST"
    and mine: "from_src h (src_of p) ps = x # others"
    and len: "3 + length (payloads h (x # others)) + length (payload_of p) < 65536"
    and hd: "event_handler u = None"
  shows "\<exists>m l' h'. iothread_handle_in_data_msg zl junk ra malloc u h
         [str_bytes ''D'', enc_words le16_bytes (data_raw p)] w
       = Some (Some m, u\<lparr>event_reassembly_buf := l'\<rparr>, h', w)
     \<and> (\<forall>y \<in> set others. y \<in> set (items l') \<and> h' y = None)"
proof -
  let ?h = "h(malloc h \<mapsto> p)"
  have fresh: "malloc h \<notin> set ps" using Z(3) ps(3) by (auto simp: live_def)
  have sub: "set (x # others) \<subseteq> set ps" using from_src_subset mine by (metis subsetI)
  have pl: "payloads ?h (x # others) = payloads h (x # others)"
    using fresh sub by (metis (mono_tags, lifting) fun_upd_apply map_eq_conv subsetD)
  note fs = from_src_fresh [OF fresh]
  obtain fwd l' h' r where run: "iothread_handle_in_eventpkg zl junk ra u ?h (malloc h) w
       = Some (Some fwd, u\<lparr>event_reassembly_buf := l'\<rparr>, h', w)"
    and l': "items l' = remove1 x ps" and r: "h' fwd = Some r" "packet_wf r"
    and dead: "\<forall>y \<in> set (malloc h # others). y \<noteq> fwd \<longrightarrow> h' y = None"
    using handle_last_reassembles [of zl items rest ra u ps ?h "malloc h" p x others junk w,
        unfolded pl fs, OF Z(1,2) ps fresh _ p(1,3) mine len hd] by auto
  have "iothread_handle_in_data_msg zl junk ra malloc u h
         [str_bytes ''D'', enc_words le16_bytes (data_raw p)] w
       = Some (Some [str_bytes ''D'', enc_words le16_bytes (data_raw r)],
               u\<lparr>event_reassembly_buf := l'\<rparr>, h'(fwd := None), w)"
    using run r p by (simp add: iothread_handle_in_data_msg_def zframe_of_packet packet_frame_wf Let_def)
  then show ?thesis
    using dead l' from_src_tail_stays [OF mine ps(2)] by auto
qed

theorem reassembly_keeps_freed_packets_witness:
  "\<exists>m u' h'. iothread_handle_in_data_msg cursor_zlist (\<lambda>_. 0) (\<lambda>h f. f) (\<lambda>h. 40) (demo_ctx [31, 32, 33]) demo_heap
         [str_bytes ''D'', enc_words le16_bytes (data_raw (mk_packet 9 5 OSD_PACKET_TYPE_EVENT EV_LAST [13]))] ()
       = Some (Some m, u', h', ())
     \<and> 33 \<in> set (fst (event_reassembly_buf u')) \<and> h' 33 = None"
proof -
  have "\<exists>m l' h'. iothread_handle_in_data_msg cursor_zlist (\<lambda>_. 0) (\<lambda>h f. f) (\<lambda>h. 40) (demo_ctx [31, 32, 33]) demo_heap
         [str_bytes ''D'', enc_words le16_bytes (data_raw (mk_packet 9 5 OSD_PACKET_TYPE_EVENT EV_LAST [13]))] ()
       = Some (Some m, (demo_ctx [31, 32, 33])\<lparr>event_reassembly_buf := l'\<rparr>, h', ())
     \<and> (\<forall>y \<in> set [33]. y \<in> set (fst l') \<and> h' y = None)"
    by (rule reassembly_keeps_freed_packets [where malloc = "\<lambda>h. 40" and x = 31,
          OF cursor_zlist_laws realloc_in_place _ _ _ demo_facts(1)], unfold demo_facts(4))
      (simp_all add: demo_facts(2) demo_facts(5) demo_ctx_def mk_packet_getters demo_hdr demo_fresh
        domIff del: list.map concat.simps)
  then show ?thesis by force
qed

lemma obtain_diaddr_device:
  assumes "zmsg_send z Hostctrl_socket [str_bytes ''M'', str_bytes ''DIADDR_REQUEST''] w = (0, w1)"
    and "zmsg_recv z Hostctrl_socket w1 = (Received [str_bytes ''M'', str_bytes (fmt_u (unat a))], w2)"
  shows "iothread_obtain_diaddr z w = Some (Inr a, w2)"
proof -
  have a: "strtol10 (fmt_u (unat a)) = (int (unat a), [])"
    using unat_u16_lt [of a] by (intro strtol10_fmt_u) simp
  show ?thesis
    using assms a uint_u16_le [of a]
    by (simp add: iothread_obtain_diaddr_def frame_streq_def frame_str_bytes fmt_u_no_nul)
qed

text \<open>
  The address of a host module. When the host controller answers the address request with a
  management message holding a decimal number, the number is the address obtained: every
  16 bit address the controller prints with \<^verbatim>\<open>%u\<close> arrives unchanged.
\<close>

theorem obtain_diaddr_roundtrip:
  assumes "zmsg_send z Hostctrl_socket [str_bytes ''M'', str_bytes ''DIADDR_REQUEST''] w = (0, w1)"
    and "zmsg_recv z Hostctrl_socket w1 = (Received [str_bytes ''M'', str_bytes (fmt_u (unat a))], w2)"
  shows "iothread_obtain_diaddr z w = Some (Inr a, w2)"
  using assms by (rule obtain_diaddr_device)

theorem obtain_diaddr_roundtrip_witness:
  "iothread_obtain_diaddr
     (queue_zmq\<lparr>zmsg_send := \<lambda>s m w. (0, [[str_bytes ''M'', str_bytes (fmt_u 1025)]])\<rparr>) []
   = Some (Inr 1025, [])"
proof -
  let ?z = "queue_zmq\<lparr>zmsg_send := \<lambda>s m w. (0, [[str_bytes ''M'', str_bytes (fmt_u 1025)]])\<rparr>"
  have "zmsg_send ?z Hostctrl_socket [str_bytes ''M'', str_bytes ''DIADDR_REQUEST''] []
      = (0, [[str_bytes ''M'', str_bytes (fmt_u 1025)]])"
    by simp
  moreover have "zmsg_recv ?z Hostctrl_socket [[str_bytes ''M'', str_bytes (fmt_u 1025)]]
      = (Received [str_bytes ''M'', str_bytes (fmt_u (unat (1025 :: u16)))], [])"
    by (simp add: queue_zmq_def)
  ultimately show ?thesis by (rule obtain_diaddr_roundtrip)
qed

end
