(* ===== verification/Hostmod.thy ===== *)
theory Hostmod
  imports Hostmod_Io Modules
begin

text \<open>
  The main-thread side of a host module (second half of \<^verbatim>\<open>hostmod.c\<close>): sending and receiving
  packets through the I/O thread, connection management, register access, events, and the
  enumeration of debug modules.

  A register value is passed as a buffer of 16 bit words. Register sizes are given in bits;
  negative sizes, which the C type would admit, are not considered.
\<close>

section \<open>Data and constants\<close>

record osd_hostmod_ctx =
  hm_is_connected :: bool
  hm_diaddr :: u16
  hm_ioworker_ctx :: bool

named_theorems reg_consts \<open>register addresses of reg.h\<close>

definition OSD_REG_BASE_MOD_VENDOR :: u16 where [reg_consts]: "OSD_REG_BASE_MOD_VENDOR = 0x0000"
definition OSD_REG_BASE_MOD_TYPE :: u16 where [reg_consts]: "OSD_REG_BASE_MOD_TYPE = 0x0001"
definition OSD_REG_BASE_MOD_VERSION :: u16 where [reg_consts]: "OSD_REG_BASE_MOD_VERSION = 0x0002"
definition OSD_REG_BASE_MOD_CS :: u16 where [reg_consts]: "OSD_REG_BASE_MOD_CS = 0x0003"
definition OSD_REG_BASE_MOD_CS_ACTIVE_BIT :: nat where [reg_consts]: "OSD_REG_BASE_MOD_CS_ACTIVE_BIT = 0"
definition OSD_REG_BASE_MOD_EVENT_DEST :: u16 where [reg_consts]: "OSD_REG_BASE_MOD_EVENT_DEST = 0x0004"
definition OSD_REG_SCM_NUM_MOD :: u16 where [reg_consts]: "OSD_REG_SCM_NUM_MOD = 0x0202"

definition OSD_MAX_PKG_LEN_WORDS :: nat where "OSD_MAX_PKG_LEN_WORDS = 8"

definition OSD_HOSTMOD_BLOCKING :: int where "OSD_HOSTMOD_BLOCKING = 1"

section \<open>Packets to and from the I/O thread\<close>

definition osd_hostmod_send_packet ::
  "'w zmq \<Rightarrow> osd_hostmod_ctx \<Rightarrow> osd_packet \<Rightarrow> 'w \<Rightarrow> (osd_result \<times> 'w) option" where
  "osd_hostmod_send_packet z ctx packet w =
     do { c_assert (hm_ioworker_ctx ctx);
          frame \<leftarrow> packet_frame packet;
          let (rv, w) = zmsg_send z Inproc_main [str_bytes ''D'', frame] w;
          if rv \<noteq> 0 then Some (OSD_ERROR_COM, w) else Some (OSD_OK, w) }"

text \<open>The receive loop: on a timeout it tries again if \<open>do_block\<close> is set.\<close>

partial_function (option) recv_loop :: "'w zmq \<Rightarrow> bool \<Rightarrow> 'w \<Rightarrow> (recv_result \<times> 'w) option" where
  "recv_loop z do_block w =
     (case zmsg_recv z Inproc_main w of
        (Again, w) \<Rightarrow> if do_block then recv_loop z do_block w else Some (Again, w)
      | (r, w) \<Rightarrow> Some (r, w))"

definition osd_hostmod_receive_packet ::
  "'w zmq \<Rightarrow> osd_hostmod_ctx \<Rightarrow> int \<Rightarrow> 'w \<Rightarrow> ((osd_result + osd_packet) \<times> 'w) option" where
  "osd_hostmod_receive_packet z ctx flags w =
     do { let do_block = (flags AND OSD_HOSTMOD_BLOCKING \<noteq> 0);
          c_assert (hm_ioworker_ctx ctx);
          (r, w) \<leftarrow> recv_loop z do_block w;
          (case r of
             Again \<Rightarrow> Some (Inl OSD_ERROR_TIMEDOUT, w)
           | Interrupted \<Rightarrow> Some (Inl OSD_ERROR_FAILURE, w)
           | Received msg \<Rightarrow>
               (case msg of
                  type_frame # data_frame # _ \<Rightarrow>
                    do { c_assert (frame_streq type_frame ''D'');
                         p \<leftarrow> osd_packet_new_from_zframe data_frame;
                         Some (Inr p, w) }
                | _ \<Rightarrow> None)) }"

section \<open>Creation and connection\<close>

definition osd_hostmod_new ::
  "'w zmq \<Rightarrow> int \<Rightarrow> 'w \<Rightarrow> ((osd_result + osd_hostmod_ctx) \<times> 'w) option" where
  "osd_hostmod_new z uninit w =
     do { (rv, worker, w) \<leftarrow> worker_new z uninit w;
          if OSD_FAILED rv then Some (Inl rv, w)
          else Some (Inr \<lparr>hm_is_connected = False, hm_diaddr = 0, hm_ioworker_ctx = worker\<rparr>, w) }"

definition osd_hostmod_get_diaddr :: "osd_hostmod_ctx \<Rightarrow> u16 option" where
  "osd_hostmod_get_diaddr ctx = do { c_assert (hm_is_connected ctx); Some (hm_diaddr ctx) }"

definition osd_hostmod_connect ::
  "'w zmq \<Rightarrow> osd_hostmod_ctx \<Rightarrow> 'w \<Rightarrow> (osd_result \<times> osd_hostmod_ctx \<times> 'w) option" where
  "osd_hostmod_connect z ctx w =
     do { c_assert (\<not> hm_is_connected ctx);
          c_assert (hm_ioworker_ctx ctx);
          w \<leftarrow> worker_send_status z Inproc_main ''I-CONNECT'' 0 w;
          (st, w) \<leftarrow> worker_wait_for_status z Inproc_main ''I-CONNECT-DONE'' w;
          (case st of
             Inl _ \<Rightarrow> Some (OSD_ERROR_CONNECTION_FAILED, ctx, w)
           | Inr retval \<Rightarrow>
               if retval = -1 then Some (OSD_ERROR_CONNECTION_FAILED, ctx, w)
               else Some (OSD_OK, ctx\<lparr>hm_diaddr := word_of_int retval, hm_is_connected := True\<rparr>, w)) }"

definition osd_hostmod_is_connected :: "osd_hostmod_ctx \<Rightarrow> bool" where
  "osd_hostmod_is_connected ctx = hm_is_connected ctx"

definition osd_hostmod_disconnect ::
  "'w zmq \<Rightarrow> osd_hostmod_ctx \<Rightarrow> 'w \<Rightarrow> (osd_result \<times> osd_hostmod_ctx \<times> 'w) option" where
  "osd_hostmod_disconnect z ctx w =
     (if \<not> hm_is_connected ctx then Some (OSD_ERROR_NOT_CONNECTED, ctx, w)
      else do {
        c_assert (hm_ioworker_ctx ctx);
        w \<leftarrow> worker_send_status z Inproc_main ''I-DISCONNECT'' 0 w;
        (st, w) \<leftarrow> worker_wait_for_status z Inproc_main ''I-DISCONNECT-DONE'' w;
        (case st of
           Inl rv \<Rightarrow> Some (rv, ctx, w)
         | Inr retval \<Rightarrow>
             if OSD_FAILED retval then Some (retval, ctx, w)
             else Some (OSD_OK, ctx\<lparr>hm_is_connected := False\<rparr>, w)) })"

definition osd_hostmod_free ::
  "'w zmq \<Rightarrow> osd_hostmod_ctx option \<Rightarrow> 'w \<Rightarrow> (osd_hostmod_ctx option \<times> 'w) option" where
  "osd_hostmod_free z ctx_p w =
     (case ctx_p of
        None \<Rightarrow> Some (None, w)
      | Some ctx \<Rightarrow>
          do { c_assert (\<not> hm_is_connected ctx);
               w \<leftarrow> worker_free z (hm_ioworker_ctx ctx) w;
               Some (None, w) })"

section \<open>Register access\<close>

fun fill_payload :: "osd_packet \<Rightarrow> nat \<Rightarrow> u16 list \<Rightarrow> nat \<Rightarrow> osd_packet option" where
  "fill_payload p i wr_data 0 = Some p"
| "fill_payload p i wr_data (Suc n) =
     do { c_assert (i < length wr_data);
          p \<leftarrow> packet_set_payload p (1 + i) (wr_data ! i);
          fill_payload p (Suc i) wr_data n }"

definition osd_hostmod_regaccess ::
  "'w zmq \<Rightarrow> osd_hostmod_ctx \<Rightarrow> u16 \<Rightarrow> u16 \<Rightarrow> u32 \<Rightarrow> u32 \<Rightarrow> u16 list \<Rightarrow> nat \<Rightarrow> int \<Rightarrow> 'w
    \<Rightarrow> ((osd_result + osd_packet) \<times> 'w) option" where
  "osd_hostmod_regaccess z ctx module_addr reg_addr subtype_req subtype_resp
       wr_data wr_data_len_words flags w =
     (if \<not> hm_is_connected ctx then Some (Inl OSD_ERROR_NOT_CONNECTED, w)
      else do {
        pkg_size_words \<leftarrow> osd_packet_sizeconv_payload2data (1 + wr_data_len_words);
        pkg_req \<leftarrow> osd_packet_set_header (osd_packet_new pkg_size_words) (ucast module_addr)
            (ucast (hm_diaddr ctx)) OSD_PACKET_TYPE_REG subtype_req;
        pkg_req \<leftarrow> packet_set_payload pkg_req 0 reg_addr;
        pkg_req \<leftarrow> fill_payload pkg_req 0 wr_data wr_data_len_words;
        (rv, w) \<leftarrow> osd_hostmod_send_packet z ctx pkg_req w;
        if OSD_FAILED rv then Some (Inl rv, w)
        else on_ok (osd_hostmod_receive_packet z ctx flags w) (\<lambda>pkg_resp w.
          do { type \<leftarrow> osd_packet_get_type pkg_resp;
               c_assert (type = OSD_PACKET_TYPE_REG);
               type_sub \<leftarrow> osd_packet_get_type_sub pkg_resp;
               if type_sub = RESP_READ_REG_ERROR \<or> type_sub = RESP_WRITE_REG_ERROR
               then Some (Inl OSD_ERROR_DEVICE_ERROR, w)
               else if type_sub \<noteq> subtype_resp
               then Some (Inl OSD_ERROR_DEVICE_INVALID_DATA, w)
               else Some (Inr pkg_resp, w) }) })"

definition get_subtype_reg_read_req :: "nat \<Rightarrow> u32" where
  "get_subtype_reg_read_req reg_size_bit = of_nat (reg_size_bit div 16) - 1"

definition get_subtype_reg_read_success_resp :: "nat \<Rightarrow> u32" where
  "get_subtype_reg_read_success_resp reg_size_bit = get_subtype_reg_read_req reg_size_bit OR 0b1000"

definition get_subtype_reg_write_req :: "nat \<Rightarrow> u32" where
  "get_subtype_reg_write_req reg_size_bit = (of_nat (reg_size_bit div 16) - 1) OR 0b0100"

definition osd_hostmod_reg_read ::
  "'w zmq \<Rightarrow> osd_hostmod_ctx \<Rightarrow> u16 \<Rightarrow> u16 \<Rightarrow> nat \<Rightarrow> int \<Rightarrow> 'w
    \<Rightarrow> ((osd_result + u16 list) \<times> 'w) option" where
  "osd_hostmod_reg_read z ctx diaddr reg_addr reg_size_bit flags w =
     do { c_assert (reg_size_bit mod 16 = 0 \<and> reg_size_bit \<le> 128);
          on_ok (osd_hostmod_regaccess z ctx diaddr reg_addr (get_subtype_reg_read_req reg_size_bit)
                   (get_subtype_reg_read_success_resp reg_size_bit) [] 0 flags w)
            (\<lambda>response_pkg w.
              do { exp_data_size_words \<leftarrow> osd_packet_sizeconv_payload2data (reg_size_bit div 16);
                   if unat (data_size_words response_pkg) \<noteq> exp_data_size_words
                   then Some (Inl OSD_ERROR_DEVICE_INVALID_DATA, w)
                   else Some (Inr (take (reg_size_bit div 16) (drop 3 (data_raw response_pkg))), w) }) }"

definition osd_hostmod_reg_write ::
  "'w zmq \<Rightarrow> osd_hostmod_ctx \<Rightarrow> u16 list \<Rightarrow> u16 \<Rightarrow> u16 \<Rightarrow> nat \<Rightarrow> int \<Rightarrow> 'w
    \<Rightarrow> ((osd_result + unit) \<times> 'w) option" where
  "osd_hostmod_reg_write z ctx reg_val diaddr reg_addr reg_size_bit flags w =
     do { c_assert (reg_size_bit mod 16 = 0 \<and> reg_size_bit \<le> 128);
          on_ok (osd_hostmod_regaccess z ctx diaddr reg_addr (get_subtype_reg_write_req reg_size_bit)
                   RESP_WRITE_REG_SUCCESS reg_val (reg_size_bit div 16) flags w)
            (\<lambda>response_pkg w.
              do { data_size_words_exp \<leftarrow> osd_packet_sizeconv_payload2data 0;
                   if unat (data_size_words response_pkg) \<noteq> data_size_words_exp
                   then Some (Inl OSD_ERROR_DEVICE_INVALID_DATA, w)
                   else Some (Inr (), w) }) }"

text \<open>
  The shift is evaluated in \<^verbatim>\<open>int\<close>: a bit number above 30 is undefined. The register size
  given by the caller is not used.
\<close>

definition osd_hostmod_reg_setbit ::
  "'w zmq \<Rightarrow> osd_hostmod_ctx \<Rightarrow> nat \<Rightarrow> bool \<Rightarrow> u16 \<Rightarrow> u16 \<Rightarrow> nat \<Rightarrow> int \<Rightarrow> 'w
    \<Rightarrow> ((osd_result + unit) \<times> 'w) option" where
  "osd_hostmod_reg_setbit z ctx bitnum bitval diaddr reg_addr reg_size_bit flags w =
     on_ok (osd_hostmod_reg_read z ctx diaddr reg_addr 16 flags w)
       (\<lambda>val w.
         do { c_assert (bitnum < 31);
              let v = (ucast (hd val) :: u32);
              let v = (v AND NOT (push_bit bitnum 1)) OR push_bit bitnum (of_bool bitval);
              osd_hostmod_reg_write z ctx [ucast v] diaddr reg_addr 16 flags w })"

section \<open>Events\<close>

definition osd_hostmod_get_max_event_words :: "osd_hostmod_ctx \<Rightarrow> u32 \<Rightarrow> nat option" where
  "osd_hostmod_get_max_event_words ctx di_addr_target =
     osd_packet_sizeconv_data2payload OSD_MAX_PKG_LEN_WORDS"

definition osd_hostmod_event_send ::
  "'w zmq \<Rightarrow> osd_hostmod_ctx \<Rightarrow> osd_packet \<Rightarrow> 'w \<Rightarrow> (osd_result \<times> 'w) option" where
  "osd_hostmod_event_send z ctx event_pkg w =
     do { type \<leftarrow> osd_packet_get_type event_pkg;
          c_assert (type = OSD_PACKET_TYPE_EVENT);
          if \<not> osd_hostmod_is_connected ctx then Some (OSD_ERROR_NOT_CONNECTED, w)
          else osd_hostmod_send_packet z ctx event_pkg w }"

definition osd_hostmod_event_receive ::
  "'w zmq \<Rightarrow> osd_hostmod_ctx \<Rightarrow> int \<Rightarrow> 'w \<Rightarrow> ((osd_result + osd_packet) \<times> 'w) option" where
  "osd_hostmod_event_receive z ctx flags w = osd_hostmod_receive_packet z ctx flags w"

section \<open>Modules\<close>

text \<open>
  The description is filled field by field: after a failed read the fields read before are
  set. The result is the code, the description and the world.
\<close>

definition osd_hostmod_mod_describe ::
  "'w zmq \<Rightarrow> osd_hostmod_ctx \<Rightarrow> u16 \<Rightarrow> osd_module_desc \<Rightarrow> 'w
    \<Rightarrow> (osd_result \<times> osd_module_desc \<times> 'w) option" where
  "osd_hostmod_mod_describe z ctx di_addr desc w =
     do { let desc = desc\<lparr>mod_addr := di_addr\<rparr>;
          (r, w) \<leftarrow> osd_hostmod_reg_read z ctx di_addr OSD_REG_BASE_MOD_VENDOR 16 0 w;
          (case r of
             Inl rv \<Rightarrow> Some (rv, desc, w)
           | Inr v \<Rightarrow> do {
               let desc = desc\<lparr>mod_vendor := hd v\<rparr>;
               (r, w) \<leftarrow> osd_hostmod_reg_read z ctx di_addr OSD_REG_BASE_MOD_TYPE 16 0 w;
               (case r of
                  Inl rv \<Rightarrow> Some (rv, desc, w)
                | Inr v \<Rightarrow> do {
                    let desc = desc\<lparr>mod_type := hd v\<rparr>;
                    (r, w) \<leftarrow> osd_hostmod_reg_read z ctx di_addr OSD_REG_BASE_MOD_VERSION 16 0 w;
                    (case r of
                       Inl rv \<Rightarrow> Some (rv, desc, w)
                     | Inr v \<Rightarrow> Some (OSD_OK, desc\<lparr>mod_version := hd v\<rparr>, w)) }) }) }"

text \<open>
  The enumeration loop. \<open>k\<close> counts the remaining iterations of the loop from \<open>localaddr\<close> up to
  the number of modules; the descriptors are indexed by the full address.
\<close>

fun get_modules_loop ::
  "'w zmq \<Rightarrow> osd_hostmod_ctx \<Rightarrow> u32 \<Rightarrow> nat \<Rightarrow> nat \<Rightarrow> osd_module_desc list \<Rightarrow> osd_result \<Rightarrow> 'w
    \<Rightarrow> (osd_result \<times> osd_module_desc list \<times> 'w) option" where
  "get_modules_loop z ctx subnet_addr localaddr 0 mods retval w = Some (retval, mods, w)"
| "get_modules_loop z ctx subnet_addr localaddr (Suc k) mods retval w =
     do { a \<leftarrow> osd_diaddr_build subnet_addr (of_nat localaddr);
          let module_addr = (ucast a :: u16);
          c_assert (unat module_addr < length mods);
          (rv, desc, w) \<leftarrow> osd_hostmod_mod_describe z ctx module_addr (mods ! unat module_addr) w;
          if OSD_FAILED rv then
            get_modules_loop z ctx subnet_addr (Suc localaddr) k
              (mods[unat module_addr := \<lparr>mod_addr = module_addr, mod_vendor = OSD_MODULE_VENDOR_UNKNOWN,
                 mod_type = OSD_MODULE_TYPE_STD_UNKNOWN, mod_version = 0\<rparr>])
              OSD_ERROR_PARTIAL_RESULT w
          else do {
            type_name \<leftarrow> osd_module_get_type_short_name (ucast (mod_vendor desc)) (ucast (mod_type desc));
            get_modules_loop z ctx subnet_addr (Suc localaddr) k
              (mods[unat module_addr := desc]) retval w } }"

definition osd_hostmod_get_modules ::
  "'w zmq \<Rightarrow> osd_hostmod_ctx \<Rightarrow> u32 \<Rightarrow> 'w
    \<Rightarrow> (osd_result \<times> osd_module_desc list option \<times> 'w) option" where
  "osd_hostmod_get_modules z ctx subnet_addr w =
     do { a \<leftarrow> osd_diaddr_build subnet_addr 0;
          let scm_diaddr = (ucast a :: u16);
          (r, w) \<leftarrow> osd_hostmod_reg_read z ctx scm_diaddr OSD_REG_SCM_NUM_MOD 16 0 w;
          (case r of
             Inl rv \<Rightarrow> Some (rv, None, w)
           | Inr v \<Rightarrow> do {
               let num_modules = unat (hd v);
               let mods = replicate num_modules
                     \<lparr>mod_addr = 0, mod_vendor = 0, mod_type = 0, mod_version = 0\<rparr>;
               (retval, mods, w) \<leftarrow>
                 get_modules_loop z ctx subnet_addr (unat scm_diaddr)
                   (num_modules - unat scm_diaddr) mods OSD_OK w;
               Some (retval, Some mods, w) }) }"

definition osd_hostmod_mod_set_event_dest ::
  "'w zmq \<Rightarrow> osd_hostmod_ctx \<Rightarrow> u16 \<Rightarrow> int \<Rightarrow> 'w \<Rightarrow> ((osd_result + unit) \<times> 'w) option" where
  "osd_hostmod_mod_set_event_dest z ctx di_addr flags w =
     osd_hostmod_reg_write z ctx [hm_diaddr ctx] di_addr OSD_REG_BASE_MOD_EVENT_DEST 16 flags w"

definition osd_hostmod_mod_set_event_active ::
  "'w zmq \<Rightarrow> osd_hostmod_ctx \<Rightarrow> u16 \<Rightarrow> bool \<Rightarrow> int \<Rightarrow> 'w \<Rightarrow> ((osd_result + unit) \<times> 'w) option" where
  "osd_hostmod_mod_set_event_active z ctx di_addr enabled flags w =
     osd_hostmod_reg_setbit z ctx OSD_REG_BASE_MOD_CS_ACTIVE_BIT enabled di_addr
       OSD_REG_BASE_MOD_CS 16 flags w"

section \<open>The request packet and the outcome of an access\<close>

lemma packet_set_payload_eq:
  "i < length (payload_of p) \<Longrightarrow>
   packet_set_payload p i v = Some (p\<lparr>data_raw := (data_raw p)[3 + i := v]\<rparr>)"
  by (auto simp: packet_set_payload_def packet_set_word_def pkt_consts)

lemma fill_payload_eq:
  "n + i \<le> length wr \<Longrightarrow> 4 + i + n \<le> length (data_raw p) \<Longrightarrow>
   fill_payload p i wr n = Some (p\<lparr>data_raw :=
     take (4 + i) (data_raw p) @ take n (drop i wr) @ drop (4 + i + n) (data_raw p)\<rparr>)"
proof (induction n arbitrary: i p)
  case (Suc n)
  let ?d = "(data_raw p)[4 + i := wr ! i]"
  have "take (4 + Suc i) ?d = take (4 + i) (data_raw p) @ [wr ! i]"
    using Suc.prems(2) take_Suc_conv_app_nth [of "4 + i" ?d] by (simp del: take_Suc_conv_app_nth)
  moreover have "drop (4 + Suc i + n) ?d = drop (4 + i + Suc n) (data_raw p)"
    by (simp add: drop_update_cancel add.assoc)
  moreover have "take (Suc n) (drop i wr) = wr ! i # take n (drop (Suc i) wr)"
    using Suc.prems(1) by (simp add: take_Suc_conv_app_nth flip: Cons_nth_drop_Suc)
  moreover have "packet_set_payload p (1 + i) (wr ! i) = Some (p\<lparr>data_raw := ?d\<rparr>)"
    using Suc.prems(2) packet_set_payload_eq [of "1 + i" p] by (simp add: numeral_eq_Suc)
  ultimately show ?case
    using Suc.prems Suc.IH [of "Suc i" "p\<lparr>data_raw := ?d\<rparr>"] by simp
qed simp

text \<open>What a received packet means for an access that expects the subtype \<open>sub\<close>.\<close>

definition access_outcome :: "u32 \<Rightarrow> osd_packet \<Rightarrow> (osd_result + osd_packet) option" where
  "access_outcome sub r =
     do { type \<leftarrow> osd_packet_get_type r;
          type_sub \<leftarrow> osd_packet_get_type_sub r;
          if type \<noteq> OSD_PACKET_TYPE_REG then None
          else Some (if type_sub = RESP_READ_REG_ERROR \<or> type_sub = RESP_WRITE_REG_ERROR
                     then Inl OSD_ERROR_DEVICE_ERROR
                     else if type_sub \<noteq> sub then Inl OSD_ERROR_DEVICE_INVALID_DATA else Inr r) }"

definition req_msg :: "osd_packet \<Rightarrow> zmsg" where
  "req_msg p = [str_bytes ''D'', enc_words le16_bytes (data_raw p)]"

definition ready :: "osd_hostmod_ctx \<Rightarrow> bool" where
  "ready ctx \<longleftrightarrow> hm_is_connected ctx \<and> hm_ioworker_ctx ctx"

lemma send_packet_wf:
  "packet_wf p \<Longrightarrow> hm_ioworker_ctx ctx \<Longrightarrow>
   osd_hostmod_send_packet z ctx p w =
     (case zmsg_send z Inproc_main (req_msg p) w of (rv, w) \<Rightarrow>
        Some (if rv = 0 then OSD_OK else OSD_ERROR_COM, w))"
  by (simp add: osd_hostmod_send_packet_def packet_frame_wf req_msg_def Let_def split: prod.splits)

lemma receive_packet_msg:
  assumes "zmsg_recv z Inproc_main w = (Received (req_msg p), w')" "packet_wf p" "hm_ioworker_ctx ctx"
  shows "osd_hostmod_receive_packet z ctx flags w = Some (Inr p, w')"
  using assms by (simp add: osd_hostmod_receive_packet_def recv_loop.simps [of z _ w] req_msg_def
      frame_streq_def zframe_of_packet)

lemma request_packet:
  fixes sub :: u32
  assumes "length wr < 65532" "unat sub < 16"
  shows "do { pkg_size_words \<leftarrow> osd_packet_sizeconv_payload2data (1 + length wr);
        pkg_req \<leftarrow> osd_packet_set_header (osd_packet_new pkg_size_words) (ucast (m :: u16))
            (ucast (d :: u16)) OSD_PACKET_TYPE_REG sub;
        pkg_req \<leftarrow> packet_set_payload pkg_req 0 reg;
        pkg_req \<leftarrow> fill_payload pkg_req 0 wr (length wr);
        k pkg_req } = k (mk_packet (ucast m) (ucast d) OSD_PACKET_TYPE_REG sub (reg # wr))"
proof -
  let ?n = "4 + length wr"
  have n: "osd_packet_sizeconv_payload2data (Suc (length wr)) = Some ?n"
    using assms(1) by (simp add: osd_packet_sizeconv_payload2data_def pkt_consts Let_def)
  have hdr: "hdr_in_range (ucast m) (ucast d) OSD_PACKET_TYPE_REG sub"
    using assms(2) unat_u16_lt [of m] unat_u16_lt [of d] by (simp add: hdr_in_range_def pkt_consts)
  have wf: "packet_wf (osd_packet_new ?n)" using assms(1) by (intro packet_wf_new) simp_all
  let ?q = "mk_packet (ucast m) (ucast d) OSD_PACKET_TYPE_REG sub (replicate (?n - 3) 0)"
  have "packet_set_payload ?q 0 reg = Some (?q\<lparr>data_raw := (data_raw ?q)[3 := reg]\<rparr>)"
    using packet_set_payload_eq [of 0 ?q reg] by simp
  moreover have "fill_payload (?q\<lparr>data_raw := (data_raw ?q)[3 := reg]\<rparr>) 0 wr (length wr)
      = Some (mk_packet (ucast m) (ucast d) OSD_PACKET_TYPE_REG sub (reg # wr))"
    using fill_payload_eq [of "length wr" 0 wr "?q\<lparr>data_raw := (data_raw ?q)[3 := reg]\<rparr>"]
    by (simp add: mk_packet_def numeral_eq_Suc)
  ultimately show ?thesis
    by (simp add: n set_header_eq [OF wf hdr])
qed

text \<open>One register access: the request that is sent, and how the answer decides the result.\<close>

lemma regaccess_exchange:
  assumes "ready ctx" "length wr < 65532" "unat sub < 16" "packet_wf resp"
    and "zmsg_send z Inproc_main
       (req_msg (mk_packet (ucast m) (ucast (hm_diaddr ctx)) OSD_PACKET_TYPE_REG sub (reg # wr))) w = (0, w1)"
    and "zmsg_recv z Inproc_main w1 = (Received (req_msg resp), w2)"
  shows "osd_hostmod_regaccess z ctx m reg sub sub_resp wr (length wr) flags w =
     map_option (\<lambda>r. (r, w2)) (access_outcome sub_resp resp)"
proof -
  have wf: "packet_wf (mk_packet (ucast m) (ucast (hm_diaddr ctx)) OSD_PACKET_TYPE_REG sub (reg # wr))"
    using assms(2) by simp
  have "osd_hostmod_receive_packet z ctx flags w1 = Some (Inr resp, w2)"
    using assms by (intro receive_packet_msg) (simp_all add: ready_def)
  then show ?thesis
    using assms wf unfolding osd_hostmod_regaccess_def request_packet [OF assms(2,3)]
    by (simp add: ready_def send_packet_wf access_outcome_def packet_getters_wf)
qed

section \<open>Register reads and writes\<close>

lemma subtype_ranges:
  assumes "1 \<le> n" "n \<le> (8 :: nat)"
  shows "unat (of_nat n - 1 :: u32) < 16" "unat ((of_nat n - 1) OR 4 :: u32) < 16"
proof -
  have "n \<in> {1, 2, 3, 4, 5, 6, 7, 8}" using assms by auto
  then show "unat (of_nat n - 1 :: u32) < 16" "unat ((of_nat n - 1) OR 4 :: u32) < 16" by auto
qed

definition read_outcome :: "nat \<Rightarrow> osd_packet \<Rightarrow> (osd_result + u16 list) option" where
  "read_outcome bits resp =
     map_option (\<lambda>r. case r of Inl e \<Rightarrow> Inl e
        | Inr p \<Rightarrow> if length (payload_of p) = bits div 16 then Inr (payload_of p)
                   else Inl OSD_ERROR_DEVICE_INVALID_DATA)
       (access_outcome (get_subtype_reg_read_success_resp bits) resp)"

definition write_outcome :: "osd_packet \<Rightarrow> (osd_result + unit) option" where
  "write_outcome resp =
     map_option (\<lambda>r. case r of Inl e \<Rightarrow> Inl e
        | Inr p \<Rightarrow> if payload_of p = [] then Inr () else Inl OSD_ERROR_DEVICE_INVALID_DATA)
       (access_outcome RESP_WRITE_REG_SUCCESS resp)"

definition read_request :: "osd_hostmod_ctx \<Rightarrow> u16 \<Rightarrow> u16 \<Rightarrow> nat \<Rightarrow> osd_packet" where
  "read_request ctx m reg bits =
     mk_packet (ucast m) (ucast (hm_diaddr ctx)) OSD_PACKET_TYPE_REG (get_subtype_reg_read_req bits) [reg]"

definition write_request :: "osd_hostmod_ctx \<Rightarrow> u16 \<Rightarrow> u16 \<Rightarrow> u16 list \<Rightarrow> osd_packet" where
  "write_request ctx m reg vs =
     mk_packet (ucast m) (ucast (hm_diaddr ctx)) OSD_PACKET_TYPE_REG
       (get_subtype_reg_write_req (16 * length vs)) (reg # vs)"

lemma access_outcome_Inr: "access_outcome sub r = Some (Inr p) \<Longrightarrow> p = r"
  by (auto simp: access_outcome_def bind_eq_Some_conv split: if_splits)

lemma wf_size: "packet_wf p \<Longrightarrow> unat (data_size_words p) = 3 + length (payload_of p)"
  by (auto elim: packet_wf_words)

lemma reg_read_exchange:
  assumes "ready ctx" "bits mod 16 = 0" "16 \<le> bits" "bits \<le> 128" "packet_wf resp"
    and "zmsg_send z Inproc_main (req_msg (read_request ctx m reg bits)) w = (0, w1)"
    and "zmsg_recv z Inproc_main w1 = (Received (req_msg resp), w2)"
  shows "osd_hostmod_reg_read z ctx m reg bits flags w =
     map_option (\<lambda>r. (r, w2)) (read_outcome bits resp)"
proof -
  have n: "1 \<le> bits div 16" "bits div 16 \<le> 8" using assms(3,4) by linarith+
  have acc: "osd_hostmod_regaccess z ctx m reg (get_subtype_reg_read_req bits)
      (get_subtype_reg_read_success_resp bits) [] 0 flags w
    = map_option (\<lambda>r. (r, w2)) (access_outcome (get_subtype_reg_read_success_resp bits) resp)"
    using regaccess_exchange [of ctx "[]" "get_subtype_reg_read_req bits" resp] assms(1,5-7)
      subtype_ranges(1) [OF n]
    by (simp add: read_request_def get_subtype_reg_read_req_def)
  have sz: "osd_packet_sizeconv_payload2data (bits div 16) = Some (3 + bits div 16)"
    using n by (simp add: osd_packet_sizeconv_payload2data_def pkt_consts Let_def)
  show ?thesis
  proof (cases "access_outcome (get_subtype_reg_read_success_resp bits) resp")
    case None
    then show ?thesis using assms(2,4) acc by (simp add: osd_hostmod_reg_read_def read_outcome_def)
  next
    case (Some r)
    then show ?thesis using assms(2,4) acc sz wf_size [OF assms(5)]
      by (cases r) (auto simp: osd_hostmod_reg_read_def read_outcome_def dest: access_outcome_Inr)
  qed
qed

lemma reg_write_exchange:
  assumes "ready ctx" "1 \<le> length vs" "length vs \<le> 8" "packet_wf resp"
    and "zmsg_send z Inproc_main (req_msg (write_request ctx m reg vs)) w = (0, w1)"
    and "zmsg_recv z Inproc_main w1 = (Received (req_msg resp), w2)"
  shows "osd_hostmod_reg_write z ctx vs m reg (16 * length vs) flags w =
     map_option (\<lambda>r. (r, w2)) (write_outcome resp)"
proof -
  have acc: "osd_hostmod_regaccess z ctx m reg (get_subtype_reg_write_req (16 * length vs))
      RESP_WRITE_REG_SUCCESS vs (length vs) flags w
    = map_option (\<lambda>r. (r, w2)) (access_outcome RESP_WRITE_REG_SUCCESS resp)"
    using regaccess_exchange [of ctx vs "get_subtype_reg_write_req (16 * length vs)" resp] assms(1,3-6)
      subtype_ranges(2) [OF assms(2,3)]
    by (simp add: write_request_def get_subtype_reg_write_req_def)
  have sz: "osd_packet_sizeconv_payload2data 0 = Some 3"
    by (simp add: osd_packet_sizeconv_payload2data_def pkt_consts)
  show ?thesis
  proof (cases "access_outcome RESP_WRITE_REG_SUCCESS resp")
    case None
    then show ?thesis using assms(3) acc by (simp add: osd_hostmod_reg_write_def write_outcome_def)
  next
    case (Some r)
    then show ?thesis using assms(3) acc sz wf_size [OF assms(4)]
      by (cases r) (auto simp: osd_hostmod_reg_write_def write_outcome_def dest: access_outcome_Inr)
  qed
qed

section \<open>The register file of a device\<close>

text \<open>
  The contract the module clients rely on: a port through which 16 bit registers are read and
  written. \<open>regs w\<close> is the register file, indexed by module and register address, \<open>up w\<close> says
  that the device works as documented from \<open>w\<close> on.
\<close>

locale reg_file =
  fixes rd :: "u16 \<Rightarrow> u16 \<Rightarrow> 'w \<Rightarrow> ((osd_result + u16 list) \<times> 'w) option"
    and wr :: "u16 list \<Rightarrow> u16 \<Rightarrow> u16 \<Rightarrow> 'w \<Rightarrow> ((osd_result + unit) \<times> 'w) option"
    and regs :: "'w \<Rightarrow> u16 \<times> u16 \<Rightarrow> u16"
    and up :: "'w \<Rightarrow> bool"
  assumes read_law: "up w \<Longrightarrow> \<exists>w'. rd m r w = Some (Inr [regs w (m, r)], w') \<and> up w' \<and> regs w' = regs w"
    and write_law: "up w \<Longrightarrow> \<exists>w'. wr [v] m r w = Some (Inr (), w') \<and> up w' \<and> regs w' = (regs w)((m, r) := v)"
begin

lemma readE:
  assumes "up w"
  obtains w' where "rd m r w = Some (Inr [regs w (m, r)], w')" "up w'" "regs w' = regs w"
  using read_law [OF assms] by blast

lemma writeE:
  assumes "up w"
  obtains w' where "wr [v] m r w = Some (Inr (), w')" "up w'" "regs w' = (regs w)((m, r) := v)"
  using write_law [OF assms] by blast

lemma write_read:
  assumes "up w"
  shows "\<exists>w'. on_ok (wr [v] m r w) (\<lambda>_. rd m r) = Some (Inr [v], w') \<and> up w' \<and> regs w' = (regs w)((m, r) := v)"
proof -
  from assms obtain w1 where 1: "wr [v] m r w = Some (Inr (), w1)" "up w1" "regs w1 = (regs w)((m, r) := v)"
    by (rule writeE)
  from 1(2) obtain w2 where "rd m r w1 = Some (Inr [regs w1 (m, r)], w2)" "up w2" "regs w2 = regs w1"
    by (rule readE)
  with 1 show ?thesis by simp
qed

lemma read_modify_write:
  assumes "up w"
  shows "\<exists>w'. on_ok (rd m r w) (\<lambda>v w. wr [f (hd v)] m r w) = Some (Inr (), w')
     \<and> up w' \<and> regs w' = (regs w)((m, r) := f (regs w (m, r)))"
proof -
  from assms obtain w1 where 1: "rd m r w = Some (Inr [regs w (m, r)], w1)" "up w1" "regs w1 = regs w"
    by (rule readE)
  from 1(2) obtain w2 where "wr [f (regs w (m, r))] m r w1 = Some (Inr (), w2)" "up w2"
    "regs w2 = (regs w1)((m, r) := f (regs w (m, r)))"
    by (rule writeE)
  with 1 show ?thesis by simp
qed

end

text \<open>
  A device at the far end of the I/O thread: from every state in \<open>P\<close>, the device answers a
  16 bit read request with the register contents and a 16 bit write request with an
  acknowledgement, and stays in \<open>P\<close>.
\<close>

definition read_response :: "osd_hostmod_ctx \<Rightarrow> u16 \<Rightarrow> u16 \<Rightarrow> osd_packet" where
  "read_response ctx m v =
     mk_packet (ucast (hm_diaddr ctx)) (ucast m) OSD_PACKET_TYPE_REG RESP_READ_REG_SUCCESS_16 [v]"

definition write_response :: "osd_hostmod_ctx \<Rightarrow> u16 \<Rightarrow> osd_packet" where
  "write_response ctx m =
     mk_packet (ucast (hm_diaddr ctx)) (ucast m) OSD_PACKET_TYPE_REG RESP_WRITE_REG_SUCCESS []"

definition device_ok ::
  "'w zmq \<Rightarrow> osd_hostmod_ctx \<Rightarrow> ('w \<Rightarrow> u16 \<times> u16 \<Rightarrow> u16) \<Rightarrow> ('w \<Rightarrow> bool) \<Rightarrow> bool" where
  "device_ok z ctx regs P \<longleftrightarrow> ready ctx \<and>
     (\<forall>w m r. P w \<longrightarrow> (\<exists>w1 w2.
        zmsg_send z Inproc_main (req_msg (read_request ctx m r 16)) w = (0, w1)
      \<and> zmsg_recv z Inproc_main w1 = (Received (req_msg (read_response ctx m (regs w (m, r)))), w2)
      \<and> P w2 \<and> regs w2 = regs w)) \<and>
     (\<forall>w m r v. P w \<longrightarrow> (\<exists>w1 w2.
        zmsg_send z Inproc_main (req_msg (write_request ctx m r [v])) w = (0, w1)
      \<and> zmsg_recv z Inproc_main w1 = (Received (req_msg (write_response ctx m)), w2)
      \<and> P w2 \<and> regs w2 = (regs w)((m, r) := v)))"

lemma response_outcomes:
  "read_outcome 16 (read_response ctx m v) = Some (Inr [v])"
  "write_outcome (write_response ctx m) = Some (Inr ())"
proof -
  have h: "hdr_in_range (ucast (hm_diaddr ctx)) (ucast m) OSD_PACKET_TYPE_REG RESP_READ_REG_SUCCESS_16"
    "hdr_in_range (ucast (hm_diaddr ctx)) (ucast m) OSD_PACKET_TYPE_REG RESP_WRITE_REG_SUCCESS"
    using unat_u16_lt [of m] unat_u16_lt [of "hm_diaddr ctx"] by (simp_all add: hdr_in_range_def pkt_consts)
  show "read_outcome 16 (read_response ctx m v) = Some (Inr [v])"
    by (simp add: read_outcome_def access_outcome_def read_response_def mk_packet_getters [OF h(1)]
        get_subtype_reg_read_success_resp_def get_subtype_reg_read_req_def)
      (simp add: pkt_consts)
  show "write_outcome (write_response ctx m) = Some (Inr ())"
    by (simp add: write_outcome_def access_outcome_def write_response_def mk_packet_getters [OF h(2)])
      (simp add: pkt_consts)
qed

interpretation hm: reg_file
  "\<lambda>m r w. osd_hostmod_reg_read z ctx m r 16 flags w"
  "\<lambda>v m r w. osd_hostmod_reg_write z ctx v m r 16 flags w"
  regs "\<lambda>w. device_ok z ctx regs P \<and> P w" for z ctx flags regs P
proof
  fix w m r v
  assume up: "device_ok z ctx regs P \<and> P w"
  then have ctx: "ready ctx" by (simp add: device_ok_def)
  from up obtain w1 w2 where "zmsg_send z Inproc_main (req_msg (read_request ctx m r 16)) w = (0, w1)"
    "zmsg_recv z Inproc_main w1 = (Received (req_msg (read_response ctx m (regs w (m, r)))), w2)"
    and s: "P w2" "regs w2 = regs w"
    unfolding device_ok_def by metis
  then have "osd_hostmod_reg_read z ctx m r 16 flags w = Some (Inr [regs w (m, r)], w2)"
    using reg_read_exchange [OF ctx, of 16 "read_response ctx m (regs w (m, r))" z m r w w1 w2 flags]
    by (simp add: response_outcomes) (simp add: read_response_def)
  with up s show "\<exists>w'. osd_hostmod_reg_read z ctx m r 16 flags w = Some (Inr [regs w (m, r)], w')
     \<and> (device_ok z ctx regs P \<and> P w') \<and> regs w' = regs w" by blast
  from up obtain w1 w2 where "zmsg_send z Inproc_main (req_msg (write_request ctx m r [v])) w = (0, w1)"
    "zmsg_recv z Inproc_main w1 = (Received (req_msg (write_response ctx m)), w2)"
    and s: "P w2" "regs w2 = (regs w)((m, r) := v)"
    unfolding device_ok_def by metis
  then have "osd_hostmod_reg_write z ctx [v] m r 16 flags w = Some (Inr (), w2)"
    using reg_write_exchange [OF ctx, of "[v]" "write_response ctx m" z m r w w1 w2 flags]
    by (simp add: response_outcomes) (simp add: write_response_def)
  with up s show "\<exists>w'. osd_hostmod_reg_write z ctx [v] m r 16 flags w = Some (Inr (), w')
     \<and> (device_ok z ctx regs P \<and> P w') \<and> regs w' = (regs w)((m, r) := v)" by blast
qed

section \<open>Read-modify-write and enumeration\<close>

lemma setbit_word:
  fixes x :: u16
  assumes "n < 16"
  shows "ucast ((ucast x AND NOT (push_bit n 1)) OR push_bit n (of_bool b) :: u32)
     = (if b then set_bit n x else unset_bit n x)"
  using assms by (auto intro!: bit_word_eqI simp: bit_simps)

lemma reg_setbit_device:
  assumes "device_ok z ctx regs P" "P w" "n < 16"
  shows "\<exists>w'. osd_hostmod_reg_setbit z ctx n b m r bits flags w = Some (Inr (), w')
     \<and> P w' \<and> regs w' = (regs w)((m, r) := (if b then set_bit n else unset_bit n) (regs w (m, r)))"
  using hm.read_modify_write [of z ctx regs P w m r flags "if b then set_bit n else unset_bit n"] assms
  unfolding osd_hostmod_reg_setbit_def Let_def setbit_word [OF assms(3)]
  by (simp add: if_distribR)

text \<open>What a module answers about itself.\<close>

definition desc_of :: "(u16 \<times> u16 \<Rightarrow> u16) \<Rightarrow> u16 \<Rightarrow> osd_module_desc" where
  "desc_of R a = \<lparr>mod_addr = a, mod_vendor = R (a, OSD_REG_BASE_MOD_VENDOR),
     mod_type = R (a, OSD_REG_BASE_MOD_TYPE), mod_version = R (a, OSD_REG_BASE_MOD_VERSION)\<rparr>"

lemma mod_describe_device:
  assumes "device_ok z ctx regs P" "P w"
  obtains w' where "osd_hostmod_mod_describe z ctx a desc w = Some (OSD_OK, desc_of (regs w) a, w')"
    "P w'" "regs w' = regs w"
proof -
  have up: "device_ok z ctx regs P \<and> P w" using assms by simp
  obtain w1 where 1: "osd_hostmod_reg_read z ctx a OSD_REG_BASE_MOD_VENDOR 16 0 w
      = Some (Inr [regs w (a, OSD_REG_BASE_MOD_VENDOR)], w1)"
    "device_ok z ctx regs P \<and> P w1" "regs w1 = regs w" using up by (rule hm.readE)
  obtain w2 where 2: "osd_hostmod_reg_read z ctx a OSD_REG_BASE_MOD_TYPE 16 0 w1
      = Some (Inr [regs w1 (a, OSD_REG_BASE_MOD_TYPE)], w2)"
    "device_ok z ctx regs P \<and> P w2" "regs w2 = regs w1" using 1(2) by (rule hm.readE)
  obtain w3 where 3: "osd_hostmod_reg_read z ctx a OSD_REG_BASE_MOD_VERSION 16 0 w2
      = Some (Inr [regs w2 (a, OSD_REG_BASE_MOD_VERSION)], w3)"
    "device_ok z ctx regs P \<and> P w3" "regs w3 = regs w2" using 2(2) by (rule hm.readE)
  have "osd_hostmod_mod_describe z ctx a desc w = Some (OSD_OK, desc_of (regs w) a, w3)"
    using 1 2 3 by (simp add: osd_hostmod_mod_describe_def desc_of_def Let_def)
  then show thesis using 1 2 3 that by simp
qed

lemma diaddr_build_subnet0: "n < 1024 \<Longrightarrow> osd_diaddr_build 0 (of_nat n) = Some (of_nat n)"
  by (simp add: osd_diaddr_build_def OSD_DIADDR_SUBNET_MAX_def OSD_DIADDR_LOCAL_MAX_def
      OSD_DIADDR_SUBNET_BITS_def OSD_DIADDR_LOCAL_BITS_def word_le_nat_alt unat_of_nat_u32)

lemma ucast_of_nat_u32_u16: "n < 65536 \<Longrightarrow> ucast (of_nat n :: u32) = (of_nat n :: u16)"
  by (rule word_unat_eq_iff [THEN iffD2]) (simp add: unat_of_nat_u16 unat_of_nat_u32 unsigned_ucast_eq take_bit_nat_eq_self)

lemma get_modules_loop_device:
  assumes dev: "device_ok z ctx regs P"
  shows "P w \<Longrightarrow> n + k \<le> 1024 \<Longrightarrow> length mods = n + k
     \<Longrightarrow> (\<And>a. unat a < n + k \<Longrightarrow> osd_module_get_type_short_name
            (ucast (regs w (a, OSD_REG_BASE_MOD_VENDOR))) (ucast (regs w (a, OSD_REG_BASE_MOD_TYPE))) \<noteq> None)
     \<Longrightarrow> \<exists>w'. get_modules_loop z ctx 0 n k mods rv w =
           Some (rv, take n mods @ map (\<lambda>i. desc_of (regs w) (of_nat i)) [n..<n + k], w')
         \<and> P w' \<and> regs w' = regs w"
proof (induction k arbitrary: n mods w)
  case (Suc k)
  let ?a = "of_nat n :: u16"
  obtain w1 where 1: "osd_hostmod_mod_describe z ctx ?a (mods ! n) w = Some (OSD_OK, desc_of (regs w) ?a, w1)"
    "P w1" "regs w1 = regs w" using dev Suc.prems(1) by (rule mod_describe_device)
  have n: "unat ?a = n" using Suc.prems by (simp add: unat_of_nat_u16)
  obtain nm where nm: "osd_module_get_type_short_name (ucast (mod_vendor (desc_of (regs w) ?a)))
      (ucast (mod_type (desc_of (regs w) ?a))) = Some nm"
    using Suc.prems(4) [of ?a] n by (auto simp: desc_of_def)
  have step: "get_modules_loop z ctx 0 n (Suc k) mods rv w =
      get_modules_loop z ctx 0 (Suc n) k (mods[n := desc_of (regs w) ?a]) rv w1"
    using Suc.prems n 1(1) nm
    by (simp add: diaddr_build_subnet0 ucast_of_nat_u32_u16 Let_def)
  have "take (Suc n) (mods[n := desc_of (regs w) ?a]) = take n mods @ [desc_of (regs w) ?a]"
    using Suc.prems(3) by (simp add: take_Suc_conv_app_nth)
  moreover have "[n..<n + Suc k] = n # [Suc n..<Suc n + k]" by (simp add: upt_conv_Cons)
  moreover obtain w' where "get_modules_loop z ctx 0 (Suc n) k (mods[n := desc_of (regs w) ?a]) rv w1 =
      Some (rv, take (Suc n) (mods[n := desc_of (regs w) ?a])
        @ map (\<lambda>i. desc_of (regs w) (of_nat i)) [Suc n..<Suc n + k], w')" "P w'" "regs w' = regs w"
    using Suc.IH [of w1 "Suc n" "mods[n := desc_of (regs w) ?a]"] Suc.prems 1 by auto
  ultimately show ?case unfolding step by simp
qed auto

lemma get_modules_device:
  assumes "device_ok z ctx regs P" "P w" "unat (regs w (0, OSD_REG_SCM_NUM_MOD)) \<le> 1024"
    and "\<And>a. unat a < unat (regs w (0, OSD_REG_SCM_NUM_MOD)) \<Longrightarrow> osd_module_get_type_short_name
            (ucast (regs w (a, OSD_REG_BASE_MOD_VENDOR))) (ucast (regs w (a, OSD_REG_BASE_MOD_TYPE))) \<noteq> None"
  shows "\<exists>w'. osd_hostmod_get_modules z ctx 0 w =
       Some (OSD_OK, Some (map (\<lambda>i. desc_of (regs w) (of_nat i))
                             [0..<unat (regs w (0, OSD_REG_SCM_NUM_MOD))]), w')
     \<and> P w' \<and> regs w' = regs w"
proof -
  let ?n = "unat (regs w (0, OSD_REG_SCM_NUM_MOD))"
  have "device_ok z ctx regs P \<and> P w" using assms by simp
  then obtain w1 where 1: "osd_hostmod_reg_read z ctx 0 OSD_REG_SCM_NUM_MOD 16 0 w
      = Some (Inr [regs w (0, OSD_REG_SCM_NUM_MOD)], w1)" "P w1" "regs w1 = regs w"
    by (rule hm.readE) blast
  let ?mods = "replicate ?n \<lparr>mod_addr = 0, mod_vendor = 0, mod_type = 0, mod_version = 0\<rparr>"
  obtain w2 where "get_modules_loop z ctx 0 0 ?n ?mods OSD_OK w1 =
      Some (OSD_OK, map (\<lambda>i. desc_of (regs w) (of_nat i)) [0..<?n], w2)" "P w2" "regs w2 = regs w"
    using get_modules_loop_device [OF assms(1) 1(2), of 0 ?n ?mods OSD_OK] assms(3,4) 1(3) by auto
  then show ?thesis
    using 1 diaddr_build_subnet0 [of 0] by (simp add: osd_hostmod_get_modules_def Let_def)
qed

section \<open>A simulated device\<close>

type_synonym sim = "(u16 \<times> u16 \<Rightarrow> u16) \<times> zmsg list"

definition sim_answer :: "(u16 \<times> u16 \<Rightarrow> u16) \<Rightarrow> osd_packet \<Rightarrow> (u16 \<times> u16 \<Rightarrow> u16) \<times> osd_packet" where
  "sim_answer R p =
     (let m = data_raw p ! 0; d = data_raw p ! 1; r = payload_of p ! 0
      in if length (payload_of p) = 1
         then (R, mk_packet (ucast d) (ucast m) OSD_PACKET_TYPE_REG RESP_READ_REG_SUCCESS_16 [R (m, r)])
         else (R((m, r) := payload_of p ! 1),
               mk_packet (ucast d) (ucast m) OSD_PACKET_TYPE_REG RESP_WRITE_REG_SUCCESS []))"

definition sim_zmq :: "sim zmq" where
  "sim_zmq = \<lparr>zmsg_send = (\<lambda>s msg (R, q).
       case osd_packet_new_from_zframe (msg ! 1) of
         None \<Rightarrow> (-1, (R, q))
       | Some p \<Rightarrow> (case sim_answer R p of (R', a) \<Rightarrow> (0, (R', q @ [req_msg a])))),
     zmsg_recv = (\<lambda>s (R, q). case q of [] \<Rightarrow> (Again, (R, [])) | m # ms \<Rightarrow> (Received m, (R, ms))),
     zsock_new = (\<lambda>s a w. (True, w)), zsock_bind = (\<lambda>s a w. (0, w)),
     zsock_connect = (\<lambda>s a w. (0, w)), zsock_destroy = (\<lambda>s w. w),
     zloop_reader = (\<lambda>s w. (0, w)), zloop_reader_end = (\<lambda>s w. w),
     zuuid_str = (\<lambda>w. (replicate 32 (CHR ''a''), w)),
     pthread_create = (\<lambda>w. (0, w)), pthread_join = (\<lambda>w. w), pthread_cancel = (\<lambda>w. w),
     thread_is_running = (\<lambda>w. True)\<rparr>"

lemma sim_device_ok:
  assumes "ready ctx"
  shows "device_ok sim_zmq ctx fst (\<lambda>w. snd w = [])"
proof -
  have send: "zmsg_send sim_zmq s (req_msg p) (R, q) =
      (0, (fst (sim_answer R p), q @ [req_msg (snd (sim_answer R p))]))" if "packet_wf p" for s p R q
    using that by (simp add: sim_zmq_def req_msg_def zframe_of_packet split: prod.splits)
  show ?thesis
    using assms
    by (simp add: device_ok_def read_request_def write_request_def send)
      (simp add: sim_answer_def mk_packet_def sim_zmq_def read_response_def write_response_def Let_def)
qed

definition sim_ctx :: osd_hostmod_ctx where
  "sim_ctx = \<lparr>hm_is_connected = True, hm_diaddr = 0x401, hm_ioworker_ctx = True\<rparr>"

lemma sim_ctx_ready: "ready sim_ctx"
  by (simp add: ready_def sim_ctx_def)

lemmas sim_ok = sim_device_ok [OF sim_ctx_ready]

section \<open>Properties\<close>

text \<open>
  (C26) A read of a 16 or 32 bit register sends exactly one request, with the subtype that \<^verbatim>\<open>packet.h\<close> has for reads of this size,
  and the packet received decides its result: a packet that is no register packet aborts, an error response gives
  \<open>OSD_ERROR_DEVICE_ERROR\<close>, the response that \<^verbatim>\<open>packet.h\<close> has for successful reads of this size with a payload of this size
  gives its payload, and any other subtype or length gives \<open>OSD_ERROR_DEVICE_INVALID_DATA\<close>. The outcome
  does not depend on the flags. (For 64 and 128 bit the code's subtypes are not those of \<^verbatim>\<open>packet.h\<close>, see
  \<open>wide_registers_get_wrong_subtype\<close>.)
\<close>

theorem reg_read_decided_by_response:
  assumes "ready ctx" "packet_wf resp" "osd_packet_get_type resp = Some type" "osd_packet_get_type_sub resp = Some sub"
    and size: "(bits, request, success) \<in> {(16, REQ_READ_REG_16, RESP_READ_REG_SUCCESS_16), (32, REQ_READ_REG_32, RESP_READ_REG_SUCCESS_32)}"
    and "zmsg_send z Inproc_main (req_msg (mk_packet (ucast m) (ucast (hm_diaddr ctx)) OSD_PACKET_TYPE_REG request [reg])) w = (0, w1)"
    and "zmsg_recv z Inproc_main w1 = (Received (req_msg resp), w2)"
  shows "osd_hostmod_reg_read z ctx m reg bits flags w =
     (if type \<noteq> OSD_PACKET_TYPE_REG then None
      else Some (if sub = RESP_READ_REG_ERROR \<or> sub = RESP_WRITE_REG_ERROR then Inl OSD_ERROR_DEVICE_ERROR
                 else if sub = success \<and> length (payload_of resp) = bits div 16 then Inr (payload_of resp)
                 else Inl OSD_ERROR_DEVICE_INVALID_DATA, w2))"
proof -
  have n: "bits mod 16 = 0" "16 \<le> bits" "bits \<le> 128" using size by auto
  have s: "get_subtype_reg_read_req bits = request" "get_subtype_reg_read_success_resp bits = success"
    using size by (auto simp: get_subtype_reg_read_req_def get_subtype_reg_read_success_resp_def pkt_consts)
  have "osd_hostmod_reg_read z ctx m reg bits flags w = map_option (\<lambda>r. (r, w2)) (read_outcome bits resp)"
    using assms(6,7) by (intro reg_read_exchange [OF assms(1) n assms(2)]) (simp_all add: read_request_def s)
  then show ?thesis by (simp add: read_outcome_def access_outcome_def assms(3,4) s)
qed

theorem reg_read_decided_by_response_witness:
  "osd_hostmod_reg_read
     (queue_zmq\<lparr>zmsg_send := \<lambda>s m w. (0, [req_msg (mk_packet 0x401 7 OSD_PACKET_TYPE_REG RESP_READ_REG_ERROR [])])\<rparr>)
     sim_ctx 7 0x200 32 0 [] = Some (Inl OSD_ERROR_DEVICE_ERROR, [])"
proof -
  let ?r = "mk_packet 0x401 7 OSD_PACKET_TYPE_REG RESP_READ_REG_ERROR []"
  let ?z = "queue_zmq\<lparr>zmsg_send := \<lambda>s m w. (0, [req_msg ?r])\<rparr>"
  have "hdr_in_range 0x401 7 OSD_PACKET_TYPE_REG RESP_READ_REG_ERROR"
    by (simp add: hdr_in_range_def pkt_consts)
  then have t: "osd_packet_get_type ?r = Some OSD_PACKET_TYPE_REG" "osd_packet_get_type_sub ?r = Some RESP_READ_REG_ERROR"
    by (simp_all add: mk_packet_getters)
  have s: "(32 :: nat, REQ_READ_REG_32, RESP_READ_REG_SUCCESS_32) \<in> {(16, REQ_READ_REG_16, RESP_READ_REG_SUCCESS_16), (32, REQ_READ_REG_32, RESP_READ_REG_SUCCESS_32)}"
    by simp
  show ?thesis
    using reg_read_decided_by_response [OF sim_ctx_ready packet_wf_mk_packet t s, where z = ?z and m = 7 and reg = "0x200" and w = "[]"
        and ?w1.0 = "[req_msg ?r]" and ?w2.0 = "[]" and flags = 0]
    by (simp add: queue_zmq_def)
qed

text \<open>
  (C25) Registers of a working device behave like memory seen through a host module: a 16 bit
  write followed by a read of the same register returns the value written, and no other
  register of any module has changed.
\<close>

theorem reg_write_read_roundtrip:
  assumes "device_ok z ctx regs P" "P w"
  shows "\<exists>w'. on_ok (osd_hostmod_reg_write z ctx [v] m r 16 flags w)
        (\<lambda>_. osd_hostmod_reg_read z ctx m r 16 flags) = Some (Inr [v], w')
     \<and> P w' \<and> regs w' = (regs w)((m, r) := v)"
  using hm.write_read [of z ctx regs P w v m r flags] assms by simp

theorem reg_write_read_roundtrip_witness:
  "\<exists>w'. on_ok (osd_hostmod_reg_write sim_zmq sim_ctx [0xbeef] 3 0x200 16 0 (\<lambda>_. 0, []))
        (\<lambda>_. osd_hostmod_reg_read sim_zmq sim_ctx 3 0x200 16 0) = Some (Inr [0xbeef], w')
     \<and> snd w' = [] \<and> fst w' = (\<lambda>_. 0)((3, 0x200) := 0xbeef)"
  using reg_write_read_roundtrip [OF sim_ok, where w = "(\<lambda>_. 0, [])" and v = "0xbeef" and m = 3
      and r = "0x200" and flags = 0] by simp

text \<open>
  Setting a bit of a register changes this bit and nothing else, in this register and in all
  others, for every bit of a 16 bit register.
\<close>

theorem reg_setbit_changes_one_bit:
  assumes "device_ok z ctx regs P" "P w" "n < 16"
  shows "\<exists>w'. osd_hostmod_reg_setbit z ctx n b m r 16 flags w = Some (Inr (), w') \<and> P w'
     \<and> (\<forall>k < 16. bit (regs w' (m, r)) k = (if k = n then b else bit (regs w (m, r)) k))
     \<and> (\<forall>mr. mr \<noteq> (m, r) \<longrightarrow> regs w' mr = regs w mr)"
  using reg_setbit_device [OF assms, of b m r 16 flags] assms(3)
  by (auto simp: bit_simps)

theorem reg_setbit_changes_one_bit_witness:
  "\<exists>w'. osd_hostmod_reg_setbit sim_zmq sim_ctx 3 True 5 3 16 0 (\<lambda>_. 0x8001, []) = Some (Inr (), w')
     \<and> fst w' (5, 4) = 0x8001"
  using reg_setbit_changes_one_bit [OF sim_ok, where w = "(\<lambda>_. 0x8001, [])" and n = 3 and b = True
      and m = 5 and r = 3 and flags = 0] by auto

text \<open>
  (C37) Enumeration of subnet 0. If the subnet control module reports at most 1024 modules, and
  every module has a vendor and type the name tables can be indexed with, the enumeration
  returns \<open>OSD_OK\<close> and one descriptor per module, in order of their addresses, with the
  vendor, type and version the module reports. No register is changed.
\<close>

theorem get_modules_enumerates:
  assumes "device_ok z ctx regs P" "P w" "unat (regs w (0, OSD_REG_SCM_NUM_MOD)) \<le> 1024"
    and "\<And>a. unat a < unat (regs w (0, OSD_REG_SCM_NUM_MOD)) \<Longrightarrow> osd_module_get_type_short_name
            (ucast (regs w (a, OSD_REG_BASE_MOD_VENDOR))) (ucast (regs w (a, OSD_REG_BASE_MOD_TYPE))) \<noteq> None"
  shows "\<exists>w'. osd_hostmod_get_modules z ctx 0 w =
       Some (OSD_OK, Some (map (\<lambda>i. desc_of (regs w) (of_nat i))
                             [0..<unat (regs w (0, OSD_REG_SCM_NUM_MOD))]), w')
     \<and> P w' \<and> regs w' = regs w"
  using assms by (rule get_modules_device)

definition sim_regs :: "u16 \<times> u16 \<Rightarrow> u16" where
  "sim_regs = (\<lambda>_. 0)((0, OSD_REG_SCM_NUM_MOD) := 2, (0, 0) := 1, (0, 1) := 1, (1, 0) := 1, (1, 1) := 3)"

theorem get_modules_enumerates_witness:
  "\<exists>w'. osd_hostmod_get_modules sim_zmq sim_ctx 0 (sim_regs, []) =
       Some (OSD_OK, Some [\<lparr>mod_addr = 0, mod_vendor = 1, mod_type = 1, mod_version = 0\<rparr>,
                           \<lparr>mod_addr = 1, mod_vendor = 1, mod_type = 3, mod_version = 0\<rparr>], w')"
proof -
  have n: "unat (sim_regs (0, OSD_REG_SCM_NUM_MOD)) = 2" by (simp add: sim_regs_def reg_consts)
  have small: "a = 0 \<or> a = 1" if "unat a < 2" for a :: u16
  proof -
    from that have "unat a = unat (0 :: u16) \<or> unat a = unat (1 :: u16)" by simp linarith
    then show ?thesis by (simp only: word_unat_eq_iff)
  qed
  have d: "desc_of sim_regs (of_nat 0) = \<lparr>mod_addr = 0, mod_vendor = 1, mod_type = 1, mod_version = 0\<rparr>"
    "desc_of sim_regs (of_nat 1) = \<lparr>mod_addr = 1, mod_vendor = 1, mod_type = 3, mod_version = 0\<rparr>"
    by (simp_all add: desc_of_def sim_regs_def reg_consts)
  show ?thesis
    using get_modules_enumerates [OF sim_ok, of "(sim_regs, [])"] d
    by (auto simp: n upt_rec dest!: small)
      (auto simp: sim_regs_def reg_consts osd_module_get_type_short_name_def OSD_MODULE_VENDOR_OSD_def
        OSD_MODULE_TYPE_STD_shortnames_def sizeof_ptr_array_def)
qed

text \<open>
  Enumeration of any other subnet. The loop starts at the full address of the subnet's
  control module instead of at local address 0, so that for a subnet with at most
  \<open>1024 * subnet\<close> modules it does not run at all: the call returns \<open>OSD_OK\<close> with
  descriptors that are all zero, whatever modules the subnet has.
\<close>

theorem get_modules_other_subnet_empty:
  assumes "device_ok z ctx regs P" "P w" "0 < s" "s \<le> 63"
    and "unat (regs w (of_nat (1024 * s), OSD_REG_SCM_NUM_MOD)) \<le> 1024 * s"
  shows "\<exists>w'. osd_hostmod_get_modules z ctx (of_nat s) w =
       Some (OSD_OK, Some (replicate (unat (regs w (of_nat (1024 * s), OSD_REG_SCM_NUM_MOD)))
               \<lparr>mod_addr = 0, mod_vendor = 0, mod_type = 0, mod_version = 0\<rparr>), w')"
proof -
  let ?scm = "of_nat (1024 * s) :: u16"
  have "device_ok z ctx regs P \<and> P w" using assms by simp
  then obtain w1 where 1: "osd_hostmod_reg_read z ctx ?scm OSD_REG_SCM_NUM_MOD 16 0 w
      = Some (Inr [regs w (?scm, OSD_REG_SCM_NUM_MOD)], w1)" by (rule hm.readE) blast
  have "(of_nat s :: u32) \<le> 63"
    using assms(4) by (simp add: word_le_nat_alt unat_of_nat_u32)
  then have b: "osd_diaddr_build (of_nat s) 0 = Some (of_nat (1024 * s))"
    by (simp add: osd_diaddr_build_def OSD_DIADDR_SUBNET_MAX_def OSD_DIADDR_LOCAL_BITS_def
        OSD_DIADDR_SUBNET_BITS_def push_bit_eq_mult mult.commute)
  have c: "ucast (of_nat (1024 * s) :: u32) = ?scm" "unat ?scm = 1024 * s"
    using assms(4) by (simp_all only: ucast_of_nat_u32_u16 unat_of_nat_u16)
  show ?thesis
    using 1 assms(5) c(2) unfolding osd_hostmod_get_modules_def b by (simp only: option.simps bind.simps c Let_def) simp
qed

theorem get_modules_other_subnet_empty_witness:
  "\<exists>w'. osd_hostmod_get_modules sim_zmq sim_ctx (of_nat 1) ((\<lambda>_. 0)((1024, OSD_REG_SCM_NUM_MOD) := 1, (1024, 0) := 1), []) =
       Some (OSD_OK, Some [\<lparr>mod_addr = 0, mod_vendor = 0, mod_type = 0, mod_version = 0\<rparr>], w')"
  using get_modules_other_subnet_empty [OF sim_ok,
      where s = 1 and w = "((\<lambda>_. 0)((1024, OSD_REG_SCM_NUM_MOD) := 1, (1024, 0) := 1), [])"]
  by (simp add: reg_consts)

text \<open>
  The subtype of register requests. It is computed as the number of words minus one,
  which is the documented encoding for 16 and 32 bit registers only: a 64 bit read is sent as a
  128 bit read, a 64 bit write as a 128 bit write, and a 128 bit read as a 128 bit write.
\<close>

theorem wide_registers_get_wrong_subtype:
  "get_subtype_reg_read_req 16 = REQ_READ_REG_16
   \<and> get_subtype_reg_read_req 32 = REQ_READ_REG_32
   \<and> get_subtype_reg_write_req 16 = REQ_WRITE_REG_16
   \<and> get_subtype_reg_write_req 32 = REQ_WRITE_REG_32
   \<and> get_subtype_reg_read_success_resp 16 = RESP_READ_REG_SUCCESS_16
   \<and> get_subtype_reg_read_success_resp 32 = RESP_READ_REG_SUCCESS_32
   \<and> get_subtype_reg_read_req 64 = REQ_READ_REG_128
   \<and> get_subtype_reg_write_req 64 = REQ_WRITE_REG_128
   \<and> get_subtype_reg_read_req 128 = REQ_WRITE_REG_128
   \<and> get_subtype_reg_write_req 128 = REQ_WRITE_REG_128"
  by (simp_all add: get_subtype_reg_read_req_def get_subtype_reg_write_req_def
      get_subtype_reg_read_success_resp_def pkt_consts)

lemma recv_loop_skips:
  "(\<And>i. i < n \<Longrightarrow> zmsg_recv z Inproc_main (ws i) = (Again, ws (Suc i))) \<Longrightarrow>
   recv_loop z True (ws 0) = recv_loop z True (ws n)"
proof (induction n)
  case (Suc n)
  then have "recv_loop z True (ws 0) = recv_loop z True (ws n)" by simp
  also have "\<dots> = recv_loop z True (ws (Suc n))"
    using Suc.prems [of n] by (simp add: recv_loop.simps [of z True "ws n"])
  finally show ?case .
qed simp

text \<open>
  Receiving with and without \<^verbatim>\<open>OSD_HOSTMOD_BLOCKING\<close>. When the first packet arrives after any
  number of timeouts, a blocking receive waits through all of them and returns the packet; a
  non-blocking receive reports \<open>OSD_ERROR_TIMEDOUT\<close> after the first timeout.
\<close>

theorem blocking_receive_waits:
  assumes "\<And>i. i < n \<Longrightarrow> zmsg_recv z Inproc_main (ws i) = (Again, ws (Suc i))"
    and "zmsg_recv z Inproc_main (ws n) = (Received (req_msg p), w')" "packet_wf p" "hm_ioworker_ctx ctx"
  shows "osd_hostmod_receive_packet z ctx OSD_HOSTMOD_BLOCKING (ws 0) = Some (Inr p, w')
    \<and> osd_hostmod_receive_packet z ctx 0 (ws 0) =
      (if n = 0 then Some (Inr p, w') else Some (Inl OSD_ERROR_TIMEDOUT, ws 1))"
proof
  have "recv_loop z True (ws 0) = Some (Received (req_msg p), w')"
    using recv_loop_skips [of n z ws] assms(1,2) by (simp add: recv_loop.simps [of z True "ws n"])
  then show "osd_hostmod_receive_packet z ctx OSD_HOSTMOD_BLOCKING (ws 0) = Some (Inr p, w')"
    using assms(3,4) by (simp add: osd_hostmod_receive_packet_def OSD_HOSTMOD_BLOCKING_def req_msg_def
        frame_streq_def zframe_of_packet)
  show "osd_hostmod_receive_packet z ctx 0 (ws 0) =
      (if n = 0 then Some (Inr p, w') else Some (Inl OSD_ERROR_TIMEDOUT, ws 1))"
  proof (cases n)
    case 0
    then show ?thesis using assms receive_packet_msg by simp
  next
    case (Suc k)
    then show ?thesis
      using assms(1) [of 0] assms(4) by (simp add: osd_hostmod_receive_packet_def recv_loop.simps [of z False])
  qed
qed

theorem blocking_receive_waits_witness:
  "osd_hostmod_receive_packet
     (sim_zmq\<lparr>zmsg_recv := \<lambda>s (R, q). if R (0, 0) = 0 then (Again, (\<lambda>_. 1, q))
        else (Received (req_msg (mk_packet 1 2 OSD_PACKET_TYPE_EVENT EV_LAST [42])), (R, q))\<rparr>)
     sim_ctx OSD_HOSTMOD_BLOCKING (\<lambda>_. 0, [])
   = Some (Inr (mk_packet 1 2 OSD_PACKET_TYPE_EVENT EV_LAST [42]), (\<lambda>_. 1, []))"
proof -
  let ?ws = "\<lambda>i :: nat. ((\<lambda>_. if i = 0 then 0 else 1), []) :: sim"
  show ?thesis
    using blocking_receive_waits [of 1 "sim_zmq\<lparr>zmsg_recv := \<lambda>s (R, q). if R (0, 0) = 0 then (Again, (\<lambda>_. 1, q))
        else (Received (req_msg (mk_packet 1 2 OSD_PACKET_TYPE_EVENT EV_LAST [42])), (R, q))\<rparr>" ?ws
        "mk_packet 1 2 OSD_PACKET_TYPE_EVENT EV_LAST [42]" "(\<lambda>_. 1, [])" sim_ctx]
    by (simp add: sim_ctx_def)
qed

lemma connect_done_received:
  "await_status ''I-CONNECT-DONE'' ([str_bytes ''I-CONNECT-DONE'', int_bytes (uint (a :: u16))] # ms)
     = Some (Inr (uint a), ms)"
  using uint_u16_int_range [of a] by (intro await_status_sent) simp_all

lemma connect_done_failed:
  "await_status ''I-CONNECT-DONE'' ([str_bytes ''I-CONNECT-DONE'', int_bytes (-1)] # ms) = Some (Inr (-1), ms)"
  by (intro await_status_sent) simp_all

declare await_status.simps [simp del]

text \<open>
  Connecting. When the I/O thread reports the assigned address, \<open>osd_hostmod_connect\<close> stores
  it and marks the host module connected: the address the thread sent is the one
  \<open>osd_hostmod_get_diaddr\<close> returns, for all 65536 addresses. When the thread reports -1, the
  wait times out or another status arrives, the context is unchanged and
  \<open>OSD_ERROR_CONNECTION_FAILED\<close> is returned.
\<close>

theorem connect_stores_address:
  assumes "fifo_recv z Inproc_main q" "\<not> hm_is_connected ctx" "hm_ioworker_ctx ctx"
    and "zmsg_send z Inproc_main [str_bytes ''I-CONNECT'', int_bytes 0] w = (0, w1)"
  shows "(q w1 = [str_bytes ''I-CONNECT-DONE'', int_bytes (uint a)] # ms \<longrightarrow>
     (\<exists>ctx' w'. osd_hostmod_connect z ctx w = Some (OSD_OK, ctx', w') \<and> q w' = ms
       \<and> osd_hostmod_is_connected ctx' \<and> osd_hostmod_get_diaddr ctx' = Some a))
   \<and> (q w1 = [] \<or> q w1 = [str_bytes ''I-CONNECT-DONE'', int_bytes (-1)] # ms \<longrightarrow>
     (\<exists>w'. osd_hostmod_connect z ctx w = Some (OSD_ERROR_CONNECTION_FAILED, ctx, w')))"
proof -
  have step: "osd_hostmod_connect z ctx w = do { (st, w) \<leftarrow> worker_wait_for_status z Inproc_main ''I-CONNECT-DONE'' w1;
      (case st of Inl _ \<Rightarrow> Some (OSD_ERROR_CONNECTION_FAILED, ctx, w)
       | Inr retval \<Rightarrow> if retval = -1 then Some (OSD_ERROR_CONNECTION_FAILED, ctx, w)
           else Some (OSD_OK, ctx\<lparr>hm_diaddr := word_of_int retval, hm_is_connected := True\<rparr>, w)) }"
    using assms(2-4) by (simp add: osd_hostmod_connect_def worker_send_status_def worker_send_data_def)
  have wait: "map_option (\<lambda>(r, w). (r, q w)) (worker_wait_for_status z Inproc_main ''I-CONNECT-DONE'' w1)
      = await_status ''I-CONNECT-DONE'' (q w1)"
    using wait_loop_refines_queue [OF assms(1), of "''I-CONNECT-DONE''" w1]
    by (simp add: worker_wait_for_status_def)
  show ?thesis
  proof (intro conjI impI)
    assume "q w1 = [str_bytes ''I-CONNECT-DONE'', int_bytes (uint a)] # ms"
    then obtain w2 where "worker_wait_for_status z Inproc_main ''I-CONNECT-DONE'' w1 = Some (Inr (uint a), w2)"
      "q w2 = ms"
      using wait connect_done_received [of a ms] by auto
    moreover have "uint a \<noteq> -1" using uint_u16_ge [of a] by linarith
    ultimately show "\<exists>ctx' w'. osd_hostmod_connect z ctx w = Some (OSD_OK, ctx', w') \<and> q w' = ms
       \<and> osd_hostmod_is_connected ctx' \<and> osd_hostmod_get_diaddr ctx' = Some a"
      by (simp add: step osd_hostmod_is_connected_def osd_hostmod_get_diaddr_def)
  next
    assume "q w1 = [] \<or> q w1 = [str_bytes ''I-CONNECT-DONE'', int_bytes (-1)] # ms"
  then show "\<exists>w'. osd_hostmod_connect z ctx w = Some (OSD_ERROR_CONNECTION_FAILED, ctx, w')"
    using wait connect_done_failed [of ms] by (auto simp: step await_status.simps(1))
  qed
qed

theorem connect_stores_address_witness:
  "\<exists>ctx' w'. osd_hostmod_connect (queue_zmq\<lparr>zmsg_send := \<lambda>s m w. (0, w)\<rparr>)
       \<lparr>hm_is_connected = False, hm_diaddr = 0, hm_ioworker_ctx = True\<rparr>
       [[str_bytes ''I-CONNECT-DONE'', int_bytes (uint (0x402 :: u16))]] = Some (OSD_OK, ctx', w')
     \<and> osd_hostmod_get_diaddr ctx' = Some 0x402"
proof -
  let ?z = "queue_zmq\<lparr>zmsg_send := \<lambda>s m w. (0, w)\<rparr>"
  have f: "fifo_recv ?z Inproc_main (\<lambda>w. w)"
    by (simp add: fifo_recv_def queue_zmq_def split: list.splits)
  show ?thesis
    using connect_stores_address [OF f, where ctx = "\<lparr>hm_is_connected = False, hm_diaddr = 0, hm_ioworker_ctx = True\<rparr>"
        and a = "0x402" and ms = "[]" and w = "[[str_bytes ''I-CONNECT-DONE'', int_bytes (uint (0x402 :: u16))]]"]
    by auto
qed

end
