(* ===== verification/Hostctrl.thy ===== *)
theory Hostctrl
  imports Packet Worker Diaddr
begin

text \<open>
  The host controller (\<^verbatim>\<open>hostctrl.c\<close>): it assigns addresses to host modules, registers gateways
  to other subnets, and routes data packets between them.

  The two routing tables are lists of message identities with NULL entries; an index outside
  a table is undefined. Messages to the router socket start with the identity of the receiver.
  The result of sending a management answer is ignored by the code.
\<close>

section \<open>Data\<close>

record osd_hostctrl_ctx =
  hc_ioworker_ctx :: bool
  hc_is_running :: bool

record hc_usr_ctx =
  router_socket :: bool
  router_address :: string
  subnet_addr :: u32
  mods_in_subnet :: "zframe option list"
  gateways :: "zframe option list"

definition tab_get :: "zframe option list \<Rightarrow> nat \<Rightarrow> zframe option option" where
  "tab_get t i = (if i < length t then Some (t ! i) else None)"

section \<open>Address management\<close>

text \<open>The search loop, with \<open>k\<close> iterations left; \<open>Inl\<close> is the failure code.\<close>

fun get_available_loop :: "hc_usr_ctx \<Rightarrow> nat \<Rightarrow> nat \<Rightarrow> (osd_result + u32) option" where
  "get_available_loop u localaddr 0 = Some (Inl OSD_ERROR_FAILURE)"
| "get_available_loop u localaddr (Suc k) =
     do { e \<leftarrow> tab_get (mods_in_subnet u) localaddr;
          if e = None
          then do { diaddr \<leftarrow> osd_diaddr_build (subnet_addr u) (of_nat localaddr); Some (Inr diaddr) }
          else get_available_loop u (Suc localaddr) k }"

definition get_available_diaddr :: "hc_usr_ctx \<Rightarrow> (osd_result + u32) option" where
  "get_available_diaddr u = get_available_loop u 1 (unat OSD_DIADDR_LOCAL_MAX)"

definition register_diaddr :: "hc_usr_ctx \<Rightarrow> zframe \<Rightarrow> u32 \<Rightarrow> (osd_result \<times> hc_usr_ctx) option" where
  "register_diaddr u hostaddr diaddr =
     do { let localaddr = unat (osd_diaddr_localaddr diaddr);
          e \<leftarrow> tab_get (mods_in_subnet u) localaddr;
          if e \<noteq> None then Some (OSD_ERROR_FAILURE, u)
          else Some (OSD_OK, u\<lparr>mods_in_subnet := (mods_in_subnet u)[localaddr := Some hostaddr]\<rparr>) }"

definition mgmt_send_ack :: "'w zmq \<Rightarrow> zframe \<Rightarrow> 'w \<Rightarrow> 'w" where
  "mgmt_send_ack z dest w = snd (zmsg_send z Router_socket [dest, str_bytes ''M'', str_bytes ''ACK''] w)"

definition mgmt_send_nack :: "'w zmq \<Rightarrow> zframe \<Rightarrow> 'w \<Rightarrow> 'w" where
  "mgmt_send_nack z dest w = snd (zmsg_send z Router_socket [dest, str_bytes ''M'', str_bytes ''NACK''] w)"

definition mgmt_diaddr_request ::
  "'w zmq \<Rightarrow> hc_usr_ctx \<Rightarrow> zframe \<Rightarrow> 'w \<Rightarrow> (hc_usr_ctx \<times> 'w) option" where
  "mgmt_diaddr_request z u hostaddr w =
     do { r \<leftarrow> get_available_diaddr u;
          (case r of
             Inl rv \<Rightarrow> None
           | Inr diaddr \<Rightarrow>
               do { (rv, u) \<leftarrow> register_diaddr u hostaddr diaddr;
                    c_assert (OSD_SUCCEEDED rv);
                    Some (u, snd (zmsg_send z Router_socket
                      [hostaddr, str_bytes ''M'', str_bytes (fmt_u (unat diaddr))] w)) }) }"

fun release_loop :: "hc_usr_ctx \<Rightarrow> zframe \<Rightarrow> nat \<Rightarrow> nat \<Rightarrow> nat option option" where
  "release_loop u hostaddr i 0 = Some None"
| "release_loop u hostaddr i (Suc k) =
     do { e \<leftarrow> tab_get (mods_in_subnet u) i;
          if e = Some hostaddr then Some (Some i) else release_loop u hostaddr (Suc i) k }"

definition mgmt_diaddr_release ::
  "'w zmq \<Rightarrow> hc_usr_ctx \<Rightarrow> zframe \<Rightarrow> 'w \<Rightarrow> (hc_usr_ctx \<times> 'w) option" where
  "mgmt_diaddr_release z u hostaddr w =
     do { found \<leftarrow> release_loop u hostaddr 1 (unat OSD_DIADDR_SUBNET_MAX - 1);
          (case found of
             None \<Rightarrow> Some (u, mgmt_send_nack z hostaddr w)
           | Some localaddr \<Rightarrow>
               Some (u\<lparr>mods_in_subnet := (mods_in_subnet u)[localaddr := None]\<rparr>,
                     mgmt_send_ack z hostaddr w)) }"

section \<open>Gateways\<close>

definition parse_subnet :: "string \<Rightarrow> u32 option" where
  "parse_subnet params =
     do { let (v, end) = strtol10 params;
          let subnet = (word_of_int v :: u32);
          c_assert (end = []);
          c_assert (subnet \<le> OSD_DIADDR_SUBNET_MAX);
          Some subnet }"

definition mgmt_gw_register ::
  "'w zmq \<Rightarrow> hc_usr_ctx \<Rightarrow> zframe \<Rightarrow> string \<Rightarrow> 'w \<Rightarrow> (hc_usr_ctx \<times> 'w) option" where
  "mgmt_gw_register z u hostaddr params w =
     do { subnet \<leftarrow> parse_subnet params;
          e \<leftarrow> tab_get (gateways u) (unat subnet);
          if e \<noteq> None then Some (u, mgmt_send_nack z hostaddr w)
          else Some (u\<lparr>gateways := (gateways u)[unat subnet := Some hostaddr]\<rparr>,
                     mgmt_send_ack z hostaddr w) }"

definition mgmt_gw_unregister ::
  "'w zmq \<Rightarrow> hc_usr_ctx \<Rightarrow> zframe \<Rightarrow> string \<Rightarrow> 'w \<Rightarrow> (hc_usr_ctx \<times> 'w) option" where
  "mgmt_gw_unregister z u hostaddr params w =
     do { subnet \<leftarrow> parse_subnet params;
          e \<leftarrow> tab_get (gateways u) (unat subnet);
          if e = None then Some (u, mgmt_send_nack z hostaddr w)
          else if e \<noteq> Some hostaddr then Some (u, mgmt_send_nack z hostaddr w)
          else Some (u\<lparr>gateways := (gateways u)[unat subnet := None]\<rparr>,
                     mgmt_send_ack z hostaddr w) }"

section \<open>Messages\<close>

text \<open>
  The parameters of a gateway request start behind the command and one space. A request that
  ends before is read outside its buffer.
\<close>

definition params_at :: "nat \<Rightarrow> zframe \<Rightarrow> string option" where
  "params_at n frame = (if n \<le> length frame then Some (frame_str (drop n frame)) else None)"

definition process_mgmt_msg ::
  "'w zmq \<Rightarrow> hc_usr_ctx \<Rightarrow> zframe \<Rightarrow> zframe \<Rightarrow> 'w \<Rightarrow> (hc_usr_ctx \<times> 'w) option" where
  "process_mgmt_msg z u src payload_frame w =
     (let request = frame_str payload_frame
      in if request = ''DIADDR_REQUEST'' then mgmt_diaddr_request z u src w
         else if request = ''DIADDR_RELEASE'' then mgmt_diaddr_release z u src w
         else if take 11 request = ''GW_REGISTER'' then
           do { params \<leftarrow> params_at 12 payload_frame; mgmt_gw_register z u src params w }
         else if take 13 request = ''GW_UNREGISTER'' then
           do { params \<leftarrow> params_at 14 payload_frame; mgmt_gw_unregister z u src params w }
         else Some (u, mgmt_send_ack z src w))"

definition process_data_msg ::
  "'w zmq \<Rightarrow> hc_usr_ctx \<Rightarrow> zframe \<Rightarrow> zframe \<Rightarrow> 'w \<Rightarrow> 'w option" where
  "process_data_msg z u src payload_frame w =
     do { pkg \<leftarrow> osd_packet_new_from_zframe payload_frame;
          dest \<leftarrow> osd_packet_get_dest pkg;
          let dest_diaddr_subnet = osd_diaddr_subnet dest;
          let dest_diaddr_local = osd_diaddr_localaddr dest;
          dest_hostaddr \<leftarrow>
            (if dest_diaddr_subnet = subnet_addr u
             then tab_get (mods_in_subnet u) (unat dest_diaddr_local)
             else tab_get (gateways u) (unat dest_diaddr_subnet));
          (case dest_hostaddr of
             None \<Rightarrow> Some w
           | Some d \<Rightarrow>
               do { let (zmq_rv, w) = zmsg_send z Router_socket [d, str_bytes ''D'', payload_frame] w;
                    c_assert (zmq_rv = 0);
                    Some w }) }"

definition iothread_handle_ext_msg ::
  "'w zmq \<Rightarrow> hc_usr_ctx \<Rightarrow> 'w \<Rightarrow> (int \<times> hc_usr_ctx \<times> 'w) option" where
  "iothread_handle_ext_msg z u w =
     (case zmsg_recv z Router_socket w of
        (Received msg, w) \<Rightarrow>
          (case msg of
             src_frame # type_frame # payload \<Rightarrow>
               if take 1 (frame_str type_frame) = ''M'' then
                 (case payload of
                    [] \<Rightarrow> None
                  | payload_frame # _ \<Rightarrow>
                      do { (u, w) \<leftarrow> process_mgmt_msg z u src_frame payload_frame w; Some (0, u, w) })
               else if take 1 (frame_str type_frame) = ''D'' then
                 (case payload of
                    [] \<Rightarrow> None
                  | payload_frame # _ \<Rightarrow>
                      do { w \<leftarrow> process_data_msg z u src_frame payload_frame w; Some (0, u, w) })
               else Some (0, u, w)
           | _ \<Rightarrow> None)
      | (_, w) \<Rightarrow> Some (-1, u, w))"

section \<open>The router in the I/O thread\<close>

definition iothread_router_start :: "'w zmq \<Rightarrow> hc_usr_ctx \<Rightarrow> 'w \<Rightarrow> (hc_usr_ctx \<times> 'w) option" where
  "iothread_router_start z u w =
     do { let (ok, w) = zsock_new z Router_socket (router_address u) w;
          let u = u\<lparr>router_socket := ok\<rparr>;
          (retval, w) \<leftarrow>
            (if \<not> ok then Some (OSD_ERROR_CONNECTION_FAILED, w)
             else do { let (zmq_rv, w) = zloop_reader z Router_socket w;
                       c_assert (zmq_rv = 0);
                       Some (OSD_OK, w) });
          w \<leftarrow> worker_send_status z Inproc_thread ''I-START-DONE'' retval w;
          Some (u, w) }"

definition iothread_router_stop :: "'w zmq \<Rightarrow> hc_usr_ctx \<Rightarrow> 'w \<Rightarrow> (hc_usr_ctx \<times> 'w) option" where
  "iothread_router_stop z u w =
     do { let w = zloop_reader_end z Router_socket w;
          let w = zsock_destroy z Router_socket w;
          w \<leftarrow> worker_send_status z Inproc_thread ''I-STOP-DONE'' OSD_OK w;
          Some (u\<lparr>router_socket := False\<rparr>, w) }"

definition iothread_handle_inproc_msg ::
  "'w zmq \<Rightarrow> string \<Rightarrow> zmsg \<Rightarrow> hc_usr_ctx \<Rightarrow> 'w \<Rightarrow> (osd_result \<times> hc_usr_ctx \<times> 'w) option" where
  "iothread_handle_inproc_msg z name msg u w =
     (if name = ''I-START'' then do { (u, w) \<leftarrow> iothread_router_start z u w; Some (OSD_OK, u, w) }
      else if name = ''I-STOP'' then do { (u, w) \<leftarrow> iothread_router_stop z u w; Some (OSD_OK, u, w) }
      else None)"

definition hc_iothread_destroy ::
  "hc_usr_ctx option \<Rightarrow> 'w \<Rightarrow> (osd_result \<times> hc_usr_ctx option \<times> 'w) option" where
  "hc_iothread_destroy u w =
     do { u \<leftarrow> u;
          c_assert (unat OSD_DIADDR_LOCAL_MAX < length (mods_in_subnet u));
          Some (OSD_OK, None, w) }"

section \<open>The main thread\<close>

text \<open>The context of the I/O thread at creation.\<close>

definition hc_usr_init :: "string \<Rightarrow> hc_usr_ctx" where
  "hc_usr_init address =
     \<lparr>router_socket = False, router_address = address, subnet_addr = 1,
      mods_in_subnet = replicate (unat (OSD_DIADDR_LOCAL_MAX + 1)) None,
      gateways = replicate (unat (OSD_DIADDR_SUBNET_MAX + 1)) None\<rparr>"

definition osd_hostctrl_new ::
  "'w zmq \<Rightarrow> int \<Rightarrow> string \<Rightarrow> 'w \<Rightarrow> ((osd_result + osd_hostctrl_ctx \<times> hc_usr_ctx) \<times> 'w) option" where
  "osd_hostctrl_new z uninit address w =
     do { (rv, worker, w) \<leftarrow> worker_new z uninit w;
          if OSD_FAILED rv then Some (Inl rv, w)
          else Some (Inr (\<lparr>hc_ioworker_ctx = worker, hc_is_running = False\<rparr>, hc_usr_init address), w) }"

definition osd_hostctrl_free ::
  "'w zmq \<Rightarrow> osd_hostctrl_ctx option \<Rightarrow> 'w \<Rightarrow> (osd_hostctrl_ctx option \<times> 'w) option" where
  "osd_hostctrl_free z ctx_p w =
     (case ctx_p of
        None \<Rightarrow> Some (None, w)
      | Some ctx \<Rightarrow>
          do { c_assert (\<not> hc_is_running ctx);
               w \<leftarrow> worker_free z (hc_ioworker_ctx ctx) w;
               Some (None, w) })"

definition osd_hostctrl_start ::
  "'w zmq \<Rightarrow> osd_hostctrl_ctx \<Rightarrow> 'w \<Rightarrow> (osd_result \<times> osd_hostctrl_ctx \<times> 'w) option" where
  "osd_hostctrl_start z ctx w =
     do { c_assert (\<not> hc_is_running ctx);
          c_assert (hc_ioworker_ctx ctx);
          w \<leftarrow> worker_send_status z Inproc_main ''I-START'' 0 w;
          (st, w) \<leftarrow> worker_wait_for_status z Inproc_main ''I-START-DONE'' w;
          (case st of
             Inl _ \<Rightarrow> Some (OSD_ERROR_CONNECTION_FAILED, ctx, w)
           | Inr retval \<Rightarrow>
               if retval = -1 then Some (OSD_ERROR_CONNECTION_FAILED, ctx, w)
               else Some (OSD_OK, ctx\<lparr>hc_is_running := True\<rparr>, w)) }"

definition osd_hostctrl_stop ::
  "'w zmq \<Rightarrow> osd_hostctrl_ctx \<Rightarrow> 'w \<Rightarrow> (osd_result \<times> osd_hostctrl_ctx \<times> 'w) option" where
  "osd_hostctrl_stop z ctx w =
     (if \<not> hc_is_running ctx then Some (OSD_ERROR_NOT_CONNECTED, ctx, w)
      else do {
        c_assert (hc_ioworker_ctx ctx);
        w \<leftarrow> worker_send_status z Inproc_main ''I-STOP'' 0 w;
        (st, w) \<leftarrow> worker_wait_for_status z Inproc_main ''I-STOP-DONE'' w;
        (case st of
           Inl rv \<Rightarrow> Some (rv, ctx, w)
         | Inr retval \<Rightarrow>
             if OSD_FAILED retval then Some (retval, ctx, w)
             else Some (OSD_OK, ctx\<lparr>hc_is_running := False\<rparr>, w)) })"

definition osd_hostctrl_is_running :: "osd_hostctrl_ctx \<Rightarrow> bool" where
  "osd_hostctrl_is_running ctx = hc_is_running ctx"

section \<open>Tables\<close>

text \<open>
  The invariant of the I/O thread: both tables have their full size, the own subnet is a
  valid one, and local address 0 is never assigned.
\<close>

definition hc_inv :: "hc_usr_ctx \<Rightarrow> bool" where
  "hc_inv u \<longleftrightarrow> length (mods_in_subnet u) = 1024 \<and> length (gateways u) = 64
     \<and> unat (subnet_addr u) < 64 \<and> mods_in_subnet u ! 0 = None"

lemma hc_inv_init: "hc_inv (hc_usr_init address)"
  by (simp add: hc_inv_def hc_usr_init_def)

definition hc_build :: "hc_usr_ctx \<Rightarrow> nat \<Rightarrow> u32" where
  "hc_build u i = of_nat (unat (subnet_addr u) * 1024 + i)"

lemma hc_build_parts:
  assumes "unat (subnet_addr u) < 64" "i < 1024"
  shows "unat (hc_build u i) = unat (subnet_addr u) * 1024 + i"
    "osd_diaddr_subnet (hc_build u i) = subnet_addr u" "unat (osd_diaddr_localaddr (hc_build u i)) = i"
proof -
  show n: "unat (hc_build u i) = unat (subnet_addr u) * 1024 + i"
    unfolding hc_build_def using assms by (intro unat_of_nat_u32) simp
  show "osd_diaddr_subnet (hc_build u i) = subnet_addr u"
    using assms(2) by (simp add: word_unat_eq_iff unat_subnet n)
  show "unat (osd_diaddr_localaddr (hc_build u i)) = i"
    using assms(2) by (simp add: unat_localaddr n)
qed

text \<open>The search finds the least free address from its start on.\<close>

lemma get_available_loop_found:
  assumes "length (mods_in_subnet u) = 1024" "unat (subnet_addr u) < 64"
  shows "n \<le> i \<Longrightarrow> i < n + k \<Longrightarrow> n + k \<le> 1024 \<Longrightarrow> mods_in_subnet u ! i = None
     \<Longrightarrow> (\<And>j. n \<le> j \<Longrightarrow> j < i \<Longrightarrow> mods_in_subnet u ! j \<noteq> None)
     \<Longrightarrow> get_available_loop u n k = Some (Inr (hc_build u i))"
proof (induction k arbitrary: n)
  case (Suc k)
  show ?case
  proof (cases "n = i")
    case True
    have "unat (of_nat i :: u32) = i" using Suc.prems by (intro unat_of_nat_u32) simp
    then show ?thesis
      using assms Suc.prems True by (simp add: tab_get_def build_eq hc_build_def)
  next
    case False
    then obtain y where "mods_in_subnet u ! n = Some y" using Suc.prems(1) Suc.prems(5) [of n] by auto
    moreover have "get_available_loop u (Suc n) k = Some (Inr (hc_build u i))"
      using Suc.prems False by (intro Suc.IH) auto
    ultimately show ?thesis using Suc.prems(3) assms by (simp add: tab_get_def)
  qed
qed simp

lemma get_available_loop_full:
  "length (mods_in_subnet u) = 1024 \<Longrightarrow> n + k \<le> 1024 \<Longrightarrow> (\<And>j. n \<le> j \<Longrightarrow> j < n + k \<Longrightarrow> mods_in_subnet u ! j \<noteq> None)
     \<Longrightarrow> get_available_loop u n k = Some (Inl OSD_ERROR_FAILURE)"
proof (induction k arbitrary: n)
  case (Suc k)
  obtain y where "mods_in_subnet u ! n = Some y" using Suc.prems(3) [of n] by auto
  moreover have "get_available_loop u (Suc n) k = Some (Inl OSD_ERROR_FAILURE)"
    using Suc.IH [of "Suc n"] Suc.prems by simp
  ultimately show ?case using Suc.prems(1,2) by (simp add: tab_get_def)
qed simp

lemma least_free:
  fixes t :: "'a option list"
  assumes "1 \<le> j" "j < n" "t ! j = None"
  obtains i where "1 \<le> i" "i < n" "t ! i = None" "\<And>j. 1 \<le> j \<Longrightarrow> j < i \<Longrightarrow> t ! j \<noteq> None"
proof -
  define i where "i = (LEAST i. 1 \<le> i \<and> t ! i = None)"
  have "1 \<le> i \<and> t ! i = None" "i \<le> j"
    unfolding i_def using assms by (auto intro: LeastI2 [of _ j] Least_le)
  moreover have "t ! l \<noteq> None" if "1 \<le> l" "l < i" for l
    using that not_less_Least [of l "\<lambda>i. 1 \<le> i \<and> t ! i = None"] by (auto simp: i_def)
  ultimately show thesis using that [of i] assms(2) by auto
qed

definition assign :: "hc_usr_ctx \<Rightarrow> nat \<Rightarrow> zframe \<Rightarrow> hc_usr_ctx" where
  "assign u i h = u\<lparr>mods_in_subnet := (mods_in_subnet u)[i := Some h]\<rparr>"

lemma diaddr_request_assigns:
  assumes inv: "hc_inv u" and i: "1 \<le> i" "i < 1024" "mods_in_subnet u ! i = None"
    and least: "\<And>j. 1 \<le> j \<Longrightarrow> j < i \<Longrightarrow> mods_in_subnet u ! j \<noteq> None"
  shows "mgmt_diaddr_request z u h w = Some (assign u i h,
     snd (zmsg_send z Router_socket [h, str_bytes ''M'', str_bytes (fmt_u (unat (hc_build u i)))] w))"
proof -
  have len: "length (mods_in_subnet u) = 1024" "unat (subnet_addr u) < 64" using inv by (simp_all add: hc_inv_def)
  have "get_available_diaddr u = Some (Inr (hc_build u i))"
    unfolding get_available_diaddr_def using i least
    by (intro get_available_loop_found [OF len]) simp_all
  moreover have "register_diaddr u h (hc_build u i) = Some (OSD_OK, assign u i h)"
    using len i hc_build_parts [OF len(2) i(2)] by (simp add: register_diaddr_def tab_get_def assign_def)
  ultimately show ?thesis by (simp add: mgmt_diaddr_request_def OSD_SUCCEEDED_iff)
qed

lemma diaddr_request_full:
  assumes "hc_inv u" "\<And>j. 1 \<le> j \<Longrightarrow> j < 1024 \<Longrightarrow> mods_in_subnet u ! j \<noteq> None"
  shows "mgmt_diaddr_request z u h w = None"
  using assms get_available_loop_full [of u 1 1023]
  by (simp add: mgmt_diaddr_request_def get_available_diaddr_def hc_inv_def)

lemma release_loop_none:
  "n + k \<le> length (mods_in_subnet u) \<Longrightarrow> (\<And>j. n \<le> j \<Longrightarrow> j < n + k \<Longrightarrow> mods_in_subnet u ! j \<noteq> Some h)
     \<Longrightarrow> release_loop u h n k = Some None"
  by (induction k arbitrary: n) (auto simp: tab_get_def)

lemma release_loop_bounds:
  "release_loop u h n k = Some (Some i) \<Longrightarrow> n \<le> i \<and> i < n + k \<and> i < length (mods_in_subnet u)"
  by (induction k arbitrary: n) (fastforce simp: tab_get_def split: if_splits)+

section \<open>Routing\<close>

text \<open>Where a data packet goes: to a module of the own subnet, or to the gateway of another one.\<close>

definition route :: "hc_usr_ctx \<Rightarrow> u16 \<Rightarrow> zframe option" where
  "route u dest =
     (if unat dest div 1024 = unat (subnet_addr u) then mods_in_subnet u ! (unat dest mod 1024)
      else gateways u ! (unat dest div 1024))"

lemma process_data_msg_routes:
  assumes "hc_inv u" "packet_wf p"
  shows "process_data_msg z u src (enc_words le16_bytes (data_raw p)) w =
     (case route u (data_raw p ! 0) of
        None \<Rightarrow> Some w
      | Some h \<Rightarrow>
          (case zmsg_send z Router_socket [h, str_bytes ''D'', enc_words le16_bytes (data_raw p)] w of
             (rv, w') \<Rightarrow> if rv = 0 then Some w' else None))"
proof -
  let ?d = "ucast (data_raw p ! 0) :: u32"
  have d: "unat ?d = unat (data_raw p ! 0)" by simp
  have sub: "unat (osd_diaddr_subnet ?d) = unat (data_raw p ! 0) div 1024"
    and loc: "unat (osd_diaddr_localaddr ?d) = unat (data_raw p ! 0) mod 1024"
    by (simp_all only: unat_subnet unat_localaddr d)
  have "osd_diaddr_subnet ?d = subnet_addr u \<longleftrightarrow> unat (data_raw p ! 0) div 1024 = unat (subnet_addr u)"
    by (simp only: word_unat_eq_iff sub)
  moreover have "unat (data_raw p ! 0) div 1024 < 64" using unat_u16_lt [of "data_raw p ! 0"] by linarith
  ultimately show ?thesis
    using assms by (simp add: process_data_msg_def zframe_of_packet packet_getters_wf Let_def sub loc
        tab_get_def hc_inv_def route_def split: option.splits prod.splits)
qed

section \<open>Reachable states\<close>

lemma parse_subnet_bound: "parse_subnet s = Some n \<Longrightarrow> unat n < 64"
  by (auto simp: parse_subnet_def Let_def word_le_nat_alt split: prod.splits if_splits)

lemma hc_inv_updates:
  assumes "hc_inv u"
  shows "1 \<le> i \<Longrightarrow> hc_inv (u\<lparr>mods_in_subnet := (mods_in_subnet u)[i := e]\<rparr>)"
    "hc_inv (u\<lparr>gateways := (gateways u)[i := e]\<rparr>)" "hc_inv (u\<lparr>router_socket := b\<rparr>)"
  using assms by (simp_all add: hc_inv_def)

lemma hc_inv_request:
  assumes "hc_inv u" "mgmt_diaddr_request z u h w = Some (u', w')"
  shows "hc_inv u'"
proof (cases "\<exists>j. 1 \<le> j \<and> j < 1024 \<and> mods_in_subnet u ! j = None")
  case True
  then obtain i where "1 \<le> i" "i < 1024" "mods_in_subnet u ! i = None"
    "\<And>j. 1 \<le> j \<Longrightarrow> j < i \<Longrightarrow> mods_in_subnet u ! j \<noteq> None"
    using least_free [of _ 1024 "mods_in_subnet u"] by metis
  then have "u' = assign u i h" "1 \<le> i"
    using assms diaddr_request_assigns [OF assms(1), of i z h w] by simp_all
  then show ?thesis
    using hc_inv_updates(1) [OF assms(1), of i] by (simp add: assign_def)
next
  case False
  then show ?thesis using assms diaddr_request_full [of u z h w] by simp
qed

lemma hc_inv_release: "hc_inv u \<Longrightarrow> mgmt_diaddr_release z u h w = Some (u', w') \<Longrightarrow> hc_inv u'"
  using release_loop_bounds [of u h 1]
  by (fastforce simp: mgmt_diaddr_release_def bind_eq_Some_conv intro: hc_inv_updates split: option.splits)

lemma hc_inv_gateways:
  "hc_inv u \<Longrightarrow> mgmt_gw_register z u h s w = Some (u', w') \<Longrightarrow> hc_inv u'"
  "hc_inv u \<Longrightarrow> mgmt_gw_unregister z u h s w = Some (u', w') \<Longrightarrow> hc_inv u'"
  by (auto simp: mgmt_gw_register_def mgmt_gw_unregister_def bind_eq_Some_conv hc_inv_updates split: if_splits)

lemma hc_inv_mgmt: "hc_inv u \<Longrightarrow> process_mgmt_msg z u src f w = Some (u', w') \<Longrightarrow> hc_inv u'"
  by (auto simp: process_mgmt_msg_def Let_def bind_eq_Some_conv
      dest: hc_inv_request hc_inv_release hc_inv_gateways split: if_splits)

lemma hc_inv_ext_msg:
  assumes "hc_inv u" "iothread_handle_ext_msg z u w = Some (rv, u', w')"
  shows "hc_inv u'"
  using assms
  by (auto simp: iothread_handle_ext_msg_def bind_eq_Some_conv dest: hc_inv_mgmt
      split: prod.splits recv_result.splits list.splits if_splits)

text \<open>
  The I/O thread as a transition system: it handles a message from the router socket or one
  from the main thread, or the outside world changes.
\<close>

inductive hc_step :: "'w zmq \<Rightarrow> hc_usr_ctx \<times> 'w \<Rightarrow> hc_usr_ctx \<times> 'w \<Rightarrow> bool" for z where
  ext: "iothread_handle_ext_msg z u w = Some (rv, u', w') \<Longrightarrow> hc_step z (u, w) (u', w')"
| inproc: "iothread_handle_inproc_msg z name msg u w = Some (rv, u', w') \<Longrightarrow> hc_step z (u, w) (u', w')"
| env: "hc_step z (u, w) (u, w')"

inductive hc_reach :: "'w zmq \<Rightarrow> string \<Rightarrow> hc_usr_ctx \<times> 'w \<Rightarrow> bool" for z address where
  init: "hc_reach z address (hc_usr_init address, w)"
| step: "hc_reach z address s \<Longrightarrow> hc_step z s s' \<Longrightarrow> hc_reach z address s'"

inductive_cases hc_stepE: "hc_step z (u, w) s'"

lemma hc_inv_inproc:
  "hc_inv u \<Longrightarrow> iothread_handle_inproc_msg z name msg u w = Some (rv, u', w') \<Longrightarrow> hc_inv u'"
  by (auto simp: iothread_handle_inproc_msg_def iothread_router_start_def iothread_router_stop_def
      bind_eq_Some_conv Let_def hc_inv_updates split: if_splits prod.splits)

lemma hc_inv_step: "hc_step z s s' \<Longrightarrow> hc_inv (fst s) \<Longrightarrow> hc_inv (fst s')"
  by (cases rule: hc_step.cases) (auto dest: hc_inv_ext_msg hc_inv_inproc)

lemma hc_reach_inv: "hc_reach z address s \<Longrightarrow> hc_inv (fst s)"
  by (induction rule: hc_reach.induct) (auto simp: hc_inv_init dest: hc_inv_step)

section \<open>Properties\<close>

text \<open>
  (C9) Invariant of the host controller. In every state the I/O thread can reach, by handling any
  sequence of messages from modules, gateways and the main thread, the routing tables have
  their full size, the own subnet is valid and local address 0 is unassigned.
\<close>

theorem hostctrl_tables_invariant:
  assumes "hc_reach z address (u, w)"
  shows "length (mods_in_subnet u) = 1024 \<and> length (gateways u) = 64
     \<and> unat (subnet_addr u) < 64 \<and> mods_in_subnet u ! 0 = None"
  using hc_reach_inv [OF assms] by (simp add: hc_inv_def)

lemma demo_reach:
  "hc_reach queue_zmq ''tcp://*:9537''
     (assign (hc_usr_init ''tcp://*:9537'') 1 [7], [[[7], str_bytes ''M'', str_bytes (fmt_u 1025)]])"
proof -
  let ?u = "hc_usr_init ''tcp://*:9537''"
  have n: "mods_in_subnet ?u = replicate 1024 None" by (simp add: hc_usr_init_def)
  have "hc_build ?u 1 = 1025" by (simp add: hc_build_def hc_usr_init_def)
  then have "mgmt_diaddr_request queue_zmq ?u [7] [] =
      Some (assign ?u 1 [7], [[[7], str_bytes ''M'', str_bytes (fmt_u 1025)]])"
    using diaddr_request_assigns [OF hc_inv_init, of 1 "''tcp://*:9537''" queue_zmq "[7]" "[]"]
    by (simp add: n) (simp add: queue_zmq_def)
  then have "iothread_handle_ext_msg queue_zmq ?u [[[7], str_bytes ''M'', str_bytes ''DIADDR_REQUEST'']]
      = Some (0, assign ?u 1 [7], [[[7], str_bytes ''M'', str_bytes (fmt_u 1025)]])"
    by (simp add: iothread_handle_ext_msg_def queue_zmq_def frame_str_bytes process_mgmt_msg_def)
  then show ?thesis by (blast intro: hc_reach.intros hc_step.ext)
qed

theorem hostctrl_tables_invariant_witness:
  "length (mods_in_subnet (assign (hc_usr_init ''tcp://*:9537'') 1 [7])) = 1024
   \<and> mods_in_subnet (assign (hc_usr_init ''tcp://*:9537'') 1 [7]) ! 0 = None"
  using hostctrl_tables_invariant [OF demo_reach] by simp

text \<open>
  (C4) Routing. In every reachable state, a data packet is delivered unchanged to the module
  registered for its destination if the destination is in the own subnet, and to the gateway
  of the destination's subnet otherwise; it is dropped if there is none. No destination makes
  the controller look outside its tables.
\<close>

theorem hostctrl_routes_packets:
  assumes "hc_reach z address (u, w)" "packet_wf p"
  shows "process_data_msg z u src (enc_words le16_bytes (data_raw p)) w =
     (case route u (data_raw p ! 0) of
        None \<Rightarrow> Some w
      | Some h \<Rightarrow>
          (case zmsg_send z Router_socket [h, str_bytes ''D'', enc_words le16_bytes (data_raw p)] w of
             (rv, w') \<Rightarrow> if rv = 0 then Some w' else None))"
  using hc_reach_inv [OF assms(1)] assms(2) by (simp add: process_data_msg_routes)

theorem hostctrl_routes_packets_witness:
  "process_data_msg queue_zmq (assign (hc_usr_init ''tcp://*:9537'') 1 [7]) [8]
     (enc_words le16_bytes (data_raw (mk_packet 1025 3 OSD_PACKET_TYPE_REG 0 [])))
     [[[7], str_bytes ''M'', str_bytes (fmt_u 1025)]]
   = Some [[[7], str_bytes ''M'', str_bytes (fmt_u 1025)],
       [[7], str_bytes ''D'', enc_words le16_bytes (data_raw (mk_packet 1025 3 OSD_PACKET_TYPE_REG 0 []))]]"
proof -
  have "route (assign (hc_usr_init ''tcp://*:9537'') 1 [7])
      (data_raw (mk_packet 1025 3 OSD_PACKET_TYPE_REG 0 []) ! 0) = Some [7]"
    by (simp add: route_def assign_def hc_usr_init_def mk_packet_def)
  then show ?thesis
    using hostctrl_routes_packets [OF demo_reach, of "mk_packet 1025 3 OSD_PACKET_TYPE_REG 0 []" "[8]"]
    by (simp add: queue_zmq_def)
qed

text \<open>
  (C8) Address assignment. As long as a local address is free, a request is answered with the
  lowest free one in the own subnet, which was not assigned to anyone before; afterwards
  packets for this address go to the requesting module, and the routes of all other
  addresses are as before.
\<close>

theorem diaddr_request_then_route:
  assumes "hc_reach z address (u, w)" "1 \<le> j" "j < 1024" "mods_in_subnet u ! j = None"
  shows "\<exists>u' a. mgmt_diaddr_request z u h w = Some (u',
         snd (zmsg_send z Router_socket [h, str_bytes ''M'', str_bytes (fmt_u (unat a))] w))
     \<and> unat a div 1024 = unat (subnet_addr u) \<and> 1 \<le> unat a mod 1024 \<and> unat a mod 1024 \<le> j
     \<and> route u a = None \<and> route u' a = Some h
     \<and> (\<forall>b. b \<noteq> a \<longrightarrow> route u' b = route u b)"
proof -
  have inv: "hc_inv u" using hc_reach_inv [OF assms(1)] by simp
  obtain i where i: "1 \<le> i" "i < Suc j" "mods_in_subnet u ! i = None"
    "\<And>j. 1 \<le> j \<Longrightarrow> j < i \<Longrightarrow> mods_in_subnet u ! j \<noteq> None"
    using least_free [of j "Suc j" "mods_in_subnet u"] assms(2,4) by auto
  then have i': "i < 1024" "i \<le> j" using assms(3) by simp_all
  have s: "unat (subnet_addr u) < 64" "length (mods_in_subnet u) = 1024" using inv by (simp_all add: hc_inv_def)
  define a where "a = (of_nat (unat (subnet_addr u) * 1024 + i) :: u16)"
  have a: "unat a = unat (subnet_addr u) * 1024 + i"
    unfolding a_def using s(1) i' by (intro unat_of_nat_u16) simp
  then have eq: "unat (hc_build u i) = unat a" using hc_build_parts(1) [OF s(1) i'(1)] by simp
  have parts: "unat a div 1024 = unat (subnet_addr u)" "unat a mod 1024 = i" using a i' by simp_all
  have other: "route (assign u i h) b = route u b" if "b \<noteq> a" for b
  proof (cases "unat b div 1024 = unat (subnet_addr u)")
    case True
    then have "unat b mod 1024 \<noteq> i"
      using that parts div_mult_mod_eq [of "unat b" 1024] div_mult_mod_eq [of "unat a" 1024]
      by (metis word_unat_eq_iff)
    then show ?thesis using True by (simp add: route_def assign_def)
  qed (simp add: route_def assign_def)
  have "mgmt_diaddr_request z u h w = Some (assign u i h,
      snd (zmsg_send z Router_socket [h, str_bytes ''M'', str_bytes (fmt_u (unat a))] w))"
    using diaddr_request_assigns [OF inv i(1) i'(1) i(3,4)] eq by simp
  moreover have "route u a = None" "route (assign u i h) a = Some h"
    using parts i(3) i' s(2) by (simp_all add: route_def assign_def)
  ultimately show ?thesis using parts i(1) i'(2) other by auto
qed

theorem diaddr_request_then_route_witness:
  "\<exists>u' a. mgmt_diaddr_request queue_zmq (assign (hc_usr_init ''tcp://*:9537'') 1 [7]) [9]
         [[[7], str_bytes ''M'', str_bytes (fmt_u 1025)]] = Some (u',
         snd (zmsg_send queue_zmq Router_socket [[9], str_bytes ''M'', str_bytes (fmt_u (unat a))]
           [[[7], str_bytes ''M'', str_bytes (fmt_u 1025)]]))
     \<and> route u' a = Some [9]"
proof -
  have "mods_in_subnet (assign (hc_usr_init ''tcp://*:9537'') 1 [7]) ! 2 = None"
    by (simp add: assign_def hc_usr_init_def)
  then show ?thesis
    using diaddr_request_then_route [OF demo_reach, of 2 "[9]"] by auto
qed

text \<open>
  Releasing an address only searches the local addresses 1 to 62 instead of 1 to 1023: a
  module that is registered for a higher address only is told NACK and stays registered.
\<close>

theorem release_ignores_high_addresses:
  assumes "hc_reach z address (u, w)" "\<And>j. 1 \<le> j \<Longrightarrow> j < 63 \<Longrightarrow> mods_in_subnet u ! j \<noteq> Some h"
  shows "mgmt_diaddr_release z u h w =
     Some (u, snd (zmsg_send z Router_socket [h, str_bytes ''M'', str_bytes ''NACK''] w))"
proof -
  have "length (mods_in_subnet u) = 1024" using hc_reach_inv [OF assms(1)] by (simp add: hc_inv_def)
  then have "release_loop u h 1 62 = Some None"
    using assms(2) by (intro release_loop_none) simp_all
  then show ?thesis by (simp add: mgmt_diaddr_release_def mgmt_send_nack_def)
qed

text \<open>A state reached after 70 requests, each answered with the next address.\<close>

fun assign_upto :: "hc_usr_ctx \<Rightarrow> nat \<Rightarrow> hc_usr_ctx" where
  "assign_upto u 0 = u"
| "assign_upto u (Suc n) = assign (assign_upto u n) (Suc n) [of_nat n]"

lemma assign_upto_mods:
  "n < 1024 \<Longrightarrow> mods_in_subnet (assign_upto (hc_usr_init address) n) =
     None # map (\<lambda>i. Some [of_nat i]) [0..<n] @ replicate (1023 - n) None"
proof (induction n)
  case 0
  have "replicate 1024 None = None # replicate 1023 (None :: zframe option)"
    by (simp add: numeral_eq_Suc)
  then show ?case by (simp add: hc_usr_init_def)
next
  case (Suc n)
  then obtain k where "1023 - n = Suc k" "1023 - Suc n = k" by (cases "1023 - n") auto
  with Suc show ?case by (simp add: assign_def list_update_append)
qed

lemma assign_upto_reach: "n < 255 \<Longrightarrow> \<exists>w. hc_reach queue_zmq address (assign_upto (hc_usr_init address) n, w)"
proof (induction n)
  case 0
  then show ?case by (auto intro: hc_reach.init)
next
  case (Suc n)
  then obtain w where r: "hc_reach queue_zmq address (assign_upto (hc_usr_init address) n, w)" by auto
  let ?u = "assign_upto (hc_usr_init address) n"
  have inv: "hc_inv ?u" using hc_reach_inv [OF r] by simp
  have m: "mods_in_subnet ?u ! Suc n = None" "\<And>j. 1 \<le> j \<Longrightarrow> j < Suc n \<Longrightarrow> mods_in_subnet ?u ! j \<noteq> None"
    using Suc.prems assign_upto_mods [of n address] by (auto simp: nth_Cons' nth_append)
  obtain w' where w': "mgmt_diaddr_request queue_zmq ?u [of_nat n] [] = Some (assign ?u (Suc n) [of_nat n], w')"
    using diaddr_request_assigns [OF inv _ _ m(1), of queue_zmq "[of_nat n]" "[]"] Suc.prems m(2) by simp
  have "hc_reach queue_zmq address (?u, [[[of_nat n], str_bytes ''M'', str_bytes ''DIADDR_REQUEST'']])"
    using r hc_step.env by (rule hc_reach.step)
  moreover have "iothread_handle_ext_msg queue_zmq ?u [[[of_nat n], str_bytes ''M'', str_bytes ''DIADDR_REQUEST'']]
      = Some (0, assign ?u (Suc n) [of_nat n], w')"
    using w' by (simp add: iothread_handle_ext_msg_def queue_zmq_def frame_str_bytes process_mgmt_msg_def)
  ultimately have "hc_reach queue_zmq address (assign ?u (Suc n) [of_nat n], w')"
    by (blast intro: hc_reach.step hc_step.ext)
  then show ?case by auto
qed

theorem release_ignores_high_addresses_witness:
  "\<exists>w. mods_in_subnet (assign_upto (hc_usr_init []) 70) ! 70 = Some [69]
   \<and> mgmt_diaddr_release queue_zmq (assign_upto (hc_usr_init []) 70) [69] w =
     Some (assign_upto (hc_usr_init []) 70,
       snd (zmsg_send queue_zmq Router_socket [[69], str_bytes ''M'', str_bytes ''NACK''] w))"
proof -
  obtain w where r: "hc_reach queue_zmq [] (assign_upto (hc_usr_init []) 70, w)"
    using assign_upto_reach [of 70 "[]"] by auto
  have m: "mods_in_subnet (assign_upto (hc_usr_init []) 70) =
      None # map (\<lambda>i. Some [of_nat i]) [0..<70] @ replicate 953 None"
    using assign_upto_mods [of 70 "[]"] by simp
  have "mods_in_subnet (assign_upto (hc_usr_init []) 70) ! j \<noteq> Some [69]" if "1 \<le> j" "j < 63" for j
  proof -
    have "unat (of_nat (j - 1) :: u8) = j - 1" using that by (intro unat_of_nat_u8) simp
    then have "unat (of_nat (j - 1) :: u8) \<noteq> unat (69 :: u8)" using that by simp
    then show ?thesis using that by (auto simp: m nth_Cons' nth_append)
  qed
  then show ?thesis
    using release_ignores_high_addresses [OF r, of "[69]"] by (auto simp: m nth_append)
qed

text \<open>
  A router that cannot bind its socket is reported as started: the I/O thread sends the
  status \<open>OSD_ERROR_CONNECTION_FAILED\<close>, but \<open>osd_hostctrl_start\<close> only takes the value -1 for
  a failure. It returns \<open>OSD_OK\<close> and marks the controller as running.
\<close>

theorem start_hides_bind_failure:
  assumes "zsock_new z Router_socket (router_address u) v = (False, v1)"
    and "zmsg_send z Inproc_thread [str_bytes ''I-START-DONE'', int_bytes OSD_ERROR_CONNECTION_FAILED] v1 = (0, v2)"
    and "fifo_recv z Inproc_main q" "\<not> hc_is_running ctx" "hc_ioworker_ctx ctx"
    and "zmsg_send z Inproc_main [str_bytes ''I-START'', int_bytes 0] w = (0, w1)"
    and "q w1 = [str_bytes ''I-START-DONE'', int_bytes OSD_ERROR_CONNECTION_FAILED] # ms"
  shows "iothread_router_start z u v = Some (u\<lparr>router_socket := False\<rparr>, v2)
   \<and> (\<exists>w'. osd_hostctrl_start z ctx w = Some (OSD_OK, ctx\<lparr>hc_is_running := True\<rparr>, w'))"
proof
  show "iothread_router_start z u v = Some (u\<lparr>router_socket := False\<rparr>, v2)"
    using assms(1,2) by (simp add: iothread_router_start_def worker_send_status_def worker_send_data_def Let_def)
  have "await_status ''I-START-DONE'' (q w1) = Some (Inr OSD_ERROR_CONNECTION_FAILED, ms)"
    unfolding assms(7) by (intro await_status_sent) (simp_all add: osd_codes)
  then obtain w' where "worker_wait_for_status z Inproc_main ''I-START-DONE'' w1
      = Some (Inr OSD_ERROR_CONNECTION_FAILED, w')"
    using wait_loop_refines_queue [OF assms(3), of "''I-START-DONE''" w1]
    by (auto simp: worker_wait_for_status_def)
  then show "\<exists>w'. osd_hostctrl_start z ctx w = Some (OSD_OK, ctx\<lparr>hc_is_running := True\<rparr>, w')"
    using assms(4-6)
    by (simp add: osd_hostctrl_start_def worker_send_status_def worker_send_data_def osd_codes)
qed

theorem start_hides_bind_failure_witness:
  "\<exists>w'. osd_hostctrl_start (queue_zmq\<lparr>zmsg_send := \<lambda>s m w. (0, w), zsock_new := \<lambda>s a w. (False, w)\<rparr>)
       \<lparr>hc_ioworker_ctx = True, hc_is_running = False\<rparr>
       [[str_bytes ''I-START-DONE'', int_bytes OSD_ERROR_CONNECTION_FAILED]]
     = Some (OSD_OK, \<lparr>hc_ioworker_ctx = True, hc_is_running = True\<rparr>, w')"
proof -
  let ?z = "queue_zmq\<lparr>zmsg_send := \<lambda>s m w. (0, w), zsock_new := \<lambda>s a w. (False, w)\<rparr>"
  have f: "fifo_recv ?z Inproc_main (\<lambda>w. w)"
    by (simp add: fifo_recv_def queue_zmq_def split: list.splits)
  show ?thesis
    using start_hides_bind_failure [OF _ _ f, where u = "hc_usr_init []" and v = "[]" and ms = "[]"
        and ctx = "\<lparr>hc_ioworker_ctx = True, hc_is_running = False\<rparr>"
        and w = "[[str_bytes ''I-START-DONE'', int_bytes OSD_ERROR_CONNECTION_FAILED]]"]
    by simp
qed

end
