(* ===== verification/Cl_Base.thy ===== *)
theory Cl_Base
  imports Hostmod
begin

text \<open>
  What the clients of the debug modules share: probing a module for its type, and putting a
  trace value together from the 16 bit words of an event packet.
\<close>

section \<open>Probing a module\<close>

text \<open>
  The clients describe the module at an address and compare vendor, type and version. The
  descriptor is a local variable of the probing function; whatever it holds before is
  overwritten when the description succeeds, and not looked at otherwise.
\<close>

definition blank_desc :: osd_module_desc where
  "blank_desc = \<lparr>mod_addr = 0, mod_vendor = 0, mod_type = 0, mod_version = 0\<rparr>"

definition identifies :: "u16 \<Rightarrow> osd_module_desc \<Rightarrow> bool" where
  "identifies t desc \<longleftrightarrow>
     mod_vendor desc = OSD_MODULE_VENDOR_OSD \<and> mod_type desc = t \<and> mod_version desc = 0"

text \<open>
  The contract of a probe for modules of type \<open>t\<close>: it answers from the description of the
  module alone, and takes a module that cannot be described for a different one.
\<close>

locale module_probe =
  fixes probe :: "'w zmq \<Rightarrow> osd_hostmod_ctx \<Rightarrow> u32 \<Rightarrow> 'w \<Rightarrow> (bool \<times> 'w) option"
    and t :: u16
  assumes probe_fails: "osd_hostmod_mod_describe z ctx (ucast a) blank_desc w = Some (rv, d, w') \<Longrightarrow> OSD_FAILED rv
      \<Longrightarrow> probe z ctx a w = Some (False, w')"
    and probe_described: "osd_hostmod_mod_describe z ctx (ucast a) blank_desc w = Some (rv, d, w') \<Longrightarrow> \<not> OSD_FAILED rv
      \<Longrightarrow> probe z ctx a w = Some (identifies t d, w')"
begin

lemma probe_device:
  assumes "device_ok z ctx regs P" "P w"
  obtains w' where "probe z ctx a w = Some (identifies t (desc_of (regs w) (ucast a)), w')"
    "P w'" "regs w' = regs w"
proof -
  obtain w' where w': "osd_hostmod_mod_describe z ctx (ucast a) blank_desc w
      = Some (OSD_OK, desc_of (regs w) (ucast a), w')" "P w'" "regs w' = regs w"
    using assms by (rule mod_describe_device)
  from probe_described [OF w'(1)] w'(2,3) that show thesis by simp
qed

lemma probe_not_connected:
  assumes "\<not> hm_is_connected ctx"
  shows "probe z ctx a w = Some (False, w)"
proof (rule probe_fails)
  show "osd_hostmod_mod_describe z ctx (ucast a) blank_desc w =
      Some (OSD_ERROR_NOT_CONNECTED, blank_desc\<lparr>mod_addr := ucast a\<rparr>, w)"
    using assms by (simp add: osd_hostmod_mod_describe_def osd_hostmod_reg_read_def osd_hostmod_regaccess_def)
qed simp

end

section \<open>Values from words\<close>

text \<open>The loop \<^verbatim>\<open>value |= (uint64_t)payload[base + i] << (i * 16)\<close>, with \<open>k\<close> iterations left.\<close>

fun or_words :: "osd_packet \<Rightarrow> nat \<Rightarrow> nat \<Rightarrow> nat \<Rightarrow> u64 \<Rightarrow> u64 option" where
  "or_words p base i 0 acc = Some acc"
| "or_words p base i (Suc k) acc =
     do { x \<leftarrow> packet_payload p (base + i);
          or_words p base (Suc i) k (acc OR push_bit (i * 16) (ucast x)) }"

text \<open>The dividend has type \<^verbatim>\<open>size_t\<close> wherever the macro is used: 0 - 1 wraps.\<close>

definition INT_DIV_CEIL :: "nat \<Rightarrow> nat \<Rightarrow> nat" where
  "INT_DIV_CEIL x y = 1 + ((if x = 0 then 2 ^ 64 - 1 else x - 1) div y)"

text \<open>The words of a value, least significant word first, as a module puts them into a packet.\<close>

definition le_words :: "nat \<Rightarrow> u64 \<Rightarrow> u16 list" where
  "le_words n v = map (\<lambda>i. ucast (drop_bit (16 * i) v)) [0..<n]"

lemma length_le_words [simp]: "length (le_words n v) = n"
  by (simp add: le_words_def)

lemma nth_le_words: "i < n \<Longrightarrow> le_words n v ! i = ucast (drop_bit (16 * i) v)"
  by (simp add: le_words_def)

lemma packet_payload_nth:
  "packet_payload p i = (if i < length (payload_of p) then Some (payload_of p ! i) else None)"
  by (auto simp: packet_payload_def packet_word_def pkt_consts)

lemma or_word_step:
  fixes v :: u64
  shows "take_bit (16 * i) v OR push_bit (i * 16) (ucast (ucast (drop_bit (16 * i) v) :: u16)) = take_bit (16 * Suc i) v"
  by (rule bit_word_eqI) (auto simp: bit_simps)

lemma or_words_prefix:
  "(\<And>j. i \<le> j \<Longrightarrow> j < i + k \<Longrightarrow> packet_payload p (base + j) = Some (ucast (drop_bit (16 * j) v)))
   \<Longrightarrow> or_words p base i k (take_bit (16 * i) v) = Some (take_bit (16 * (i + k)) v)"
proof (induction k arbitrary: i)
  case (Suc k)
  have "or_words p base (Suc i) k (take_bit (16 * Suc i) v) = Some (take_bit (16 * (Suc i + k)) v)"
    using Suc.prems by (intro Suc.IH) simp
  moreover have "packet_payload p (base + i) = Some (ucast (drop_bit (16 * i) v))"
    using Suc.prems [of i] by simp
  ultimately show ?case by (simp only: or_words.simps bind.simps or_word_step) simp
qed simp

lemma or_words_le_words:
  assumes "payload_of p = pre @ le_words n v @ post" "base = length pre"
  shows "or_words p base 0 n 0 = Some (take_bit (16 * n) v)"
proof -
  have "packet_payload p (base + j) = Some (ucast (drop_bit (16 * j) v))" if "j < n" for j
    unfolding packet_payload_nth assms using that by (simp add: nth_append nth_le_words)
  then show ?thesis using or_words_prefix [of 0 n p base v] by simp
qed

lemma take_bit_width_id: "unat v < 2 ^ n \<Longrightarrow> take_bit n (v :: u64) = v"
  by (metis take_bit_nat_eq_self_iff unsigned_take_bit_eq unsigned_word_eqI)

section \<open>Sending events\<close>

text \<open>Sending one message after the other, up to the first failure.\<close>

fun send_all :: "'w zmq \<Rightarrow> zmsg list \<Rightarrow> 'w \<Rightarrow> osd_result \<times> 'w" where
  "send_all z [] w = (OSD_OK, w)"
| "send_all z (m # ms) w =
     (case zmsg_send z Inproc_main m w of (rv, w) \<Rightarrow> if rv = 0 then send_all z ms w else (OSD_ERROR_COM, w))"

lemma event_send_mk_packet:
  assumes "ready ctx" "hdr_in_range dest src OSD_PACKET_TYPE_EVENT sub" "length pl < 65533"
  shows "osd_hostmod_event_send z ctx (mk_packet dest src OSD_PACKET_TYPE_EVENT sub pl) w =
     (case zmsg_send z Inproc_main (req_msg (mk_packet dest src OSD_PACKET_TYPE_EVENT sub pl)) w of (rv, w) \<Rightarrow>
        Some (if rv = 0 then OSD_OK else OSD_ERROR_COM, w))"
  using assms mk_packet_getters(3) [OF assms(2,3)]
  by (simp add: osd_hostmod_event_send_def osd_hostmod_is_connected_def ready_def send_packet_wf)

end
