(* ===== verification/Cl_Scm.thy ===== *)
theory Cl_Scm
  imports Cl_Base
begin

text \<open>Client of the subnet control module (\<^verbatim>\<open>cl_scm.c\<close>): CPU reset and subnet information.\<close>

section \<open>Definitions\<close>

definition OSD_REG_SCM_SYSTEM_VENDOR_ID :: u16 where [reg_consts]: "OSD_REG_SCM_SYSTEM_VENDOR_ID = 0x0200"
definition OSD_REG_SCM_SYSTEM_DEVICE_ID :: u16 where [reg_consts]: "OSD_REG_SCM_SYSTEM_DEVICE_ID = 0x0201"
definition OSD_REG_SCM_MAX_PKT_LEN :: u16 where [reg_consts]: "OSD_REG_SCM_MAX_PKT_LEN = 0x0203"
definition OSD_REG_SCM_SYSRST :: u16 where [reg_consts]: "OSD_REG_SCM_SYSRST = 0x0204"
definition OSD_REG_SCM_SYSRST_CPU_RST_BIT :: nat where [reg_consts]: "OSD_REG_SCM_SYSRST_CPU_RST_BIT = 1"

definition OSD_DIADDR_LOCAL_SCM :: u32 where "OSD_DIADDR_LOCAL_SCM = 0"

record osd_subnet_desc =
  sn_vendor_id :: u16
  sn_device_id :: u16
  sn_max_pkt_len :: u16

definition get_scm_diaddr :: "u32 \<Rightarrow> u32 option" where
  "get_scm_diaddr subnet_addr = osd_diaddr_build subnet_addr OSD_DIADDR_LOCAL_SCM"

definition osd_cl_scm_cpus_start ::
  "'w zmq \<Rightarrow> osd_hostmod_ctx \<Rightarrow> u32 \<Rightarrow> 'w \<Rightarrow> ((osd_result + unit) \<times> 'w) option" where
  "osd_cl_scm_cpus_start z ctx subnet_addr w =
     do { scm \<leftarrow> get_scm_diaddr subnet_addr;
          osd_hostmod_reg_setbit z ctx OSD_REG_SCM_SYSRST_CPU_RST_BIT False (ucast scm)
            OSD_REG_SCM_SYSRST 16 OSD_HOSTMOD_BLOCKING w }"

definition osd_cl_scm_cpus_stop ::
  "'w zmq \<Rightarrow> osd_hostmod_ctx \<Rightarrow> u32 \<Rightarrow> 'w \<Rightarrow> ((osd_result + unit) \<times> 'w) option" where
  "osd_cl_scm_cpus_stop z ctx subnet_addr w =
     do { scm \<leftarrow> get_scm_diaddr subnet_addr;
          osd_hostmod_reg_setbit z ctx OSD_REG_SCM_SYSRST_CPU_RST_BIT True (ucast scm)
            OSD_REG_SCM_SYSRST 16 OSD_HOSTMOD_BLOCKING w }"

text \<open>The descriptor of the caller is filled field by field, and left as it is from the first error on.\<close>

definition osd_cl_scm_get_subnetinfo ::
  "'w zmq \<Rightarrow> osd_hostmod_ctx \<Rightarrow> u32 \<Rightarrow> osd_subnet_desc \<Rightarrow> 'w
    \<Rightarrow> (osd_result \<times> osd_subnet_desc \<times> 'w) option" where
  "osd_cl_scm_get_subnetinfo z ctx subnet_addr desc w =
     do { scm \<leftarrow> get_scm_diaddr subnet_addr;
          let scm_diaddr = (ucast scm :: u16);
          (r, w) \<leftarrow> osd_hostmod_reg_read z ctx scm_diaddr OSD_REG_SCM_SYSTEM_VENDOR_ID 16 0 w;
          (case r of
             Inl rv \<Rightarrow> Some (rv, desc, w)
           | Inr v \<Rightarrow> do {
               let desc = desc\<lparr>sn_vendor_id := hd v\<rparr>;
               (r, w) \<leftarrow> osd_hostmod_reg_read z ctx scm_diaddr OSD_REG_SCM_SYSTEM_DEVICE_ID 16 0 w;
               (case r of
                  Inl rv \<Rightarrow> Some (rv, desc, w)
                | Inr v \<Rightarrow> do {
                    let desc = desc\<lparr>sn_device_id := hd v\<rparr>;
                    (r, w) \<leftarrow> osd_hostmod_reg_read z ctx scm_diaddr OSD_REG_SCM_MAX_PKT_LEN 16 0 w;
                    (case r of
                       Inl rv \<Rightarrow> Some (rv, desc, w)
                     | Inr v \<Rightarrow> Some (OSD_OK, desc\<lparr>sn_max_pkt_len := hd v\<rparr>, w)) }) }) }"

section \<open>Properties\<close>

lemma scm_diaddr: "unat s < 64 \<Longrightarrow> get_scm_diaddr s = Some (of_nat (unat s * 1024))"
  by (simp add: get_scm_diaddr_def build_eq OSD_DIADDR_LOCAL_SCM_def)

text \<open>
  Starting and stopping the CPUs of a subnet: on a working device, \<open>osd_cl_scm_cpus_start\<close>
  clears and \<open>osd_cl_scm_cpus_stop\<close> sets the CPU reset bit in the reset register of the
  subnet's control module; all other bits of this register, the system reset bit among
  them, and all other registers keep their values.
\<close>

theorem scm_cpu_reset:
  assumes "device_ok z ctx regs P" "P w" "unat s < 64"
  shows "\<exists>w'. (if stop then osd_cl_scm_cpus_stop z ctx s w else osd_cl_scm_cpus_start z ctx s w) = Some (Inr (), w')
     \<and> P w' \<and> (\<forall>k < 16. bit (regs w' (of_nat (unat s * 1024), OSD_REG_SCM_SYSRST)) k
          = (if k = 1 then stop else bit (regs w (of_nat (unat s * 1024), OSD_REG_SCM_SYSRST)) k))
     \<and> (\<forall>mr. mr \<noteq> (of_nat (unat s * 1024), OSD_REG_SCM_SYSRST) \<longrightarrow> regs w' mr = regs w mr)"
proof -
  let ?a = "of_nat (unat s * 1024) :: u16"
  have a: "ucast (of_nat (unat s * 1024) :: u32) = ?a"
    using assms(3) by (intro ucast_of_nat_u32_u16) simp
  obtain w' where w': "osd_hostmod_reg_setbit z ctx 1 stop ?a OSD_REG_SCM_SYSRST 16 OSD_HOSTMOD_BLOCKING w = Some (Inr (), w')"
    "P w'" "regs w' = (regs w)((?a, OSD_REG_SCM_SYSRST) :=
        (if stop then set_bit 1 else unset_bit 1) (regs w (?a, OSD_REG_SCM_SYSRST)))"
    using reg_setbit_device [OF assms(1,2), of 1 stop ?a OSD_REG_SCM_SYSRST 16 OSD_HOSTMOD_BLOCKING] by auto
  have "(if stop then osd_cl_scm_cpus_stop z ctx s w else osd_cl_scm_cpus_start z ctx s w) = Some (Inr (), w')"
    using w'(1) assms(3) a
    by (cases stop) (simp_all add: osd_cl_scm_cpus_stop_def osd_cl_scm_cpus_start_def scm_diaddr
        OSD_REG_SCM_SYSRST_CPU_RST_BIT_def del: of_nat_mult)
  then show ?thesis using w'(2,3) by (auto simp: bit_simps)
qed

theorem scm_cpu_reset_witness:
  "\<exists>w'. osd_cl_scm_cpus_stop sim_zmq sim_ctx 1 (\<lambda>_. 1, []) = Some (Inr (), w')
     \<and> bit (fst w' (1024, OSD_REG_SCM_SYSRST)) 0 \<and> bit (fst w' (1024, OSD_REG_SCM_SYSRST)) 1"
  using scm_cpu_reset [OF sim_ok, where stop = True and s = 1 and w = "(\<lambda>_. 1, [])"] by auto

end
