(* ===== verification/Cl_Stm.thy ===== *)
theory Cl_Stm
  imports Cl_Base
begin

text \<open>
  Client of the system trace module (\<^verbatim>\<open>cl_stm.c\<close>): module description, decoding of trace events,
  and the buffer that collects the characters of print events.
\<close>

section \<open>Definitions\<close>

definition OSD_REG_STM_VALWIDTH :: u16 where [reg_consts]: "OSD_REG_STM_VALWIDTH = 0x0200"

record osd_stm_desc =
  stm_di_addr :: u32
  value_width_bit :: u16

record osd_stm_event =
  stm_timestamp :: u32
  stm_id :: u16
  stm_value :: u64
  stm_overflow :: u16

text \<open>
  The shift of the upper timestamp word is evaluated in \<^verbatim>\<open>int\<close>; as on the usual compilers its
  bits end up in the upper half of the 32 bit timestamp.
\<close>

definition build_stm_event :: "osd_stm_desc \<Rightarrow> osd_packet \<Rightarrow> osd_stm_event option" where
  "build_stm_event stm_desc pkg =
     do { type_sub \<leftarrow> osd_packet_get_type_sub pkg;
          if type_sub = EV_OVERFLOW then
            do { n \<leftarrow> osd_packet_sizeconv_payload2data 1;
                 c_assert (n = unat (data_size_words pkg));
                 ov \<leftarrow> packet_payload pkg 0;
                 Some \<lparr>stm_timestamp = 0, stm_id = 0, stm_value = 0, stm_overflow = ov\<rparr> }
          else
            do { let exp_payload_len_bit = 32 + 16 + unat (value_width_bit stm_desc);
                 let exp_payload_len = INT_DIV_CEIL exp_payload_len_bit 16;
                 n \<leftarrow> osd_packet_sizeconv_payload2data exp_payload_len;
                 c_assert (n = unat (data_size_words pkg));
                 hi \<leftarrow> packet_payload pkg 1;
                 lo \<leftarrow> packet_payload pkg 0;
                 id \<leftarrow> packet_payload pkg 2;
                 let valw_words = unat (value_width_bit stm_desc) div 16;
                 value \<leftarrow> or_words pkg 3 0 valw_words 0;
                 Some \<lparr>stm_timestamp = push_bit 16 (ucast hi) OR ucast lo, stm_id = id,
                       stm_value = value, stm_overflow = 0\<rparr> } }"

text \<open>The registered callback gets the description and the event.\<close>

definition osd_cl_stm_handle_event ::
  "(osd_stm_desc \<Rightarrow> osd_stm_event \<Rightarrow> 'w \<Rightarrow> 'w) \<Rightarrow> osd_stm_desc \<Rightarrow> osd_packet \<Rightarrow> 'w \<Rightarrow> (osd_result \<times> 'w) option" where
  "osd_cl_stm_handle_event cb_fn stm_desc pkg w =
     do { ev \<leftarrow> build_stm_event stm_desc pkg;
          Some (OSD_OK, cb_fn stm_desc ev w) }"

definition is_stm_module :: "'w zmq \<Rightarrow> osd_hostmod_ctx \<Rightarrow> u32 \<Rightarrow> 'w \<Rightarrow> (bool \<times> 'w) option" where
  "is_stm_module z ctx di_addr w =
     do { (rv, desc, w) \<leftarrow> osd_hostmod_mod_describe z ctx (ucast di_addr) blank_desc w;
          if OSD_FAILED rv then Some (False, w)
          else if mod_vendor desc \<noteq> OSD_MODULE_VENDOR_OSD \<or> mod_type desc \<noteq> OSD_MODULE_TYPE_STD_STM
                  \<or> mod_version desc \<noteq> 0
          then Some (False, w) else Some (True, w) }"

definition valid_width :: "u16 \<Rightarrow> bool" where
  "valid_width v \<longleftrightarrow> v = 16 \<or> v = 32 \<or> v = 64"

definition osd_cl_stm_get_desc ::
  "'w zmq \<Rightarrow> osd_hostmod_ctx \<Rightarrow> u32 \<Rightarrow> osd_stm_desc \<Rightarrow> 'w \<Rightarrow> (osd_result \<times> osd_stm_desc \<times> 'w) option" where
  "osd_cl_stm_get_desc z ctx di_addr stm_desc w =
     do { let stm_desc = stm_desc\<lparr>stm_di_addr := di_addr\<rparr>;
          (ok, w) \<leftarrow> is_stm_module z ctx di_addr w;
          if \<not> ok then Some (OSD_ERROR_WRONG_MODULE, stm_desc, w)
          else do {
            (r, w) \<leftarrow> osd_hostmod_reg_read z ctx (ucast di_addr) OSD_REG_STM_VALWIDTH 16 0 w;
            (case r of
               Inl rv \<Rightarrow> Some (rv, stm_desc, w)
             | Inr regvalue \<Rightarrow>
                 do { c_assert (valid_width (hd regvalue));
                      Some (OSD_OK, stm_desc\<lparr>value_width_bit := hd regvalue\<rparr>, w) }) } }"

definition osd_cl_stm_is_print_event :: "osd_stm_event \<Rightarrow> bool" where
  "osd_cl_stm_is_print_event ev \<longleftrightarrow> stm_overflow ev = 0 \<and> stm_id ev = 4"

text \<open>The print buffer: the allocated bytes, their number and the length of the string in it.\<close>

record osd_cl_stm_print_buf =
  pb_buf :: "u8 list"
  len_buf :: nat
  len_str :: nat

definition osd_cl_stm_print_buf_new :: osd_cl_stm_print_buf where
  "osd_cl_stm_print_buf_new = \<lparr>pb_buf = [], len_buf = 0, len_str = 0\<rparr>"

definition osd_cl_stm_print_buf_free :: "osd_cl_stm_print_buf option \<Rightarrow> osd_cl_stm_print_buf option option" where
  "osd_cl_stm_print_buf_free print_buf_p = do { print_buf \<leftarrow> print_buf_p; Some None }"

text \<open>\<open>junk i\<close> is what byte \<open>i\<close> of memory added by \<^verbatim>\<open>realloc\<close> holds.\<close>

definition buf_set :: "u8 list \<Rightarrow> nat \<Rightarrow> u8 \<Rightarrow> u8 list option" where
  "buf_set b i c = (if i < length b then Some (b[i := c]) else None)"

definition osd_cl_stm_add_to_print_buf ::
  "(nat \<Rightarrow> u8) \<Rightarrow> osd_stm_event \<Rightarrow> osd_cl_stm_print_buf \<Rightarrow> (bool \<times> osd_cl_stm_print_buf) option" where
  "osd_cl_stm_add_to_print_buf junk ev buf =
     do { let new_len_str = len_str buf + 1;
          let buf =
            (if len_buf buf < new_len_str + 1
             then buf\<lparr>len_buf := len_buf buf + 4 * 1024,
                      pb_buf := pb_buf buf @ map junk [length (pb_buf buf)..<len_buf buf + 4 * 1024]\<rparr>
             else buf);
          c_assert (stm_value ev \<le> 255);
          let c = (ucast (stm_value ev) :: u8);
          b \<leftarrow> buf_set (pb_buf buf) (new_len_str - 1) c;
          b \<leftarrow> buf_set b new_len_str 0;
          Some (c = 10, buf\<lparr>pb_buf := b, len_str := new_len_str\<rparr>) }"

section \<open>The probe\<close>

interpretation stm: module_probe is_stm_module OSD_MODULE_TYPE_STD_STM
  by unfold_locales (auto simp: is_stm_module_def identifies_def)

section \<open>The print buffer\<close>

text \<open>The buffer holds the string \<open>s\<close>, zero terminated, within its allocation.\<close>

definition pb_holds :: "osd_cl_stm_print_buf \<Rightarrow> u8 list \<Rightarrow> bool" where
  "pb_holds b s \<longleftrightarrow> length (pb_buf b) = len_buf b \<and> len_str b = length s
     \<and> (s = [] \<or> length s < len_buf b \<and> take (length s) (pb_buf b) = s \<and> pb_buf b ! length s = 0)"

lemma pb_holds_new: "pb_holds osd_cl_stm_print_buf_new []"
  by (simp add: pb_holds_def osd_cl_stm_print_buf_new_def)

lemma pb_holds_add:
  assumes "pb_holds b s" "stm_value ev \<le> 255"
  shows "\<exists>b'. osd_cl_stm_add_to_print_buf junk ev b = Some (stm_value ev = 10, b')
     \<and> pb_holds b' (s @ [ucast (stm_value ev)])"
proof -
  let ?n = "length s" let ?c = "ucast (stm_value ev) :: u8"
  define b1 where "b1 = (if len_buf b < ?n + 2
     then b\<lparr>len_buf := len_buf b + 4096, pb_buf := pb_buf b @ map junk [length (pb_buf b)..<len_buf b + 4096]\<rparr> else b)"
  have l: "length (pb_buf b) = len_buf b" "len_str b = ?n" "s = [] \<or> ?n < len_buf b" "take ?n (pb_buf b) = s"
    using assms(1) by (auto simp: pb_holds_def)
  have b1: "length (pb_buf b1) = len_buf b1" "?n + 1 < len_buf b1" "take ?n (pb_buf b1) = s"
    using l by (auto simp: b1_def)
  have "unat (stm_value ev) < 256" using assms(2) by (simp add: word_le_nat_alt)
  then have "unat ?c = unat (stm_value ev)"
    by (simp add: unsigned_ucast_eq take_bit_nat_eq_self)
  then have c10: "?c = 10 \<longleftrightarrow> stm_value ev = 10" by (simp add: word_unat_eq_iff)
  let ?b' = "b1\<lparr>pb_buf := (pb_buf b1)[?n := ?c, Suc ?n := 0], len_str := Suc ?n\<rparr>"
  have "osd_cl_stm_add_to_print_buf junk ev b = Some (stm_value ev = 10, ?b')"
    using l(1,2) b1(2) assms(2) c10
    by (cases "len_buf b < ?n + 2") (simp_all add: osd_cl_stm_add_to_print_buf_def Let_def buf_set_def b1_def)
  moreover have "pb_holds ?b' (s @ [?c])"
    using b1 by (simp add: pb_holds_def take_Suc_conv_app_nth take_update_cancel)
  ultimately show ?thesis by blast
qed

section \<open>Events\<close>

text \<open>The packet by which a trace module with values of \<open>n\<close> words reports an event.\<close>

definition stm_event_packet :: "u32 \<Rightarrow> u32 \<Rightarrow> nat \<Rightarrow> osd_stm_event \<Rightarrow> osd_packet" where
  "stm_event_packet dest src n ev =
     mk_packet dest src OSD_PACKET_TYPE_EVENT EV_LAST
       ([ucast (stm_timestamp ev), ucast (drop_bit 16 (stm_timestamp ev)), stm_id ev] @ le_words n (stm_value ev))"

lemma timestamp_words:
  fixes t :: u32
  shows "push_bit 16 (ucast (ucast (drop_bit 16 t) :: u16)) OR ucast (ucast t :: u16) = t"
  by (rule bit_word_eqI) (auto simp: bit_simps dest: bit_imp_le_length)

lemma valid_width_cases:
  assumes "valid_width v"
  obtains n where "unat v = 16 * n" "n \<in> {1, 2, 4}"
  using assms by (auto simp: valid_width_def)

lemma build_stm_event_packet:
  assumes "valid_width (value_width_bit desc)" "unat (stm_value ev) < 2 ^ unat (value_width_bit desc)"
    and "stm_overflow ev = 0" "hdr_in_range dest src OSD_PACKET_TYPE_EVENT EV_LAST"
  shows "build_stm_event desc (stm_event_packet dest src (unat (value_width_bit desc) div 16) ev) = Some ev"
proof -
  obtain n where n: "unat (value_width_bit desc) = 16 * n" "n \<in> {1, 2, 4}"
    using assms(1) by (rule valid_width_cases)
  let ?p = "stm_event_packet dest src n ev"
  have pl: "payload_of ?p = [ucast (stm_timestamp ev), ucast (drop_bit 16 (stm_timestamp ev)), stm_id ev]
      @ le_words n (stm_value ev)"
    by (simp add: stm_event_packet_def mk_packet_def)
  have "unat (data_size_words ?p) = 6 + n"
    using n(2) by (auto simp: stm_event_packet_def mk_packet_def)
  moreover have "osd_packet_get_type_sub ?p = Some EV_LAST"
    unfolding stm_event_packet_def using assms(4) n(2) by (intro mk_packet_getters(4)) auto
  moreover have "or_words ?p 3 0 n 0 = Some (stm_value ev)"
    using or_words_le_words [of ?p _ n "stm_value ev" "[]" 3] pl assms(2) n(1)
    by (simp add: take_bit_width_id)
  moreover have "osd_packet_sizeconv_payload2data (INT_DIV_CEIL (48 + 16 * n) 16) = Some (6 + n)"
    using n(2) by (auto simp: INT_DIV_CEIL_def osd_packet_sizeconv_payload2data_def pkt_consts)
  ultimately show ?thesis
    using n(1) assms(3) pl
    by (simp add: build_stm_event_def packet_payload_nth Let_def timestamp_words EV_OVERFLOW_def EV_LAST_def)
qed

section \<open>Properties\<close>

text \<open>
  Decoding of trace events inverts their encoding: for a module with a valid value width,
  the event that is encoded into a packet, timestamp and value least significant word first,
  is the event \<open>build_stm_event\<close> returns; no protocol assertion fires.
\<close>

theorem stm_event_roundtrip:
  assumes "valid_width (value_width_bit desc)" "unat (stm_value ev) < 2 ^ unat (value_width_bit desc)"
    and "stm_overflow ev = 0" "hdr_in_range dest src OSD_PACKET_TYPE_EVENT EV_LAST"
  shows "build_stm_event desc (stm_event_packet dest src (unat (value_width_bit desc) div 16) ev) = Some ev"
  using assms by (rule build_stm_event_packet)

theorem stm_event_roundtrip_witness:
  "build_stm_event \<lparr>stm_di_addr = 3, value_width_bit = 32\<rparr>
     (stm_event_packet 0x401 3 2 \<lparr>stm_timestamp = 0xdeadbeef, stm_id = 4, stm_value = 0x8001000a, stm_overflow = 0\<rparr>)
   = Some \<lparr>stm_timestamp = 0xdeadbeef, stm_id = 4, stm_value = 0x8001000a, stm_overflow = 0\<rparr>"
proof -
  have "hdr_in_range 0x401 3 OSD_PACKET_TYPE_EVENT EV_LAST" by (simp add: hdr_in_range_def pkt_consts)
  then show ?thesis
    using stm_event_roundtrip [of "\<lparr>stm_di_addr = 3, value_width_bit = 32\<rparr>"
        "\<lparr>stm_timestamp = 0xdeadbeef, stm_id = 4, stm_value = 0x8001000a, stm_overflow = 0\<rparr>" "0x401" 3]
    by (simp add: valid_width_def)
qed

fun add_all :: "(nat \<Rightarrow> u8) \<Rightarrow> osd_stm_event list \<Rightarrow> osd_cl_stm_print_buf \<Rightarrow> (bool list \<times> osd_cl_stm_print_buf) option" where
  "add_all junk [] b = Some ([], b)"
| "add_all junk (ev # evs) b =
     do { (f, b) \<leftarrow> osd_cl_stm_add_to_print_buf junk ev b;
          (fs, b) \<leftarrow> add_all junk evs b;
          Some (f # fs, b) }"

lemma add_all_holds:
  "pb_holds b s \<Longrightarrow> \<forall>ev \<in> set evs. stm_value ev \<le> 255 \<Longrightarrow>
   \<exists>b'. add_all junk evs b = Some (map (\<lambda>ev. stm_value ev = 10) evs, b')
     \<and> pb_holds b' (s @ map (\<lambda>ev. ucast (stm_value ev)) evs)"
proof (induction evs arbitrary: b s)
  case (Cons ev evs)
  then obtain b1 where b1: "osd_cl_stm_add_to_print_buf junk ev b = Some (stm_value ev = 10, b1)"
    "pb_holds b1 (s @ [ucast (stm_value ev)])" using pb_holds_add [of b s ev junk] by auto
  then show ?case using Cons.IH [OF b1(2)] Cons.prems(2) by auto
qed auto

text \<open>
  The print buffer collects the characters of any number of print events in order, growing
  without ever writing outside its allocation; the string stays zero terminated, and the
  caller is told to flush exactly after a newline.
\<close>

theorem print_buf_collects:
  assumes "\<forall>ev \<in> set evs. stm_value ev \<le> 255"
  shows "\<exists>b. add_all junk evs osd_cl_stm_print_buf_new = Some (map (\<lambda>ev. stm_value ev = 10) evs, b)
     \<and> len_str b = length evs \<and> length (pb_buf b) = len_buf b
     \<and> (evs \<noteq> [] \<longrightarrow> length evs < len_buf b \<and> pb_buf b ! length evs = 0
          \<and> take (length evs) (pb_buf b) = map (\<lambda>ev. ucast (stm_value ev)) evs)"
  using add_all_holds [OF pb_holds_new assms, of junk] by (auto simp: pb_holds_def)

theorem print_buf_collects_witness:
  "\<exists>b. add_all (\<lambda>_. 0) [\<lparr>stm_timestamp = 0, stm_id = 4, stm_value = 65, stm_overflow = 0\<rparr>,
       \<lparr>stm_timestamp = 1, stm_id = 4, stm_value = 10, stm_overflow = 0\<rparr>] osd_cl_stm_print_buf_new
       = Some ([False, True], b) \<and> take 2 (pb_buf b) = [65, 10]"
proof -
  let ?evs = "[\<lparr>stm_timestamp = 0, stm_id = 4, stm_value = 65, stm_overflow = 0\<rparr>,
       \<lparr>stm_timestamp = 1, stm_id = 4, stm_value = 10, stm_overflow = 0\<rparr>]"
  have len: "length ?evs = 2" by simp
  obtain b where "add_all (\<lambda>_. 0) ?evs osd_cl_stm_print_buf_new = Some (map (\<lambda>ev. stm_value ev = 10) ?evs, b)"
    "take 2 (pb_buf b) = map (\<lambda>ev. ucast (stm_value ev)) ?evs"
    using print_buf_collects [of ?evs "\<lambda>_. 0"] unfolding len by fastforce
  then show ?thesis by simp
qed

end
