(* ===== verification/Cl_Ctm.thy ===== *)
theory Cl_Ctm
  imports Cl_Stm
begin

text \<open>
  Client of the core trace module (\<^verbatim>\<open>cl_ctm.c\<close>): module description and decoding of trace
  events. The valid widths are those of the system trace module.
\<close>

section \<open>Definitions\<close>

definition OSD_REG_CTM_ADDR_WIDTH :: u16 where [reg_consts]: "OSD_REG_CTM_ADDR_WIDTH = 0x0200"
definition OSD_REG_CTM_DATA_WIDTH :: u16 where [reg_consts]: "OSD_REG_CTM_DATA_WIDTH = 0x0201"

record osd_ctm_desc =
  ctm_di_addr :: u32
  addr_width_bit :: u16
  data_width_bit :: u16

record osd_ctm_event =
  ctm_overflow :: u16
  ctm_timestamp :: u32
  npc :: u64
  pc :: u64
  mode :: u8
  is_ret :: bool
  is_call :: bool
  is_modechange :: bool

definition build_ctm_event :: "osd_ctm_desc \<Rightarrow> osd_packet \<Rightarrow> osd_ctm_event option" where
  "build_ctm_event ctm_desc pkg =
     do { type_sub \<leftarrow> osd_packet_get_type_sub pkg;
          if type_sub = EV_OVERFLOW then
            do { n \<leftarrow> osd_packet_sizeconv_payload2data 1;
                 c_assert (n = unat (data_size_words pkg));
                 ov \<leftarrow> packet_payload pkg 0;
                 Some \<lparr>ctm_overflow = ov, ctm_timestamp = 0, npc = 0, pc = 0, mode = 0,
                       is_ret = False, is_call = False, is_modechange = False\<rparr> }
          else
            do { let aw = unat (addr_width_bit ctm_desc);
                 let exp_payload_len_bit = 32 + aw + aw + 2 + 1 + 1 + 1;
                 let exp_payload_len = INT_DIV_CEIL exp_payload_len_bit 16;
                 n \<leftarrow> osd_packet_sizeconv_payload2data exp_payload_len;
                 c_assert (n = unat (data_size_words pkg));
                 let aw_words = aw div 16;
                 hi \<leftarrow> packet_payload pkg 1;
                 lo \<leftarrow> packet_payload pkg 0;
                 npc' \<leftarrow> or_words pkg 2 0 aw_words 0;
                 pc' \<leftarrow> or_words pkg (2 + aw_words) 0 aw_words 0;
                 flags \<leftarrow> packet_payload pkg (2 + aw_words + aw_words);
                 Some \<lparr>ctm_overflow = 0, ctm_timestamp = push_bit 16 (ucast hi) OR ucast lo,
                       npc = npc', pc = pc', mode = ucast (flags AND 0x3),
                       is_ret = (drop_bit 2 flags AND 1 \<noteq> 0), is_call = (drop_bit 3 flags AND 1 \<noteq> 0),
                       is_modechange = (drop_bit 4 flags AND 1 \<noteq> 0)\<rparr> } }"

definition osd_cl_ctm_handle_event ::
  "(osd_ctm_desc \<Rightarrow> osd_ctm_event \<Rightarrow> 'w \<Rightarrow> 'w) \<Rightarrow> osd_ctm_desc \<Rightarrow> osd_packet \<Rightarrow> 'w \<Rightarrow> (osd_result \<times> 'w) option" where
  "osd_cl_ctm_handle_event cb_fn ctm_desc pkg w =
     do { ev \<leftarrow> build_ctm_event ctm_desc pkg;
          Some (OSD_OK, cb_fn ctm_desc ev w) }"

definition is_ctm_module :: "'w zmq \<Rightarrow> osd_hostmod_ctx \<Rightarrow> u32 \<Rightarrow> 'w \<Rightarrow> (bool \<times> 'w) option" where
  "is_ctm_module z ctx di_addr w =
     do { (rv, desc, w) \<leftarrow> osd_hostmod_mod_describe z ctx (ucast di_addr) blank_desc w;
          if OSD_FAILED rv then Some (False, w)
          else if mod_vendor desc \<noteq> OSD_MODULE_VENDOR_OSD \<or> mod_type desc \<noteq> OSD_MODULE_TYPE_STD_CTM
                  \<or> mod_version desc \<noteq> 0
          then Some (False, w) else Some (True, w) }"

definition osd_cl_ctm_get_desc ::
  "'w zmq \<Rightarrow> osd_hostmod_ctx \<Rightarrow> u32 \<Rightarrow> osd_ctm_desc \<Rightarrow> 'w \<Rightarrow> (osd_result \<times> osd_ctm_desc \<times> 'w) option" where
  "osd_cl_ctm_get_desc z ctx di_addr ctm_desc w =
     do { let ctm_desc = ctm_desc\<lparr>ctm_di_addr := di_addr\<rparr>;
          (ok, w) \<leftarrow> is_ctm_module z ctx di_addr w;
          if \<not> ok then Some (OSD_ERROR_WRONG_MODULE, ctm_desc, w)
          else do {
            (r, w) \<leftarrow> osd_hostmod_reg_read z ctx (ucast di_addr) OSD_REG_CTM_ADDR_WIDTH 16 0 w;
            (case r of
               Inl rv \<Rightarrow> Some (rv, ctm_desc, w)
             | Inr regvalue \<Rightarrow>
                 do { c_assert (valid_width (hd regvalue));
                      let ctm_desc = ctm_desc\<lparr>addr_width_bit := hd regvalue\<rparr>;
                      (r, w) \<leftarrow> osd_hostmod_reg_read z ctx (ucast di_addr) OSD_REG_CTM_DATA_WIDTH 16 0 w;
                      (case r of
                         Inl rv \<Rightarrow> Some (rv, ctm_desc, w)
                       | Inr regvalue \<Rightarrow>
                           do { c_assert (valid_width (hd regvalue));
                                Some (OSD_OK, ctm_desc\<lparr>data_width_bit := hd regvalue\<rparr>, w) }) }) } }"

interpretation ctm: module_probe is_ctm_module OSD_MODULE_TYPE_STD_CTM
  by unfold_locales (auto simp: is_ctm_module_def identifies_def)

section \<open>Events\<close>

definition ctm_flags :: "osd_ctm_event \<Rightarrow> u16" where
  "ctm_flags ev = take_bit 2 (ucast (mode ev)) OR push_bit 2 (of_bool (is_ret ev))
     OR push_bit 3 (of_bool (is_call ev)) OR push_bit 4 (of_bool (is_modechange ev))"

definition ctm_event_packet :: "u32 \<Rightarrow> u32 \<Rightarrow> nat \<Rightarrow> osd_ctm_event \<Rightarrow> osd_packet" where
  "ctm_event_packet dest src n ev =
     mk_packet dest src OSD_PACKET_TYPE_EVENT EV_LAST
       ([ucast (ctm_timestamp ev), ucast (drop_bit 16 (ctm_timestamp ev))]
          @ le_words n (npc ev) @ le_words n (pc ev) @ [ctm_flags ev])"

lemma flag_bit: "drop_bit n (x :: u16) AND 1 \<noteq> 0 \<longleftrightarrow> bit x n"
  by (simp add: and_one_eq bit_iff_odd_drop_bit odd_iff_mod_2_eq_one)

lemma ctm_flags_fields:
  assumes "unat (mode ev) < 4"
  shows "ucast (ctm_flags ev AND 0x3) = mode ev" "bit (ctm_flags ev) 2 = is_ret ev"
    "bit (ctm_flags ev) 3 = is_call ev" "bit (ctm_flags ev) 4 = is_modechange ev"
proof -
  have "take_bit 2 (mode ev) = mode ev"
    using assms by (simp add: word_unat_eq_iff unsigned_take_bit_eq take_bit_nat_eq_self)
  then have m: "bit (mode ev) n \<Longrightarrow> n < 2" for n by (metis bit_take_bit_iff)
  have mask: "(0x3 :: u16) = mask 2" by (simp add: mask_eq_exp_minus_1)
  show "ucast (ctm_flags ev AND 0x3) = mode ev"
    unfolding mask by (rule bit_word_eqI) (auto simp: ctm_flags_def bit_simps dest: m)
  show "bit (ctm_flags ev) 2 = is_ret ev" "bit (ctm_flags ev) 3 = is_call ev"
    "bit (ctm_flags ev) 4 = is_modechange ev"
    by (auto simp: ctm_flags_def bit_simps)
qed

section \<open>Properties\<close>

text \<open>
  Decoding of core trace events inverts their encoding: for a module with a valid address
  width, program counters, timestamp, privilege mode and the three flags of an event
  encoded into a packet are those \<open>build_ctm_event\<close> returns; no protocol assertion fires.
\<close>

theorem ctm_event_roundtrip:
  assumes "valid_width (addr_width_bit desc)" "unat (mode ev) < 4" "ctm_overflow ev = 0"
    and "unat (npc ev) < 2 ^ unat (addr_width_bit desc)" "unat (pc ev) < 2 ^ unat (addr_width_bit desc)"
    and "hdr_in_range dest src OSD_PACKET_TYPE_EVENT EV_LAST"
  shows "build_ctm_event desc (ctm_event_packet dest src (unat (addr_width_bit desc) div 16) ev) = Some ev"
proof -
  obtain n where n: "unat (addr_width_bit desc) = 16 * n" "n \<in> {1, 2, 4}"
    using assms(1) by (rule valid_width_cases)
  let ?p = "ctm_event_packet dest src n ev"
  have pl: "payload_of ?p = [ucast (ctm_timestamp ev), ucast (drop_bit 16 (ctm_timestamp ev))]
      @ le_words n (npc ev) @ le_words n (pc ev) @ [ctm_flags ev]"
    by (simp add: ctm_event_packet_def mk_packet_def)
  have sz: "unat (data_size_words ?p) = 6 + 2 * n"
    using n(2) by (auto simp: ctm_event_packet_def mk_packet_def)
  have ts: "osd_packet_get_type_sub ?p = Some EV_LAST"
    unfolding ctm_event_packet_def using assms(6) n(2) by (intro mk_packet_getters(4)) auto
  have npc: "or_words ?p 2 0 n 0 = Some (npc ev)"
    using or_words_le_words [OF pl, of 2] assms(4) n(1) by (simp add: take_bit_width_id)
  have pl2: "payload_of ?p = ([ucast (ctm_timestamp ev), ucast (drop_bit 16 (ctm_timestamp ev))]
      @ le_words n (npc ev)) @ le_words n (pc ev) @ [ctm_flags ev]"
    using pl by simp
  have pc: "or_words ?p (2 + n) 0 n 0 = Some (pc ev)"
    using or_words_le_words [OF pl2, of "2 + n"] assms(5) n(1) by (simp add: take_bit_width_id)
  have fl: "packet_payload ?p (2 + n + n) = Some (ctm_flags ev)"
    "packet_payload ?p 0 = Some (ucast (ctm_timestamp ev))"
    "packet_payload ?p 1 = Some (ucast (drop_bit 16 (ctm_timestamp ev)))"
    unfolding packet_payload_nth pl by (simp_all add: nth_append)
  have "osd_packet_sizeconv_payload2data (INT_DIV_CEIL (32 + 16 * n + 16 * n + 2 + 1 + 1 + 1) 16) = Some (6 + 2 * n)"
    using n(2) by (auto simp: INT_DIV_CEIL_def osd_packet_sizeconv_payload2data_def pkt_consts)
  then show ?thesis
    unfolding build_ctm_event_def Let_def n(1)
    using assms(3) sz ts npc pc fl ctm_flags_fields [OF assms(2)]
    by (simp add: timestamp_words flag_bit EV_OVERFLOW_def EV_LAST_def)
qed

theorem ctm_event_roundtrip_witness:
  "build_ctm_event \<lparr>ctm_di_addr = 3, addr_width_bit = 64, data_width_bit = 64\<rparr>
     (ctm_event_packet 0x401 3 4 \<lparr>ctm_overflow = 0, ctm_timestamp = 7, npc = 0x80000004, pc = 0x80000000,
        mode = 3, is_ret = False, is_call = True, is_modechange = False\<rparr>)
   = Some \<lparr>ctm_overflow = 0, ctm_timestamp = 7, npc = 0x80000004, pc = 0x80000000,
        mode = 3, is_ret = False, is_call = True, is_modechange = False\<rparr>"
proof -
  have "hdr_in_range 0x401 3 OSD_PACKET_TYPE_EVENT EV_LAST" by (simp add: hdr_in_range_def pkt_consts)
  then show ?thesis
    using ctm_event_roundtrip [of "\<lparr>ctm_di_addr = 3, addr_width_bit = 64, data_width_bit = 64\<rparr>"
        "\<lparr>ctm_overflow = 0, ctm_timestamp = 7, npc = 0x80000004, pc = 0x80000000,
        mode = 3, is_ret = False, is_call = True, is_modechange = False\<rparr>" "0x401" 3]
    by (simp add: valid_width_def)
qed

end
