(* ===== verification/Cl_Dem_Uart.thy ===== *)
theory Cl_Dem_Uart
  imports Cl_Base
begin

text \<open>
  Client of the UART device emulation module (\<^verbatim>\<open>cl_dem_uart.c\<close>): characters are exchanged as the
  payload of one-word event packets.
\<close>

section \<open>Definitions\<close>

record osd_dem_uart_desc =
  dem_uart_di_addr :: u16

definition is_dem_uart_module :: "'w zmq \<Rightarrow> osd_hostmod_ctx \<Rightarrow> u16 \<Rightarrow> 'w \<Rightarrow> (bool \<times> 'w) option" where
  "is_dem_uart_module z ctx di_addr w =
     do { (rv, desc, w) \<leftarrow> osd_hostmod_mod_describe z ctx di_addr blank_desc w;
          if OSD_FAILED rv then Some (False, w)
          else if mod_vendor desc \<noteq> OSD_MODULE_VENDOR_OSD \<or> mod_type desc \<noteq> OSD_MODULE_TYPE_STD_DEM_UART
                  \<or> mod_version desc \<noteq> 0
          then Some (False, w) else Some (True, w) }"

definition osd_cl_dem_uart_get_desc ::
  "'w zmq \<Rightarrow> osd_hostmod_ctx \<Rightarrow> u16 \<Rightarrow> osd_dem_uart_desc \<Rightarrow> 'w \<Rightarrow> (osd_result \<times> osd_dem_uart_desc \<times> 'w) option" where
  "osd_cl_dem_uart_get_desc z ctx di_addr desc w =
     do { (ok, w) \<leftarrow> is_dem_uart_module z ctx di_addr w;
          if \<not> ok then Some (OSD_ERROR_WRONG_MODULE, desc, w)
          else Some (OSD_OK, desc\<lparr>dem_uart_di_addr := di_addr\<rparr>, w) }"

definition osd_cl_dem_uart_receive_event ::
  "(u8 list \<Rightarrow> nat \<Rightarrow> 'w \<Rightarrow> 'w) \<Rightarrow> osd_packet \<Rightarrow> 'w \<Rightarrow> (osd_result \<times> 'w) option" where
  "osd_cl_dem_uart_receive_event cb_fn pkg w =
     do { x \<leftarrow> packet_payload pkg 0;
          let c = (ucast (x AND 0xFF) :: u8);
          Some (OSD_OK, cb_fn [c] 1 w) }"

fun send_chars ::
  "'w zmq \<Rightarrow> osd_hostmod_ctx \<Rightarrow> osd_packet \<Rightarrow> u8 list \<Rightarrow> 'w \<Rightarrow> (osd_result \<times> 'w) option" where
  "send_chars z ctx packet [] w = Some (OSD_OK, w)"
| "send_chars z ctx packet (c # cs) w =
     do { packet \<leftarrow> packet_set_payload packet 0 (ucast c AND 0xFF);
          (rv, w) \<leftarrow> osd_hostmod_event_send z ctx packet w;
          if OSD_FAILED rv then Some (rv, w) else send_chars z ctx packet cs w }"

definition osd_cl_dem_uart_send_string ::
  "'w zmq \<Rightarrow> osd_hostmod_ctx \<Rightarrow> osd_dem_uart_desc \<Rightarrow> u8 list \<Rightarrow> nat \<Rightarrow> 'w \<Rightarrow> (osd_result \<times> 'w) option" where
  "osd_cl_dem_uart_send_string z ctx desc str len w =
     do { c_assert (len > 0);
          n \<leftarrow> osd_packet_sizeconv_payload2data 1;
          diaddr \<leftarrow> osd_hostmod_get_diaddr ctx;
          packet \<leftarrow> osd_packet_set_header (osd_packet_new n) (ucast (dem_uart_di_addr desc))
              (ucast diaddr) OSD_PACKET_TYPE_EVENT EV_LAST;
          c_assert (len \<le> length str);
          send_chars z ctx packet (take len str) w }"

interpretation dem_uart: module_probe "\<lambda>z ctx a. is_dem_uart_module z ctx (ucast a)" OSD_MODULE_TYPE_STD_DEM_UART
  by unfold_locales (auto simp: is_dem_uart_module_def identifies_def)

section \<open>Sending a string\<close>

definition char_packet :: "osd_hostmod_ctx \<Rightarrow> osd_dem_uart_desc \<Rightarrow> u8 \<Rightarrow> osd_packet" where
  "char_packet ctx desc c =
     mk_packet (ucast (dem_uart_di_addr desc)) (ucast (hm_diaddr ctx)) OSD_PACKET_TYPE_EVENT EV_LAST [ucast c]"

lemma char_word: "ucast (c :: u8) AND 0xFF = (ucast c :: u16)"
proof -
  have m: "(0xFF :: u16) = mask 8" by (simp add: mask_eq_exp_minus_1)
  show ?thesis unfolding m by (rule bit_word_eqI) (auto simp: bit_simps dest: bit_u8_lt)
qed

lemma send_chars_eq:
  assumes "ready ctx"
  shows "data_raw p = [ucast (dem_uart_di_addr desc), hm_diaddr ctx, flags_word OSD_PACKET_TYPE_EVENT EV_LAST, x]
     \<Longrightarrow> data_size_words p = 4
     \<Longrightarrow> send_chars z ctx p cs w = Some (send_all z (map (\<lambda>c. req_msg (char_packet ctx desc c)) cs) w)"
proof (induction cs arbitrary: p x w)
  case (Cons c cs)
  let ?p = "char_packet ctx desc c"
  have set: "packet_set_payload p 0 (ucast c AND 0xFF) = Some ?p"
    unfolding char_word using Cons.prems
    by (simp add: packet_set_payload_def packet_set_word_def pkt_consts char_packet_def mk_packet_def)
  have hdr: "hdr_in_range (ucast (dem_uart_di_addr desc)) (ucast (hm_diaddr ctx)) OSD_PACKET_TYPE_EVENT EV_LAST"
    using unat_u16_lt by (simp add: hdr_in_range_def pkt_consts)
  have send: "osd_hostmod_event_send z ctx ?p w =
      (case zmsg_send z Inproc_main (req_msg ?p) w of (rv, w) \<Rightarrow> Some (if rv = 0 then OSD_OK else OSD_ERROR_COM, w))"
    unfolding char_packet_def using assms hdr by (rule event_send_mk_packet) simp
  have IH: "send_chars z ctx ?p cs w' = Some (send_all z (map (\<lambda>c. req_msg (char_packet ctx desc c)) cs) w')" for w'
    by (rule Cons.IH) (simp_all add: char_packet_def mk_packet_def)
  show ?case
    by (simp add: set send IH split: prod.splits)
qed simp

lemma send_string_eq:
  assumes "ready ctx" "0 < len" "len \<le> length str"
  shows "osd_cl_dem_uart_send_string z ctx desc str len w =
       Some (send_all z (map (\<lambda>c. req_msg (char_packet ctx desc c)) (take len str)) w)"
proof -
  have hdr: "hdr_in_range (ucast (dem_uart_di_addr desc)) (ucast (hm_diaddr ctx)) OSD_PACKET_TYPE_EVENT EV_LAST"
    using unat_u16_lt by (simp add: hdr_in_range_def pkt_consts)
  have n: "osd_packet_sizeconv_payload2data (Suc 0) = Some 4"
    by (simp add: osd_packet_sizeconv_payload2data_def pkt_consts)
  have wf: "packet_wf (osd_packet_new 4)" by (rule packet_wf_new) simp_all
  let ?p = "mk_packet (ucast (dem_uart_di_addr desc)) (ucast (hm_diaddr ctx)) OSD_PACKET_TYPE_EVENT EV_LAST [0]"
  have "send_chars z ctx ?p (take len str) w =
      Some (send_all z (map (\<lambda>c. req_msg (char_packet ctx desc c)) (take len str)) w)"
    using assms(1) by (rule send_chars_eq) (simp_all add: mk_packet_def)
  then show ?thesis
    using assms by (simp add: osd_cl_dem_uart_send_string_def n osd_hostmod_get_diaddr_def ready_def
        set_header_eq [OF wf hdr])
qed

lemma receive_char_packet:
  "osd_cl_dem_uart_receive_event cb_fn (char_packet ctx desc c) v = Some (OSD_OK, cb_fn [c] 1 v)"
proof -
  have "ucast (ucast c AND (0xFF :: u16)) = c"
    unfolding char_word by (rule bit_word_eqI) (auto simp: bit_simps)
  then show ?thesis
    by (simp add: osd_cl_dem_uart_receive_event_def packet_payload_nth char_packet_def mk_packet_def)
qed

section \<open>Properties\<close>

text \<open>
  Sending a string to the UART emulation of a connected host module puts one event packet
  per character on the wire, in order, addressed to the module and from the address of the
  host module, with the character as its only payload word; it stops with
  \<open>OSD_ERROR_COM\<close> at the first packet that cannot be handed over. The receiving side gets
  exactly the character back from such a packet.
\<close>

theorem dem_uart_sends_characters:
  assumes "ready ctx" "0 < len" "len \<le> length str"
  shows "osd_cl_dem_uart_send_string z ctx desc str len w =
       Some (send_all z (map (\<lambda>c. req_msg (char_packet ctx desc c)) (take len str)) w)
   \<and> osd_cl_dem_uart_receive_event cb_fn (char_packet ctx desc c) v = Some (OSD_OK, cb_fn [c] 1 v)"
  by (intro conjI send_string_eq [OF assms] receive_char_packet)

theorem dem_uart_sends_characters_witness:
  "osd_cl_dem_uart_send_string queue_zmq sim_ctx \<lparr>dem_uart_di_addr = 2\<rparr> [104, 105] 2 []
   = Some (OSD_OK, [req_msg (char_packet sim_ctx \<lparr>dem_uart_di_addr = 2\<rparr> 104),
                    req_msg (char_packet sim_ctx \<lparr>dem_uart_di_addr = 2\<rparr> 105)])"
proof -
  have "zmsg_send queue_zmq s m w = (0, w @ [m])" for s m w by (simp add: queue_zmq_def)
  then show ?thesis
    using dem_uart_sends_characters [OF sim_ctx_ready, where len = 2 and str = "[104, 105]" and z = queue_zmq
        and desc = "\<lparr>dem_uart_di_addr = 2\<rparr>" and w = "[]" and c = 0 and v = "()" and cb_fn = "\<lambda>_ _ v. v"]
    by simp
qed

end
