(* ===== verification/Cl_Cdm.thy ===== *)
theory Cl_Cdm
  imports Cl_Base
begin

text \<open>
  Client of the core debug module (\<^verbatim>\<open>cl_cdm.c\<close>): module description, stall events, and access to
  the registers of a CPU core. CPU registers are seen through a window of \<open>2 ^ 15\<close> module
  registers, the upper address bits are held in a module register of their own. The client
  caches this register in its descriptor.
\<close>

section \<open>Definitions\<close>

definition OSD_REG_CDM_CORE_CTRL :: u16 where [reg_consts]: "OSD_REG_CDM_CORE_CTRL = 0x0200"
definition OSD_REG_CDM_CORE_REG_UPPER :: u16 where [reg_consts]: "OSD_REG_CDM_CORE_REG_UPPER = 0x0201"
definition OSD_REG_CDM_CORE_DATA_WIDTH :: u16 where [reg_consts]: "OSD_REG_CDM_CORE_DATA_WIDTH = 0x0202"

record osd_cdm_desc =
  cdm_di_addr :: u32
  core_ctrl :: u16
  core_reg_upper :: u16
  core_data_width :: u16

record osd_cdm_event =
  stall :: bool

definition build_cdm_event :: "osd_cdm_desc \<Rightarrow> osd_packet \<Rightarrow> osd_cdm_event option" where
  "build_cdm_event cdm_desc pkg =
     do { n \<leftarrow> osd_packet_sizeconv_payload2data 1;
          c_assert (n = unat (data_size_words pkg));
          x \<leftarrow> packet_payload pkg 0;
          Some \<lparr>stall = (x \<noteq> 0)\<rparr> }"

definition osd_cl_cdm_handle_event ::
  "(osd_cdm_desc \<Rightarrow> osd_cdm_event \<Rightarrow> 'w \<Rightarrow> 'w) \<Rightarrow> osd_cdm_desc \<Rightarrow> osd_packet \<Rightarrow> 'w \<Rightarrow> (osd_result \<times> 'w) option" where
  "osd_cl_cdm_handle_event cb_fn cdm_desc pkg w =
     do { ev \<leftarrow> build_cdm_event cdm_desc pkg;
          Some (OSD_OK, cb_fn cdm_desc ev w) }"

definition is_cdm_module :: "'w zmq \<Rightarrow> osd_hostmod_ctx \<Rightarrow> u32 \<Rightarrow> 'w \<Rightarrow> (bool \<times> 'w) option" where
  "is_cdm_module z ctx di_addr w =
     do { (rv, desc, w) \<leftarrow> osd_hostmod_mod_describe z ctx (ucast di_addr) blank_desc w;
          if OSD_FAILED rv then Some (False, w)
          else if mod_vendor desc \<noteq> OSD_MODULE_VENDOR_OSD \<or> mod_type desc \<noteq> OSD_MODULE_TYPE_STD_CDM
                  \<or> mod_version desc \<noteq> 0
          then Some (False, w) else Some (True, w) }"

definition osd_cl_cdm_get_desc ::
  "'w zmq \<Rightarrow> osd_hostmod_ctx \<Rightarrow> u32 \<Rightarrow> osd_cdm_desc \<Rightarrow> 'w \<Rightarrow> (osd_result \<times> osd_cdm_desc \<times> 'w) option" where
  "osd_cl_cdm_get_desc z ctx di_addr cdm_desc w =
     do { let cdm_desc = cdm_desc\<lparr>cdm_di_addr := di_addr\<rparr>;
          (ok, w) \<leftarrow> is_cdm_module z ctx di_addr w;
          if \<not> ok then Some (OSD_ERROR_WRONG_MODULE, cdm_desc, w)
          else do {
            (r, w) \<leftarrow> osd_hostmod_reg_read z ctx (ucast di_addr) OSD_REG_CDM_CORE_CTRL 16 0 w;
            (case r of
               Inl rv \<Rightarrow> Some (rv, cdm_desc, w)
             | Inr regvalue \<Rightarrow> do {
                 let cdm_desc = cdm_desc\<lparr>core_ctrl := hd regvalue\<rparr>;
                 (r, w) \<leftarrow> osd_hostmod_reg_read z ctx (ucast di_addr) OSD_REG_CDM_CORE_REG_UPPER 16 0 w;
                 (case r of
                    Inl rv \<Rightarrow> Some (rv, cdm_desc, w)
                  | Inr regvalue \<Rightarrow> do {
                      let cdm_desc = cdm_desc\<lparr>core_reg_upper := hd regvalue\<rparr>;
                      (r, w) \<leftarrow> osd_hostmod_reg_read z ctx (ucast di_addr) OSD_REG_CDM_CORE_DATA_WIDTH 16 0 w;
                      (case r of
                         Inl rv \<Rightarrow> Some (rv, cdm_desc, w)
                       | Inr regvalue \<Rightarrow> Some (OSD_OK, cdm_desc\<lparr>core_data_width := hd regvalue\<rparr>, w)) }) }) } }"

text \<open>The part both accesses start with: select the upper address bits if the cached ones differ.\<close>

definition select_upper ::
  "'w zmq \<Rightarrow> osd_hostmod_ctx \<Rightarrow> osd_cdm_desc \<Rightarrow> u16 \<Rightarrow> 'w
    \<Rightarrow> ((osd_result + osd_cdm_desc) \<times> 'w) option" where
  "select_upper z ctx cdm_desc reg_addr w =
     (let reg_addr_upper = drop_bit 15 reg_addr
      in if core_reg_upper cdm_desc \<noteq> reg_addr_upper then
           on_ok (osd_hostmod_reg_write z ctx [reg_addr_upper] (ucast (cdm_di_addr cdm_desc))
                    OSD_REG_CDM_CORE_REG_UPPER 16 0 w)
             (\<lambda>_ w. Some (Inr (cdm_desc\<lparr>core_reg_upper := reg_addr_upper\<rparr>), w))
         else Some (Inr cdm_desc, w))"

definition cpureg_window :: "u16 \<Rightarrow> u16" where
  "cpureg_window reg_addr = 0x8000 + (reg_addr AND 0x7fff)"

definition cl_cdm_cpureg_read ::
  "'w zmq \<Rightarrow> osd_hostmod_ctx \<Rightarrow> osd_cdm_desc \<Rightarrow> u16 \<Rightarrow> int \<Rightarrow> 'w
    \<Rightarrow> ((osd_result + u16 list) \<times> osd_cdm_desc \<times> 'w) option" where
  "cl_cdm_cpureg_read z ctx cdm_desc reg_addr flags w =
     do { (s, w) \<leftarrow> select_upper z ctx cdm_desc reg_addr w;
          (case s of
             Inl rv \<Rightarrow> Some (Inl rv, cdm_desc, w)
           | Inr cdm_desc \<Rightarrow>
               do { c_assert (core_data_width cdm_desc \<noteq> 128);
                    (r, w) \<leftarrow> osd_hostmod_reg_read z ctx (ucast (cdm_di_addr cdm_desc)) (cpureg_window reg_addr)
                        (unat (core_data_width cdm_desc)) flags w;
                    Some (r, cdm_desc, w) }) }"

definition cl_cdm_cpureg_write ::
  "'w zmq \<Rightarrow> osd_hostmod_ctx \<Rightarrow> osd_cdm_desc \<Rightarrow> u16 list \<Rightarrow> u16 \<Rightarrow> int \<Rightarrow> 'w
    \<Rightarrow> ((osd_result + unit) \<times> osd_cdm_desc \<times> 'w) option" where
  "cl_cdm_cpureg_write z ctx cdm_desc reg_val reg_addr flags w =
     do { (s, w) \<leftarrow> select_upper z ctx cdm_desc reg_addr w;
          (case s of
             Inl rv \<Rightarrow> Some (Inl rv, cdm_desc, w)
           | Inr cdm_desc \<Rightarrow>
               do { c_assert (core_data_width cdm_desc \<noteq> 128);
                    (r, w) \<leftarrow> osd_hostmod_reg_write z ctx reg_val (ucast (cdm_di_addr cdm_desc)) (cpureg_window reg_addr)
                        (unat (core_data_width cdm_desc)) flags w;
                    Some (r, cdm_desc, w) }) }"

interpretation cdm: module_probe is_cdm_module OSD_MODULE_TYPE_STD_CDM
  by unfold_locales (auto simp: is_cdm_module_def identifies_def)

section \<open>The register window\<close>

text \<open>The descriptor agrees with the module about the selected upper address bits.\<close>

definition cdm_synced :: "osd_cdm_desc \<Rightarrow> (u16 \<times> u16 \<Rightarrow> u16) \<Rightarrow> bool" where
  "cdm_synced desc R \<longleftrightarrow> core_reg_upper desc = R (ucast (cdm_di_addr desc), OSD_REG_CDM_CORE_REG_UPPER)"

lemma window_not_upper: "cpureg_window r \<noteq> OSD_REG_CDM_CORE_REG_UPPER"
proof -
  have m: "(0x7fff :: u16) = mask 15" by (simp add: mask_eq_exp_minus_1)
  have "unat (r AND 0x7fff) < 32768"
    unfolding m by (simp flip: take_bit_eq_mask add: unsigned_take_bit_eq take_bit_nat_less_exp [where n = 15, simplified])
  then have "unat (cpureg_window r) = 32768 + unat (r AND 0x7fff)"
    by (simp add: cpureg_window_def unat_word_ariths)
  then show ?thesis by (auto simp: word_unat_eq_iff OSD_REG_CDM_CORE_REG_UPPER_def)
qed

lemma select_upper_device:
  assumes "device_ok z ctx regs P" "P w" "cdm_synced desc (regs w)"
  obtains w' where "select_upper z ctx desc r w = Some (Inr (desc\<lparr>core_reg_upper := drop_bit 15 r\<rparr>), w')"
    "P w'" "regs w' = (regs w)((ucast (cdm_di_addr desc), OSD_REG_CDM_CORE_REG_UPPER) := drop_bit 15 r)"
proof (cases "core_reg_upper desc = drop_bit 15 r")
  case True
  then have "select_upper z ctx desc r w = Some (Inr (desc\<lparr>core_reg_upper := drop_bit 15 r\<rparr>), w)"
    by (simp add: select_upper_def Let_def flip: True)
  moreover have "regs w = (regs w)((ucast (cdm_di_addr desc), OSD_REG_CDM_CORE_REG_UPPER) := drop_bit 15 r)"
    using True assms(3) by (auto simp: cdm_synced_def)
  ultimately show thesis using that assms(2) by blast
next
  case False
  have "device_ok z ctx regs P \<and> P w" using assms by simp
  then obtain w' where "osd_hostmod_reg_write z ctx [drop_bit 15 r] (ucast (cdm_di_addr desc))
      OSD_REG_CDM_CORE_REG_UPPER 16 0 w = Some (Inr (), w')" "P w'"
    "regs w' = (regs w)((ucast (cdm_di_addr desc), OSD_REG_CDM_CORE_REG_UPPER) := drop_bit 15 r)"
    by (rule hm.writeE) blast
  with False that show thesis by (simp add: select_upper_def Let_def)
qed

section \<open>Properties\<close>

text \<open>
  Access to CPU registers. For a core with 16 bit registers and a descriptor in step with
  the module, writing a CPU register selects its upper address bits and writes the value to
  the window register of its lower 15 bits, and reading the same register afterwards returns
  the value; nothing else changes, and the descriptor stays in step after each access.
\<close>

theorem cdm_cpureg_roundtrip:
  assumes "device_ok z ctx regs P" "P w" "cdm_synced desc (regs w)" "core_data_width desc = 16"
  shows "\<exists>desc' w1 w2. cl_cdm_cpureg_write z ctx desc [v] r flags w = Some (Inr (), desc', w1)
     \<and> cl_cdm_cpureg_read z ctx desc' r flags w1 = Some (Inr [v], desc', w2)
     \<and> desc' = desc\<lparr>core_reg_upper := drop_bit 15 r\<rparr> \<and> cdm_synced desc' (regs w1) \<and> P w2 \<and> regs w2 = regs w1
     \<and> regs w1 = (regs w)((ucast (cdm_di_addr desc), OSD_REG_CDM_CORE_REG_UPPER) := drop_bit 15 r,
                          (ucast (cdm_di_addr desc), cpureg_window r) := v)"
proof -
  let ?a = "ucast (cdm_di_addr desc) :: u16" and ?d = "desc\<lparr>core_reg_upper := drop_bit 15 r\<rparr>"
  obtain w1 where 1: "select_upper z ctx desc r w = Some (Inr ?d, w1)" "P w1"
    "regs w1 = (regs w)((?a, OSD_REG_CDM_CORE_REG_UPPER) := drop_bit 15 r)"
    using assms(1-3) by (rule select_upper_device)
  have "device_ok z ctx regs P \<and> P w1" using assms 1 by simp
  then obtain w2 where 2: "osd_hostmod_reg_write z ctx [v] ?a (cpureg_window r) 16 flags w1 = Some (Inr (), w2)"
    "device_ok z ctx regs P \<and> P w2" "regs w2 = (regs w1)((?a, cpureg_window r) := v)" by (rule hm.writeE)
  from 2(2) obtain w3 where 3: "osd_hostmod_reg_read z ctx ?a (cpureg_window r) 16 flags w2
      = Some (Inr [regs w2 (?a, cpureg_window r)], w3)" "device_ok z ctx regs P \<and> P w3" "regs w3 = regs w2"
    by (rule hm.readE)
  have sync: "cdm_synced ?d (regs w2)"
    using 1(3) 2(3) window_not_upper [of r] by (simp add: cdm_synced_def)
  have wr: "cl_cdm_cpureg_write z ctx desc [v] r flags w = Some (Inr (), ?d, w2)"
    using 1(1) 2(1) assms(4) by (simp add: cl_cdm_cpureg_write_def)
  have sel: "select_upper z ctx ?d r w2 = Some (Inr ?d, w2)" by (simp add: select_upper_def)
  have rd: "cl_cdm_cpureg_read z ctx ?d r flags w2 = Some (Inr [v], ?d, w3)"
    unfolding cl_cdm_cpureg_read_def sel using 2(3) 3(1) assms(4) by simp
  show ?thesis
    using wr rd sync 1(3) 2(3) 3(2,3) by (intro exI [of _ ?d] exI [of _ w2] exI [of _ w3] conjI) simp_all
qed

theorem cdm_cpureg_roundtrip_witness:
  "\<exists>desc' w1 w2. cl_cdm_cpureg_write sim_zmq sim_ctx
         \<lparr>cdm_di_addr = 6, core_ctrl = 0, core_reg_upper = 0, core_data_width = 16\<rparr> [77] 0x9001 0 (\<lambda>_. 0, [])
       = Some (Inr (), desc', w1)
     \<and> cl_cdm_cpureg_read sim_zmq sim_ctx desc' 0x9001 0 w1 = Some (Inr [77], desc', w2) \<and> core_reg_upper desc' = 1"
proof -
  have "drop_bit 15 (0x9001 :: u16) = 1" by (simp add: drop_bit_eq_div)
  then show ?thesis
    using cdm_cpureg_roundtrip [OF sim_ok, where w = "(\<lambda>_. 0, [])" and v = 77 and r = "0x9001" and flags = 0
        and desc = "\<lparr>cdm_di_addr = 6, core_ctrl = 0, core_reg_upper = 0, core_data_width = 16\<rparr>"]
    by (auto simp: cdm_synced_def)
qed

end
