(* ===== verification/Cl_Mam.thy ===== *)
theory Cl_Mam
  imports Cl_Base
begin

text \<open>
  Client of the memory access module (\<^verbatim>\<open>cl_mam.c\<close>): reads and writes of arbitrary byte ranges are
  split into single-word and burst transfers, which are sent as series of event packets.

  Buffers are lists of bytes; an access outside of a buffer, a division by zero and a failed
  assertion yield \<open>None\<close>. Sizes are natural numbers, with the wrap-around of \<^verbatim>\<open>unsigned int\<close> and
  \<^verbatim>\<open>size_t\<close> computations written out where values of the caller enter them.
\<close>

section \<open>Data\<close>

definition MAM_MAX_BURST_WORDS :: nat where "MAM_MAX_BURST_WORDS = 255"

definition OSD_REG_MAM_AW :: u16 where [reg_consts]: "OSD_REG_MAM_AW = 0x0200"
definition OSD_REG_MAM_DW :: u16 where [reg_consts]: "OSD_REG_MAM_DW = 0x0201"
definition OSD_REG_MAM_REGIONS :: u16 where [reg_consts]: "OSD_REG_MAM_REGIONS = 0x0202"
definition OSD_REG_MAM_REGION_BASEADDR :: "nat \<Rightarrow> nat \<Rightarrow> u16"
  where [reg_consts]: "OSD_REG_MAM_REGION_BASEADDR region word = 0x0280 + 0x10 * of_nat region + of_nat word"
definition OSD_REG_MAM_REGION_MEMSIZE :: "nat \<Rightarrow> nat \<Rightarrow> u16"
  where [reg_consts]: "OSD_REG_MAM_REGION_MEMSIZE region word = 0x0284 + 0x10 * of_nat region + of_nat word"

record osd_mem_desc_region =
  baseaddr :: u64
  memsize :: u64

record osd_mem_desc =
  mem_di_addr :: u32
  mem_data_width_bit :: u16
  mem_addr_width_bit :: u16
  num_regions :: u8
  regions :: "osd_mem_desc_region list"

section \<open>Packets of a transfer\<close>

primrec fill_be :: "osd_packet \<Rightarrow> u8 list \<Rightarrow> nat \<Rightarrow> nat \<Rightarrow> nat \<Rightarrow> osd_packet option" where
  "fill_be p transfer bpos i 0 = Some p"
| "fill_be p transfer bpos i (Suc k) =
     do { c_assert (bpos + 1 < length transfer);
          p \<leftarrow> packet_set_payload p i (be16 (transfer ! bpos) (transfer ! (bpos + 1)));
          fill_be p transfer (bpos + 2) (Suc i) k }"

definition pkg_in_transfer ::
  "osd_mem_desc \<Rightarrow> osd_hostmod_ctx \<Rightarrow> u8 list \<Rightarrow> nat \<Rightarrow> osd_packet option" where
  "pkg_in_transfer mem_desc ctx transfer pkg_idx =
     do { max_words_per_pkg \<leftarrow> osd_hostmod_get_max_event_words ctx (mem_di_addr mem_desc);
          let max_bytes_per_pkg = max_words_per_pkg * 2;
          let pos_start = (pkg_idx * max_bytes_per_pkg) mod 2 ^ 32;
          let pos_end = (pos_start + max_bytes_per_pkg) mod 2 ^ 32;
          let pos_end = (if pos_end > length transfer then length transfer else pos_end);
          let pkg_payload_size_bytes = (pos_end + 2 ^ 32 - pos_start) mod 2 ^ 32;
          let pkg_payload_size_words = pkg_payload_size_bytes div 2;
          pkg_data_size_bytes \<leftarrow> osd_packet_sizeconv_payload2data pkg_payload_size_words;
          diaddr \<leftarrow> osd_hostmod_get_diaddr ctx;
          p \<leftarrow> osd_packet_set_header (osd_packet_new pkg_data_size_bytes) (mem_di_addr mem_desc)
                 (ucast diaddr) OSD_PACKET_TYPE_EVENT 0;
          fill_be p transfer pos_start 0 pkg_payload_size_words }"

definition num_pkgs_for_transfer :: "osd_mem_desc \<Rightarrow> osd_hostmod_ctx \<Rightarrow> nat \<Rightarrow> nat option" where
  "num_pkgs_for_transfer mem_desc ctx transfer_size =
     do { words_per_pkg \<leftarrow> osd_hostmod_get_max_event_words ctx (mem_di_addr mem_desc);
          let bytes_per_pkg = words_per_pkg * 2;
          Some (INT_DIV_CEIL transfer_size bytes_per_pkg mod 2 ^ 32) }"

definition create_mam_transfer ::
  "osd_mem_desc \<Rightarrow> u8 list \<Rightarrow> nat \<Rightarrow> u64 \<Rightarrow> bool \<Rightarrow> bool \<Rightarrow> bool \<Rightarrow> u16 \<Rightarrow> u8 list option" where
  "create_mam_transfer mem_desc data nbyte start_addr we burst sync selsize =
     do { let aw_b = unat (mem_addr_width_bit mem_desc) div 8;
          let dw_b = unat (mem_data_width_bit mem_desc) div 8;
          c_assert ((we \<and> nbyte \<noteq> 0) \<or> (\<not> we \<and> nbyte = 0));
          c_assert (dw_b \<noteq> 0);
          c_assert (nbyte mod dw_b = 0);
          c_assert (aw_b \<noteq> 0);
          c_assert (unat start_addr mod aw_b = 0);
          c_assert (burst \<longrightarrow> selsize \<noteq> 0);
          c_assert (burst \<and> we \<longrightarrow> unat selsize = nbyte div dw_b);
          let hdr0 = push_bit 7 (of_bool we) OR push_bit 6 (of_bool burst) OR push_bit 5 (of_bool sync);
          let hdr1 = (ucast selsize :: u8);
          c_assert (aw_b \<le> 8);
          let addr = map (\<lambda>i. ucast (drop_bit ((aw_b - i - 1) * 8) start_addr)) [0..<aw_b];
          c_assert (nbyte \<le> length data);
          Some ([hdr0, hdr1] @ addr @ take nbyte data) }"

primrec send_pkgs ::
  "'w zmq \<Rightarrow> osd_mem_desc \<Rightarrow> osd_hostmod_ctx \<Rightarrow> u8 list \<Rightarrow> nat \<Rightarrow> nat \<Rightarrow> 'w \<Rightarrow> (osd_result \<times> 'w) option" where
  "send_pkgs z mem_desc ctx transfer i 0 w = Some (OSD_OK, w)"
| "send_pkgs z mem_desc ctx transfer i (Suc k) w =
     do { pkg \<leftarrow> pkg_in_transfer mem_desc ctx transfer i;
          (rv, w) \<leftarrow> osd_hostmod_event_send z ctx pkg w;
          if OSD_FAILED rv then Some (rv, w) else send_pkgs z mem_desc ctx transfer (Suc i) k w }"

definition send_mam_transfer ::
  "'w zmq \<Rightarrow> osd_mem_desc \<Rightarrow> osd_hostmod_ctx \<Rightarrow> u8 list \<Rightarrow> 'w \<Rightarrow> (osd_result \<times> 'w) option" where
  "send_mam_transfer z mem_desc ctx transfer w =
     do { numpkgs \<leftarrow> num_pkgs_for_transfer mem_desc ctx (length transfer);
          send_pkgs z mem_desc ctx transfer 0 numpkgs w }"

definition mam_write ::
  "'w zmq \<Rightarrow> osd_mem_desc \<Rightarrow> osd_hostmod_ctx \<Rightarrow> u8 list \<Rightarrow> nat \<Rightarrow> u64 \<Rightarrow> bool \<Rightarrow> bool \<Rightarrow> u8 \<Rightarrow> 'w
    \<Rightarrow> (osd_result \<times> 'w) option" where
  "mam_write z mem_desc ctx data nbyte start_addr burst sync selsize w =
     do { transfer \<leftarrow> create_mam_transfer mem_desc data nbyte start_addr True burst sync (ucast selsize);
          (rv, w) \<leftarrow> send_mam_transfer z mem_desc ctx transfer w;
          if OSD_FAILED rv then Some (rv, w)
          else if sync then
            do { (r, w) \<leftarrow> osd_hostmod_event_receive z ctx OSD_HOSTMOD_BLOCKING w;
                 (case r of Inl rv \<Rightarrow> Some (rv, w) | Inr rx_pkg \<Rightarrow> Some (OSD_OK, w)) }
          else Some (OSD_OK, w) }"

section \<open>Splitting a range\<close>

definition calculate_parts :: "u64 \<Rightarrow> nat \<Rightarrow> nat \<Rightarrow> (nat \<times> nat \<times> nat) option" where
  "calculate_parts start_addr nbyte dw_b =
     (if nbyte < dw_b then Some (nbyte, 0, 0)
      else do {
        c_assert (dw_b \<noteq> 0);
        let prolog = unat (of_nat dw_b - start_addr) mod dw_b;
        let epilog = unat (start_addr + of_nat nbyte) mod dw_b;
        let bulk = unat (of_nat nbyte - of_nat prolog - of_nat epilog :: u64);
        Some (prolog, bulk, epilog) })"

text \<open>A shift \<^verbatim>\<open>1 << i\<close> by 31 or more bits is undefined; the other bits beyond the eighth are cut off.\<close>

definition byte_select_mask :: "nat \<Rightarrow> nat \<Rightarrow> nat \<Rightarrow> u8" where
  "byte_select_mask baddr nbyte dw_b =
     foldl (\<lambda>bs i. if baddr \<le> i \<and> i < baddr + nbyte then bs OR push_bit i 1 else bs) 0 [0..<dw_b]"

definition align_data_to_word :: "nat \<Rightarrow> u8 list \<Rightarrow> nat \<Rightarrow> nat \<Rightarrow> (u8 list \<times> u8) option" where
  "align_data_to_word baddr data nbyte dw_b =
     do { c_assert (baddr + nbyte \<le> dw_b);
          c_assert (nbyte \<noteq> 0 \<longrightarrow> baddr + nbyte \<le> 31);
          let bs = byte_select_mask baddr nbyte dw_b;
          c_assert (bs \<noteq> 0);
          c_assert (nbyte \<le> length data);
          Some (replicate baddr 0 @ take nbyte data @ replicate (dw_b - baddr - nbyte) 0, bs) }"

definition write_single ::
  "'w zmq \<Rightarrow> osd_mem_desc \<Rightarrow> osd_hostmod_ctx \<Rightarrow> u8 list \<Rightarrow> nat \<Rightarrow> u64 \<Rightarrow> bool \<Rightarrow> 'w
    \<Rightarrow> (osd_result \<times> 'w) option" where
  "write_single z mem_desc ctx data nbyte start_addr sync w =
     do { let dw_b = unat (mem_data_width_bit mem_desc) div 8;
          c_assert (dw_b \<noteq> 0);
          let baddr = (unat start_addr mod dw_b) mod 256;
          (data_word, byte_select) \<leftarrow> align_data_to_word baddr data nbyte dw_b;
          mam_write z mem_desc ctx data_word dw_b (start_addr - of_nat baddr) False sync byte_select w }"

primrec write_burst_loop ::
  "'w zmq \<Rightarrow> osd_mem_desc \<Rightarrow> osd_hostmod_ctx \<Rightarrow> u8 list \<Rightarrow> nat \<Rightarrow> u64 \<Rightarrow> bool \<Rightarrow> nat \<Rightarrow> nat \<Rightarrow> nat \<Rightarrow> 'w
    \<Rightarrow> (osd_result \<times> 'w) option" where
  "write_burst_loop z mem_desc ctx data nbyte start_addr sync num_transfers t 0 w = Some (OSD_OK, w)"
| "write_burst_loop z mem_desc ctx data nbyte start_addr sync num_transfers t (Suc k) w =
     do { let dw_b = unat (mem_data_width_bit mem_desc) div 8;
          let max_bulk_transfer_size_byte = MAM_MAX_BURST_WORDS * dw_b;
          let tpos_start = (t * max_bulk_transfer_size_byte) mod 2 ^ 32;
          let tpos_end = tpos_start + max_bulk_transfer_size_byte;
          let tpos_end = (if tpos_end > nbyte then nbyte else tpos_end);
          let transfer_size_byte = tpos_end - tpos_start;
          let transfer_size_words = transfer_size_byte div dw_b;
          let sync_last = (sync \<and> t = num_transfers - 1);
          c_assert (tpos_start \<le> tpos_end \<and> tpos_start \<le> length data);
          (rv, w) \<leftarrow> mam_write z mem_desc ctx (drop tpos_start data) transfer_size_byte
              (start_addr + of_nat tpos_start) True sync_last (of_nat transfer_size_words) w;
          if OSD_FAILED rv then Some (rv, w)
          else write_burst_loop z mem_desc ctx data nbyte start_addr sync num_transfers (Suc t) k w }"

definition write_burst ::
  "'w zmq \<Rightarrow> osd_mem_desc \<Rightarrow> osd_hostmod_ctx \<Rightarrow> u8 list \<Rightarrow> nat \<Rightarrow> u64 \<Rightarrow> bool \<Rightarrow> 'w
    \<Rightarrow> (osd_result \<times> 'w) option" where
  "write_burst z mem_desc ctx data nbyte start_addr sync w =
     do { let dw_b = unat (mem_data_width_bit mem_desc) div 8;
          let aw_b = unat (mem_addr_width_bit mem_desc) div 8;
          c_assert (dw_b \<noteq> 0 \<and> aw_b \<noteq> 0);
          c_assert (nbyte mod dw_b = 0);
          c_assert (unat start_addr mod aw_b = 0);
          let max_bulk_transfer_size_byte = MAM_MAX_BURST_WORDS * dw_b;
          let num_transfers = INT_DIV_CEIL nbyte max_bulk_transfer_size_byte mod 2 ^ 32;
          write_burst_loop z mem_desc ctx data nbyte start_addr sync num_transfers 0 num_transfers w }"

definition osd_cl_mam_write ::
  "'w zmq \<Rightarrow> osd_mem_desc \<Rightarrow> osd_hostmod_ctx \<Rightarrow> u8 list \<Rightarrow> nat \<Rightarrow> u64 \<Rightarrow> 'w \<Rightarrow> (osd_result \<times> 'w) option" where
  "osd_cl_mam_write z mem_desc ctx data nbyte start_addr w =
     do { let dw_b = unat (mem_data_width_bit mem_desc) div 8;
          c_assert (dw_b \<noteq> 0);
          (prolog, bulk, epilog) \<leftarrow> calculate_parts start_addr nbyte dw_b;
          (rv, w) \<leftarrow>
            (if prolog \<noteq> 0
             then write_single z mem_desc ctx data prolog start_addr (bulk = 0 \<and> epilog = 0) w
             else Some (OSD_OK, w));
          if OSD_FAILED rv then Some (rv, w)
          else do {
            c_assert (prolog \<le> length data);
            (rv, w) \<leftarrow>
              (if bulk \<noteq> 0
               then write_burst z mem_desc ctx (drop prolog data) bulk (start_addr + of_nat prolog) (epilog = 0) w
               else Some (OSD_OK, w));
            if OSD_FAILED rv then Some (rv, w)
            else do {
              (rv, w) \<leftarrow>
                (if epilog \<noteq> 0
                 then write_single z mem_desc ctx (drop (prolog + bulk) data) epilog
                        (start_addr + of_nat prolog + of_nat bulk) True w
                 else Some (OSD_OK, w));
              if OSD_FAILED rv then Some (rv, w) else Some (OSD_OK, w) } } }"

section \<open>Reads\<close>

text \<open>
  The received words are stored into the buffer \<open>data\<close> from offset \<open>pos\<close> on; the loop does not
  check that they fit.
\<close>

primrec store_be :: "osd_packet \<Rightarrow> nat \<Rightarrow> nat \<Rightarrow> u8 list \<Rightarrow> nat \<Rightarrow> u8 list option" where
  "store_be p i 0 data pos = Some data"
| "store_be p i (Suc k) data pos =
     do { x \<leftarrow> packet_payload p i;
          c_assert (pos + 1 < length data);
          store_be p (Suc i) k
            (data[pos := ucast (drop_bit 8 x AND 0xFF), pos + 1 := ucast (x AND 0xFF)]) (pos + 2) }"

partial_function (option) mam_read_loop ::
  "'w zmq \<Rightarrow> osd_hostmod_ctx \<Rightarrow> u8 list \<Rightarrow> nat \<Rightarrow> nat \<Rightarrow> nat \<Rightarrow> 'w \<Rightarrow> (osd_result \<times> u8 list \<times> 'w) option" where
  "mam_read_loop z ctx data off nbyte rx_nbyte w =
     do { (r, w) \<leftarrow> osd_hostmod_event_receive z ctx OSD_HOSTMOD_BLOCKING w;
          (case r of
             Inl rv \<Rightarrow> Some (rv, data, w)
           | Inr rx_pkg \<Rightarrow>
               do { payload_size_words \<leftarrow> osd_packet_sizeconv_data2payload (unat (data_size_words rx_pkg));
                    data \<leftarrow> store_be rx_pkg 0 payload_size_words data (off + rx_nbyte);
                    let rx_nbyte = rx_nbyte + 2 * payload_size_words;
                    if rx_nbyte < nbyte then mam_read_loop z ctx data off nbyte rx_nbyte w
                    else Some (OSD_OK, data, w) }) }"

definition mam_read ::
  "'w zmq \<Rightarrow> osd_mem_desc \<Rightarrow> osd_hostmod_ctx \<Rightarrow> u8 list \<Rightarrow> nat \<Rightarrow> nat \<Rightarrow> u64 \<Rightarrow> bool \<Rightarrow> u8 \<Rightarrow> 'w
    \<Rightarrow> (osd_result \<times> u8 list \<times> 'w) option" where
  "mam_read z mem_desc ctx data off nbyte start_addr burst selsize w =
     do { transfer \<leftarrow> create_mam_transfer mem_desc [] 0 start_addr False burst False (ucast selsize);
          (rv, w) \<leftarrow> send_mam_transfer z mem_desc ctx transfer w;
          if OSD_FAILED rv then Some (rv, data, w)
          else mam_read_loop z ctx data off nbyte 0 w }"

text \<open>
  A single-word read: the bytes of the caller's buffer are put into the word first, and the
  selected bytes are copied back whether or not the read succeeded.
\<close>

definition read_single ::
  "'w zmq \<Rightarrow> osd_mem_desc \<Rightarrow> osd_hostmod_ctx \<Rightarrow> u8 list \<Rightarrow> nat \<Rightarrow> nat \<Rightarrow> u64 \<Rightarrow> 'w
    \<Rightarrow> (osd_result \<times> u8 list \<times> 'w) option" where
  "read_single z mem_desc ctx data off nbyte start_addr w =
     do { let dw_b = unat (mem_data_width_bit mem_desc) div 8;
          c_assert (dw_b \<noteq> 0);
          let baddr = (unat start_addr mod dw_b) mod 256;
          (data_word, byte_select) \<leftarrow> align_data_to_word baddr (drop off data) nbyte dw_b;
          (rv, data_word, w) \<leftarrow> mam_read z mem_desc ctx data_word 0 dw_b (start_addr - of_nat baddr) False byte_select w;
          c_assert (off + nbyte \<le> length data);
          Some (rv, take off data @ take nbyte (drop baddr data_word) @ drop (off + nbyte) data, w) }"

primrec read_burst_loop ::
  "'w zmq \<Rightarrow> osd_mem_desc \<Rightarrow> osd_hostmod_ctx \<Rightarrow> u8 list \<Rightarrow> nat \<Rightarrow> nat \<Rightarrow> u64 \<Rightarrow> nat \<Rightarrow> nat \<Rightarrow> 'w
    \<Rightarrow> (osd_result \<times> u8 list \<times> 'w) option" where
  "read_burst_loop z mem_desc ctx data off nbyte start_addr t 0 w = Some (OSD_OK, data, w)"
| "read_burst_loop z mem_desc ctx data off nbyte start_addr t (Suc k) w =
     do { let dw_b = unat (mem_data_width_bit mem_desc) div 8;
          let max_bulk_transfer_size_byte = MAM_MAX_BURST_WORDS * dw_b;
          let tpos_start = (t * max_bulk_transfer_size_byte) mod 2 ^ 32;
          let tpos_end = tpos_start + max_bulk_transfer_size_byte;
          let tpos_end = (if tpos_end > nbyte then nbyte else tpos_end);
          let transfer_size_byte = tpos_end - tpos_start;
          let transfer_size_words = transfer_size_byte div dw_b;
          c_assert (tpos_start \<le> tpos_end);
          (rv, data, w) \<leftarrow> mam_read z mem_desc ctx data (off + tpos_start) transfer_size_byte
              (start_addr + of_nat tpos_start) True (of_nat transfer_size_words) w;
          if OSD_FAILED rv then Some (rv, data, w)
          else read_burst_loop z mem_desc ctx data off nbyte start_addr (Suc t) k w }"

text \<open>Without any transfer the result of \<^verbatim>\<open>read_burst\<close> would be undefined; it is called with at least one word.\<close>

definition read_burst ::
  "'w zmq \<Rightarrow> osd_mem_desc \<Rightarrow> osd_hostmod_ctx \<Rightarrow> u8 list \<Rightarrow> nat \<Rightarrow> nat \<Rightarrow> u64 \<Rightarrow> 'w
    \<Rightarrow> (osd_result \<times> u8 list \<times> 'w) option" where
  "read_burst z mem_desc ctx data off nbyte start_addr w =
     do { let dw_b = unat (mem_data_width_bit mem_desc) div 8;
          let aw_b = unat (mem_addr_width_bit mem_desc) div 8;
          c_assert (dw_b \<noteq> 0 \<and> aw_b \<noteq> 0);
          c_assert (nbyte mod dw_b = 0);
          c_assert (unat start_addr mod aw_b = 0);
          let max_bulk_transfer_size_byte = MAM_MAX_BURST_WORDS * dw_b;
          let num_transfers = INT_DIV_CEIL nbyte max_bulk_transfer_size_byte mod 2 ^ 32;
          c_assert (num_transfers \<noteq> 0);
          read_burst_loop z mem_desc ctx data off nbyte start_addr 0 num_transfers w }"

definition osd_cl_mam_read ::
  "'w zmq \<Rightarrow> osd_mem_desc \<Rightarrow> osd_hostmod_ctx \<Rightarrow> u8 list \<Rightarrow> nat \<Rightarrow> u64 \<Rightarrow> 'w
    \<Rightarrow> (osd_result \<times> u8 list \<times> 'w) option" where
  "osd_cl_mam_read z mem_desc ctx data nbyte start_addr w =
     do { let dw_b = unat (mem_data_width_bit mem_desc) div 8;
          (prolog, bulk, epilog) \<leftarrow> calculate_parts start_addr nbyte dw_b;
          (rv, data, w) \<leftarrow>
            (if prolog \<noteq> 0 then read_single z mem_desc ctx data 0 prolog start_addr w
             else Some (OSD_OK, data, w));
          if OSD_FAILED rv then Some (rv, data, w)
          else do {
            (rv, data, w) \<leftarrow>
              (if bulk \<noteq> 0 then read_burst z mem_desc ctx data prolog bulk (start_addr + of_nat prolog) w
               else Some (OSD_OK, data, w));
            if OSD_FAILED rv then Some (rv, data, w)
            else do {
              (rv, data, w) \<leftarrow>
                (if epilog \<noteq> 0
                 then read_single z mem_desc ctx data (prolog + bulk) epilog
                        (start_addr + of_nat prolog + of_nat bulk) w
                 else Some (OSD_OK, data, w));
              if OSD_FAILED rv then Some (rv, data, w) else Some (OSD_OK, data, w) } } }"

section \<open>Memory description\<close>

primrec read_reg64 ::
  "'w zmq \<Rightarrow> osd_hostmod_ctx \<Rightarrow> u16 \<Rightarrow> (nat \<Rightarrow> u16) \<Rightarrow> nat \<Rightarrow> nat \<Rightarrow> u64 \<Rightarrow> 'w \<Rightarrow> ((osd_result + u64) \<times> 'w) option" where
  "read_reg64 z ctx di_addr reg i 0 acc w = Some (Inr acc, w)"
| "read_reg64 z ctx di_addr reg i (Suc k) acc w =
     on_ok (osd_hostmod_reg_read z ctx di_addr (reg i) 16 0 w) (\<lambda>regvalue w.
       let regvalue_msb = (ucast (drop_bit 8 (hd regvalue) AND 0xFF) :: u8);
           regvalue_lsb = (ucast (hd regvalue AND 0xFF) :: u8);
           acc = acc OR push_bit (i * 16 + 8) (ucast regvalue_msb);
           acc = acc OR push_bit (i * 16) (ucast regvalue_lsb)
       in read_reg64 z ctx di_addr reg (Suc i) k acc w)"

primrec read_regions ::
  "'w zmq \<Rightarrow> osd_hostmod_ctx \<Rightarrow> u16 \<Rightarrow> nat \<Rightarrow> nat \<Rightarrow> osd_mem_desc_region list \<Rightarrow> 'w
    \<Rightarrow> (osd_result \<times> osd_mem_desc_region list \<times> 'w) option" where
  "read_regions z ctx di_addr region 0 rs w = Some (OSD_OK, rs, w)"
| "read_regions z ctx di_addr region (Suc k) rs w =
     do { (b, w) \<leftarrow> read_reg64 z ctx di_addr (OSD_REG_MAM_REGION_BASEADDR region) 0 4 0 w;
          (case b of
             Inl rv \<Rightarrow> Some (rv, rs, w)
           | Inr base \<Rightarrow> do {
               c_assert (region < length rs);
               let rs = rs[region := (rs ! region)\<lparr>baseaddr := base\<rparr>];
               (s, w) \<leftarrow> read_reg64 z ctx di_addr (OSD_REG_MAM_REGION_MEMSIZE region) 0 4 0 w;
               (case s of
                  Inl rv \<Rightarrow> Some (rv, rs, w)
                | Inr memsize' \<Rightarrow>
                    read_regions z ctx di_addr (Suc region) k
                      (rs[region := (rs ! region)\<lparr>memsize := memsize'\<rparr>]) w) }) }"

definition osd_cl_mam_get_mem_desc ::
  "'w zmq \<Rightarrow> osd_hostmod_ctx \<Rightarrow> u32 \<Rightarrow> osd_mem_desc \<Rightarrow> 'w \<Rightarrow> (osd_result \<times> osd_mem_desc \<times> 'w) option" where
  "osd_cl_mam_get_mem_desc z ctx mam_di_addr mem_desc w =
     do { let mem_desc = mem_desc\<lparr>mem_di_addr := mam_di_addr\<rparr>;
          (r, w) \<leftarrow> osd_hostmod_reg_read z ctx (ucast mam_di_addr) OSD_REG_MAM_AW 16 0 w;
          (case r of
             Inl rv \<Rightarrow> Some (rv, mem_desc, w)
           | Inr v \<Rightarrow> do {
               let mem_desc = mem_desc\<lparr>mem_addr_width_bit := hd v\<rparr>;
               (r, w) \<leftarrow> osd_hostmod_reg_read z ctx (ucast mam_di_addr) OSD_REG_MAM_DW 16 0 w;
               (case r of
                  Inl rv \<Rightarrow> Some (rv, mem_desc, w)
                | Inr v \<Rightarrow> do {
                    let mem_desc = mem_desc\<lparr>mem_data_width_bit := hd v\<rparr>;
                    (r, w) \<leftarrow> osd_hostmod_reg_read z ctx (ucast mam_di_addr) OSD_REG_MAM_REGIONS 16 0 w;
                    (case r of
                       Inl rv \<Rightarrow> Some (rv, mem_desc, w)
                     | Inr v \<Rightarrow> do {
                         let mem_desc = mem_desc\<lparr>num_regions := ucast (hd v)\<rparr>;
                         c_assert (num_regions mem_desc \<le> 8);
                         (rv, rs, w) \<leftarrow>
                           read_regions z ctx (ucast mam_di_addr) 0 (unat (num_regions mem_desc))
                             (replicate 8 \<lparr>baseaddr = 0, memsize = 0\<rparr>) w;
                         Some (rv, mem_desc\<lparr>regions := rs\<rparr>, w) }) }) }) }"

end
