(* ===== verification/Mam_Memory.thy ===== *)
theory Mam_Memory
  imports Cl_Mam
begin

text \<open>
  What the memory access client does to a memory: the packets of a transfer carry its bytes, a
  memory module can decode every transfer the client creates, and the transfers of a read or
  write act on the memory as one access to the given byte range.
\<close>

section \<open>A transfer as packets\<close>

definition dwb :: "osd_mem_desc \<Rightarrow> nat" where
  "dwb desc = unat (mem_data_width_bit desc) div 8"

definition awb :: "osd_mem_desc \<Rightarrow> nat" where
  "awb desc = unat (mem_addr_width_bit desc) div 8"

definition chunk :: "u8 list \<Rightarrow> nat \<Rightarrow> u8 list" where
  "chunk t i = take 10 (drop (10 * i) t)"

definition transfer_packet :: "osd_mem_desc \<Rightarrow> osd_hostmod_ctx \<Rightarrow> u8 list \<Rightarrow> nat \<Rightarrow> osd_packet" where
  "transfer_packet desc ctx t i =
     mk_packet (mem_di_addr desc) (ucast (hm_diaddr ctx)) OSD_PACKET_TYPE_EVENT EV_LAST (dec_words be16 (chunk t i))"

definition transfer_packets :: "osd_mem_desc \<Rightarrow> osd_hostmod_ctx \<Rightarrow> u8 list \<Rightarrow> osd_packet list" where
  "transfer_packets desc ctx t = map (transfer_packet desc ctx t) [0..<(length t + 9) div 10]"

lemma max_event_words: "osd_hostmod_get_max_event_words ctx a = Some 5"
  by (simp add: osd_hostmod_get_max_event_words_def osd_packet_sizeconv_data2payload_def
      OSD_MAX_PKG_LEN_WORDS_def pkt_consts)

lemma dec_be_step:
  assumes "bpos + 2 * Suc k \<le> length t"
  shows "dec_words be16 (take (2 * Suc k) (drop bpos t)) =
     be16 (t ! bpos) (t ! (bpos + 1)) # dec_words be16 (take (2 * k) (drop (bpos + 2) t))"
proof -
  have "drop bpos t = t ! bpos # t ! (bpos + 1) # drop (bpos + 2) t"
    using assms by (simp add: Cons_nth_drop_Suc numeral_2_eq_2)
  then show ?thesis by simp
qed

lemma fill_be_eq:
  "bpos + 2 * k \<le> length t \<Longrightarrow> 3 + i + k \<le> length (data_raw p) \<Longrightarrow>
   fill_be p t bpos i k = Some (p\<lparr>data_raw :=
     take (3 + i) (data_raw p) @ dec_words be16 (take (2 * k) (drop bpos t)) @ drop (3 + i + k) (data_raw p)\<rparr>)"
proof (induction k arbitrary: bpos i p)
  case (Suc k)
  let ?x = "be16 (t ! bpos) (t ! (bpos + 1))"
  let ?d = "(data_raw p)[3 + i := ?x]"
  have "take (3 + Suc i) ?d = take (3 + i) (data_raw p) @ [?x]"
    using Suc.prems(2) take_Suc_conv_app_nth [of "3 + i" ?d] by simp
  moreover have "drop (3 + Suc i + k) ?d = drop (3 + i + Suc k) (data_raw p)"
    by (simp add: drop_update_cancel add.assoc)
  moreover have "packet_set_payload p i ?x = Some (p\<lparr>data_raw := ?d\<rparr>)"
    using Suc.prems(2) by (intro packet_set_payload_eq) simp
  ultimately show ?case
    using Suc.prems Suc.IH [of "bpos + 2" "Suc i" "p\<lparr>data_raw := ?d\<rparr>"] dec_be_step [of bpos k t]
    by simp
qed simp

lemma pkg_in_transfer_eq:
  assumes "hm_is_connected ctx" "unat (mem_di_addr desc) < 2 ^ 16" "even (length t)" "length t < 2 ^ 31"
    and "10 * i < length t"
  shows "pkg_in_transfer desc ctx t i = Some (transfer_packet desc ctx t i)"
proof -
  let ?n = "min 10 (length t - 10 * i)"
  define k where "k = ?n div 2"
  have n: "?n = 2 * k" using assms(3) by (simp add: k_def min_def)
  have k: "k \<le> 5" "10 * i + 2 * k \<le> length t" using n assms(5) by auto
  have pos: "(i * (5 * 2)) mod 2 ^ 32 = 10 * i" "(10 * i + 5 * 2) mod 2 ^ 32 = 10 * i + 10"
    using assms(4,5) by simp_all
  have size: "((if 10 * i + 10 > length t then length t else 10 * i + 10) + 2 ^ 32 - 10 * i) mod 2 ^ 32 = 2 * k"
  proof (cases "10 * i + 10 > length t")
    case True
    then have "length t = 10 * i + 2 * k" using n assms(5) by simp
    then show ?thesis using True k(1) by simp
  next
    case False
    then show ?thesis using n by simp
  qed
  have s: "osd_packet_sizeconv_payload2data k = Some (3 + k)"
    using k by (simp add: osd_packet_sizeconv_payload2data_def pkt_consts Let_def)
  have hdr: "hdr_in_range (mem_di_addr desc) (ucast (hm_diaddr ctx)) OSD_PACKET_TYPE_EVENT EV_LAST"
    using assms(2) unat_u16_lt [of "hm_diaddr ctx"] by (simp add: hdr_in_range_def pkt_consts)
  have wf: "packet_wf (osd_packet_new (3 + k))" using k by (intro packet_wf_new) simp_all
  let ?q = "mk_packet (mem_di_addr desc) (ucast (hm_diaddr ctx)) OSD_PACKET_TYPE_EVENT EV_LAST (replicate k 0)"
  have c: "chunk t i = take (2 * k) (drop (10 * i) t)"
    unfolding n [symmetric] by (simp add: chunk_def min_def)
  have "fill_be ?q t (10 * i) 0 k = Some (transfer_packet desc ctx t i)"
    using fill_be_eq [of "10 * i" k t 0 ?q] k be.length_dec_words [of "take (2 * k) (drop (10 * i) t)"]
    by (simp add: transfer_packet_def mk_packet_def c numeral_3_eq_3)
  then show ?thesis
    using assms(1) s set_header_eq [OF wf hdr]
    unfolding pkg_in_transfer_def max_event_words Let_def bind.simps pos size
    by (simp add: osd_hostmod_get_diaddr_def EV_LAST_def)
qed


lemma send_pkgs_eq:
  assumes "ready ctx" "unat (mem_di_addr desc) < 2 ^ 16" "even (length t)" "length t < 2 ^ 31"
  shows "10 * (i + k) < length t + 10 \<Longrightarrow>
     send_pkgs z desc ctx t i k w = Some (send_all z (map (\<lambda>i. req_msg (transfer_packet desc ctx t i)) [i..<i + k]) w)"
proof (induction k arbitrary: i w)
  case (Suc k)
  have hdr: "hdr_in_range (mem_di_addr desc) (ucast (hm_diaddr ctx)) OSD_PACKET_TYPE_EVENT EV_LAST"
    using assms(2) unat_u16_lt [of "hm_diaddr ctx"] by (simp add: hdr_in_range_def pkt_consts)
  have l: "length (dec_words be16 (chunk t i)) < 65533" by (simp add: be.length_dec_words chunk_def)
  have p: "pkg_in_transfer desc ctx t i = Some (transfer_packet desc ctx t i)"
    using assms Suc.prems by (intro pkg_in_transfer_eq) (simp_all add: ready_def)
  have IH: "send_pkgs z desc ctx t (Suc i) k w' =
      Some (send_all z (map (\<lambda>i. req_msg (transfer_packet desc ctx t i)) [Suc i..<Suc i + k]) w')" for w'
    using Suc.prems by (intro Suc.IH) simp
  have u: "[i..<i + Suc k] = i # [Suc i..<Suc i + k]" by (simp add: upt_conv_Cons)
  show ?case
    unfolding u using event_send_mk_packet [OF assms(1) hdr l, of z w] IH
    by (simp add: p transfer_packet_def [symmetric] split: prod.splits)
qed simp

lemma send_mam_transfer_eq:
  assumes "ready ctx" "unat (mem_di_addr desc) < 2 ^ 16" "even (length t)" "length t < 2 ^ 31" "t \<noteq> []"
  shows "send_mam_transfer z desc ctx t w = Some (send_all z (map req_msg (transfer_packets desc ctx t)) w)"
proof -
  have n: "INT_DIV_CEIL (length t) 10 mod 2 ^ 32 = (length t + 9) div 10"
  proof -
    obtain m where m: "length t = Suc m" using assms(5) by (cases t) auto
    have "Suc (m div 10) < 2 ^ 32" using assms(4) m by simp
    moreover have "(Suc m + 9) div 10 = Suc (m div 10)" by simp
    ultimately show ?thesis by (simp add: INT_DIV_CEIL_def m)
  qed
  have "10 * (0 + (length t + 9) div 10) < length t + 10"
    using times_div_less_eq_dividend [of 10 "length t + 9"] by simp
  then show ?thesis
    using send_pkgs_eq [OF assms(1-4), of 0 "(length t + 9) div 10"] n
    by (simp add: send_mam_transfer_def num_pkgs_for_transfer_def max_event_words Let_def transfer_packets_def comp_def)
qed

text \<open>The bytes a module finds in the payloads of a series of packets.\<close>

definition packet_bytes :: "osd_packet list \<Rightarrow> u8 list" where
  "packet_bytes ps = concat (map (\<lambda>p. enc_words be16_bytes (payload_of p)) ps)"

lemma packet_bytes_simps [simp]:
  "packet_bytes [] = []" "packet_bytes (p # ps) = enc_words be16_bytes (payload_of p) @ packet_bytes ps"
  by (simp_all add: packet_bytes_def)

lemma chunks_concat: "concat (map (chunk t) [0..<n]) = take (10 * n) t"
proof (induction n)
  case (Suc n)
  have "take (10 * Suc n) t = take (10 * n) t @ take 10 (drop (10 * n) t)"
    using take_add [of "10 * n" 10 t] by (simp add: add.commute)
  with Suc show ?case by (simp add: chunk_def)
qed simp

lemma transfer_packets_bytes:
  assumes "even (length t)"
  shows "packet_bytes (transfer_packets desc ctx t) = t"
proof -
  have "enc_words be16_bytes (payload_of (transfer_packet desc ctx t i)) = chunk t i" for i
    using assms by (simp add: transfer_packet_def mk_packet_def be.enc_dec_words chunk_def min_def)
  then have "packet_bytes (transfer_packets desc ctx t) = concat (map (chunk t) [0..<(length t + 9) div 10])"
    by (simp add: packet_bytes_def transfer_packets_def comp_def)
  also have "\<dots> = t" unfolding chunks_concat by simp
  finally show ?thesis .
qed


section \<open>The format of a transfer\<close>

text \<open>A transfer request as the memory module decodes it.\<close>

record mam_req =
  rq_we :: bool
  rq_burst :: bool
  rq_sync :: bool
  rq_sel :: u8
  rq_addr :: nat
  rq_data :: "u8 list"

definition be_nat :: "u8 list \<Rightarrow> nat" where
  "be_nat bs = foldl (\<lambda>a b. 256 * a + unat b) 0 bs"

definition parse_transfer :: "nat \<Rightarrow> u8 list \<Rightarrow> mam_req" where
  "parse_transfer aw t = \<lparr>rq_we = bit (t ! 0) 7, rq_burst = bit (t ! 0) 6, rq_sync = bit (t ! 0) 5,
     rq_sel = t ! 1, rq_addr = be_nat (take aw (drop 2 t)), rq_data = drop (2 + aw) t\<rparr>"

definition addr_bytes :: "nat \<Rightarrow> u64 \<Rightarrow> u8 list" where
  "addr_bytes aw a = map (\<lambda>i. ucast (drop_bit ((aw - i - 1) * 8) a)) [0..<aw]"

definition mk_transfer :: "nat \<Rightarrow> bool \<Rightarrow> bool \<Rightarrow> bool \<Rightarrow> u8 \<Rightarrow> u64 \<Rightarrow> u8 list \<Rightarrow> u8 list" where
  "mk_transfer aw we burst sync sel a data =
     [push_bit 7 (of_bool we) OR push_bit 6 (of_bool burst) OR push_bit 5 (of_bool sync), sel] @ addr_bytes aw a @ data"

lemma length_addr_bytes [simp]: "length (addr_bytes aw a) = aw"
  by (simp add: addr_bytes_def)

lemma be_nat_snoc: "be_nat (xs @ [x]) = 256 * be_nat xs + unat x"
  by (simp add: be_nat_def)

lemma addr_bytes_Suc: "addr_bytes (Suc n) a = addr_bytes n (drop_bit 8 a) @ [ucast a]"
proof -
  have "(Suc n - i - 1) * 8 = (n - i - 1) * 8 + 8" if "i < n" for i using that by (simp add: algebra_simps)
  then have "map (\<lambda>i. ucast (drop_bit ((Suc n - i - 1) * 8) a)) [0..<n] =
      (map (\<lambda>i. ucast (drop_bit ((n - i - 1) * 8) (drop_bit 8 a))) [0..<n] :: u8 list)"
    by (intro map_cong) (simp_all add: drop_bit_drop_bit add.commute)
  then show ?thesis by (simp add: addr_bytes_def)
qed

lemma be_nat_addr_bytes: "be_nat (addr_bytes aw a) = unat a mod 2 ^ (8 * aw)"
proof (induction aw arbitrary: a)
  case 0
  then show ?case by (simp add: be_nat_def addr_bytes_def)
next
  case (Suc n)
  have "unat (ucast a :: u8) = unat a mod 256" by (simp add: unsigned_ucast_eq take_bit_eq_mod)
  moreover have "unat (drop_bit 8 a) = unat a div 256" by (simp add: drop_bit_eq_div unat_div)
  moreover have "(2 :: nat) ^ (8 * Suc n) = 256 * 2 ^ (8 * n)" by (simp add: power_add)
  ultimately show ?case
    using Suc [of "drop_bit 8 a"] mod_mult2_eq [of "unat a" 256 "2 ^ (8 * n)"]
    by (simp only: addr_bytes_Suc be_nat_snoc)
qed

lemma parse_mk_transfer:
  assumes "unat a < 2 ^ (8 * aw)"
  shows "parse_transfer aw (mk_transfer aw we burst sync sel a data) =
     \<lparr>rq_we = we, rq_burst = burst, rq_sync = sync, rq_sel = sel, rq_addr = unat a, rq_data = data\<rparr>"
  using assms be_nat_addr_bytes [of aw a]
  by (auto simp: parse_transfer_def mk_transfer_def bit_simps)

lemma create_mam_transfer_eq:
  assumes "awb desc \<noteq> 0" "awb desc \<le> 8" "dwb desc \<noteq> 0" "unat a mod awb desc = 0"
    and "we \<longleftrightarrow> nbyte \<noteq> 0" "nbyte mod dwb desc = 0" "nbyte \<le> length data"
    and "burst \<longrightarrow> sel \<noteq> 0 \<and> (we \<longrightarrow> unat sel = nbyte div dwb desc)"
  shows "create_mam_transfer desc data nbyte a we burst sync (ucast sel) =
     Some (mk_transfer (awb desc) we burst sync sel a (take nbyte data))"
proof -
  have u: "unat (ucast sel :: u16) = unat sel"
    using unat_u8_lt [of sel] by (simp add: unsigned_ucast_eq take_bit_nat_eq_self)
  have "(ucast sel :: u16) = 0 \<longleftrightarrow> sel = 0" by (metis u unat_eq_zero unsigned_0)
  moreover have "ucast (ucast sel :: u16) = sel" by (rule bit_word_eqI) (auto simp: bit_simps)
  ultimately show ?thesis
    using assms u unfolding awb_def dwb_def
    by (auto simp: create_mam_transfer_def Let_def mk_transfer_def addr_bytes_def)
qed

section \<open>A memory behind the module\<close>

definition mem_update :: "(nat \<Rightarrow> u8) \<Rightarrow> nat \<Rightarrow> u8 list \<Rightarrow> nat \<Rightarrow> u8" where
  "mem_update m a xs = (\<lambda>x. if a \<le> x \<and> x < a + length xs then xs ! (x - a) else m x)"

definition mem_range :: "(nat \<Rightarrow> u8) \<Rightarrow> nat \<Rightarrow> nat \<Rightarrow> u8 list" where
  "mem_range m a n = map (\<lambda>i. m (a + i)) [0..<n]"

text \<open>A write of one word writes the selected bytes, a burst all of its data.\<close>

definition apply_req :: "mam_req \<Rightarrow> (nat \<Rightarrow> u8) \<Rightarrow> nat \<Rightarrow> u8" where
  "apply_req r m = (\<lambda>x.
     if rq_addr r \<le> x \<and> x < rq_addr r + length (rq_data r) \<and> (rq_burst r \<or> bit (rq_sel r) (x - rq_addr r))
     then rq_data r ! (x - rq_addr r) else m x)"

definition req_bytes :: "nat \<Rightarrow> mam_req \<Rightarrow> nat" where
  "req_bytes dw r = (if rq_burst r then unat (rq_sel r) * dw else dw)"

fun recv_seq :: "'w zmq \<Rightarrow> 'w \<Rightarrow> zmsg list \<Rightarrow> 'w \<Rightarrow> bool" where
  "recv_seq z w [] w' \<longleftrightarrow> w = w'"
| "recv_seq z w (m # ms) w' \<longleftrightarrow> (\<exists>w1. zmsg_recv z Inproc_main w = (Received m, w1) \<and> recv_seq z w1 ms w')"

definition mam_packets :: "osd_mem_desc \<Rightarrow> osd_hostmod_ctx \<Rightarrow> osd_packet list \<Rightarrow> bool" where
  "mam_packets desc ctx ps \<longleftrightarrow> (\<forall>p \<in> set ps. \<exists>pl. pl \<noteq> [] \<and> length pl \<le> 5
     \<and> p = mk_packet (mem_di_addr desc) (ucast (hm_diaddr ctx)) OSD_PACKET_TYPE_EVENT EV_LAST pl)"

text \<open>
  A memory access module at the far end: from every state in \<open>P\<close>, it takes the packets of a
  request and executes the request they hold. A synchronous write is acknowledged by a
  packet, a read is answered by packets with the contents of the memory.
\<close>

definition mam_device ::
  "'w zmq \<Rightarrow> osd_mem_desc \<Rightarrow> osd_hostmod_ctx \<Rightarrow> ('w \<Rightarrow> nat \<Rightarrow> u8) \<Rightarrow> ('w \<Rightarrow> bool) \<Rightarrow> bool" where
  "mam_device z desc ctx mem P \<longleftrightarrow> ready ctx \<and>
     (\<forall>w ps r. P w \<longrightarrow> mam_packets desc ctx ps \<longrightarrow> 2 + awb desc \<le> length (packet_bytes ps)
        \<longrightarrow> r = parse_transfer (awb desc) (packet_bytes ps)
        \<longrightarrow> rq_we r \<longrightarrow> length (rq_data r) = req_bytes (dwb desc) r \<longrightarrow>
        (\<exists>w1. send_all z (map req_msg ps) w = (OSD_OK, w1) \<and>
           (if rq_sync r
            then \<exists>ack w2. packet_wf ack \<and> zmsg_recv z Inproc_main w1 = (Received (req_msg ack), w2)
                   \<and> P w2 \<and> mem w2 = apply_req r (mem w)
            else P w1 \<and> mem w1 = apply_req r (mem w)))) \<and>
     (\<forall>w ps r. P w \<longrightarrow> mam_packets desc ctx ps \<longrightarrow> 2 + awb desc \<le> length (packet_bytes ps)
        \<longrightarrow> r = parse_transfer (awb desc) (packet_bytes ps)
        \<longrightarrow> \<not> rq_we r \<longrightarrow> rq_data r = [] \<longrightarrow>
        (\<exists>w1 rs w2. send_all z (map req_msg ps) w = (OSD_OK, w1)
           \<and> (\<forall>p \<in> set rs. packet_wf p \<and> payload_of p \<noteq> [])
           \<and> packet_bytes rs = mem_range (mem w) (rq_addr r) (req_bytes (dwb desc) r)
           \<and> recv_seq z w1 (map req_msg rs) w2 \<and> P w2 \<and> mem w2 = mem w))"

text \<open>
  Memories the client supports: data and address width of 16, 32 or 64 bit, the data not
  narrower than the addresses.
\<close>

definition valid_mem :: "osd_mem_desc \<Rightarrow> bool" where
  "valid_mem desc \<longleftrightarrow> dwb desc \<in> {2, 4, 8} \<and> awb desc \<in> {2, 4, 8} \<and> awb desc \<le> dwb desc
     \<and> unat (mem_di_addr desc) < 2 ^ 16"

lemma mam_device_write:
  assumes "mam_device z desc ctx mem P" "P w" "mam_packets desc ctx ps" "2 + awb desc \<le> length (packet_bytes ps)"
    and "parse_transfer (awb desc) (packet_bytes ps) = r" "rq_we r" "length (rq_data r) = req_bytes (dwb desc) r"
  shows "\<exists>w1. send_all z (map req_msg ps) w = (OSD_OK, w1) \<and>
           (if rq_sync r
            then \<exists>ack w2. packet_wf ack \<and> zmsg_recv z Inproc_main w1 = (Received (req_msg ack), w2)
                   \<and> P w2 \<and> mem w2 = apply_req r (mem w)
            else P w1 \<and> mem w1 = apply_req r (mem w))"
  using assms unfolding mam_device_def by metis

lemma mam_device_read:
  assumes "mam_device z desc ctx mem P" "P w" "mam_packets desc ctx ps" "2 + awb desc \<le> length (packet_bytes ps)"
    and "parse_transfer (awb desc) (packet_bytes ps) = r" "\<not> rq_we r" "rq_data r = []"
  obtains w1 rs w2 where "send_all z (map req_msg ps) w = (OSD_OK, w1)"
    "\<forall>p \<in> set rs. packet_wf p \<and> payload_of p \<noteq> []"
    "packet_bytes rs = mem_range (mem w) (rq_addr r) (req_bytes (dwb desc) r)"
    "recv_seq z w1 (map req_msg rs) w2" "P w2" "mem w2 = mem w"
  using assms unfolding mam_device_def by metis

lemma mam_packets_transfer:
  assumes "even (length t)"
  shows "mam_packets desc ctx (transfer_packets desc ctx t)"
proof -
  have "dec_words be16 (chunk t i) \<noteq> [] \<and> length (dec_words be16 (chunk t i)) \<le> 5" if "i < (length t + 9) div 10" for i
  proof -
    have "10 * i < length t" using that by linarith
    then have "2 \<le> length (chunk t i)" using assms unfolding chunk_def length_take length_drop by presburger
    then have "0 < length (dec_words be16 (chunk t i))" unfolding be.length_dec_words by linarith
    moreover have "length (dec_words be16 (chunk t i)) \<le> 5" by (simp add: be.length_dec_words chunk_def)
    ultimately show ?thesis by blast
  qed
  then show ?thesis unfolding mam_packets_def transfer_packets_def transfer_packet_def by force
qed


section \<open>Writes\<close>

lemma valid_mem_facts:
  assumes "valid_mem desc"
  shows "dwb desc \<noteq> 0" "awb desc \<noteq> 0" "awb desc \<le> 8" "dwb desc \<le> 8" "even (dwb desc)" "even (awb desc)"
    "awb desc dvd dwb desc" "(2 :: nat) ^ (8 * awb desc) \<le> 2 ^ 64" "unat (mem_di_addr desc) < 2 ^ 16"
proof -
  have d: "dwb desc \<in> {2, 4, 8}" "awb desc \<in> {2, 4, 8}" "awb desc \<le> dwb desc" "unat (mem_di_addr desc) < 2 ^ 16"
    using assms by (simp_all add: valid_mem_def)
  show "dwb desc \<noteq> 0" "awb desc \<noteq> 0" "awb desc \<le> 8" "dwb desc \<le> 8" "even (dwb desc)" "even (awb desc)"
    "awb desc dvd dwb desc" "unat (mem_di_addr desc) < 2 ^ 16"
    using d by auto
  show "(2 :: nat) ^ (8 * awb desc) \<le> 2 ^ 64" using d(2) by (intro power_increasing) auto
qed

lemma apply_burst:
  "rq_burst r \<Longrightarrow> apply_req r m = mem_update m (rq_addr r) (rq_data r)"
  by (simp add: apply_req_def mem_update_def)

lemma mem_update_Nil [simp]: "mem_update m a [] = m"
  by (rule ext) (auto simp: mem_update_def)

lemma mem_update_append: "mem_update (mem_update m a xs) (a + length xs) ys = mem_update m a (xs @ ys)"
  by (rule ext) (auto simp: mem_update_def nth_append)

lemma mam_write_device:
  assumes V: "valid_mem desc" and D: "mam_device z desc ctx mem P" "P w"
    and a: "unat a < 2 ^ (8 * awb desc)" "unat a mod awb desc = 0"
    and n: "nbyte \<noteq> 0" "nbyte mod dwb desc = 0" "nbyte \<le> length data" "nbyte < 2 ^ 30"
    and s: "if burst then unat sel = nbyte div dwb desc else nbyte = dwb desc"
  shows "\<exists>w'. mam_write z desc ctx data nbyte a burst sync sel w = Some (OSD_OK, w') \<and> P w' \<and> mem w' =
     apply_req \<lparr>rq_we = True, rq_burst = burst, rq_sync = sync, rq_sel = sel, rq_addr = unat a, rq_data = take nbyte data\<rparr> (mem w)"
proof -
  note V' = valid_mem_facts [OF V]
  let ?t = "mk_transfer (awb desc) True burst sync sel a (take nbyte data)"
  let ?r = "\<lparr>rq_we = True, rq_burst = burst, rq_sync = sync, rq_sel = sel, rq_addr = unat a, rq_data = take nbyte data\<rparr>"
  have "dwb desc dvd nbyte" using n(2) by auto
  then have ev: "even nbyte" using V'(5) by (metis dvd_trans)
  have len: "length ?t = 2 + awb desc + nbyte" using n(3) by (simp add: mk_transfer_def)
  have t: "even (length ?t)" "length ?t < 2 ^ 31" "?t \<noteq> []"
    using len ev V' n(4) by (simp_all add: mk_transfer_def)
  have "burst \<Longrightarrow> sel \<noteq> 0"
    using s n(1) \<open>dwb desc dvd nbyte\<close> by (auto elim!: dvdE)
  then have tr: "create_mam_transfer desc data nbyte a True burst sync (ucast sel) = Some ?t"
    using V' a n s by (intro create_mam_transfer_eq) (auto split: if_splits)
  have R: "ready ctx" using D(1) by (simp add: mam_device_def)
  note send = send_mam_transfer_eq [OF R V'(9) t, of z w]
  let ?ps = "transfer_packets desc ctx ?t"
  have r: "parse_transfer (awb desc) (packet_bytes ?ps) = ?r"
    using transfer_packets_bytes [OF t(1)] parse_mk_transfer [OF a(1)] by simp
  have "length (rq_data ?r) = req_bytes (dwb desc) ?r"
    using s n(3) \<open>dwb desc dvd nbyte\<close> by (simp add: req_bytes_def split: if_splits)
  then obtain w1 where w1: "send_all z (map req_msg ?ps) w = (OSD_OK, w1)"
    and post: "if sync
            then \<exists>ack w2. packet_wf ack \<and> zmsg_recv z Inproc_main w1 = (Received (req_msg ack), w2)
                   \<and> P w2 \<and> mem w2 = apply_req ?r (mem w)
            else P w1 \<and> mem w1 = apply_req ?r (mem w)"
    using mam_device_write [OF D mam_packets_transfer [OF t(1)] _ r] transfer_packets_bytes [OF t(1)] len by auto
  show ?thesis
  proof (cases sync)
    case True
    with post obtain ack w2 where "packet_wf ack" "zmsg_recv z Inproc_main w1 = (Received (req_msg ack), w2)"
      "P w2" "mem w2 = apply_req ?r (mem w)" by auto
    then show ?thesis
      using True tr send w1 R receive_packet_msg [of z w1 ack w2 ctx OSD_HOSTMOD_BLOCKING]
      by (simp add: mam_write_def osd_hostmod_event_receive_def ready_def)
  next
    case False
    then show ?thesis using tr send w1 post by (simp add: mam_write_def)
  qed
qed

lemma foldl_or_bits:
  "bit (foldl (\<lambda>bs i. if Q i then bs OR push_bit i (1 :: u8) else bs) b is) j \<longleftrightarrow>
     bit b j \<or> (j < 8 \<and> j \<in> set is \<and> Q j)"
  by (induction "is" arbitrary: b) (auto simp: bit_simps)

lemma bit_byte_select: "dw \<le> 8 \<Longrightarrow> bit (byte_select_mask b n dw) j \<longleftrightarrow> j < dw \<and> b \<le> j \<and> j < b + n"
  by (auto simp: byte_select_mask_def foldl_or_bits)

lemma align_eq:
  assumes "b + n \<le> dw" "dw \<le> 8" "0 < n" "n \<le> length data"
  shows "align_data_to_word b data n dw =
     Some (replicate b 0 @ take n data @ replicate (dw - b - n) 0, byte_select_mask b n dw)"
proof -
  have "bit (byte_select_mask b n dw) b" using assms by (simp add: bit_byte_select)
  then have "byte_select_mask b n dw \<noteq> 0" by auto
  then show ?thesis using assms by (simp add: align_data_to_word_def Let_def)
qed

lemma apply_single:
  assumes "b + n \<le> dw" "dw \<le> 8" "n \<le> length data"
  shows "apply_req \<lparr>rq_we = True, rq_burst = False, rq_sync = sync, rq_sel = byte_select_mask b n dw, rq_addr = a,
       rq_data = replicate b 0 @ take n data @ replicate (dw - b - n) 0\<rparr> m = mem_update m (a + b) (take n data)"
  using assms by (intro ext) (auto simp: apply_req_def mem_update_def bit_byte_select nth_append)

lemma unat_aligned:
  fixes a :: u64
  shows "unat (a - of_nat (unat a mod d)) = unat a - unat a mod d"
proof -
  have "unat (of_nat (unat a mod d) :: u64) = unat a mod d"
    using unsigned_less [of a, where ?'a = nat] mod_less_eq_dividend [of "unat a" d]
    by (intro unat_of_nat_u64 le_less_trans [OF mod_less_eq_dividend]) simp
  then show ?thesis by (simp add: unat_sub_if' )
qed

lemma write_single_device:
  assumes V: "valid_mem desc" and D: "mam_device z desc ctx mem P" "P w"
    and a: "unat a < 2 ^ (8 * awb desc)"
    and n: "0 < n" "unat a mod dwb desc + n \<le> dwb desc" "n \<le> length data"
  shows "\<exists>w'. write_single z desc ctx data n a sync w = Some (OSD_OK, w') \<and> P w'
     \<and> mem w' = mem_update (mem w) (unat a) (take n data)"
proof -
  note V' = valid_mem_facts [OF V]
  let ?dw = "dwb desc" let ?b = "unat a mod ?dw" let ?a0 = "a - of_nat ?b"
  let ?word = "replicate ?b 0 @ take n data @ replicate (?dw - ?b - n) (0 :: u8)"
  have "?b < 256" using V'(1,4) mod_less_divisor [of ?dw "unat a"] by linarith
  then have b: "?b mod 256 = ?b" by (rule mod_less)
  have al: "align_data_to_word ?b data n ?dw = Some (?word, byte_select_mask ?b n ?dw)"
    using n V'(4) by (intro align_eq) auto
  have a0: "unat ?a0 = unat a - ?b" "unat a - ?b + ?b = unat a"
    using unat_aligned [of a ?dw] mod_less_eq_dividend [of "unat a" ?dw] by simp_all
  have "?dw dvd unat a - ?b" by (simp add: dvd_minus_mod)
  then have "awb desc dvd unat ?a0" using V'(7) a0 by (metis dvd_trans)
  then have "\<exists>w'. mam_write z desc ctx ?word ?dw ?a0 False sync (byte_select_mask ?b n ?dw) w = Some (OSD_OK, w') \<and> P w'
     \<and> mem w' = apply_req \<lparr>rq_we = True, rq_burst = False, rq_sync = sync, rq_sel = byte_select_mask ?b n ?dw,
          rq_addr = unat ?a0, rq_data = take ?dw ?word\<rparr> (mem w)"
    using V V' D a a0 n by (intro mam_write_device) auto
  moreover have "take ?dw ?word = ?word" using n by simp
  ultimately show ?thesis
    using al apply_single [of ?b n ?dw data sync "unat ?a0" "mem w"] n V'(1,4) a0
    by (simp add: write_single_def dwb_def [symmetric] Let_def b)
qed


text \<open>Position \<open>t * B\<close> of a range of \<open>nbyte\<close> bytes that is cut into pieces of \<open>B\<close> bytes.\<close>

lemma piece_facts:
  fixes a :: u64 and desc
  defines "B \<equiv> 255 * dwb desc"
  assumes V: "valid_mem desc" and n: "t * B < nbyte" "nbyte < 2 ^ 32" "dwb desc dvd nbyte"
    and a: "unat a + nbyte \<le> 2 ^ (8 * awb desc)" "awb desc dvd unat a"
  shows "(t * B) mod 2 ^ 32 = t * B" "unat (a + of_nat (t * B)) = unat a + t * B"
    "unat a + t * B < 2 ^ (8 * awb desc)" "awb desc dvd unat a + t * B"
    "dwb desc dvd min B (nbyte - t * B)" "min B (nbyte - t * B) div dwb desc < 256"
    "min B (nbyte - t * B) \<noteq> 0" "min B (nbyte - t * B) < 2 ^ 30"
proof -
  note V' = valid_mem_facts [OF V]
  show "(t * B) mod 2 ^ 32 = t * B" using n by simp
  have lt: "unat a + t * B < 2 ^ (8 * awb desc)" using n(1) a(1) by linarith
  then show "unat a + t * B < 2 ^ (8 * awb desc)" .
  have "t * B < 2 ^ 64" using n(1,2) by simp
  then have "unat (of_nat (t * B) :: u64) = t * B" by (rule unat_of_nat_u64)
  moreover have "unat a + t * B < 2 ^ 64" using lt V'(8) by linarith
  ultimately show "unat (a + of_nat (t * B)) = unat a + t * B"
    by (simp only: unat_word_ariths(1)) simp
  show "awb desc dvd unat a + t * B" using a(2) V'(7) by (simp add: B_def dvd_add dvd_mult)
  have d: "dwb desc dvd t * B" "dwb desc dvd B" by (simp_all add: B_def)
  show "dwb desc dvd min B (nbyte - t * B)" using d n(3) by (simp add: min_def dvd_diff_nat)
  have "min B (nbyte - t * B) div dwb desc \<le> B div dwb desc" by (intro div_le_mono) simp
  also have "\<dots> = 255" using V'(1) by (simp add: B_def)
  finally show "min B (nbyte - t * B) div dwb desc < 256" by simp
  show "min B (nbyte - t * B) \<noteq> 0" using n(1) V'(1) by (simp add: B_def)
  have "B \<le> 255 * 8" using V'(4) by (simp add: B_def)
  then show "min B (nbyte - t * B) < 2 ^ 30" by simp
qed


lemma range_piece:
  fixes data :: "u8 list"
  assumes "nbyte \<le> length data" "p < nbyte"
  shows "take (min B (nbyte - p)) (drop p data) @ drop (p + B) (take nbyte data) = drop p (take nbyte data)"
proof -
  have "drop p (take nbyte data) = take B (drop p (take nbyte data)) @ drop B (drop p (take nbyte data))"
    by (rule append_take_drop_id [symmetric])
  moreover have "take B (drop p (take nbyte data)) = take (min B (nbyte - p)) (drop p data)"
    by (simp add: drop_take)
  ultimately show ?thesis by (simp add: add.commute)
qed

lemma write_burst_loop_device:
  fixes a :: u64 and desc
  defines "B \<equiv> 255 * dwb desc"
  assumes V: "valid_mem desc" and D: "mam_device z desc ctx mem P"
    and n: "nbyte < 2 ^ 32" "dwb desc dvd nbyte" "nbyte \<le> length data"
    and a: "unat a + nbyte \<le> 2 ^ (8 * awb desc)" "awb desc dvd unat a"
    and N: "nbyte \<le> N * B" "\<And>t. t < N \<Longrightarrow> t * B < nbyte"
  shows "t + k = N \<Longrightarrow> P w \<Longrightarrow>
     \<exists>w'. write_burst_loop z desc ctx data nbyte a sync N t k w = Some (OSD_OK, w') \<and> P w'
       \<and> mem w' = mem_update (mem w) (unat a + t * B) (drop (t * B) (take nbyte data))"
proof (induction k arbitrary: t w)
  case 0
  then show ?case using N(1) by simp
next
  case (Suc k)
  have t: "t * B < nbyte" using N(2) [of t] Suc.prems by simp
  note pf = piece_facts [OF V t [unfolded B_def] n(1,2) a, folded B_def]
  let ?p = "t * B" let ?s = "min B (nbyte - ?p)"
  have sz: "(if ?p + B > nbyte then nbyte else ?p + B) - ?p = ?s" using t by auto
  have le: "?p \<le> (if ?p + B > nbyte then nbyte else ?p + B) \<and> ?p \<le> length data" using t n(3) by auto
  have us: "unat (of_nat (?s div dwb desc) :: u8) = ?s div dwb desc" using pf(6) by (rule unat_of_nat_u8)
  let ?sy = "sync \<and> t = N - 1"
  have "\<exists>w'. mam_write z desc ctx (drop ?p data) ?s (a + of_nat ?p) True ?sy (of_nat (?s div dwb desc)) w = Some (OSD_OK, w')
      \<and> P w' \<and> mem w' = apply_req \<lparr>rq_we = True, rq_burst = True, rq_sync = ?sy, rq_sel = of_nat (?s div dwb desc),
          rq_addr = unat (a + of_nat ?p), rq_data = take ?s (drop ?p data)\<rparr> (mem w)"
    using pf n(3) Suc.prems(2) us by (intro mam_write_device [OF V D]) auto
  then obtain w1 where w1: "mam_write z desc ctx (drop ?p data) ?s (a + of_nat ?p) True ?sy (of_nat (?s div dwb desc)) w = Some (OSD_OK, w1)"
    "P w1" "mem w1 = mem_update (mem w) (unat a + ?p) (take ?s (drop ?p data))"
    by (auto simp: apply_burst pf(2) simp del: of_nat_mult)
  have "write_burst_loop z desc ctx data nbyte a sync N t (Suc k) w =
      write_burst_loop z desc ctx data nbyte a sync N (Suc t) k w1"
    using w1(1) unfolding write_burst_loop.simps Let_def MAM_MAX_BURST_WORDS_def dwb_def [symmetric]
      B_def [symmetric] pf(1) sz by (simp add: le)
  moreover obtain w' where "write_burst_loop z desc ctx data nbyte a sync N (Suc t) k w1 = Some (OSD_OK, w')" "P w'"
    "mem w' = mem_update (mem w1) (unat a + Suc t * B) (drop (Suc t * B) (take nbyte data))"
    using Suc.IH [of "Suc t" w1] Suc.prems(1) w1(2) by auto
  moreover have "mem_update (mem w1) (unat a + Suc t * B) (drop (Suc t * B) (take nbyte data))
      = mem_update (mem w) (unat a + ?p) (drop ?p (take nbyte data))"
  proof (cases "?p + B \<le> nbyte")
    case True
    then have "length (take ?s (drop ?p data)) = B" using n(3) by simp
    then show ?thesis
      using range_piece [OF n(3) t, of B] mem_update_append [of "mem w" "unat a + ?p" "take ?s (drop ?p data)"]
      by (simp add: w1(3) algebra_simps)
  next
    case False
    then have "drop (Suc t * B) (take nbyte data) = []" by simp
    then show ?thesis
      using range_piece [OF n(3) t, of B] by (simp add: w1(3) add.commute)
  qed
  ultimately show ?case by simp
qed

lemma num_transfers:
  assumes "0 < n" "n < 2 ^ 32" "0 < B"
  shows "INT_DIV_CEIL n B mod 2 ^ 32 = Suc ((n - 1) div B)" "n \<le> Suc ((n - 1) div B) * B"
    "t < Suc ((n - 1) div B) \<Longrightarrow> t * B < n"
proof -
  have "(n - 1) div B \<le> n - 1" by simp
  then have "Suc ((n - 1) div B) < 2 ^ 32" using assms(1,2) by linarith
  then show "INT_DIV_CEIL n B mod 2 ^ 32 = Suc ((n - 1) div B)" using assms by (simp add: INT_DIV_CEIL_def)
  have "n - 1 < Suc ((n - 1) div B) * B" using assms(3) dividend_less_div_times [of B "n - 1"] by (simp add: mult.commute)
  then show "n \<le> Suc ((n - 1) div B) * B" by linarith
  assume "t < Suc ((n - 1) div B)"
  then have "t * B \<le> (n - 1) div B * B" by simp
  also have "\<dots> \<le> n - 1" by simp
  finally show "t * B < n" using assms(1) by linarith
qed

lemma write_burst_device:
  fixes a :: u64
  assumes V: "valid_mem desc" and D: "mam_device z desc ctx mem P" "P w"
    and n: "0 < nbyte" "nbyte < 2 ^ 32" "dwb desc dvd nbyte" "nbyte \<le> length data"
    and a: "unat a + nbyte \<le> 2 ^ (8 * awb desc)" "awb desc dvd unat a"
  shows "\<exists>w'. write_burst z desc ctx data nbyte a sync w = Some (OSD_OK, w') \<and> P w'
     \<and> mem w' = mem_update (mem w) (unat a) (take nbyte data)"
proof -
  note V' = valid_mem_facts [OF V]
  let ?B = "255 * dwb desc"
  have B: "0 < ?B" using V'(1) by simp
  note N = num_transfers [OF n(1,2) B]
  have "\<exists>w'. write_burst_loop z desc ctx data nbyte a sync (Suc ((nbyte - 1) div ?B)) 0 (Suc ((nbyte - 1) div ?B)) w
      = Some (OSD_OK, w') \<and> P w' \<and> mem w' = mem_update (mem w) (unat a + 0 * ?B) (drop (0 * ?B) (take nbyte data))"
    using N(2,3) D(2) by (intro write_burst_loop_device [OF V D(1) n(2-4) a]) simp_all
  then show ?thesis
    using V'(1,2) n(3) a(2) N(1)
    unfolding write_burst_def Let_def MAM_MAX_BURST_WORDS_def dwb_def [symmetric] awb_def [symmetric]
    by (simp add: dvd_eq_mod_eq_0 del: write_burst_loop.simps)
qed

section \<open>Splitting a range\<close>

lemma prolog_aligns:
  fixes a :: u64
  assumes "dw \<in> {2, 4, 8}"
  shows "(unat a + unat (of_nat dw - a) mod dw) mod dw = 0"
proof -
  have "dw dvd 2 ^ 64" using assms by auto
  have "unat (of_nat dw :: u64) = dw" using assms by auto
  then have "unat (of_nat dw - a) = (if unat a \<le> dw then dw - unat a else dw + 2 ^ 64 - unat a)"
    by (simp add: unat_sub_if')
  then have "unat a + unat (of_nat dw - a) = (if unat a \<le> dw then dw else dw + 2 ^ 64)"
    using unsigned_less [of a, where ?'a = nat] by simp
  then have "(unat a + unat (of_nat dw - a)) mod dw = 0" using \<open>dw dvd 2 ^ 64\<close> by (simp add: mod_eq_0_iff_dvd)
  then show ?thesis by (simp add: mod_add_right_eq)
qed

lemma calculate_parts_eq:
  fixes a :: u64
  assumes "dw \<in> {2, 4, 8}" "dw \<le> n" "unat a + n < 2 ^ 64"
  obtains p b e where "calculate_parts a n dw = Some (p, b, e)" "p + b + e = n" "p < dw" "e < dw"
    "dw dvd b" "dw dvd unat a + p" "p = 0 \<or> unat a mod dw + p = dw"
proof -
  define p where "p = unat (of_nat dw - a) mod dw"
  define e where "e = (unat a + n) mod dw"
  have dw: "0 < dw" using assms(1) by auto
  have lt: "p < dw" "e < dw" using dw by (simp_all add: p_def e_def)
  have al: "dw dvd unat a + p"
    using prolog_aligns [OF assms(1), of a] by (simp add: p_def mod_eq_0_iff_dvd)
  have "unat (of_nat n :: u64) = n" using assms(3) by (intro unat_of_nat_u64) simp
  then have e: "unat (a + of_nat n) mod dw = e"
    using assms(3) by (simp add: e_def unat_word_ariths)
  obtain q where q: "unat a + p = dw * q" using al by (auto elim: dvdE)
  have pn: "p \<le> n" using lt assms(2) by linarith
  have "unat a + n = dw * q + (n - p)" using q pn by linarith
  then have "e = (n - p) mod dw" by (simp add: e_def)
  then have en: "e \<le> n - p" "dw dvd n - p - e" using dvd_minus_mod [of dw "n - p"] by simp_all
  have "unat (of_nat n - of_nat p - of_nat e :: u64) = n - p - e"
  proof -
    have "(of_nat n - of_nat p - of_nat e :: u64) = of_nat (n - p - e)" using en(1) pn by (simp add: of_nat_diff)
    moreover have "n - p - e < 2 ^ 64" using assms(3) by linarith
    ultimately show ?thesis using unat_of_nat_u64 by metis
  qed
  then have "calculate_parts a n dw = Some (p, n - p - e, e)"
    using assms(2) dw e by (simp add: calculate_parts_def Let_def p_def [symmetric])
  moreover have "p = 0 \<or> unat a mod dw + p = dw"
  proof -
    have "(unat a mod dw + p) mod dw = 0" using al by (simp add: mod_add_left_eq mod_eq_0_iff_dvd)
    moreover have "unat a mod dw + p < 2 * dw" using lt(1) mod_less_divisor [OF dw, of "unat a"] by linarith
    moreover obtain c where "unat a mod dw + p = dw * c" using calculation(1) by (auto simp: mod_eq_0_iff_dvd elim: dvdE)
    ultimately have "unat a mod dw + p = dw * c" "c < 2" by (simp_all add: mult.commute)
    then show ?thesis by (auto simp: less_2_cases_iff)
  qed
  ultimately show thesis using that [of p "n - p - e" e] en pn lt al by simp
qed


text \<open>
  The ranges for which a write does not run into the assertion of single-word transfers: at
  least one word long, or within one word.
\<close>

definition range_ok :: "osd_mem_desc \<Rightarrow> u64 \<Rightarrow> nat \<Rightarrow> bool" where
  "range_ok desc a n \<longleftrightarrow> n < 2 ^ 32 \<and> unat a + n < 2 ^ (8 * awb desc)
     \<and> (dwb desc \<le> n \<or> unat a mod dwb desc + n \<le> dwb desc)"

lemma unat_add_of_nat:
  fixes a :: u64
  assumes "unat a + k < 2 ^ 64"
  shows "unat (a + of_nat k) = unat a + k"
  using assms unat_of_nat_u64 [of k] by (simp add: unat_word_ariths)

lemma mam_write_device_all:
  assumes V: "valid_mem desc" and D: "mam_device z desc ctx mem P" "P w"
    and r: "range_ok desc a n" "n \<le> length data"
  shows "\<exists>w'. osd_cl_mam_write z desc ctx data n a w = Some (OSD_OK, w') \<and> P w'
     \<and> mem w' = mem_update (mem w) (unat a) (take n data)"
proof (cases "n < dwb desc")
  case True
  note V' = valid_mem_facts [OF V]
  have parts: "calculate_parts a n (dwb desc) = Some (n, 0, 0)" using True by (simp add: calculate_parts_def)
  show ?thesis
  proof (cases "n = 0")
    case True
    then show ?thesis using parts V'(1) D(2) by (simp add: osd_cl_mam_write_def dwb_def [symmetric])
  next
    case False
    then obtain w' where "write_single z desc ctx data n a True w = Some (OSD_OK, w')" "P w'"
      "mem w' = mem_update (mem w) (unat a) (take n data)"
      using write_single_device [OF V D, of a n data True] r True by (auto simp: range_ok_def)
    then show ?thesis using parts V'(1) False r(2) by (simp add: osd_cl_mam_write_def dwb_def [symmetric])
  qed
next
  case False
  note V' = valid_mem_facts [OF V]
  have b: "n < 2 ^ 32" "unat a + n < 2 ^ (8 * awb desc)" "unat a + n < 2 ^ 64"
    using r(1) V'(8) by (auto simp: range_ok_def intro: less_le_trans)
  obtain p b e where parts: "calculate_parts a n (dwb desc) = Some (p, b, e)" and n: "p + b + e = n"
    and lt: "p < dwb desc" "e < dwb desc" and al: "dwb desc dvd b" "dwb desc dvd unat a + p"
    and p: "p = 0 \<or> unat a mod dwb desc + p = dwb desc"
    using calculate_parts_eq [of "dwb desc" n a] V False b(3) by (auto simp: valid_mem_def)
  have u1: "unat (a + of_nat p) = unat a + p" using b(3) n by (intro unat_add_of_nat) simp
  have u2: "unat (a + of_nat p + of_nat b) = unat a + p + b"
    using b(3) n u1 unat_add_of_nat [of "a + of_nat p" b] by simp
  have a2: "(unat a + p + b) mod dwb desc = 0" using al by (simp add: mod_eq_0_iff_dvd dvd_add)
  obtain w1 where w1: "(if p \<noteq> 0 then write_single z desc ctx data p a (b = 0 \<and> e = 0) w else Some (OSD_OK, w)) = Some (OSD_OK, w1)"
    "P w1" "mem w1 = mem_update (mem w) (unat a) (take p data)"
    using write_single_device [OF V D, of a p data "b = 0 \<and> e = 0"] p b(2) n r(2) D(2) by (cases "p = 0") auto
  have bl: "b \<le> length (drop p data)" "e \<le> length (drop (p + b) data)" using n r(2) by auto
  have "awb desc dvd unat a + p" using al(2) V'(7) by (rule dvd_trans [rotated])
  then obtain w2 where w2: "(if b \<noteq> 0 then write_burst z desc ctx (drop p data) b (a + of_nat p) (e = 0) w1 else Some (OSD_OK, w1)) = Some (OSD_OK, w2)"
    "P w2" "mem w2 = mem_update (mem w1) (unat a + p) (take b (drop p data))"
    using write_burst_device [OF V D(1) w1(2), of b "drop p data" "a + of_nat p" "e = 0"] b n bl(1) al(1) u1 w1(2)
    by (cases "b = 0") auto
  obtain w3 where w3: "(if e \<noteq> 0 then write_single z desc ctx (drop (p + b) data) e (a + of_nat p + of_nat b) True w2
      else Some (OSD_OK, w2)) = Some (OSD_OK, w3)" "P w3"
    "mem w3 = mem_update (mem w2) (unat a + p + b) (take e (drop (p + b) data))"
    using write_single_device [OF V D(1) w2(2), of "a + of_nat p + of_nat b" e "drop (p + b) data" True] lt b n bl(2) u2 a2 w2(2)
    by (cases "e = 0") auto
  have "take n data = take p data @ take b (drop p data) @ take e (drop (p + b) data)"
    unfolding n [symmetric] take_add by (simp add: add.commute)
  moreover have "length (take p data) = p" "length (take b (drop p data)) = b" using n r(2) by simp_all
  ultimately have "mem w3 = mem_update (mem w) (unat a) (take n data)"
    using w1(3) w2(3) w3(3) mem_update_append [of "mem w" "unat a" "take p data"]
      mem_update_append [of "mem w1" "unat a + p" "take b (drop p data)"] by simp
  moreover have "osd_cl_mam_write z desc ctx data n a w = Some (OSD_OK, w3)"
    unfolding osd_cl_mam_write_def Let_def dwb_def [symmetric] parts
    using V'(1) w1(1) w2(1) w3(1) n r(2) by (simp del: if_split)
  ultimately show ?thesis using w3(2) by blast
qed


section \<open>Reads\<close>

lemma be_bytes_masked: "[ucast (drop_bit 8 x AND 0xFF), ucast (x AND 0xFF)] = be16_bytes x"
proof -
  have m: "(0xFF :: u16) = mask 8" by (simp add: mask_eq_exp_minus_1)
  show ?thesis unfolding m be16_bytes_def by (auto intro!: bit_word_eqI simp: bit_simps)
qed

lemma list_update_two:
  "pos + 1 < length xs \<Longrightarrow> xs[pos := x, pos + 1 := y] = take pos xs @ [x, y] @ drop (pos + 2) xs"
  by (simp add: upd_conv_take_nth_drop list_update_append drop_Suc numeral_2_eq_2)

lemma store_be_eq:
  "i + k \<le> length (payload_of p) \<Longrightarrow> pos + 2 * k \<le> length data \<Longrightarrow>
   store_be p i k data pos = Some (take pos data @ enc_words be16_bytes (take k (drop i (payload_of p))) @ drop (pos + 2 * k) data)"
proof (induction k arbitrary: i data pos)
  case (Suc k)
  let ?x = "payload_of p ! i"
  have x: "packet_payload p i = Some ?x" using Suc.prems(1) by (simp add: packet_payload_nth)
  obtain c d where cd: "ucast (drop_bit 8 ?x AND 0xFF) = c" "ucast (?x AND 0xFF) = d" "be16_bytes ?x = [c, d]"
    using be_bytes_masked [of ?x] by metis
  let ?data = "data[pos := c, pos + 1 := d]"
  have upd: "?data = take pos data @ [c, d] @ drop (pos + 2) data"
    using Suc.prems(2) by (intro list_update_two) simp
  have "store_be p (Suc i) k ?data (pos + 2) = Some (take (pos + 2) ?data
      @ enc_words be16_bytes (take k (drop (Suc i) (payload_of p))) @ drop (pos + 2 + 2 * k) ?data)"
    using Suc.prems by (intro Suc.IH) simp_all
  moreover have "take (pos + 2) ?data = take pos data @ [c, d]" using Suc.prems(2) unfolding upd by simp
  moreover have "drop (pos + 2 + 2 * k) ?data = drop (pos + 2 * Suc k) data"
    by (simp add: drop_update_cancel)
  moreover have "take (Suc k) (drop i (payload_of p)) = ?x # take k (drop (Suc i) (payload_of p))"
    using Suc.prems(1) Cons_nth_drop_Suc [of i "payload_of p", symmetric] by simp
  ultimately have "store_be p (Suc i) k ?data (pos + 2) = Some (take pos data
      @ enc_words be16_bytes (take (Suc k) (drop i (payload_of p))) @ drop (pos + 2 * Suc k) data)"
    using cd(3) by simp
  then show ?case unfolding store_be.simps x cd(1,2) bind.simps using Suc.prems(2) by simp
qed simp

lemma mam_read_loop_eq:
  assumes "hm_ioworker_ctx ctx"
  shows "rs \<noteq> [] \<Longrightarrow> \<forall>p \<in> set rs. packet_wf p \<and> payload_of p \<noteq> [] \<Longrightarrow> recv_seq z w (map req_msg rs) w'
     \<Longrightarrow> rx + length (packet_bytes rs) = n \<Longrightarrow> off + n \<le> length data
     \<Longrightarrow> mam_read_loop z ctx data off n rx w =
       Some (OSD_OK, take (off + rx) data @ packet_bytes rs @ drop (off + n) data, w')"
proof (induction rs arbitrary: data rx w)
  case (Cons p rs)
  let ?k = "length (payload_of p)" let ?bs = "enc_words be16_bytes (payload_of p)"
  from Cons.prems(3) obtain w1 where w1: "zmsg_recv z Inproc_main w = (Received (req_msg p), w1)"
    "recv_seq z w1 (map req_msg rs) w'" by auto
  have wf: "packet_wf p" "payload_of p \<noteq> []" using Cons.prems(2) by auto
  have recv: "osd_hostmod_event_receive z ctx OSD_HOSTMOD_BLOCKING w = Some (Inr p, w1)"
    unfolding osd_hostmod_event_receive_def using w1(1) wf(1) assms by (rule receive_packet_msg)
  have lb: "length ?bs = 2 * ?k" by (rule be.length_enc_words)
  have sz: "osd_packet_sizeconv_data2payload (unat (data_size_words p)) = Some ?k"
    using wf_size [OF wf(1)] by (simp add: osd_packet_sizeconv_data2payload_def pkt_consts)
  let ?data = "take (off + rx) data @ ?bs @ drop (off + rx + 2 * ?k) data"
  have st: "store_be p 0 ?k data (off + rx) = Some ?data"
    using store_be_eq [of 0 ?k p "off + rx" data] Cons.prems(4,5) lb by simp
  have step: "mam_read_loop z ctx data off n rx w =
      (if rx + 2 * ?k < n then mam_read_loop z ctx ?data off n (rx + 2 * ?k) w1 else Some (OSD_OK, ?data, w1))"
    by (subst mam_read_loop.simps) (simp only: recv sz st Let_def bind.simps prod.case sum.case)
  show ?case
  proof (cases rs)
    case Nil
    then show ?thesis using step w1(2) Cons.prems(4) lb by (simp add: add.assoc)
  next
    case (Cons q qs)
    have "payload_of q \<noteq> []" using Cons.prems(2) Cons by simp
    then have "0 < length (packet_bytes rs)" using Cons by (simp add: be.length_enc_words)
    moreover have "rx + 2 * ?k + length (packet_bytes rs) = n" using Cons.prems(4) lb by simp
    ultimately have more: "rx + 2 * ?k < n" "rx + 2 * ?k + length (packet_bytes rs) = n" by linarith+
    have "mam_read_loop z ctx ?data off n (rx + 2 * ?k) w1 =
        Some (OSD_OK, take (off + (rx + 2 * ?k)) ?data @ packet_bytes rs @ drop (off + n) ?data, w')"
      using Cons Cons.prems w1(2) more lb by (intro Cons.IH) simp_all
    moreover have "take (off + (rx + 2 * ?k)) ?data = take (off + rx) data @ ?bs" "drop (off + n) ?data = drop (off + n) data"
      using Cons.prems(5) more lb by (simp_all add: add.assoc) (simp add: add.commute)
    ultimately show ?thesis using step more by simp
  qed
qed simp

definition patch :: "u8 list \<Rightarrow> nat \<Rightarrow> u8 list \<Rightarrow> u8 list" where
  "patch data off bs = take off data @ bs @ drop (off + length bs) data"

lemma length_patch [simp]: "off + length bs \<le> length data \<Longrightarrow> length (patch data off bs) = length data"
  by (simp add: patch_def)

lemma patch_Nil [simp]: "patch data off [] = data"
  by (simp add: patch_def)

lemma patch_append:
  "off + length bs \<le> length data \<Longrightarrow> patch (patch data off bs) (off + length bs) cs = patch data off (bs @ cs)"
  by (simp add: patch_def ac_simps)

lemma length_mem_range [simp]: "length (mem_range m a n) = n"
  by (simp add: mem_range_def)

lemma mem_range_append: "mem_range m a k @ mem_range m (a + k) l = mem_range m a (k + l)"
proof -
  have "[0..<k + l] = [0..<k] @ map (\<lambda>i. i + k) [0..<l]"
    using upt_add_eq_append [of 0 k l] by (simp add: map_add_upt add.commute)
  then show ?thesis by (simp add: mem_range_def comp_def ac_simps)
qed

lemma mam_read_device:
  assumes V: "valid_mem desc" and D: "mam_device z desc ctx mem P" "P w"
    and a: "unat a < 2 ^ (8 * awb desc)" "awb desc dvd unat a"
    and n: "n = (if burst then unat sel * dwb desc else dwb desc)" "n \<noteq> 0" "off + n \<le> length data"
  shows "\<exists>w'. mam_read z desc ctx data off n a burst sel w =
     Some (OSD_OK, patch data off (mem_range (mem w) (unat a) n), w') \<and> P w' \<and> mem w' = mem w"
proof -
  note V' = valid_mem_facts [OF V]
  let ?t = "mk_transfer (awb desc) False burst False sel a []"
  let ?r = "\<lparr>rq_we = False, rq_burst = burst, rq_sync = False, rq_sel = sel, rq_addr = unat a, rq_data = []\<rparr>"
  have len: "length ?t = 2 + awb desc" by (simp add: mk_transfer_def)
  have t: "even (length ?t)" "length ?t < 2 ^ 31" "?t \<noteq> []"
    using len V' by (simp_all add: mk_transfer_def)
  have "burst \<longrightarrow> sel \<noteq> 0" using n(1,2) by auto
  then have tr: "create_mam_transfer desc [] 0 a False burst False (ucast sel) = Some ?t"
    using V' a create_mam_transfer_eq [of desc a False 0 "[]" burst sel False] by (simp add: dvd_eq_mod_eq_0)
  have R: "ready ctx" using D(1) by (simp add: mam_device_def)
  note send = send_mam_transfer_eq [OF R V'(9) t, of z w]
  let ?ps = "transfer_packets desc ctx ?t"
  have r: "parse_transfer (awb desc) (packet_bytes ?ps) = ?r"
    using transfer_packets_bytes [OF t(1)] parse_mk_transfer [OF a(1)] by simp
  have l: "2 + awb desc \<le> length (packet_bytes ?ps)" using transfer_packets_bytes [OF t(1)] len by simp
  have rb: "mem_range (mem w) (rq_addr ?r) (req_bytes (dwb desc) ?r) = mem_range (mem w) (unat a) n"
    using n(1) by (simp add: req_bytes_def)
  have rq: "\<not> rq_we ?r" "rq_data ?r = []" by simp_all
  obtain w1 rs w2 where w1: "send_all z (map req_msg ?ps) w = (OSD_OK, w1)"
    and rs: "\<forall>p \<in> set rs. packet_wf p \<and> payload_of p \<noteq> []"
      "packet_bytes rs = mem_range (mem w) (unat a) n" "recv_seq z w1 (map req_msg rs) w2"
    and w2: "P w2" "mem w2 = mem w"
    using mam_device_read [OF D mam_packets_transfer [OF t(1)] l r rq] unfolding rb by blast
  have "rs \<noteq> []" using rs(2) n(2) by (auto simp: mem_range_def)
  then have "mam_read_loop z ctx data off n 0 w1 =
      Some (OSD_OK, take (off + 0) data @ packet_bytes rs @ drop (off + n) data, w2)"
    using R rs n(3) by (intro mam_read_loop_eq) (simp_all add: ready_def)
  then show ?thesis using tr send w1 rs(2) w2 by (simp add: mam_read_def patch_def)
qed

lemma read_single_device:
  assumes V: "valid_mem desc" and D: "mam_device z desc ctx mem P" "P w"
    and a: "unat a < 2 ^ (8 * awb desc)"
    and n: "0 < n" "unat a mod dwb desc + n \<le> dwb desc" "off + n \<le> length data"
  shows "\<exists>w'. read_single z desc ctx data off n a w =
     Some (OSD_OK, patch data off (mem_range (mem w) (unat a) n), w') \<and> P w' \<and> mem w' = mem w"
proof -
  note V' = valid_mem_facts [OF V]
  let ?dw = "dwb desc" let ?b = "unat a mod ?dw" let ?a0 = "a - of_nat ?b"
  let ?word = "replicate ?b 0 @ take n (drop off data) @ replicate (?dw - ?b - n) (0 :: u8)"
  have "?b < 256" using V'(1,4) mod_less_divisor [of ?dw "unat a"] by linarith
  then have b: "?b mod 256 = ?b" by (rule mod_less)
  have al: "align_data_to_word ?b (drop off data) n ?dw = Some (?word, byte_select_mask ?b n ?dw)"
    using n V'(4) by (intro align_eq) auto
  have a0: "unat ?a0 = unat a - ?b" "unat a - ?b + ?b = unat a"
    using unat_aligned [of a ?dw] mod_less_eq_dividend [of "unat a" ?dw] by simp_all
  have "?dw dvd unat a - ?b" by (simp add: dvd_minus_mod)
  then have d: "awb desc dvd unat ?a0" using V'(7) a0 by (metis dvd_trans)
  have wl: "length ?word = ?dw" using n by simp
  obtain w' where w': "mam_read z desc ctx ?word 0 ?dw ?a0 False (byte_select_mask ?b n ?dw) w =
      Some (OSD_OK, patch ?word 0 (mem_range (mem w) (unat ?a0) ?dw), w')" "P w'" "mem w' = mem w"
    using mam_read_device [OF V D _ d, of ?dw False "byte_select_mask ?b n ?dw" 0 ?word] a a0 V'(1) wl by auto
  have "patch ?word 0 (mem_range (mem w) (unat ?a0) ?dw) = mem_range (mem w) (unat ?a0) ?dw"
    using wl by (simp add: patch_def)
  moreover have "take n (drop ?b (mem_range (mem w) (unat ?a0) ?dw)) = mem_range (mem w) (unat a) n"
    using n(2) a0 by (intro nth_equalityI) (simp_all add: mem_range_def add.assoc [symmetric])
  ultimately show ?thesis
    using w' al n(3) V'(1) by (simp add: read_single_def dwb_def [symmetric] Let_def b patch_def)
qed

lemma read_burst_loop_device:
  fixes a :: u64 and desc
  defines "B \<equiv> 255 * dwb desc"
  assumes V: "valid_mem desc" and D: "mam_device z desc ctx mem P"
    and n: "nbyte < 2 ^ 32" "dwb desc dvd nbyte"
    and a: "unat a + nbyte \<le> 2 ^ (8 * awb desc)" "awb desc dvd unat a"
    and N: "nbyte \<le> N * B" "\<And>t. t < N \<Longrightarrow> t * B < nbyte"
  shows "t + k = N \<Longrightarrow> P w \<Longrightarrow> off + nbyte \<le> length data \<Longrightarrow>
     \<exists>w'. read_burst_loop z desc ctx data off nbyte a t k w =
       Some (OSD_OK, patch data (off + t * B) (mem_range (mem w) (unat a + t * B) (nbyte - t * B)), w')
       \<and> P w' \<and> mem w' = mem w"
proof (induction k arbitrary: t w data)
  case 0
  then have "mem_range (mem w) (unat a + t * B) (nbyte - t * B) = []" using N(1) by (simp add: mem_range_def)
  then show ?case using 0 by simp
next
  case (Suc k)
  have t: "t * B < nbyte" using N(2) [of t] Suc.prems by simp
  note pf = piece_facts [OF V t [unfolded B_def] n(1,2) a, folded B_def]
  let ?p = "t * B" let ?s = "min B (nbyte - ?p)"
  have sz: "(if ?p + B > nbyte then nbyte else ?p + B) - ?p = ?s" using t by auto
  have le: "?p \<le> (if ?p + B > nbyte then nbyte else ?p + B)" using t by auto
  have "unat (of_nat (?s div dwb desc) :: u8) = ?s div dwb desc" using pf(6) by (rule unat_of_nat_u8)
  then have us: "?s = unat (of_nat (?s div dwb desc) :: u8) * dwb desc" using pf(5) by simp
  let ?data = "patch data (off + ?p) (mem_range (mem w) (unat a + ?p) ?s)"
  obtain w1 where w1: "mam_read z desc ctx data (off + ?p) ?s (a + of_nat ?p) True (of_nat (?s div dwb desc)) w =
      Some (OSD_OK, ?data, w1)" "P w1" "mem w1 = mem w"
  proof -
    have "off + ?p + ?s \<le> length data" using Suc.prems(3) t by linarith
    with mam_read_device [OF V D Suc.prems(2), of "a + of_nat ?p" ?s True "of_nat (?s div dwb desc)" "off + ?p" data]
    show thesis using that pf(3,4,7) us unfolding pf(2) if_True by blast
  qed
  have "read_burst_loop z desc ctx data off nbyte a t (Suc k) w =
      read_burst_loop z desc ctx ?data off nbyte a (Suc t) k w1"
    using w1(1) unfolding read_burst_loop.simps Let_def MAM_MAX_BURST_WORDS_def dwb_def [symmetric]
      B_def [symmetric] pf(1) sz by (simp add: le)
  moreover have "length ?data = length data" using Suc.prems(3) t by simp
  then obtain w' where "read_burst_loop z desc ctx ?data off nbyte a (Suc t) k w1 =
      Some (OSD_OK, patch ?data (off + Suc t * B) (mem_range (mem w1) (unat a + Suc t * B) (nbyte - Suc t * B)), w')"
    "P w'" "mem w' = mem w"
    using Suc.IH [of "Suc t" w1 ?data] Suc.prems(1,3) w1(2,3) by auto
  moreover have "patch ?data (off + Suc t * B) (mem_range (mem w1) (unat a + Suc t * B) (nbyte - Suc t * B))
      = patch data (off + ?p) (mem_range (mem w) (unat a + ?p) (nbyte - ?p))"
  proof (cases "?p + B \<le> nbyte")
    case True
    then have s: "?s = B" and e: "Suc t * B = ?p + B" "nbyte - ?p = B + (nbyte - Suc t * B)" by auto
    show ?thesis
      unfolding w1(3) s e(2) mem_range_append [symmetric]
      using patch_append [of "off + ?p" "mem_range (mem w) (unat a + ?p) B" data
          "mem_range (mem w) (unat a + ?p + B) (nbyte - Suc t * B)"] True Suc.prems(3)
      by (simp add: ac_simps)
  next
    case False
    then have "mem_range (mem w1) (unat a + Suc t * B) (nbyte - Suc t * B) = []" "?s = nbyte - ?p"
      by (auto simp: mem_range_def)
    then show ?thesis by simp
  qed
  ultimately show ?case by simp
qed

lemma read_burst_device:
  fixes a :: u64
  assumes V: "valid_mem desc" and D: "mam_device z desc ctx mem P" "P w"
    and n: "0 < nbyte" "nbyte < 2 ^ 32" "dwb desc dvd nbyte" "off + nbyte \<le> length data"
    and a: "unat a + nbyte \<le> 2 ^ (8 * awb desc)" "awb desc dvd unat a"
  shows "\<exists>w'. read_burst z desc ctx data off nbyte a w =
     Some (OSD_OK, patch data off (mem_range (mem w) (unat a) nbyte), w') \<and> P w' \<and> mem w' = mem w"
proof -
  note V' = valid_mem_facts [OF V]
  let ?B = "255 * dwb desc"
  have B: "0 < ?B" using V'(1) by simp
  note N = num_transfers [OF n(1,2) B]
  have "\<exists>w'. read_burst_loop z desc ctx data off nbyte a 0 (Suc ((nbyte - 1) div ?B)) w
      = Some (OSD_OK, patch data (off + 0 * ?B) (mem_range (mem w) (unat a + 0 * ?B) (nbyte - 0 * ?B)), w')
        \<and> P w' \<and> mem w' = mem w"
    using N(2,3) D(2) n(4) by (intro read_burst_loop_device [OF V D(1) n(2,3) a]) simp_all
  then show ?thesis
    using V'(1,2) n(3) a(2) N(1)
    unfolding read_burst_def Let_def MAM_MAX_BURST_WORDS_def dwb_def [symmetric] awb_def [symmetric]
    by (simp add: dvd_eq_mod_eq_0 del: read_burst_loop.simps)
qed

lemma mam_read_device_all:
  assumes V: "valid_mem desc" and D: "mam_device z desc ctx mem P" "P w"
    and r: "range_ok desc a n" "n \<le> length data"
  shows "\<exists>w'. osd_cl_mam_read z desc ctx data n a w =
     Some (OSD_OK, patch data 0 (mem_range (mem w) (unat a) n), w') \<and> P w' \<and> mem w' = mem w"
proof (cases "n < dwb desc")
  case True
  note V' = valid_mem_facts [OF V]
  have parts: "calculate_parts a n (dwb desc) = Some (n, 0, 0)" using True by (simp add: calculate_parts_def)
  show ?thesis
  proof (cases "n = 0")
    case True
    then have "mem_range (mem w) (unat a) n = []" by (simp add: mem_range_def)
    then show ?thesis using True parts V'(1) D(2) by (simp add: osd_cl_mam_read_def dwb_def [symmetric])
  next
    case False
    then obtain w' where "read_single z desc ctx data 0 n a w =
        Some (OSD_OK, patch data 0 (mem_range (mem w) (unat a) n), w')" "P w'" "mem w' = mem w"
      using read_single_device [OF V D, of a n 0 data] r True by (auto simp: range_ok_def)
    then show ?thesis using parts V'(1) False r(2) by (simp add: osd_cl_mam_read_def dwb_def [symmetric])
  qed
next
  case False
  note V' = valid_mem_facts [OF V]
  have b: "n < 2 ^ 32" "unat a + n < 2 ^ (8 * awb desc)" "unat a + n < 2 ^ 64"
    using r(1) V'(8) by (auto simp: range_ok_def intro: less_le_trans)
  obtain p b e where parts: "calculate_parts a n (dwb desc) = Some (p, b, e)" and n: "p + b + e = n"
    and lt: "p < dwb desc" "e < dwb desc" and al: "dwb desc dvd b" "dwb desc dvd unat a + p"
    and p: "p = 0 \<or> unat a mod dwb desc + p = dwb desc"
    using calculate_parts_eq [of "dwb desc" n a] V False b(3) by (auto simp: valid_mem_def)
  have u1: "unat (a + of_nat p) = unat a + p" using b(3) n by (intro unat_add_of_nat) simp
  have u2: "unat (a + of_nat p + of_nat b) = unat a + p + b"
    using b(3) n u1 unat_add_of_nat [of "a + of_nat p" b] by simp
  have a2: "(unat a + p + b) mod dwb desc = 0" using al by (simp add: mod_eq_0_iff_dvd dvd_add)
  let ?m1 = "mem_range (mem w) (unat a) p" let ?m2 = "mem_range (mem w) (unat a + p) b"
  let ?m3 = "mem_range (mem w) (unat a + p + b) e"
  let ?d1 = "patch data 0 ?m1" let ?d2 = "patch ?d1 p ?m2" let ?d3 = "patch ?d2 (p + b) ?m3"
  have nil: "p = 0 \<Longrightarrow> ?m1 = []" "b = 0 \<Longrightarrow> ?m2 = []" "e = 0 \<Longrightarrow> ?m3 = []" by (simp_all add: mem_range_def)
  have len: "length ?d1 = length data" "length ?d2 = length data" using n r(2) by simp_all
  obtain w1 where w1: "(if p \<noteq> 0 then read_single z desc ctx data 0 p a w else Some (OSD_OK, data, w)) = Some (OSD_OK, ?d1, w1)"
    "P w1" "mem w1 = mem w"
    using read_single_device [OF V D, of a p 0 data] p b(2) n r(2) D(2) nil(1) by (cases "p = 0") auto
  have "awb desc dvd unat a + p" using al(2) V'(7) by (rule dvd_trans [rotated])
  then obtain w2 where w2: "(if b \<noteq> 0 then read_burst z desc ctx ?d1 p b (a + of_nat p) w1 else Some (OSD_OK, ?d1, w1)) = Some (OSD_OK, ?d2, w2)"
    "P w2" "mem w2 = mem w"
    using read_burst_device [OF V D(1) w1(2), of b p ?d1 "a + of_nat p"] b n r(2) len al(1) u1 w1(2,3) nil(2)
    by (cases "b = 0") auto
  obtain w3 where w3: "(if e \<noteq> 0 then read_single z desc ctx ?d2 (p + b) e (a + of_nat p + of_nat b) w2
      else Some (OSD_OK, ?d2, w2)) = Some (OSD_OK, ?d3, w3)" "P w3" "mem w3 = mem w"
    using read_single_device [OF V D(1) w2(2), of "a + of_nat p + of_nat b" e "p + b" ?d2] lt b n r(2) len u2 a2 w2(2,3) nil(3)
    by (cases "e = 0") auto
  have "?d3 = patch data 0 (mem_range (mem w) (unat a) n)"
  proof -
    have "?d2 = patch data 0 (?m1 @ ?m2)" using patch_append [of 0 ?m1 data ?m2] n r(2) by simp
    then have "?d3 = patch data 0 ((?m1 @ ?m2) @ ?m3)"
      using patch_append [of 0 "?m1 @ ?m2" data ?m3] n r(2) by simp
    then show ?thesis by (simp add: mem_range_append n [symmetric] add.assoc)
  qed
  moreover have "osd_cl_mam_read z desc ctx data n a w = Some (OSD_OK, ?d3, w3)"
    unfolding osd_cl_mam_read_def Let_def dwb_def [symmetric] parts
    using w1(1) w2(1) w3(1) by (simp del: if_split)
  ultimately show ?thesis using w3(2,3) by simp
qed

section \<open>The memory as a store of bytes\<close>

text \<open>
  The contract of the memory clients: a port through which byte ranges are read and written,
  where \<open>ok a n\<close> are the ranges it supports.
\<close>

locale byte_store =
  fixes rd :: "u8 list \<Rightarrow> nat \<Rightarrow> u64 \<Rightarrow> 'w \<Rightarrow> (osd_result \<times> u8 list \<times> 'w) option"
    and wr :: "u8 list \<Rightarrow> nat \<Rightarrow> u64 \<Rightarrow> 'w \<Rightarrow> (osd_result \<times> 'w) option"
    and mem :: "'w \<Rightarrow> nat \<Rightarrow> u8"
    and up :: "'w \<Rightarrow> bool"
    and ok :: "u64 \<Rightarrow> nat \<Rightarrow> bool"
  assumes read_law: "up w \<Longrightarrow> ok a n \<Longrightarrow> n \<le> length buf \<Longrightarrow>
       \<exists>w'. rd buf n a w = Some (OSD_OK, patch buf 0 (mem_range (mem w) (unat a) n), w') \<and> up w' \<and> mem w' = mem w"
    and write_law: "up w \<Longrightarrow> ok a n \<Longrightarrow> n \<le> length data \<Longrightarrow>
       \<exists>w'. wr data n a w = Some (OSD_OK, w') \<and> up w' \<and> mem w' = mem_update (mem w) (unat a) (take n data)"
begin

lemma mem_range_update_same: "mem_range (mem_update m a xs) a (length xs) = xs"
  by (rule nth_equalityI) (simp_all add: mem_range_def mem_update_def)

lemma mem_range_update_disjoint:
  "b + n \<le> a \<or> a + length xs \<le> b \<Longrightarrow> mem_range (mem_update m a xs) b n = mem_range m b n"
  by (auto simp: mem_range_def mem_update_def)

lemma write_then_read:
  assumes "up w" "ok a (length data)" "length buf = length data"
  shows "\<exists>w' w''. wr data (length data) a w = Some (OSD_OK, w') \<and> rd buf (length data) a w' = Some (OSD_OK, data, w'')
     \<and> up w'' \<and> mem w'' = mem_update (mem w) (unat a) data"
proof -
  obtain w1 where w1: "wr data (length data) a w = Some (OSD_OK, w1)" "up w1" "mem w1 = mem_update (mem w) (unat a) data"
    using write_law [OF assms(1,2), of data] by auto
  obtain w2 where "rd buf (length data) a w1 = Some (OSD_OK, patch buf 0 (mem_range (mem w1) (unat a) (length data)), w2)"
    "up w2" "mem w2 = mem w1"
    using read_law [OF w1(2) assms(2), of buf] assms(3) by auto
  then show ?thesis using w1 assms(3) by (simp add: mem_range_update_same patch_def)
qed

lemma write_keeps_elsewhere:
  assumes "up w" "ok a (length data)" "ok b n" "n = length buf"
    and "unat b + n \<le> unat a \<or> unat a + length data \<le> unat b"
  shows "\<exists>w' w''. wr data (length data) a w = Some (OSD_OK, w')
     \<and> rd buf n b w' = Some (OSD_OK, mem_range (mem w) (unat b) n, w'')"
proof -
  obtain w1 where w1: "wr data (length data) a w = Some (OSD_OK, w1)" "up w1" "mem w1 = mem_update (mem w) (unat a) data"
    using write_law [OF assms(1,2), of data] by auto
  obtain w2 where "rd buf n b w1 = Some (OSD_OK, patch buf 0 (mem_range (mem w1) (unat b) n), w2)"
    using read_law [OF w1(2) assms(3), of buf] assms(4) by auto
  then show ?thesis using w1 assms(4,5) by (simp add: mem_range_update_disjoint patch_def)
qed

end

interpretation mam: byte_store
  "osd_cl_mam_read z desc ctx" "\<lambda>data n a w. osd_cl_mam_write z desc ctx data n a w"
  mem "\<lambda>w. valid_mem desc \<and> mam_device z desc ctx mem P \<and> P w" "range_ok desc" for z desc ctx mem P
proof
  fix w a n and buf :: "u8 list"
  assume "valid_mem desc \<and> mam_device z desc ctx mem P \<and> P w" "range_ok desc a n" "n \<le> length buf"
  then show "\<exists>w'. osd_cl_mam_read z desc ctx buf n a w = Some (OSD_OK, patch buf 0 (mem_range (mem w) (unat a) n), w')
     \<and> (valid_mem desc \<and> mam_device z desc ctx mem P \<and> P w') \<and> mem w' = mem w"
    using mam_read_device_all by metis
next
  fix w a n and data :: "u8 list"
  assume "valid_mem desc \<and> mam_device z desc ctx mem P \<and> P w" "range_ok desc a n" "n \<le> length data"
  then show "\<exists>w'. osd_cl_mam_write z desc ctx data n a w = Some (OSD_OK, w')
     \<and> (valid_mem desc \<and> mam_device z desc ctx mem P \<and> P w') \<and> mem w' = mem_update (mem w) (unat a) (take n data)"
    using mam_write_device_all by metis
qed

section \<open>A simulated memory module\<close>

text \<open>
  The simulation collects the bytes of the packets it gets and executes the request once it
  is complete.
\<close>

record mam_sim =
  sim_mem :: "nat \<Rightarrow> u8"
  sim_in :: "u8 list"
  sim_out :: "zmsg list"

definition sim_complete :: "osd_mem_desc \<Rightarrow> u8 list \<Rightarrow> bool" where
  "sim_complete desc t \<longleftrightarrow> 2 + awb desc \<le> length t \<and>
     (let r = parse_transfer (awb desc) t
      in length (rq_data r) = (if rq_we r then req_bytes (dwb desc) r else 0))"

definition sim_reply :: "osd_hostmod_ctx \<Rightarrow> u8 list \<Rightarrow> zmsg list" where
  "sim_reply ctx bs = (if bs = [] then []
     else [req_msg (mk_packet (ucast (hm_diaddr ctx)) 0 OSD_PACKET_TYPE_EVENT EV_LAST (dec_words be16 bs))])"

definition sim_exec :: "osd_mem_desc \<Rightarrow> osd_hostmod_ctx \<Rightarrow> u8 list \<Rightarrow> mam_sim \<Rightarrow> mam_sim" where
  "sim_exec desc ctx t s =
     (let r = parse_transfer (awb desc) t
      in if rq_we r
         then s\<lparr>sim_mem := apply_req r (sim_mem s), sim_in := [],
                sim_out := sim_out s @ (if rq_sync r then sim_reply ctx [0, 0] else [])\<rparr>
         else s\<lparr>sim_in := [],
                sim_out := sim_out s @ sim_reply ctx (mem_range (sim_mem s) (rq_addr r) (req_bytes (dwb desc) r))\<rparr>)"

definition sim_feed :: "osd_mem_desc \<Rightarrow> osd_hostmod_ctx \<Rightarrow> u8 list \<Rightarrow> mam_sim \<Rightarrow> mam_sim" where
  "sim_feed desc ctx bs s =
     (let t = sim_in s @ bs in if sim_complete desc t then sim_exec desc ctx t s else s\<lparr>sim_in := t\<rparr>)"

definition mam_sim_zmq :: "osd_mem_desc \<Rightarrow> osd_hostmod_ctx \<Rightarrow> mam_sim zmq" where
  "mam_sim_zmq desc ctx = \<lparr>zmsg_send = (\<lambda>s m w.
       (0, sim_feed desc ctx (enc_words be16_bytes (drop 3 (dec_words le16 (m ! 1)))) w)),
     zmsg_recv = (\<lambda>s w. case sim_out w of [] \<Rightarrow> (Again, w) | m # ms \<Rightarrow> (Received m, w\<lparr>sim_out := ms\<rparr>)),
     zsock_new = (\<lambda>s a w. (True, w)), zsock_bind = (\<lambda>s a w. (0, w)),
     zsock_connect = (\<lambda>s a w. (0, w)), zsock_destroy = (\<lambda>s w. w),
     zloop_reader = (\<lambda>s w. (0, w)), zloop_reader_end = (\<lambda>s w. w),
     zuuid_str = (\<lambda>w. (replicate 32 (CHR ''a''), w)),
     pthread_create = (\<lambda>w. (0, w)), pthread_join = (\<lambda>w. w), pthread_cancel = (\<lambda>w. w),
     thread_is_running = (\<lambda>w. True)\<rparr>"

lemma sim_complete_prefix:
  assumes "sim_complete desc (s @ t)" "t \<noteq> []"
  shows "\<not> sim_complete desc s"
proof
  assume s: "sim_complete desc s"
  then have "2 \<le> length s" by (simp add: sim_complete_def)
  then have "(s @ t) ! 0 = s ! 0" "(s @ t) ! 1 = s ! 1" by (auto simp: nth_append)
  then have "length (drop (2 + awb desc) (s @ t)) = length (drop (2 + awb desc) s)"
    using s assms(1) by (simp add: sim_complete_def parse_transfer_def req_bytes_def)
  then show False using s assms(2) by (simp add: sim_complete_def)
qed

lemma sim_send_all:
  assumes "sim_complete desc (sim_in s @ packet_bytes ps)" "ps \<noteq> []" "\<forall>p \<in> set ps. payload_of p \<noteq> []"
  shows "send_all (mam_sim_zmq desc ctx) (map req_msg ps) s = (OSD_OK, sim_exec desc ctx (sim_in s @ packet_bytes ps) s)"
  using assms
proof (induction ps arbitrary: s)
  case (Cons p ps)
  let ?bs = "enc_words be16_bytes (payload_of p)"
  have snd: "zmsg_send (mam_sim_zmq desc ctx) Inproc_main (req_msg p) s = (0, sim_feed desc ctx ?bs s)"
    by (simp add: mam_sim_zmq_def req_msg_def)
  show ?case
  proof (cases ps)
    case Nil
    then show ?thesis using snd Cons.prems(1) by (simp add: sim_feed_def)
  next
    case (Cons q qs)
    have "payload_of q \<noteq> []" using Cons Cons.prems(3) by simp
    then have "0 < length (packet_bytes ps)" using Cons by (simp add: be.length_enc_words)
    then have "packet_bytes ps \<noteq> []" by simp
    then have "\<not> sim_complete desc (sim_in s @ ?bs)"
      using sim_complete_prefix [of desc "sim_in s @ ?bs" "packet_bytes ps"] Cons.prems(1) by simp
    then have f: "sim_feed desc ctx ?bs s = s\<lparr>sim_in := sim_in s @ ?bs\<rparr>" by (simp add: sim_feed_def)
    have "send_all (mam_sim_zmq desc ctx) (map req_msg ps) (s\<lparr>sim_in := sim_in s @ ?bs\<rparr>) =
        (OSD_OK, sim_exec desc ctx (sim_in s @ ?bs @ packet_bytes ps) (s\<lparr>sim_in := sim_in s @ ?bs\<rparr>))"
      using Cons.IH [of "s\<lparr>sim_in := sim_in s @ ?bs\<rparr>"] Cons Cons.prems by simp
    then show ?thesis using snd f by (simp add: sim_exec_def Let_def)
  qed
qed simp

definition sim_idle :: "mam_sim \<Rightarrow> bool" where
  "sim_idle s \<longleftrightarrow> sim_in s = [] \<and> sim_out s = []"

lemma sim_reply_packet:
  assumes "even (length bs)" "length bs < 100000" "bs \<noteq> []"
  obtains p where "sim_reply ctx bs = [req_msg p]" "packet_wf p" "payload_of p \<noteq> []" "packet_bytes [p] = bs"
proof
  let ?p = "mk_packet (ucast (hm_diaddr ctx)) 0 OSD_PACKET_TYPE_EVENT EV_LAST (dec_words be16 bs)"
  show "sim_reply ctx bs = [req_msg ?p]" using assms(3) by (simp add: sim_reply_def)
  show "packet_wf ?p" using assms(2) by (intro packet_wf_mk_packet) (simp add: be.length_dec_words)
  have "2 \<le> length bs" using assms(1,3) by (cases bs rule: remdups_adj.cases) auto
  then have "0 < length (dec_words be16 bs)" unfolding be.length_dec_words by linarith
  then show "payload_of ?p \<noteq> []" by (simp add: mk_packet_def)
  show "packet_bytes [?p] = bs" using assms(1) by (simp add: mk_packet_def be.enc_dec_words)
qed

lemma mam_sim_device:
  assumes ctx: "ready ctx" and V: "valid_mem desc"
  shows "mam_device (mam_sim_zmq desc ctx') desc ctx sim_mem sim_idle"
  unfolding mam_device_def
proof (intro conjI allI impI)
  show "ready ctx" by (rule ctx)
next
  fix s ps r
  assume P: "sim_idle s" and ps: "mam_packets desc ctx ps" and l: "2 + awb desc \<le> length (packet_bytes ps)"
    and r: "r = parse_transfer (awb desc) (packet_bytes ps)" and we: "rq_we r" "length (rq_data r) = req_bytes (dwb desc) r"
  have ne: "ps \<noteq> []" "\<forall>p \<in> set ps. payload_of p \<noteq> []" using ps l by (auto simp: mam_packets_def mk_packet_def)
  have sent: "send_all (mam_sim_zmq desc ctx') (map req_msg ps) s = (OSD_OK, sim_exec desc ctx' (packet_bytes ps) s)"
    using sim_send_all [of desc s ps ctx'] ne P l r we by (simp add: sim_complete_def sim_idle_def Let_def)
  obtain p where p: "sim_reply ctx' [0, 0] = [req_msg p]" "packet_wf p"
    using sim_reply_packet [of "[0, 0]" ctx'] by auto
  let ?s1 = "sim_exec desc ctx' (packet_bytes ps) s"
  have s1: "?s1 = s\<lparr>sim_mem := apply_req r (sim_mem s), sim_out := if rq_sync r then [req_msg p] else []\<rparr>"
    using P we(1) p(1) by (simp add: sim_exec_def sim_idle_def r [symmetric] Let_def)
  show "\<exists>w1. send_all (mam_sim_zmq desc ctx') (map req_msg ps) s = (OSD_OK, w1) \<and>
           (if rq_sync r
            then \<exists>ack w2. packet_wf ack \<and> zmsg_recv (mam_sim_zmq desc ctx') Inproc_main w1 = (Received (req_msg ack), w2)
                   \<and> sim_idle w2 \<and> sim_mem w2 = apply_req r (sim_mem s)
            else sim_idle w1 \<and> sim_mem w1 = apply_req r (sim_mem s))"
    unfolding sent s1 using P p(2) by (auto simp: mam_sim_zmq_def sim_idle_def intro!: exI [of _ p])
next
  fix s ps r
  assume P: "sim_idle s" and ps: "mam_packets desc ctx ps" and l: "2 + awb desc \<le> length (packet_bytes ps)"
    and r: "r = parse_transfer (awb desc) (packet_bytes ps)" and we: "\<not> rq_we r" "rq_data r = []"
  have ne: "ps \<noteq> []" "\<forall>p \<in> set ps. payload_of p \<noteq> []" using ps l by (auto simp: mam_packets_def mk_packet_def)
  have sent: "send_all (mam_sim_zmq desc ctx') (map req_msg ps) s = (OSD_OK, sim_exec desc ctx' (packet_bytes ps) s)"
    using sim_send_all [of desc s ps ctx'] ne P l r we by (simp add: sim_complete_def sim_idle_def Let_def)
  let ?bs = "mem_range (sim_mem s) (rq_addr r) (req_bytes (dwb desc) r)"
  have "req_bytes (dwb desc) r \<le> 255 * 8"
    using valid_mem_facts(4) [OF V] unat_u8_lt [of "rq_sel r"] mult_le_mono [of "unat (rq_sel r)" 255 "dwb desc" 8]
    by (auto simp: req_bytes_def)
  then have bs: "even (length ?bs)" "length ?bs < 100000" using valid_mem_facts(5) [OF V] by (auto simp: req_bytes_def)
  have s1: "sim_exec desc ctx' (packet_bytes ps) s = s\<lparr>sim_out := sim_reply ctx' ?bs\<rparr>"
    using P we(1) by (simp add: sim_exec_def sim_idle_def r [symmetric] Let_def)
  have "\<exists>rs. sim_reply ctx' ?bs = map req_msg rs \<and> (\<forall>p \<in> set rs. packet_wf p \<and> payload_of p \<noteq> []) \<and> packet_bytes rs = ?bs
      \<and> length rs \<le> 1"
  proof (cases "?bs = []")
    case True
    then show ?thesis by (intro exI [of _ "[]"]) (simp add: sim_reply_def)
  next
    case False
    from sim_reply_packet [OF bs False, of ctx'] obtain p where "sim_reply ctx' ?bs = [req_msg p]"
      "packet_wf p" "payload_of p \<noteq> []" "packet_bytes [p] = ?bs" .
    then show ?thesis by (intro exI [of _ "[p]"]) simp
  qed
  then obtain rs where rs: "sim_reply ctx' ?bs = map req_msg rs" "\<forall>p \<in> set rs. packet_wf p \<and> payload_of p \<noteq> []"
    "packet_bytes rs = ?bs" "length rs \<le> 1" by blast
  have "recv_seq (mam_sim_zmq desc ctx') (s\<lparr>sim_out := map req_msg rs\<rparr>) (map req_msg rs) s"
    using rs(4) P by (cases rs) (simp_all add: mam_sim_zmq_def sim_idle_def)
  then show "\<exists>w1 rs w2. send_all (mam_sim_zmq desc ctx') (map req_msg ps) s = (OSD_OK, w1)
           \<and> (\<forall>p \<in> set rs. packet_wf p \<and> payload_of p \<noteq> [])
           \<and> packet_bytes rs = ?bs
           \<and> recv_seq (mam_sim_zmq desc ctx') w1 (map req_msg rs) w2 \<and> sim_idle w2 \<and> sim_mem w2 = sim_mem s"
    using rs sent s1 P by metis
qed

section \<open>Properties\<close>

definition demo_mem :: osd_mem_desc where
  "demo_mem = \<lparr>mem_di_addr = 3, mem_data_width_bit = 32, mem_addr_width_bit = 16, num_regions = 0, regions = []\<rparr>"

definition demo_sim :: mam_sim where
  "demo_sim = \<lparr>sim_mem = (\<lambda>_. 0), sim_in = [], sim_out = []\<rparr>"

lemma demo_mem_ok:
  "valid_mem demo_mem" "mam_device (mam_sim_zmq demo_mem sim_ctx) demo_mem sim_ctx sim_mem sim_idle" "sim_idle demo_sim"
  "range_ok demo_mem 3 11"
proof -
  show V: "valid_mem demo_mem" by (simp add: valid_mem_def demo_mem_def dwb_def awb_def)
  show "mam_device (mam_sim_zmq demo_mem sim_ctx) demo_mem sim_ctx sim_mem sim_idle"
    by (rule mam_sim_device [OF sim_ctx_ready V])
  show "sim_idle demo_sim" "range_ok demo_mem 3 11"
    by (simp_all add: sim_idle_def demo_sim_def range_ok_def demo_mem_def dwb_def awb_def)
qed

text \<open>
  (C2) Writing a byte range changes exactly the bytes of that range, to the data given,
  whatever its alignment and length: the prolog, the bursts of up to 255 words and the
  epilog together act as one write. Hypotheses: a memory module that executes the requests
  it gets, a supported geometry and a range that is at least one word long or within a word.
\<close>

theorem mam_write_correct:
  assumes "valid_mem desc" "mam_device z desc ctx mem P" "P w" "range_ok desc a n" "n \<le> length data"
  shows "\<exists>w'. osd_cl_mam_write z desc ctx data n a w = Some (OSD_OK, w') \<and> P w' \<and>
     (\<forall>x. mem w' x = (if unat a \<le> x \<and> x < unat a + n then data ! (x - unat a) else mem w x))"
proof -
  obtain w' where "osd_cl_mam_write z desc ctx data n a w = Some (OSD_OK, w')" "P w'"
    "mem w' = mem_update (mem w) (unat a) (take n data)"
    using mam_write_device_all [OF assms] by blast
  then show ?thesis using assms(5) by (auto simp: mem_update_def)
qed

theorem mam_write_correct_witness:
  "\<exists>w'. osd_cl_mam_write (mam_sim_zmq demo_mem sim_ctx) demo_mem sim_ctx [1,2,3,4,5,6,7,8,9,10,11] 11 3 demo_sim = Some (OSD_OK, w')
     \<and> sim_mem w' 2 = 0 \<and> sim_mem w' 3 = 1 \<and> sim_mem w' 13 = 11 \<and> sim_mem w' 14 = 0"
proof -
  obtain w' where w': "osd_cl_mam_write (mam_sim_zmq demo_mem sim_ctx) demo_mem sim_ctx [1,2,3,4,5,6,7,8,9,10,11] 11 3 demo_sim
      = Some (OSD_OK, w')"
    and m: "\<And>x. sim_mem w' x = (if 3 \<le> x \<and> x < 14 then [1,2,3,4,5,6,7,8,9,10,11] ! (x - 3) else 0)"
    using mam_write_correct [OF demo_mem_ok, of "[1,2,3,4,5,6,7,8,9,10,11]"] by (auto simp: demo_sim_def)
  show ?thesis using w' by (simp add: m)
qed

text \<open>
  (C3) What was written is read back: a read of a range that has just been written returns
  the data and leaves the memory as the write left it.
\<close>

theorem mam_write_then_read:
  assumes "valid_mem desc" "mam_device z desc ctx mem P" "P w" "range_ok desc a (length data)" "length buf = length data"
  shows "\<exists>w' w''. osd_cl_mam_write z desc ctx data (length data) a w = Some (OSD_OK, w')
     \<and> osd_cl_mam_read z desc ctx buf (length data) a w' = Some (OSD_OK, data, w'')
     \<and> P w'' \<and> mem w'' = mem_update (mem w) (unat a) data"
  using mam.write_then_read [of desc z ctx mem P w a data buf] assms by blast

theorem mam_write_then_read_witness:
  "\<exists>w' w''. osd_cl_mam_write (mam_sim_zmq demo_mem sim_ctx) demo_mem sim_ctx [1,2,3,4,5,6,7,8,9,10,11] 11 3 demo_sim = Some (OSD_OK, w')
     \<and> osd_cl_mam_read (mam_sim_zmq demo_mem sim_ctx) demo_mem sim_ctx (replicate 11 0) 11 3 w' =
         Some (OSD_OK, [1,2,3,4,5,6,7,8,9,10,11], w'')"
proof -
  have n: "length [1,2,3,4,5,6,7,8,9,10,11 :: u8] = 11" by simp
  have "length (replicate 11 0) = length [1,2,3,4,5,6,7,8,9,10,11 :: u8]" by simp
  from mam_write_then_read [OF demo_mem_ok(1-3), of 3 "[1,2,3,4,5,6,7,8,9,10,11]", unfolded n, OF demo_mem_ok(4) this [unfolded n]]
  show ?thesis by blast
qed

text \<open>
  (C13) A read of \<open>n\<close> bytes returns the memory contents of its range in the first \<open>n\<close> bytes of the buffer, and
  leaves the rest of the buffer and the memory unchanged. Hypotheses: a memory module that executes the requests it gets; data and
  address widths of 2, 4 or 8 bytes, the address no wider than the data (\<open>valid_mem\<close>); and a range of less than \<open>2 ^ 32\<close> bytes below
  the end of the address space that is at least one word long or lies within a word (\<open>range_ok\<close>). A
  range shorter than a word that crosses a word boundary, and wider addresses, abort in the code's assertions
  (\<^verbatim>\<open>cl_mam.c:245\<close>, \<^verbatim>\<open>cl_mam.c:119\<close>), although \<^verbatim>\<open>cl_mam.h\<close> does not ask for aligned data.
\<close>

theorem mam_read_correct:
  assumes "valid_mem desc" "mam_device z desc ctx mem P" "P w" "range_ok desc a n" "n \<le> length buf"
  shows "\<exists>w'. osd_cl_mam_read z desc ctx buf n a w =
     Some (OSD_OK, map (\<lambda>i. mem w (unat a + i)) [0..<n] @ drop n buf, w') \<and> P w' \<and> mem w' = mem w"
  using mam_read_device_all [OF assms] by (simp add: patch_def mem_range_def)

theorem mam_read_correct_witness:
  "\<exists>w'. osd_cl_mam_read (mam_sim_zmq demo_mem sim_ctx) demo_mem sim_ctx (replicate 12 9) 11 3 (demo_sim\<lparr>sim_mem := of_nat\<rparr>) =
     Some (OSD_OK, [3,4,5,6,7,8,9,10,11,12,13,9], w')"
proof -
  have "sim_idle (demo_sim\<lparr>sim_mem := of_nat\<rparr>)" by (simp add: sim_idle_def demo_sim_def)
  from mam_read_correct [OF demo_mem_ok(1,2) this demo_mem_ok(4), of "replicate 12 9"]
  show ?thesis by (auto simp: upt_rec)
qed

text \<open>
  A write that is shorter than a word and crosses a word boundary does not return: the
  assertion that the data fits into one word fails, since such a range is not split.
\<close>

theorem short_crossing_write_aborts:
  assumes "dwb desc \<le> 8" "n < dwb desc" "dwb desc < unat a mod dwb desc + n"
  shows "osd_cl_mam_write z desc ctx data n a w = None"
proof -
  have d: "0 < dwb desc" using assms(2) by linarith
  have "n \<noteq> 0" using assms(3) mod_less_divisor [OF d, of "unat a"] by linarith
  moreover have "dwb desc \<noteq> 0" using d by simp
  moreover have "(unat a mod dwb desc) mod 256 = unat a mod dwb desc"
    using assms(1) mod_less_divisor [OF d, of "unat a"] by (intro mod_less) linarith
  moreover have "\<not> unat a mod dwb desc + n \<le> dwb desc" using assms(3) by simp
  ultimately show ?thesis
    using assms(2) by (simp add: osd_cl_mam_write_def write_single_def align_data_to_word_def calculate_parts_def
        dwb_def [symmetric] Let_def)
qed

theorem short_crossing_write_aborts_witness:
  "osd_cl_mam_write (mam_sim_zmq demo_mem sim_ctx) demo_mem sim_ctx [1, 2] 2 3 demo_sim = None"
  by (rule short_crossing_write_aborts) (simp_all add: demo_mem_def dwb_def)

text \<open>
  Word-aligned addresses are rejected by an assertion when the address width exceeds the
  data width and the address is no multiple of the address width: the alignment of a
  transfer is checked against the address width instead of the data width.
\<close>

theorem aligned_write_aborts_for_wide_addresses:
  assumes "0 < dwb desc" "n mod dwb desc = 0" "unat a mod dwb desc = 0" "0 < n" "unat a + n < 2 ^ 64"
    and "dwb desc \<in> {2, 4, 8}" "unat a mod awb desc \<noteq> 0"
  shows "osd_cl_mam_write z desc ctx data n a w = None"
proof -
  have "dwb desc \<le> n" using assms(1,2,4) by (auto intro: dvd_imp_le simp: mod_eq_0_iff_dvd)
  then obtain p b e where parts: "calculate_parts a n (dwb desc) = Some (p, b, e)" "p + b + e = n" "p < dwb desc" "e < dwb desc"
    "dwb desc dvd b" "p = 0 \<or> unat a mod dwb desc + p = dwb desc"
    using calculate_parts_eq [OF assms(6) _ assms(5)] by metis
  then have "p = 0" using assms(3) by auto
  moreover have "e = 0"
    using parts(2,4,5) assms(2) \<open>p = 0\<close> by (metis add_0 dvd_add_right_iff mod_eq_0_iff_dvd mod_less nat_dvd_not_less neq0_conv)
  ultimately show ?thesis
    using parts assms(1,4,7) by (simp add: osd_cl_mam_write_def write_burst_def awb_def dwb_def Let_def)
qed

theorem aligned_write_aborts_for_wide_addresses_witness:
  "osd_cl_mam_write (mam_sim_zmq demo_mem sim_ctx) (demo_mem\<lparr>mem_data_width_bit := 16, mem_addr_width_bit := 32\<rparr>) sim_ctx [1, 2] 2 6 demo_sim = None"
  by (rule aligned_write_aborts_for_wide_addresses) (simp_all add: demo_mem_def dwb_def awb_def)

end
