(* ===== verification/Hostmod_User.thy ===== *)
theory Hostmod_User
  imports Hostmod
begin

text \<open>
  The interface of the components that wrap a host module (memory access, the trace loggers,
  the terminal): each holds a host module context and passes connection requests on to it.
  A component is described by the access to the context inside of its own.
\<close>

locale hostmod_user =
  fixes hm_of :: "'c \<Rightarrow> osd_hostmod_ctx"
    and hm_put :: "osd_hostmod_ctx \<Rightarrow> 'c \<Rightarrow> 'c"
    and connect :: "'w zmq \<Rightarrow> 'c \<Rightarrow> 'w \<Rightarrow> (osd_result \<times> 'c \<times> 'w) option"
    and disconnect :: "'w zmq \<Rightarrow> 'c \<Rightarrow> 'w \<Rightarrow> (osd_result \<times> 'c \<times> 'w) option"
    and is_connected :: "'c \<Rightarrow> bool"
  assumes hm_put: "hm_of (hm_put h c) = h"
    and connect_law: "connect z c w =
        map_option (\<lambda>(rv, h, w). (rv, hm_put h c, w)) (osd_hostmod_connect z (hm_of c) w)"
    and disconnect_law: "disconnect z c w =
        map_option (\<lambda>(rv, h, w). (rv, hm_put h c, w)) (osd_hostmod_disconnect z (hm_of c) w)"
    and is_connected_law: "is_connected c \<longleftrightarrow> hm_is_connected (hm_of c)"
begin

text \<open>A successful connect leaves a context that is ready for register accesses, a successful
  disconnect one that can be freed.\<close>

lemma connect_ready:
  assumes "connect z c w = Some (OSD_OK, c', w')"
  shows "is_connected c' \<and> ready (hm_of c')"
  using assms by (auto simp: connect_law is_connected_law hm_put osd_hostmod_connect_def ready_def osd_codes
      split: option.splits prod.splits sum.splits if_splits bind_splits)

lemma connect_succeeds:
  assumes "fifo_recv z Inproc_main q" "\<not> is_connected c" "hm_ioworker_ctx (hm_of c)"
    and "zmsg_send z Inproc_main [str_bytes ''I-CONNECT'', int_bytes 0] w = (0, w1)"
    and "q w1 = [str_bytes ''I-CONNECT-DONE'', int_bytes (uint a)] # ms"
  shows "\<exists>c' w'. connect z c w = Some (OSD_OK, c', w') \<and> is_connected c' \<and> ready (hm_of c') \<and> hm_diaddr (hm_of c') = a"
proof -
  obtain h w' where h: "osd_hostmod_connect z (hm_of c) w = Some (OSD_OK, h, w')" "osd_hostmod_get_diaddr h = Some a"
    using connect_stores_address [of z q "hm_of c" w w1 a ms] assms by (auto simp: is_connected_law)
  then have c: "connect z c w = Some (OSD_OK, hm_put h c, w')" by (simp add: connect_law)
  moreover have "hm_diaddr h = a" using h(2) by (simp add: osd_hostmod_get_diaddr_def split: if_splits)
  ultimately show ?thesis using connect_ready [OF c] by (simp add: hm_put)
qed

lemma connect_failed:
  assumes "connect z c w = Some (rv, c', w')" "rv \<noteq> OSD_OK"
  shows "\<not> is_connected c'"
  using assms by (auto simp: connect_law is_connected_law hm_put osd_hostmod_connect_def osd_codes
      split: option.splits prod.splits sum.splits if_splits bind_splits)

lemma disconnect_done:
  assumes "disconnect z c w = Some (OSD_OK, c', w')"
  shows "\<not> is_connected c'"
  using assms by (auto simp: disconnect_law is_connected_law hm_put osd_hostmod_disconnect_def osd_codes
      split: option.splits prod.splits sum.splits if_splits bind_splits dest: wait_for_status_error)

lemma disconnect_twice:
  assumes "disconnect z c w = Some (OSD_OK, c', w')"
  shows "disconnect z' c' w'' = Some (OSD_ERROR_NOT_CONNECTED, hm_put (hm_of c') c', w'')"
  using disconnect_done [OF assms] by (simp add: disconnect_law is_connected_law osd_hostmod_disconnect_def)

end

section \<open>Event routing\<close>

text \<open>The registers of a module after its events have been directed to an address and switched on or off.\<close>

definition events_routed :: "u16 \<Rightarrow> u16 \<Rightarrow> bool \<Rightarrow> (u16 \<times> u16 \<Rightarrow> u16) \<Rightarrow> (u16 \<times> u16 \<Rightarrow> u16)" where
  "events_routed a dest on R =
     (let R = R((a, OSD_REG_BASE_MOD_EVENT_DEST) := dest)
      in R((a, OSD_REG_BASE_MOD_CS) :=
           (if on then set_bit else unset_bit) OSD_REG_BASE_MOD_CS_ACTIVE_BIT (R (a, OSD_REG_BASE_MOD_CS))))"

lemma unset_set_bit [simp]:
  "unset_bit n (set_bit n x) = unset_bit n x" "unset_bit n (unset_bit n x) = unset_bit n x" for x :: "'a::len word"
  by (rule bit_eqI, auto simp: bit_simps)+

lemma set_event_dest_device:
  assumes "device_ok z h regs P" "P w"
  obtains w' where "osd_hostmod_mod_set_event_dest z h a 0 w = Some (Inr (), w')" "P w'"
    "regs w' = (regs w)((a, OSD_REG_BASE_MOD_EVENT_DEST) := hm_diaddr h)"
proof -
  have "device_ok z h regs P \<and> P w" using assms by simp
  then obtain w' where "osd_hostmod_reg_write z h [hm_diaddr h] a OSD_REG_BASE_MOD_EVENT_DEST 16 0 w = Some (Inr (), w')"
    "device_ok z h regs P \<and> P w'" "regs w' = (regs w)((a, OSD_REG_BASE_MOD_EVENT_DEST) := hm_diaddr h)"
    by (rule hm.writeE)
  then show thesis by (intro that) (simp_all add: osd_hostmod_mod_set_event_dest_def)
qed

lemma set_event_active_device:
  assumes "device_ok z h regs P" "P w"
  obtains w' where "osd_hostmod_mod_set_event_active z h a on 0 w = Some (Inr (), w')" "P w'"
    "regs w' = (regs w)((a, OSD_REG_BASE_MOD_CS) :=
       (if on then set_bit else unset_bit) OSD_REG_BASE_MOD_CS_ACTIVE_BIT (regs w (a, OSD_REG_BASE_MOD_CS)))"
proof -
  have "OSD_REG_BASE_MOD_CS_ACTIVE_BIT < 16" by (simp add: reg_consts)
  from reg_setbit_device [OF assms this, of on a OSD_REG_BASE_MOD_CS 16 0] that show thesis
    by (auto simp: osd_hostmod_mod_set_event_active_def)
qed

end
