(* ===== verification/Elf.thy ===== *)
theory Elf
  imports Prelude
begin

text \<open>
  The ELF library (libelf, gelf) and the opening of files as a parameter: the sources only call
  them, so their operations are the fields of a record that every definition using them
  takes as an argument. A file descriptor has type \<open>'f\<close>, an open ELF object \<open>'e\<close>, a section of it
  \<open>'s\<close> and the data of a section \<open>'d\<close>. A call that fails yields \<open>None\<close>.
\<close>

record GElf_Phdr =
  p_offset :: u64
  p_filesz :: u64
  p_memsz :: u64
  p_paddr :: u64

record GElf_Shdr =
  sh_type :: u32
  sh_size :: u64
  sh_entsize :: u64
  sh_link :: u32

record GElf_Sym =
  st_info :: u8
  st_value :: u64
  st_name :: u32

record ('f, 'e, 's, 'd) libelf =
  elf_version :: bool
  elf_open :: "string \<Rightarrow> 'f option"
  elf_begin :: "'f \<Rightarrow> 'e option"
  elf_getphdrnum :: "'e \<Rightarrow> nat option"
  gelf_getphdr :: "'e \<Rightarrow> nat \<Rightarrow> GElf_Phdr option"
  elf_getdata_rawchunk :: "'e \<Rightarrow> u64 \<Rightarrow> u64 \<Rightarrow> u8 list option"
  elf_nextscn :: "'e \<Rightarrow> 's option \<Rightarrow> 's option"
  gelf_getshdr :: "'s \<Rightarrow> GElf_Shdr option"
  elf_getdata :: "'s \<Rightarrow> 'd option"
  gelf_getsym :: "'d \<Rightarrow> nat \<Rightarrow> GElf_Sym option"
  elf_strptr :: "'e \<Rightarrow> u32 \<Rightarrow> u32 \<Rightarrow> string option"

end
