(* ===== verification/Memaccess.thy ===== *)
theory Memaccess
  imports Mam_Memory Cl_Scm Hostmod_User Elf
begin

text \<open>
  The memory access component (\<^verbatim>\<open>memaccess.c\<close>): finding the memories of a subnet and loading ELF
  files into them.
\<close>

section \<open>Definitions\<close>

record osd_memaccess_ctx =
  ma_hostmod_ctx :: osd_hostmod_ctx

definition osd_memaccess_new :: "'w zmq \<Rightarrow> int \<Rightarrow> 'w \<Rightarrow> (osd_memaccess_ctx \<times> 'w) option" where
  "osd_memaccess_new z uninit w =
     do { (r, w) \<leftarrow> osd_hostmod_new z uninit w;
          (case r of Inl rv \<Rightarrow> None | Inr h \<Rightarrow> Some (\<lparr>ma_hostmod_ctx = h\<rparr>, w)) }"

definition osd_memaccess_connect ::
  "'w zmq \<Rightarrow> osd_memaccess_ctx \<Rightarrow> 'w \<Rightarrow> (osd_result \<times> osd_memaccess_ctx \<times> 'w) option" where
  "osd_memaccess_connect z ctx w =
     do { (rv, h, w) \<leftarrow> osd_hostmod_connect z (ma_hostmod_ctx ctx) w; Some (rv, ctx\<lparr>ma_hostmod_ctx := h\<rparr>, w) }"

definition osd_memaccess_disconnect ::
  "'w zmq \<Rightarrow> osd_memaccess_ctx \<Rightarrow> 'w \<Rightarrow> (osd_result \<times> osd_memaccess_ctx \<times> 'w) option" where
  "osd_memaccess_disconnect z ctx w =
     do { (rv, h, w) \<leftarrow> osd_hostmod_disconnect z (ma_hostmod_ctx ctx) w; Some (rv, ctx\<lparr>ma_hostmod_ctx := h\<rparr>, w) }"

definition osd_memaccess_is_connected :: "osd_memaccess_ctx \<Rightarrow> bool" where
  "osd_memaccess_is_connected ctx = osd_hostmod_is_connected (ma_hostmod_ctx ctx)"

definition osd_memaccess_free ::
  "'w zmq \<Rightarrow> osd_memaccess_ctx option \<Rightarrow> 'w \<Rightarrow> (osd_memaccess_ctx option \<times> 'w) option" where
  "osd_memaccess_free z ctx_p w =
     (case ctx_p of
        None \<Rightarrow> Some (None, w)
      | Some ctx \<Rightarrow> do { (_, w) \<leftarrow> osd_hostmod_free z (Some (ma_hostmod_ctx ctx)) w; Some (None, w) })"

definition osd_memaccess_cpus_start ::
  "'w zmq \<Rightarrow> osd_memaccess_ctx \<Rightarrow> u32 \<Rightarrow> 'w \<Rightarrow> ((osd_result + unit) \<times> 'w) option" where
  "osd_memaccess_cpus_start z ctx subnet_addr w = osd_cl_scm_cpus_start z (ma_hostmod_ctx ctx) subnet_addr w"

definition osd_memaccess_cpus_stop ::
  "'w zmq \<Rightarrow> osd_memaccess_ctx \<Rightarrow> u32 \<Rightarrow> 'w \<Rightarrow> ((osd_result + unit) \<times> 'w) option" where
  "osd_memaccess_cpus_stop z ctx subnet_addr w = osd_cl_scm_cpus_stop z (ma_hostmod_ctx ctx) subnet_addr w"

definition is_supported_mam :: "osd_module_desc \<Rightarrow> bool" where
  "is_supported_mam m \<longleftrightarrow> mod_vendor m = OSD_MODULE_VENDOR_OSD \<and> mod_type m = OSD_MODULE_TYPE_STD_MAM
     \<and> mod_version m = 0"

text \<open>A descriptor as \<^verbatim>\<open>calloc\<close> leaves it.\<close>

definition zero_mem_desc :: osd_mem_desc where
  "zero_mem_desc = \<lparr>mem_di_addr = 0, mem_data_width_bit = 0, mem_addr_width_bit = 0, num_regions = 0,
     regions = replicate 8 \<lparr>baseaddr = 0, memsize = 0\<rparr>\<rparr>"

primrec find_memories_loop ::
  "'w zmq \<Rightarrow> osd_hostmod_ctx \<Rightarrow> osd_module_desc list \<Rightarrow> osd_mem_desc list \<Rightarrow> nat \<Rightarrow> osd_result \<Rightarrow> 'w
    \<Rightarrow> (osd_result \<times> osd_mem_desc list \<times> 'w) option" where
  "find_memories_loop z h [] mems mem_nr retval w = Some (retval, mems, w)"
| "find_memories_loop z h (m # ms) mems mem_nr retval w =
     (if is_supported_mam m then
        do { c_assert (mem_nr < length mems);
             (rv, d, w) \<leftarrow> osd_cl_mam_get_mem_desc z h (ucast (mod_addr m)) (mems ! mem_nr) w;
             find_memories_loop z h ms (mems[mem_nr := d]) (Suc mem_nr)
               (if OSD_FAILED rv then OSD_ERROR_PARTIAL_RESULT else retval) w }
      else find_memories_loop z h ms mems mem_nr retval w)"

definition osd_memaccess_find_memories ::
  "'w zmq \<Rightarrow> osd_memaccess_ctx \<Rightarrow> u32 \<Rightarrow> 'w \<Rightarrow> (osd_result \<times> osd_mem_desc list option \<times> 'w) option" where
  "osd_memaccess_find_memories z ctx subnet_addr w =
     do { (rv, mods, w) \<leftarrow> osd_hostmod_get_modules z (ma_hostmod_ctx ctx) subnet_addr w;
          if OSD_FAILED rv then Some (rv, None, w)
          else do {
            mods \<leftarrow> mods;
            let mem_cnt = length (filter is_supported_mam mods);
            let mems = replicate mem_cnt zero_mem_desc;
            (retval, mems, w) \<leftarrow> find_memories_loop z (ma_hostmod_ctx ctx) mods mems 0 OSD_OK w;
            Some (retval, Some mems, w) } }"

section \<open>Loading an ELF file\<close>

text \<open>
  The two loops over the program headers, with \<open>k\<close> iterations left; \<open>Inl\<close> is the code the
  function returns early with. Memory from \<^verbatim>\<open>malloc\<close> holds \<open>junk\<close>; allocations succeed. A chunk that
  the library does not deliver is skipped when loading, and dereferenced when verifying.
\<close>

primrec load_loop ::
  "('f, 'e, 's, 'd) libelf \<Rightarrow> 'w zmq \<Rightarrow> osd_mem_desc \<Rightarrow> osd_hostmod_ctx \<Rightarrow> 'e \<Rightarrow> nat \<Rightarrow> nat \<Rightarrow> 'w
    \<Rightarrow> (osd_result \<times> 'w) option" where
  "load_loop elf z mem_desc h e i 0 w = Some (OSD_OK, w)"
| "load_loop elf z mem_desc h e i (Suc k) w =
     (case gelf_getphdr elf e i of
        None \<Rightarrow> Some (OSD_ERROR_FAILURE, w)
      | Some phdr \<Rightarrow>
          do { (osd_rv, w) \<leftarrow>
                 (case elf_getdata_rawchunk elf e (p_offset phdr) (p_filesz phdr) of
                    None \<Rightarrow> Some (OSD_OK, w)
                  | Some d_buf \<Rightarrow> osd_cl_mam_write z mem_desc h d_buf (length d_buf) (p_paddr phdr) w);
               if OSD_FAILED osd_rv then Some (osd_rv, w)
               else do {
                 let init_with_zero = (ucast (p_memsz phdr - p_filesz phdr) :: u32);
                 (osd_rv, w) \<leftarrow>
                   (if init_with_zero > 0 then
                      osd_cl_mam_write z mem_desc h (replicate (unat (p_memsz phdr - p_filesz phdr)) 0)
                        (unat init_with_zero) (p_paddr phdr + p_filesz phdr) w
                    else Some (OSD_OK, w));
                 if OSD_FAILED osd_rv then Some (osd_rv, w)
                 else load_loop elf z mem_desc h e (Suc i) k w } })"

primrec verify_loop ::
  "('f, 'e, 's, 'd) libelf \<Rightarrow> 'w zmq \<Rightarrow> (nat \<Rightarrow> u8) \<Rightarrow> osd_mem_desc \<Rightarrow> osd_hostmod_ctx \<Rightarrow> 'e \<Rightarrow> nat \<Rightarrow> nat \<Rightarrow> 'w
    \<Rightarrow> (osd_result \<times> 'w) option" where
  "verify_loop elf z junk mem_desc h e i 0 w = Some (OSD_OK, w)"
| "verify_loop elf z junk mem_desc h e i (Suc k) w =
     (case gelf_getphdr elf e i of
        None \<Rightarrow> Some (OSD_ERROR_FAILURE, w)
      | Some phdr \<Rightarrow>
          do { elf_data \<leftarrow> elf_getdata_rawchunk elf e (p_offset phdr) (p_filesz phdr);
               let memory_data = map junk [0..<length elf_data];
               (osd_rv, memory_data, w) \<leftarrow>
                 osd_cl_mam_read z mem_desc h memory_data (length elf_data) (p_paddr phdr) w;
               if OSD_FAILED osd_rv then Some (osd_rv, w)
               else if memory_data \<noteq> elf_data then Some (OSD_ERROR_MEM_VERIFY_FAILED, w)
               else verify_loop elf z junk mem_desc h e (Suc i) k w })"

definition osd_memaccess_loadelf ::
  "('f, 'e, 's, 'd) libelf \<Rightarrow> 'w zmq \<Rightarrow> (nat \<Rightarrow> u8) \<Rightarrow> osd_memaccess_ctx \<Rightarrow> osd_mem_desc \<Rightarrow> string \<Rightarrow> bool \<Rightarrow> 'w
    \<Rightarrow> (osd_result \<times> 'w) option" where
  "osd_memaccess_loadelf elf z junk ctx mem_desc elf_file_path verify w =
     (if \<not> osd_hostmod_is_connected (ma_hostmod_ctx ctx) then Some (OSD_ERROR_NOT_CONNECTED, w)
      else if \<not> elf_version elf then Some (OSD_ERROR_FAILURE, w)
      else (case elf_open elf elf_file_path of
        None \<Rightarrow> Some (OSD_ERROR_FILE, w)
      | Some fd \<Rightarrow> (case elf_begin elf fd of
          None \<Rightarrow> Some (OSD_ERROR_FAILURE, w)
        | Some e \<Rightarrow> (case elf_getphdrnum elf e of
            None \<Rightarrow> Some (OSD_ERROR_FAILURE, w)
          | Some num \<Rightarrow>
              do { (rv, w) \<leftarrow> load_loop elf z mem_desc (ma_hostmod_ctx ctx) e 0 num w;
                   if OSD_FAILED rv then Some (rv, w)
                   else if \<not> verify then Some (OSD_OK, w)
                   else verify_loop elf z junk mem_desc (ma_hostmod_ctx ctx) e 0 num w }))))"

section \<open>The wrapped host module\<close>

interpretation memaccess: hostmod_user ma_hostmod_ctx "\<lambda>h c. c\<lparr>ma_hostmod_ctx := h\<rparr>"
  osd_memaccess_connect osd_memaccess_disconnect osd_memaccess_is_connected
  by unfold_locales (simp_all add: osd_memaccess_connect_def osd_memaccess_disconnect_def
      osd_memaccess_is_connected_def osd_hostmod_is_connected_def map_option_case split: bind_splits option.splits)

section \<open>Loading a file into a memory\<close>

text \<open>
  \<open>elf_holds\<close>: the file at a path can be opened and has the given segments, as pairs of a program header and
  the file contents it stands for.
\<close>

type_synonym segment = "GElf_Phdr \<times> u8 list"

definition elf_holds :: "('f, 'e, 's, 'd) libelf \<Rightarrow> string \<Rightarrow> segment list \<Rightarrow> bool" where
  "elf_holds elf path segs \<longleftrightarrow> elf_version elf \<and>
     (\<exists>fd e. elf_open elf path = Some fd \<and> elf_begin elf fd = Some e \<and> elf_getphdrnum elf e = Some (length segs) \<and>
        (\<forall>i < length segs. case segs ! i of (ph, d) \<Rightarrow> gelf_getphdr elf e i = Some ph
           \<and> elf_getdata_rawchunk elf e (p_offset ph) (p_filesz ph) = Some d \<and> length d = unat (p_filesz ph)))"

definition seg_ok :: "osd_mem_desc \<Rightarrow> segment \<Rightarrow> bool" where
  "seg_ok desc = (\<lambda>(ph, d). range_ok desc (p_paddr ph) (length d) \<and> length d \<le> unat (p_memsz ph)
     \<and> (length d < unat (p_memsz ph) \<longrightarrow> range_ok desc (p_paddr ph + p_filesz ph) (unat (p_memsz ph) - length d)))"

text \<open>A segment occupies \<^verbatim>\<open>p_memsz\<close> bytes: the file contents, and zeroes behind them.\<close>

definition load_segment :: "(nat \<Rightarrow> u8) \<Rightarrow> segment \<Rightarrow> nat \<Rightarrow> u8" where
  "load_segment m = (\<lambda>(ph, d). mem_update m (unat (p_paddr ph)) (d @ replicate (unat (p_memsz ph) - length d) 0))"

lemma segment_sizes:
  assumes V: "valid_mem desc" and s: "seg_ok desc (ph, d)" "length d = unat (p_filesz ph)"
  shows "unat (p_memsz ph - p_filesz ph) = unat (p_memsz ph) - length d"
    "unat (ucast (p_memsz ph - p_filesz ph) :: u32) = unat (p_memsz ph) - length d"
    "unat (p_paddr ph + p_filesz ph) = unat (p_paddr ph) + length d"
proof -
  have le: "length d \<le> unat (p_memsz ph)" using s(1) by (simp add: seg_ok_def)
  show d: "unat (p_memsz ph - p_filesz ph) = unat (p_memsz ph) - length d"
    using le s(2) by (simp add: unat_sub word_le_nat_alt)
  have "unat (p_memsz ph) - length d < 2 ^ 32"
    using s(1) by (cases "length d < unat (p_memsz ph)") (auto simp: seg_ok_def range_ok_def)
  then show "unat (ucast (p_memsz ph - p_filesz ph) :: u32) = unat (p_memsz ph) - length d"
    using d by (simp add: unsigned_ucast_eq take_bit_nat_eq_self)
  have "unat (p_paddr ph) + unat (p_filesz ph) < 2 ^ 64"
    using s valid_mem_facts(8) [OF V] by (auto simp: seg_ok_def range_ok_def intro: less_le_trans)
  then show "unat (p_paddr ph + p_filesz ph) = unat (p_paddr ph) + length d"
    using s(2) by (simp add: unat_word_ariths)
qed

lemma load_loop_device:
  assumes V: "valid_mem desc" and D: "mam_device z desc h mem P"
    and segs: "\<forall>i < length segs. case segs ! i of (ph, d) \<Rightarrow> gelf_getphdr elf e i = Some ph
           \<and> elf_getdata_rawchunk elf e (p_offset ph) (p_filesz ph) = Some d \<and> length d = unat (p_filesz ph)"
    and ok: "\<forall>s \<in> set segs. seg_ok desc s"
  shows "i + k = length segs \<Longrightarrow> P w \<Longrightarrow>
     \<exists>w'. load_loop elf z desc h e i k w = Some (OSD_OK, w') \<and> P w' \<and> mem w' = foldl load_segment (mem w) (drop i segs)"
proof (induction k arbitrary: i w)
  case (Suc k)
  obtain ph d where s: "segs ! i = (ph, d)" by fastforce
  have i: "i < length segs" using Suc.prems(1) by simp
  have ph: "gelf_getphdr elf e i = Some ph" "elf_getdata_rawchunk elf e (p_offset ph) (p_filesz ph) = Some d"
    "length d = unat (p_filesz ph)" using segs i s by fastforce+
  have sok: "seg_ok desc (ph, d)" using ok i s by (metis nth_mem)
  note sz = segment_sizes [OF V sok ph(3)]
  let ?n = "unat (p_memsz ph) - length d" let ?a = "p_paddr ph + p_filesz ph"
  obtain w1 where w1: "osd_cl_mam_write z desc h d (length d) (p_paddr ph) w = Some (OSD_OK, w1)" "P w1"
    "mem w1 = mem_update (mem w) (unat (p_paddr ph)) d"
    using mam.write_law [of desc z h mem P w "p_paddr ph" "length d" d] V D Suc.prems(2) sok by (auto simp: seg_ok_def)
  obtain w2 where w2: "(if 0 < ?n then osd_cl_mam_write z desc h (replicate ?n 0) ?n ?a w1 else Some (OSD_OK, w1)) = Some (OSD_OK, w2)"
    "P w2" "mem w2 = mem_update (mem w1) (unat (p_paddr ph) + length d) (replicate ?n 0)"
    using mam.write_law [of desc z h mem P w1 ?a ?n "replicate ?n 0"] V D w1(2) sok sz(3)
    by (cases "0 < ?n") (auto simp: seg_ok_def)
  have "mem w2 = load_segment (mem w) (segs ! i)"
    using w1(3) w2(3) by (simp add: load_segment_def s mem_update_append)
  moreover have "load_loop elf z desc h e i (Suc k) w = load_loop elf z desc h e (Suc i) k w2"
    using w1(1) w2(1) unfolding load_loop.simps ph option.case Let_def word_less_nat_alt sz(1,2)
    by (simp split del: if_split)
  moreover have "drop i segs = segs ! i # drop (Suc i) segs" using i by (rule Cons_nth_drop_Suc [symmetric])
  ultimately show ?case using Suc.IH [of "Suc i" w2] Suc.prems(1) w2(2) by simp
qed simp

lemma verify_loop_device:
  assumes V: "valid_mem desc" and D: "mam_device z desc h mem P"
    and segs: "\<forall>i < length segs. case segs ! i of (ph, d) \<Rightarrow> gelf_getphdr elf e i = Some ph
           \<and> elf_getdata_rawchunk elf e (p_offset ph) (p_filesz ph) = Some d \<and> length d = unat (p_filesz ph)"
    and ok: "\<forall>s \<in> set segs. seg_ok desc s"
  shows "i + k = length segs \<Longrightarrow> P w \<Longrightarrow>
     \<exists>w'. verify_loop elf z junk desc h e i k w =
         Some (if \<forall>(ph, d) \<in> set (drop i segs). mem_range (mem w) (unat (p_paddr ph)) (length d) = d
               then OSD_OK else OSD_ERROR_MEM_VERIFY_FAILED, w')
       \<and> P w' \<and> mem w' = mem w"
proof (induction k arbitrary: i w)
  case (Suc k)
  obtain ph d where s: "segs ! i = (ph, d)" by fastforce
  have i: "i < length segs" using Suc.prems(1) by simp
  have ph: "gelf_getphdr elf e i = Some ph" "elf_getdata_rawchunk elf e (p_offset ph) (p_filesz ph) = Some d"
    using segs i s by fastforce+
  have sok: "seg_ok desc (ph, d)" using ok i s by (metis nth_mem)
  let ?m = "mem_range (mem w) (unat (p_paddr ph)) (length d)"
  obtain w1 where w1: "osd_cl_mam_read z desc h (map junk [0..<length d]) (length d) (p_paddr ph) w = Some (OSD_OK, ?m, w1)"
    "P w1" "mem w1 = mem w"
    using mam.read_law [of desc z h mem P w "p_paddr ph" "length d" "map junk [0..<length d]"] V D Suc.prems(2) sok
    by (auto simp: seg_ok_def patch_def)
  have "drop i segs = (ph, d) # drop (Suc i) segs" using i s Cons_nth_drop_Suc [of i segs] by simp
  then show ?case
    using Suc.IH [of "Suc i" w1] Suc.prems(1) w1 by (auto simp: ph)
qed simp

section \<open>Descriptions of memories\<close>

text \<open>What the registers of a memory module say about it.\<close>

definition reg64 :: "(u16 \<times> u16 \<Rightarrow> u16) \<Rightarrow> u16 \<Rightarrow> (nat \<Rightarrow> u16) \<Rightarrow> u64" where
  "reg64 R a reg = foldl (\<lambda>acc j. acc OR push_bit (j * 16) (ucast (R (a, reg j)))) 0 [0..<4]"

definition region_of :: "(u16 \<times> u16 \<Rightarrow> u16) \<Rightarrow> u16 \<Rightarrow> nat \<Rightarrow> osd_mem_desc_region" where
  "region_of R a i = \<lparr>baseaddr = reg64 R a (OSD_REG_MAM_REGION_BASEADDR i), memsize = reg64 R a (OSD_REG_MAM_REGION_MEMSIZE i)\<rparr>"

definition mem_desc_of :: "(u16 \<times> u16 \<Rightarrow> u16) \<Rightarrow> u16 \<Rightarrow> osd_mem_desc" where
  "mem_desc_of R a =
     (let n = ucast (R (a, OSD_REG_MAM_REGIONS)) :: u8
      in \<lparr>mem_di_addr = ucast a, mem_data_width_bit = R (a, OSD_REG_MAM_DW), mem_addr_width_bit = R (a, OSD_REG_MAM_AW),
          num_regions = n,
          regions = map (region_of R a) [0..<unat n] @ replicate (8 - unat n) \<lparr>baseaddr = 0, memsize = 0\<rparr>\<rparr>)"

lemma join_bytes:
  fixes acc :: u64 and v :: u16
  assumes "i < 4"
  shows "(acc OR push_bit (i * 16 + 8) (ucast (ucast (drop_bit 8 v AND 0xFF) :: u8)))
     OR push_bit (i * 16) (ucast (ucast (v AND 0xFF) :: u8)) = acc OR push_bit (i * 16) (ucast v)"
proof -
  have m: "(0xFF :: u16) = mask 8" by (simp add: mask_eq_exp_minus_1)
  show ?thesis
  proof (rule bit_word_eqI)
    fix n assume "n < LENGTH(64)"
    consider "n < i * 16" | "i * 16 \<le> n" "n < i * 16 + 8" | "i * 16 + 8 \<le> n" "n < i * 16 + 16" | "i * 16 + 16 \<le> n" by linarith
    then show "bit ((acc OR push_bit (i * 16 + 8) (ucast (ucast (drop_bit 8 v AND 0xFF) :: u8)))
       OR push_bit (i * 16) (ucast (ucast (v AND 0xFF) :: u8))) n = bit (acc OR push_bit (i * 16) (ucast v)) n"
      unfolding m by cases (auto simp: bit_simps dest: bit_imp_le_length)
  qed
qed

lemma read_reg64_device:
  assumes D: "device_ok z ctx regs P"
  shows "P w \<Longrightarrow> i + k \<le> 4 \<Longrightarrow> \<exists>w'. read_reg64 z ctx a reg i k acc w =
     Some (Inr (foldl (\<lambda>acc j. acc OR push_bit (j * 16) (ucast (regs w (a, reg j)))) acc [i..<i + k]), w') \<and> P w' \<and> regs w' = regs w"
proof (induction k arbitrary: i acc w)
  case (Suc k)
  have "device_ok z ctx regs P \<and> P w" using D Suc.prems(1) by simp
  then obtain w1 where 1: "osd_hostmod_reg_read z ctx a (reg i) 16 0 w = Some (Inr [regs w (a, reg i)], w1)"
    "device_ok z ctx regs P \<and> P w1" "regs w1 = regs w" by (rule hm.readE)
  have "[i..<i + Suc k] = i # [Suc i..<Suc i + k]" by (simp add: upt_conv_Cons)
  then show ?case
    using Suc.IH [of w1 "Suc i"] Suc.prems(2) 1 by (simp add: join_bytes Let_def)
qed simp

lemma read_regions_device:
  assumes D: "device_ok z ctx regs P"
  shows "P w \<Longrightarrow> region + k \<le> length rs \<Longrightarrow>
     \<exists>w'. read_regions z ctx a region k rs w =
       Some (OSD_OK, take region rs @ map (region_of (regs w) a) [region..<region + k] @ drop (region + k) rs, w')
     \<and> P w' \<and> regs w' = regs w"
proof (induction k arbitrary: region rs w)
  case (Suc k)
  obtain w1 where 1: "read_reg64 z ctx a (OSD_REG_MAM_REGION_BASEADDR region) 0 4 0 w =
      Some (Inr (reg64 (regs w) a (OSD_REG_MAM_REGION_BASEADDR region)), w1)" "P w1" "regs w1 = regs w"
    using read_reg64_device [OF D Suc.prems(1), of 0 4 a "OSD_REG_MAM_REGION_BASEADDR region" 0] by (auto simp: reg64_def)
  obtain w2 where 2: "read_reg64 z ctx a (OSD_REG_MAM_REGION_MEMSIZE region) 0 4 0 w1 =
      Some (Inr (reg64 (regs w) a (OSD_REG_MAM_REGION_MEMSIZE region)), w2)" "P w2" "regs w2 = regs w"
    using read_reg64_device [OF D 1(2), of 0 4 a "OSD_REG_MAM_REGION_MEMSIZE region" 0] 1(3) by (auto simp: reg64_def)
  let ?r = "region_of (regs w) a region" let ?rs = "rs[region := ?r]"
  have lt: "region < length rs" using Suc.prems(2) by simp
  have step: "read_regions z ctx a region (Suc k) rs w = read_regions z ctx a (Suc region) k ?rs w2"
    using lt 1(1) 2(1) by (cases "rs ! region") (simp add: Let_def region_of_def)
  have "take (Suc region) ?rs = take region rs @ [?r]" using lt by (simp add: take_Suc_conv_app_nth)
  moreover have "drop (Suc region + k) ?rs = drop (region + Suc k) rs" by (simp add: drop_update_cancel)
  moreover have "[region..<region + Suc k] = region # [Suc region..<Suc region + k]" by (simp add: upt_conv_Cons)
  ultimately show ?case
    unfolding step using Suc.IH [of w2 "Suc region" ?rs] Suc.prems(2) 2(2,3) by simp
qed simp

lemma get_mem_desc_device:
  assumes D: "device_ok z ctx regs P" and w: "P w" and n: "(ucast (regs w (a, OSD_REG_MAM_REGIONS)) :: u8) \<le> 8"
  shows "\<exists>w'. osd_cl_mam_get_mem_desc z ctx (ucast a) d w = Some (OSD_OK, mem_desc_of (regs w) a, w') \<and> P w' \<and> regs w' = regs w"
proof -
  let ?up = "\<lambda>w. device_ok z ctx regs P \<and> P w"
  have u: "ucast (ucast a :: u32) = a" by (rule bit_word_eqI) (auto simp: bit_simps dest: bit_imp_le_length)
  have "?up w" using D w by simp
  then obtain w1 where 1: "osd_hostmod_reg_read z ctx a OSD_REG_MAM_AW 16 0 w = Some (Inr [regs w (a, OSD_REG_MAM_AW)], w1)"
    "?up w1" "regs w1 = regs w" by (rule hm.readE)
  obtain w2 where 2: "osd_hostmod_reg_read z ctx a OSD_REG_MAM_DW 16 0 w1 = Some (Inr [regs w1 (a, OSD_REG_MAM_DW)], w2)"
    "?up w2" "regs w2 = regs w1" using 1(2) by (rule hm.readE)
  obtain w3 where 3: "osd_hostmod_reg_read z ctx a OSD_REG_MAM_REGIONS 16 0 w2 = Some (Inr [regs w2 (a, OSD_REG_MAM_REGIONS)], w3)"
    "?up w3" "regs w3 = regs w2" using 2(2) by (rule hm.readE)
  let ?n = "unat (ucast (regs w (a, OSD_REG_MAM_REGIONS)) :: u8)"
  have "?n \<le> 8" using n by (simp add: word_le_nat_alt)
  then obtain w4 where 4: "read_regions z ctx a 0 ?n (replicate 8 \<lparr>baseaddr = 0, memsize = 0\<rparr>) w3 =
      Some (OSD_OK, map (region_of (regs w) a) [0..<?n] @ replicate (8 - ?n) \<lparr>baseaddr = 0, memsize = 0\<rparr>, w4)" "P w4" "regs w4 = regs w"
    using read_regions_device [OF D, of w3 0 ?n "replicate 8 \<lparr>baseaddr = 0, memsize = 0\<rparr>" a] 3 2(3) 1(3) by auto
  show ?thesis
    using 1 2 3 4 n by (simp add: osd_cl_mam_get_mem_desc_def mem_desc_of_def u Let_def)
qed

lemma find_memories_loop_device:
  assumes D: "device_ok z ctx regs P"
  shows "P w \<Longrightarrow> (\<And>m. m \<in> set mods \<Longrightarrow> is_supported_mam m \<Longrightarrow> (ucast (regs w (mod_addr m, OSD_REG_MAM_REGIONS)) :: u8) \<le> 8)
     \<Longrightarrow> length mems = nr + length (filter is_supported_mam mods) \<Longrightarrow>
     \<exists>w'. find_memories_loop z ctx mods mems nr OSD_OK w =
       Some (OSD_OK, take nr mems @ map (\<lambda>m. mem_desc_of (regs w) (mod_addr m)) (filter is_supported_mam mods), w')
     \<and> P w' \<and> regs w' = regs w"
proof (induction mods arbitrary: mems nr w)
  case (Cons m ms)
  show ?case
  proof (cases "is_supported_mam m")
    case True
    let ?d = "mem_desc_of (regs w) (mod_addr m)"
    obtain w1 where 1: "osd_cl_mam_get_mem_desc z ctx (ucast (mod_addr m)) (mems ! nr) w = Some (OSD_OK, ?d, w1)" "P w1" "regs w1 = regs w"
      using get_mem_desc_device [OF D Cons.prems(1), of "mod_addr m" "mems ! nr"] Cons.prems(2) [of m] True by auto
    have nr: "nr < length mems" using Cons.prems(3) True by simp
    have "take (Suc nr) (mems[nr := ?d]) = take nr mems @ [?d]" using nr by (simp add: take_Suc_conv_app_nth)
    then show ?thesis
      using Cons.IH [of w1 "mems[nr := ?d]" "Suc nr"] Cons.prems(2,3) 1 True nr by simp
  next
    case False
    then show ?thesis using Cons.IH [of w mems nr] Cons.prems by simp
  qed
qed simp

section \<open>Properties\<close>

lemma loadelf_device:
  assumes "valid_mem desc" "mam_device z desc (ma_hostmod_ctx ctx) mem P" "P w"
    and "elf_holds elf path segs" "\<forall>s \<in> set segs. seg_ok desc s"
  shows "\<exists>w'. osd_memaccess_loadelf elf z junk ctx desc path verify w =
       Some (if \<not> verify \<or> (\<forall>(ph, d) \<in> set segs. mem_range (mem w') (unat (p_paddr ph)) (length d) = d)
             then OSD_OK else OSD_ERROR_MEM_VERIFY_FAILED, w')
     \<and> P w' \<and> mem w' = foldl load_segment (mem w) segs"
proof -
  obtain fd e where e: "elf_version elf" "elf_open elf path = Some fd" "elf_begin elf fd = Some e"
    "elf_getphdrnum elf e = Some (length segs)"
    and segs: "\<forall>i < length segs. case segs ! i of (ph, d) \<Rightarrow> gelf_getphdr elf e i = Some ph
           \<and> elf_getdata_rawchunk elf e (p_offset ph) (p_filesz ph) = Some d \<and> length d = unat (p_filesz ph)"
    using assms(4) unfolding elf_holds_def by blast
  have R: "hm_is_connected (ma_hostmod_ctx ctx)" using assms(2) by (simp add: mam_device_def ready_def)
  obtain w1 where w1: "load_loop elf z desc (ma_hostmod_ctx ctx) e 0 (length segs) w = Some (OSD_OK, w1)" "P w1"
    "mem w1 = foldl load_segment (mem w) segs"
    using load_loop_device [OF assms(1,2) segs assms(5), of 0 "length segs" w] assms(3) by auto
  obtain w2 where "verify_loop elf z junk desc (ma_hostmod_ctx ctx) e 0 (length segs) w1 =
      Some (if \<forall>(ph, d) \<in> set segs. mem_range (mem w1) (unat (p_paddr ph)) (length d) = d
            then OSD_OK else OSD_ERROR_MEM_VERIFY_FAILED, w2)" "P w2" "mem w2 = mem w1"
    using verify_loop_device [OF assms(1,2) segs assms(5), of 0 "length segs" w1 junk] w1(2) by auto
  then show ?thesis
    using e R w1 by (cases verify) (simp_all add: osd_memaccess_loadelf_def osd_hostmod_is_connected_def del: split_paired_All)
qed

text \<open>
  (C14) Loading an ELF file writes every segment, into a memory of a supported geometry (\<open>valid_mem\<close>) in which both the file contents of
  every segment and the zeroes behind them, where there are any, are a range that is at least one word long or lies within a word
  (\<open>seg_ok\<close>; another range, such as a short tail of zeroes across a word boundary, aborts): afterwards the memory is the old one with, segment by
  segment, the file contents at the physical address of the segment and zeroes up to its size in memory, and
  nothing else is changed. With verification the result is OSD_OK exactly if the memory holds the file
  contents of every segment (which overlapping segments can prevent), and a verification failure otherwise.
\<close>

theorem loadelf_loads_segments:
  assumes "valid_mem desc" "mam_device z desc (ma_hostmod_ctx ctx) mem P" "P w"
    and "elf_holds elf path segs" "\<forall>s \<in> set segs. seg_ok desc s"
  shows "\<exists>w'. osd_memaccess_loadelf elf z junk ctx desc path verify w =
       Some (if \<not> verify \<or> (\<forall>(ph, d) \<in> set segs. mem_range (mem w') (unat (p_paddr ph)) (length d) = d)
             then OSD_OK else OSD_ERROR_MEM_VERIFY_FAILED, w')
     \<and> P w' \<and> mem w' = foldl load_segment (mem w) segs"
  using assms by (rule loadelf_device)

definition demo_elf :: "(unit, unit, unit, unit) libelf" where
  "demo_elf = \<lparr>elf_version = True, elf_open = (\<lambda>_. Some ()), elf_begin = (\<lambda>_. Some ()), elf_getphdrnum = (\<lambda>_. Some 1),
     gelf_getphdr = (\<lambda>_ _. Some \<lparr>p_offset = 64, p_filesz = 5, p_memsz = 8, p_paddr = 4\<rparr>),
     elf_getdata_rawchunk = (\<lambda>_ _ _. Some [1, 2, 3, 4, 5]), elf_nextscn = (\<lambda>_ _. None),
     gelf_getshdr = (\<lambda>_. None), elf_getdata = (\<lambda>_. None), gelf_getsym = (\<lambda>_ _. None), elf_strptr = (\<lambda>_ _ _. None)\<rparr>"

theorem loadelf_loads_segments_witness:
  "\<exists>w'. osd_memaccess_loadelf demo_elf (mam_sim_zmq demo_mem sim_ctx) (\<lambda>_. 0) \<lparr>ma_hostmod_ctx = sim_ctx\<rparr> demo_mem ''a.out'' True
       (demo_sim\<lparr>sim_mem := (\<lambda>_. 9)\<rparr>) = Some (OSD_OK, w')
     \<and> mem_range (sim_mem w') 3 10 = [9, 1, 2, 3, 4, 5, 0, 0, 0, 9]"
proof -
  let ?ph = "\<lparr>p_offset = 64, p_filesz = 5, p_memsz = 8, p_paddr = 4\<rparr>" let ?d = "[1, 2, 3, 4, 5 :: u8]"
  have E: "elf_holds demo_elf ''a.out'' [(?ph, ?d)]" by (simp add: elf_holds_def demo_elf_def)
  have S: "\<forall>s \<in> set [(?ph, ?d)]. seg_ok demo_mem s"
    by (simp add: seg_ok_def range_ok_def demo_mem_def dwb_def awb_def)
  have I: "sim_idle (demo_sim\<lparr>sim_mem := (\<lambda>_. 9)\<rparr>)" by (simp add: sim_idle_def demo_sim_def)
  let ?m = "load_segment (\<lambda>_. 9) (?ph, ?d)"
  have m: "mem_range ?m 3 10 = [9, 1, 2, 3, 4, 5, 0, 0, 0, 9]" "mem_range ?m 4 (length ?d) = ?d"
    by (simp_all add: mem_range_def load_segment_def mem_update_def upt_rec numeral_3_eq_3)
  from loadelf_loads_segments [of demo_mem "mam_sim_zmq demo_mem sim_ctx" "\<lparr>ma_hostmod_ctx = sim_ctx\<rparr>" sim_mem sim_idle _ demo_elf "''a.out''",
      OF demo_mem_ok(1) _ I E S, of "\<lambda>_. 0" True] demo_mem_ok(2) m
  show ?thesis by auto
qed

text \<open>
  (C27) If the device has at most 1024 modules, every one with a vendor and a type that the name tables can be indexed with, and
  every supported memory module reports at most 8 regions (more fail an assertion), then
  the memories found in subnet 0 are exactly its supported memory modules, in the order of their
  addresses, each with the widths and the regions that its registers describe; no register is changed.
\<close>

theorem find_memories_complete:
  assumes "device_ok z (ma_hostmod_ctx ctx) regs P" "P w" "unat (regs w (0, OSD_REG_SCM_NUM_MOD)) \<le> 1024"
    and "\<And>a. unat a < unat (regs w (0, OSD_REG_SCM_NUM_MOD)) \<Longrightarrow> osd_module_get_type_short_name
            (ucast (regs w (a, OSD_REG_BASE_MOD_VENDOR))) (ucast (regs w (a, OSD_REG_BASE_MOD_TYPE))) \<noteq> None"
    and "\<And>a. is_supported_mam (desc_of (regs w) a) \<Longrightarrow> (ucast (regs w (a, OSD_REG_MAM_REGIONS)) :: u8) \<le> 8"
  shows "\<exists>w'. osd_memaccess_find_memories z ctx 0 w =
       Some (OSD_OK, Some (map (mem_desc_of (regs w))
          (filter (\<lambda>a. is_supported_mam (desc_of (regs w) a)) (map of_nat [0..<unat (regs w (0, OSD_REG_SCM_NUM_MOD))]))), w')
     \<and> P w' \<and> regs w' = regs w"
proof -
  let ?mods = "map (\<lambda>i. desc_of (regs w) (of_nat i)) [0..<unat (regs w (0, OSD_REG_SCM_NUM_MOD))]"
  obtain w1 where 1: "osd_hostmod_get_modules z (ma_hostmod_ctx ctx) 0 w = Some (OSD_OK, Some ?mods, w1)" "P w1" "regs w1 = regs w"
    using get_modules_device [OF assms(1-4)] by auto
  have ad: "mod_addr (desc_of R a) = a" for R a by (simp add: desc_of_def)
  have "(ucast (regs w1 (mod_addr m, OSD_REG_MAM_REGIONS)) :: u8) \<le> 8" if "m \<in> set ?mods" "is_supported_mam m" for m
    using that assms(5) 1(3) by (auto simp: ad)
  then obtain w2 where 2: "find_memories_loop z (ma_hostmod_ctx ctx) ?mods (replicate (length (filter is_supported_mam ?mods)) zero_mem_desc) 0 OSD_OK w1 =
      Some (OSD_OK, map (\<lambda>m. mem_desc_of (regs w1) (mod_addr m)) (filter is_supported_mam ?mods), w2)" "P w2" "regs w2 = regs w1"
    using find_memories_loop_device [OF assms(1) 1(2), of ?mods "replicate (length (filter is_supported_mam ?mods)) zero_mem_desc" 0] by auto
  have "map (\<lambda>m. mem_desc_of (regs w1) (mod_addr m)) (filter is_supported_mam ?mods) = map (mem_desc_of (regs w))
      (filter (\<lambda>a. is_supported_mam (desc_of (regs w) a)) (map of_nat [0..<unat (regs w (0, OSD_REG_SCM_NUM_MOD))]))"
    by (simp add: filter_map comp_def ad 1(3))
  then show ?thesis using 1 2 by (simp add: osd_memaccess_find_memories_def)
qed

definition mam_regs :: "u16 \<times> u16 \<Rightarrow> u16" where
  "mam_regs = (\<lambda>_. 0)((0, OSD_REG_SCM_NUM_MOD) := 2, (0, 0) := 1, (0, 1) := 1, (1, 0) := 1, (1, 1) := 3,
     (1, 0x200) := 32, (1, 0x201) := 32, (1, 0x202) := 1, (1, 0x281) := 0x8000, (1, 0x284) := 0x4000)"

theorem find_memories_complete_witness:
  "\<exists>w'. osd_memaccess_find_memories sim_zmq \<lparr>ma_hostmod_ctx = sim_ctx\<rparr> 0 (mam_regs, []) =
     Some (OSD_OK, Some [mem_desc_of mam_regs 1], w')"
proof -
  have n: "unat (mam_regs (0, OSD_REG_SCM_NUM_MOD)) = 2" by (simp add: mam_regs_def reg_consts)
  have small: "a = 0 \<or> a = 1" if "unat a < 2" for a :: u16
  proof -
    from that have "unat a = unat (0 :: u16) \<or> unat a = unat (1 :: u16)" by simp linarith
    then show ?thesis by (simp only: word_unat_eq_iff)
  qed
  have names: "osd_module_get_type_short_name (ucast (mam_regs (a, OSD_REG_BASE_MOD_VENDOR))) (ucast (mam_regs (a, OSD_REG_BASE_MOD_TYPE))) \<noteq> None"
    if "unat a < 2" for a
    using small [OF that] by (auto simp: mam_regs_def reg_consts osd_module_get_type_short_name_def OSD_MODULE_VENDOR_OSD_def
        OSD_MODULE_TYPE_STD_shortnames_def sizeof_ptr_array_def)
  have R: "(ucast (mam_regs (a, OSD_REG_MAM_REGIONS)) :: u8) \<le> 8" for a
    by (simp add: mam_regs_def reg_consts)
  have f: "filter (\<lambda>a. is_supported_mam (desc_of mam_regs a)) (map of_nat [0..<2]) = [1]"
    by (simp add: upt_rec is_supported_mam_def desc_of_def mam_regs_def reg_consts OSD_MODULE_VENDOR_OSD_def OSD_MODULE_TYPE_STD_MAM_def)
  from find_memories_complete [of sim_zmq "\<lparr>ma_hostmod_ctx = sim_ctx\<rparr>" fst "\<lambda>w. snd w = []" "(mam_regs, [])"] sim_ok n names R f
  show ?thesis by auto
qed

end
