(* ===== verification/Gateway.thy ===== *)
theory Gateway
  imports Hostmod_Io
begin

text \<open>
  The gateway between the host controller and a device (\<^verbatim>\<open>gateway.c\<close>): a worker thread talks to the
  host controller, a plain thread reads packets from the device.

  The worker thread writes two members of the gateway context through pointers
  (\<^verbatim>\<open>device_disconnect_detected\<close> and \<^verbatim>\<open>stats\<close>); its functions take the context as an argument and return it.
  Parameters: \<open>packet_read\<close> and \<open>packet_write\<close> are the callbacks of the user, \<open>os\<close> the thread
  functions and clocks of the system.
\<close>

section \<open>Data\<close>

type_synonym timespec = "int \<times> int"

record osd_gateway_transfer_stats =
  connect_time :: timespec
  bytes_from_device :: u64
  bytes_to_device :: u64

record osd_gateway_ctx =
  is_connected_to_hostctrl :: bool
  is_connected_to_device :: bool
  device_disconnect_detected :: bool
  gw_ioworker_ctx :: bool
  gw_device_rx_socket :: bool
  gw_stats :: osd_gateway_transfer_stats

record 'w hostiothread_usr_ctx =
  gw_hostctrl_socket :: bool
  gw_host_controller_address :: string
  packet_write :: "osd_packet \<Rightarrow> 'w \<Rightarrow> osd_result \<times> 'w"
  io_device_rx_socket :: bool
  device_subnet_addr :: u16

definition DEVICE_DISCONNECT_TIMEOUT_SECONDS :: int where "DEVICE_DISCONNECT_TIMEOUT_SECONDS = 2"

definition ETIMEDOUT :: int where "ETIMEDOUT = 110"

datatype clockid = CLOCK_REALTIME | CLOCK_MONOTONIC

record 'w rx_os =
  clock_gettime :: "clockid \<Rightarrow> 'w \<Rightarrow> (int \<times> timespec) \<times> 'w"
  rx_pthread_create :: "'w \<Rightarrow> int \<times> 'w"
  pthread_timedjoin_np :: "timespec \<Rightarrow> 'w \<Rightarrow> int \<times> 'w"
  rx_pthread_cancel :: "'w \<Rightarrow> 'w"
  rx_pthread_join :: "'w \<Rightarrow> 'w"

section \<open>Statistics\<close>

definition stats_start :: "'w rx_os \<Rightarrow> osd_gateway_ctx \<Rightarrow> 'w \<Rightarrow> (osd_gateway_ctx \<times> 'w) option" where
  "stats_start os ctx w =
     do { let ((irv, t), w) = clock_gettime os CLOCK_MONOTONIC w;
          c_assert (irv = 0);
          Some (ctx\<lparr>gw_stats := \<lparr>connect_time = t, bytes_from_device = 0, bytes_to_device = 0\<rparr>\<rparr>, w) }"

definition stats_add_pkg :: "u64 \<Rightarrow> osd_packet \<Rightarrow> u64" where
  "stats_add_pkg byte_counter pkg = byte_counter + ucast (data_size_words pkg) * 2"

section \<open>The thread reading from the device\<close>

text \<open>
  The thread function. It ends when the device is disconnected; other read failures are tried
  again. The result of sending is ignored.
\<close>

partial_function (option) devicerxthread_main ::
  "'w zmq \<Rightarrow> ('w \<Rightarrow> (osd_result + osd_packet) \<times> 'w) \<Rightarrow> osd_gateway_ctx \<Rightarrow> 'w
    \<Rightarrow> (osd_result \<times> osd_gateway_ctx \<times> 'w) option" where
  "devicerxthread_main z packet_read ctx w =
     (case packet_read w of
        (Inl rv, w) \<Rightarrow>
          if rv = OSD_ERROR_NOT_CONNECTED
          then Some (OSD_ERROR_NOT_CONNECTED, ctx\<lparr>device_disconnect_detected := True\<rparr>, w)
          else devicerxthread_main z packet_read ctx w
      | (Inr rcv_packet, w) \<Rightarrow>
          do { frame \<leftarrow> packet_frame rcv_packet;
               let (zmq_rv, w) = zmsg_send z Device_rx_main [str_bytes ''D'', frame] w;
               let ctx = ctx\<lparr>gw_stats := (gw_stats ctx)\<lparr>bytes_from_device :=
                     stats_add_pkg (bytes_from_device (gw_stats ctx)) rcv_packet\<rparr>\<rparr>;
               devicerxthread_main z packet_read ctx w })"

section \<open>The worker thread\<close>

text \<open>A message cannot be sent to a NULL socket.\<close>

definition hostiothread_send_cmd ::
  "'w zmq \<Rightarrow> 'w hostiothread_usr_ctx \<Rightarrow> string \<Rightarrow> 'w \<Rightarrow> (osd_result \<times> 'w) option" where
  "hostiothread_send_cmd z usrctx command w =
     do { c_assert (gw_hostctrl_socket usrctx);
          let (rv, w) = zmsg_send z Hostctrl_socket [str_bytes ''M'', str_bytes command] w;
          if rv \<noteq> 0 then Some (OSD_ERROR_FAILURE, w)
          else (case zmsg_recv z Hostctrl_socket w of
                  (Received msg_resp, w) \<Rightarrow>
                    (case msg_resp of
                       type_frame # status_frame # _ \<Rightarrow>
                         do { c_assert (frame_streq type_frame ''M'');
                              if \<not> frame_streq status_frame ''ACK'' then Some (OSD_ERROR_FAILURE, w)
                              else Some (OSD_OK, w) }
                     | _ \<Rightarrow> None)
                | (_, w) \<Rightarrow> Some (OSD_ERROR_FAILURE, w)) }"

definition hostiothread_register_gw ::
  "'w zmq \<Rightarrow> 'w hostiothread_usr_ctx \<Rightarrow> 'w \<Rightarrow> (osd_result \<times> 'w) option" where
  "hostiothread_register_gw z usrctx w =
     do { (osd_rv, w) \<leftarrow> hostiothread_send_cmd z usrctx (''GW_REGISTER '' @ fmt_u (unat (device_subnet_addr usrctx))) w;
          if OSD_FAILED osd_rv then Some (osd_rv, w) else Some (OSD_OK, w) }"

definition hostiothread_unregister_gw ::
  "'w zmq \<Rightarrow> 'w hostiothread_usr_ctx \<Rightarrow> 'w \<Rightarrow> (osd_result \<times> 'w) option" where
  "hostiothread_unregister_gw z usrctx w =
     do { (osd_rv, w) \<leftarrow> hostiothread_send_cmd z usrctx (''GW_UNREGISTER '' @ fmt_u (unat (device_subnet_addr usrctx))) w;
          if OSD_FAILED osd_rv then Some (osd_rv, w) else Some (OSD_OK, w) }"

definition hostiothread_connect_to_hostctrl ::
  "'w zmq \<Rightarrow> 'w hostiothread_usr_ctx \<Rightarrow> 'w \<Rightarrow> ('w hostiothread_usr_ctx \<times> 'w) option" where
  "hostiothread_connect_to_hostctrl z usrctx w =
     do { let (ok, w) = zsock_new z Hostctrl_socket (gw_host_controller_address usrctx) w;
          let usrctx = usrctx\<lparr>gw_hostctrl_socket := ok\<rparr>;
          (retval, w) \<leftarrow>
            (if \<not> ok then Some (-1, w)
             else do {
               (osd_rv, w) \<leftarrow> hostiothread_register_gw z usrctx w;
               if OSD_FAILED osd_rv then Some (-1, w)
               else do { let (zmq_rv, w) = zloop_reader z Hostctrl_socket w;
                         c_assert (zmq_rv = 0);
                         Some (0, w) } });
          let (usrctx, w) =
            (if retval = -1 \<and> gw_hostctrl_socket usrctx
             then (usrctx\<lparr>gw_hostctrl_socket := False\<rparr>, zsock_destroy z Hostctrl_socket w)
             else (usrctx, w));
          w \<leftarrow> worker_send_status z Inproc_thread ''I-CONNECT-DONE'' retval w;
          Some (usrctx, w) }"

definition hostiothread_disconnect_from_hostctrl ::
  "'w zmq \<Rightarrow> 'w hostiothread_usr_ctx \<Rightarrow> 'w \<Rightarrow> ('w hostiothread_usr_ctx \<times> 'w) option" where
  "hostiothread_disconnect_from_hostctrl z usrctx w =
     do { let w = zloop_reader_end z Hostctrl_socket w;
          (osd_rv, w) \<leftarrow> hostiothread_unregister_gw z usrctx w;
          let w = zsock_destroy z Hostctrl_socket w;
          let usrctx = usrctx\<lparr>gw_hostctrl_socket := False\<rparr>;
          w \<leftarrow> worker_send_status z Inproc_thread ''I-DISCONNECT-DONE'' OSD_OK w;
          Some (usrctx, w) }"

definition hostiothread_handle_inproc_request ::
  "'w zmq \<Rightarrow> string \<Rightarrow> zmsg \<Rightarrow> 'w hostiothread_usr_ctx \<Rightarrow> 'w
    \<Rightarrow> (osd_result \<times> 'w hostiothread_usr_ctx \<times> 'w) option" where
  "hostiothread_handle_inproc_request z name msg usrctx w =
     (if name = ''I-CONNECT'' then
        do { (usrctx, w) \<leftarrow> hostiothread_connect_to_hostctrl z usrctx w; Some (OSD_OK, usrctx, w) }
      else if name = ''I-DISCONNECT'' then
        do { (usrctx, w) \<leftarrow> hostiothread_disconnect_from_hostctrl z usrctx w; Some (OSD_OK, usrctx, w) }
      else None)"

text \<open>
  One message from the host controller. A packet is counted whether or not it could be written; a
  failed write ends the connection and the event loop.
\<close>

definition hostiothread_rcv_from_hostctrl ::
  "'w zmq \<Rightarrow> osd_gateway_ctx \<Rightarrow> 'w hostiothread_usr_ctx \<Rightarrow> 'w
    \<Rightarrow> (int \<times> osd_gateway_ctx \<times> 'w hostiothread_usr_ctx \<times> 'w) option" where
  "hostiothread_rcv_from_hostctrl z ctx usrctx w =
     (case zmsg_recv z Hostctrl_socket w of
        (Received msg, w) \<Rightarrow>
          (case msg of
             type_frame # data_frame # _ \<Rightarrow>
               if frame_streq type_frame ''D'' then
                 do { pkg \<leftarrow> osd_packet_new_from_zframe data_frame;
                      let (device_write_rv, w) = packet_write usrctx pkg w;
                      let ctx = ctx\<lparr>gw_stats := (gw_stats ctx)\<lparr>bytes_to_device :=
                            stats_add_pkg (bytes_to_device (gw_stats ctx)) pkg\<rparr>\<rparr>;
                      if OSD_FAILED device_write_rv then
                        do { (usrctx, w) \<leftarrow> hostiothread_disconnect_from_hostctrl z usrctx w;
                             Some (-1, ctx\<lparr>device_disconnect_detected := True\<rparr>, usrctx, w) }
                      else Some (0, ctx, usrctx, w) }
               else None
           | _ \<Rightarrow> None)
      | (_, w) \<Rightarrow> Some (-1, ctx, usrctx, w))"

definition forward_devicerx_to_hostctrl ::
  "'w zmq \<Rightarrow> 'w hostiothread_usr_ctx \<Rightarrow> 'w \<Rightarrow> (int \<times> 'w) option" where
  "forward_devicerx_to_hostctrl z usrctx w =
     (case zmsg_recv z Device_rx_thread w of
        (Received msg, w) \<Rightarrow>
          do { c_assert (gw_hostctrl_socket usrctx);
               let (zmq_rv, w) = zmsg_send z Hostctrl_socket msg w;
               c_assert (zmq_rv = 0);
               Some (0, w) }
      | (_, w) \<Rightarrow> Some (-1, w))"

definition hostiothread_init ::
  "'w zmq \<Rightarrow> 'w hostiothread_usr_ctx option \<Rightarrow> 'w \<Rightarrow> (osd_result \<times> 'w hostiothread_usr_ctx option \<times> 'w) option" where
  "hostiothread_init z usrctx w =
     do { u \<leftarrow> usrctx;
          let (ok, w) = zsock_new z Device_rx_thread ''>inproc://devicerx'' w;
          c_assert ok;
          let (zmq_rv, w) = zloop_reader z Device_rx_thread w;
          c_assert (zmq_rv = 0);
          Some (OSD_OK, Some (u\<lparr>io_device_rx_socket := True\<rparr>), w) }"

definition hostiothread_destroy ::
  "'w zmq \<Rightarrow> 'w hostiothread_usr_ctx option \<Rightarrow> 'w \<Rightarrow> (osd_result \<times> 'w hostiothread_usr_ctx option \<times> 'w) option" where
  "hostiothread_destroy z usrctx w =
     do { u \<leftarrow> usrctx; Some (OSD_OK, None, zsock_destroy z Device_rx_thread w) }"

section \<open>The main thread\<close>

definition osd_gateway_new ::
  "'w zmq \<Rightarrow> int \<Rightarrow> string \<Rightarrow> u16 \<Rightarrow> (osd_packet \<Rightarrow> 'w \<Rightarrow> osd_result \<times> 'w) \<Rightarrow> 'w
    \<Rightarrow> ((osd_result + osd_gateway_ctx \<times> 'w hostiothread_usr_ctx) \<times> 'w) option" where
  "osd_gateway_new z uninit address subnet packet_write_fn w =
     do { let u = \<lparr>gw_hostctrl_socket = False, gw_host_controller_address = address, packet_write = packet_write_fn,
                   io_device_rx_socket = False, device_subnet_addr = subnet\<rparr>;
          (rv, worker, w) \<leftarrow> worker_new z uninit w;
          if OSD_FAILED rv then Some (Inl rv, w)
          else Some (Inr (\<lparr>is_connected_to_hostctrl = False, is_connected_to_device = False,
                  device_disconnect_detected = False, gw_ioworker_ctx = worker, gw_device_rx_socket = False,
                  gw_stats = \<lparr>connect_time = (0, 0), bytes_from_device = 0, bytes_to_device = 0\<rparr>\<rparr>, u), w) }"

definition connect_to_hostctrl ::
  "'w zmq \<Rightarrow> osd_gateway_ctx \<Rightarrow> 'w \<Rightarrow> (osd_result \<times> osd_gateway_ctx \<times> 'w) option" where
  "connect_to_hostctrl z ctx w =
     (if is_connected_to_hostctrl ctx then Some (OSD_OK, ctx, w)
      else do {
        c_assert (gw_ioworker_ctx ctx);
        (rv, w) \<leftarrow> worker_main_send_status z ''I-CONNECT'' 0 w;
        if OSD_FAILED rv then Some (OSD_ERROR_CONNECTION_FAILED, ctx, w)
        else do {
          (st, w) \<leftarrow> worker_wait_for_status z Inproc_main ''I-CONNECT-DONE'' w;
          (case st of
             Inl _ \<Rightarrow> Some (OSD_ERROR_CONNECTION_FAILED, ctx, w)
           | Inr retval \<Rightarrow>
               if retval = -1 then Some (OSD_ERROR_CONNECTION_FAILED, ctx, w)
               else Some (OSD_OK, ctx\<lparr>is_connected_to_hostctrl := True\<rparr>, w)) } })"

definition connect_to_device ::
  "'w zmq \<Rightarrow> 'w rx_os \<Rightarrow> osd_gateway_ctx \<Rightarrow> 'w \<Rightarrow> (osd_result \<times> osd_gateway_ctx \<times> 'w) option" where
  "connect_to_device z os ctx w =
     do { let (ok, w) = zsock_new z Device_rx_main ''@inproc://devicerx'' w;
          c_assert ok;
          let (irv, w) = rx_pthread_create os w;
          c_assert (irv = 0);
          Some (OSD_OK, ctx\<lparr>gw_device_rx_socket := True, is_connected_to_device := True\<rparr>, w) }"

definition disconnect_from_hostctrl ::
  "'w zmq \<Rightarrow> osd_gateway_ctx \<Rightarrow> 'w \<Rightarrow> (osd_result \<times> osd_gateway_ctx \<times> 'w) option" where
  "disconnect_from_hostctrl z ctx w =
     (if \<not> is_connected_to_hostctrl ctx then Some (OSD_OK, ctx, w)
      else do {
        c_assert (gw_ioworker_ctx ctx);
        (rv, w) \<leftarrow> worker_main_send_status z ''I-DISCONNECT'' 0 w;
        if rv \<noteq> OSD_ERROR_NOT_CONNECTED then
          do { (st, w) \<leftarrow> worker_wait_for_status z Inproc_main ''I-DISCONNECT-DONE'' w;
               (case st of
                  Inl rv \<Rightarrow> Some (rv, ctx, w)
                | Inr retval \<Rightarrow>
                    if OSD_FAILED retval then Some (retval, ctx, w)
                    else Some (OSD_OK, ctx\<lparr>is_connected_to_hostctrl := False\<rparr>, w)) }
        else Some (OSD_OK, ctx\<lparr>is_connected_to_hostctrl := False\<rparr>, w) })"

definition disconnect_from_device ::
  "'w zmq \<Rightarrow> 'w rx_os \<Rightarrow> osd_gateway_ctx \<Rightarrow> 'w \<Rightarrow> (osd_result \<times> osd_gateway_ctx \<times> 'w) option" where
  "disconnect_from_device z os ctx w =
     (if \<not> is_connected_to_device ctx then Some (OSD_OK, ctx, w)
      else do {
        let ((irv, (tv_sec, tv_nsec)), w) = clock_gettime os CLOCK_REALTIME w;
        c_assert (irv = 0);
        let (irv, w) = pthread_timedjoin_np os (tv_sec + DEVICE_DISCONNECT_TIMEOUT_SECONDS, tv_nsec) w;
        let w = (if irv = ETIMEDOUT then rx_pthread_join os (rx_pthread_cancel os w) else w);
        let w = zsock_destroy z Device_rx_main w;
        Some (OSD_OK, ctx\<lparr>gw_device_rx_socket := False, is_connected_to_device := False\<rparr>, w) })"

definition osd_gateway_disconnect ::
  "'w zmq \<Rightarrow> 'w rx_os \<Rightarrow> osd_gateway_ctx \<Rightarrow> 'w \<Rightarrow> (osd_result \<times> osd_gateway_ctx \<times> 'w) option" where
  "osd_gateway_disconnect z os ctx w =
     do { (_, ctx, w) \<leftarrow> disconnect_from_device z os ctx w;
          (_, ctx, w) \<leftarrow> disconnect_from_hostctrl z ctx w;
          Some (OSD_OK, ctx, w) }"

definition perform_outstanding_main_thread_tasks ::
  "'w zmq \<Rightarrow> 'w rx_os \<Rightarrow> osd_gateway_ctx \<Rightarrow> 'w \<Rightarrow> (osd_gateway_ctx \<times> 'w) option" where
  "perform_outstanding_main_thread_tasks z os ctx w =
     (if device_disconnect_detected ctx then
        do { (_, ctx, w) \<leftarrow> osd_gateway_disconnect z os ctx w;
             Some (ctx\<lparr>device_disconnect_detected := False\<rparr>, w) }
      else Some (ctx, w))"

definition osd_gateway_connect ::
  "'w zmq \<Rightarrow> 'w rx_os \<Rightarrow> osd_gateway_ctx \<Rightarrow> 'w \<Rightarrow> (osd_result \<times> osd_gateway_ctx \<times> 'w) option" where
  "osd_gateway_connect z os ctx w =
     do { (ctx, w) \<leftarrow> perform_outstanding_main_thread_tasks z os ctx w;
          (rv, ctx, w) \<leftarrow> connect_to_hostctrl z ctx w;
          if OSD_FAILED rv then Some (rv, ctx, w)
          else do {
            (rv, ctx, w) \<leftarrow> connect_to_device z os ctx w;
            if OSD_FAILED rv then Some (rv, ctx, w)
            else do { (ctx, w) \<leftarrow> stats_start os ctx w; Some (OSD_OK, ctx, w) } } }"

definition osd_gateway_is_connected ::
  "'w zmq \<Rightarrow> 'w rx_os \<Rightarrow> osd_gateway_ctx \<Rightarrow> 'w \<Rightarrow> (bool \<times> osd_gateway_ctx \<times> 'w) option" where
  "osd_gateway_is_connected z os ctx w =
     do { (ctx, w) \<leftarrow> perform_outstanding_main_thread_tasks z os ctx w;
          Some (is_connected_to_hostctrl ctx \<and> is_connected_to_device ctx, ctx, w) }"

definition osd_gateway_free ::
  "'w zmq \<Rightarrow> osd_gateway_ctx option \<Rightarrow> 'w \<Rightarrow> (osd_gateway_ctx option \<times> 'w) option" where
  "osd_gateway_free z ctx_p w =
     (case ctx_p of
        None \<Rightarrow> Some (None, w)
      | Some ctx \<Rightarrow> do { w \<leftarrow> worker_free z (gw_ioworker_ctx ctx) w; Some (None, w) })"

definition osd_gateway_get_transfer_stats :: "osd_gateway_ctx \<Rightarrow> osd_gateway_transfer_stats" where
  "osd_gateway_get_transfer_stats ctx = gw_stats ctx"

section \<open>Reading from the device\<close>

text \<open>
  \<open>rx_device\<close>: \<open>dev w\<close> is what the device has still to deliver, packets and read errors, before
  it is disconnected; \<open>out w\<close> are the messages sent to the worker thread.
\<close>

definition rx_device ::
  "'w zmq \<Rightarrow> ('w \<Rightarrow> (osd_result + osd_packet) \<times> 'w) \<Rightarrow> ('w \<Rightarrow> (osd_result + osd_packet) list) \<Rightarrow> ('w \<Rightarrow> zmsg list) \<Rightarrow> bool" where
  "rx_device z packet_read dev out \<longleftrightarrow>
     (\<forall>w. case dev w of
        [] \<Rightarrow> fst (packet_read w) = Inl OSD_ERROR_NOT_CONNECTED \<and> out (snd (packet_read w)) = out w
      | r # rs \<Rightarrow> fst (packet_read w) = r \<and> dev (snd (packet_read w)) = rs \<and> out (snd (packet_read w)) = out w) \<and>
     (\<forall>w m. out (snd (zmsg_send z Device_rx_main m w)) = out w @ [m] \<and> dev (snd (zmsg_send z Device_rx_main m w)) = dev w)"

definition packets_in :: "(osd_result + osd_packet) list \<Rightarrow> osd_packet list" where
  "packets_in rs = concat (map (\<lambda>r. case r of Inl _ \<Rightarrow> [] | Inr p \<Rightarrow> [p]) rs)"

lemma packets_in_simps [simp]:
  "packets_in [] = []" "packets_in (Inl e # rs) = packets_in rs" "packets_in (Inr p # rs) = p # packets_in rs"
  by (simp_all add: packets_in_def)

definition count_rx :: "osd_packet list \<Rightarrow> osd_gateway_ctx \<Rightarrow> osd_gateway_ctx" where
  "count_rx ps ctx = ctx\<lparr>gw_stats := (gw_stats ctx)\<lparr>bytes_from_device :=
     foldl stats_add_pkg (bytes_from_device (gw_stats ctx)) ps\<rparr>\<rparr>"

lemma devicerx_run:
  assumes R: "rx_device z pr dev out"
  shows "(\<And>p. Inr p \<in> set (dev w) \<Longrightarrow> packet_wf p) \<Longrightarrow> Inl OSD_ERROR_NOT_CONNECTED \<notin> set (dev w) \<Longrightarrow>
     \<exists>w'. devicerxthread_main z pr ctx w =
         Some (OSD_ERROR_NOT_CONNECTED, (count_rx (packets_in (dev w)) ctx)\<lparr>device_disconnect_detected := True\<rparr>, w')
       \<and> out w' = out w @ map (\<lambda>p. [str_bytes ''D'', enc_words le16_bytes (data_raw p)]) (packets_in (dev w))"
proof (induction "dev w" arbitrary: w ctx)
  case Nil
  then have "fst (pr w) = Inl OSD_ERROR_NOT_CONNECTED" "out (snd (pr w)) = out w"
    using R by (auto simp: rx_device_def split: list.splits)
  then show ?case
    by (cases "pr w") (simp add: devicerxthread_main.simps [of z pr ctx w] count_rx_def Nil(1) [symmetric])
next
  case (Cons r rs)
  note dw = Cons.hyps(2) [symmetric]
  obtain w1 where w1: "pr w = (r, w1)" "dev w1 = rs" "out w1 = out w"
    using R dw unfolding rx_device_def by (cases "pr w") (force split: list.splits)
  show ?case
  proof (cases r)
    case (Inl e)
    then have "e \<noteq> OSD_ERROR_NOT_CONNECTED" using Cons.prems(2) dw by auto
    then show ?thesis
      using Cons.hyps(1) [of w1 ctx] Cons.prems w1 Inl dw by (auto simp: devicerxthread_main.simps [of z pr ctx w])
  next
    case (Inr p)
    let ?m = "[str_bytes ''D'', enc_words le16_bytes (data_raw p)]"
    have wf: "packet_wf p" using Cons.prems(1) dw Inr by simp
    obtain rv w2 where w2: "zmsg_send z Device_rx_main ?m w1 = (rv, w2)" "out w2 = out w @ [?m]" "dev w2 = rs"
      using R w1 unfolding rx_device_def by (metis snd_conv surj_pair)
    have "devicerxthread_main z pr ctx w = devicerxthread_main z pr (count_rx [p] ctx) w2"
      using w1(1) w2(1) wf Inr by (simp add: devicerxthread_main.simps [of z pr ctx w] packet_frame_wf count_rx_def Let_def)
    moreover have "count_rx (packets_in rs) (count_rx [p] ctx) = count_rx (packets_in (dev w)) ctx"
      by (simp add: count_rx_def dw Inr)
    ultimately show ?thesis
      using Cons.hyps(1) [of w2 "count_rx [p] ctx"] Cons.prems w2 Inr dw by auto
  qed
qed

lemma count_rx_bytes:
  "bytes_from_device (gw_stats (count_rx ps ctx)) =
     bytes_from_device (gw_stats ctx) + of_nat (sum_list (map osd_packet_sizeof ps))"
proof -
  have "foldl stats_add_pkg b ps = b + of_nat (sum_list (map osd_packet_sizeof ps))" for b
    by (induction ps arbitrary: b) (simp_all add: stats_add_pkg_def osd_packet_sizeof_def algebra_simps)
  then show ?thesis by (simp add: count_rx_def)
qed

section \<open>Properties\<close>

text \<open>
  (C18) The thread that reads from the device terminates when the device is disconnected. Until then it forwards
  every packet the device delivers, in order and unchanged, to the worker thread, tries again after read
  errors, and counts the bytes of the packets (modulo 2 to the 64); in the end it asks the main thread to disconnect.
\<close>

theorem devicerx_forwards_packets:
  assumes "rx_device z packet_read dev out" "\<And>p. Inr p \<in> set (dev w) \<Longrightarrow> packet_wf p"
    and "Inl OSD_ERROR_NOT_CONNECTED \<notin> set (dev w)"
  shows "\<exists>ctx' w'. devicerxthread_main z packet_read ctx w = Some (OSD_ERROR_NOT_CONNECTED, ctx', w')
     \<and> out w' = out w @ map (\<lambda>p. [str_bytes ''D'', enc_words le16_bytes (data_raw p)]) (packets_in (dev w))
     \<and> device_disconnect_detected ctx'
     \<and> bytes_from_device (gw_stats ctx') = bytes_from_device (gw_stats ctx)
         + of_nat (sum_list (map osd_packet_sizeof (packets_in (dev w))))"
  using devicerx_run [OF assms, of ctx] by (fastforce simp: count_rx_bytes)

type_synonym rx_sim = "(osd_result + osd_packet) list \<times> zmsg list"

definition rx_sim_zmq :: "rx_sim zmq" where
  "rx_sim_zmq = \<lparr>zmsg_send = (\<lambda>s m (d, q). (0, (d, q @ [m]))), zmsg_recv = (\<lambda>s w. (Again, w)),
     zsock_new = (\<lambda>s a w. (True, w)), zsock_bind = (\<lambda>s a w. (0, w)),
     zsock_connect = (\<lambda>s a w. (0, w)), zsock_destroy = (\<lambda>s w. w),
     zloop_reader = (\<lambda>s w. (0, w)), zloop_reader_end = (\<lambda>s w. w),
     zuuid_str = (\<lambda>w. (replicate 32 (CHR ''a''), w)),
     pthread_create = (\<lambda>w. (0, w)), pthread_join = (\<lambda>w. w), pthread_cancel = (\<lambda>w. w),
     thread_is_running = (\<lambda>w. True)\<rparr>"

definition rx_sim_read :: "rx_sim \<Rightarrow> (osd_result + osd_packet) \<times> rx_sim" where
  "rx_sim_read = (\<lambda>(d, q). case d of [] \<Rightarrow> (Inl OSD_ERROR_NOT_CONNECTED, ([], q)) | r # rs \<Rightarrow> (r, (rs, q)))"

definition gw_demo :: osd_gateway_ctx where
  "gw_demo = \<lparr>is_connected_to_hostctrl = True, is_connected_to_device = True, device_disconnect_detected = False,
     gw_ioworker_ctx = True, gw_device_rx_socket = True,
     gw_stats = \<lparr>connect_time = (0, 0), bytes_from_device = 100, bytes_to_device = 0\<rparr>\<rparr>"

lemma rx_sim_device: "rx_device rx_sim_zmq rx_sim_read fst snd"
  by (auto simp: rx_device_def rx_sim_zmq_def rx_sim_read_def split: list.splits)

theorem devicerx_forwards_packets_witness:
  "\<exists>ctx' w'. devicerxthread_main rx_sim_zmq rx_sim_read gw_demo
       ([Inr (mk_packet 1 2 2 0 [7]), Inl OSD_ERROR_FAILURE, Inr (mk_packet 1 2 2 0 [8, 9])], []) =
       Some (OSD_ERROR_NOT_CONNECTED, ctx', w')
     \<and> length (snd w') = 2 \<and> bytes_from_device (gw_stats ctx') = 118"
proof -
  let ?p = "mk_packet 1 2 2 0 [7]" and ?q = "mk_packet 1 2 2 0 [8, 9]"
  have wf: "packet_wf ?p" "packet_wf ?q" by simp_all
  then have "Inr p \<in> set [Inr ?p, Inl OSD_ERROR_FAILURE, Inr ?q] \<Longrightarrow> packet_wf p" for p by auto
  with devicerx_forwards_packets [OF rx_sim_device, of "([Inr ?p, Inl OSD_ERROR_FAILURE, Inr ?q], [])" gw_demo] wf
  show ?thesis
    by (fastforce simp: osd_codes gw_demo_def osd_packet_sizeof_def mk_packet_def)
qed

definition worker_disconnects :: "'w zmq \<Rightarrow> bool" where
  "worker_disconnects z \<longleftrightarrow> (\<forall>w. thread_is_running z w \<longrightarrow> (\<exists>w1 w2. worker_send_status z Inproc_main ''I-DISCONNECT'' 0 w = Some w1
     \<and> worker_wait_for_status z Inproc_main ''I-DISCONNECT-DONE'' w1 = Some (Inr OSD_OK, w2)))"

lemma disconnect_from_hostctrl_closes:
  assumes "worker_disconnects z" "gw_ioworker_ctx ctx"
  shows "\<exists>w'. disconnect_from_hostctrl z ctx w = Some (OSD_OK, ctx\<lparr>is_connected_to_hostctrl := False\<rparr>, w')"
proof (cases "is_connected_to_hostctrl ctx \<and> thread_is_running z w")
  case True
  then obtain w1 w2 where "worker_send_status z Inproc_main ''I-DISCONNECT'' 0 w = Some w1"
    "worker_wait_for_status z Inproc_main ''I-DISCONNECT-DONE'' w1 = Some (Inr OSD_OK, w2)"
    using assms(1) by (auto simp: worker_disconnects_def)
  then show ?thesis
    using True assms(2) by (simp add: disconnect_from_hostctrl_def worker_main_send_status_def osd_codes)
next
  case False
  then show ?thesis
    using assms(2) by (cases "is_connected_to_hostctrl ctx")
      (simp_all add: disconnect_from_hostctrl_def worker_main_send_status_def)
qed

lemma disconnect_from_device_closes:
  assumes "\<And>w. fst (fst (clock_gettime os CLOCK_REALTIME w)) = 0" "is_connected_to_device ctx \<longleftrightarrow> gw_device_rx_socket ctx"
  shows "\<exists>w'. disconnect_from_device z os ctx w =
     Some (OSD_OK, ctx\<lparr>gw_device_rx_socket := False, is_connected_to_device := False\<rparr>, w')"
  using assms(1) [of w] assms(2)
  by (cases "is_connected_to_device ctx") (auto simp: disconnect_from_device_def Let_def split: prod.splits)

text \<open>
  (C40) Connection loss. Once one of the threads has reported that the device is gone, the next call of
  \<^verbatim>\<open>osd_gateway_is_connected\<close> shuts the gateway down: both connections are closed, the request is cleared, and the gateway reports that it
  is not connected. This holds whether the worker thread has already ended or still answers the request to disconnect. The next call of
  \<^verbatim>\<open>osd_gateway_connect\<close> does the same before it connects: it behaves as if called on the gateway that has been shut down. The other
  functions of the main thread (\<^verbatim>\<open>osd_gateway_disconnect\<close>, \<^verbatim>\<open>osd_gateway_free\<close>, \<^verbatim>\<open>osd_gateway_get_transfer_stats\<close>) do not
  perform the request. The gateway has its I/O thread and, exactly while the device is connected, the socket of the receiving thread; the clock
  can be read.
\<close>

theorem gateway_connection_loss:
  assumes "device_disconnect_detected ctx" "gw_ioworker_ctx ctx" "is_connected_to_device ctx \<longleftrightarrow> gw_device_rx_socket ctx"
    and "worker_disconnects z" "\<And>w. fst (fst (clock_gettime os CLOCK_REALTIME w)) = 0"
    and closed: "closed = ctx\<lparr>is_connected_to_hostctrl := False, is_connected_to_device := False, gw_device_rx_socket := False,
       device_disconnect_detected := False\<rparr>"
  shows "\<exists>w'. osd_gateway_is_connected z os ctx w = Some (False, closed, w')
     \<and> osd_gateway_connect z os ctx w = osd_gateway_connect z os closed w'"
proof -
  let ?c = "ctx\<lparr>gw_device_rx_socket := False, is_connected_to_device := False\<rparr>"
  obtain w1 where 1: "disconnect_from_device z os ctx w = Some (OSD_OK, ?c, w1)"
    using disconnect_from_device_closes [OF assms(5,3)] by blast
  obtain w2 where "disconnect_from_hostctrl z ?c w1 = Some (OSD_OK, ?c\<lparr>is_connected_to_hostctrl := False\<rparr>, w2)"
    using disconnect_from_hostctrl_closes [OF assms(4), of ?c w1] assms(2) by auto
  moreover have eq: "closed = ?c\<lparr>is_connected_to_hostctrl := False, device_disconnect_detected := False\<rparr>" by (simp add: closed)
  ultimately show ?thesis
    using assms(1) 1 by (simp add: eq osd_gateway_is_connected_def osd_gateway_connect_def
        perform_outstanding_main_thread_tasks_def osd_gateway_disconnect_def)
qed

definition rx_sim_os :: "rx_sim rx_os" where
  "rx_sim_os = \<lparr>clock_gettime = (\<lambda>c w. ((0, (0, 0)), w)), rx_pthread_create = (\<lambda>w. (0, w)),
     pthread_timedjoin_np = (\<lambda>t w. (ETIMEDOUT, w)), rx_pthread_cancel = (\<lambda>w. w), rx_pthread_join = (\<lambda>w. w)\<rparr>"

theorem gateway_connection_loss_witness:
  "\<exists>c' w'. osd_gateway_is_connected (rx_sim_zmq\<lparr>thread_is_running := (\<lambda>_. False)\<rparr>) rx_sim_os
     (gw_demo\<lparr>device_disconnect_detected := True\<rparr>) ([], []) = Some (False, c', w') \<and> \<not> device_disconnect_detected c'"
proof -
  have "worker_disconnects (rx_sim_zmq\<lparr>thread_is_running := (\<lambda>_. False)\<rparr>)" by (simp add: worker_disconnects_def)
  from gateway_connection_loss [OF _ _ _ this _ refl, of "gw_demo\<lparr>device_disconnect_detected := True\<rparr>" rx_sim_os "([], [])"]
  show ?thesis by (auto simp: gw_demo_def rx_sim_os_def)
qed

end
