(* ===== verification/Gateway_Glip.thy ===== *)
theory Gateway_Glip
  imports Gateway Osd_Log
begin

text \<open>
  The gateway to devices connected through GLIP (\<^verbatim>\<open>gateway_glip.c\<close>): packets as Debug Transport
  Datagrams, a length word followed by the data words, all big endian. The GLIP library is a parameter. The host
  is little endian; allocations succeed.
\<close>

section \<open>Data\<close>

definition ENOTCONN :: int where "ENOTCONN = 107"
definition ECANCELED :: int where "ECANCELED = 125"

text \<open>
  \<open>glip_read_b\<close> reads the given number of bytes, \<open>glip_write_b\<close> writes the given bytes; the result is the
  status with the bytes read or the number of bytes written.
\<close>

record 'w glip =
  glip_new :: "string \<Rightarrow> 'w \<Rightarrow> int \<times> 'w"
  glip_set_log_priority :: "int \<Rightarrow> 'w \<Rightarrow> 'w"
  glip_free :: "'w \<Rightarrow> 'w"
  glip_open :: "'w \<Rightarrow> int \<times> 'w"
  glip_close :: "'w \<Rightarrow> int \<times> 'w"
  glip_is_connected :: "'w \<Rightarrow> bool"
  glip_read_b :: "nat \<Rightarrow> 'w \<Rightarrow> (int \<times> u8 list) \<times> 'w"
  glip_write_b :: "u8 list \<Rightarrow> 'w \<Rightarrow> (int \<times> nat) \<times> 'w"

record osd_gateway_glip_ctx =
  gg_gw_ctx :: osd_gateway_ctx

section \<open>The device\<close>

definition bswap_16 :: "u16 \<Rightarrow> u16" where
  "bswap_16 x = push_bit 8 x OR drop_bit 8 x"

text \<open>GLIP ends its messages with a newline, which is removed. The last character of an empty message does not exist.\<close>

definition glip_log_handler ::
  "('c, 'w) osd_log_ctx \<Rightarrow> int \<Rightarrow> string \<Rightarrow> 'w \<Rightarrow> (('c, 'w) osd_log_ctx \<times> 'w) option" where
  "glip_log_handler osd_log_ctx priority log_str w =
     do { c_assert (log_str \<noteq> []);
          let log_str = (if last log_str = CHR 0x0A then butlast log_str else log_str);
          osd_log osd_log_ctx priority (''glip: '' @ log_str) w }"

text \<open>The number of words read, or a negative error code, with the words.\<close>

definition device_read :: "'w glip \<Rightarrow> nat \<Rightarrow> 'w \<Rightarrow> (int \<times> u16 list) \<times> 'w" where
  "device_read g size_words w =
     (let ((rv, bytes), w) = glip_read_b g (size_words * 2) w
      in if rv = - ENOTCONN \<or> rv = - ECANCELED then ((- ENOTCONN, []), w)
         else if rv \<noteq> 0 then ((-1, []), w)
         else (let words_read = length bytes div 2
               in ((int words_read, map bswap_16 (take words_read (dec_words le16 bytes))), w)))"

definition device_write :: "'w glip \<Rightarrow> u16 list \<Rightarrow> 'w \<Rightarrow> int \<times> 'w" where
  "device_write g buf w =
     (let buf_be = map bswap_16 buf;
          ((rv, bytes_written), w) = glip_write_b g (enc_words le16_bytes buf_be) w
      in if rv = - ENOTCONN \<or> rv = - ECANCELED then (- ENOTCONN, w)
         else if rv \<noteq> 0 then (-1, w)
         else (int (bytes_written div 2), w))"

definition init_glip ::
  "'w glip \<Rightarrow> ('c, 'w) osd_log_ctx \<Rightarrow> string \<Rightarrow> 'w \<Rightarrow> bool \<times> 'w" where
  "init_glip g log_ctx glip_backend_name w =
     (let (rv, w) = glip_new g glip_backend_name w
      in if rv < 0 then (False, w)
         else (True, glip_set_log_priority g (osd_log_get_priority log_ctx) w))"

definition packet_read_from_device :: "'w glip \<Rightarrow> 'w \<Rightarrow> (osd_result + osd_packet) \<times> 'w" where
  "packet_read_from_device g w =
     (let ((s_rv, buf), w) = device_read g 1 w
      in if s_rv = - ENOTCONN then (Inl OSD_ERROR_NOT_CONNECTED, w)
         else if s_rv \<noteq> 1 then (Inl OSD_ERROR_FAILURE, w)
         else (let pkg_size_words = unat (hd buf);
                   ((s_rv, buf), w) = device_read g pkg_size_words w
               in if s_rv = - ENOTCONN then (Inl OSD_ERROR_NOT_CONNECTED, w)
                  else if s_rv \<noteq> int pkg_size_words then (Inl OSD_ERROR_FAILURE, w)
                  else (Inr ((osd_packet_new pkg_size_words)\<lparr>data_raw := buf\<rparr>), w)))"

text \<open>The structure of a packet is its size, followed by as many data words.\<close>

definition packet_write_to_device :: "'w glip \<Rightarrow> osd_packet \<Rightarrow> 'w \<Rightarrow> osd_result \<times> 'w" where
  "packet_write_to_device g pkg w =
     (let pkg_dtd = data_size_words pkg # take (unat (data_size_words pkg)) (data_raw pkg);
          pkg_dtd_size_words = 1 + unat (data_size_words pkg);
          (s_rv, w) = device_write g pkg_dtd w
      in if s_rv = - ENOTCONN then (OSD_ERROR_NOT_CONNECTED, w)
         else if s_rv < 0 then (OSD_ERROR_FAILURE, w)
         else if nat s_rv \<noteq> pkg_dtd_size_words then (OSD_ERROR_FAILURE, w)
         else (OSD_OK, w))"

section \<open>The gateway\<close>

definition osd_gateway_glip_new ::
  "'w zmq \<Rightarrow> 'w glip \<Rightarrow> int \<Rightarrow> ('c, 'w) osd_log_ctx \<Rightarrow> string \<Rightarrow> u16 \<Rightarrow> string \<Rightarrow> 'w
    \<Rightarrow> ((osd_result + osd_gateway_glip_ctx \<times> 'w hostiothread_usr_ctx) \<times> 'w) option" where
  "osd_gateway_glip_new z g uninit log_ctx hc_address device_subnet glip_backend_name w =
     (let (ok, w) = init_glip g log_ctx glip_backend_name w
      in if \<not> ok then Some (Inl OSD_ERROR_FAILURE, w)
         else do {
           (r, w) \<leftarrow> osd_gateway_new z uninit hc_address device_subnet (packet_write_to_device g) w;
           (case r of
              Inl rv \<Rightarrow> Some (Inl rv, w)
            | Inr (gw_ctx, u_ctx) \<Rightarrow> Some (Inr (\<lparr>gg_gw_ctx = gw_ctx\<rparr>, u_ctx), w)) })"

definition osd_gateway_glip_connect ::
  "'w zmq \<Rightarrow> 'w rx_os \<Rightarrow> 'w glip \<Rightarrow> osd_gateway_glip_ctx \<Rightarrow> 'w \<Rightarrow> (osd_result \<times> osd_gateway_glip_ctx \<times> 'w) option" where
  "osd_gateway_glip_connect z os g ctx w =
     (let (glip_rv, w) = glip_open g w
      in if glip_rv < 0 then Some (OSD_ERROR_CONNECTION_FAILED, ctx, w)
         else do {
           (rv, gw, w) \<leftarrow> osd_gateway_connect z os (gg_gw_ctx ctx) w;
           if OSD_FAILED rv then Some (rv, ctx\<lparr>gg_gw_ctx := gw\<rparr>, w)
           else Some (OSD_OK, ctx\<lparr>gg_gw_ctx := gw\<rparr>, w) })"

definition osd_gateway_glip_disconnect ::
  "'w zmq \<Rightarrow> 'w rx_os \<Rightarrow> 'w glip \<Rightarrow> osd_gateway_glip_ctx \<Rightarrow> 'w \<Rightarrow> (osd_result \<times> osd_gateway_glip_ctx \<times> 'w) option" where
  "osd_gateway_glip_disconnect z os g ctx w =
     (let (glip_rv, w) = glip_close g w
      in do { (rv, gw, w) \<leftarrow> osd_gateway_disconnect z os (gg_gw_ctx ctx) w;
              if OSD_FAILED rv then Some (rv, ctx\<lparr>gg_gw_ctx := gw\<rparr>, w)
              else Some (OSD_OK, ctx\<lparr>gg_gw_ctx := gw\<rparr>, w) })"

text \<open>
  The function clears its own parameter instead of the pointer of the caller, who is left with a pointer to
  freed memory: the result is the caller's pointer.
\<close>

definition osd_gateway_glip_free ::
  "'w zmq \<Rightarrow> 'w glip \<Rightarrow> osd_gateway_glip_ctx option \<Rightarrow> 'w \<Rightarrow> (osd_gateway_glip_ctx option \<times> 'w) option" where
  "osd_gateway_glip_free z g ctx_p w =
     (case ctx_p of
        None \<Rightarrow> Some (None, w)
      | Some ctx \<Rightarrow>
          do { (_, w) \<leftarrow> osd_gateway_free z (Some (gg_gw_ctx ctx)) w;
               Some (ctx_p, glip_free g w) })"

definition osd_gateway_glip_is_connected ::
  "'w zmq \<Rightarrow> 'w rx_os \<Rightarrow> 'w glip \<Rightarrow> osd_gateway_glip_ctx \<Rightarrow> 'w \<Rightarrow> (bool \<times> osd_gateway_glip_ctx \<times> 'w) option" where
  "osd_gateway_glip_is_connected z os g ctx w =
     do { (c, gw, w) \<leftarrow> osd_gateway_is_connected z os (gg_gw_ctx ctx) w;
          Some (c \<and> glip_is_connected g w, ctx\<lparr>gg_gw_ctx := gw\<rparr>, w) }"

definition osd_gateway_glip_get_transfer_stats :: "osd_gateway_glip_ctx \<Rightarrow> osd_gateway_transfer_stats" where
  "osd_gateway_glip_get_transfer_stats ctx = osd_gateway_get_transfer_stats (gg_gw_ctx ctx)"

section \<open>Datagrams\<close>

definition dtd_bytes :: "osd_packet \<Rightarrow> u8 list" where
  "dtd_bytes p = enc_words be16_bytes (of_nat (length (data_raw p)) # data_raw p)"

lemma bswap_le16: "bswap_16 (le16 a b) = be16 a b"
  by (rule bit_word_eqI) (auto simp: bswap_16_def le16_def be16_def bit_simps dest: bit_imp_le_length)

lemma le16_bswap: "le16_bytes (bswap_16 x) = be16_bytes x"
  by (auto simp: bswap_16_def le16_bytes_def be16_bytes_def intro!: bit_word_eqI simp: bit_simps)

lemma dec_words_swap: "map bswap_16 (dec_words le16 bs) = dec_words be16 bs"
proof (induction "be16" bs rule: dec_words.induct)
  case (1 a b bs)
  then show ?case by (simp add: bswap_le16)
qed simp_all

lemma enc_words_swap: "enc_words le16_bytes (map bswap_16 ws) = enc_words be16_bytes ws"
  by (simp add: enc_words_def le16_bswap comp_def)

text \<open>
  What the bytes of a device say: complete datagrams. A datagram that is cut off by the end of the connection
  is lost.
\<close>

function parse_dtd :: "u8 list \<Rightarrow> osd_packet list" where
  "parse_dtd (a # b # bs) =
     (let n = unat (be16 a b)
      in if 2 * n \<le> length bs
         then \<lparr>data_size_words = of_nat n, data_raw = dec_words be16 (take (2 * n) bs)\<rparr> # parse_dtd (drop (2 * n) bs)
         else [])"
| "parse_dtd [] = []"
| "parse_dtd [a] = []"
  by pat_completeness auto
termination by (relation "measure length") auto

lemma parse_dtd_bytes:
  assumes "packet_wf p"
  shows "parse_dtd (dtd_bytes p @ bs) = p # parse_dtd bs"
proof -
  have len: "unat (data_size_words p) = length (data_raw p)" using assms by (simp add: packet_wf_def)
  then have sz: "of_nat (length (data_raw p)) = data_size_words p" by (simp flip: len)
  obtain a b where ab: "be16_bytes (data_size_words p) = [a, b]" by (simp add: be16_bytes_def)
  have "be16 a b = data_size_words p"
    using be.dec_enc_words [of "[data_size_words p]"] by (simp add: ab)
  then show ?thesis
    by (simp add: dtd_bytes_def sz ab len be.length_enc_words be.dec_enc_words)
qed

lemma parse_dtd_concat: "\<forall>p \<in> set ps. packet_wf p \<Longrightarrow> parse_dtd (concat (map dtd_bytes ps) @ bs) = ps @ parse_dtd bs"
  by (induction ps) (simp_all add: parse_dtd_bytes)

section \<open>The link\<close>

text \<open>
  \<open>glip_stream\<close>: \<open>st w\<close> are the bytes the device has still to send before it closes the connection. A
  blocking read without timeout returns all bytes it asked for, or the connection is lost.
  \<open>glip_sink\<close>: a blocking write writes all bytes.
\<close>

definition glip_stream :: "'w zmq \<Rightarrow> 'w glip \<Rightarrow> ('w \<Rightarrow> u8 list) \<Rightarrow> ('w \<Rightarrow> zmsg list) \<Rightarrow> bool" where
  "glip_stream z g st out \<longleftrightarrow>
     (\<forall>n w. case glip_read_b g n w of ((rv, bs), w') \<Rightarrow>
        out w' = out w \<and>
        (if n \<le> length (st w) then rv = 0 \<and> bs = take n (st w) \<and> st w' = drop n (st w) else rv = - ENOTCONN)) \<and>
     (\<forall>w m. case zmsg_send z Device_rx_main m w of (_, w') \<Rightarrow> out w' = out w @ [m] \<and> st w' = st w)"

definition glip_sink :: "'w glip \<Rightarrow> ('w \<Rightarrow> u8 list) \<Rightarrow> bool" where
  "glip_sink g wr \<longleftrightarrow>
     (\<forall>bs w. case glip_write_b g bs w of ((rv, n), w') \<Rightarrow> rv = 0 \<and> n = length bs \<and> wr w' = wr w @ bs)"

lemma device_read_stream:
  assumes "glip_stream z g st out"
  shows "\<exists>w'. out w' = out w \<and>
    (if 2 * n \<le> length (st w)
     then device_read g n w = ((int n, dec_words be16 (take (2 * n) (st w))), w') \<and> st w' = drop (2 * n) (st w)
     else device_read g n w = ((- ENOTCONN, []), w'))"
proof -
  obtain rv bs w' where r: "glip_read_b g (n * 2) w = ((rv, bs), w')" by (metis prod.exhaust)
  have "out w' = out w"
    "if n * 2 \<le> length (st w) then rv = 0 \<and> bs = take (n * 2) (st w) \<and> st w' = drop (n * 2) (st w) else rv = - ENOTCONN"
    using assms [unfolded glip_stream_def, THEN conjunct1, rule_format, of w "n * 2"] by (simp_all add: r)
  then show ?thesis
    by (intro exI [of _ w']) (auto simp: device_read_def r Let_def ENOTCONN_def ECANCELED_def mult.commute
        dec_words_swap be.length_dec_words take_map [symmetric] split: if_splits)
qed

lemma packet_read_stream:
  assumes S: "glip_stream z g st out"
  shows "\<exists>w'. out w' = out w \<and> (case parse_dtd (st w) of
      [] \<Rightarrow> packet_read_from_device g w = (Inl OSD_ERROR_NOT_CONNECTED, w')
    | p # ps \<Rightarrow> packet_read_from_device g w = (Inr p, w') \<and> parse_dtd (st w') = ps)"
proof -
  obtain w1 where w1: "out w1 = out w" "if 2 \<le> length (st w)
     then device_read g 1 w = ((1, dec_words be16 (take 2 (st w))), w1) \<and> st w1 = drop 2 (st w)
     else device_read g 1 w = ((- ENOTCONN, []), w1)"
    using device_read_stream [OF S, of w 1] by (simp only: mult_1_right of_nat_1) metis
  show ?thesis
  proof (cases "st w" rule: parse_dtd.cases)
    case (1 a b bs)
    let ?n = "unat (be16 a b)"
    have d: "device_read g 1 w = ((1, [be16 a b]), w1)" "st w1 = bs"
      using w1(2) 1 by (simp_all add: numeral_2_eq_2)
    obtain w2 where w2: "out w2 = out w" "if 2 * ?n \<le> length bs
       then device_read g ?n w1 = ((int ?n, dec_words be16 (take (2 * ?n) bs)), w2) \<and> st w2 = drop (2 * ?n) bs
       else device_read g ?n w1 = ((- ENOTCONN, []), w2)"
      using device_read_stream [OF S, of w1 ?n] d(2) w1(1) by auto
    moreover have "uint (be16 a b) \<noteq> - 107" using uint_ge_0 [of "be16 a b"] by linarith
    ultimately show ?thesis
      by (intro exI [of _ w2]) (simp add: 1 d d(1) [simplified] packet_read_from_device_def Let_def ENOTCONN_def osd_packet_new_def
          split: if_splits)
  qed (use w1 in \<open>auto simp: packet_read_from_device_def intro!: exI [of _ w1]\<close>)
qed

lemma rx_device_glip:
  assumes S: "glip_stream z g st out"
  shows "rx_device z (packet_read_from_device g) (\<lambda>w. map Inr (parse_dtd (st w))) out"
  unfolding rx_device_def
proof (intro conjI allI)
  fix w
  show "case map Inr (parse_dtd (st w)) of
      [] \<Rightarrow> fst (packet_read_from_device g w) = Inl OSD_ERROR_NOT_CONNECTED \<and> out (snd (packet_read_from_device g w)) = out w
    | r # rs \<Rightarrow> fst (packet_read_from_device g w) = r \<and>
        map Inr (parse_dtd (st (snd (packet_read_from_device g w)))) = rs \<and> out (snd (packet_read_from_device g w)) = out w"
    using packet_read_stream [OF S, of w] by (auto split: list.splits)
next
  fix w m
  show "out (snd (zmsg_send z Device_rx_main m w)) = out w @ [m]"
    "map Inr (parse_dtd (st (snd (zmsg_send z Device_rx_main m w)))) = map Inr (parse_dtd (st w))"
    using S [unfolded glip_stream_def, THEN conjunct2, rule_format, of w m] by (auto split: prod.splits)
qed

lemma packet_write_sink:
  assumes "glip_sink g wr" "packet_wf p"
  shows "\<exists>w'. packet_write_to_device g p w = (OSD_OK, w') \<and> wr w' = wr w @ dtd_bytes p"
proof -
  have len: "unat (data_size_words p) = length (data_raw p)" using assms(2) by (simp add: packet_wf_def)
  then have sz: "of_nat (length (data_raw p)) = data_size_words p" by (simp flip: len)
  obtain rv n w' where r: "glip_write_b g (dtd_bytes p) w = ((rv, n), w')" by (metis prod.exhaust)
  then have "rv = 0" "n = length (dtd_bytes p)" "wr w' = wr w @ dtd_bytes p"
    using assms(1) [unfolded glip_sink_def, rule_format, of "dtd_bytes p" w] by (auto simp: r)
  moreover have "enc_words le16_bytes (map bswap_16 (data_size_words p # data_raw p)) = dtd_bytes p"
    unfolding enc_words_swap by (simp add: dtd_bytes_def sz)
  moreover have "length (dtd_bytes p) = 2 * (1 + length (data_raw p))"
    unfolding dtd_bytes_def be.length_enc_words by simp
  ultimately show ?thesis
    using r by (simp add: packet_write_to_device_def device_write_def len Let_def ENOTCONN_def ECANCELED_def nat_add_distrib)
qed

definition write_packets :: "'w glip \<Rightarrow> osd_packet list \<Rightarrow> 'w \<Rightarrow> 'w" where
  "write_packets g ps w = fold (\<lambda>p w. snd (packet_write_to_device g p w)) ps w"

lemma write_packets_sink:
  "glip_sink g wr \<Longrightarrow> \<forall>p \<in> set ps. packet_wf p \<Longrightarrow> wr (write_packets g ps w) = wr w @ concat (map dtd_bytes ps)"
proof (induction ps arbitrary: w)
  case (Cons p ps)
  then show ?case using packet_write_sink [of g wr p w] by (auto simp: write_packets_def)
qed (simp add: write_packets_def)

section \<open>Property\<close>

text \<open>
  (C21) The link to the device loses nothing: when the peer writes a sequence of packets through its GLIP channel and
  the bytes written arrive in the stream the gateway reads, possibly followed by a datagram the closing
  connection cuts off, then the receiving thread of the gateway forwards exactly these packets, in
  order, to its worker thread, counts their bytes and ends when the connection is closed.
\<close>

theorem glip_link_roundtrip:
  assumes "glip_sink peer wr" "glip_stream z g st out" "\<forall>p \<in> set ps. packet_wf p"
    and "wr v = []" "st w = wr (write_packets peer ps v) @ rest" "parse_dtd rest = []"
  shows "\<exists>ctx' w'. devicerxthread_main z (packet_read_from_device g) ctx w = Some (OSD_ERROR_NOT_CONNECTED, ctx', w')
     \<and> out w' = out w @ map (\<lambda>p. [str_bytes ''D'', enc_words le16_bytes (data_raw p)]) ps
     \<and> bytes_from_device (gw_stats ctx') = bytes_from_device (gw_stats ctx) + of_nat (sum_list (map osd_packet_sizeof ps))"
proof -
  have "parse_dtd (st w) = ps"
    using assms by (simp add: write_packets_sink parse_dtd_concat)
  moreover have "packets_in (map Inr xs) = xs" for xs by (induction xs) simp_all
  ultimately show ?thesis
    using devicerx_run [OF rx_device_glip [OF assms(2)], of w ctx] assms(3) by (fastforce simp: count_rx_bytes)
qed

text \<open>A device that sends the bytes of the first component; the second are the bytes written to it.\<close>

type_synonym glip_sim = "(u8 list \<times> u8 list) \<times> zmsg list"

definition glip_sim_glip :: "glip_sim glip" where
  "glip_sim_glip = \<lparr>glip_new = (\<lambda>b w. (0, w)), glip_set_log_priority = (\<lambda>_ w. w), glip_free = (\<lambda>w. w),
     glip_open = (\<lambda>w. (0, w)), glip_close = (\<lambda>w. (0, w)), glip_is_connected = (\<lambda>_. True),
     glip_read_b = (\<lambda>n ((r, snt), q). if n \<le> length r then ((0, take n r), ((drop n r, snt), q))
                                    else ((- ENOTCONN, []), (([], snt), q))),
     glip_write_b = (\<lambda>bs ((r, snt), q). ((0, length bs), ((r, snt @ bs), q)))\<rparr>"

definition glip_sim_zmq :: "glip_sim zmq" where
  "glip_sim_zmq = \<lparr>zmsg_send = (\<lambda>s m (d, q). (0, (d, q @ [m]))), zmsg_recv = (\<lambda>s w. (Again, w)),
     zsock_new = (\<lambda>s a w. (True, w)), zsock_bind = (\<lambda>s a w. (0, w)),
     zsock_connect = (\<lambda>s a w. (0, w)), zsock_destroy = (\<lambda>s w. w),
     zloop_reader = (\<lambda>s w. (0, w)), zloop_reader_end = (\<lambda>s w. w),
     zuuid_str = (\<lambda>w. (replicate 32 (CHR ''a''), w)),
     pthread_create = (\<lambda>w. (0, w)), pthread_join = (\<lambda>w. w), pthread_cancel = (\<lambda>w. w),
     thread_is_running = (\<lambda>w. True)\<rparr>"

theorem glip_link_roundtrip_witness:
  "\<exists>ctx' w'. devicerxthread_main glip_sim_zmq (packet_read_from_device glip_sim_glip) gw_demo
       (([0, 4, 0, 1, 0, 2, 0x80, 0, 0, 7, 0, 4, 1], []), []) = Some (OSD_ERROR_NOT_CONNECTED, ctx', w')
     \<and> snd w' = [[str_bytes ''D'', [1, 0, 2, 0, 0, 0x80, 7, 0]]]"
proof -
  let ?p = "mk_packet 1 2 2 0 [7]"
  have b: "dtd_bytes ?p = [0, 4, 0, 1, 0, 2, 0x80, 0, 0, 7]" by code_simp
  have e: "enc_words le16_bytes (data_raw ?p) = [1, 0, 2, 0, 0, 0x80, 7, 0]" by code_simp
  have sink: "glip_sink glip_sim_glip (\<lambda>w. snd (fst w))" by (simp add: glip_sink_def glip_sim_glip_def)
  have wf: "packet_wf ?p" by simp
  have w: "snd (fst (write_packets glip_sim_glip [?p] (([], []), []))) = dtd_bytes ?p"
    using write_packets_sink [OF sink, of "[?p]" "(([], []), [])"] wf by simp
  have pd: "parse_dtd [0, 4, 1] = []" by code_simp
  have "glip_stream glip_sim_zmq glip_sim_glip (\<lambda>w. fst (fst w)) snd"
    by (simp add: glip_stream_def glip_sim_zmq_def glip_sim_glip_def)
  note r = glip_link_roundtrip [OF sink this, of "[?p]" "(([], []), [])"
      "(([0, 4, 0, 1, 0, 2, 0x80, 0, 0, 7, 0, 4, 1], []), [])" "[0, 4, 1]" gw_demo]
  show ?thesis
    using r [unfolded w b] wf pd by (simp add: e) blast
qed

end
