(* ===== verification/Network.thy ===== *)
theory Network
  imports Hostctrl Gateway
begin

text \<open>
  Host modules and gateways talking to the host controller: the models of the three components
  composed over the message identities of a ROUTER socket.

  The transport is a parameter: a \<open>zmq\<close> record of the controller's I/O thread and one of every
  client. What is relied on is the documented behaviour of czmq, stated by \<open>router_laws\<close> (the ROUTER
  socket takes the messages of its clients, those of one client in the order in which they were sent, with the identity of the
  sender in front, and passes a message to the client named by its first frame) and \<open>client_laws\<close> (a send is
  accepted and queued for the controller; a receive takes the first message that has arrived; while it waits,
  the controller handles what is in flight, and it only times out when nothing is left to be handled).
  The messages in flight, the inboxes and the device behind a gateway are observed through a function \<open>view\<close>.
  The theory ends with an instance of these laws, which only the witnesses use.
\<close>

section \<open>The transport\<close>

text \<open>The inboxes of the clients, by identity.\<close>

type_synonym inboxes = "zframe \<Rightarrow> zmsg list"

record 'd wire =
  in_flight :: "(zframe \<times> zmsg) list"
  inbox :: inboxes
  device :: 'd

definition deliver :: "zframe set \<Rightarrow> zframe \<Rightarrow> zmsg \<Rightarrow> 'd wire \<Rightarrow> 'd wire" where
  "deliver clients d m v = (if d \<in> clients then v\<lparr>inbox := (inbox v)(d := inbox v d @ [m])\<rparr> else v)"

text \<open>
  The ROUTER socket: it takes a message in flight that is the first of its sender, and drops a message to somebody who is not
  connected.
\<close>

definition router_laws :: "'w zmq \<Rightarrow> zframe set \<Rightarrow> ('w \<Rightarrow> 'd wire) \<Rightarrow> bool" where
  "router_laws zc clients view \<longleftrightarrow>
     (\<forall>w. in_flight (view w) \<noteq> [] \<longrightarrow>
        (\<exists>xs a m ys w'. in_flight (view w) = xs @ (a, m) # ys \<and> a \<notin> fst ` set xs
           \<and> zmsg_recv zc Router_socket w = (Received (a # m), w') \<and> view w' = (view w)\<lparr>in_flight := xs @ ys\<rparr>))
   \<and> (\<forall>w d m. \<exists>w'. zmsg_send zc Router_socket (d # m) w = (0, w') \<and> view w' = deliver clients d m (view w))"

text \<open>The controller handles a message in flight. It can do nothing when there is none, or when it has aborted.\<close>

inductive ctrl_step :: "'w zmq \<Rightarrow> ('w \<Rightarrow> 'd wire) \<Rightarrow> hc_usr_ctx \<times> 'w \<Rightarrow> hc_usr_ctx \<times> 'w \<Rightarrow> bool" for zc view where
  "in_flight (view w) \<noteq> [] \<Longrightarrow> iothread_handle_ext_msg zc u w = Some (rv, u', w') \<Longrightarrow> ctrl_step zc view (u, w) (u', w')"

inductive_simps ctrl_step_iff: "ctrl_step zc view (u, w) s'"

definition ctrl_idle :: "'w zmq \<Rightarrow> ('w \<Rightarrow> 'd wire) \<Rightarrow> hc_usr_ctx \<times> 'w \<Rightarrow> bool" where
  "ctrl_idle zc view s \<longleftrightarrow> in_flight (view (snd s)) = [] \<or> iothread_handle_ext_msg zc (fst s) (snd s) = None"

text \<open>The DEALER socket of the client \<open>a\<close>; the controller's state is part of the world its calls are made in.\<close>

definition client_laws :: "'w zmq \<Rightarrow> (hc_usr_ctx \<times> 'w) zmq \<Rightarrow> zframe \<Rightarrow> ('w \<Rightarrow> 'd wire) \<Rightarrow> bool" where
  "client_laws zc z a view \<longleftrightarrow>
     (\<forall>u w m. \<exists>w'. zmsg_send z Hostctrl_socket m (u, w) = (0, (u, w'))
        \<and> view w' = (view w)\<lparr>in_flight := in_flight (view w) @ [(a, m)]\<rparr>)
   \<and> (\<forall>u w m ms. inbox (view w) a = m # ms \<longrightarrow>
        (\<exists>w'. zmsg_recv z Hostctrl_socket (u, w) = (Received m, (u, w'))
           \<and> view w' = (view w)\<lparr>inbox := (inbox (view w))(a := ms)\<rparr>))
   \<and> (\<forall>u w. inbox (view w) a = [] \<longrightarrow>
        (\<exists>u1 w1. (ctrl_step zc view)\<^sup>*\<^sup>* (u, w) (u1, w1)
           \<and> (inbox (view w1) a \<noteq> [] \<and> zmsg_recv z Hostctrl_socket (u, w) = zmsg_recv z Hostctrl_socket (u1, w1)
              \<or> inbox (view w1) a = [] \<and> ctrl_idle zc view (u1, w1)
                \<and> (\<exists>w2. zmsg_recv z Hostctrl_socket (u, w) = (Again, (u1, w2)) \<and> view w2 = view w1))))"

lemma router_recv:
  assumes "router_laws zc clients view" "in_flight (view w) \<noteq> []"
  obtains xs a m ys w' where "in_flight (view w) = xs @ (a, m) # ys" "a \<notin> fst ` set xs"
    "zmsg_recv zc Router_socket w = (Received (a # m), w')" "view w' = (view w)\<lparr>in_flight := xs @ ys\<rparr>"
  using assms unfolding router_laws_def by blast

lemma router_recv_only:
  assumes "router_laws zc clients view" "in_flight (view w) = [(a, m)]"
  obtains w' where "zmsg_recv zc Router_socket w = (Received (a # m), w')" "view w' = (view w)\<lparr>in_flight := []\<rparr>"
proof -
  have "in_flight (view w) \<noteq> []" using assms(2) by simp
  then obtain xs b k ys w' where "in_flight (view w) = xs @ (b, k) # ys"
    "zmsg_recv zc Router_socket w = (Received (b # k), w')" "view w' = (view w)\<lparr>in_flight := xs @ ys\<rparr>"
    by (rule router_recv [OF assms(1)])
  then show thesis using that assms(2) by (cases xs) auto
qed

lemma router_send:
  assumes "router_laws zc clients view"
  obtains w' where "zmsg_send zc Router_socket (d # m) w = (0, w')" "view w' = deliver clients d m (view w)"
  using assms unfolding router_laws_def by blast

lemma client_send:
  assumes "client_laws zc z a view"
  obtains w' where "zmsg_send z Hostctrl_socket m (u, w) = (0, (u, w'))"
    "view w' = (view w)\<lparr>in_flight := in_flight (view w) @ [(a, m)]\<rparr>"
  using assms unfolding client_laws_def by blast

lemma client_recv:
  assumes "client_laws zc z a view" "inbox (view w) a = m # ms"
  obtains w' where "zmsg_recv z Hostctrl_socket (u, w) = (Received m, (u, w'))"
    "view w' = (view w)\<lparr>inbox := (inbox (view w))(a := ms)\<rparr>"
  using assms unfolding client_laws_def by blast

lemma ctrl_run_one:
  assumes "(ctrl_step zc view)\<^sup>*\<^sup>* (u, w) s" "iothread_handle_ext_msg zc u w = Some (rv, u1, w1)" "in_flight (view w1) = []"
  shows "s = (u, w) \<or> s = (u1, w1)"
  using assms(1)
proof (cases rule: converse_rtranclpE)
  case (step s')
  then have "s' = (u1, w1)" using assms(2) by (simp add: ctrl_step_iff)
  moreover have "\<not> ctrl_step zc view (u1, w1) t" for t using assms(3) by (simp add: ctrl_step_iff)
  ultimately show ?thesis using step(2) by (metis converse_rtranclpE)
qed simp

text \<open>A client that waits for the only message in flight receives what the controller makes of it.\<close>

lemma client_waits:
  assumes laws: "client_laws zc z a view" and w: "in_flight (view w) \<noteq> []" "inbox (view w) a = []"
    and h: "iothread_handle_ext_msg zc u w = Some (rv, u1, w1)" "in_flight (view w1) = []" "inbox (view w1) a = [m]"
  obtains w2 where "zmsg_recv z Hostctrl_socket (u, w) = (Received m, (u1, w2))"
    "view w2 = (view w1)\<lparr>inbox := (inbox (view w1))(a := [])\<rparr>"
proof -
  from laws w(2) obtain u' w' where r: "(ctrl_step zc view)\<^sup>*\<^sup>* (u, w) (u', w')"
    and c: "inbox (view w') a \<noteq> [] \<and> zmsg_recv z Hostctrl_socket (u, w) = zmsg_recv z Hostctrl_socket (u', w')
        \<or> inbox (view w') a = [] \<and> ctrl_idle zc view (u', w')"
    unfolding client_laws_def by blast
  from ctrl_run_one [OF r h(1,2)] consider "(u', w') = (u, w)" | "(u', w') = (u1, w1)" by auto
  then show thesis
  proof cases
    case 1
    then show thesis using c w h(1) by (simp add: ctrl_idle_def)
  next
    case 2
    from client_recv [OF laws h(3)] obtain w2 where w2: "zmsg_recv z Hostctrl_socket (u1, w1) = (Received m, (u1, w2))"
      "view w2 = (view w1)\<lparr>inbox := (inbox (view w1))(a := [])\<rparr>" by metis
    have "zmsg_recv z Hostctrl_socket (u, w) = (Received m, (u1, w2))" using c 2 h(3) w2(1) by auto
    then show thesis using that w2(2) by blast
  qed
qed

section \<open>The controller as a function of the messages it is sent\<close>

text \<open>
  \<open>ctrl_spec u (src, msg)\<close>: the controller's state after a message of the client \<open>src\<close>, and the messages it sends,
  with their receivers. It has no loops, no tables to look outside of and no transport.
\<close>

definition with_gateway :: "hc_usr_ctx \<Rightarrow> nat \<Rightarrow> zframe option \<Rightarrow> hc_usr_ctx" where
  "with_gateway u n e = u\<lparr>gateways := (gateways u)[n := e]\<rparr>"

definition without_module :: "hc_usr_ctx \<Rightarrow> nat \<Rightarrow> hc_usr_ctx" where
  "without_module u i = u\<lparr>mods_in_subnet := (mods_in_subnet u)[i := None]\<rparr>"

definition subnet_param :: "nat \<Rightarrow> zframe \<Rightarrow> nat" where
  "subnet_param k f = unat (the (parse_subnet (frame_str (drop k f))))"

definition mgmt_spec :: "hc_usr_ctx \<Rightarrow> zframe \<Rightarrow> zframe \<Rightarrow> hc_usr_ctx \<times> string" where
  "mgmt_spec u src f =
     (if frame_str f = ''DIADDR_REQUEST'' then
        (let i = the (find (\<lambda>i. mods_in_subnet u ! i = None) [1..<1024])
         in (assign u i src, fmt_u (unat (subnet_addr u) * 1024 + i)))
      else if frame_str f = ''DIADDR_RELEASE'' then
        (case find (\<lambda>i. mods_in_subnet u ! i = Some src) [1..<63] of
           None \<Rightarrow> (u, ''NACK'') | Some i \<Rightarrow> (without_module u i, ''ACK''))
      else if take 11 (frame_str f) = ''GW_REGISTER'' then
        (if gateways u ! subnet_param 12 f = None then (with_gateway u (subnet_param 12 f) (Some src), ''ACK'')
         else (u, ''NACK''))
      else if take 13 (frame_str f) = ''GW_UNREGISTER'' then
        (if gateways u ! subnet_param 14 f = Some src then (with_gateway u (subnet_param 14 f) None, ''ACK'')
         else (u, ''NACK''))
      else (u, ''ACK''))"

definition ctrl_spec :: "hc_usr_ctx \<Rightarrow> zframe \<times> zmsg \<Rightarrow> hc_usr_ctx \<times> (zframe \<times> zmsg) list" where
  "ctrl_spec u m =
     (case m of
        (src, t # f # fs) \<Rightarrow>
          if take 1 (frame_str t) = ''M'' then
            (case mgmt_spec u src f of (u', r) \<Rightarrow> (u', [(src, [str_bytes ''M'', str_bytes r])]))
          else if take 1 (frame_str t) = ''D'' then
            (u, case route u (data_raw (the (osd_packet_new_from_zframe f)) ! 0) of
                  None \<Rightarrow> [] | Some d \<Rightarrow> [(d, [str_bytes ''D'', f])])
          else (u, [])
      | _ \<Rightarrow> (u, []))"

fun ctrl_run :: "hc_usr_ctx \<Rightarrow> (zframe \<times> zmsg) list \<Rightarrow> hc_usr_ctx \<times> (zframe \<times> zmsg) list" where
  "ctrl_run u [] = (u, [])"
| "ctrl_run u (m # ms) =
     (let (u1, out) = ctrl_spec u m; (u2, outs) = ctrl_run u1 ms in (u2, out @ outs))"

text \<open>The messages of one client (or for one client, if it is connected).\<close>

definition msgs_of :: "zframe \<Rightarrow> (zframe \<times> zmsg) list \<Rightarrow> zmsg list" where
  "msgs_of a ms = map snd (filter (\<lambda>(b, m). b = a) ms)"

definition to_client :: "zframe set \<Rightarrow> zframe \<Rightarrow> (zframe \<times> zmsg) list \<Rightarrow> zmsg list" where
  "to_client clients a out = (if a \<in> clients then msgs_of a out else [])"

lemma msgs_of_simps [simp]:
  "msgs_of a [] = []" "msgs_of a (xs @ ys) = msgs_of a xs @ msgs_of a ys"
  "msgs_of a (x # ys) = (if fst x = a then snd x # msgs_of a ys else msgs_of a ys)"
  by (simp_all add: msgs_of_def split_beta)

lemma msgs_of_first: "a \<notin> fst ` set xs \<Longrightarrow> msgs_of b (xs @ (a, m) # ys) = msgs_of b [(a, m)] @ msgs_of b (xs @ ys)"
  by (induction xs) auto

lemma to_client_Nil [simp]: "to_client clients a [] = []"
  by (simp add: to_client_def)

lemma to_client_append: "to_client clients a (xs @ ys) = to_client clients a xs @ to_client clients a ys"
  by (simp add: to_client_def)

lemma deliver_inbox:
  "inbox (deliver clients d m v) = (\<lambda>a. inbox v a @ to_client clients a [(d, m)])"
  "in_flight (deliver clients d m v) = in_flight v" "device (deliver clients d m v) = device v"
  by (auto simp: deliver_def to_client_def)

lemma ctrl_run_snoc:
  "ctrl_run u (ms @ [m]) =
     (let (u1, out) = ctrl_run u ms; (u2, out') = ctrl_spec u1 m in (u2, out @ out'))"
  by (induction ms arbitrary: u) (simp_all add: split_beta Let_def)

lemma release_loop_find:
  "n + k \<le> length (mods_in_subnet u)
     \<Longrightarrow> release_loop u h n k = Some (find (\<lambda>i. mods_in_subnet u ! i = Some h) [n..<n + k])"
proof (induction k arbitrary: n)
  case (Suc k)
  have "[n..<n + Suc k] = n # [Suc n..<Suc n + k]" by (simp add: upt_conv_Cons)
  then show ?case using Suc by (simp add: tab_get_def)
qed simp

lemma request_spec:
  assumes "hc_inv u" "mgmt_diaddr_request z u h w = Some (u', w')"
  shows "\<exists>i. find (\<lambda>i. mods_in_subnet u ! i = None) [1..<1024] = Some i \<and> u' = assign u i h
     \<and> w' = snd (zmsg_send z Router_socket [h, str_bytes ''M'', str_bytes (fmt_u (unat (subnet_addr u) * 1024 + i))] w)"
proof -
  from assms have "\<exists>j. 1 \<le> j \<and> j < 1024 \<and> mods_in_subnet u ! j = None"
    using diaddr_request_full [of u z h w] by (metis option.distinct(1))
  then obtain i where i: "1 \<le> i" "i < 1024" "mods_in_subnet u ! i = None"
    "\<And>j. 1 \<le> j \<Longrightarrow> j < i \<Longrightarrow> mods_in_subnet u ! j \<noteq> None"
    using least_free [of _ 1024 "mods_in_subnet u"] by metis
  have s: "unat (subnet_addr u) < 64" using assms(1) by (simp add: hc_inv_def)
  have "find (\<lambda>i. mods_in_subnet u ! i = None) [1..<1024] = Some i"
    unfolding find_Some_iff using i by (auto intro!: exI [of _ "i - 1"])
  then show ?thesis
    using diaddr_request_assigns [OF assms(1) i, of z h w] assms(2) hc_build_parts(1) [OF s i(2)] by auto
qed

lemma params_at_param: "params_at k f = Some s \<Longrightarrow> s = frame_str (drop k f)"
  by (auto simp: params_at_def split: if_splits)

lemma gw_register_spec:
  assumes "mgmt_gw_register z u src s w = Some (u', w')" "s = frame_str (drop k f)"
  shows "\<exists>r. (if gateways u ! subnet_param k f = None then (with_gateway u (subnet_param k f) (Some src), ''ACK'')
      else (u, ''NACK'')) = (u', r) \<and> w' = snd (zmsg_send z Router_socket [src, str_bytes ''M'', str_bytes r] w)"
  using assms
  by (auto simp: mgmt_gw_register_def bind_eq_Some_conv tab_get_def subnet_param_def with_gateway_def
      mgmt_send_ack_def mgmt_send_nack_def split: if_splits)

lemma gw_unregister_spec:
  assumes "mgmt_gw_unregister z u src s w = Some (u', w')" "s = frame_str (drop k f)"
  shows "\<exists>r. (if gateways u ! subnet_param k f = Some src then (with_gateway u (subnet_param k f) None, ''ACK'')
      else (u, ''NACK'')) = (u', r) \<and> w' = snd (zmsg_send z Router_socket [src, str_bytes ''M'', str_bytes r] w)"
  using assms
  by (auto simp: mgmt_gw_unregister_def bind_eq_Some_conv tab_get_def subnet_param_def with_gateway_def
      mgmt_send_ack_def mgmt_send_nack_def split: if_splits)

lemma release_spec:
  assumes "hc_inv u" "mgmt_diaddr_release z u src w = Some (u', w')"
  shows "\<exists>r. (case find (\<lambda>i. mods_in_subnet u ! i = Some src) [1..<63] of
       None \<Rightarrow> (u, ''NACK'') | Some i \<Rightarrow> (without_module u i, ''ACK'')) = (u', r)
     \<and> w' = snd (zmsg_send z Router_socket [src, str_bytes ''M'', str_bytes r] w)"
proof -
  have "release_loop u src 1 62 = Some (find (\<lambda>i. mods_in_subnet u ! i = Some src) [1..<63])"
    using release_loop_find [of 1 62 u src] assms(1) by (simp add: hc_inv_def)
  then show ?thesis
    using assms(2) by (auto simp: mgmt_diaddr_release_def mgmt_send_ack_def mgmt_send_nack_def without_module_def
        split: option.splits)
qed

lemma process_mgmt_spec:
  assumes "hc_inv u" "process_mgmt_msg z u src f w = Some (u', w')"
  shows "\<exists>r. mgmt_spec u src f = (u', r) \<and> w' = snd (zmsg_send z Router_socket [src, str_bytes ''M'', str_bytes r] w)"
proof -
  consider "frame_str f = ''DIADDR_REQUEST''" | "frame_str f = ''DIADDR_RELEASE''"
    | "take 11 (frame_str f) = ''GW_REGISTER''" | "take 13 (frame_str f) = ''GW_UNREGISTER''"
    | "frame_str f \<noteq> ''DIADDR_REQUEST''" "frame_str f \<noteq> ''DIADDR_RELEASE''"
      "take 11 (frame_str f) \<noteq> ''GW_REGISTER''" "take 13 (frame_str f) \<noteq> ''GW_UNREGISTER''" by blast
  then show ?thesis
  proof cases
    case 1
    then show ?thesis using request_spec [OF assms(1)] assms(2)
      by (fastforce simp: process_mgmt_msg_def mgmt_spec_def Let_def)
  next
    case 2
    then show ?thesis using release_spec [OF assms(1)] assms(2)
      by (simp add: process_mgmt_msg_def mgmt_spec_def Let_def)
  next
    case 3
    then have ne: "frame_str f \<noteq> ''DIADDR_REQUEST''" "frame_str f \<noteq> ''DIADDR_RELEASE''" by auto
    then obtain s where "params_at 12 f = Some s" "mgmt_gw_register z u src s w = Some (u', w')"
      using assms(2) 3 by (auto simp: process_mgmt_msg_def Let_def bind_eq_Some_conv)
    from gw_register_spec [OF this(2) params_at_param [OF this(1)]] show ?thesis
      unfolding mgmt_spec_def using 3 ne by simp
  next
    case 4
    then have ne: "frame_str f \<noteq> ''DIADDR_REQUEST''" "frame_str f \<noteq> ''DIADDR_RELEASE''" by auto
    have "take 11 (frame_str f) = take 11 ''GW_UNREGISTER''" using 4 by (metis min.absorb1 numeral_le_iff semiring_norm take_take)
    then have n11: "take 11 (frame_str f) \<noteq> ''GW_REGISTER''" by simp
    then obtain s where "params_at 14 f = Some s" "mgmt_gw_unregister z u src s w = Some (u', w')"
      using assms(2) 4 ne by (auto simp: process_mgmt_msg_def Let_def bind_eq_Some_conv)
    from gw_unregister_spec [OF this(2) params_at_param [OF this(1)]] show ?thesis
      unfolding mgmt_spec_def using 4 ne n11 by simp
  next
    case 5
    then show ?thesis using assms(2) by (simp add: process_mgmt_msg_def mgmt_spec_def Let_def mgmt_send_ack_def)
  qed
qed

lemma get_dest_word: "osd_packet_get_dest p = Some d \<Longrightarrow> d = ucast (data_raw p ! 0)"
proof -
  have m: "ucast x AND (mask 16 :: u32) = ucast x" for x :: u16
    by (rule bit_word_eqI) (auto simp: bit_simps dest: bit_u16_lt)
  show "osd_packet_get_dest p = Some d \<Longrightarrow> d = ucast (data_raw p ! 0)"
    by (auto simp: osd_packet_get_dest_def bind_eq_Some_conv packet_word_def pkt_consts mask_lits m split: if_splits)
qed

lemma process_data_spec:
  assumes "hc_inv u" "process_data_msg z u src f w = Some w'"
  shows "case route u (data_raw (the (osd_packet_new_from_zframe f)) ! 0) of
       None \<Rightarrow> w' = w
     | Some d \<Rightarrow> zmsg_send z Router_socket [d, str_bytes ''D'', f] w = (0, w')"
proof -
  from assms(2) obtain p dest where p: "osd_packet_new_from_zframe f = Some p" "osd_packet_get_dest p = Some dest"
    by (auto simp: process_data_msg_def bind_eq_Some_conv)
  have dest: "dest = ucast (data_raw p ! 0)" by (rule get_dest_word [OF p(2)])
  have d: "unat dest = unat (data_raw p ! 0)" unfolding dest by simp
  have "osd_diaddr_subnet dest = subnet_addr u \<longleftrightarrow> unat (data_raw p ! 0) div 1024 = unat (subnet_addr u)"
    by (simp only: word_unat_eq_iff unat_subnet d)
  moreover have "unat (data_raw p ! 0) div 1024 < 64" using unat_u16_lt [of "data_raw p ! 0"] by linarith
  ultimately show ?thesis
    using assms p by (auto simp: process_data_msg_def Let_def unat_subnet unat_localaddr d
        tab_get_def hc_inv_def route_def split: option.splits prod.splits if_splits)
qed

text \<open>What the I/O thread does with a message in flight.\<close>

lemma ctrl_handles:
  assumes laws: "router_laws zc clients view" and inv: "hc_inv u"
    and q: "in_flight (view w) \<noteq> []" and h: "iothread_handle_ext_msg zc u w = Some (rv, u', w')"
  shows "\<exists>m out. ctrl_spec u m = (u', out) \<and> (\<forall>b. msgs_of b (in_flight (view w)) = msgs_of b [m] @ msgs_of b (in_flight (view w')))
     \<and> inbox (view w') = (\<lambda>a. inbox (view w) a @ to_client clients a out)"
proof -
  obtain xs src msg ys w0 where r: "in_flight (view w) = xs @ (src, msg) # ys" "src \<notin> fst ` set xs"
    "zmsg_recv zc Router_socket w = (Received (src # msg), w0)" "view w0 = (view w)\<lparr>in_flight := xs @ ys\<rparr>"
    by (rule router_recv [OF laws q])
  have spec: ?thesis if "ctrl_spec u (src, msg) = (u', out)" "in_flight (view w') = xs @ ys"
      "inbox (view w') = (\<lambda>a. inbox (view w) a @ to_client clients a out)" for out
  proof (intro exI [of _ "(src, msg)"] exI [of _ out] conjI allI)
    show "msgs_of b (in_flight (view w)) = msgs_of b [(src, msg)] @ msgs_of b (in_flight (view w'))" for b
      unfolding r(1) that(2) by (rule msgs_of_first [OF r(2)])
  qed (use that in simp_all)
  obtain t fs where msg: "msg = t # fs" using h r(3) by (cases msg) (simp_all add: iothread_handle_ext_msg_def)
  note ext = h [unfolded iothread_handle_ext_msg_def r(3), simplified msg prod.case recv_result.case list.case]
  consider (M) "take 1 (frame_str t) = ''M''" | (D) "take 1 (frame_str t) = ''D''"
    | (other) "take 1 (frame_str t) \<noteq> ''M''" "take 1 (frame_str t) \<noteq> ''D''" by blast
  then show ?thesis
  proof cases
    case M
    then have "(case fs of [] \<Rightarrow> None | f # _ \<Rightarrow> do { (u, w) \<leftarrow> process_mgmt_msg zc u src f w0; Some (0, u, w) }) = Some (rv, u', w')"
      using ext by simp
    then obtain f gs where f: "fs = f # gs" "process_mgmt_msg zc u src f w0 = Some (u', w')"
      by (auto simp: bind_eq_Some_conv split: list.splits)
    from process_mgmt_spec [OF inv f(2)] obtain rr where s: "mgmt_spec u src f = (u', rr)"
      "w' = snd (zmsg_send zc Router_socket [src, str_bytes ''M'', str_bytes rr] w0)" by blast
    obtain w1 where "zmsg_send zc Router_socket [src, str_bytes ''M'', str_bytes rr] w0 = (0, w1)"
      "view w1 = deliver clients src [str_bytes ''M'', str_bytes rr] (view w0)" by (rule router_send [OF laws])
    then show ?thesis using s r(4) M by (intro spec) (simp_all add: msg f(1) ctrl_spec_def deliver_inbox)
  next
    case D
    then have "(case fs of [] \<Rightarrow> None | f # _ \<Rightarrow> do { w \<leftarrow> process_data_msg zc u src f w0; Some (0, u, w) }) = Some (rv, u', w')"
      using ext by simp
    then obtain f gs where f: "fs = f # gs" "process_data_msg zc u src f w0 = Some w'" "u' = u"
      by (cases fs; cases "process_data_msg zc u src (hd fs) w0") simp_all
    show ?thesis
    proof (cases "route u (data_raw (the (osd_packet_new_from_zframe f)) ! 0)")
      case None
      then show ?thesis using process_data_spec [OF inv f(2)] r(4) D f(3)
        by (intro spec [of "[]"]) (simp_all add: msg f(1) ctrl_spec_def)
    next
      case (Some d)
      obtain w1 where "zmsg_send zc Router_socket [d, str_bytes ''D'', f] w0 = (0, w1)"
        "view w1 = deliver clients d [str_bytes ''D'', f] (view w0)" by (rule router_send [OF laws])
      then show ?thesis using process_data_spec [OF inv f(2)] Some r(4) D f(3)
        by (intro spec [of "[(d, [str_bytes ''D'', f])]"]) (simp_all add: msg f(1) ctrl_spec_def deliver_inbox)
    qed
  next
    case other
    then show ?thesis using h r(3,4) msg
      by (intro spec [of "[]"]; cases fs) (simp_all add: iothread_handle_ext_msg_def ctrl_spec_def)
  qed
qed


text \<open>A request that the controller answers, and a data packet that it forwards.\<close>

lemma frame_str_type: "frame_str (str_bytes ''M'') = ''M''" "frame_str (str_bytes ''D'') = ''D''"
  by (simp_all add: frame_str_bytes)

lemma ctrl_answers:
  assumes "router_laws zc clients view" "in_flight (view w) = [(src, [str_bytes ''M'', f])]"
    and "\<And>w. process_mgmt_msg zc u src f w = Some (u', snd (zmsg_send zc Router_socket [src, str_bytes ''M'', r] w))"
  obtains w' where "iothread_handle_ext_msg zc u w = Some (0, u', w')"
    "view w' = deliver clients src [str_bytes ''M'', r] ((view w)\<lparr>in_flight := []\<rparr>)"
proof -
  obtain w0 where "zmsg_recv zc Router_socket w = (Received [src, str_bytes ''M'', f], w0)" "view w0 = (view w)\<lparr>in_flight := []\<rparr>"
    by (rule router_recv_only [OF assms(1,2)])
  moreover obtain w' where "zmsg_send zc Router_socket [src, str_bytes ''M'', r] w0 = (0, w')"
    "view w' = deliver clients src [str_bytes ''M'', r] (view w0)" by (rule router_send [OF assms(1)])
  ultimately show thesis using that [of w'] by (simp add: iothread_handle_ext_msg_def frame_str_type assms(3))
qed

lemma ctrl_forwards:
  assumes "router_laws zc clients view" "in_flight (view w) = [(src, [str_bytes ''D'', enc_words le16_bytes (data_raw p)])]"
    and "hc_inv u" "packet_wf p" "route u (data_raw p ! 0) = Some d"
  obtains w' where "iothread_handle_ext_msg zc u w = Some (0, u, w')"
    "view w' = deliver clients d [str_bytes ''D'', enc_words le16_bytes (data_raw p)] ((view w)\<lparr>in_flight := []\<rparr>)"
proof -
  let ?b = "enc_words le16_bytes (data_raw p)"
  obtain w0 where "zmsg_recv zc Router_socket w = (Received [src, str_bytes ''D'', ?b], w0)" "view w0 = (view w)\<lparr>in_flight := []\<rparr>"
    by (rule router_recv_only [OF assms(1,2)])
  moreover obtain w' where "zmsg_send zc Router_socket [d, str_bytes ''D'', ?b] w0 = (0, w')"
    "view w' = deliver clients d [str_bytes ''D'', ?b] (view w0)" by (rule router_send [OF assms(1)])
  ultimately show thesis
    using that [of w'] by (simp add: iothread_handle_ext_msg_def frame_str_type process_data_msg_routes [OF assms(3,4)] assms(5))
qed

lemma wire_restored:
  "in_flight v = [] \<Longrightarrow> inbox v a = [] \<Longrightarrow> v\<lparr>in_flight := [], inbox := (inbox v)(a := [])\<rparr> = v"
  by (cases v) auto

lemma client_calls:
  assumes "router_laws zc clients view" "client_laws zc z a view" "a \<in> clients" "in_flight (view w) = []" "inbox (view w) a = []"
    and p: "\<And>w. process_mgmt_msg zc u a f w = Some (u', snd (zmsg_send zc Router_socket [a, str_bytes ''M'', r] w))"
  obtains w1 w2 where "zmsg_send z Hostctrl_socket [str_bytes ''M'', f] (u, w) = (0, (u, w1))"
    "zmsg_recv z Hostctrl_socket (u, w1) = (Received [str_bytes ''M'', r], (u', w2))" "view w2 = view w"
proof -
  obtain w1 where 1: "zmsg_send z Hostctrl_socket [str_bytes ''M'', f] (u, w) = (0, (u, w1))"
    "view w1 = (view w)\<lparr>in_flight := in_flight (view w) @ [(a, [str_bytes ''M'', f])]\<rparr>" by (rule client_send [OF assms(2)])
  have q: "in_flight (view w1) = [(a, [str_bytes ''M'', f])]" "inbox (view w1) a = []" using 1(2) assms(4,5) by simp_all
  obtain w' where 2: "iothread_handle_ext_msg zc u w1 = Some (0, u', w')"
    "view w' = deliver clients a [str_bytes ''M'', r] ((view w1)\<lparr>in_flight := []\<rparr>)" by (rule ctrl_answers [OF assms(1) q(1) p])
  have v: "in_flight (view w') = []" "inbox (view w') a = [[str_bytes ''M'', r]]"
    using 2(2) q assms(3) by (simp_all add: deliver_def)
  obtain w2 where 3: "zmsg_recv z Hostctrl_socket (u, w1) = (Received [str_bytes ''M'', r], (u', w2))"
    "view w2 = (view w')\<lparr>inbox := (inbox (view w'))(a := [])\<rparr>"
    by (rule client_waits [OF assms(2) _ q(2) 2(1) v]) (simp add: q(1))
  have "view w2 = view w"
    using 3(2) 2(2) 1(2) assms(3) wire_restored [OF assms(4,5)] by (simp add: deliver_def)
  then show thesis using that 1(1) 3(1) by blast
qed

lemma client_forwards:
  assumes "router_laws zc clients view" "client_laws zc zs src view" "client_laws zc z d view" "d \<in> clients"
    and "in_flight (view w) = []" "inbox (view w) d = []" "hc_inv u" "packet_wf p" "route u (data_raw p ! 0) = Some d"
  obtains w1 w2 where "zmsg_send zs Hostctrl_socket [str_bytes ''D'', enc_words le16_bytes (data_raw p)] (u, w) = (0, (u, w1))"
    "zmsg_recv z Hostctrl_socket (u, w1) = (Received [str_bytes ''D'', enc_words le16_bytes (data_raw p)], (u, w2))" "view w2 = view w"
proof -
  let ?m = "[str_bytes ''D'', enc_words le16_bytes (data_raw p)]"
  obtain w1 where 1: "zmsg_send zs Hostctrl_socket ?m (u, w) = (0, (u, w1))"
    "view w1 = (view w)\<lparr>in_flight := in_flight (view w) @ [(src, ?m)]\<rparr>" by (rule client_send [OF assms(2)])
  have q: "in_flight (view w1) = [(src, ?m)]" "inbox (view w1) d = []" using 1(2) assms(5,6) by simp_all
  obtain w' where 2: "iothread_handle_ext_msg zc u w1 = Some (0, u, w')"
    "view w' = deliver clients d ?m ((view w1)\<lparr>in_flight := []\<rparr>)" by (rule ctrl_forwards [OF assms(1) q(1) assms(7-9)])
  have v: "in_flight (view w') = []" "inbox (view w') d = [?m]"
    using 2(2) q assms(4) by (simp_all add: deliver_def)
  obtain w2 where 3: "zmsg_recv z Hostctrl_socket (u, w1) = (Received ?m, (u, w2))"
    "view w2 = (view w')\<lparr>inbox := (inbox (view w'))(d := [])\<rparr>"
    by (rule client_waits [OF assms(3) _ q(2) 2(1) v]) (simp add: q(1))
  have "view w2 = view w"
    using 3(2) 2(2) 1(2) assms(4) wire_restored [OF assms(5,6)] by (simp add: deliver_def)
  then show thesis using that 1(1) 3(1) by blast
qed

section \<open>Gateway registration\<close>

lemma no_nul_append: "(\<forall>c \<in> set s. c \<noteq> CHR 0x00) \<Longrightarrow> frame_str (str_bytes (s @ fmt_u n)) = s @ fmt_u n"
  by (intro frame_str_bytes) (auto dest: fmt_u_no_nul)

lemma parse_subnet_fmt: "n \<le> 63 \<Longrightarrow> parse_subnet (fmt_u n) = Some (of_nat n)"
  by (simp add: parse_subnet_def strtol10_fmt_u OSD_DIADDR_SUBNET_MAX_def OSD_DIADDR_SUBNET_BITS_def
      word_le_nat_alt unat_of_nat_u32)

lemma params_of_command:
  "length s = n \<Longrightarrow> params_at n (str_bytes (s @ fmt_u k)) = Some (fmt_u k)"
  by (auto simp: params_at_def str_bytes_def simp flip: drop_map)
    (simp add: frame_str_bytes [unfolded str_bytes_def] fmt_u_no_nul)

lemma mgmt_register:
  assumes "hc_inv u" "n \<le> 63" "gateways u ! n = None"
  shows "process_mgmt_msg z u src (str_bytes (''GW_REGISTER '' @ fmt_u n)) w =
     Some (with_gateway u n (Some src), snd (zmsg_send z Router_socket [src, str_bytes ''M'', str_bytes ''ACK''] w))"
proof -
  have r: "frame_str (str_bytes (''GW_REGISTER '' @ fmt_u n)) = ''GW_REGISTER '' @ fmt_u n"
    by (intro no_nul_append) simp
  have p: "params_at 12 (str_bytes (''GW_REGISTER '' @ fmt_u n)) = Some (fmt_u n)"
    by (intro params_of_command) simp
  have "unat (of_nat n :: u32) = n" using assms(2) by (intro unat_of_nat_u32) simp
  then have "mgmt_gw_register z u src (fmt_u n) w =
      Some (with_gateway u n (Some src), snd (zmsg_send z Router_socket [src, str_bytes ''M'', str_bytes ''ACK''] w))"
    using assms by (simp add: mgmt_gw_register_def parse_subnet_fmt tab_get_def hc_inv_def mgmt_send_ack_def with_gateway_def)
  then show ?thesis unfolding process_mgmt_msg_def Let_def r p by simp
qed

lemma mgmt_unregister:
  assumes "hc_inv u" "n \<le> 63" "gateways u ! n = Some src"
  shows "process_mgmt_msg z u src (str_bytes (''GW_UNREGISTER '' @ fmt_u n)) w =
     Some (with_gateway u n None, snd (zmsg_send z Router_socket [src, str_bytes ''M'', str_bytes ''ACK''] w))"
proof -
  have r: "frame_str (str_bytes (''GW_UNREGISTER '' @ fmt_u n)) = ''GW_UNREGISTER '' @ fmt_u n"
    by (intro no_nul_append) simp
  have p: "params_at 14 (str_bytes (''GW_UNREGISTER '' @ fmt_u n)) = Some (fmt_u n)"
    by (intro params_of_command) simp
  have "unat (of_nat n :: u32) = n" using assms(2) by (intro unat_of_nat_u32) simp
  then have "mgmt_gw_unregister z u src (fmt_u n) w =
      Some (with_gateway u n None, snd (zmsg_send z Router_socket [src, str_bytes ''M'', str_bytes ''ACK''] w))"
    using assms by (simp add: mgmt_gw_unregister_def parse_subnet_fmt tab_get_def hc_inv_def mgmt_send_ack_def with_gateway_def)
  then show ?thesis unfolding process_mgmt_msg_def Let_def r p by simp
qed

text \<open>A command that the controller acknowledges.\<close>

lemma gateway_command:
  assumes "router_laws zc clients view" "client_laws zc z gw view" "gw \<in> clients" "in_flight (view w) = []" "inbox (view w) gw = []"
    and "gw_hostctrl_socket gu"
    and "\<And>w. process_mgmt_msg zc u gw (str_bytes cmd) w =
       Some (u', snd (zmsg_send zc Router_socket [gw, str_bytes ''M'', str_bytes ''ACK''] w))"
  obtains w2 where "hostiothread_send_cmd z gu cmd (u, w) = Some (OSD_OK, (u', w2))" "view w2 = view w"
proof -
  obtain w1 w2 where "zmsg_send z Hostctrl_socket [str_bytes ''M'', str_bytes cmd] (u, w) = (0, (u, w1))"
    "zmsg_recv z Hostctrl_socket (u, w1) = (Received [str_bytes ''M'', str_bytes ''ACK''], (u', w2))" "view w2 = view w"
    by (rule client_calls [OF assms(1-5,7)])
  then show thesis using that [of w2] assms(6) by (simp add: hostiothread_send_cmd_def frame_streq_def)
qed

lemma route_with_gateway:
  assumes "hc_inv u" "unat dest div 1024 = n" "n \<noteq> unat (subnet_addr u)"
  shows "route (with_gateway u n e) dest = e"
proof -
  have "n < 64" using assms(2) unat_u16_lt [of dest] by linarith
  then show ?thesis using assms by (simp add: route_def with_gateway_def hc_inv_def)
qed

lemma hc_inv_with_gateway: "hc_inv u \<Longrightarrow> hc_inv (with_gateway u n e)"
  by (simp add: with_gateway_def hc_inv_updates)


section \<open>Messages in flight\<close>

text \<open>
  The controller and its clients with messages in flight: a client sends, the controller handles the first message, a client
  takes the first message that has arrived. \<open>n_sent\<close> and \<open>n_received\<close> record what was sent, in this order, and what every
  client has received.
\<close>

record 'w net =
  n_ctrl :: hc_usr_ctx
  n_world :: 'w
  n_sent :: "(zframe \<times> zmsg) list"
  n_received :: inboxes

inductive net_step ::
  "'w zmq \<Rightarrow> (zframe \<Rightarrow> (hc_usr_ctx \<times> 'w) zmq) \<Rightarrow> zframe set \<Rightarrow> ('w \<Rightarrow> 'd wire) \<Rightarrow> 'w net \<Rightarrow> 'w net \<Rightarrow> bool"
  for zc zl clients view where
  send: "a \<in> clients \<Longrightarrow> zmsg_send (zl a) Hostctrl_socket m (n_ctrl n, n_world n) = (rv, (u', w'))
     \<Longrightarrow> net_step zc zl clients view n (n\<lparr>n_ctrl := u', n_world := w', n_sent := n_sent n @ [(a, m)]\<rparr>)"
| handle: "ctrl_step zc view (n_ctrl n, n_world n) (u', w') \<Longrightarrow> net_step zc zl clients view n (n\<lparr>n_ctrl := u', n_world := w'\<rparr>)"
| receive: "a \<in> clients \<Longrightarrow> inbox (view (n_world n)) a \<noteq> []
     \<Longrightarrow> zmsg_recv (zl a) Hostctrl_socket (n_ctrl n, n_world n) = (Received m, (u', w'))
     \<Longrightarrow> net_step zc zl clients view n
           (n\<lparr>n_ctrl := u', n_world := w', n_received := (n_received n)(a := n_received n a @ [m])\<rparr>)"

inductive net_reach ::
  "'w zmq \<Rightarrow> (zframe \<Rightarrow> (hc_usr_ctx \<times> 'w) zmq) \<Rightarrow> zframe set \<Rightarrow> ('w \<Rightarrow> 'd wire) \<Rightarrow> string \<Rightarrow> 'w net \<Rightarrow> bool"
  for zc zl clients view address where
  init: "in_flight (view w) = [] \<Longrightarrow> inbox (view w) = (\<lambda>_. []) \<Longrightarrow> net_reach zc zl clients view address
     \<lparr>n_ctrl = hc_usr_init address, n_world = w, n_sent = [], n_received = (\<lambda>_. [])\<rparr>"
| step: "net_reach zc zl clients view address n \<Longrightarrow> net_step zc zl clients view n n' \<Longrightarrow> net_reach zc zl clients view address n'"

definition net_inv :: "zframe set \<Rightarrow> ('w \<Rightarrow> 'd wire) \<Rightarrow> string \<Rightarrow> 'w net \<Rightarrow> bool" where
  "net_inv clients view address n \<longleftrightarrow> hc_inv (n_ctrl n)
     \<and> (\<exists>handled out. (\<forall>a. msgs_of a (n_sent n) = msgs_of a handled @ msgs_of a (in_flight (view (n_world n))))
          \<and> ctrl_run (hc_usr_init address) handled = (n_ctrl n, out)
          \<and> (\<forall>a. n_received n a @ inbox (view (n_world n)) a = to_client clients a out))"

lemma net_invE:
  assumes "net_inv clients view address n"
  obtains handled out where "hc_inv (n_ctrl n)"
    "\<And>a. msgs_of a (n_sent n) = msgs_of a handled @ msgs_of a (in_flight (view (n_world n)))"
    "ctrl_run (hc_usr_init address) handled = (n_ctrl n, out)"
    "\<And>a. n_received n a @ inbox (view (n_world n)) a = to_client clients a out"
  using assms by (auto simp: net_inv_def)

lemma net_inv_step:
  assumes laws: "router_laws zc clients view" "\<forall>a \<in> clients. client_laws zc (zl a) a view"
  shows "net_step zc zl clients view n n' \<Longrightarrow> net_inv clients view address n \<Longrightarrow> net_inv clients view address n'"
proof (induction rule: net_step.induct)
  case (send a m n rv u' w')
  obtain w1 where w1: "zmsg_send (zl a) Hostctrl_socket m (n_ctrl n, n_world n) = (0, (n_ctrl n, w1))"
    "view w1 = (view (n_world n))\<lparr>in_flight := in_flight (view (n_world n)) @ [(a, m)]\<rparr>"
    by (rule client_send [OF bspec [OF laws(2) send.hyps(1)]])
  then have "u' = n_ctrl n" "w' = w1" using send.hyps(2) by simp_all
  then show ?case using send.prems w1(2) by (auto simp: net_inv_def)
next
  case (handle n u' w')
  from handle.prems obtain hs out where i: "hc_inv (n_ctrl n)"
    "\<And>a. msgs_of a (n_sent n) = msgs_of a hs @ msgs_of a (in_flight (view (n_world n)))"
    "ctrl_run (hc_usr_init address) hs = (n_ctrl n, out)"
    "\<And>a. n_received n a @ inbox (view (n_world n)) a = to_client clients a out" by (rule net_invE) blast
  from handle.hyps obtain rv where h: "in_flight (view (n_world n)) \<noteq> []"
    "iothread_handle_ext_msg zc (n_ctrl n) (n_world n) = Some (rv, u', w')"
    by (auto simp: ctrl_step_iff)
  obtain m out' where s: "ctrl_spec (n_ctrl n) m = (u', out')"
    "\<And>b. msgs_of b (in_flight (view (n_world n))) = msgs_of b [m] @ msgs_of b (in_flight (view w'))"
    "inbox (view w') = (\<lambda>a. inbox (view (n_world n)) a @ to_client clients a out')"
    using ctrl_handles [OF laws(1) i(1) h] by blast
  have "ctrl_run (hc_usr_init address) (hs @ [m]) = (u', out @ out')" using i(3) s(1) by (simp add: ctrl_run_snoc)
  moreover have "msgs_of a (n_sent n) = msgs_of a (hs @ [m]) @ msgs_of a (in_flight (view w'))" for a
    using i(2) [of a] s(2) [of a] by (simp del: msgs_of_simps(3))
  moreover have "n_received n a @ inbox (view w') a = to_client clients a (out @ out')" for a
    using i(4) [of a] by (simp add: s(3) to_client_append flip: append_assoc)
  ultimately show ?case using hc_inv_ext_msg [OF i(1) h(2)] unfolding net_inv_def
    by (intro conjI exI [of _ "hs @ [m]"] exI [of _ "out @ out'"]) (simp_all del: msgs_of_simps)
next
  case (receive a n m u' w')
  obtain m1 ms where ib: "inbox (view (n_world n)) a = m1 # ms" using receive.hyps(2) by (auto simp: neq_Nil_conv)
  obtain w1 where "zmsg_recv (zl a) Hostctrl_socket (n_ctrl n, n_world n) = (Received m1, (n_ctrl n, w1))"
    "view w1 = (view (n_world n))\<lparr>inbox := (inbox (view (n_world n)))(a := ms)\<rparr>"
    by (rule client_recv [OF bspec [OF laws(2) receive.hyps(1)] ib])
  then have w: "m = m1" "u' = n_ctrl n" "in_flight (view w') = in_flight (view (n_world n))"
    "inbox (view w') = (inbox (view (n_world n)))(a := ms)" using receive.hyps(3) by simp_all
  have "((n_received n)(a := n_received n a @ [m])) b @ inbox (view w') b = n_received n b @ inbox (view (n_world n)) b" for b
    using ib by (simp add: w(1,4))
  then show ?case using receive.prems w(2,3) by (auto simp: net_inv_def)
qed

lemma net_reach_inv:
  assumes "router_laws zc clients view" "\<forall>a \<in> clients. client_laws zc (zl a) a view"
  shows "net_reach zc zl clients view address n \<Longrightarrow> net_inv clients view address n"
proof (induction rule: net_reach.induct)
  case (init w)
  then show ?case unfolding net_inv_def
    by (intro conjI exI [of _ "[]"]) (simp_all add: hc_inv_init)
next
  case (step n n')
  then show ?case by (blast intro: net_inv_step [OF assms])
qed

section \<open>An instance of the transport\<close>

text \<open>For the witnesses: the messages in flight, the inboxes and the packets written to a device as lists.\<close>

type_synonym demo = "(zframe \<times> zmsg) list \<times> inboxes \<times> osd_packet list"

definition demo_view :: "demo \<Rightarrow> osd_packet list wire" where
  "demo_view = (\<lambda>(q, ib, dev). \<lparr>in_flight = q, inbox = ib, device = dev\<rparr>)"

definition demo_clients :: "zframe set" where "demo_clients = {[7], [9]}"

definition demo_router :: "demo zmq" where
  "demo_router = \<lparr>zmsg_send = (\<lambda>s m (q, ib, dev). case m of [] \<Rightarrow> (-1, (q, ib, dev))
       | d # fs \<Rightarrow> (0, (q, if d \<in> demo_clients then ib(d := ib d @ [fs]) else ib, dev))),
     zmsg_recv = (\<lambda>s (q, ib, dev). case q of [] \<Rightarrow> (Again, ([], ib, dev)) | (a, m) # ms \<Rightarrow> (Received (a # m), (ms, ib, dev))),
     zsock_new = (\<lambda>s a w. (True, w)), zsock_bind = (\<lambda>s a w. (0, w)),
     zsock_connect = (\<lambda>s a w. (0, w)), zsock_destroy = (\<lambda>s w. w),
     zloop_reader = (\<lambda>s w. (0, w)), zloop_reader_end = (\<lambda>s w. w),
     zuuid_str = (\<lambda>w. (replicate 32 (CHR ''a''), w)),
     pthread_create = (\<lambda>w. (0, w)), pthread_join = (\<lambda>w. w), pthread_cancel = (\<lambda>w. w),
     thread_is_running = (\<lambda>w. True)\<rparr>"

text \<open>The client \<open>a\<close> waits: the controller handles messages until one has arrived, at most \<open>k\<close>.\<close>

fun demo_wait :: "nat \<Rightarrow> zframe \<Rightarrow> hc_usr_ctx \<times> demo \<Rightarrow> hc_usr_ctx \<times> demo" where
  "demo_wait 0 a s = s"
| "demo_wait (Suc k) a (u, w) =
     (if inbox (demo_view w) a \<noteq> [] \<or> in_flight (demo_view w) = [] then (u, w)
      else (case iothread_handle_ext_msg demo_router u w of None \<Rightarrow> (u, w) | Some (rv, s) \<Rightarrow> demo_wait k a s))"

definition demo_recv :: "zframe \<Rightarrow> hc_usr_ctx \<times> demo \<Rightarrow> recv_result \<times> hc_usr_ctx \<times> demo" where
  "demo_recv a s =
     (case demo_wait (length (in_flight (demo_view (snd s)))) a s of
        (u, (q, ib, dev)) \<Rightarrow>
          (case ib a of [] \<Rightarrow> (Again, (u, (q, ib, dev))) | m # ms \<Rightarrow> (Received m, (u, (q, ib(a := ms), dev)))))"

definition demo_client :: "zframe \<Rightarrow> (hc_usr_ctx \<times> demo) zmq" where
  "demo_client a = \<lparr>zmsg_send = (\<lambda>s m (u, (q, ib, dev)). (0, (u, (q @ [(a, m)], ib, dev)))),
     zmsg_recv = (\<lambda>s. demo_recv a),
     zsock_new = (\<lambda>s a w. (True, w)), zsock_bind = (\<lambda>s a w. (0, w)),
     zsock_connect = (\<lambda>s a w. (0, w)), zsock_destroy = (\<lambda>s w. w),
     zloop_reader = (\<lambda>s w. (0, w)), zloop_reader_end = (\<lambda>s w. w),
     zuuid_str = (\<lambda>w. (replicate 32 (CHR ''a''), w)),
     pthread_create = (\<lambda>w. (0, w)), pthread_join = (\<lambda>w. w), pthread_cancel = (\<lambda>w. w),
     thread_is_running = (\<lambda>w. True)\<rparr>"

lemma demo_router_laws: "router_laws demo_router demo_clients demo_view"
proof -
  have "\<exists>xs a m ys w'. in_flight (demo_view w) = xs @ (a, m) # ys \<and> a \<notin> fst ` set xs
     \<and> zmsg_recv demo_router Router_socket w = (Received (a # m), w') \<and> demo_view w' = (demo_view w)\<lparr>in_flight := xs @ ys\<rparr>"
    if "in_flight (demo_view w) \<noteq> []" for w
  proof -
    obtain a m ys ib dev where "w = ((a, m) # ys, ib, dev)" using \<open>in_flight (demo_view w) \<noteq> []\<close>
      by (cases w; cases "fst w") (auto simp: demo_view_def)
    then show ?thesis
      by (intro exI [of _ "[]"] exI [of _ a] exI [of _ m] exI [of _ ys]) (simp add: demo_router_def demo_view_def)
  qed
  then show ?thesis unfolding router_laws_def by (auto simp: demo_router_def demo_view_def deliver_def)
qed

lemma operations_send:
  "mgmt_diaddr_request z u src w = Some (u', w') \<Longrightarrow> \<exists>m. w' = snd (zmsg_send z Router_socket m w)"
  "mgmt_diaddr_release z u src w = Some (u', w') \<Longrightarrow> \<exists>m. w' = snd (zmsg_send z Router_socket m w)"
  "mgmt_gw_register z u src ps w = Some (u', w') \<Longrightarrow> \<exists>m. w' = snd (zmsg_send z Router_socket m w)"
  "mgmt_gw_unregister z u src ps w = Some (u', w') \<Longrightarrow> \<exists>m. w' = snd (zmsg_send z Router_socket m w)"
     apply (force simp: mgmt_diaddr_request_def split: bind_splits sum.splits if_splits prod.splits)
    apply (force simp: mgmt_diaddr_release_def mgmt_send_ack_def mgmt_send_nack_def split: bind_splits option.splits)
   apply (force simp: mgmt_gw_register_def mgmt_send_ack_def mgmt_send_nack_def split: bind_splits if_splits)
  apply (force simp: mgmt_gw_unregister_def mgmt_send_ack_def mgmt_send_nack_def split: bind_splits if_splits)
  done

lemma mgmt_sends:
  assumes "process_mgmt_msg z u src f w = Some (u', w')"
  shows "\<exists>m. w' = snd (zmsg_send z Router_socket m w)"
  using assms unfolding process_mgmt_msg_def Let_def mgmt_send_ack_def
  by (auto simp: bind_eq_Some_conv split: if_split_asm intro: operations_send)

lemma data_sends:
  assumes "process_data_msg z u src f w = Some w'"
  shows "w' = w \<or> (\<exists>m. w' = snd (zmsg_send z Router_socket m w))"
  using assms by (auto simp: process_data_msg_def Let_def bind_eq_Some_conv split_beta split: if_splits option.splits)

lemma ext_msg_sends:
  assumes "zmsg_recv z Router_socket w = (Received m, w0)" "iothread_handle_ext_msg z u w = Some (rv, u', w')"
  shows "w' = w0 \<or> (\<exists>x. w' = snd (zmsg_send z Router_socket x w0))"
proof -
  obtain src t fs where m: "m = src # t # fs"
    using assms by (cases m; cases "tl m") (simp_all add: iothread_handle_ext_msg_def)
  note ext = assms(2) [unfolded iothread_handle_ext_msg_def assms(1), simplified m prod.case recv_result.case list.case]
  show ?thesis
  proof (cases fs)
    case Nil
    then show ?thesis using ext by (auto split: if_splits)
  next
    case (Cons f gs)
    then show ?thesis using ext
      by (auto simp: bind_eq_Some_conv split: if_splits dest: mgmt_sends data_sends)
  qed
qed

lemma demo_handles:
  assumes "iothread_handle_ext_msg demo_router u w = Some (rv, u', w')" "in_flight (demo_view w) = m # q"
  shows "in_flight (demo_view w') = q"
proof -
  have snd: "in_flight (demo_view (snd (zmsg_send demo_router s x v))) = in_flight (demo_view v)" for s x v
    by (cases v; cases x) (simp_all add: demo_router_def demo_view_def)
  obtain w0 where "zmsg_recv demo_router Router_socket w = (Received (fst m # snd m), w0)" "in_flight (demo_view w0) = q"
    using assms(2) by (cases w; cases m) (simp add: demo_router_def demo_view_def)
  note w0 = this
  from ext_msg_sends [OF w0(1) assms(1)] show ?thesis
  proof
    assume "\<exists>x. w' = snd (zmsg_send demo_router Router_socket x w0)"
    then show ?thesis using snd [of Router_socket _ w0] w0(2) by (elim exE) simp
  qed (simp add: w0(2))
qed


lemma demo_wait_waits:
  "length (in_flight (demo_view (snd s))) \<le> k \<Longrightarrow>
     (ctrl_step demo_router demo_view)\<^sup>*\<^sup>* s (demo_wait k a s)
     \<and> (inbox (demo_view (snd (demo_wait k a s))) a \<noteq> [] \<or> ctrl_idle demo_router demo_view (demo_wait k a s))"
proof (induction k a s rule: demo_wait.induct)
  case (1 a s)
  then show ?case by (simp add: ctrl_idle_def)
next
  case (2 k a u w)
  show ?case
  proof (cases "inbox (demo_view w) a \<noteq> [] \<or> in_flight (demo_view w) = []")
    case True
    then show ?thesis by (auto simp: ctrl_idle_def)
  next
    case False
    then obtain m q where q: "in_flight (demo_view w) = m # q" by (auto simp: neq_Nil_conv)
    show ?thesis
    proof (cases "iothread_handle_ext_msg demo_router u w")
      case None
      then show ?thesis using False by (simp add: ctrl_idle_def)
    next
      case (Some r)
      obtain rv u' w' where r: "r = (rv, u', w')" by (cases r)
      have "length (in_flight (demo_view w')) \<le> k" using demo_handles [OF Some [unfolded r] q] 2(2) q by simp
      then have "(ctrl_step demo_router demo_view)\<^sup>*\<^sup>* (u', w') (demo_wait k a (u', w'))
          \<and> (inbox (demo_view (snd (demo_wait k a (u', w')))) a \<noteq> [] \<or> ctrl_idle demo_router demo_view (demo_wait k a (u', w')))"
        using 2(1) [OF False Some] r by simp
      moreover have "ctrl_step demo_router demo_view (u, w) (u', w')"
        using q Some r by (simp add: ctrl_step_iff)
      ultimately show ?thesis using False Some r by (simp add: converse_rtranclp_into_rtranclp)
    qed
  qed
qed

lemma demo_wait_arrived: "inbox (demo_view (snd s)) a \<noteq> [] \<Longrightarrow> demo_wait k a s = s"
  by (cases k; cases s) simp_all

lemma demo_client_laws: "client_laws demo_router (demo_client a) a demo_view"
proof -
  have recv: "\<exists>u1 w1. (ctrl_step demo_router demo_view)\<^sup>*\<^sup>* (u, w) (u1, w1)
      \<and> (inbox (demo_view w1) a \<noteq> [] \<and> demo_recv a (u, w) = demo_recv a (u1, w1)
         \<or> inbox (demo_view w1) a = [] \<and> ctrl_idle demo_router demo_view (u1, w1)
           \<and> (\<exists>w2. demo_recv a (u, w) = (Again, (u1, w2)) \<and> demo_view w2 = demo_view w1))" for u w
  proof -
    let ?k = "length (in_flight (demo_view w))"
    obtain u1 w1 where s: "demo_wait ?k a (u, w) = (u1, w1)" by (rule prod.exhaust)
    note * = demo_wait_waits [of "(u, w)" ?k a, simplified s, simplified]
    have "demo_recv a (u, w) = demo_recv a (u1, w1)" if "inbox (demo_view w1) a \<noteq> []"
      using s demo_wait_arrived [of "(u1, w1)" a] that by (simp add: demo_recv_def)
    moreover have "\<exists>w2. demo_recv a (u, w) = (Again, (u1, w2)) \<and> demo_view w2 = demo_view w1" if "inbox (demo_view w1) a = []"
      using s that by (cases w1) (simp add: demo_recv_def demo_view_def)
    ultimately show ?thesis using * by blast
  qed
  have "\<exists>w'. demo_recv a (u, w) = (Received m, (u, w')) \<and> demo_view w' = (demo_view w)\<lparr>inbox := (inbox (demo_view w))(a := ms)\<rparr>"
    if "inbox (demo_view w) a = m # ms" for u w m ms
    using that demo_wait_arrived [of "(u, w)" a] by (cases w) (simp add: demo_recv_def demo_view_def)
  then show ?thesis using recv
    by (simp add: client_laws_def demo_client_def) (simp add: demo_view_def)
qed

section \<open>Properties\<close>


definition gw_usr :: "(hc_usr_ctx \<times> demo) hostiothread_usr_ctx" where
  "gw_usr = \<lparr>gw_hostctrl_socket = True, gw_host_controller_address = ''tcp://localhost:9537'',
     packet_write = (\<lambda>p (u, (q, ib, dev)). (OSD_OK, (u, (q, ib, dev @ [p])))), io_device_rx_socket = True, device_subnet_addr = 4\<rparr>"

definition hm_usr :: "(unit, hc_usr_ctx \<times> demo) iothread_usr_ctx" where
  "hm_usr = \<lparr>hostctrl_socket = True, host_controller_address = ''tcp://localhost:9537'', event_handler = None, event_reassembly_buf = ()\<rparr>"

definition gw_packet :: osd_packet where
  "gw_packet = mk_packet 4099 1025 OSD_PACKET_TYPE_EVENT EV_LAST [1, 2]"

lemma gw_packet_facts: "packet_wf gw_packet" "unat (data_raw gw_packet ! 0) div 1024 = 4"
  by (simp_all add: gw_packet_def) (simp add: mk_packet_def)

lemma init_tables: "subnet_addr (hc_usr_init a) = 1" "gateways (hc_usr_init a) = replicate 64 None"
  "mods_in_subnet (hc_usr_init a) = replicate 1024 None"
  by (simp_all add: hc_usr_init_def)

lemma gw_usr_facts: "unat (device_subnet_addr gw_usr) = 4" "gw_hostctrl_socket gw_usr"
  "\<exists>w'. packet_write gw_usr p (u, w) = (OSD_OK, (u, w')) \<and> demo_view w' = (demo_view w)\<lparr>device := device (demo_view w) @ [p]\<rparr>"
  by (simp_all add: gw_usr_def) (cases w; simp add: demo_view_def)




text \<open>A gateway has registered; a packet for it waits in its inbox.\<close>

definition net_demo :: "demo net" where
  "net_demo =
     (let reg = ([9], [str_bytes ''M'', str_bytes (''GW_REGISTER '' @ fmt_u 4)]);
          pkt = ([7], [str_bytes ''D'', enc_words le16_bytes (data_raw gw_packet)])
      in \<lparr>n_ctrl = with_gateway (hc_usr_init []) 4 (Some [9]),
          n_world = ([], (\<lambda>_. [])([9] := [[str_bytes ''M'', str_bytes ''ACK''], snd pkt]), []),
          n_sent = [reg, pkt], n_received = (\<lambda>_. [])\<rparr>)"

lemma demo_mgmt:
  "process_mgmt_msg demo_router u src f ([], ib, dev) = Some (u', snd (zmsg_send demo_router Router_socket [src, str_bytes ''M'', r] ([], ib, dev)))
     \<Longrightarrow> iothread_handle_ext_msg demo_router u ([(src, [str_bytes ''M'', f])], ib, dev) =
       Some (0, u', ([], if src \<in> demo_clients then ib(src := ib src @ [[str_bytes ''M'', r]]) else ib, dev))"
  by (simp add: iothread_handle_ext_msg_def frame_str_type) (simp add: demo_router_def frame_str_type)

lemma net_demo_reach: "net_reach demo_router demo_client demo_clients demo_view [] net_demo"
proof -
  let ?R = "net_reach demo_router demo_client demo_clients demo_view []"
  let ?reg = "[str_bytes ''M'', str_bytes (''GW_REGISTER '' @ fmt_u 4)]" and ?d = "[str_bytes ''D'', enc_words le16_bytes (data_raw gw_packet)]"
  let ?u0 = "hc_usr_init []" and ?u1 = "with_gateway (hc_usr_init []) 4 (Some [9])" and ?ack = "[str_bytes ''M'', str_bytes ''ACK'']"
  let ?i0 = "(\<lambda>_. []) :: inboxes" and ?i1 = "(\<lambda>_. [])([9] := [?ack]) :: inboxes" and ?i2 = "(\<lambda>_. [])([9] := [?ack, ?d]) :: inboxes"
  have c: "[9] \<in> demo_clients" "[7] \<in> demo_clients" by (simp_all add: demo_clients_def)
  have send: "zmsg_send (demo_client a) Hostctrl_socket m (u, (q, ib, dev)) = (0, (u, (q @ [(a, m)], ib, dev)))" for a m u q ib dev
    by (simp add: demo_client_def)
  have "?R \<lparr>n_ctrl = ?u0, n_world = ([], ?i0, []), n_sent = [], n_received = ?i0\<rparr>"
    by (rule net_reach.init) (simp_all add: demo_view_def)
  from net_reach.step [OF this net_step.send [where m = ?reg, OF c(1)]]
  have r1: "?R \<lparr>n_ctrl = ?u0, n_world = ([([9], ?reg)], ?i0, []), n_sent = [([9], ?reg)], n_received = ?i0\<rparr>"
    using send by simp
  have "iothread_handle_ext_msg demo_router ?u0 ([([9], ?reg)], ?i0, []) = Some (0, ?u1, ([], ?i1, []))"
    using demo_mgmt [OF mgmt_register [OF hc_inv_init, where z = demo_router and n = 4 and src = "[9]" and w = "([], ?i0, [])"]] c by (simp add: init_tables)
  then have "ctrl_step demo_router demo_view (?u0, ([([9], ?reg)], ?i0, [])) (?u1, ([], ?i1, []))"
    by (simp add: ctrl_step_iff demo_view_def)
  with net_reach.step [OF r1 net_step.handle]
  have "?R \<lparr>n_ctrl = ?u1, n_world = ([], ?i1, []), n_sent = [([9], ?reg)], n_received = ?i0\<rparr>" by simp
  from net_reach.step [OF this net_step.send [where m = ?d, OF c(2)]]
  have r2: "?R \<lparr>n_ctrl = ?u1, n_world = ([([7], ?d)], ?i1, []), n_sent = [([9], ?reg), ([7], ?d)], n_received = ?i0\<rparr>"
    using send by simp
  have rt: "route ?u1 (data_raw gw_packet ! 0) = Some [9]"
    by (rule route_with_gateway [OF hc_inv_init gw_packet_facts(2)]) (simp add: init_tables)
  have "iothread_handle_ext_msg demo_router ?u1 ([([7], ?d)], ?i1, []) = Some (0, ?u1, ([], ?i2, []))"
    using process_data_msg_routes [OF hc_inv_with_gateway [OF hc_inv_init] gw_packet_facts(1), where z = demo_router and w = "([], ?i1, [])"] rt c
    by (simp add: iothread_handle_ext_msg_def frame_str_type) (simp add: demo_router_def frame_str_type)
  then have "ctrl_step demo_router demo_view (?u1, ([([7], ?d)], ?i1, [])) (?u1, ([], ?i2, []))"
    by (simp add: ctrl_step_iff demo_view_def)
  with net_reach.step [OF r2 net_step.handle] show ?thesis by (simp add: net_demo_def)
qed




end
