(* ===== verification/Systracelogger.thy ===== *)
theory Systracelogger
  imports Cl_Stm Hostmod_User
begin

text \<open>
  The system trace logger (\<^verbatim>\<open>systracelogger.c\<close>): trace events of a system trace module go to an event log, the
  characters of print events to a separate log, a line at a time.
\<close>

section \<open>Definitions\<close>

record event_stats =
  overflowed_events :: u32
  sysprint_events :: u32
  trace_events :: u32

text \<open>
  \<open>sl_handler_desc\<close> tells whether the event handler has got a pointer to the module description. The files
  are shared with the caller and kept outside the context.
\<close>

record osd_systracelogger_ctx =
  sl_hostmod_ctx :: osd_hostmod_ctx
  sl_stm_di_addr :: u16
  sl_stm_desc :: osd_stm_desc
  sl_handler_desc :: bool
  fp_sysprint :: "nat option"
  fp_event :: "nat option"
  sysprint_buf :: osd_cl_stm_print_buf
  sl_stats :: event_stats

definition update_stats :: "osd_stm_event \<Rightarrow> event_stats \<Rightarrow> event_stats" where
  "update_stats event stats =
     (if stm_overflow event \<noteq> 0
      then stats\<lparr>overflowed_events := overflowed_events stats + ucast (stm_overflow event)\<rparr>
      else stats\<lparr>sysprint_events := sysprint_events stats + of_bool (osd_cl_stm_is_print_event event),
                 trace_events := trace_events stats + 1\<rparr>)"

definition event_line :: "osd_stm_event \<Rightarrow> u8 list" where
  "event_line event = str_bytes
     (if stm_overflow event \<noteq> 0
      then ''Overflow, missed '' @ fmt_u (unat (stm_overflow event)) @ '' events'' @ [CHR 0x0A]
      else fmt_0x 8 (unat (stm_timestamp event)) @ '' '' @ fmt_0x 4 (unat (stm_id event)) @ '' ''
        @ fmt_0x 16 (unat (stm_value event)) @ [CHR 0x0A])"

definition write_opt :: "nat option \<Rightarrow> u8 list \<Rightarrow> c_files \<Rightarrow> c_files" where
  "write_opt fp bs fs = (case fp of None \<Rightarrow> fs | Some f \<Rightarrow> fput f bs fs)"

definition empty_print_buf :: osd_cl_stm_print_buf where
  "empty_print_buf = \<lparr>pb_buf = [], len_buf = 0, len_str = 0\<rparr>"

text \<open>\<open>junk\<close> is what memory from \<^verbatim>\<open>realloc\<close> holds.\<close>

definition stm_event_handler ::
  "(nat \<Rightarrow> u8) \<Rightarrow> osd_stm_event \<Rightarrow> osd_systracelogger_ctx \<times> c_files \<Rightarrow> (osd_systracelogger_ctx \<times> c_files) option" where
  "stm_event_handler junk event = (\<lambda>(ctx, fs).
     let ctx = ctx\<lparr>sl_stats := update_stats event (sl_stats ctx)\<rparr>
     in if stm_overflow event \<noteq> 0 then Some (ctx, write_opt (fp_event ctx) (event_line event) fs)
        else (let fs = write_opt (fp_event ctx) (event_line event) fs
              in case fp_sysprint ctx of
                   None \<Rightarrow> Some (ctx, fs)
                 | Some fp \<Rightarrow>
                     if \<not> osd_cl_stm_is_print_event event then Some (ctx, fs)
                     else do {
                       (should_flush, buf) \<leftarrow> osd_cl_stm_add_to_print_buf junk event (sysprint_buf ctx);
                       if should_flush
                       then Some (ctx\<lparr>sysprint_buf := empty_print_buf\<rparr>, fput fp (take (len_str buf) (pb_buf buf)) fs)
                       else Some (ctx\<lparr>sysprint_buf := buf\<rparr>, fs) }))"

text \<open>
  The handler is registered with the host module through the trace client. Before the logger is started the client
  has no module description, which only overflow packets are decoded without.
\<close>

definition systracelogger_event ::
  "(nat \<Rightarrow> u8) \<Rightarrow> osd_packet \<Rightarrow> osd_systracelogger_ctx \<times> c_files \<Rightarrow> (osd_systracelogger_ctx \<times> c_files) option" where
  "systracelogger_event junk pkg s =
     do { type_sub \<leftarrow> osd_packet_get_type_sub pkg;
          c_assert (sl_handler_desc (fst s) \<or> type_sub = EV_OVERFLOW);
          (rv, s) \<leftarrow> osd_cl_stm_handle_event (\<lambda>_ event s. Option.bind s (stm_event_handler junk event))
                     (sl_stm_desc (fst s)) pkg (Some s);
          s }"

definition osd_systracelogger_new ::
  "'w zmq \<Rightarrow> int \<Rightarrow> u16 \<Rightarrow> 'w \<Rightarrow> (osd_systracelogger_ctx \<times> 'w) option" where
  "osd_systracelogger_new z uninit di_addr w =
     do { (r, w) \<leftarrow> osd_hostmod_new z uninit w;
          (case r of
             Inl rv \<Rightarrow> None
           | Inr h \<Rightarrow> Some (\<lparr>sl_hostmod_ctx = h, sl_stm_di_addr = di_addr,
               sl_stm_desc = \<lparr>stm_di_addr = 0, value_width_bit = 0\<rparr>, sl_handler_desc = False,
               fp_sysprint = None, fp_event = None, sysprint_buf = empty_print_buf,
               sl_stats = \<lparr>overflowed_events = 0, sysprint_events = 0, trace_events = 0\<rparr>\<rparr>, w)) }"

definition osd_systracelogger_connect ::
  "'w zmq \<Rightarrow> osd_systracelogger_ctx \<Rightarrow> 'w \<Rightarrow> (osd_result \<times> osd_systracelogger_ctx \<times> 'w) option" where
  "osd_systracelogger_connect z ctx w =
     do { (rv, h, w) \<leftarrow> osd_hostmod_connect z (sl_hostmod_ctx ctx) w; Some (rv, ctx\<lparr>sl_hostmod_ctx := h\<rparr>, w) }"

definition osd_systracelogger_disconnect ::
  "'w zmq \<Rightarrow> osd_systracelogger_ctx \<Rightarrow> 'w \<Rightarrow> (osd_result \<times> osd_systracelogger_ctx \<times> 'w) option" where
  "osd_systracelogger_disconnect z ctx w =
     do { (rv, h, w) \<leftarrow> osd_hostmod_disconnect z (sl_hostmod_ctx ctx) w; Some (rv, ctx\<lparr>sl_hostmod_ctx := h\<rparr>, w) }"

definition osd_systracelogger_is_connected :: "osd_systracelogger_ctx \<Rightarrow> bool" where
  "osd_systracelogger_is_connected ctx = osd_hostmod_is_connected (sl_hostmod_ctx ctx)"

text \<open>What is left in the print buffer is written first, even when the log has been closed meanwhile.\<close>

definition osd_systracelogger_free ::
  "'w zmq \<Rightarrow> osd_systracelogger_ctx option \<Rightarrow> c_files \<Rightarrow> 'w
    \<Rightarrow> (osd_systracelogger_ctx option \<times> c_files \<times> 'w) option" where
  "osd_systracelogger_free z ctx_p fs w =
     (case ctx_p of
        None \<Rightarrow> Some (None, fs, w)
      | Some ctx \<Rightarrow>
          do { fs \<leftarrow> (if len_str (sysprint_buf ctx) > 0
                     then do { fp \<leftarrow> fp_sysprint ctx;
                               Some (fput fp (take (len_str (sysprint_buf ctx)) (pb_buf (sysprint_buf ctx))) fs) }
                     else Some fs);
               (_, w) \<leftarrow> osd_hostmod_free z (Some (sl_hostmod_ctx ctx)) w;
               Some (None, fs, w) })"

definition osd_systracelogger_start ::
  "'w zmq \<Rightarrow> osd_systracelogger_ctx \<Rightarrow> 'w \<Rightarrow> (osd_result \<times> osd_systracelogger_ctx \<times> 'w) option" where
  "osd_systracelogger_start z ctx w =
     do { let h = sl_hostmod_ctx ctx;
          (rv, desc, w) \<leftarrow> osd_cl_stm_get_desc z h (ucast (sl_stm_di_addr ctx)) (sl_stm_desc ctx) w;
          let ctx = ctx\<lparr>sl_stm_desc := desc\<rparr>;
          if OSD_FAILED rv then Some (rv, ctx, w)
          else do {
            let ctx = ctx\<lparr>sl_handler_desc := True\<rparr>;
            (r, w) \<leftarrow> osd_hostmod_mod_set_event_dest z h (sl_stm_di_addr ctx) 0 w;
            (case r of
               Inl rv \<Rightarrow> Some (rv, ctx, w)
             | Inr _ \<Rightarrow>
                 do { (r, w) \<leftarrow> osd_hostmod_mod_set_event_active z h (sl_stm_di_addr ctx) True 0 w;
                      (case r of Inl rv \<Rightarrow> Some (rv, ctx, w) | Inr _ \<Rightarrow> Some (OSD_OK, ctx, w)) }) } }"

definition osd_systracelogger_stop ::
  "'w zmq \<Rightarrow> osd_systracelogger_ctx \<Rightarrow> 'w \<Rightarrow> (osd_result \<times> 'w) option" where
  "osd_systracelogger_stop z ctx w =
     do { (r, w) \<leftarrow> osd_hostmod_mod_set_event_active z (sl_hostmod_ctx ctx) (sl_stm_di_addr ctx) False 0 w;
          (case r of
             Inl rv \<Rightarrow> Some (if rv = OSD_ERROR_TIMEDOUT then OSD_OK else rv, w)
           | Inr _ \<Rightarrow> Some (OSD_OK, w)) }"

definition osd_systracelogger_set_sysprint_log :: "nat option \<Rightarrow> osd_systracelogger_ctx \<Rightarrow> osd_systracelogger_ctx" where
  "osd_systracelogger_set_sysprint_log fp ctx = ctx\<lparr>fp_sysprint := fp\<rparr>"

definition osd_systracelogger_set_event_log :: "nat option \<Rightarrow> osd_systracelogger_ctx \<Rightarrow> osd_systracelogger_ctx" where
  "osd_systracelogger_set_event_log fp ctx = ctx\<lparr>fp_event := fp\<rparr>"

interpretation systracelogger: hostmod_user sl_hostmod_ctx "\<lambda>h c. c\<lparr>sl_hostmod_ctx := h\<rparr>"
  osd_systracelogger_connect osd_systracelogger_disconnect osd_systracelogger_is_connected
  by unfold_locales (auto simp: osd_systracelogger_connect_def osd_systracelogger_disconnect_def
      osd_systracelogger_is_connected_def osd_hostmod_is_connected_def split: bind_splits)

section \<open>Logging a run of events\<close>

text \<open>The packets by which a system trace module reports events and events it had to drop.\<close>

definition stm_packet :: "u32 \<Rightarrow> u32 \<Rightarrow> nat \<Rightarrow> osd_stm_event \<Rightarrow> osd_packet" where
  "stm_packet dest src n ev =
     (if stm_overflow ev \<noteq> 0 then mk_packet dest src OSD_PACKET_TYPE_EVENT EV_OVERFLOW [stm_overflow ev]
      else stm_event_packet dest src n ev)"

definition stm_event_ok :: "osd_stm_desc \<Rightarrow> osd_stm_event \<Rightarrow> bool" where
  "stm_event_ok desc ev \<longleftrightarrow>
     (if stm_overflow ev \<noteq> 0 then stm_timestamp ev = 0 \<and> stm_id ev = 0 \<and> stm_value ev = 0
      else unat (stm_value ev) < 2 ^ unat (value_width_bit desc)
        \<and> (osd_cl_stm_is_print_event ev \<longrightarrow> stm_value ev \<le> 255))"

definition print_chars :: "osd_stm_event list \<Rightarrow> u8 list" where
  "print_chars evs = map (\<lambda>ev. ucast (stm_value ev)) (filter osd_cl_stm_is_print_event evs)"

lemma print_chars_simps [simp]:
  "print_chars [] = []"
  "print_chars (ev # evs) = (if osd_cl_stm_is_print_event ev then [ucast (stm_value ev)] else []) @ print_chars evs"
  by (simp_all add: print_chars_def)

primrec log_packets ::
  "(nat \<Rightarrow> u8) \<Rightarrow> osd_packet list \<Rightarrow> osd_systracelogger_ctx \<times> c_files \<Rightarrow> (osd_systracelogger_ctx \<times> c_files) option" where
  "log_packets junk [] s = Some s"
| "log_packets junk (p # ps) s = do { s \<leftarrow> systracelogger_event junk p s; log_packets junk ps s }"

lemma stm_packet_decoded:
  assumes "valid_width (value_width_bit desc)" "stm_event_ok desc ev"
    and "hdr_in_range dest src OSD_PACKET_TYPE_EVENT EV_LAST" "hdr_in_range dest src OSD_PACKET_TYPE_EVENT EV_OVERFLOW"
  shows "build_stm_event desc (stm_packet dest src (unat (value_width_bit desc) div 16) ev) = Some ev"
proof (cases "stm_overflow ev = 0")
  case True
  then show ?thesis
    using build_stm_event_packet [OF assms(1) _ True assms(3)] assms(2) by (simp add: stm_packet_def stm_event_ok_def)
next
  case False
  let ?p = "mk_packet dest src OSD_PACKET_TYPE_EVENT EV_OVERFLOW [stm_overflow ev]"
  have "osd_packet_get_type_sub ?p = Some EV_OVERFLOW"
    using assms(4) by (intro mk_packet_getters(4)) auto
  moreover have "ev = \<lparr>stm_timestamp = 0, stm_id = 0, stm_value = 0, stm_overflow = stm_overflow ev\<rparr>"
    using assms(2) False by (cases ev) (simp add: stm_event_ok_def)
  ultimately show ?thesis
    using False by (simp add: stm_packet_def build_stm_event_def packet_payload_nth osd_packet_sizeconv_payload2data_def
        pkt_consts) (simp add: mk_packet_def)
qed

text \<open>
  The state of the logger after it has logged \<open>evs\<close>, starting with files \<open>fs\<close>: the event log is complete; what
  the print log lacks is an incomplete line in the buffer.
\<close>

definition logged ::
  "c_files \<Rightarrow> nat \<Rightarrow> nat \<Rightarrow> osd_systracelogger_ctx \<Rightarrow> osd_stm_event list \<Rightarrow> osd_systracelogger_ctx \<times> c_files \<Rightarrow> bool" where
  "logged fs a b ctx evs = (\<lambda>(ctx', fs'). \<exists>buf s. pb_holds buf s \<and> 10 \<notin> set s
     \<and> ctx' = ctx\<lparr>sysprint_buf := buf, sl_stats := fold update_stats evs (sl_stats ctx)\<rparr>
     \<and> wr_buf (fs' a) @ s = wr_buf (fs a) @ print_chars evs \<and> wr_cap (fs a) + length s = length (print_chars evs) + wr_cap (fs' a)
     \<and> wr_buf (fs' b) = wr_buf (fs b) @ concat (map event_line evs)
     \<and> wr_cap (fs b) = length (concat (map event_line evs)) + wr_cap (fs' b))"

lemma print_chars_append [simp]: "print_chars (xs @ ys) = print_chars xs @ print_chars ys"
  by (simp add: print_chars_def)

lemma pb_holds_empty: "pb_holds empty_print_buf []"
  by (simp add: pb_holds_def empty_print_buf_def)

lemma pb_holds_take: "pb_holds buf s \<Longrightarrow> take (len_str buf) (pb_buf buf) = s"
  by (auto simp: pb_holds_def)

lemma handler_logged:
  assumes L: "logged fs a b ctx evs (ctx', fs')" and fp: "fp_sysprint ctx = Some a" "fp_event ctx = Some b" "a \<noteq> b"
    and room: "length (print_chars (evs @ [ev])) \<le> wr_cap (fs a)" "length (concat (map event_line (evs @ [ev]))) \<le> wr_cap (fs b)"
    and v: "osd_cl_stm_is_print_event ev \<Longrightarrow> stm_value ev \<le> 255"
  shows "\<exists>s'. stm_event_handler junk ev (ctx', fs') = Some s' \<and> logged fs a b ctx (evs @ [ev]) s'"
proof -
  let ?c = "ucast (stm_value ev) :: u8" and ?fs = "fput b (event_line ev) fs'"
  let ?ctx = "\<lambda>buf. ctx\<lparr>sysprint_buf := buf, sl_stats := fold update_stats (evs @ [ev]) (sl_stats ctx)\<rparr>"
  obtain buf s where s: "pb_holds buf s" "10 \<notin> set s"
    and ctx': "ctx' = ctx\<lparr>sysprint_buf := buf, sl_stats := fold update_stats evs (sl_stats ctx)\<rparr>"
    and A: "wr_buf (fs' a) @ s = wr_buf (fs a) @ print_chars evs" "wr_cap (fs a) + length s = length (print_chars evs) + wr_cap (fs' a)"
    and B: "wr_buf (fs' b) = wr_buf (fs b) @ concat (map event_line evs)"
      "wr_cap (fs b) = length (concat (map event_line evs)) + wr_cap (fs' b)"
    using L by (auto simp: logged_def)
  have B': "wr_buf (?fs b) = wr_buf (fs b) @ concat (map event_line (evs @ [ev]))"
      "wr_cap (fs b) = length (concat (map event_line (evs @ [ev]))) + wr_cap (?fs b)" and A': "?fs a = fs' a"
    using B room(2) fp(3) by (simp_all add: fput_room)
  show ?thesis
  proof (cases "osd_cl_stm_is_print_event ev")
    case False
    then have "stm_event_handler junk ev (ctx', fs') = Some (?ctx buf, ?fs)"
      using fp by (simp add: stm_event_handler_def ctx' write_opt_def Let_def)
    moreover have "logged fs a b ctx (evs @ [ev]) (?ctx buf, ?fs)"
      unfolding logged_def prod.case using s A B' A' False by (intro exI [of _ buf] exI [of _ s]) simp
    ultimately show ?thesis by blast
  next
    case True
    then obtain buf' where buf': "osd_cl_stm_add_to_print_buf junk ev buf = Some (stm_value ev = 10, buf')"
      "pb_holds buf' (s @ [?c])" using pb_holds_add [OF s(1) v] by blast
    have ov: "stm_overflow ev = 0" using True by (simp add: osd_cl_stm_is_print_event_def)
    have c10: "?c = 10 \<longleftrightarrow> stm_value ev = 10"
      using v [OF True] by (simp add: word_unat_eq_iff unsigned_ucast_eq take_bit_nat_eq_self word_le_nat_alt)
    show ?thesis
    proof (cases "stm_value ev = 10")
      case nl: True
      let ?fs2 = "fput a (s @ [?c]) ?fs"
      have "stm_event_handler junk ev (ctx', fs') = Some (?ctx empty_print_buf, ?fs2)"
        using fp True nl ov buf' pb_holds_take [OF buf'(2)] by (simp add: stm_event_handler_def ctx' write_opt_def Let_def)
      moreover have "logged fs a b ctx (evs @ [ev]) (?ctx empty_print_buf, ?fs2)"
        unfolding logged_def prod.case using A B' A' True room(1) fp(3) pb_holds_empty
        by (intro exI [of _ empty_print_buf] exI [of _ "[]"]) (simp add: fput_room flip: append_assoc)
      ultimately show ?thesis by blast
    next
      case no: False
      have "stm_event_handler junk ev (ctx', fs') = Some (?ctx buf', ?fs)"
        using fp True no ov buf' by (simp add: stm_event_handler_def ctx' write_opt_def Let_def)
      moreover have "logged fs a b ctx (evs @ [ev]) (?ctx buf', ?fs)"
        unfolding logged_def prod.case using s A B' A' True no c10 buf'(2)
        by (intro exI [of _ buf'] exI [of _ "s @ [?c]"]) (simp flip: append_assoc)
      ultimately show ?thesis by blast
    qed
  qed
qed

lemma log_packets_logged:
  assumes fp: "fp_sysprint ctx = Some a" "fp_event ctx = Some b" "a \<noteq> b"
    and D: "sl_handler_desc ctx" "valid_width (value_width_bit (sl_stm_desc ctx))"
    and H: "hdr_in_range dest src OSD_PACKET_TYPE_EVENT EV_LAST" "hdr_in_range dest src OSD_PACKET_TYPE_EVENT EV_OVERFLOW"
  shows "logged fs a b ctx pre s \<Longrightarrow> \<forall>ev \<in> set evs. stm_event_ok (sl_stm_desc ctx) ev \<Longrightarrow>
    length (print_chars (pre @ evs)) \<le> wr_cap (fs a) \<Longrightarrow> length (concat (map event_line (pre @ evs))) \<le> wr_cap (fs b) \<Longrightarrow>
    \<exists>s'. log_packets junk (map (stm_packet dest src (unat (value_width_bit (sl_stm_desc ctx)) div 16)) evs) s = Some s'
      \<and> logged fs a b ctx (pre @ evs) s'"
proof (induction evs arbitrary: pre s)
  case (Cons ev evs)
  let ?p = "stm_packet dest src (unat (value_width_bit (sl_stm_desc ctx)) div 16) ev"
  obtain ctx' fs' where s: "s = (ctx', fs')" by (cases s)
  have ctx': "sl_handler_desc ctx'" "sl_stm_desc ctx' = sl_stm_desc ctx"
    using Cons.prems(1) D(1) by (auto simp: logged_def s)
  have dec: "build_stm_event (sl_stm_desc ctx) ?p = Some ev"
    using stm_packet_decoded [OF D(2) _ H] Cons.prems(2) by simp
  then have sub: "\<exists>t. osd_packet_get_type_sub ?p = Some t"
    by (cases "osd_packet_get_type_sub ?p") (simp_all add: build_stm_event_def)
  have v: "stm_value ev \<le> 255" if "osd_cl_stm_is_print_event ev"
    using that Cons.prems(2) by (auto simp: stm_event_ok_def osd_cl_stm_is_print_event_def)
  have "length (print_chars (pre @ [ev])) \<le> wr_cap (fs a)" "length (concat (map event_line (pre @ [ev]))) \<le> wr_cap (fs b)"
    using Cons.prems(3,4) by (simp_all split: if_splits)
  then obtain s1 where s1: "stm_event_handler junk ev (ctx', fs') = Some s1" "logged fs a b ctx (pre @ [ev]) s1"
    using handler_logged [OF Cons.prems(1) [unfolded s] fp _ _ v] by blast
  have "systracelogger_event junk ?p s = Some s1"
    using sub dec s1(1) ctx' by (auto simp: systracelogger_event_def s osd_cl_stm_handle_event_def)
  then show ?case using Cons.IH [OF s1(2)] Cons.prems(2-4) by simp
qed simp

lemma update_stats_fold:
  "overflowed_events (fold update_stats evs st) = overflowed_events st + (\<Sum>ev\<leftarrow>evs. ucast (stm_overflow ev))"
  "trace_events (fold update_stats evs st) = trace_events st + of_nat (length (filter (\<lambda>ev. stm_overflow ev = 0) evs))"
  "sysprint_events (fold update_stats evs st) = sysprint_events st + of_nat (length (print_chars evs))"
  by (induction evs arbitrary: st) (auto simp: update_stats_def osd_cl_stm_is_print_event_def algebra_simps)

lemma stm_get_desc_device:
  assumes D: "device_ok z h regs P" "P w"
    and "identifies OSD_MODULE_TYPE_STD_STM (desc_of (regs w) a)" "valid_width (regs w (a, OSD_REG_STM_VALWIDTH))"
  obtains w' where "osd_cl_stm_get_desc z h (ucast a) desc w =
      Some (OSD_OK, \<lparr>stm_di_addr = ucast a, value_width_bit = regs w (a, OSD_REG_STM_VALWIDTH)\<rparr>, w')" "P w'" "regs w' = regs w"
proof -
  have a: "ucast (ucast a :: u32) = a" by (rule bit_word_eqI) (auto simp: bit_simps dest: bit_imp_le_length)
  obtain w1 where w1: "is_stm_module z h (ucast a) w = Some (identifies OSD_MODULE_TYPE_STD_STM (desc_of (regs w) a), w1)"
    "P w1" "regs w1 = regs w"
    using stm.probe_device [OF D, of "ucast a"] by (auto simp: a)
  have "device_ok z h regs P \<and> P w1" using D w1(2) by simp
  then obtain w2 where w2: "osd_hostmod_reg_read z h a OSD_REG_STM_VALWIDTH 16 0 w1 = Some (Inr [regs w1 (a, OSD_REG_STM_VALWIDTH)], w2)"
    "device_ok z h regs P \<and> P w2" "regs w2 = regs w1"
    by (rule hm.readE)
  show thesis
    by (rule that [of w2]) (use w1 w2 assms(3,4) in \<open>simp_all add: osd_cl_stm_get_desc_def a Let_def\<close>)
qed

lemma systrace_start_device:
  assumes D: "device_ok z (sl_hostmod_ctx ctx) regs P" "P w"
    and "identifies OSD_MODULE_TYPE_STD_STM (desc_of (regs w) (sl_stm_di_addr ctx))"
    and "valid_width (regs w (sl_stm_di_addr ctx, OSD_REG_STM_VALWIDTH))"
  obtains w' where "osd_systracelogger_start z ctx w = Some (OSD_OK, ctx\<lparr>sl_stm_desc := \<lparr>stm_di_addr = ucast (sl_stm_di_addr ctx),
        value_width_bit = regs w (sl_stm_di_addr ctx, OSD_REG_STM_VALWIDTH)\<rparr>, sl_handler_desc := True\<rparr>, w')" "P w'"
    "regs w' = events_routed (sl_stm_di_addr ctx) (hm_diaddr (sl_hostmod_ctx ctx)) True (regs w)"
proof -
  let ?a = "sl_stm_di_addr ctx" and ?h = "sl_hostmod_ctx ctx"
  obtain w1 where w1: "osd_cl_stm_get_desc z ?h (ucast ?a) (sl_stm_desc ctx) w =
      Some (OSD_OK, \<lparr>stm_di_addr = ucast ?a, value_width_bit = regs w (?a, OSD_REG_STM_VALWIDTH)\<rparr>, w1)" "P w1" "regs w1 = regs w"
    using stm_get_desc_device [OF assms] .
  obtain w2 where w2: "osd_hostmod_mod_set_event_dest z ?h ?a 0 w1 = Some (Inr (), w2)" "P w2"
    "regs w2 = (regs w1)((?a, OSD_REG_BASE_MOD_EVENT_DEST) := hm_diaddr ?h)"
    using set_event_dest_device [OF D(1) w1(2)] .
  obtain w3 where w3: "osd_hostmod_mod_set_event_active z ?h ?a True 0 w2 = Some (Inr (), w3)" "P w3"
    "regs w3 = (regs w2)((?a, OSD_REG_BASE_MOD_CS) :=
       (if True then set_bit else unset_bit) OSD_REG_BASE_MOD_CS_ACTIVE_BIT (regs w2 (?a, OSD_REG_BASE_MOD_CS)))"
    using set_event_active_device [OF D(1) w2(2)] .
  show thesis
    by (rule that [of w3]) (use w1 w2 w3 in \<open>simp_all add: osd_systracelogger_start_def events_routed_def Let_def\<close>)
qed

lemma systrace_stop_device:
  assumes D: "device_ok z (sl_hostmod_ctx ctx) regs P" "P w"
  obtains w' where "osd_systracelogger_stop z ctx w = Some (OSD_OK, w')" "P w'"
    "regs w' = (regs w)((sl_stm_di_addr ctx, OSD_REG_BASE_MOD_CS) :=
       unset_bit OSD_REG_BASE_MOD_CS_ACTIVE_BIT (regs w (sl_stm_di_addr ctx, OSD_REG_BASE_MOD_CS)))"
proof -
  obtain w1 where "osd_hostmod_mod_set_event_active z (sl_hostmod_ctx ctx) (sl_stm_di_addr ctx) False 0 w = Some (Inr (), w1)" "P w1"
    "regs w1 = (regs w)((sl_stm_di_addr ctx, OSD_REG_BASE_MOD_CS) :=
       (if False then set_bit else unset_bit) OSD_REG_BASE_MOD_CS_ACTIVE_BIT (regs w (sl_stm_di_addr ctx, OSD_REG_BASE_MOD_CS)))"
    using set_event_active_device [OF assms] .
  then show thesis by (intro that [of w1]) (simp_all add: osd_systracelogger_stop_def)
qed

section \<open>Properties\<close>

text \<open>
  (C24) The logs are complete. When a started logger with two separate log files and an empty print buffer receives the
  packets of a sequence of trace events, every event is decoded and becomes a line of the event log, in
  order. The print log receives the characters of the print events; it lacks at most an
  incomplete last line, which is written when the logger is freed. The statistics count the dropped events, trace
  events and characters (modulo 2 to the 32).
\<close>

theorem systrace_logs_complete:
  assumes "fp_sysprint ctx = Some a" "fp_event ctx = Some b" "a \<noteq> b" "sysprint_buf ctx = empty_print_buf"
    and "sl_handler_desc ctx" "valid_width (value_width_bit (sl_stm_desc ctx))"
    and "hdr_in_range dest src OSD_PACKET_TYPE_EVENT EV_LAST" "hdr_in_range dest src OSD_PACKET_TYPE_EVENT EV_OVERFLOW"
    and "\<forall>ev \<in> set evs. stm_event_ok (sl_stm_desc ctx) ev"
    and "length (print_chars evs) \<le> wr_cap (fs a)" "length (concat (map event_line evs)) \<le> wr_cap (fs b)"
    and "osd_hostmod_free z (Some (sl_hostmod_ctx ctx)) w = Some (None, w')"
  shows "\<exists>ctx' fs' rest fs2.
      log_packets junk (map (stm_packet dest src (unat (value_width_bit (sl_stm_desc ctx)) div 16)) evs) (ctx, fs) = Some (ctx', fs')
    \<and> wr_buf (fs' b) = wr_buf (fs b) @ concat (map event_line evs)
    \<and> wr_buf (fs' a) @ rest = wr_buf (fs a) @ print_chars evs \<and> 10 \<notin> set rest
    \<and> overflowed_events (sl_stats ctx') = overflowed_events (sl_stats ctx) + (\<Sum>ev\<leftarrow>evs. ucast (stm_overflow ev))
    \<and> trace_events (sl_stats ctx') = trace_events (sl_stats ctx) + of_nat (length (filter (\<lambda>ev. stm_overflow ev = 0) evs))
    \<and> sysprint_events (sl_stats ctx') = sysprint_events (sl_stats ctx) + of_nat (length (print_chars evs))
    \<and> osd_systracelogger_free z (Some ctx') fs' w = Some (None, fs2, w')
    \<and> wr_buf (fs2 a) = wr_buf (fs a) @ print_chars evs"
proof -
  have "logged fs a b ctx [] (ctx, fs)"
    using assms(4) pb_holds_empty by (auto simp: logged_def intro!: exI [of _ empty_print_buf])
  then obtain ctx' fs' where run: "log_packets junk
      (map (stm_packet dest src (unat (value_width_bit (sl_stm_desc ctx)) div 16)) evs) (ctx, fs) = Some (ctx', fs')"
    and L: "logged fs a b ctx evs (ctx', fs')"
    using log_packets_logged [OF assms(1-3,5-8), of fs "[]" "(ctx, fs)" evs junk] assms(9-11) by auto
  obtain buf s where s: "pb_holds buf s" "10 \<notin> set s"
    and ctx': "ctx' = ctx\<lparr>sysprint_buf := buf, sl_stats := fold update_stats evs (sl_stats ctx)\<rparr>"
    and A: "wr_buf (fs' a) @ s = wr_buf (fs a) @ print_chars evs" "length s \<le> wr_cap (fs' a)"
    and B: "wr_buf (fs' b) = wr_buf (fs b) @ concat (map event_line evs)"
    using L assms(10) by (auto simp: logged_def)
  let ?fs2 = "if s = [] then fs' else fput a s fs'"
  have "osd_systracelogger_free z (Some ctx') fs' w = Some (None, ?fs2, w')"
    using assms(1,12) pb_holds_take [OF s(1)] s(1) by (auto simp: osd_systracelogger_free_def ctx' pb_holds_def)
  moreover have "wr_buf (?fs2 a) = wr_buf (fs a) @ print_chars evs"
    using A by (auto simp: fput_room)
  ultimately show ?thesis
    using run A(1) B s(2) update_stats_fold [of evs "sl_stats ctx"] by (auto simp: ctx')
qed


lemma length_event_line: "length (event_line ev) \<le> 31"
proof -
  have "length (fmt_0x 8 (unat (stm_timestamp ev))) \<le> 8" "length (fmt_0x 4 (unat (stm_id ev))) \<le> 4"
    "length (fmt_0x 16 (unat (stm_value ev))) \<le> 16" "length (fmt_u (unat (stm_overflow ev))) \<le> 5"
    unfolding fmt_0x_def fmt_u_def zero_pad_def
    using length_digits_base [of 16 8 "unat (stm_timestamp ev)"] length_digits_base [of 16 4 "unat (stm_id ev)"]
      length_digits_base [of 16 16 "unat (stm_value ev)"] length_digits_base [of 10 5 "unat (stm_overflow ev)"]
      unsigned_less [of "stm_timestamp ev", where ?'a = nat] unsigned_less [of "stm_id ev", where ?'a = nat] unsigned_less [of "stm_value ev", where ?'a = nat] unsigned_less [of "stm_overflow ev", where ?'a = nat]
    by simp_all
  then show ?thesis by (simp add: event_line_def str_bytes_def)
qed

text \<open>A worker thread that has ended.\<close>

definition ended_zmq :: "unit zmq" where
  "ended_zmq = \<lparr>zmsg_send = (\<lambda>s m w. (0, w)), zmsg_recv = (\<lambda>s w. (Again, w)),
     zsock_new = (\<lambda>s a w. (True, w)), zsock_bind = (\<lambda>s a w. (0, w)),
     zsock_connect = (\<lambda>s a w. (0, w)), zsock_destroy = (\<lambda>s w. w),
     zloop_reader = (\<lambda>s w. (0, w)), zloop_reader_end = (\<lambda>s w. w),
     zuuid_str = (\<lambda>w. (replicate 32 (CHR ''a''), w)),
     pthread_create = (\<lambda>w. (0, w)), pthread_join = (\<lambda>w. w), pthread_cancel = (\<lambda>w. w),
     thread_is_running = (\<lambda>w. False)\<rparr>"

definition sl_demo :: osd_systracelogger_ctx where
  "sl_demo = \<lparr>sl_hostmod_ctx = \<lparr>hm_is_connected = False, hm_diaddr = 0x401, hm_ioworker_ctx = True\<rparr>, sl_stm_di_addr = 3,
     sl_stm_desc = \<lparr>stm_di_addr = 3, value_width_bit = 32\<rparr>, sl_handler_desc = True,
     fp_sysprint = Some 0, fp_event = Some 1, sysprint_buf = empty_print_buf,
     sl_stats = \<lparr>overflowed_events = 0, sysprint_events = 0, trace_events = 0\<rparr>\<rparr>"

definition sl_demo_events :: "osd_stm_event list" where
  "sl_demo_events = [\<lparr>stm_timestamp = 1, stm_id = 4, stm_value = 65, stm_overflow = 0\<rparr>,
     \<lparr>stm_timestamp = 0, stm_id = 0, stm_value = 0, stm_overflow = 7\<rparr>,
     \<lparr>stm_timestamp = 2, stm_id = 4, stm_value = 10, stm_overflow = 0\<rparr>,
     \<lparr>stm_timestamp = 3, stm_id = 9, stm_value = 0xdead, stm_overflow = 0\<rparr>,
     \<lparr>stm_timestamp = 4, stm_id = 4, stm_value = 66, stm_overflow = 0\<rparr>]"

theorem systrace_logs_complete_witness:
  "\<exists>ctx' fs' rest fs2.
      log_packets (\<lambda>_. 0) (map (stm_packet 0x401 3 2) sl_demo_events) (sl_demo, \<lambda>_. \<lparr>rd_buf = [], wr_buf = [], wr_cap = 1000\<rparr>)
        = Some (ctx', fs')
    \<and> wr_buf (fs' 0) @ rest = [65, 10, 66] \<and> 10 \<notin> set rest \<and> overflowed_events (sl_stats ctx') = 7
    \<and> osd_systracelogger_free ended_zmq (Some ctx') fs' () = Some (None, fs2, ()) \<and> wr_buf (fs2 0) = [65, 10, 66]"
proof -
  have h: "hdr_in_range 0x401 3 OSD_PACKET_TYPE_EVENT EV_LAST" "hdr_in_range 0x401 3 OSD_PACKET_TYPE_EVENT EV_OVERFLOW"
    by (simp_all add: hdr_in_range_def pkt_consts EV_OVERFLOW_def)
  have ok: "\<forall>ev \<in> set sl_demo_events. stm_event_ok (sl_stm_desc sl_demo) ev"
    by (simp add: sl_demo_events_def stm_event_ok_def sl_demo_def osd_cl_stm_is_print_event_def)
  have pc: "print_chars sl_demo_events = [65, 10, 66]" by (simp add: sl_demo_events_def osd_cl_stm_is_print_event_def)
  have len: "length (concat (map event_line sl_demo_events)) \<le> 1000"
  proof -
    have "length (concat (map event_line evs)) \<le> 31 * length evs" for evs
    proof (induction evs)
      case (Cons ev evs)
      then show ?case using length_event_line [of ev] by simp
    qed simp
    from this [of sl_demo_events] show ?thesis by (simp add: sl_demo_events_def)
  qed
  have free: "osd_hostmod_free ended_zmq (Some (sl_hostmod_ctx sl_demo)) () = Some (None, ())"
    by (simp add: osd_hostmod_free_def sl_demo_def worker_free_def ended_zmq_def)
  have ov: "(\<Sum>ev\<leftarrow>sl_demo_events. ucast (stm_overflow ev)) = (7 :: u32)" by (simp add: sl_demo_events_def)
  note r = systrace_logs_complete [of sl_demo 0 1 "0x401" 3 sl_demo_events "\<lambda>_. \<lparr>rd_buf = [], wr_buf = [], wr_cap = 1000\<rparr>"
      ended_zmq "()" "()" "\<lambda>_. 0", OF _ _ _ _ _ _ h ok _ _ free, unfolded pc ov]
  have "sl_handler_desc sl_demo" "value_width_bit (sl_stm_desc sl_demo) = 32" "fp_sysprint sl_demo = Some 0"
    "fp_event sl_demo = Some 1" "sysprint_buf sl_demo = empty_print_buf" "overflowed_events (sl_stats sl_demo) = 0"
    by (simp_all add: sl_demo_def)
  with r len show ?thesis by (simp add: valid_width_def) blast
qed


text \<open>
  Starting a logger on a system trace module of a working device reads the description of the module, directs its events
  to the address of the host module and switches them on; the event handler then has a description with a valid
  width. Stopping switches the events off again. No other register changes.
\<close>

theorem systrace_start_routes_events:
  assumes D: "device_ok z (sl_hostmod_ctx ctx) regs P" "P w"
    and "identifies OSD_MODULE_TYPE_STD_STM (desc_of (regs w) (sl_stm_di_addr ctx))"
    and "valid_width (regs w (sl_stm_di_addr ctx, OSD_REG_STM_VALWIDTH))"
  shows "\<exists>ctx' w' w2. osd_systracelogger_start z ctx w = Some (OSD_OK, ctx', w')
     \<and> sl_handler_desc ctx' \<and> valid_width (value_width_bit (sl_stm_desc ctx'))
     \<and> regs w' = events_routed (sl_stm_di_addr ctx) (hm_diaddr (sl_hostmod_ctx ctx)) True (regs w)
     \<and> osd_systracelogger_stop z ctx' w' = Some (OSD_OK, w2)
     \<and> regs w2 = events_routed (sl_stm_di_addr ctx) (hm_diaddr (sl_hostmod_ctx ctx)) False (regs w)"
proof -
  let ?ctx = "ctx\<lparr>sl_stm_desc := \<lparr>stm_di_addr = ucast (sl_stm_di_addr ctx),
        value_width_bit = regs w (sl_stm_di_addr ctx, OSD_REG_STM_VALWIDTH)\<rparr>, sl_handler_desc := True\<rparr>"
  obtain w1 where 1: "osd_systracelogger_start z ctx w = Some (OSD_OK, ?ctx, w1)" "P w1"
    "regs w1 = events_routed (sl_stm_di_addr ctx) (hm_diaddr (sl_hostmod_ctx ctx)) True (regs w)"
    using systrace_start_device [OF assms] .
  have "device_ok z (sl_hostmod_ctx ?ctx) regs P" using D(1) by simp
  from systrace_stop_device [where ctx = ?ctx and P = P and w = w1, OF this 1(2)] obtain w2 where 2: "osd_systracelogger_stop z ?ctx w1 = Some (OSD_OK, w2)" "P w2"
    "regs w2 = (regs w1)((sl_stm_di_addr ?ctx, OSD_REG_BASE_MOD_CS) :=
       unset_bit OSD_REG_BASE_MOD_CS_ACTIVE_BIT (regs w1 (sl_stm_di_addr ?ctx, OSD_REG_BASE_MOD_CS)))"
    .
  have "regs w2 = events_routed (sl_stm_di_addr ctx) (hm_diaddr (sl_hostmod_ctx ctx)) False (regs w)"
    using 1(3) 2(3) by (simp add: events_routed_def Let_def)
  then show ?thesis using 1 2(1) assms(4) by (intro exI [of _ ?ctx] exI [of _ w1] exI [of _ w2]) simp
qed


definition stm_regs :: "u16 \<times> u16 \<Rightarrow> u16" where
  "stm_regs = (\<lambda>_. 0)((3, OSD_REG_BASE_MOD_VENDOR) := 1, (3, OSD_REG_BASE_MOD_TYPE) := OSD_MODULE_TYPE_STD_STM, (3, OSD_REG_STM_VALWIDTH) := 32)"

theorem systrace_start_routes_events_witness:
  "\<exists>ctx' w'. osd_systracelogger_start sim_zmq (sl_demo\<lparr>sl_hostmod_ctx := sim_ctx, sl_handler_desc := False\<rparr>) (stm_regs, [])
       = Some (OSD_OK, ctx', w')
     \<and> fst w' = events_routed 3 (hm_diaddr sim_ctx) True stm_regs"
  using systrace_start_routes_events [of sim_zmq "sl_demo\<lparr>sl_hostmod_ctx := sim_ctx, sl_handler_desc := False\<rparr>" fst
      "\<lambda>w. snd w = []" "(stm_regs, [])"] sim_ok
  by (auto simp: sl_demo_def stm_regs_def identifies_def desc_of_def reg_consts OSD_MODULE_VENDOR_OSD_def valid_width_def)

end
