(* ===== verification/Coretracelogger.thy ===== *)
theory Coretracelogger
  imports Cl_Ctm Hostmod_User Elf "HOL-Library.Multiset"
begin

text \<open>
  The core trace logger (\<^verbatim>\<open>coretracelogger.c\<close>): execution trace events of a core are written to a log, as
  addresses or, with the symbols of an ELF file, as the functions entered and left.
\<close>

section \<open>Data\<close>

record elf_function =
  addr :: u64
  fname :: string

text \<open>
  Names are compared as pointers; every entry of the table has its own copy of a name, so that the pointer is
  identified by the index of the entry. \<open>ct_handler_desc\<close> tells whether the event handler has got a
  pointer to the module description.
\<close>

record osd_coretracelogger_ctx =
  ct_hostmod_ctx :: osd_hostmod_ctx
  ct_ctm_di_addr :: u16
  ct_ctm_desc :: osd_ctm_desc
  ct_handler_desc :: bool
  fp_log :: "nat option"
  num_funcs :: nat
  funcs :: "elf_function list option"

section \<open>Events\<close>

definition log_line :: "u32 \<Rightarrow> string \<Rightarrow> string \<Rightarrow> u8 list" where
  "log_line timestamp verb arg = str_bytes (fmt_0x 8 (unat timestamp) @ verb @ arg @ [CHR 0x0A])"

text \<open>
  The loops run over the indices 1 to \<open>n\<close> inclusively, with \<open>k\<close> iterations left. The table ends with
  index \<open>n - 1\<close>: an iteration with index \<open>n\<close> reads outside of it.
\<close>

primrec ret_to :: "elf_function list \<Rightarrow> nat \<Rightarrow> u64 \<Rightarrow> nat \<Rightarrow> nat \<Rightarrow> nat option \<Rightarrow> nat option option" where
  "ret_to tab n npc' f 0 to = Some to"
| "ret_to tab n npc' f (Suc k) to =
     do { c_assert (f < length tab);
          if addr (tab ! f) > npc' then Some (Some (f - 1))
          else ret_to tab n npc' (Suc f) k (if f = n then Some (n - 1) else to) }"

primrec ret_log ::
  "elf_function list \<Rightarrow> nat \<Rightarrow> osd_ctm_event \<Rightarrow> nat option \<Rightarrow> nat \<Rightarrow> nat \<Rightarrow> u8 list option" where
  "ret_log tab n event to f 0 = Some []"
| "ret_log tab n event to f (Suc k) =
     do { c_assert (f < length tab);
          if addr (tab ! f) = npc event then Some (log_line (ctm_timestamp event) '' enter '' (fname (tab ! f)))
          else if addr (tab ! f) > pc event
          then Some (if Some (f - 1) \<noteq> to then log_line (ctm_timestamp event) '' leave '' (fname (tab ! (f - 1))) else [])
          else do {
            let here = (if f = n \<and> Some (n - 1) \<noteq> to
                        then log_line (ctm_timestamp event) '' leave '' (fname (tab ! (n - 1))) else []);
            rest \<leftarrow> ret_log tab n event to (Suc f) k;
            Some (here @ rest) } }"

definition print_with_elfdata ::
  "osd_coretracelogger_ctx \<Rightarrow> nat \<Rightarrow> osd_ctm_event \<Rightarrow> c_files \<Rightarrow> c_files option" where
  "print_with_elfdata ctx fp event fs =
     do { tab \<leftarrow> funcs ctx;
          let n = num_funcs ctx;
          if is_modechange event
          then Some (fput fp (log_line (ctm_timestamp event) '' change mode to '' (fmt_d (int (unat (mode event))))) fs)
          else if is_call event then
            Some (case find (\<lambda>f. addr f = npc event) (take n tab) of
                    None \<Rightarrow> fs
                  | Some f \<Rightarrow> fput fp (log_line (ctm_timestamp event) '' enter '' (fname f)) fs)
          else if is_ret event then
            do { to \<leftarrow> ret_to tab n (npc event) 1 n None;
                 out \<leftarrow> ret_log tab n event to 1 n;
                 Some (fput fp out fs) }
          else Some fs }"

definition ctm_event_handler ::
  "osd_ctm_event \<Rightarrow> osd_coretracelogger_ctx \<times> c_files \<Rightarrow> (osd_coretracelogger_ctx \<times> c_files) option" where
  "ctm_event_handler event = (\<lambda>(ctx, fs).
     case fp_log ctx of
       None \<Rightarrow> Some (ctx, fs)
     | Some fp \<Rightarrow>
         if ctm_overflow event \<noteq> 0 then
           Some (ctx, fput fp (str_bytes (''Overflow, missed '' @ fmt_u (unat (ctm_overflow event)) @ '' events'' @ [CHR 0x0A])) fs)
         else if funcs ctx = None then
           Some (ctx, fput fp (str_bytes (fmt_0x 8 (unat (ctm_timestamp event)) @ '' ''
             @ fmt_d (of_bool (is_modechange event)) @ '' '' @ fmt_d (of_bool (is_call event)) @ '' ''
             @ fmt_d (of_bool (is_ret event)) @ '' '' @ fmt_d (int (unat (mode event))) @ '' ''
             @ fmt_0x 16 (unat (pc event)) @ '' '' @ fmt_0x 16 (unat (npc event)) @ [CHR 0x0A])) fs)
         else do { fs \<leftarrow> print_with_elfdata ctx fp event fs; Some (ctx, fs) })"

definition coretracelogger_event ::
  "osd_packet \<Rightarrow> osd_coretracelogger_ctx \<times> c_files \<Rightarrow> (osd_coretracelogger_ctx \<times> c_files) option" where
  "coretracelogger_event pkg s =
     do { type_sub \<leftarrow> osd_packet_get_type_sub pkg;
          c_assert (ct_handler_desc (fst s) \<or> type_sub = EV_OVERFLOW);
          (rv, s) \<leftarrow> osd_cl_ctm_handle_event (\<lambda>_ event s. Option.bind s (ctm_event_handler event))
                     (ct_ctm_desc (fst s)) pkg (Some s);
          s }"

section \<open>The logger\<close>

definition osd_coretracelogger_new ::
  "'w zmq \<Rightarrow> int \<Rightarrow> u16 \<Rightarrow> 'w \<Rightarrow> (osd_coretracelogger_ctx \<times> 'w) option" where
  "osd_coretracelogger_new z uninit di_addr w =
     do { (r, w) \<leftarrow> osd_hostmod_new z uninit w;
          (case r of
             Inl rv \<Rightarrow> None
           | Inr h \<Rightarrow> Some (\<lparr>ct_hostmod_ctx = h, ct_ctm_di_addr = di_addr,
               ct_ctm_desc = \<lparr>ctm_di_addr = 0, addr_width_bit = 0, data_width_bit = 0\<rparr>, ct_handler_desc = False,
               fp_log = None, num_funcs = 0, funcs = None\<rparr>, w)) }"

definition osd_coretracelogger_connect ::
  "'w zmq \<Rightarrow> osd_coretracelogger_ctx \<Rightarrow> 'w \<Rightarrow> (osd_result \<times> osd_coretracelogger_ctx \<times> 'w) option" where
  "osd_coretracelogger_connect z ctx w =
     do { (rv, h, w) \<leftarrow> osd_hostmod_connect z (ct_hostmod_ctx ctx) w; Some (rv, ctx\<lparr>ct_hostmod_ctx := h\<rparr>, w) }"

definition osd_coretracelogger_disconnect ::
  "'w zmq \<Rightarrow> osd_coretracelogger_ctx \<Rightarrow> 'w \<Rightarrow> (osd_result \<times> osd_coretracelogger_ctx \<times> 'w) option" where
  "osd_coretracelogger_disconnect z ctx w =
     do { (rv, h, w) \<leftarrow> osd_hostmod_disconnect z (ct_hostmod_ctx ctx) w; Some (rv, ctx\<lparr>ct_hostmod_ctx := h\<rparr>, w) }"

definition osd_coretracelogger_is_connected :: "osd_coretracelogger_ctx \<Rightarrow> bool" where
  "osd_coretracelogger_is_connected ctx = osd_hostmod_is_connected (ct_hostmod_ctx ctx)"

definition osd_coretracelogger_free ::
  "'w zmq \<Rightarrow> osd_coretracelogger_ctx option \<Rightarrow> 'w \<Rightarrow> (osd_coretracelogger_ctx option \<times> 'w) option" where
  "osd_coretracelogger_free z ctx_p w =
     (case ctx_p of
        None \<Rightarrow> Some (None, w)
      | Some ctx \<Rightarrow> do { (_, w) \<leftarrow> osd_hostmod_free z (Some (ct_hostmod_ctx ctx)) w; Some (None, w) })"

definition osd_coretracelogger_start ::
  "'w zmq \<Rightarrow> osd_coretracelogger_ctx \<Rightarrow> 'w \<Rightarrow> (osd_result \<times> osd_coretracelogger_ctx \<times> 'w) option" where
  "osd_coretracelogger_start z ctx w =
     do { let h = ct_hostmod_ctx ctx;
          (rv, desc, w) \<leftarrow> osd_cl_ctm_get_desc z h (ucast (ct_ctm_di_addr ctx)) (ct_ctm_desc ctx) w;
          let ctx = ctx\<lparr>ct_ctm_desc := desc\<rparr>;
          if OSD_FAILED rv then Some (rv, ctx, w)
          else do {
            let ctx = ctx\<lparr>ct_handler_desc := True\<rparr>;
            (r, w) \<leftarrow> osd_hostmod_mod_set_event_dest z h (ct_ctm_di_addr ctx) 0 w;
            (case r of
               Inl rv \<Rightarrow> Some (rv, ctx, w)
             | Inr _ \<Rightarrow>
                 do { (r, w) \<leftarrow> osd_hostmod_mod_set_event_active z h (ct_ctm_di_addr ctx) True 0 w;
                      (case r of Inl rv \<Rightarrow> Some (rv, ctx, w) | Inr _ \<Rightarrow> Some (OSD_OK, ctx, w)) }) } }"

definition osd_coretracelogger_stop ::
  "'w zmq \<Rightarrow> osd_coretracelogger_ctx \<Rightarrow> 'w \<Rightarrow> (osd_result \<times> 'w) option" where
  "osd_coretracelogger_stop z ctx w =
     do { (r, w) \<leftarrow> osd_hostmod_mod_set_event_active z (ct_hostmod_ctx ctx) (ct_ctm_di_addr ctx) False 0 w;
          (case r of
             Inl rv \<Rightarrow> Some (if rv = OSD_ERROR_TIMEDOUT then OSD_OK else rv, w)
           | Inr _ \<Rightarrow> Some (OSD_OK, w)) }"

definition osd_coretracelogger_set_log :: "nat option \<Rightarrow> osd_coretracelogger_ctx \<Rightarrow> osd_coretracelogger_ctx" where
  "osd_coretracelogger_set_log fp ctx = ctx\<lparr>fp_log := fp\<rparr>"

interpretation coretracelogger: hostmod_user ct_hostmod_ctx "\<lambda>h c. c\<lparr>ct_hostmod_ctx := h\<rparr>"
  osd_coretracelogger_connect osd_coretracelogger_disconnect osd_coretracelogger_is_connected
  by unfold_locales (auto simp: osd_coretracelogger_connect_def osd_coretracelogger_disconnect_def
      osd_coretracelogger_is_connected_def osd_hostmod_is_connected_def split: bind_splits)

section \<open>Start and stop on a device\<close>

lemma ctm_get_desc_device:
  assumes D: "device_ok z h regs P" "P w"
    and "identifies OSD_MODULE_TYPE_STD_CTM (desc_of (regs w) a)" "valid_width (regs w (a, OSD_REG_CTM_ADDR_WIDTH))"
    and "valid_width (regs w (a, OSD_REG_CTM_DATA_WIDTH))"
  obtains w' where "osd_cl_ctm_get_desc z h (ucast a) desc w = Some (OSD_OK, \<lparr>ctm_di_addr = ucast a,
        addr_width_bit = regs w (a, OSD_REG_CTM_ADDR_WIDTH), data_width_bit = regs w (a, OSD_REG_CTM_DATA_WIDTH)\<rparr>, w')"
    "P w'" "regs w' = regs w"
proof -
  have a: "ucast (ucast a :: u32) = a" by (rule bit_word_eqI) (auto simp: bit_simps dest: bit_imp_le_length)
  obtain w1 where w1: "is_ctm_module z h (ucast a) w = Some (identifies OSD_MODULE_TYPE_STD_CTM (desc_of (regs w) a), w1)"
    "P w1" "regs w1 = regs w"
    using ctm.probe_device [OF D, of "ucast a"] by (auto simp: a)
  have "device_ok z h regs P \<and> P w1" using D w1(2) by simp
  then obtain w2 where w2: "osd_hostmod_reg_read z h a OSD_REG_CTM_ADDR_WIDTH 16 0 w1 = Some (Inr [regs w1 (a, OSD_REG_CTM_ADDR_WIDTH)], w2)"
    "device_ok z h regs P \<and> P w2" "regs w2 = regs w1"
    by (rule hm.readE)
  obtain w3 where w3: "osd_hostmod_reg_read z h a OSD_REG_CTM_DATA_WIDTH 16 0 w2 = Some (Inr [regs w2 (a, OSD_REG_CTM_DATA_WIDTH)], w3)"
    "device_ok z h regs P \<and> P w3" "regs w3 = regs w2"
    using w2(2) by (rule hm.readE)
  show thesis
    by (rule that [of w3]) (use w1 w2 w3 assms(3-5) in \<open>simp_all add: osd_cl_ctm_get_desc_def a Let_def\<close>)
qed

lemma coretrace_start_device:
  assumes D: "device_ok z (ct_hostmod_ctx ctx) regs P" "P w"
    and "identifies OSD_MODULE_TYPE_STD_CTM (desc_of (regs w) (ct_ctm_di_addr ctx))"
    and "valid_width (regs w (ct_ctm_di_addr ctx, OSD_REG_CTM_ADDR_WIDTH))"
    and "valid_width (regs w (ct_ctm_di_addr ctx, OSD_REG_CTM_DATA_WIDTH))"
  obtains w' where "osd_coretracelogger_start z ctx w = Some (OSD_OK, ctx\<lparr>ct_ctm_desc := \<lparr>ctm_di_addr = ucast (ct_ctm_di_addr ctx),
        addr_width_bit = regs w (ct_ctm_di_addr ctx, OSD_REG_CTM_ADDR_WIDTH),
        data_width_bit = regs w (ct_ctm_di_addr ctx, OSD_REG_CTM_DATA_WIDTH)\<rparr>, ct_handler_desc := True\<rparr>, w')" "P w'"
    "regs w' = events_routed (ct_ctm_di_addr ctx) (hm_diaddr (ct_hostmod_ctx ctx)) True (regs w)"
proof -
  let ?a = "ct_ctm_di_addr ctx" and ?h = "ct_hostmod_ctx ctx"
  obtain w1 where w1: "osd_cl_ctm_get_desc z ?h (ucast ?a) (ct_ctm_desc ctx) w = Some (OSD_OK, \<lparr>ctm_di_addr = ucast ?a,
        addr_width_bit = regs w (?a, OSD_REG_CTM_ADDR_WIDTH), data_width_bit = regs w (?a, OSD_REG_CTM_DATA_WIDTH)\<rparr>, w1)"
      "P w1" "regs w1 = regs w"
    using ctm_get_desc_device [OF assms] .
  obtain w2 where w2: "osd_hostmod_mod_set_event_dest z ?h ?a 0 w1 = Some (Inr (), w2)" "P w2"
    "regs w2 = (regs w1)((?a, OSD_REG_BASE_MOD_EVENT_DEST) := hm_diaddr ?h)"
    using set_event_dest_device [OF D(1) w1(2)] .
  obtain w3 where w3: "osd_hostmod_mod_set_event_active z ?h ?a True 0 w2 = Some (Inr (), w3)" "P w3"
    "regs w3 = (regs w2)((?a, OSD_REG_BASE_MOD_CS) :=
       (if True then set_bit else unset_bit) OSD_REG_BASE_MOD_CS_ACTIVE_BIT (regs w2 (?a, OSD_REG_BASE_MOD_CS)))"
    using set_event_active_device [OF D(1) w2(2)] .
  show thesis
    by (rule that [of w3]) (use w1 w2 w3 in \<open>simp_all add: osd_coretracelogger_start_def events_routed_def Let_def\<close>)
qed

lemma coretrace_stop_device:
  assumes D: "device_ok z (ct_hostmod_ctx ctx) regs P" "P w"
  obtains w' where "osd_coretracelogger_stop z ctx w = Some (OSD_OK, w')" "P w'"
    "regs w' = (regs w)((ct_ctm_di_addr ctx, OSD_REG_BASE_MOD_CS) :=
       unset_bit OSD_REG_BASE_MOD_CS_ACTIVE_BIT (regs w (ct_ctm_di_addr ctx, OSD_REG_BASE_MOD_CS)))"
proof -
  obtain w1 where "osd_hostmod_mod_set_event_active z (ct_hostmod_ctx ctx) (ct_ctm_di_addr ctx) False 0 w = Some (Inr (), w1)" "P w1"
    "regs w1 = (regs w)((ct_ctm_di_addr ctx, OSD_REG_BASE_MOD_CS) :=
       (if False then set_bit else unset_bit) OSD_REG_BASE_MOD_CS_ACTIVE_BIT (regs w (ct_ctm_di_addr ctx, OSD_REG_BASE_MOD_CS)))"
    using set_event_active_device [OF assms] .
  then show thesis by (intro that [of w1]) (simp_all add: osd_coretracelogger_stop_def)
qed

section \<open>The function table\<close>

definition SHT_SYMTAB :: u32 where "SHT_SYMTAB = 2"
definition STT_NOTYPE :: u8 where "STT_NOTYPE = 0"
definition STT_FUNC :: u8 where "STT_FUNC = 2"

definition ELF32_ST_TYPE :: "u8 \<Rightarrow> u8" where
  "ELF32_ST_TYPE info = info AND 0xf"

definition is_func_sym :: "GElf_Sym \<Rightarrow> bool" where
  "is_func_sym esym \<longleftrightarrow> ELF32_ST_TYPE (st_info esym) = STT_FUNC \<or> ELF32_ST_TYPE (st_info esym) = STT_NOTYPE"

text \<open>A symbol the library does not deliver is an uninitialised variable, a string it does not deliver a null pointer.\<close>

primrec count_funcs :: "('f, 'e, 's, 'd) libelf \<Rightarrow> 'd option \<Rightarrow> nat \<Rightarrow> nat \<Rightarrow> nat \<Rightarrow> nat option" where
  "count_funcs elf edata i 0 f = Some f"
| "count_funcs elf edata i (Suc k) f =
     do { d \<leftarrow> edata;
          esym \<leftarrow> gelf_getsym elf d i;
          count_funcs elf edata (Suc i) k (if is_func_sym esym then Suc f else f) }"

primrec fill_funcs ::
  "('f, 'e, 's, 'd) libelf \<Rightarrow> 'e \<Rightarrow> u32 \<Rightarrow> 'd option \<Rightarrow> nat \<Rightarrow> nat \<Rightarrow> nat \<Rightarrow> elf_function list \<Rightarrow> elf_function list option" where
  "fill_funcs elf e link edata i 0 f tab = Some tab"
| "fill_funcs elf e link edata i (Suc k) f tab =
     do { d \<leftarrow> edata;
          esym \<leftarrow> gelf_getsym elf d i;
          if is_func_sym esym then
            do { c_assert (f < length tab);
                 nm \<leftarrow> elf_strptr elf e link (st_name esym);
                 fill_funcs elf e link edata (Suc i) k (Suc f) (tab[f := \<lparr>addr = st_value esym, fname = nm\<rparr>]) }
          else fill_funcs elf e link edata (Suc i) k f tab }"

text \<open>The body of the loop over the sections. \<open>junk\<close> is what the memory added by \<^verbatim>\<open>realloc\<close> holds.\<close>

definition read_section ::
  "(nat \<Rightarrow> elf_function) \<Rightarrow> ('f, 'e, 's, 'd) libelf \<Rightarrow> 'e \<Rightarrow> 's \<Rightarrow> elf_function list \<Rightarrow> elf_function list option" where
  "read_section junk elf e sec tab =
     do { shdr \<leftarrow> gelf_getshdr elf sec;
          if sh_type shdr = SHT_SYMTAB then
            do { let edata = elf_getdata elf sec;
                 c_assert (sh_entsize shdr \<noteq> 0);
                 let allsyms = unat (sh_size shdr div sh_entsize shdr);
                 f \<leftarrow> count_funcs elf edata 0 allsyms 0;
                 let base = length tab;
                 fill_funcs elf e (sh_link shdr) edata 0 allsyms base (tab @ map junk [base..<base + f]) }
          else Some tab }"

partial_function (option) read_sections ::
  "(nat \<Rightarrow> elf_function) \<Rightarrow> ('f, 'e, 's, 'd) libelf \<Rightarrow> 'e \<Rightarrow> 's option \<Rightarrow> elf_function list \<Rightarrow> elf_function list option" where
  "read_sections junk elf e sec tab =
     (case elf_nextscn elf e sec of
        None \<Rightarrow> Some tab
      | Some s \<Rightarrow> do { tab \<leftarrow> read_section junk elf e s tab; read_sections junk elf e (Some s) tab })"

text \<open>
  The selection of the smallest address, where the largest possible address marks an entry that has been
  taken. The index is \<open>None\<close> for a null pointer.
\<close>

fun find_min :: "elf_function list \<Rightarrow> nat \<Rightarrow> u64 \<Rightarrow> nat option \<Rightarrow> nat option" where
  "find_min [] j mn minp = minp"
| "find_min (t # ts) j mn minp =
     (if addr t < mn then find_min ts (Suc j) (addr t) (Some j) else find_min ts (Suc j) mn minp)"

primrec select_funcs :: "elf_function list \<Rightarrow> nat \<Rightarrow> elf_function list \<Rightarrow> elf_function list option" where
  "select_funcs tab 0 fns = Some fns"
| "select_funcs tab (Suc k) fns =
     do { minp \<leftarrow> find_min tab 0 (-1) None;
          select_funcs (tab[minp := (tab ! minp)\<lparr>addr := -1\<rparr>]) k (fns @ [tab ! minp]) }"

definition osd_coretracelogger_set_elf ::
  "(nat \<Rightarrow> elf_function) \<Rightarrow> ('f, 'e, 's, 'd) libelf \<Rightarrow> osd_coretracelogger_ctx \<Rightarrow> string option
    \<Rightarrow> (osd_result \<times> osd_coretracelogger_ctx) option" where
  "osd_coretracelogger_set_elf junk elf ctx elf_filename =
     (let ctx = ctx\<lparr>num_funcs := 0, funcs := None\<rparr>
      in case elf_filename of
           None \<Rightarrow> Some (OSD_OK, ctx)
         | Some name \<Rightarrow>
             if \<not> elf_version elf then Some (OSD_ERROR_FAILURE, ctx)
             else (case elf_open elf name of
               None \<Rightarrow> Some (OSD_ERROR_FILE, ctx)
             | Some fd \<Rightarrow>
                 (case elf_begin elf fd of
                    None \<Rightarrow> Some (OSD_ERROR_FAILURE, ctx)
                  | Some e \<Rightarrow>
                      do { tab \<leftarrow> read_sections junk elf e None [];
                           fns \<leftarrow> select_funcs tab (length tab) [];
                           Some (OSD_OK, ctx\<lparr>num_funcs := length tab, funcs := Some fns\<rparr>) })))"

section \<open>The table is the sorted list of function symbols\<close>

lemma find_min_none: "\<forall>t \<in> set ts. m \<le> addr t \<Longrightarrow> find_min ts j m mp = mp"
  by (induction ts arbitrary: j) auto

lemma find_min_some:
  "\<exists>t \<in> set ts. addr t < m \<Longrightarrow>
   \<exists>pre e post. ts = pre @ e # post \<and> find_min ts j m mp = Some (j + length pre) \<and> addr e < m
     \<and> (\<forall>x \<in> set pre. addr e < addr x) \<and> (\<forall>x \<in> set post. addr e \<le> addr x)"
proof (induction ts arbitrary: j m mp)
  case (Cons t ts)
  let ?m = "if addr t < m then addr t else m" and ?mp = "if addr t < m then Some j else mp"
  have step: "find_min (t # ts) j m mp = find_min ts (Suc j) ?m ?mp" by simp
  show ?case
  proof (cases "\<exists>x \<in> set ts. addr x < ?m")
    case True
    from Cons.IH [OF this, of "Suc j" ?mp] obtain pre e post where
      "ts = pre @ e # post" "find_min ts (Suc j) ?m ?mp = Some (Suc j + length pre)" "addr e < ?m"
      "\<forall>x \<in> set pre. addr e < addr x" "\<forall>x \<in> set post. addr e \<le> addr x" by blast
    then show ?thesis
      unfolding step by (intro exI [of _ "t # pre"] exI [of _ e] exI [of _ post]) (auto split: if_splits)
  next
    case False
    then have "addr t < m" using Cons.prems by (auto split: if_splits)
    then show ?thesis
      unfolding step using False find_min_none [of ts ?m "Suc j" ?mp]
      by (intro exI [of _ "[]"] exI [of _ t] exI [of _ ts]) (auto simp: not_less)
  qed
qed simp

definition untaken :: "elf_function list \<Rightarrow> elf_function list" where
  "untaken tab = filter (\<lambda>t. addr t \<noteq> -1) tab"

lemma sort_key_first_min:
  fixes f :: "'a \<Rightarrow> 'k :: linorder"
  assumes "\<forall>x \<in> set pre. f e < f x" "\<forall>x \<in> set post. f e \<le> f x"
  shows "sort_key f (pre @ e # post) = e # sort_key f (pre @ post)"
proof (rule properties_for_sort_key)
  fix k
  have "filter (\<lambda>y. f e = f y) pre = []" using assms(1) by (auto simp: filter_empty_conv)
  then show "filter (\<lambda>y. f k = f y) (e # sort_key f (pre @ post)) = filter (\<lambda>y. f k = f y) (pre @ e # post)"
    using sort_key_stable [of f "f k" "pre @ post"] by (cases "f k = f e") (simp_all add: eq_commute [of "f k"])
qed (use assms in \<open>auto simp: le_less\<close>)


lemma select_funcs_eq:
  "select_funcs tab k fns = (if k \<le> length (untaken tab) then Some (fns @ take k (sort_key addr (untaken tab))) else None)"
proof (induction k arbitrary: tab fns)
  case (Suc k)
  show ?case
  proof (cases "\<exists>t \<in> set tab. addr t < -1")
    case False
    then have "untaken tab = []" by (auto simp: untaken_def filter_empty_conv not_less word_order.extremum_unique)
    moreover have "find_min tab 0 (-1) None = None" using False by (intro find_min_none) (auto simp: not_less)
    ultimately show ?thesis by simp
  next
    case True
    from find_min_some [OF this, of 0 None] obtain pre e post where tab: "tab = pre @ e # post"
      and m: "find_min tab 0 (-1) None = Some (length pre)" "addr e < -1"
      and le: "\<forall>x \<in> set pre. addr e < addr x" "\<forall>x \<in> set post. addr e \<le> addr x" by auto
    let ?tab = "tab[length pre := e\<lparr>addr := -1\<rparr>]"
    have l: "untaken tab = untaken pre @ e # untaken post" "untaken ?tab = untaken pre @ untaken post"
      using m(2) by (auto simp: untaken_def tab)
    have "sort_key addr (untaken tab) = e # sort_key addr (untaken ?tab)"
      unfolding l using le by (intro sort_key_first_min) (auto simp: untaken_def)
    moreover have "length (untaken tab) = Suc (length (untaken ?tab))" by (simp add: l)
    moreover have "tab ! length pre = e" by (simp add: tab)
    ultimately show ?thesis using m(1) Suc.IH [of ?tab "fns @ [e]"] by simp
  qed
qed simp

lemma select_all_funcs:
  "select_funcs tab (length tab) [] = (if \<forall>t \<in> set tab. addr t \<noteq> -1 then Some (sort_key addr tab) else None)"
proof (cases "\<forall>t \<in> set tab. addr t \<noteq> -1")
  case True
  then have "untaken tab = tab" by (simp add: untaken_def)
  with True show ?thesis by (simp add: select_funcs_eq)
next
  case False
  then have "length (untaken tab) < length tab" by (auto simp: untaken_def intro: length_filter_less)
  with False show ?thesis by (auto simp: select_funcs_eq)
qed

text \<open>The function symbols of a section and of an ELF file, in their order.\<close>

definition scn_funcs :: "('f, 'e, 's, 'd) libelf \<Rightarrow> 'e \<Rightarrow> 's \<Rightarrow> elf_function list option" where
  "scn_funcs elf e s =
     do { h \<leftarrow> gelf_getshdr elf s;
          if sh_type h \<noteq> SHT_SYMTAB then Some []
          else do {
            d \<leftarrow> elf_getdata elf s;
            c_assert (sh_entsize h \<noteq> 0);
            syms \<leftarrow> those (map (gelf_getsym elf d) [0..<unat (sh_size h div sh_entsize h)]);
            those (map (\<lambda>sy. map_option (\<lambda>nm. \<lparr>addr = st_value sy, fname = nm\<rparr>) (elf_strptr elf e (sh_link h) (st_name sy)))
              (filter is_func_sym syms)) } }"

fun scn_chain :: "('f, 'e, 's, 'd) libelf \<Rightarrow> 'e \<Rightarrow> 's option \<Rightarrow> 's list \<Rightarrow> bool" where
  "scn_chain elf e prev [] \<longleftrightarrow> elf_nextscn elf e prev = None"
| "scn_chain elf e prev (s # ss) \<longleftrightarrow> elf_nextscn elf e prev = Some s \<and> scn_chain elf e (Some s) ss"

lemma those_Cons: "those (x # xs) = do { y \<leftarrow> x; ys \<leftarrow> those xs; Some (y # ys) }"
  by (auto split: option.splits bind_splits)

lemma those_length: "those xs = Some ys \<Longrightarrow> length ys = length xs"
  by (induction xs arbitrary: ys) (auto split: option.splits)

lemma upt_Suc_head: "[i..<i + Suc k] = i # [Suc i..<Suc i + k]"
  by (simp add: upt_conv_Cons)

lemma count_funcs_eq:
  "those (map (gelf_getsym elf d) [i..<i + k]) = Some syms \<Longrightarrow>
   count_funcs elf (Some d) i k f = Some (f + length (filter is_func_sym syms))"
proof (induction k arbitrary: i f syms)
  case (Suc k)
  then show ?case unfolding upt_Suc_head list.map those_Cons by (auto split: bind_splits)
qed simp

lemma fill_funcs_eq:
  assumes "those (map (gelf_getsym elf d) [i..<i + k]) = Some syms"
    and "those (map (\<lambda>sy. map_option (\<lambda>nm. \<lparr>addr = st_value sy, fname = nm\<rparr>) (elf_strptr elf e link (st_name sy)))
          (filter is_func_sym syms)) = Some fns"
    and "length rest = length fns"
  shows "fill_funcs elf e link (Some d) i k (length pre) (pre @ rest) = Some (pre @ fns)"
  using assms
proof (induction k arbitrary: i syms fns pre rest)
  case (Suc k)
  then obtain y ys where y: "gelf_getsym elf d i = Some y" "those (map (gelf_getsym elf d) [Suc i..<Suc i + k]) = Some ys"
    "syms = y # ys" unfolding upt_Suc_head list.map those_Cons by (auto split: bind_splits)
  show ?case
  proof (cases "is_func_sym y")
    case True
    then obtain nm fns' where n: "elf_strptr elf e link (st_name y) = Some nm" "fns = \<lparr>addr = st_value y, fname = nm\<rparr> # fns'"
      "those (map (\<lambda>sy. map_option (\<lambda>nm. \<lparr>addr = st_value sy, fname = nm\<rparr>) (elf_strptr elf e link (st_name sy)))
          (filter is_func_sym ys)) = Some fns'"
      using Suc.prems(2) unfolding y by (auto split: option.splits)
    obtain r rest' where "rest = r # rest'" "length rest' = length fns'" using Suc.prems(3) n(2) by (cases rest) auto
    then show ?thesis
      using Suc.IH [OF y(2) n(3), of rest' "pre @ [\<lparr>addr = st_value y, fname = nm\<rparr>]"] True n y(1) by simp
  next
    case False
    then show ?thesis using Suc.IH [OF y(2), of fns rest pre] Suc.prems(2,3) y(1,3) by simp
  qed
qed simp

lemma read_section_eq:
  assumes "scn_funcs elf e s = Some fns"
  shows "read_section junk elf e s tab = Some (tab @ fns)"
proof -
  obtain h where h: "gelf_getshdr elf s = Some h" using assms by (auto simp: scn_funcs_def split: bind_splits)
  show ?thesis
  proof (cases "sh_type h = SHT_SYMTAB")
    case True
    let ?n = "unat (sh_size h div sh_entsize h)"
    obtain d syms where d: "elf_getdata elf s = Some d" "sh_entsize h \<noteq> 0" "those (map (gelf_getsym elf d) [0..<0 + ?n]) = Some syms"
      "those (map (\<lambda>sy. map_option (\<lambda>nm. \<lparr>addr = st_value sy, fname = nm\<rparr>) (elf_strptr elf e (sh_link h) (st_name sy)))
              (filter is_func_sym syms)) = Some fns"
      using assms h True by (auto simp: scn_funcs_def split: bind_splits if_splits)
    have len: "length fns = length (filter is_func_sym syms)"
      using those_length [OF d(4)] by simp
    show ?thesis
      using d(1,2) h True len fill_funcs_eq [OF d(3,4), of "map junk [length tab..<length tab + length fns]" tab]
        count_funcs_eq [OF d(3), of 0] by (simp add: read_section_def Let_def)
  qed (use assms h in \<open>simp add: read_section_def scn_funcs_def\<close>)
qed

lemma read_sections_eq:
  "scn_chain elf e prev ss \<Longrightarrow> those (map (scn_funcs elf e) ss) = Some fss \<Longrightarrow>
   read_sections junk elf e prev tab = Some (tab @ concat fss)"
proof (induction ss arbitrary: prev tab fss)
  case (Cons s ss)
  then obtain fns fss' where "scn_funcs elf e s = Some fns" "those (map (scn_funcs elf e) ss) = Some fss'" "fss = fns # fss'"
    by (auto split: option.splits)
  with Cons show ?case
    by (subst read_sections.simps) (simp add: read_section_eq)
qed (simp add: read_sections.simps)


section \<open>Return events\<close>

lemma ret_to_eq:
  assumes "f + k = Suc (length tab)" "0 < k"
  shows "ret_to tab (length tab) x f k to =
     (let l = length (takeWhile (\<lambda>e. addr e \<le> x) (drop f tab))
      in if f + l < length tab then Some (Some (f + l - 1)) else None)"
  using assms
proof (induction k arbitrary: f to)
  case (Suc k)
  show ?case
  proof (cases "f < length tab")
    case True
    then have "drop f tab = tab ! f # drop (Suc f) tab" by (simp add: Cons_nth_drop_Suc)
    with True Suc show ?thesis by (auto simp: Let_def not_le)
  qed simp
qed simp

lemma ret_log_eq:
  assumes "f + k = Suc (length tab)" "0 < k" "\<forall>e \<in> set tab. addr e \<noteq> npc event"
  shows "ret_log tab (length tab) event to f k =
     (let l = length (takeWhile (\<lambda>e. addr e \<le> pc event) (drop f tab))
      in if f + l < length tab
         then Some (if Some (f + l - 1) \<noteq> to then log_line (ctm_timestamp event) '' leave '' (fname (tab ! (f + l - 1))) else [])
         else None)"
  using assms(1,2)
proof (induction k arbitrary: f)
  case (Suc k)
  show ?case
  proof (cases "f < length tab")
    case True
    then have "drop f tab = tab ! f # drop (Suc f) tab" by (simp add: Cons_nth_drop_Suc)
    with True Suc assms(3) show ?thesis by (auto simp: Let_def not_le)
  qed simp
qed simp

text \<open>The function with index \<open>i\<close> is the last one that starts at or before \<open>x\<close>.\<close>

definition in_func :: "elf_function list \<Rightarrow> nat \<Rightarrow> u64 \<Rightarrow> bool" where
  "in_func tab i x \<longleftrightarrow> i < length tab \<and> addr (tab ! i) \<le> x \<and> (\<forall>g. i < g \<and> g < length tab \<longrightarrow> x < addr (tab ! g))"

lemma in_func_takeWhile:
  assumes "sorted (map addr tab)" "tab \<noteq> []" "addr (hd tab) \<le> x"
  shows "in_func tab (length (takeWhile (\<lambda>e. addr e \<le> x) (tl tab))) x"
proof -
  obtain t ts where tab: "tab = t # ts" using assms(2) by (cases tab) auto
  let ?l = "length (takeWhile (\<lambda>e. addr e \<le> x) ts)"
  have srt: "sorted (map addr ts)" using assms(1) by (simp add: tab)
  have "addr (tab ! ?l) \<le> x"
  proof (cases ?l)
    case (Suc m)
    then have "ts ! m \<in> set (takeWhile (\<lambda>e. addr e \<le> x) ts)" by (metis lessI nth_mem takeWhile_nth)
    then show ?thesis by (auto simp: tab Suc dest: set_takeWhileD)
  qed (use assms(3) in \<open>simp add: tab\<close>)
  moreover have "x < addr (tab ! g)" if g: "?l < g" "g < length tab" for g
  proof -
    obtain g' where g': "g = Suc g'" "?l \<le> g'" "g' < length ts" using g by (cases g) (auto simp: tab)
    have "\<not> addr (ts ! ?l) \<le> x" using g' by (intro nth_length_takeWhile) simp
    moreover have "addr (ts ! ?l) \<le> addr (ts ! g')" using srt g' by (auto simp: sorted_iff_nth_mono)
    ultimately show ?thesis by (simp add: tab g'(1))
  qed
  moreover have "?l < length tab" using length_takeWhile_le [of "\<lambda>e. addr e \<le> x" ts] by (simp add: tab)
  ultimately show ?thesis by (simp add: in_func_def tab)
qed

section \<open>Properties\<close>

text \<open>
  (C29) The function table: when the ELF library delivers the sections and symbols of a file, the table holds
  exactly the symbols of functions and of unspecified type from all symbol tables, sorted by address, symbols of
  the same address in the order of the file. The exception is a symbol at the highest address, which serves as
  mark of the sorting loop: then the code dereferences a null pointer.
\<close>

theorem set_elf_sorts_functions:
  assumes "elf_version elf" "elf_open elf name = Some fd" "elf_begin elf fd = Some e"
    and "scn_chain elf e None ss" "those (map (scn_funcs elf e) ss) = Some fss"
  shows "osd_coretracelogger_set_elf junk elf ctx (Some name) =
     (if \<forall>f \<in> set (concat fss). addr f \<noteq> -1
      then Some (OSD_OK, ctx\<lparr>num_funcs := length (concat fss), funcs := Some (sort_key addr (concat fss))\<rparr>)
      else None)"
  using assms read_sections_eq [OF assms(4,5), of junk "[]"] select_all_funcs [of "concat fss"]
  by (auto simp: osd_coretracelogger_set_elf_def Let_def)

definition elf_demo :: "(unit, unit, nat, unit) libelf" where
  "elf_demo = \<lparr>elf_version = True, elf_open = (\<lambda>_. Some ()), elf_begin = (\<lambda>_. Some ()), elf_getphdrnum = (\<lambda>_. None),
     gelf_getphdr = (\<lambda>_ _. None), elf_getdata_rawchunk = (\<lambda>_ _ _. None),
     elf_nextscn = (\<lambda>_ s. case s of None \<Rightarrow> Some 0 | Some n \<Rightarrow> if n = 0 then Some 1 else None),
     gelf_getshdr = (\<lambda>s. Some \<lparr>sh_type = (if s = 0 then 1 else 2), sh_size = 48, sh_entsize = 16, sh_link = 5\<rparr>),
     elf_getdata = (\<lambda>_. Some ()),
     gelf_getsym = (\<lambda>_ i. Some \<lparr>st_info = (if i = 1 then 1 else 2), st_value = (if i = 0 then 0x200 else 0x100), st_name = of_nat i\<rparr>),
     elf_strptr = (\<lambda>_ _ n. Some (if n = 0 then ''main'' else ''init''))\<rparr>"

theorem set_elf_sorts_functions_witness:
  "osd_coretracelogger_set_elf (\<lambda>_. \<lparr>addr = 0, fname = []\<rparr>) elf_demo
     \<lparr>ct_hostmod_ctx = \<lparr>hm_is_connected = False, hm_diaddr = 0, hm_ioworker_ctx = True\<rparr>, ct_ctm_di_addr = 3,
      ct_ctm_desc = \<lparr>ctm_di_addr = 0, addr_width_bit = 0, data_width_bit = 0\<rparr>, ct_handler_desc = False,
      fp_log = None, num_funcs = 0, funcs = None\<rparr> (Some ''a.elf'') =
   Some (OSD_OK, \<lparr>ct_hostmod_ctx = \<lparr>hm_is_connected = False, hm_diaddr = 0, hm_ioworker_ctx = True\<rparr>, ct_ctm_di_addr = 3,
      ct_ctm_desc = \<lparr>ctm_di_addr = 0, addr_width_bit = 0, data_width_bit = 0\<rparr>, ct_handler_desc = False, fp_log = None,
      num_funcs = 2, funcs = Some [\<lparr>addr = 0x100, fname = ''init''\<rparr>, \<lparr>addr = 0x200, fname = ''main''\<rparr>]\<rparr>)"
proof -
  let ?f = "\<lparr>addr = 0x200, fname = ''main''\<rparr>" and ?g = "\<lparr>addr = 0x100, fname = ''init''\<rparr>"
  have c: "scn_chain elf_demo () None [0, 1]" by (simp add: elf_demo_def)
  have f: "those (map (scn_funcs elf_demo ()) [0, 1]) = Some [[], [?f, ?g]]" by code_simp
  have o: "elf_version elf_demo" "elf_open elf_demo ''a.elf'' = Some ()" "elf_begin elf_demo () = Some ()"
    by (simp_all add: elf_demo_def)
  show ?thesis unfolding set_elf_sorts_functions [OF o c f] by simp
qed

text \<open>
  With a table sorted by address, a return from address \<open>pc\<close> to an address \<open>npc\<close> inside of a function is
  logged as leaving the function that contains \<open>pc\<close>, unless the return stays in this function. But when one
  of the two is the last function of the table, the code reads behind the end of the table.
\<close>

theorem return_event_logged:
  assumes "funcs ctx = Some tab" "num_funcs ctx = length tab" "sorted (map addr tab)" "tab \<noteq> []"
    and "is_ret event" "\<not> is_call event" "\<not> is_modechange event"
    and "addr (hd tab) \<le> pc event" "addr (hd tab) \<le> npc event" "\<forall>f \<in> set tab. addr f \<noteq> npc event"
  shows "\<exists>i j. in_func tab i (pc event) \<and> in_func tab j (npc event)
    \<and> print_with_elfdata ctx fp event fs =
        (if Suc i < length tab \<and> Suc j < length tab
         then Some (if i = j then fs else fput fp (log_line (ctm_timestamp event) '' leave '' (fname (tab ! i))) fs)
         else None)"
proof -
  let ?l = "\<lambda>x. length (takeWhile (\<lambda>e. addr e \<le> x) (tl tab))"
  have d: "drop (Suc 0) tab = tl tab" by (simp add: drop_Suc)
  have n: "1 + length tab = Suc (length tab)" "0 < length tab" using assms(4) by auto
  have nil: "fput fp [] fs = fs" by (simp add: fput_def fwrite_def)
  note to = ret_to_eq [OF n, of "npc event" None, unfolded One_nat_def d Let_def]
    and log = ret_log_eq [OF n assms(10), unfolded One_nat_def d Let_def]
  have "print_with_elfdata ctx fp event fs =
        (if Suc (?l (pc event)) < length tab \<and> Suc (?l (npc event)) < length tab
         then Some (if ?l (pc event) = ?l (npc event) then fs
           else fput fp (log_line (ctm_timestamp event) '' leave '' (fname (tab ! ?l (pc event)))) fs)
         else None)"
    using assms(1,2,5-7) by (simp add: print_with_elfdata_def Let_def to log nil)
  then show ?thesis
    using in_func_takeWhile [OF assms(3,4)] assms(8,9) by blast
qed

theorem return_event_logged_witness:
  "\<exists>fs'. print_with_elfdata \<lparr>ct_hostmod_ctx = \<lparr>hm_is_connected = False, hm_diaddr = 0, hm_ioworker_ctx = True\<rparr>, ct_ctm_di_addr = 3,
      ct_ctm_desc = \<lparr>ctm_di_addr = 0, addr_width_bit = 0, data_width_bit = 0\<rparr>, ct_handler_desc = False, fp_log = Some 0,
      num_funcs = 3, funcs = Some [\<lparr>addr = 0x100, fname = ''init''\<rparr>, \<lparr>addr = 0x200, fname = ''main''\<rparr>, \<lparr>addr = 0x300, fname = ''end''\<rparr>]\<rparr>
      0 \<lparr>ctm_overflow = 0, ctm_timestamp = 7, npc = 0x108, pc = 0x210, mode = 0, is_ret = True, is_call = False, is_modechange = False\<rparr>
      (\<lambda>_. \<lparr>rd_buf = [], wr_buf = [], wr_cap = 100\<rparr>) = Some fs'"
  by (rule exE [OF return_event_logged [of
      "\<lparr>ct_hostmod_ctx = \<lparr>hm_is_connected = False, hm_diaddr = 0, hm_ioworker_ctx = True\<rparr>, ct_ctm_di_addr = 3,
        ct_ctm_desc = \<lparr>ctm_di_addr = 0, addr_width_bit = 0, data_width_bit = 0\<rparr>, ct_handler_desc = False, fp_log = Some 0,
        num_funcs = 3, funcs = Some [\<lparr>addr = 0x100, fname = ''init''\<rparr>, \<lparr>addr = 0x200, fname = ''main''\<rparr>, \<lparr>addr = 0x300, fname = ''end''\<rparr>]\<rparr>"
      "[\<lparr>addr = 0x100, fname = ''init''\<rparr>, \<lparr>addr = 0x200, fname = ''main''\<rparr>, \<lparr>addr = 0x300, fname = ''end''\<rparr>]"
      "\<lparr>ctm_overflow = 0, ctm_timestamp = 7, npc = 0x108, pc = 0x210, mode = 0, is_ret = True, is_call = False, is_modechange = False\<rparr>"
      0 "\<lambda>_. \<lparr>rd_buf = [], wr_buf = [], wr_cap = 100\<rparr>"]])
    (auto simp: in_func_def less_Suc_eq numeral_3_eq_3)


end
