(* ===== verification/Terminal.thy ===== *)
theory Terminal
  imports Cl_Dem_Uart Hostmod_User
begin

text \<open>
  The terminal (\<^verbatim>\<open>terminal.c\<close>): connects a UART emulation module with a pseudo-terminal of the host. A thread sends
  what is typed; the event handler of the host module writes what the module sends.
\<close>

section \<open>Data\<close>

record termios =
  c_iflag :: u32
  c_oflag :: u32
  c_lflag :: u32

definition ISIG :: u32 where "ISIG = 1"
definition ICANON :: u32 where "ICANON = 2"
definition ECHO :: u32 where "ECHO = 8"
definition INLCR :: u32 where "INLCR = 0x40"
definition ICRNL :: u32 where "ICRNL = 0x100"
definition IXON :: u32 where "IXON = 0x400"
definition IXOFF :: u32 where "IXOFF = 0x1000"
definition ONLCR :: u32 where "ONLCR = 4"
definition OCRNL :: u32 where "OCRNL = 8"

text \<open>
  The system calls on the master side of the pseudo-terminal, and the flag \<^verbatim>\<open>running\<close> the threads share.
  \<open>tty_read\<close> and \<open>tty_write\<close> yield the result of the call, a read also the bytes.
\<close>

record 'w tty_os =
  get_running :: "'w \<Rightarrow> bool"
  set_running :: "bool \<Rightarrow> 'w \<Rightarrow> 'w"
  tty_write :: "u8 list \<Rightarrow> 'w \<Rightarrow> int \<times> 'w"
  tty_poll :: "'w \<Rightarrow> int \<times> 'w"
  tty_read :: "nat \<Rightarrow> 'w \<Rightarrow> (int \<times> u8 list) \<times> 'w"
  posix_openpt :: "'w \<Rightarrow> int \<times> 'w"
  grantpt :: "'w \<Rightarrow> int \<times> 'w"
  tcgetattr :: "'w \<Rightarrow> (int \<times> termios) \<times> 'w"
  tcsetattr :: "termios \<Rightarrow> 'w \<Rightarrow> int \<times> 'w"
  unlockpt :: "'w \<Rightarrow> int \<times> 'w"
  tx_pthread_create :: "'w \<Rightarrow> int \<times> 'w"
  tx_pthread_join :: "'w \<Rightarrow> int \<times> 'w"
  ptsname :: "'w \<Rightarrow> string option"
  tty_close :: "'w \<Rightarrow> 'w"

record osd_terminal_ctx =
  tm_hostmod_ctx :: osd_hostmod_ctx
  tm_dem_uart_desc :: osd_dem_uart_desc
  pts_path :: "string option"
  masterfd :: int
  tm_dem_uart_di_addr :: u16

section \<open>The two directions\<close>

text \<open>The loop ends only if the terminal accepts the characters or fails.\<close>

partial_function (option) handle_rx_loop :: "'w tty_os \<Rightarrow> u8 list \<Rightarrow> nat \<Rightarrow> nat \<Rightarrow> 'w \<Rightarrow> 'w option" where
  "handle_rx_loop os str len written w =
     (if written < len then
        (let (ret, w) = tty_write os (take (len - written) (drop written str)) w
         in if ret = -1 then Some w else handle_rx_loop os str len (written + nat ret) w)
      else Some w)"

definition handle_rx_data :: "'w tty_os \<Rightarrow> u8 list \<Rightarrow> nat \<Rightarrow> 'w \<Rightarrow> 'w option" where
  "handle_rx_data os str len w = handle_rx_loop os str len 0 w"

text \<open>The handler is registered with the host module through the client of the UART module.\<close>

definition terminal_event :: "'w tty_os \<Rightarrow> osd_packet \<Rightarrow> 'w \<Rightarrow> 'w option" where
  "terminal_event os pkg w =
     do { (rv, w) \<leftarrow> osd_cl_dem_uart_receive_event (\<lambda>str len w. Option.bind w (handle_rx_data os str len)) pkg (Some w); w }"

partial_function (option) terminal_tx_thread :: "'w zmq \<Rightarrow> 'w tty_os \<Rightarrow> osd_terminal_ctx \<Rightarrow> 'w \<Rightarrow> 'w option" where
  "terminal_tx_thread z os ctx w =
     (if \<not> get_running os w then Some w
      else (let (ret, w) = tty_poll os w
            in if ret = -1 then Some w
               else if ret = 0 then terminal_tx_thread z os ctx w
               else (let ((ret, buf), w) = tty_read os 256 w
                     in if ret = -1 then terminal_tx_thread z os ctx w
                        else do {
                          (rv, w) \<leftarrow> osd_cl_dem_uart_send_string z (tm_hostmod_ctx ctx) (tm_dem_uart_desc ctx) buf (nat ret) w;
                          terminal_tx_thread z os ctx w })))"

section \<open>The terminal\<close>

definition osd_terminal_new ::
  "'w zmq \<Rightarrow> int \<Rightarrow> u16 \<Rightarrow> 'w \<Rightarrow> ((osd_result + osd_terminal_ctx) \<times> 'w) option" where
  "osd_terminal_new z uninit di_addr w =
     do { (r, w) \<leftarrow> osd_hostmod_new z uninit w;
          (case r of
             Inl rv \<Rightarrow> Some (Inl rv, w)
           | Inr h \<Rightarrow> Some (Inr \<lparr>tm_hostmod_ctx = h, tm_dem_uart_desc = \<lparr>dem_uart_di_addr = 0\<rparr>, pts_path = None,
               masterfd = 0, tm_dem_uart_di_addr = di_addr\<rparr>, w)) }"

definition osd_terminal_free ::
  "'w zmq \<Rightarrow> osd_terminal_ctx option \<Rightarrow> 'w \<Rightarrow> (osd_terminal_ctx option \<times> 'w) option" where
  "osd_terminal_free z ctx_p w =
     (case ctx_p of
        None \<Rightarrow> Some (None, w)
      | Some ctx \<Rightarrow> do { (_, w) \<leftarrow> osd_hostmod_free z (Some (tm_hostmod_ctx ctx)) w; Some (None, w) })"

definition osd_terminal_connect ::
  "'w zmq \<Rightarrow> osd_terminal_ctx \<Rightarrow> 'w \<Rightarrow> (osd_result \<times> osd_terminal_ctx \<times> 'w) option" where
  "osd_terminal_connect z ctx w =
     do { (rv, h, w) \<leftarrow> osd_hostmod_connect z (tm_hostmod_ctx ctx) w; Some (rv, ctx\<lparr>tm_hostmod_ctx := h\<rparr>, w) }"

text \<open>A running terminal is only logged as an error.\<close>

definition osd_terminal_disconnect ::
  "'w zmq \<Rightarrow> osd_terminal_ctx \<Rightarrow> 'w \<Rightarrow> (osd_result \<times> osd_terminal_ctx \<times> 'w) option" where
  "osd_terminal_disconnect z ctx w =
     do { (rv, h, w) \<leftarrow> osd_hostmod_disconnect z (tm_hostmod_ctx ctx) w; Some (rv, ctx\<lparr>tm_hostmod_ctx := h\<rparr>, w) }"

definition osd_terminal_is_connected :: "osd_terminal_ctx \<Rightarrow> bool" where
  "osd_terminal_is_connected ctx = osd_hostmod_is_connected (tm_hostmod_ctx ctx)"

definition raw_termios :: "termios \<Rightarrow> termios" where
  "raw_termios t =
     t\<lparr>c_lflag := c_lflag t AND NOT ECHO AND NOT ICANON AND NOT ISIG,
       c_iflag := c_iflag t AND NOT ICRNL AND NOT INLCR AND NOT IXON AND NOT IXOFF,
       c_oflag := c_oflag t AND NOT OCRNL AND NOT ONLCR\<rparr>"

text \<open>
  The part between the opening of the pseudo-terminal and its closing after an error. The result of reading the
  description is ignored: without the right module the address stays as it was.
\<close>

definition setup_terminal ::
  "'w zmq \<Rightarrow> 'w tty_os \<Rightarrow> osd_terminal_ctx \<Rightarrow> 'w \<Rightarrow> (osd_result \<times> osd_terminal_ctx \<times> 'w) option" where
  "setup_terminal z os ctx w =
     (let (ret, w) = grantpt os w
      in if ret \<noteq> 0 then Some (OSD_ERROR_FAILURE, ctx, w)
         else let ((ret, t), w) = tcgetattr os w
      in if ret \<noteq> 0 then Some (OSD_ERROR_FAILURE, ctx, w)
         else let (ret, w) = tcsetattr os (raw_termios t) w
      in if ret \<noteq> 0 then Some (OSD_ERROR_FAILURE, ctx, w)
         else let (ret, w) = unlockpt os w
      in if ret \<noteq> 0 then Some (OSD_ERROR_FAILURE, ctx, w)
         else do {
           (r, w) \<leftarrow> osd_hostmod_mod_set_event_active z (tm_hostmod_ctx ctx) (dem_uart_di_addr (tm_dem_uart_desc ctx)) True 0 w;
           (case r of
              Inl rv \<Rightarrow> Some (rv, ctx, w)
            | Inr _ \<Rightarrow>
                (let w = set_running os True w;
                     (ret, w) = tx_pthread_create os w
                 in if ret \<noteq> 0 then Some (OSD_ERROR_FAILURE, ctx, w)
                    else do { p \<leftarrow> ptsname os w; Some (OSD_OK, ctx\<lparr>pts_path := Some p\<rparr>, w) })) })"

definition osd_terminal_start ::
  "'w zmq \<Rightarrow> 'w tty_os \<Rightarrow> osd_terminal_ctx \<Rightarrow> 'w \<Rightarrow> (osd_result \<times> osd_terminal_ctx \<times> 'w) option" where
  "osd_terminal_start z os ctx w =
     do { (_, desc, w) \<leftarrow> osd_cl_dem_uart_get_desc z (tm_hostmod_ctx ctx) (tm_dem_uart_di_addr ctx) (tm_dem_uart_desc ctx) w;
          let ctx = ctx\<lparr>tm_dem_uart_desc := desc\<rparr>;
          (r, w) \<leftarrow> osd_hostmod_mod_set_event_dest z (tm_hostmod_ctx ctx) (dem_uart_di_addr desc) 0 w;
          (case r of
             Inl rv \<Rightarrow> Some (rv, ctx, w)
           | Inr _ \<Rightarrow>
               (let (fd, w) = posix_openpt os w;
                    ctx = ctx\<lparr>masterfd := fd\<rparr>
                in if fd < 0 then Some (OSD_ERROR_FAILURE, ctx, w)
                   else do {
                     (rv, ctx, w) \<leftarrow> setup_terminal z os ctx w;
                     Some (rv, ctx, if OSD_FAILED rv then tty_close os w else w) })) }"

definition osd_terminal_stop ::
  "'w zmq \<Rightarrow> 'w tty_os \<Rightarrow> osd_terminal_ctx \<Rightarrow> 'w \<Rightarrow> (osd_result \<times> 'w) option" where
  "osd_terminal_stop z os ctx w =
     do { (r, w) \<leftarrow> osd_hostmod_mod_set_event_active z (tm_hostmod_ctx ctx) (dem_uart_di_addr (tm_dem_uart_desc ctx)) False 0 w;
          (case r of
             Inl rv \<Rightarrow> Some (rv, w)
           | Inr _ \<Rightarrow>
               (let w = set_running os False w;
                    (_, w) = tx_pthread_join os w
                in Some (OSD_OK, tty_close os w))) }"

definition osd_terminal_is_started :: "'w tty_os \<Rightarrow> osd_terminal_ctx \<Rightarrow> 'w \<Rightarrow> bool" where
  "osd_terminal_is_started os ctx w = get_running os w"

definition osd_terminal_get_pts_path :: "osd_terminal_ctx \<Rightarrow> string option" where
  "osd_terminal_get_pts_path ctx = pts_path ctx"

interpretation terminal: hostmod_user tm_hostmod_ctx "\<lambda>h c. c\<lparr>tm_hostmod_ctx := h\<rparr>"
  osd_terminal_connect osd_terminal_disconnect osd_terminal_is_connected
  by unfold_locales (auto simp: osd_terminal_connect_def osd_terminal_disconnect_def
      osd_terminal_is_connected_def osd_hostmod_is_connected_def split: bind_splits)

section \<open>Receiving\<close>

text \<open>
  \<open>tty_accepts\<close>: a write on the terminal accepts at least one character, not necessarily all.
\<close>

definition tty_accepts :: "'w tty_os \<Rightarrow> ('w \<Rightarrow> u8 list) \<Rightarrow> bool" where
  "tty_accepts os shown \<longleftrightarrow>
     (\<forall>bs w. bs \<noteq> [] \<longrightarrow> (\<exists>n w'. tty_write os bs w = (int n, w') \<and> 0 < n \<and> n \<le> length bs \<and> shown w' = shown w @ take n bs))"

lemma handle_rx_loop_shows:
  assumes "tty_accepts os shown"
  shows "len \<le> length str \<Longrightarrow> written \<le> len \<Longrightarrow>
    \<exists>w'. handle_rx_loop os str len written w = Some w' \<and> shown w' = shown w @ take (len - written) (drop written str)"
proof (induction "len - written" arbitrary: written w rule: less_induct)
  case less
  show ?case
  proof (cases "written < len")
    case True
    let ?bs = "take (len - written) (drop written str)"
    have "?bs \<noteq> []" using True less.prems by auto
    then obtain n w1 where n: "tty_write os ?bs w = (int n, w1)" "0 < n" "n \<le> len - written" "shown w1 = shown w @ take n ?bs"
      using assms less.prems unfolding tty_accepts_def by (metis length_drop length_take min.bounded_iff)
    have le: "written + n \<le> len" "len - (written + n) < len - written" using n(2,3) True by simp_all
    obtain w2 where "handle_rx_loop os str len (written + n) w1 = Some w2"
      "shown w2 = shown w1 @ take (len - (written + n)) (drop (written + n) str)"
      using less.hyps [OF le(2) less.prems(1) le(1), of w1] by blast
    moreover have "take n ?bs @ take (len - (written + n)) (drop (written + n) str) = ?bs"
    proof -
      have "take n ?bs = take n (drop written str)" "drop n (drop written str) = drop (written + n) str"
        using n(3) by (simp_all add: min_absorb1 add.commute)
      moreover have "n + (len - (written + n)) = len - written" using n(3) by simp
      ultimately show ?thesis by (metis take_add)
    qed
    ultimately show ?thesis
      using True n by (subst handle_rx_loop.simps) simp
  qed (use less.prems in \<open>simp add: handle_rx_loop.simps\<close>)
qed

primrec show_packets :: "'w tty_os \<Rightarrow> osd_packet list \<Rightarrow> 'w \<Rightarrow> 'w option" where
  "show_packets os [] w = Some w"
| "show_packets os (p # ps) w = do { w \<leftarrow> terminal_event os p w; show_packets os ps w }"

lemma show_char_packet:
  assumes "tty_accepts os shown"
  shows "\<exists>w'. terminal_event os (char_packet h desc c) w = Some w' \<and> shown w' = shown w @ [c]"
  using handle_rx_loop_shows [OF assms, of 1 "[c]" 0 w]
  by (auto simp: terminal_event_def receive_char_packet handle_rx_data_def)

lemma show_char_packets:
  assumes "tty_accepts os shown"
  shows "\<exists>w'. show_packets os (map (char_packet h desc) cs) w = Some w' \<and> shown w' = shown w @ cs"
proof (induction cs arbitrary: w)
  case (Cons c cs)
  obtain w1 where "terminal_event os (char_packet h desc c) w = Some w1" "shown w1 = shown w @ [c]"
    using show_char_packet [OF assms] by blast
  then show ?case using Cons.IH [of w1] by auto
qed simp

section \<open>Sending\<close>

text \<open>
  What the user does while the terminal runs: nothing for the time of a poll, typing characters, or something
  that makes a read fail. After the last event the terminal is stopped. \<open>sent w\<close> are the messages to the worker thread.
\<close>

datatype tty_event = Idle | Typed "u8 list" | Read_error

definition typed :: "tty_event list \<Rightarrow> u8 list" where
  "typed evs = concat (map (\<lambda>e. case e of Typed cs \<Rightarrow> cs | _ \<Rightarrow> []) evs)"

definition tty_user :: "'w zmq \<Rightarrow> 'w tty_os \<Rightarrow> ('w \<Rightarrow> tty_event list) \<Rightarrow> ('w \<Rightarrow> zmsg list) \<Rightarrow> bool" where
  "tty_user z os evs sent \<longleftrightarrow>
     (\<forall>w. get_running os w \<longleftrightarrow> evs w \<noteq> []) \<and>
     (\<forall>w e es. evs w = e # es \<longrightarrow> (\<exists>w1. sent w1 = sent w \<and>
        (case e of
           Idle \<Rightarrow> tty_poll os w = (0, w1) \<and> evs w1 = es
         | Typed cs \<Rightarrow> tty_poll os w = (1, w1) \<and>
             (\<exists>w2. tty_read os 256 w1 = ((int (length cs), cs), w2) \<and> evs w2 = es \<and> sent w2 = sent w)
         | Read_error \<Rightarrow> tty_poll os w = (1, w1) \<and> (\<exists>w2. tty_read os 256 w1 = ((-1, []), w2) \<and> evs w2 = es \<and> sent w2 = sent w)))) \<and>
     (\<forall>w m. \<exists>w'. zmsg_send z Inproc_main m w = (0, w') \<and> evs w' = evs w \<and> sent w' = sent w @ [m])"

lemma send_all_user:
  assumes "tty_user z os evs sent"
  shows "\<exists>w'. send_all z ms w = (OSD_OK, w') \<and> evs w' = evs w \<and> sent w' = sent w @ ms"
proof (induction ms arbitrary: w)
  case (Cons m ms)
  obtain w1 where "zmsg_send z Inproc_main m w = (0, w1)" "evs w1 = evs w" "sent w1 = sent w @ [m]"
    using assms unfolding tty_user_def by blast
  then show ?case using Cons.IH [of w1] by auto
qed simp

lemma tx_thread_sends:
  assumes U: "tty_user z os evs sent" and R: "ready (tm_hostmod_ctx ctx)"
  shows "Typed [] \<notin> set (evs w) \<Longrightarrow> \<exists>w'. terminal_tx_thread z os ctx w = Some w'
     \<and> sent w' = sent w @ map (\<lambda>c. req_msg (char_packet (tm_hostmod_ctx ctx) (tm_dem_uart_desc ctx) c)) (typed (evs w))"
proof (induction "evs w" arbitrary: w)
  case Nil
  then have "\<not> get_running os w" using U unfolding tty_user_def by metis
  then show ?case by (subst terminal_tx_thread.simps) (simp add: Nil(1) [symmetric] typed_def)
next
  case (Cons e es)
  note ev = Cons.hyps(2) [symmetric]
  have run: "get_running os w" using U ev unfolding tty_user_def by (metis list.distinct(1))
  obtain w1 where w1: "sent w1 = sent w" "case e of
           Idle \<Rightarrow> tty_poll os w = (0, w1) \<and> evs w1 = es
         | Typed cs \<Rightarrow> tty_poll os w = (1, w1) \<and>
             (\<exists>w2. tty_read os 256 w1 = ((int (length cs), cs), w2) \<and> evs w2 = es \<and> sent w2 = sent w)
         | Read_error \<Rightarrow> tty_poll os w = (1, w1) \<and> (\<exists>w2. tty_read os 256 w1 = ((-1, []), w2) \<and> evs w2 = es \<and> sent w2 = sent w)"
    using U [unfolded tty_user_def, THEN conjunct2, THEN conjunct1, THEN spec, THEN spec, THEN spec, THEN mp, OF ev] by blast
  have es: "Typed [] \<notin> set es" using Cons.prems ev by simp
  show ?case
  proof (cases e)
    case Idle
    then have "terminal_tx_thread z os ctx w = terminal_tx_thread z os ctx w1" "evs w1 = es"
      using w1(2) run by (simp_all add: terminal_tx_thread.simps [of z os ctx w])
    then show ?thesis using Cons.hyps(1) [of w1] es w1(1) Idle ev by (simp add: typed_def)
  next
    case (Typed cs)
    then obtain w2 where w2: "tty_poll os w = (1, w1)" "tty_read os 256 w1 = ((int (length cs), cs), w2)" "evs w2 = es" "sent w2 = sent w"
      using w1(2) by auto
    let ?ms = "map (\<lambda>c. req_msg (char_packet (tm_hostmod_ctx ctx) (tm_dem_uart_desc ctx) c)) cs"
    obtain w3 where w3: "send_all z ?ms w2 = (OSD_OK, w3)" "evs w3 = es" "sent w3 = sent w @ ?ms"
      using send_all_user [OF U, of ?ms w2] w2(3,4) by auto
    have "cs \<noteq> []" using Cons.prems Typed ev by auto
    then have "osd_cl_dem_uart_send_string z (tm_hostmod_ctx ctx) (tm_dem_uart_desc ctx) cs (length cs) w2 = Some (OSD_OK, w3)"
      using send_string_eq [OF R, of "length cs" cs z "tm_dem_uart_desc ctx" w2] w3(1) by simp
    then have "terminal_tx_thread z os ctx w = terminal_tx_thread z os ctx w3"
      using run w2 by (simp add: terminal_tx_thread.simps [of z os ctx w])
    then show ?thesis using Cons.hyps(1) [of w3] es w3 Typed ev by (simp add: typed_def)
  next
    case Read_error
    then obtain w2 where w2: "tty_poll os w = (1, w1)" "tty_read os 256 w1 = ((-1, []), w2)" "evs w2 = es" "sent w2 = sent w"
      using w1(2) by auto
    then have "terminal_tx_thread z os ctx w = terminal_tx_thread z os ctx w2"
      using run by (simp add: terminal_tx_thread.simps [of z os ctx w])
    then show ?thesis using Cons.hyps(1) [of w2] es w2 Read_error ev by (simp add: typed_def)
  qed
qed

section \<open>Property\<close>

text \<open>
  (C28) The terminal is transparent in both directions. The thread of a connected terminal sends every character typed as an
  event packet to the UART module, in order, over pauses and failing reads, and ends when the
  terminal is stopped. And the packets of a string the module sends appear as this string on the
  terminal, even if it accepts only a part of each write.
\<close>

theorem terminal_transparent:
  assumes "ready (tm_hostmod_ctx ctx)" "tty_user z os evs sent" "tty_accepts os shown" "Typed [] \<notin> set (evs w)"
  shows "(\<exists>w'. terminal_tx_thread z os ctx w = Some w'
     \<and> sent w' = sent w @ map (\<lambda>c. req_msg (char_packet (tm_hostmod_ctx ctx) (tm_dem_uart_desc ctx) c)) (typed (evs w)))
   \<and> (\<exists>w'. show_packets os (map (char_packet h desc) cs) v = Some w' \<and> shown w' = shown v @ cs)"
  using tx_thread_sends [OF assms(2,1,4)] show_char_packets [OF assms(3)] by blast


text \<open>A terminal that accepts one character per write, with the events still to come, the characters shown and the messages sent.\<close>

type_synonym tty_sim = "tty_event list \<times> u8 list \<times> zmsg list"

definition tty_sim_os :: "tty_sim tty_os" where
  "tty_sim_os = \<lparr>get_running = (\<lambda>(es, _). es \<noteq> []), set_running = (\<lambda>b w. w),
     tty_write = (\<lambda>bs (es, sh, q). (1, (es, sh @ take 1 bs, q))),
     tty_poll = (\<lambda>(es, sh, q). case es of Idle # es \<Rightarrow> (0, (es, sh, q)) | _ \<Rightarrow> (1, (es, sh, q))),
     tty_read = (\<lambda>n (es, sh, q). case es of Typed cs # es \<Rightarrow> ((int (length cs), cs), (es, sh, q)) | _ \<Rightarrow> ((-1, []), (tl es, sh, q))),
     posix_openpt = (\<lambda>w. (3, w)), grantpt = (\<lambda>w. (0, w)),
     tcgetattr = (\<lambda>w. ((0, \<lparr>c_iflag = 0, c_oflag = 0, c_lflag = 0\<rparr>), w)), tcsetattr = (\<lambda>_ w. (0, w)), unlockpt = (\<lambda>w. (0, w)),
     tx_pthread_create = (\<lambda>w. (0, w)), tx_pthread_join = (\<lambda>w. (0, w)), ptsname = (\<lambda>_. Some ''/dev/pts/1''), tty_close = (\<lambda>w. w)\<rparr>"

definition tty_sim_zmq :: "tty_sim zmq" where
  "tty_sim_zmq = \<lparr>zmsg_send = (\<lambda>s m (es, sh, q). (0, (es, sh, q @ [m]))), zmsg_recv = (\<lambda>s w. (Again, w)),
     zsock_new = (\<lambda>s a w. (True, w)), zsock_bind = (\<lambda>s a w. (0, w)),
     zsock_connect = (\<lambda>s a w. (0, w)), zsock_destroy = (\<lambda>s w. w),
     zloop_reader = (\<lambda>s w. (0, w)), zloop_reader_end = (\<lambda>s w. w),
     zuuid_str = (\<lambda>w. (replicate 32 (CHR ''a''), w)),
     pthread_create = (\<lambda>w. (0, w)), pthread_join = (\<lambda>w. w), pthread_cancel = (\<lambda>w. w),
     thread_is_running = (\<lambda>w. True)\<rparr>"

lemma tty_sim_user: "tty_user tty_sim_zmq tty_sim_os fst (\<lambda>w. snd (snd w))"
  unfolding tty_user_def
proof (intro conjI allI impI, goal_cases)
  case (2 w e es)
  then show ?case by (cases w; cases e) (auto simp: tty_sim_os_def)
qed (auto simp: tty_sim_zmq_def tty_sim_os_def)

lemma tty_sim_accepts: "tty_accepts tty_sim_os (\<lambda>w. fst (snd w))"
  unfolding tty_accepts_def
proof (intro allI impI)
  fix bs :: "u8 list" and w :: tty_sim
  assume "bs \<noteq> []"
  then show "\<exists>n w'. tty_write tty_sim_os bs w = (int n, w') \<and> 0 < n \<and> n \<le> length bs \<and> fst (snd w') = fst (snd w) @ take n bs"
    by (cases w; cases bs) (auto simp: tty_sim_os_def intro!: exI [of _ 1])
qed

theorem terminal_transparent_witness:
  "\<exists>w'. terminal_tx_thread tty_sim_zmq tty_sim_os
      \<lparr>tm_hostmod_ctx = sim_ctx, tm_dem_uart_desc = \<lparr>dem_uart_di_addr = 2\<rparr>, pts_path = None, masterfd = 3, tm_dem_uart_di_addr = 2\<rparr>
      ([Idle, Typed [104], Read_error, Typed [105, 10]], [], []) = Some w'
   \<and> snd (snd w') = map (\<lambda>c. req_msg (char_packet sim_ctx \<lparr>dem_uart_di_addr = 2\<rparr> c)) [104, 105, 10]"
  using terminal_transparent [OF _ tty_sim_user tty_sim_accepts, of
      "\<lparr>tm_hostmod_ctx = sim_ctx, tm_dem_uart_desc = \<lparr>dem_uart_di_addr = 2\<rparr>, pts_path = None, masterfd = 3, tm_dem_uart_di_addr = 2\<rparr>"
      "([Idle, Typed [104], Read_error, Typed [105, 10]], [], [])"] sim_ctx_ready
  by (simp add: typed_def)


end
