(* ===== verification/Dictionary.thy ===== *)
theory Dictionary
  imports C_Stdlib
begin

text \<open>
  The string dictionary the configuration parser stores its entries in (\<^verbatim>\<open>dictionary.c\<close>): arrays of keys, values and
  hashes of the keys, searched linearly, with free slots anywhere. Strings are values; a null pointer is
  \<open>None\<close>. Allocations succeed.
\<close>

section \<open>Definitions\<close>

definition DICTMINSZ :: nat where "DICTMINSZ = 128"

record dictionary =
  d_n :: int
  d_size :: nat
  d_val :: "string option list"
  d_key :: "string option list"
  d_hash :: "u32 list"

text \<open>
  The pointers the lookup functions deal with: null, a string, and the invalid pointer \<^verbatim>\<open>((char*)-1)\<close> callers pass
  as default value.
\<close>

datatype c_ptr = Null | Str string | Invalid

definition ptr_of :: "string option \<Rightarrow> c_ptr" where
  "ptr_of v = (case v of None \<Rightarrow> Null | Some s \<Rightarrow> Str s)"

definition xstrdup :: "string option \<Rightarrow> string option" where
  "xstrdup s = s"

definition dictionary_grow :: "dictionary \<Rightarrow> int \<times> dictionary" where
  "dictionary_grow d =
     (0, d\<lparr>d_size := d_size d * 2, d_val := take (d_size d) (d_val d) @ replicate (d_size d) None,
           d_key := take (d_size d) (d_key d) @ replicate (d_size d) None,
           d_hash := take (d_size d) (d_hash d) @ replicate (d_size d) 0\<rparr>)"

text \<open>A character is signed and extended to the width of the hash.\<close>

definition hash_step :: "u32 \<Rightarrow> char \<Rightarrow> u32" where
  "hash_step hash c =
     (let hash = hash + scast (of_nat (of_char c) :: u8);
          hash = hash + push_bit 10 hash
      in hash XOR drop_bit 6 hash)"

definition dictionary_hash :: "string \<Rightarrow> u32" where
  "dictionary_hash key =
     (let hash = foldl hash_step 0 key;
          hash = hash + push_bit 3 hash;
          hash = hash XOR drop_bit 11 hash
      in hash + push_bit 15 hash)"

definition dictionary_new :: "nat \<Rightarrow> dictionary" where
  "dictionary_new size' =
     (let size' = (if size' < DICTMINSZ then DICTMINSZ else size')
      in \<lparr>d_n = 0, d_size = size', d_val = replicate size' None, d_key = replicate size' None, d_hash = replicate size' 0\<rparr>)"

text \<open>The loop that looks for a key, with \<open>k\<close> iterations left: the index of the slot it is found in.\<close>

primrec search_key :: "dictionary \<Rightarrow> u32 \<Rightarrow> string \<Rightarrow> nat \<Rightarrow> nat \<Rightarrow> nat option option" where
  "search_key d hash key i 0 = Some None"
| "search_key d hash key i (Suc k) =
     do { c_assert (i < length (d_key d));
          (case d_key d ! i of
             None \<Rightarrow> search_key d hash key (Suc i) k
           | Some s \<Rightarrow>
               do { c_assert (i < length (d_hash d));
                    if hash = d_hash d ! i \<and> key = s then Some (Some i)
                    else search_key d hash key (Suc i) k }) }"

definition dictionary_get :: "dictionary \<Rightarrow> string \<Rightarrow> c_ptr \<Rightarrow> c_ptr option" where
  "dictionary_get d key def =
     do { r \<leftarrow> search_key d (dictionary_hash key) key 0 (d_size d);
          (case r of
             None \<Rightarrow> Some def
           | Some i \<Rightarrow> do { c_assert (i < length (d_val d)); Some (ptr_of (d_val d ! i)) }) }"

text \<open>The loop that looks for an empty slot, which would not end for a full dictionary.\<close>

partial_function (option) free_slot :: "dictionary \<Rightarrow> nat \<Rightarrow> nat option" where
  "free_slot d i =
     do { c_assert (i < length (d_key d));
          if d_key d ! i = None then Some i
          else free_slot d (if Suc i = d_size d then 0 else Suc i) }"

definition dictionary_set :: "dictionary \<Rightarrow> string option \<Rightarrow> string option \<Rightarrow> (int \<times> dictionary) option" where
  "dictionary_set d key val =
     (case key of
        None \<Rightarrow> Some (-1, d)
      | Some key \<Rightarrow>
          do { let hash = dictionary_hash key;
               found \<leftarrow> (if d_n d > 0 then search_key d hash key 0 (d_size d) else Some None);
               (case found of
                  Some i \<Rightarrow>
                    do { c_assert (i < length (d_val d));
                         Some (0, d\<lparr>d_val := (d_val d)[i := xstrdup val]\<rparr>) }
                | None \<Rightarrow>
                    do { let (rv, d) = (if d_n d = int (d_size d) then dictionary_grow d else (0, d));
                         if rv \<noteq> 0 then Some (-1, d)
                         else do {
                           c_assert (0 \<le> d_n d);
                           i \<leftarrow> free_slot d (nat (d_n d));
                           c_assert (i < length (d_val d) \<and> i < length (d_hash d));
                           Some (0, d\<lparr>d_key := (d_key d)[i := xstrdup (Some key)], d_val := (d_val d)[i := xstrdup val],
                                      d_hash := (d_hash d)[i := hash], d_n := d_n d + 1\<rparr>) } }) })"

definition dictionary_unset :: "dictionary \<Rightarrow> string option \<Rightarrow> dictionary option" where
  "dictionary_unset d key =
     (case key of
        None \<Rightarrow> Some d
      | Some key \<Rightarrow>
          do { r \<leftarrow> search_key d (dictionary_hash key) key 0 (d_size d);
               (case r of
                  None \<Rightarrow> Some d
                | Some i \<Rightarrow>
                    do { c_assert (i < length (d_val d));
                         Some (d\<lparr>d_key := (d_key d)[i := None], d_val := (d_val d)[i := None],
                                 d_hash := (d_hash d)[i := 0], d_n := d_n d - 1\<rparr>) }) })"

definition pad_left :: "nat \<Rightarrow> string \<Rightarrow> string" where
  "pad_left k s = replicate (k - length s) (CHR '' '') @ s"

definition dictionary_dump :: "dictionary \<Rightarrow> string" where
  "dictionary_dump d =
     (if d_n d < 1 then ''empty dictionary'' @ [CHR 0x0A]
      else concat (map (\<lambda>i. case d_key d ! i of
              None \<Rightarrow> []
            | Some k \<Rightarrow> pad_left 20 k @ [CHR 0x09] @ ''['' @ (case d_val d ! i of Some v \<Rightarrow> v | None \<Rightarrow> ''UNDEF'') @ '']'' @ [CHR 0x0A])
          [0..<d_size d]))"

section \<open>The specification\<close>

text \<open>
  What a user of the dictionary relies on: under the invariant it is a finite map from keys to values, where a value may be
  a null pointer.
\<close>

locale string_map =
  fixes inv :: "'d \<Rightarrow> bool"
    and content :: "'d \<Rightarrow> string \<Rightarrow> string option option"
    and get :: "'d \<Rightarrow> string \<Rightarrow> c_ptr \<Rightarrow> c_ptr option"
    and set :: "'d \<Rightarrow> string option \<Rightarrow> string option \<Rightarrow> (int \<times> 'd) option"
    and unset :: "'d \<Rightarrow> string option \<Rightarrow> 'd option"
  assumes get_law: "inv d \<Longrightarrow> get d k def = Some (case content d k of None \<Rightarrow> def | Some v \<Rightarrow> ptr_of v)"
    and set_law: "inv d \<Longrightarrow> \<exists>d'. set d (Some k) v = Some (0, d') \<and> inv d' \<and> content d' = (content d)(k \<mapsto> v)"
    and unset_law: "inv d \<Longrightarrow> \<exists>d'. unset d (Some k) = Some d' \<and> inv d' \<and> content d' = (content d)(k := None)"
begin

lemma get_after_set:
  assumes "inv d"
  shows "\<exists>d'. set d (Some k) v = Some (0, d') \<and> get d' k' def = (if k' = k then Some (ptr_of v) else get d k' def)"
  using set_law [OF assms, of k v] assms by (auto simp: get_law)

lemma get_after_unset:
  assumes "inv d"
  shows "\<exists>d'. unset d (Some k) = Some d' \<and> get d' k' def = (if k' = k then Some def else get d k' def)"
  using unset_law [OF assms, of k] assms by (auto simp: get_law)

end

section \<open>The dictionary implements it\<close>

definition dict_inv :: "dictionary \<Rightarrow> bool" where
  "dict_inv d \<longleftrightarrow> 0 < d_size d \<and> length (d_key d) = d_size d \<and> length (d_val d) = d_size d \<and> length (d_hash d) = d_size d
     \<and> d_n d = int (card {i. i < d_size d \<and> d_key d ! i \<noteq> None})
     \<and> (\<forall>i < d_size d. \<forall>k. d_key d ! i = Some k \<longrightarrow> d_hash d ! i = dictionary_hash k)
     \<and> (\<forall>i < d_size d. \<forall>j < d_size d. \<forall>k. d_key d ! i = Some k \<longrightarrow> d_key d ! j = Some k \<longrightarrow> i = j)"

definition dict_map :: "dictionary \<Rightarrow> string \<Rightarrow> string option option" where
  "dict_map d k = map_option (\<lambda>i. d_val d ! i) (find (\<lambda>i. d_key d ! i = Some k) [0..<d_size d])"

lemma search_key_eq:
  assumes "dict_inv d"
  shows "i + k = d_size d \<Longrightarrow> search_key d (dictionary_hash key) key i k = Some (find (\<lambda>j. d_key d ! j = Some key) [i..<d_size d])"
proof (induction k arbitrary: i)
  case (Suc k)
  then have "[i..<d_size d] = i # [Suc i..<d_size d]" by (simp add: upt_conv_Cons)
  with Suc assms show ?case
    by (auto simp: dict_inv_def split: option.splits)
qed simp

lemma dict_map_Some:
  assumes "dict_inv d"
  shows "dict_map d k = Some v \<longleftrightarrow> (\<exists>i < d_size d. d_key d ! i = Some k \<and> d_val d ! i = v)"
proof
  assume "dict_map d k = Some v"
  then show "\<exists>i < d_size d. d_key d ! i = Some k \<and> d_val d ! i = v"
    by (auto simp: dict_map_def find_Some_iff)
next
  assume "\<exists>i < d_size d. d_key d ! i = Some k \<and> d_val d ! i = v"
  then obtain i where i: "i < d_size d" "d_key d ! i = Some k" "d_val d ! i = v" by blast
  then obtain j where j: "find (\<lambda>j. d_key d ! j = Some k) [0..<d_size d] = Some j"
    by (cases "find (\<lambda>j. d_key d ! j = Some k) [0..<d_size d]") (auto simp: find_None_iff)
  then have "j < d_size d" "d_key d ! j = Some k" by (auto simp: find_Some_iff)
  with i assms have "j = i" by (auto simp: dict_inv_def)
  with i j show "dict_map d k = Some v" by (simp add: dict_map_def)
qed

lemma map_eqI_Some: "(\<And>k v. m k = Some v \<longleftrightarrow> m' k = Some v) \<Longrightarrow> m = (m' :: 'a \<Rightarrow> 'b option)"
  by (rule ext) (metis option.exhaust)

lemma free_slot_found:
  assumes "length (d_key d) = d_size d" "j < d_size d" "d_key d ! j = None"
  shows "i < d_size d \<Longrightarrow> \<exists>r < d_size d. free_slot d i = Some r \<and> d_key d ! r = None"
proof (induction "(j + d_size d - i) mod d_size d" arbitrary: i rule: less_induct)
  case less
  show ?case
  proof (cases "d_key d ! i = None")
    case False
    let ?i = "if Suc i = d_size d then 0 else Suc i"
    have "i \<noteq> j" using False assms(3) by auto
    then have "(j + d_size d - ?i) mod d_size d < (j + d_size d - i) mod d_size d"
      using assms(2) less.prems by (cases "i < j") (auto simp: mod_if)
    moreover have "?i < d_size d" using less.prems assms(2) by auto
    ultimately obtain r where "r < d_size d" "free_slot d ?i = Some r" "d_key d ! r = None"
      using less.hyps [of ?i] by blast
    moreover have "free_slot d i = free_slot d ?i"
      using False less.prems assms(1) by (subst free_slot.simps) auto
    ultimately show ?thesis by auto
  qed (use less.prems assms(1) in \<open>auto simp: free_slot.simps [of d i]\<close>)
qed

lemma grow_inv:
  assumes "dict_inv d"
  shows "dict_inv (snd (dictionary_grow d))" "dict_map (snd (dictionary_grow d)) = dict_map d"
    "d_n (snd (dictionary_grow d)) < int (d_size (snd (dictionary_grow d)))"
proof -
  let ?g = "snd (dictionary_grow d)"
  have len: "length (d_key d) = d_size d" "length (d_val d) = d_size d" "length (d_hash d) = d_size d"
    using assms by (simp_all add: dict_inv_def)
  have g: "d_size ?g = d_size d * 2" "d_n ?g = d_n d"
    "\<And>i. i < d_size d * 2 \<Longrightarrow> d_key ?g ! i = (if i < d_size d then d_key d ! i else None)"
    "\<And>i. i < d_size d \<Longrightarrow> d_hash ?g ! i = d_hash d ! i" "\<And>i. i < d_size d \<Longrightarrow> d_val ?g ! i = d_val d ! i"
    using len by (simp_all add: dictionary_grow_def nth_append)
  have "{i. i < d_size ?g \<and> d_key ?g ! i \<noteq> None} = {i. i < d_size d \<and> d_key d ! i \<noteq> None}"
    using g(1,3) by (auto split: if_splits)
  moreover have "card {i. i < d_size d \<and> d_key d ! i \<noteq> None} \<le> d_size d"
    using card_mono [of "{..<d_size d}" "{i. i < d_size d \<and> d_key d ! i \<noteq> None}"] by auto
  moreover have "length (d_key ?g) = d_size ?g" "length (d_val ?g) = d_size ?g" "length (d_hash ?g) = d_size ?g"
    using len by (simp_all add: dictionary_grow_def)
  ultimately show inv: "dict_inv ?g" and "d_n ?g < int (d_size ?g)"
    using assms g unfolding dict_inv_def by auto
  show "dict_map ?g = dict_map d"
  proof (rule map_eqI_Some)
    fix k v
    have "(i < d_size ?g \<and> d_key ?g ! i = Some k \<and> d_val ?g ! i = v)
        \<longleftrightarrow> (i < d_size d \<and> d_key d ! i = Some k \<and> d_val d ! i = v)" for i
      using g(1) g(3,5) [of i] by (cases "i < d_size d") auto
    then show "dict_map ?g k = Some v \<longleftrightarrow> dict_map d k = Some v"
      unfolding dict_map_Some [OF inv] dict_map_Some [OF assms] by simp
  qed
qed

lemma insert_inv:
  assumes D: "dict_inv d" and i: "i < d_size d" "d_key d ! i = None" and k: "dict_map d k = None"
    and d': "d' = d\<lparr>d_key := (d_key d)[i := Some k], d_val := (d_val d)[i := v],
                 d_hash := (d_hash d)[i := dictionary_hash k], d_n := d_n d + 1\<rparr>"
  shows "dict_inv d'" "dict_map d' = (dict_map d)(k \<mapsto> v)"
proof -
  have len: "length (d_key d) = d_size d" "length (d_val d) = d_size d" "length (d_hash d) = d_size d"
    using D by (simp_all add: dict_inv_def)
  have fresh: "d_key d ! j \<noteq> Some k" if "j < d_size d" for j
    using dict_map_Some [OF D, of k "d_val d ! j"] k that by auto
  have "{j. j < d_size d \<and> (d_key d)[i := Some k] ! j \<noteq> None} = insert i {j. j < d_size d \<and> d_key d ! j \<noteq> None}"
    using i len by (auto simp: nth_list_update)
  then have "card {j. j < d_size d \<and> (d_key d)[i := Some k] ! j \<noteq> None} = Suc (card {j. j < d_size d \<and> d_key d ! j \<noteq> None})"
    using i(2) by simp
  then show inv: "dict_inv d'"
    using D i len fresh unfolding dict_inv_def d' by (auto simp: nth_list_update)
  show "dict_map d' = (dict_map d)(k \<mapsto> v)"
  proof (rule map_eqI_Some)
    fix k' v'
    have "(j < d_size d' \<and> d_key d' ! j = Some k' \<and> d_val d' ! j = v')
        \<longleftrightarrow> (if k' = k then j = i \<and> v' = v else j < d_size d \<and> d_key d ! j = Some k' \<and> d_val d ! j = v')" for j
      using i len fresh [of j] by (cases "j = i") (auto simp: d')
    then show "dict_map d' k' = Some v' \<longleftrightarrow> ((dict_map d)(k \<mapsto> v)) k' = Some v'"
      by (cases "k' = k") (auto simp: dict_map_Some [OF inv] dict_map_Some [OF D])
  qed
qed

lemma found_key:
  assumes "dict_inv d" "find (\<lambda>j. d_key d ! j = Some key) [0..<d_size d] = Some i"
  shows "i < d_size d" "d_key d ! i = Some key" "\<And>j. j < d_size d \<Longrightarrow> d_key d ! j = Some key \<Longrightarrow> j = i"
  using assms by (auto simp: find_Some_iff dict_inv_def)

lemma dictionary_set_law:
  assumes D: "dict_inv d"
  shows "\<exists>d'. dictionary_set d (Some k) v = Some (0, d') \<and> dict_inv d' \<and> dict_map d' = (dict_map d)(k \<mapsto> v)"
proof -
  let ?f = "find (\<lambda>j. d_key d ! j = Some k) [0..<d_size d]"
  have len: "length (d_key d) = d_size d" "length (d_val d) = d_size d" "length (d_hash d) = d_size d"
    using D by (simp_all add: dict_inv_def)
  have empty: "?f = None" if "\<not> d_n d > 0"
  proof -
    have "{i. i < d_size d \<and> d_key d ! i \<noteq> None} = {}" using that D by (simp add: dict_inv_def)
    then show ?thesis by (force simp: find_None_iff)
  qed
  have srch: "(if d_n d > 0 then search_key d (dictionary_hash k) k 0 (d_size d) else Some None) = Some ?f"
    using search_key_eq [OF D, of 0 "d_size d" k] empty by simp
  show ?thesis
  proof (cases ?f)
    case (Some i)
    note i = found_key(1,2) [OF D Some]
    have only: "j \<noteq> i \<Longrightarrow> \<not> (j < d_size d \<and> d_key d ! j = Some k)" for j
      using found_key(3) [OF D Some] by blast
    let ?d = "d\<lparr>d_val := (d_val d)[i := v]\<rparr>"
    have inv: "dict_inv ?d" using D by (simp add: dict_inv_def)
    have "dict_map ?d = (dict_map d)(k \<mapsto> v)"
    proof (rule map_eqI_Some)
      fix k' v'
      have "(j < d_size ?d \<and> d_key ?d ! j = Some k' \<and> d_val ?d ! j = v')
          \<longleftrightarrow> (if k' = k then j = i \<and> v' = v else j < d_size d \<and> d_key d ! j = Some k' \<and> d_val d ! j = v')" for j
        using i(1,2) only [of j] len by (cases "j = i"; cases "k' = k") auto
      then show "dict_map ?d k' = Some v' \<longleftrightarrow> ((dict_map d)(k \<mapsto> v)) k' = Some v'"
        unfolding dict_map_Some [OF inv] by (cases "k' = k") (auto simp: dict_map_Some [OF D])
    qed
    then show ?thesis using srch Some inv i(1) len by (simp add: dictionary_set_def xstrdup_def)
  next
    case None
    then have k: "dict_map d k = None" by (simp add: dict_map_def)
    define g where "g = (if d_n d = int (d_size d) then snd (dictionary_grow d) else d)"
    have "d_n d \<le> int (d_size d)"
      using D card_mono [of "{..<d_size d}" "{i. i < d_size d \<and> d_key d ! i \<noteq> None}"] by (auto simp: dict_inv_def)
    then have g: "dict_inv g" "dict_map g = dict_map d" "d_n g < int (d_size g)"
      using grow_inv [OF D] D by (auto simp: g_def)
    have gn: "0 \<le> d_n g" using g(1) by (simp add: dict_inv_def)
    have "{i. i < d_size g \<and> d_key g ! i \<noteq> None} \<noteq> {..<d_size g}"
      using g(1,3) by (auto simp: dict_inv_def)
    then obtain j where j: "j < d_size g" "d_key g ! j = None" by auto
    have glen: "length (d_key g) = d_size g" "length (d_val g) = d_size g" "length (d_hash g) = d_size g"
      using g(1) by (simp_all add: dict_inv_def)
    obtain r where r: "r < d_size g" "free_slot g (nat (d_n g)) = Some r" "d_key g ! r = None"
      using free_slot_found [OF glen(1) j, of "nat (d_n g)"] g(3) gn by (metis nat_less_iff)
    have "dictionary_set d (Some k) v = Some (0, g\<lparr>d_key := (d_key g)[r := Some k], d_val := (d_val g)[r := v],
                 d_hash := (d_hash g)[r := dictionary_hash k], d_n := d_n g + 1\<rparr>)"
      using srch None r glen gn
      by (cases "d_n d = int (d_size d)") (simp_all add: dictionary_set_def xstrdup_def g_def dictionary_grow_def Let_def)
    then show ?thesis using insert_inv [OF g(1) r(1,3), of k _ v, OF _ refl] k g(2) by auto
  qed
qed

lemma dictionary_unset_law:
  assumes D: "dict_inv d"
  shows "\<exists>d'. dictionary_unset d (Some k) = Some d' \<and> dict_inv d' \<and> dict_map d' = (dict_map d)(k := None)"
proof -
  let ?f = "find (\<lambda>j. d_key d ! j = Some k) [0..<d_size d]"
  have len: "length (d_key d) = d_size d" "length (d_val d) = d_size d" "length (d_hash d) = d_size d"
    using D by (simp_all add: dict_inv_def)
  note srch = search_key_eq [OF D, of 0 "d_size d" k, simplified]
  show ?thesis
  proof (cases ?f)
    case None
    then have "(dict_map d)(k := None) = dict_map d" by (auto simp: dict_map_def)
    then show ?thesis using None srch D by (simp add: dictionary_unset_def)
  next
    case (Some i)
    note i = found_key(1,2) [OF D Some]
    have only: "j \<noteq> i \<Longrightarrow> \<not> (j < d_size d \<and> d_key d ! j = Some k)" for j
      using found_key(3) [OF D Some] by blast
    let ?d = "d\<lparr>d_key := (d_key d)[i := None], d_val := (d_val d)[i := None], d_hash := (d_hash d)[i := 0], d_n := d_n d - 1\<rparr>"
    have "{j. j < d_size d \<and> d_key d ! j \<noteq> None} = insert i {j. j < d_size d \<and> (d_key d)[i := None] ! j \<noteq> None}"
      using i(1,2) len by (auto simp: nth_list_update)
    moreover have "i \<notin> {j. j < d_size d \<and> (d_key d)[i := None] ! j \<noteq> None}" using i(1) len by simp
    ultimately have "card {j. j < d_size d \<and> d_key d ! j \<noteq> None} = Suc (card {j. j < d_size d \<and> (d_key d)[i := None] ! j \<noteq> None})"
      by simp
    then have inv: "dict_inv ?d" using D i len by (auto simp: dict_inv_def nth_list_update)
    have "dict_map ?d = (dict_map d)(k := None)"
    proof (rule map_eqI_Some)
      fix k' v'
      have "(j < d_size ?d \<and> d_key ?d ! j = Some k' \<and> d_val ?d ! j = v')
          \<longleftrightarrow> (k' \<noteq> k \<and> j < d_size d \<and> d_key d ! j = Some k' \<and> d_val d ! j = v')" for j
        using i(1,2) only [of j] len by (cases "j = i"; cases "k' = k") auto
      then show "dict_map ?d k' = Some v' \<longleftrightarrow> ((dict_map d)(k := None)) k' = Some v'"
        unfolding dict_map_Some [OF inv] by (cases "k' = k") (auto simp: dict_map_Some [OF D])
    qed
    then show ?thesis using srch Some inv i(1) len by (simp add: dictionary_unset_def)
  qed
qed

lemma dictionary_get_law:
  assumes D: "dict_inv d"
  shows "dictionary_get d k def = Some (case dict_map d k of None \<Rightarrow> def | Some v \<Rightarrow> ptr_of v)"
  using search_key_eq [OF D, of 0 "d_size d" k] D found_key(1) [OF D]
  by (auto simp: dictionary_get_def dict_map_def dict_inv_def split: option.splits)

interpretation dict: string_map dict_inv dict_map dictionary_get dictionary_set dictionary_unset
  using dictionary_get_law dictionary_set_law dictionary_unset_law by unfold_locales auto

lemma dictionary_new_empty: "dict_inv (dictionary_new n)" "dict_map (dictionary_new n) = (\<lambda>_. None)"
  by (auto simp: dict_inv_def dict_map_def dictionary_new_def DICTMINSZ_def Let_def find_None_iff)


text \<open>Any sequence of insertions and removals, and what it does to a map.\<close>

datatype dict_op = Dset string "string option" | Dunset string

primrec run_op :: "dict_op \<Rightarrow> dictionary \<Rightarrow> dictionary option" where
  "run_op (Dset k v) d = map_option snd (dictionary_set d (Some k) v)"
| "run_op (Dunset k) d = dictionary_unset d (Some k)"

primrec run_ops :: "dict_op list \<Rightarrow> dictionary \<Rightarrow> dictionary option" where
  "run_ops [] d = Some d"
| "run_ops (x # xs) d = do { d \<leftarrow> run_op x d; run_ops xs d }"

primrec map_op :: "dict_op \<Rightarrow> (string \<Rightarrow> string option option) \<Rightarrow> string \<Rightarrow> string option option" where
  "map_op (Dset k v) m = m(k \<mapsto> v)"
| "map_op (Dunset k) m = m(k := None)"

lemma run_ops_map:
  "dict_inv d \<Longrightarrow> \<exists>d'. run_ops xs d = Some d' \<and> dict_inv d' \<and> dict_map d' = fold map_op xs (dict_map d)"
proof (induction xs arbitrary: d)
  case (Cons x xs)
  obtain d1 where "run_op x d = Some d1" "dict_inv d1" "dict_map d1 = map_op x (dict_map d)"
    using dict.set_law [OF Cons.prems] dict.unset_law [OF Cons.prems] by (cases x) fastforce+
  then show ?case using Cons.IH [of d1] by simp
qed simp

text \<open>
  (C15) The dictionary implements a map: whatever sequence of insertions (growing the arrays when they are full) and
  removals is run on a new dictionary, every operation returns, and looking up a key then returns the value a map has
  for it after the same sequence, or the default.
\<close>

theorem dictionary_refines_map:
  "\<exists>d. run_ops xs (dictionary_new n) = Some d
     \<and> dictionary_get d k def = Some (case fold map_op xs (\<lambda>_. None) k of None \<Rightarrow> def | Some v \<Rightarrow> ptr_of v)"
proof -
  obtain d where "run_ops xs (dictionary_new n) = Some d" "dict_inv d" "dict_map d = fold map_op xs (\<lambda>_. None)"
    using run_ops_map [OF dictionary_new_empty(1), of xs n] dictionary_new_empty(2) by auto
  then show ?thesis using dict.get_law [of d k def] by simp
qed

end
