(* ===== verification/Iniparser.thy ===== *)
theory Iniparser
  imports Dictionary
begin

text \<open>
  The parser of configuration files (\<^verbatim>\<open>iniparser.c\<close>): the classification of a line, the loop over a file with its
  continuation lines and its limit on the line length, and the accessors of the resulting dictionary. An entry \<open>key\<close> of
  a section \<open>s\<close> is stored under \<open>s:key\<close>, the section itself under \<open>s\<close> with a null value. A character buffer is the string
  it holds; writing more than its size is a failed assertion, so that a definition that returns does not overflow one.
\<close>

section \<open>Library functions\<close>

abbreviation backslash :: char where "backslash \<equiv> CHR 0x5C"
abbreviation dquote :: char where "dquote \<equiv> CHR 0x22"
abbreviation squote :: char where "squote \<equiv> CHR 0x27"

definition c_tolower :: "char \<Rightarrow> char" where
  "c_tolower c = (if 65 \<le> (of_char c :: nat) \<and> (of_char c :: nat) \<le> 90 then char_of ((of_char c :: nat) + 32) else c)"

text \<open>The directives of \<^verbatim>\<open>sscanf\<close> that are used: a literal, white space, and a set of characters.\<close>

datatype scan_dir = Lit char | Ws | Set "char \<Rightarrow> bool"

fun sscanf :: "scan_dir list \<Rightarrow> string \<Rightarrow> string list" where
  "sscanf [] s = []"
| "sscanf (Lit c # fs) s = (case s of [] \<Rightarrow> [] | x # xs \<Rightarrow> if x = c then sscanf fs xs else [])"
| "sscanf (Ws # fs) s = sscanf fs (dropWhile is_space s)"
| "sscanf (Set P # fs) s =
     (if takeWhile P s = [] then [] else takeWhile P s # sscanf fs (dropWhile P s))"

text \<open>
  \<^verbatim>\<open>fgets\<close> with a buffer of \<open>n\<close> characters: what was read, the rest of the stream, and whether the end of the stream
  was met.
\<close>

definition fgets :: "nat \<Rightarrow> string \<Rightarrow> (string \<times> string \<times> bool) option" where
  "fgets n data =
     (if data = [] \<or> n = 0 then None
      else (let seg = take (n - 1) data;
                l = takeWhile (\<lambda>c. c \<noteq> NL) seg
            in if length l < length seg then Some (l @ [NL], drop (Suc (length l)) data, False)
               else Some (seg, drop (length seg) data, length seg < n - 1)))"

text \<open>\<^verbatim>\<open>strtol\<close> with base 0, where the prefix of the number gives its base.\<close>

definition digit_of :: "char \<Rightarrow> nat" where
  "digit_of c =
     (let n = (of_char c :: nat)
      in if 48 \<le> n \<and> n \<le> 57 then n - 48 else if 97 \<le> n \<and> n \<le> 122 then n - 87 else if 65 \<le> n \<and> n \<le> 90 then n - 55 else 99)"

definition base_val :: "nat \<Rightarrow> string \<Rightarrow> nat" where
  "base_val b s = foldl (\<lambda>a c. b * a + digit_of c) 0 (takeWhile (\<lambda>c. digit_of c < b) s)"

definition strtol0 :: "string \<Rightarrow> int" where
  "strtol0 s =
     (let s = dropWhile is_space s;
          (neg, s) = (case s of [] \<Rightarrow> (False, s)
            | c # cs \<Rightarrow> if c = CHR ''-'' then (True, cs) else if c = CHR ''+'' then (False, cs) else (False, s));
          n = (case s of
                 a # x # h # r \<Rightarrow>
                   if a = CHR ''0'' \<and> x \<in> {CHR ''x'', CHR ''X''} \<and> digit_of h < 16 then base_val 16 (h # r)
                   else if a = CHR ''0'' then base_val 8 s else base_val 10 s
               | a # r \<Rightarrow> if a = CHR ''0'' then base_val 8 s else base_val 10 s
               | [] \<Rightarrow> 0)
      in max LONG_MIN (min LONG_MAX (if neg then - int n else int n)))"

definition strncmp_eq :: "string \<Rightarrow> string \<Rightarrow> nat \<Rightarrow> bool" where
  "strncmp_eq a b n \<longleftrightarrow> take n a = take n b"

section \<open>Definitions\<close>

definition ASCIILINESZ :: nat where "ASCIILINESZ = 1024"

datatype line_status = LINE_UNPROCESSED | LINE_ERROR | LINE_EMPTY | LINE_COMMENT | LINE_SECTION | LINE_VALUE

definition strlwc :: "string \<Rightarrow> nat \<Rightarrow> string option" where
  "strlwc s len = (if len = 0 then None else Some (map c_tolower (take (len - 1) s)))"

definition strstrip :: "string \<Rightarrow> string" where
  "strstrip s = rev (dropWhile is_space (rev (dropWhile is_space s)))"

definition iniparser_set_error_callback :: "(string \<Rightarrow> 'w \<Rightarrow> 'w) \<Rightarrow> (string \<Rightarrow> 'w \<Rightarrow> 'w) option \<Rightarrow> string \<Rightarrow> 'w \<Rightarrow> 'w" where
  "iniparser_set_error_callback default_error_callback errback =
     (case errback of Some f \<Rightarrow> f | None \<Rightarrow> default_error_callback)"

subsection \<open>The accessors\<close>

text \<open>The slots in use, in the order of the arrays: the loops over the dictionary skip the others.\<close>

definition d_entries :: "dictionary \<Rightarrow> (string \<times> string option) list" where
  "d_entries d = List.map_filter (\<lambda>i. map_option (\<lambda>k. (k, d_val d ! i)) (d_key d ! i)) [0..<d_size d]"

definition iniparser_getnsec :: "dictionary option \<Rightarrow> int" where
  "iniparser_getnsec d =
     (case d of
        None \<Rightarrow> -1
      | Some d \<Rightarrow> foldl (\<lambda>nsec (k, v). if CHR '':'' \<in> set k then nsec else nsec + 1) 0 (d_entries d))"

text \<open>The search for a section, with the number of sections found so far.\<close>

fun find_section :: "int \<Rightarrow> int \<Rightarrow> (string \<times> string option) list \<Rightarrow> string option" where
  "find_section n foundsec [] = None"
| "find_section n foundsec ((k, v) # es) =
     (if CHR '':'' \<in> set k then find_section n foundsec es
      else if foundsec + 1 > n then Some k else find_section n (foundsec + 1) es)"

definition iniparser_getsecname :: "dictionary option \<Rightarrow> int \<Rightarrow> string option" where
  "iniparser_getsecname d n =
     (case d of None \<Rightarrow> None | Some d \<Rightarrow> if n < 0 then None else find_section n 0 (d_entries d))"

definition iniparser_dump :: "dictionary option \<Rightarrow> string" where
  "iniparser_dump d =
     (case d of
        None \<Rightarrow> []
      | Some d \<Rightarrow> concat (map (\<lambda>(k, v). case v of
            Some v \<Rightarrow> ''['' @ k @ '']=['' @ v @ '']'' @ [NL]
          | None \<Rightarrow> ''['' @ k @ '']=UNDEF'' @ [NL]) (d_entries d)))"

definition iniparser_getstring :: "dictionary option \<Rightarrow> string option \<Rightarrow> c_ptr \<Rightarrow> c_ptr option" where
  "iniparser_getstring d key def =
     (case (d, key) of
        (Some d, Some key) \<Rightarrow>
          do { lc_key \<leftarrow> strlwc key (ASCIILINESZ + 1);
               dictionary_get d lc_key def }
      | _ \<Rightarrow> Some def)"

definition iniparser_find_entry :: "dictionary option \<Rightarrow> string option \<Rightarrow> bool option" where
  "iniparser_find_entry ini entry =
     do { s \<leftarrow> iniparser_getstring ini entry Invalid; Some (s \<noteq> Invalid) }"

definition pad_right :: "nat \<Rightarrow> string \<Rightarrow> string" where
  "pad_right k s = s @ replicate (k - length s) (CHR '' '')"

definition iniparser_dumpsection_ini :: "dictionary option \<Rightarrow> string \<Rightarrow> string option" where
  "iniparser_dumpsection_ini d s =
     (case d of
        None \<Rightarrow> Some []
      | Some dict \<Rightarrow>
          do { found \<leftarrow> iniparser_find_entry d (Some s);
               if \<not> found then Some []
               else do {
                 let seclen = length s;
                 c_assert (seclen + 1 < ASCIILINESZ + 1);
                 let keym = s @ '':'';
                 Some ([NL] @ ''['' @ s @ '']'' @ [NL]
                   @ concat (map (\<lambda>(k, v). if strncmp_eq k keym (seclen + 1)
                        then pad_right 30 (drop (seclen + 1) k) @ '' = '' @ (case v of Some v \<Rightarrow> v | None \<Rightarrow> []) @ [NL]
                        else []) (d_entries dict))
                   @ [NL]) } })"

text \<open>Printing a null pointer as a string is undefined.\<close>

primrec dump_keys :: "(string \<times> string option) list \<Rightarrow> string option" where
  "dump_keys [] = Some []"
| "dump_keys (kv # es) =
     do { v \<leftarrow> snd kv; r \<leftarrow> dump_keys es; Some (fst kv @ '' = '' @ v @ [NL] @ r) }"

primrec dump_sections :: "dictionary option \<Rightarrow> nat list \<Rightarrow> string option" where
  "dump_sections d [] = Some []"
| "dump_sections d (i # is) =
     do { secname \<leftarrow> iniparser_getsecname d (int i);
          s \<leftarrow> iniparser_dumpsection_ini d secname;
          r \<leftarrow> dump_sections d is;
          Some (s @ r) }"

definition iniparser_dump_ini :: "dictionary option \<Rightarrow> string option" where
  "iniparser_dump_ini d =
     (case d of
        None \<Rightarrow> Some []
      | Some dict \<Rightarrow>
          (let nsec = iniparser_getnsec d
           in if nsec < 1 then dump_keys (d_entries dict)
              else do { r \<leftarrow> dump_sections d [0..<nat nsec]; Some (r @ [NL]) }))"

text \<open>The keys of a section, which are compared with the lower case section name followed by a colon.\<close>

definition section_keys :: "dictionary \<Rightarrow> string \<Rightarrow> string list option" where
  "section_keys d s =
     do { let seclen = length s;
          keym \<leftarrow> strlwc s (ASCIILINESZ + 1);
          c_assert (seclen < ASCIILINESZ + 1);
          let keym = take seclen keym @ '':'';
          Some (filter (\<lambda>k. strncmp_eq k keym (seclen + 1)) (map fst (d_entries d))) }"

definition iniparser_getsecnkeys :: "dictionary option \<Rightarrow> string \<Rightarrow> nat option" where
  "iniparser_getsecnkeys d s =
     (case d of
        None \<Rightarrow> Some 0
      | Some dict \<Rightarrow>
          do { found \<leftarrow> iniparser_find_entry d (Some s);
               if \<not> found then Some 0 else map_option length (section_keys dict s) })"

text \<open>The array of the caller has room for \<open>cap\<close> pointers.\<close>

definition iniparser_getseckeys :: "dictionary option \<Rightarrow> string \<Rightarrow> nat \<Rightarrow> string list option option" where
  "iniparser_getseckeys d s cap =
     (case d of
        None \<Rightarrow> Some None
      | Some dict \<Rightarrow>
          do { found \<leftarrow> iniparser_find_entry d (Some s);
               if \<not> found then Some None
               else do { keys \<leftarrow> section_keys dict s;
                         c_assert (length keys \<le> cap);
                         Some (Some keys) } })"

definition iniparser_getlongint :: "dictionary option \<Rightarrow> string option \<Rightarrow> int \<Rightarrow> int option" where
  "iniparser_getlongint d key notfound =
     do { str \<leftarrow> iniparser_getstring d key Invalid;
          (case str of Invalid \<Rightarrow> Some notfound | Str s \<Rightarrow> Some (strtol0 s) | Null \<Rightarrow> None) }"

definition iniparser_getint :: "dictionary option \<Rightarrow> string option \<Rightarrow> int \<Rightarrow> int option" where
  "iniparser_getint d key notfound =
     map_option (\<lambda>v. sint (word_of_int v :: u32)) (iniparser_getlongint d key notfound)"

definition iniparser_getboolean :: "dictionary option \<Rightarrow> string option \<Rightarrow> int \<Rightarrow> int option" where
  "iniparser_getboolean d key notfound =
     do { c \<leftarrow> iniparser_getstring d key Invalid;
          (case c of
             Invalid \<Rightarrow> Some notfound
           | Null \<Rightarrow> None
           | Str [] \<Rightarrow> Some notfound
           | Str (c # _) \<Rightarrow>
               if c \<in> {CHR ''y'', CHR ''Y'', CHR ''1'', CHR ''t'', CHR ''T''} then Some 1
               else if c \<in> {CHR ''n'', CHR ''N'', CHR ''0'', CHR ''f'', CHR ''F''} then Some 0
               else Some notfound) }"

definition iniparser_set :: "dictionary \<Rightarrow> string option \<Rightarrow> string option \<Rightarrow> (int \<times> dictionary) option" where
  "iniparser_set ini entry val =
     dictionary_set ini (Option.bind entry (\<lambda>e. strlwc e (ASCIILINESZ + 1))) val"

definition iniparser_unset :: "dictionary \<Rightarrow> string option \<Rightarrow> dictionary option" where
  "iniparser_unset ini entry =
     dictionary_unset ini (Option.bind entry (\<lambda>e. strlwc e (ASCIILINESZ + 1)))"
subsection \<open>A line\<close>

text \<open>The formats of the line parser.\<close>

definition fmt_section :: "scan_dir list" where
  "fmt_section = [Lit (CHR ''[''), Set (\<lambda>c. c \<noteq> CHR '']'')]"

definition fmt_dquoted :: "scan_dir list" where
  "fmt_dquoted = [Set (\<lambda>c. c \<noteq> CHR ''=''), Ws, Lit (CHR ''=''), Ws, Lit dquote, Set (\<lambda>c. c \<noteq> dquote), Lit dquote]"

definition fmt_squoted :: "scan_dir list" where
  "fmt_squoted = [Set (\<lambda>c. c \<noteq> CHR ''=''), Ws, Lit (CHR ''=''), Ws, Lit squote, Set (\<lambda>c. c \<noteq> squote), Lit squote]"

definition fmt_plain :: "scan_dir list" where
  "fmt_plain = [Set (\<lambda>c. c \<noteq> CHR ''=''), Ws, Lit (CHR ''=''), Ws, Set (\<lambda>c. c \<noteq> CHR '';'' \<and> c \<noteq> CHR ''#'')]"

definition fmt_comment_only :: "scan_dir list" where
  "fmt_comment_only = [Set (\<lambda>c. c \<noteq> CHR ''=''), Ws, Lit (CHR ''=''), Ws, Set (\<lambda>c. c = CHR '';'' \<or> c = CHR ''#'')]"

definition fmt_no_value :: "scan_dir list" where
  "fmt_no_value = [Set (\<lambda>c. c \<noteq> CHR ''=''), Ws, Set (\<lambda>c. c = CHR ''='')]"

text \<open>
  A conversion is stored in the buffer given for it, also when a later one fails: \<open>scan2\<close> returns the number of
  conversions and the new contents of the two buffers, each of \<open>ASCIILINESZ + 1\<close> characters.
\<close>

definition scan2 :: "scan_dir list \<Rightarrow> string \<Rightarrow> string \<Rightarrow> string \<Rightarrow> (nat \<times> string \<times> string) option" where
  "scan2 fmt line key value =
     (let r = sscanf fmt line
      in do { c_assert (list_all (\<lambda>s. length s < ASCIILINESZ + 1) r);
              Some (length r, if 1 \<le> length r then r ! 0 else key, if 2 \<le> length r then r ! 1 else value) })"

text \<open>The first of some formats that converts both strings.\<close>

primrec scan_any :: "scan_dir list list \<Rightarrow> string \<Rightarrow> string \<Rightarrow> string \<Rightarrow> (bool \<times> string \<times> string) option" where
  "scan_any [] line key value = Some (False, key, value)"
| "scan_any (fmt # fmts) line key value =
     do { (n, key, value) \<leftarrow> scan2 fmt line key value;
          if n = 2 then Some (True, key, value) else scan_any fmts line key value }"

definition iniparser_line ::
  "string \<Rightarrow> string \<Rightarrow> string \<Rightarrow> string \<Rightarrow> (line_status \<times> string \<times> string \<times> string) option" where
  "iniparser_line input_line section key value =
     (let line = strstrip input_line; len = length line
      in if len < 1 then Some (LINE_EMPTY, section, key, value)
         else if line ! 0 = CHR ''#'' \<or> line ! 0 = CHR '';'' then Some (LINE_COMMENT, section, key, value)
         else if line ! 0 = CHR ''['' \<and> line ! (len - 1) = CHR '']'' then
           do { (n, section, _) \<leftarrow> scan2 fmt_section line section [];
                let section = strstrip section;
                section \<leftarrow> strlwc section len;
                Some (LINE_SECTION, section, key, value) }
         else do {
           (quoted, key, value) \<leftarrow> scan_any [fmt_dquoted, fmt_squoted] line key value;
           if quoted then
             do { let key = strstrip key;
                  key \<leftarrow> strlwc key len;
                  Some (LINE_VALUE, section, key, value) }
           else do {
             (plain, key, value) \<leftarrow> scan_any [fmt_plain] line key value;
             if plain then
               do { let key = strstrip key;
                    key \<leftarrow> strlwc key len;
                    let value = strstrip value;
                    let value = (if value = [dquote, dquote] \<or> value = [squote, squote] then [] else value);
                    Some (LINE_VALUE, section, key, value) }
             else do {
               (special, key, value) \<leftarrow> scan_any [fmt_comment_only, fmt_no_value] line key value;
               if special then
                 do { let key = strstrip key;
                      key \<leftarrow> strlwc key len;
                      Some (LINE_VALUE, section, key, []) }
               else Some (LINE_ERROR, section, key, value) } } })"

subsection \<open>A file\<close>

text \<open>The local variables of the loop over the lines of a file.\<close>

record ini_state =
  i_in :: string
  i_line :: string
  i_last :: nat
  i_lineno :: nat
  i_errs :: nat
  i_mem_err :: int
  i_section :: string
  i_key :: string
  i_val :: string
  i_dict :: dictionary

text \<open>How an iteration ends: the loop goes on, it is left, or the function returns a null pointer.\<close>

datatype ini_next = Next | Break | Return_null

definition ini_parsed :: "(string \<Rightarrow> 'w \<Rightarrow> 'w) \<Rightarrow> string \<Rightarrow> ini_state \<Rightarrow> 'w \<Rightarrow> (ini_next \<times> ini_state \<times> 'w) option" where
  "ini_parsed cb ininame st w =
     do { (sta, section, key, val) \<leftarrow> iniparser_line (i_line st) (i_section st) (i_key st) (i_val st);
          let st = st\<lparr>i_section := section, i_key := key, i_val := val\<rparr>;
          (st, w) \<leftarrow> (case sta of
             LINE_SECTION \<Rightarrow>
               do { (e, dict) \<leftarrow> dictionary_set (i_dict st) (Some section) None;
                    Some (st\<lparr>i_mem_err := e, i_dict := dict\<rparr>, w) }
           | LINE_VALUE \<Rightarrow>
               do { let tmp = section @ '':'' @ key;
                    c_assert (length tmp < ASCIILINESZ * 2 + 2);
                    (e, dict) \<leftarrow> dictionary_set (i_dict st) (Some tmp) (Some val);
                    Some (st\<lparr>i_mem_err := e, i_dict := dict\<rparr>, w) }
           | LINE_ERROR \<Rightarrow>
               Some (st\<lparr>i_errs := i_errs st + 1\<rparr>,
                     cb (''iniparser: syntax error in '' @ ininame @ '' ('' @ fmt_u (i_lineno st) @ ''):'' @ [NL] @ ''-> ''
                         @ i_line st @ [NL]) w)
           | _ \<Rightarrow> Some (st, w));
          let st = st\<lparr>i_line := [], i_last := 0\<rparr>;
          if i_mem_err st < 0 then Some (Break, st, cb (''iniparser: memory allocation failure'' @ [NL]) w)
          else Some (Next, st, w) }"

definition ini_body ::
  "(string \<Rightarrow> 'w \<Rightarrow> 'w) \<Rightarrow> string \<Rightarrow> ini_state \<Rightarrow> string \<Rightarrow> bool \<Rightarrow> 'w \<Rightarrow> (ini_next \<times> ini_state \<times> 'w) option" where
  "ini_body cb ininame st buf eof w =
     (let line = takeWhile (\<lambda>c. c \<noteq> CHR 0x00) (take (i_last st) (i_line st) @ buf);
          st = st\<lparr>i_line := line, i_lineno := i_lineno st + 1\<rparr>;
          len = int (length line) - 1
      in if len \<le> 0 then Some (Next, st, w)
         else if last line \<noteq> NL \<and> \<not> eof then
           Some (Return_null, st,
                 cb (''iniparser: input line too long in '' @ ininame @ '' ('' @ fmt_u (i_lineno st) @ '')'' @ [NL]) w)
         else (let line = rev (dropWhile (\<lambda>c. c = NL \<or> is_space c) (rev line));
                   st = st\<lparr>i_line := line\<rparr>
               in if line \<noteq> [] \<and> last line = backslash then Some (Next, st\<lparr>i_last := length line - 1\<rparr>, w)
                  else ini_parsed cb ininame (st\<lparr>i_last := 0\<rparr>) w))"

partial_function (option) ini_loop ::
  "(string \<Rightarrow> 'w \<Rightarrow> 'w) \<Rightarrow> string \<Rightarrow> ini_state \<Rightarrow> 'w \<Rightarrow> (ini_state option \<times> 'w) option" where
  "ini_loop cb ininame st w =
     (case fgets (ASCIILINESZ - i_last st) (i_in st) of
        None \<Rightarrow> Some (Some st, w)
      | Some (buf, rest, eof) \<Rightarrow>
          do { (nx, st, w) \<leftarrow> ini_body cb ininame (st\<lparr>i_in := rest\<rparr>) buf eof w;
               (case nx of
                  Next \<Rightarrow> ini_loop cb ininame st w
                | Break \<Rightarrow> Some (Some st, w)
                | Return_null \<Rightarrow> Some (None, w)) })"

definition ini_init :: "string \<Rightarrow> ini_state" where
  "ini_init data =
     \<lparr>i_in = data, i_line = [], i_last = 0, i_lineno = 0, i_errs = 0, i_mem_err = 0, i_section = [], i_key = [], i_val = [],
      i_dict = dictionary_new 0\<rparr>"

text \<open>The contents of the file are an argument: \<open>None\<close> when it cannot be opened.\<close>

definition iniparser_load ::
  "(string \<Rightarrow> 'w \<Rightarrow> 'w) \<Rightarrow> string option \<Rightarrow> string \<Rightarrow> 'w \<Rightarrow> (dictionary option \<times> 'w) option" where
  "iniparser_load cb file ininame w =
     (case file of
        None \<Rightarrow> Some (None, cb (''iniparser: cannot open '' @ ininame @ [NL]) w)
      | Some data \<Rightarrow>
          do { (st, w) \<leftarrow> ini_loop cb ininame (ini_init data) w;
               (case st of
                  None \<Rightarrow> Some (None, w)
                | Some st \<Rightarrow> Some (if i_errs st \<noteq> 0 then None else Some (i_dict st), w)) })"

section \<open>The parser returns\<close>

lemma length_strstrip: "length (strstrip s) \<le> length s"
  by (metis strstrip_def length_dropWhile_le length_rev order_trans)

lemma length_strlwc: "strlwc s n = Some t \<Longrightarrow> length t \<le> length s"
  by (auto simp: strlwc_def split: if_splits)

lemma length_sscanf: "t \<in> set (sscanf fs s) \<Longrightarrow> length t \<le> length s"
proof (induction fs s rule: sscanf.induct)
  case (2 c fs s)
  then show ?case by (fastforce split: list.splits if_splits)
next
  case (3 fs s)
  then show ?case using length_dropWhile_le [of is_space s] by fastforce
next
  case (4 P fs s)
  then show ?case using length_dropWhile_le [of P s] length_takeWhile_le [of P s] by (fastforce split: if_splits)
qed simp

text \<open>A buffer that holds a string of a line.\<close>

definition fits :: "string \<Rightarrow> bool" where
  "fits s \<longleftrightarrow> length s < ASCIILINESZ"

lemma scan2_fits:
  assumes "fits line" "fits key" "fits value"
  shows "\<exists>n key' value'. scan2 fmt line key value = Some (n, key', value') \<and> fits key' \<and> fits value'"
proof -
  let ?r = "sscanf fmt line"
  have l: "length (?r ! i) < ASCIILINESZ" if "i < length ?r" for i
    using length_sscanf [OF nth_mem [OF that]] assms(1) by (simp add: fits_def)
  then have "list_all (\<lambda>s. length s < ASCIILINESZ + 1) ?r" by (simp add: list_all_length less_SucI)
  moreover have "1 \<le> length ?r \<Longrightarrow> length (?r ! 0) < ASCIILINESZ" "2 \<le> length ?r \<Longrightarrow> length (?r ! 1) < ASCIILINESZ"
    by (rule l, linarith)+
  ultimately show ?thesis using assms(2,3) by (simp add: scan2_def Let_def fits_def)
qed

lemma scan_any_fits:
  assumes "fits line"
  shows "fits key \<Longrightarrow> fits val
    \<Longrightarrow> \<exists>b key' value'. scan_any fmts line key val = Some (b, key', value') \<and> fits key' \<and> fits value'"
proof (induction fmts arbitrary: key val)
  case (Cons fmt fmts)
  obtain n key' value' where "scan2 fmt line key val = Some (n, key', value')" "fits key'" "fits value'"
    using scan2_fits [OF assms Cons.prems] by blast
  then show ?case using Cons.IH by (cases "n = 2") auto
qed auto

lemma fits_strstrip [simp]: "fits s \<Longrightarrow> fits (strstrip s)"
  using length_strstrip [of s] by (simp add: fits_def)

lemma strlwc_fits: "0 < n \<Longrightarrow> fits s \<Longrightarrow> \<exists>t. strlwc s n = Some t \<and> fits t"
  by (auto simp: strlwc_def fits_def)

lemma fits_Nil [simp]: "fits []"
  by (simp add: fits_def ASCIILINESZ_def)

lemma iniparser_line_fits:
  assumes "fits input" and B: "fits section" "fits key" "fits value"
  shows "\<exists>sta section' key' value'. iniparser_line input section key value = Some (sta, section', key', value')
     \<and> fits section' \<and> fits key' \<and> fits value'"
proof -
  let ?line = "strstrip input"
  have line: "fits ?line" using assms(1) by simp
  obtain n s1 x where s: "scan2 fmt_section ?line section [] = Some (n, s1, x)" "fits s1"
    using scan2_fits [OF line B(1) fits_Nil] by blast
  obtain b1 k1 v1 where 1: "scan_any [fmt_dquoted, fmt_squoted] ?line key value = Some (b1, k1, v1)" "fits k1" "fits v1"
    using scan_any_fits [OF line B(2,3)] by blast
  obtain b2 k2 v2 where 2: "scan_any [fmt_plain] ?line k1 v1 = Some (b2, k2, v2)" "fits k2" "fits v2"
    using scan_any_fits [OF line 1(2,3)] by blast
  obtain b3 k3 v3 where 3: "scan_any [fmt_comment_only, fmt_no_value] ?line k2 v2 = Some (b3, k3, v3)" "fits k3" "fits v3"
    using scan_any_fits [OF line 2(2,3)] by blast
  have lw: "\<exists>t. strlwc (strstrip k) (length ?line) = Some t \<and> fits t" if "fits k" "\<not> length ?line < 1" for k
    using strlwc_fits [of "length ?line" "strstrip k"] that by auto
  show ?thesis
    using B s 1 2 3 lw [OF s(2)] lw [OF 1(2)] lw [OF 2(2)] lw [OF 3(2)]
    by (auto simp: iniparser_line_def Let_def simp del: scan_any.simps)
qed

text \<open>The invariant of the loop.\<close>

definition ini_ok :: "ini_state \<Rightarrow> bool" where
  "ini_ok st \<longleftrightarrow> i_last st \<le> length (i_line st) \<and> i_last st + 1 < ASCIILINESZ \<and> i_mem_err st = 0
     \<and> CHR 0x00 \<notin> set (i_line st) \<and> fits (i_section st) \<and> fits (i_key st) \<and> fits (i_val st) \<and> dict_inv (i_dict st)"

lemma ini_parsed_ok:
  assumes "ini_ok st" "fits (i_line st)"
  shows "\<exists>st' w'. ini_parsed cb name st w = Some (Next, st', w') \<and> ini_ok st' \<and> i_in st' = i_in st"
proof -
  obtain sta s k v where l: "iniparser_line (i_line st) (i_section st) (i_key st) (i_val st) = Some (sta, s, k, v)"
    and f: "fits s" "fits k" "fits v"
    using iniparser_line_fits [OF assms(2)] assms(1) unfolding ini_ok_def by blast
  have D: "dict_inv (i_dict st)" using assms(1) by (simp add: ini_ok_def)
  have "length (s @ '':'' @ k) < ASCIILINESZ * 2 + 2" using f by (simp add: fits_def)
  then show ?thesis
    using l f assms(1) dict.set_law [OF D, of s None] dict.set_law [OF D, of "s @ '':'' @ k" "Some v"]
    by (cases sta) (auto simp: ini_parsed_def ini_ok_def Let_def ASCIILINESZ_def)
qed

lemma fgets_length:
  assumes "fgets n data = Some (buf, rest, eof)" "2 \<le> n"
  shows "length buf < n" "length rest < length data"
proof -
  let ?l = "takeWhile (\<lambda>c. c \<noteq> NL) (take (n - 1) data)"
  have "data \<noteq> []" using assms by (auto simp: fgets_def)
  then show "length buf < n" "length rest < length data"
    using assms length_takeWhile_le [of "\<lambda>c. c \<noteq> NL" "take (n - 1) data"]
    by (auto simp: fgets_def Let_def split: if_splits)
qed

lemma ini_body_ok:
  assumes "ini_ok st" "length buf < ASCIILINESZ - i_last st"
  shows "\<exists>nx st' w'. ini_body cb name st buf eof w = Some (nx, st', w') \<and> nx \<noteq> Break \<and> ini_ok st' \<and> i_in st' = i_in st"
proof -
  let ?line = "takeWhile (\<lambda>c. c \<noteq> CHR 0x00) (take (i_last st) (i_line st) @ buf)"
  let ?s = "rev (dropWhile (\<lambda>c. c = NL \<or> is_space c) (rev ?line))"
  have len: "length ?line < ASCIILINESZ"
    using length_takeWhile_le [of "\<lambda>c. c \<noteq> CHR 0x00" "take (i_last st) (i_line st) @ buf"] assms(2) by simp
  then have s: "length ?s < ASCIILINESZ"
    using length_dropWhile_le [of "\<lambda>c. c = NL \<or> is_space c" "rev ?line"] by simp
  have keep: "?line = take (i_last st) (i_line st) @ takeWhile (\<lambda>c. c \<noteq> CHR 0x00) buf"
    using assms(1) by (subst takeWhile_append2) (auto simp: ini_ok_def dest: in_set_takeD)
  have nul: "CHR 0x00 \<notin> set ?line" by (metis set_takeWhileD)
  have nul': "CHR 0x00 \<notin> set ?s" using nul by (auto dest: set_dropWhileD)
  let ?st = "st\<lparr>i_line := ?line, i_lineno := i_lineno st + 1\<rparr>"
  have next1: "ini_ok ?st" using assms(1) nul unfolding ini_ok_def keep by auto
  have next2: "ini_ok (?st\<lparr>i_line := ?s, i_last := length ?s - 1\<rparr>)" using assms(1) s nul' by (auto simp: ini_ok_def)
  have next3: "ini_ok (?st\<lparr>i_line := ?s, i_last := 0\<rparr>)" using assms(1) nul' by (auto simp: ini_ok_def ASCIILINESZ_def)
  obtain st' w' where "ini_parsed cb name (?st\<lparr>i_line := ?s, i_last := 0\<rparr>) w = Some (Next, st', w')" "ini_ok st'" "i_in st' = i_in st"
    using ini_parsed_ok [OF next3, of cb name w] s by (auto simp: fits_def)
  then show ?thesis using next1 next2 by (auto simp: ini_body_def Let_def)
qed

lemma ini_loop_returns:
  "ini_ok st \<Longrightarrow> \<exists>r w'. ini_loop cb name st w = Some (r, w') \<and> (\<forall>st'. r = Some st' \<longrightarrow> ini_ok st')"
proof (induction "length (i_in st)" arbitrary: st w rule: less_induct)
  case less
  show ?case
  proof (cases "fgets (ASCIILINESZ - i_last st) (i_in st)")
    case None
    then show ?thesis using less.prems by (simp add: ini_loop.simps [of _ _ st])
  next
    case (Some x)
    obtain buf rest eof where x: "x = (buf, rest, eof)" by (cases x)
    have "2 \<le> ASCIILINESZ - i_last st" using less.prems by (auto simp: ini_ok_def)
    note len = fgets_length [OF Some [unfolded x] this]
    have "ini_ok (st\<lparr>i_in := rest\<rparr>)" using less.prems by (simp add: ini_ok_def)
    then obtain nx st' w' where b: "ini_body cb name (st\<lparr>i_in := rest\<rparr>) buf eof w = Some (nx, st', w')" "nx \<noteq> Break"
        "ini_ok st'" "i_in st' = rest"
      using ini_body_ok [of "st\<lparr>i_in := rest\<rparr>" buf cb name eof w] len(1) by auto
    show ?thesis
      using b Some x less.hyps [of st' w'] len(2) by (cases nx) (auto simp: ini_loop.simps [of _ _ st])
  qed
qed

lemma ini_init_ok: "ini_ok (ini_init data)"
  using dictionary_new_empty(1) [of 0] by (simp add: ini_ok_def ini_init_def ASCIILINESZ_def)

text \<open>
  (C30) The parser of configuration files terminates on every file, whatever it contains, without writing beyond one of
  its line buffers, and a dictionary it returns is well-formed.
\<close>

theorem iniparser_load_returns:
  "\<exists>r w'. iniparser_load cb file name w = Some (r, w') \<and> (case r of None \<Rightarrow> True | Some d \<Rightarrow> dict_inv d)"
proof (cases "file")
  case (Some data)
  then show ?thesis
    using ini_loop_returns [OF ini_init_ok, of cb name data w]
    by (fastforce simp: iniparser_load_def ini_ok_def split: option.splits)
qed (simp add: iniparser_load_def)

text \<open>What is read from a file depends neither on its name nor on what becomes of the messages.\<close>

lemma ini_parsed_any:
  "map_option (\<lambda>(nx, st, w). (nx, st)) (ini_parsed cb n st w) = map_option (\<lambda>(nx, st, w). (nx, st)) (ini_parsed cb' n' st w')"
  by (auto simp: ini_parsed_def Let_def map_option_case split: option.splits line_status.splits bind_splits prod.splits)

lemma ini_body_any:
  "map_option (\<lambda>(nx, st, w). (nx, st)) (ini_body cb n st buf eof w) = map_option (\<lambda>(nx, st, w). (nx, st)) (ini_body cb' n' st buf eof w')"
  using ini_parsed_any [of cb n _ w cb' n' w'] unfolding ini_body_def Let_def by auto

lemma ini_loop_any:
  "ini_ok st \<Longrightarrow> \<exists>r w1 w2. ini_loop cb n st w = Some (r, w1) \<and> ini_loop cb' n' st w' = Some (r, w2)"
proof (induction "length (i_in st)" arbitrary: st w w' rule: less_induct)
  case less
  show ?case
  proof (cases "fgets (ASCIILINESZ - i_last st) (i_in st)")
    case None
    then show ?thesis by (simp add: ini_loop.simps [of _ _ st])
  next
    case (Some x)
    obtain buf rest eof where x: "x = (buf, rest, eof)" by (cases x)
    have "2 \<le> ASCIILINESZ - i_last st" using less.prems by (auto simp: ini_ok_def)
    note len = fgets_length [OF Some [unfolded x] this]
    have "ini_ok (st\<lparr>i_in := rest\<rparr>)" using less.prems by (simp add: ini_ok_def)
    then obtain nx st' w1 where b: "ini_body cb n (st\<lparr>i_in := rest\<rparr>) buf eof w = Some (nx, st', w1)" "nx \<noteq> Break"
        "ini_ok st'" "i_in st' = rest"
      using ini_body_ok [of "st\<lparr>i_in := rest\<rparr>" buf cb n eof w] len(1) by auto
    obtain w2 where b': "ini_body cb' n' (st\<lparr>i_in := rest\<rparr>) buf eof w' = Some (nx, st', w2)"
      using ini_body_any [of cb n "st\<lparr>i_in := rest\<rparr>" buf eof w cb' n' w'] b(1)
      by (cases "ini_body cb' n' (st\<lparr>i_in := rest\<rparr>) buf eof w'") auto
    show ?thesis
      using b b' Some x less.hyps [of st' w1 w2] len(2) by (cases nx) (auto simp: ini_loop.simps [of _ _ st])
  qed
qed

text \<open>The dictionary that is read from a file; none from an absent file or one that is rejected.\<close>

definition ini_content :: "string option \<Rightarrow> dictionary option" where
  "ini_content file = (case iniparser_load (\<lambda>_ w. w) file [] () of Some (ini, _) \<Rightarrow> ini | None \<Rightarrow> None)"

lemma load_content: "\<exists>w'. iniparser_load cb file name w = Some (ini_content file, w')"
proof (cases "file")
  case (Some data)
  then show ?thesis
    using ini_loop_any [OF ini_init_ok [of data], of cb name w "\<lambda>_ w. w" "[]" "()"]
    by (auto simp: ini_content_def iniparser_load_def split: option.splits)
qed (simp add: ini_content_def iniparser_load_def)

lemma content_inv: "ini_content file = Some d \<Longrightarrow> dict_inv d"
proof (cases "file")
  case (Some data)
  then show "ini_content file = Some d \<Longrightarrow> dict_inv d"
    using ini_loop_returns [OF ini_init_ok [of data], of "\<lambda>_ w. w" "[]" "()"]
    by (auto simp: ini_content_def iniparser_load_def ini_ok_def split: option.splits if_splits)
qed (simp add: ini_content_def iniparser_load_def)

section \<open>Lines of a file\<close>

lemma fgets_line:
  assumes "NL \<notin> set l" "Suc (length l) < n"
  shows "fgets n (l @ NL # rest) = Some (l @ [NL], rest, False)"
proof -
  have *: "takeWhile (\<lambda>c. c \<noteq> NL) l = l" using assms(1) by (auto simp: takeWhile_eq_all_conv)
  have "take (n - 1) (l @ NL # rest) = l @ NL # take (n - 2 - length l) rest"
    using assms(2) by (simp add: take_Cons' Suc_diff_le)
  moreover have "takeWhile (\<lambda>c. c \<noteq> NL) (l @ NL # take (n - 2 - length l) rest) = l"
    using assms(1) * by (subst takeWhile_append2) auto
  ultimately show ?thesis using assms by (simp add: fgets_def Let_def)
qed

text \<open>A line the loop hands to the parser as it is.\<close>

definition plain_line :: "string \<Rightarrow> bool" where
  "plain_line l \<longleftrightarrow> NL \<notin> set l \<and> CHR 0x00 \<notin> set l \<and> length l + 2 < ASCIILINESZ
     \<and> (let s = rev (dropWhile is_space (rev l)) in s = [] \<or> last s \<noteq> backslash)"

lemma strip_eq: "(\<lambda>c. c = NL \<or> is_space c) = is_space"
  by (auto simp: is_space_def fun_eq_iff)

lemma is_space_NL [simp]: "is_space NL"
  by (simp add: is_space_def)

lemma ini_loop_line:
  assumes "plain_line l" "i_last st = 0" "i_in st = l @ NL # rest" "l \<noteq> []"
  shows "ini_loop cb name st w =
    do { (nx, st, w) \<leftarrow> ini_parsed cb name
           (st\<lparr>i_in := rest, i_lineno := i_lineno st + 1, i_line := rev (dropWhile is_space (rev l)), i_last := 0\<rparr>) w;
         (case nx of
            Next \<Rightarrow> ini_loop cb name st w
          | Break \<Rightarrow> Some (Some st, w)
          | Return_null \<Rightarrow> Some (None, w)) }"
proof -
  have f: "fgets ASCIILINESZ (l @ NL # rest) = Some (l @ [NL], rest, False)"
    using assms(1) by (intro fgets_line) (auto simp: plain_line_def)
  have t: "takeWhile (\<lambda>c. c \<noteq> CHR 0x00) (l @ [NL]) = l @ [NL]"
    using assms(1) by (auto simp: takeWhile_eq_all_conv plain_line_def)
  show ?thesis
    apply (subst ini_loop.simps)
    using assms f t by (auto simp: ini_body_def Let_def strip_eq plain_line_def)
qed

lemma ini_loop_empty_line:
  assumes "i_last st = 0" "i_in st = NL # rest"
  shows "ini_loop cb name st w = ini_loop cb name (st\<lparr>i_in := rest, i_line := [NL], i_lineno := i_lineno st + 1\<rparr>) w"
proof -
  have f: "fgets ASCIILINESZ (NL # rest) = Some ([NL], rest, False)"
    using fgets_line [of "[]" ASCIILINESZ rest] by (simp add: ASCIILINESZ_def)
  show ?thesis
    apply (subst ini_loop.simps)
    using assms f by (simp add: ini_body_def Let_def)
qed

section \<open>Entries and sections\<close>

definition trimmed :: "string \<Rightarrow> bool" where
  "trimmed s \<longleftrightarrow> (s = [] \<or> \<not> is_space (hd s) \<and> \<not> is_space (last s))"

lemma strstrip_trimmed:
  assumes "trimmed s" "list_all is_space t"
  shows "strstrip (s @ t) = s"
proof (cases "s = []")
  case True
  then show ?thesis using assms(2) by (auto simp: strstrip_def list_all_iff dest: set_dropWhileD)
next
  case False
  then have d: "dropWhile is_space (s @ t) = s @ t"
    using assms(1) by (cases s) (auto simp: trimmed_def)
  have "dropWhile is_space (rev t @ rev s) = dropWhile is_space (rev s)"
    using assms(2) by (intro dropWhile_append2) (auto simp: list_all_iff)
  moreover have "dropWhile is_space (rev s) = rev s"
    using assms(1) False by (cases s rule: rev_cases) (auto simp: trimmed_def)
  ultimately show ?thesis using d by (simp add: strstrip_def)
qed

lemmas strstrip_id = strstrip_trimmed [where t = "[]", simplified]

lemma rstrip_trimmed:
  assumes "trimmed s" "list_all is_space t"
  shows "rev (dropWhile is_space (rev (s @ t))) = s"
proof -
  have "dropWhile is_space (rev t @ rev s) = dropWhile is_space (rev s)"
    using assms(2) by (intro dropWhile_append2) (auto simp: list_all_iff)
  moreover have "dropWhile is_space (rev s) = rev s"
    using assms(1) by (cases s rule: rev_cases) (auto simp: trimmed_def)
  ultimately show ?thesis by simp
qed

definition lower :: "string \<Rightarrow> bool" where
  "lower s \<longleftrightarrow> map c_tolower s = s"

definition wf_section :: "string \<Rightarrow> bool" where
  "wf_section s \<longleftrightarrow> s \<noteq> [] \<and> trimmed s \<and> lower s \<and> length s + 4 < ASCIILINESZ
     \<and> set s \<inter> {CHR '']'', CHR '':'', NL, CHR 0x00} = {}"

definition wf_key :: "string \<Rightarrow> bool" where
  "wf_key k \<longleftrightarrow> k \<noteq> [] \<and> trimmed k \<and> lower k \<and> hd k \<notin> {CHR ''#'', CHR '';'', CHR ''[''}
     \<and> set k \<inter> {CHR ''='', NL, CHR 0x00} = {}"

definition wf_value :: "string \<Rightarrow> bool" where
  "wf_value v \<longleftrightarrow> trimmed v \<and> set v \<inter> {CHR '';'', CHR ''#'', NL, CHR 0x00} = {}
     \<and> (v = [] \<or> hd v \<notin> {dquote, squote} \<and> last v \<noteq> backslash)"

lemma strlwc_lower: "lower s \<Longrightarrow> length s < n \<Longrightarrow> strlwc s n = Some s"
  by (simp add: strlwc_def lower_def)

lemma takeWhile_stop: "list_all P xs \<Longrightarrow> \<not> P y \<Longrightarrow> takeWhile P (xs @ y # ys) = xs"
  "list_all P xs \<Longrightarrow> \<not> P y \<Longrightarrow> dropWhile P (xs @ y # ys) = y # ys"
  by (induction xs) auto

lemma iniparser_line_section:
  assumes "wf_section s"
  shows "iniparser_line (''['' @ s @ '']'') section key val = Some (LINE_SECTION, s, key, val)"
proof -
  let ?l = "CHR ''['' # s @ '']''"
  have l: "strstrip ?l = ?l" by (rule strstrip_id) (simp add: trimmed_def is_space_def)
  have "CHR '']'' \<notin> set s" using assms by (simp add: wf_section_def)
  then have "list_all (\<lambda>c. c \<noteq> CHR '']'') s" by (induction s) auto
  note scan = takeWhile_stop [OF this, of "CHR '']''" "[]"]
  have "s \<noteq> []" "length s < ASCIILINESZ + 1" using assms by (simp_all add: wf_section_def)
  then have "sscanf fmt_section ?l = [s]" using scan by (simp add: fmt_section_def)
  then have "scan2 fmt_section ?l section [] = Some (1, s, [])"
    using \<open>length s < ASCIILINESZ + 1\<close> by (simp add: scan2_def)
  moreover have "strstrip s = s" "lower s" using assms by (simp_all add: strstrip_id wf_section_def)
  ultimately show ?thesis using l by (simp add: iniparser_line_def Let_def nth_append strlwc_lower)
qed

lemma sscanf_key:
  assumes "CHR ''='' \<notin> set ks" "ks \<noteq> []"
  shows "sscanf (Set (\<lambda>c. c \<noteq> CHR ''='') # Ws # fs) (ks @ CHR ''='' # r) = ks # sscanf fs (CHR ''='' # r)"
proof -
  have "list_all (\<lambda>c. c \<noteq> CHR ''='') ks" using assms(1) by (induction ks) auto
  from takeWhile_stop [OF this, of "CHR ''=''" r] show ?thesis using assms(2) by (simp add: is_space_def)
qed

lemma iniparser_line_value:
  assumes K: "wf_key k" and V: "wf_value v" and sp: "list_all is_space sp"
    and len: "length k + length sp + length v + 2 < ASCIILINESZ"
  shows "iniparser_line (k @ sp @ ''= '' @ v) section key val = Some (LINE_VALUE, section, k, v)"
proof -
  let ?ks = "k @ sp"
  let ?l = "?ks @ (if v = [] then ''='' else ''= '' @ v)"
  have k: "k \<noteq> []" "trimmed k" "lower k" "hd k \<notin> {CHR ''#'', CHR '';'', CHR ''[''}" "CHR ''='' \<notin> set k"
    using K by (auto simp: wf_key_def)
  have v: "trimmed v" "set v \<inter> {CHR '';'', CHR ''#''} = {}" "v = [] \<or> hd v \<notin> {dquote, squote}"
    using V by (auto simp: wf_value_def)
  have ks: "CHR ''='' \<notin> set ?ks" "?ks \<noteq> []" using k(1,5) sp by (auto simp: list_all_iff is_space_def)
  have "trimmed ?l" using k(1,2) v(1) by (auto simp: trimmed_def is_space_def)
  from strstrip_trimmed [OF this, of "if v = [] then '' '' else []"]
  have strip: "strstrip (k @ sp @ ''= '' @ v) = ?l" by (auto simp: is_space_def)
  have nospace: "dropWhile is_space v = v" using v(1) by (cases v) (auto simp: trimmed_def)
  have all: "takeWhile (\<lambda>c. c \<noteq> CHR '';'' \<and> c \<noteq> CHR ''#'') v = v" using v(2) by (auto simp: takeWhile_eq_all_conv)
  have l0: "?l ! 0 = hd k" "?l \<noteq> []" using k(1) by (auto simp: nth_append hd_conv_nth)
  have sp': "is_space (CHR '' '')" by (simp add: is_space_def)
  have scan: "sscanf (Set (\<lambda>c. c \<noteq> CHR ''='') # Ws # Lit (CHR ''='') # Ws # fs) ?l = ?ks # sscanf fs v"
    "sscanf [Set (\<lambda>c. c \<noteq> CHR ''=''), Ws, Set (\<lambda>c. c = CHR ''='')] ?l = [?ks, ''='']" for fs
    using sscanf_key [OF ks, of "Lit (CHR ''='') # Ws # fs"] sscanf_key [OF ks, of "[Set (\<lambda>c. c = CHR ''='')]"] nospace sp'
    by (cases "v = []"; simp)+
  have q: "sscanf fmt_dquoted ?l = [?ks]" "sscanf fmt_squoted ?l = [?ks]"
    using nospace v(3) unfolding fmt_dquoted_def fmt_squoted_def scan
    by (cases v; simp)+
  have p: "sscanf fmt_plain ?l = (if v = [] then [?ks] else [?ks, v])"
    using nospace all unfolding fmt_plain_def scan by (cases v; simp)
  have s: "v = [] \<Longrightarrow> sscanf fmt_comment_only ?l = [?ks]" "v = [] \<Longrightarrow> sscanf fmt_no_value ?l = [?ks, ''='']"
    unfolding fmt_comment_only_def fmt_no_value_def scan by simp_all
  have b: "length k + length sp < ASCIILINESZ + 1" "length v < ASCIILINESZ + 1" "Suc 0 < ASCIILINESZ + 1" using len by simp_all
  have key: "strstrip ?ks = k" "strlwc k (length ?l) = Some k" using strstrip_trimmed [OF k(2) sp] strlwc_lower [OF k(3)] by auto
  define L where "L = ?l"
  have any: "scan_any [fmt_dquoted, fmt_squoted] L key val = Some (False, ?ks, val)"
    "scan_any [fmt_plain] L ?ks val = Some (v \<noteq> [], ?ks, if v = [] then val else v)"
    "v = [] \<Longrightarrow> scan_any [fmt_comment_only, fmt_no_value] L ?ks val = Some (True, ?ks, ''='')"
    using q p s b unfolding L_def [symmetric] by (simp_all add: scan2_def)
  have v0: "v \<noteq> [dquote, dquote]" "v \<noteq> [squote, squote]" "strstrip v = v" using v(1,3) strstrip_id by auto
  show ?thesis
    using l0 k(4) any key v0 unfolding iniparser_line_def strip L_def [symmetric]
    by (cases "v = []") (simp_all add: Let_def del: scan_any.simps)
qed

section \<open>Loading a printed dictionary\<close>

text \<open>The loop is at the start of a line, with the rest of the file, the current section and the entries so far.\<close>

definition ini_at :: "ini_state \<Rightarrow> string \<Rightarrow> string \<Rightarrow> (string \<Rightarrow> string option option) \<Rightarrow> bool" where
  "ini_at st rest sec m \<longleftrightarrow> ini_ok st \<and> i_last st = 0 \<and> i_errs st = 0 \<and> i_in st = rest \<and> i_section st = sec
     \<and> dict_map (i_dict st) = m"

lemma load_empty_line:
  assumes "ini_at st (NL # rest) sec m"
  shows "\<exists>st'. ini_loop cb name st w = ini_loop cb name st' w \<and> ini_at st' rest sec m"
  using assms ini_loop_empty_line [of st rest cb name w] by (auto simp: ini_at_def ini_ok_def)

lemma load_comment_line:
  assumes A: "ini_at st ((CHR ''#'' # c) @ NL # rest) sec m" and p: "plain_line (CHR ''#'' # c)"
  shows "\<exists>st'. ini_loop cb name st w = ini_loop cb name st' w \<and> ini_at st' rest sec m"
proof -
  let ?l = "CHR ''#'' # c" and ?r = "CHR ''#'' # rev (dropWhile is_space (rev c))"
  have st: "i_last st = 0" "i_errs st = 0" "i_section st = sec" "dict_map (i_dict st) = m" "i_in st = ?l @ NL # rest" "ini_ok st"
    using A by (auto simp: ini_at_def)
  have r: "rev (dropWhile is_space (rev ?l)) = ?r" by (simp add: dropWhile_append3 is_space_def)
  have "strstrip ?r = ?r" by (simp add: strstrip_def dropWhile_append3 is_space_def dropWhile_idem)
  then have "iniparser_line ?r x y z = Some (LINE_COMMENT, x, y, z)" for x y z
    by (simp add: iniparser_line_def)
  then show ?thesis
    using ini_loop_line [OF p st(1,5), of cb name w] r st
    by (auto simp: ini_parsed_def ini_at_def ini_ok_def)
qed

lemma load_section_line:
  assumes A: "ini_at st (''['' @ s @ '']'' @ NL # rest) sec m" and S: "wf_section s"
  shows "\<exists>st'. ini_loop cb name st w = ini_loop cb name st' w \<and> ini_at st' rest s (m(s \<mapsto> None))"
proof -
  let ?l = "''['' @ s @ '']''"
  have st: "i_last st = 0" "i_errs st = 0" "i_section st = sec" "dict_map (i_dict st) = m" "i_in st = ?l @ NL # rest" "ini_ok st"
    using A by (auto simp: ini_at_def)
  have t: "trimmed ?l" by (simp add: trimmed_def is_space_def)
  note r = rstrip_trimmed [OF t, of "[]", simplified]
  have p: "plain_line ?l" using S r by (auto simp: plain_line_def wf_section_def)
  obtain d where d: "dictionary_set (i_dict st) (Some s) None = Some (0, d)" "dict_inv d" "dict_map d = m(s \<mapsto> None)"
    using dict.set_law [of "i_dict st" s None] st by (auto simp: ini_ok_def)
  have "fits s" using S by (simp add: wf_section_def fits_def)
  then show ?thesis
    using ini_loop_line [OF p st(1,5), of cb name w] r iniparser_line_section [OF S] st d
    by (auto simp: ini_parsed_def ini_at_def ini_ok_def)
qed

lemma load_value_line:
  assumes A: "ini_at st (k @ sp @ ''= '' @ v @ NL # rest) sec m" and K: "wf_key k" and V: "wf_value v"
    and sp: "list_all is_space sp" "NL \<notin> set sp" "CHR 0x00 \<notin> set sp" and len: "length k + length sp + length v + 4 < ASCIILINESZ"
  shows "\<exists>st'. ini_loop cb name st w = ini_loop cb name st' w \<and> ini_at st' rest sec (m(sec @ '':'' @ k \<mapsto> Some v))"
proof -
  let ?l = "k @ sp @ ''= '' @ v"
  let ?s = "k @ sp @ (if v = [] then ''='' else ''= '' @ v)"
  have st: "i_last st = 0" "i_errs st = 0" "i_section st = sec" "dict_map (i_dict st) = m" "i_in st = ?l @ NL # rest" "ini_ok st"
    using A by (auto simp: ini_at_def)
  have "k \<noteq> []" "trimmed k" "trimmed v" using K V by (auto simp: wf_key_def wf_value_def)
  then have t: "trimmed ?s" by (auto simp: trimmed_def is_space_def)
  from rstrip_trimmed [OF t, of "if v = [] then '' '' else []"]
  have r: "rev (dropWhile is_space (rev ?l)) = ?s" by (auto simp: is_space_def)
  have "last ?s \<noteq> backslash" using V by (auto simp: wf_value_def)
  then have p: "plain_line ?l" using K V sp len r by (auto simp: plain_line_def wf_key_def wf_value_def)
  from strstrip_trimmed [OF t, of "if v = [] then '' '' else []"] have "strstrip ?l = strstrip ?s"
    using strstrip_id [OF t] by (auto simp: is_space_def)
  then have e: "iniparser_line ?s x y z = Some (LINE_VALUE, x, k, v)" for x y z
    using iniparser_line_value [OF K V sp(1), of x y z] len by (simp add: iniparser_line_def)
  obtain d where d: "dictionary_set (i_dict st) (Some (sec @ '':'' @ k)) (Some v) = Some (0, d)" "dict_inv d"
     "dict_map d = m(sec @ '':'' @ k \<mapsto> Some v)"
    using dict.set_law [of "i_dict st" "sec @ '':'' @ k" "Some v"] st by (auto simp: ini_ok_def)
  have "fits k" "fits v" "fits sec" using len st by (simp_all add: fits_def ini_ok_def)
  moreover from this have "length (sec @ '':'' @ k) < ASCIILINESZ * 2 + 2" by (simp add: fits_def)
  ultimately show ?thesis
    using ini_loop_line [OF p st(1,5), of cb name w] r e st d \<open>k \<noteq> []\<close>
    by (auto simp: ini_parsed_def ini_at_def ini_ok_def)
qed

lemma d_entries_mem:
  assumes "dict_inv d"
  shows "(k, v) \<in> set (d_entries d) \<longleftrightarrow> dict_map d k = Some v"
  unfolding dict_map_Some [OF assms] d_entries_def List.map_filter_def by force

lemma d_entries_distinct:
  assumes "dict_inv d"
  shows "distinct (map fst (d_entries d))"
proof -
  have uniq: "i = j" if "i < d_size d" "j < d_size d" "d_key d ! i = Some k" "d_key d ! j = Some k" for i j k
    using assms that unfolding dict_inv_def by blast
  have "map fst (d_entries d) = map (\<lambda>i. the (d_key d ! i)) (filter (\<lambda>i. d_key d ! i \<noteq> None) [0..<d_size d])"
    by (auto simp: d_entries_def List.map_filter_def comp_def intro!: map_cong filter_cong)
  then show ?thesis by (auto simp: distinct_map inj_on_def intro: uniq)
qed

lemma dict_map_entries: "dict_inv d \<Longrightarrow> dict_map d = map_of (d_entries d)"
  by (rule map_eqI_Some) (simp add: d_entries_distinct d_entries_mem)

text \<open>Inserting the entries of a list in another order, some of them several times.\<close>

definition upds :: "(string \<times> string option) list \<Rightarrow> (string \<Rightarrow> string option option) \<Rightarrow> string \<Rightarrow> string option option" where
  "upds U m = fold (\<lambda>(k, v) m. m(k \<mapsto> v)) U m"

lemma upds_simps [simp]:
  "upds [] m = m" "upds ((k, v) # U) m = upds U (m(k \<mapsto> v))" "upds (U @ U') m = upds U' (upds U m)"
  by (simp_all add: upds_def)

lemma upds_map_of: "upds U m = m ++ map_of (rev U)"
  by (induction U arbitrary: m) auto

lemma upds_same_set:
  assumes "set U = set E" "distinct (map fst E)"
  shows "upds U (\<lambda>_. None) = map_of E"
proof (rule map_eqI_Some)
  fix k v
  have mem: "map_of E k = Some v \<longleftrightarrow> (k, v) \<in> set U" for v
    unfolding assms(1) using map_of_eq_Some_iff [OF assms(2)] .
  have "map_of (rev U) k = Some v \<longleftrightarrow> map_of E k = Some v"
  proof
    assume "map_of (rev U) k = Some v"
    then have "(k, v) \<in> set U" by (auto dest: map_of_SomeD)
    then show "map_of E k = Some v" by (simp only: mem)
  next
    assume *: "map_of E k = Some v"
    then have "(k, v) \<in> set (rev U)" by (simp only: mem set_rev)
    then obtain v' where v': "map_of (rev U) k = Some v'" by (metis weak_map_of_SomeI)
    then have "(k, v') \<in> set U" by (auto dest: map_of_SomeD)
    then have "map_of E k = Some v'" by (simp only: mem)
    then show "map_of (rev U) k = Some v" using * v' by simp
  qed
  then show "upds U (\<lambda>_. None) k = Some v \<longleftrightarrow> map_of E k = Some v" by (simp add: upds_map_of map_add_def split: option.splits)
qed

text \<open>The sections of a dictionary in the order of the slots.\<close>

definition sections :: "dictionary \<Rightarrow> string list" where
  "sections d = filter (\<lambda>k. CHR '':'' \<notin> set k) (map fst (d_entries d))"

lemma getnsec_sections: "iniparser_getnsec (Some d) = int (length (sections d))"
proof -
  have "foldl (\<lambda>nsec (k, v). if CHR '':'' \<in> set k then nsec else nsec + 1) n es
     = n + int (length (filter (\<lambda>k. CHR '':'' \<notin> set k) (map fst es)))" for n es
    by (induction es arbitrary: n) auto
  from this [of 0] show ?thesis by (simp add: iniparser_getnsec_def sections_def)
qed

lemma getsecname_sections:
  assumes "i < length (sections d)"
  shows "iniparser_getsecname (Some d) (int i) = Some (sections d ! i)"
proof -
  have "i < length (filter (\<lambda>k. CHR '':'' \<notin> set k) (map fst es))
     \<Longrightarrow> find_section (int f + int i) (int f) es = Some (filter (\<lambda>k. CHR '':'' \<notin> set k) (map fst es) ! i)" for f es
  proof (induction es arbitrary: f i)
    case (Cons e es)
    show ?case
    proof (cases "CHR '':'' \<in> set (fst e)")
      case True
      then show ?thesis using Cons.IH [of i f] Cons.prems by (cases e) simp
    next
      case False
      then show ?thesis
        using Cons.IH [of "i - 1" "Suc f"] Cons.prems by (cases e; cases i) (auto simp: algebra_simps)
    qed
  qed simp
  from this [of "d_entries d" 0] show ?thesis using assms by (simp add: iniparser_getsecname_def sections_def)
qed

text \<open>
  A dictionary as a configuration file describes it: its keys are sections, with a null value, or entries of one of its
  sections, and everything can be written on one line.
\<close>

definition wf_entry :: "dictionary \<Rightarrow> string \<times> string option \<Rightarrow> bool" where
  "wf_entry d e =
     (let (k, v) = e; s = takeWhile (\<lambda>c. c \<noteq> CHR '':'') k; key = drop (length s + 1) k
      in if CHR '':'' \<notin> set k then wf_section k \<and> v = None
         else (s, None) \<in> set (d_entries d) \<and> wf_key key
           \<and> (case v of None \<Rightarrow> False | Some v \<Rightarrow> wf_value v \<and> max 30 (length key) + length v + 5 < ASCIILINESZ))"

definition ini_wf :: "dictionary \<Rightarrow> bool" where
  "ini_wf d = list_all (wf_entry d) (d_entries d)"

definition of_section :: "string \<Rightarrow> string \<times> string option \<Rightarrow> bool" where
  "of_section s e \<longleftrightarrow> take (length s + 1) (fst e) = s @ '':''"

definition entry_line :: "string \<Rightarrow> string \<times> string option \<Rightarrow> string" where
  "entry_line s e = pad_right 30 (drop (length s + 1) (fst e)) @ '' = '' @ (case snd e of Some v \<Rightarrow> v | None \<Rightarrow> []) @ [NL]"

lemma of_section_split:
  assumes "of_section s (k, v)" "CHR '':'' \<notin> set s"
  shows "takeWhile (\<lambda>c. c \<noteq> CHR '':'') k = s" "k = s @ '':'' @ drop (length s + 1) k"
proof -
  show k: "k = s @ '':'' @ drop (length s + 1) k"
    using assms(1) append_take_drop_id [of "length s + 1" k] by (simp add: of_section_def)
  have "takeWhile (\<lambda>c. c \<noteq> CHR '':'') (s @ CHR '':'' # drop (length s + 1) k) = s"
    using assms(2) by (intro takeWhile_stop) (auto simp: list_all_iff)
  then show "takeWhile (\<lambda>c. c \<noteq> CHR '':'') k = s" using k by simp
qed

lemma wf_section_entry:
  assumes "ini_wf d" "s \<in> set (sections d)"
  shows "wf_section s" "(s, None) \<in> set (d_entries d)" "CHR '':'' \<notin> set s"
  using assms by (auto simp: ini_wf_def list_all_iff sections_def wf_entry_def Let_def split: if_splits)

lemma wf_value_entry:
  assumes "ini_wf d" "e \<in> set (d_entries d)" "of_section s e" "CHR '':'' \<notin> set s"
  obtains v where "snd e = Some v" "wf_value v" "wf_key (drop (length s + 1) (fst e))"
    "max 30 (length (drop (length s + 1) (fst e))) + length v + 5 < ASCIILINESZ"
proof -
  obtain k val where e: "e = (k, val)" by (cases e)
  note k = of_section_split [OF assms(3) [unfolded e] assms(4)]
  have "CHR '':'' \<in> set k" by (subst k(2)) simp
  moreover have "wf_entry d (k, val)" using assms(1,2) e by (simp add: ini_wf_def list_all_iff)
  ultimately show ?thesis using that k(1) e by (auto simp: wf_entry_def Let_def split: option.splits)
qed

lemma dumpsection_text:
  assumes D: "dict_inv d" and W: "ini_wf d" and s: "s \<in> set (sections d)"
  shows "iniparser_dumpsection_ini (Some d) s
    = Some (NL # ''['' @ s @ '']'' @ NL # concat (map (entry_line s) (filter (of_section s) (d_entries d))) @ [NL])"
proof -
  note wf = wf_section_entry [OF W s]
  have "strlwc s (ASCIILINESZ + 1) = Some s" using wf(1) by (intro strlwc_lower) (auto simp: wf_section_def)
  moreover have "dict_map d s = Some None" using wf(2) d_entries_mem [OF D] by simp
  ultimately have f: "iniparser_find_entry (Some d) (Some s) = Some True"
    by (simp add: iniparser_find_entry_def iniparser_getstring_def dict.get_law [OF D] ptr_of_def)
  have "concat (map (\<lambda>(k, v). if strncmp_eq k (s @ '':'') (length s + 1)
      then pad_right 30 (drop (length s + 1) k) @ '' = '' @ (case v of Some v \<Rightarrow> v | None \<Rightarrow> []) @ [NL] else []) es)
    = concat (map (entry_line s) (filter (of_section s) es))" for es
    by (induction es) (auto simp: strncmp_eq_def of_section_def entry_line_def)
  then show ?thesis using f wf(1) by (simp add: iniparser_dumpsection_ini_def wf_section_def)
qed

lemma load_entries:
  assumes W: "ini_wf d" and s: "CHR '':'' \<notin> set s"
  shows "set es \<subseteq> set (d_entries d) \<Longrightarrow> list_all (of_section s) es \<Longrightarrow> ini_at st (concat (map (entry_line s) es) @ rest) s m
    \<Longrightarrow> \<exists>st'. ini_loop cb name st w = ini_loop cb name st' w \<and> ini_at st' rest s (upds es m)"
proof (induction es arbitrary: st m)
  case (Cons e es)
  let ?k = "drop (length s + 1) (fst e)" and ?r = "concat (map (entry_line s) es) @ rest"
  obtain v where v: "snd e = Some v" "wf_value v" "wf_key ?k" "max 30 (length ?k) + length v + 5 < ASCIILINESZ"
    using wf_value_entry [OF W, of e s] s Cons.prems by auto
  let ?sp = "replicate (30 - length ?k) (CHR '' '') @ '' ''"
  have k: "fst e = s @ '':'' @ ?k" using of_section_split(2) [of s "fst e" "snd e"] s Cons.prems by auto
  have at: "ini_at st (?k @ ?sp @ ''= '' @ v @ NL # ?r) s m"
    using Cons.prems(3) v(1) by (simp add: entry_line_def [of s e] pad_right_def)
  have "list_all is_space ?sp" "NL \<notin> set ?sp" "CHR 0x00 \<notin> set ?sp" by (auto simp: list_all_iff is_space_def)
  then obtain st1 where "ini_loop cb name st w = ini_loop cb name st1 w" "ini_at st1 ?r s (m(s @ '':'' @ ?k \<mapsto> Some v))"
    using load_value_line [OF at v(3,2), of cb name w] v(4) by fastforce
  then show ?case using Cons.IH [of st1] Cons.prems v(1) k by (cases e) simp
qed auto

lemma load_sections:
  assumes D: "dict_inv d" and W: "ini_wf d"
  shows "set ss \<subseteq> set (sections d)
    \<Longrightarrow> ini_at st (concat (map (\<lambda>s. the (iniparser_dumpsection_ini (Some d) s)) ss) @ rest) sec m
    \<Longrightarrow> \<exists>st' sec'. ini_loop cb name st w = ini_loop cb name st' w
          \<and> ini_at st' rest sec' (upds (concat (map (\<lambda>s. (s, None) # filter (of_section s) (d_entries d)) ss)) m)"
proof (induction ss arbitrary: st sec m)
  case (Cons s ss)
  let ?es = "filter (of_section s) (d_entries d)"
  let ?r = "concat (map (\<lambda>s. the (iniparser_dumpsection_ini (Some d) s)) ss) @ rest"
  have s: "s \<in> set (sections d)" using Cons.prems by simp
  note wf = wf_section_entry [OF W s]
  have 0: "ini_at st (NL # ''['' @ s @ '']'' @ NL # concat (map (entry_line s) ?es) @ NL # ?r) sec m"
    using Cons.prems(2) dumpsection_text [OF D W s] by simp
  obtain st1 where 1: "ini_loop cb name st w = ini_loop cb name st1 w"
    "ini_at st1 (''['' @ s @ '']'' @ NL # concat (map (entry_line s) ?es) @ NL # ?r) sec m"
    using load_empty_line [OF 0, of cb name w] by (elim exE conjE)
  obtain st2 where 2: "ini_loop cb name st1 w = ini_loop cb name st2 w"
    "ini_at st2 (concat (map (entry_line s) ?es) @ NL # ?r) s (m(s \<mapsto> None))"
    using load_section_line [OF 1(2) wf(1), of cb name w] by (elim exE conjE)
  have "set ?es \<subseteq> set (d_entries d)" "list_all (of_section s) ?es" by (auto simp: list_all_iff)
  from load_entries [OF W wf(3) this 2(2), of cb name w]
  obtain st3 where 3: "ini_loop cb name st2 w = ini_loop cb name st3 w" "ini_at st3 (NL # ?r) s (upds ?es (m(s \<mapsto> None)))"
    by (elim exE conjE)
  obtain st4 where 4: "ini_loop cb name st3 w = ini_loop cb name st4 w" "ini_at st4 ?r s (upds ?es (m(s \<mapsto> None)))"
    using load_empty_line [OF 3(2), of cb name w] by (elim exE conjE)
  have "set ss \<subseteq> set (sections d)" using Cons.prems(1) by simp
  from Cons.IH [OF this 4(2)] show ?case unfolding 1(1) 2(1) 3(1) 4(1) by simp
qed auto

lemma dump_sections_concat:
  assumes D: "dict_inv d" and W: "ini_wf d"
  shows "set is \<subseteq> {..<length (sections d)} \<Longrightarrow> dump_sections (Some d) is
    = Some (concat (map (\<lambda>s. the (iniparser_dumpsection_ini (Some d) s)) (map ((!) (sections d)) is)))"
  by (induction "is") (simp_all add: getsecname_sections dumpsection_text [OF D W])

lemma entries_of_sections:
  assumes W: "ini_wf d"
  shows "set (concat (map (\<lambda>s. (s, None) # filter (of_section s) (d_entries d)) (sections d))) = set (d_entries d)"
proof (rule set_eqI, rule iffI)
  fix e
  assume "e \<in> set (concat (map (\<lambda>s. (s, None) # filter (of_section s) (d_entries d)) (sections d)))"
  then show "e \<in> set (d_entries d)" using wf_section_entry(2) [OF W] by auto
next
  fix e
  assume e: "e \<in> set (d_entries d)"
  obtain k v where kv: "e = (k, v)" by (cases e)
  have w: "wf_entry d (k, v)" using W e kv by (simp add: ini_wf_def list_all_iff)
  show "e \<in> set (concat (map (\<lambda>s. (s, None) # filter (of_section s) (d_entries d)) (sections d)))"
  proof (cases "CHR '':'' \<in> set k")
    case False
    then have "k \<in> set (sections d)" "v = None" using w e kv by (force simp: sections_def wf_entry_def)+
    then show ?thesis using kv by auto
  next
    case True
    define s where "s = takeWhile (\<lambda>c. c \<noteq> CHR '':'') k"
    have "(s, None) \<in> set (d_entries d)" using w True by (simp add: wf_entry_def Let_def s_def)
    moreover have "CHR '':'' \<notin> set s" unfolding s_def by (metis (full_types) set_takeWhileD)
    ultimately have "s \<in> set (sections d)" by (force simp: sections_def)
    moreover have "of_section s (k, v)"
    proof -
      obtain a r where k: "k = a @ CHR '':'' # r" "CHR '':'' \<notin> set a" using split_list_first [OF True] by blast
      have "s = a" unfolding s_def k(1) by (rule takeWhile_stop) (use k(2) in \<open>auto simp: list_all_iff\<close>)
      then show ?thesis using k(1) by (simp add: of_section_def)
    qed
    ultimately show ?thesis using e kv by auto
  qed
qed

lemma dump_load_same:
  assumes "dict_inv d" "ini_wf d"
  shows "\<exists>txt d'. iniparser_dump_ini (Some d) = Some txt \<and> iniparser_load cb (Some txt) name w = Some (Some d', w)
     \<and> dict_inv d' \<and> dict_map d' = dict_map d"
proof -
  let ?txt = "concat (map (\<lambda>s. the (iniparser_dumpsection_ini (Some d) s)) (sections d))"
  let ?t = "if sections d = [] then [] else ?txt @ [NL]"
  have E: "upds (concat (map (\<lambda>s. (s, None) # filter (of_section s) (d_entries d)) (sections d))) (\<lambda>_. None) = dict_map d"
    using upds_same_set [OF entries_of_sections [OF assms(2)] d_entries_distinct [OF assms(1)]] dict_map_entries [OF assms(1)]
    by simp
  have empty: "sections d = [] \<Longrightarrow> d_entries d = []" using entries_of_sections [OF assms(2)] by auto
  have dump: "iniparser_dump_ini (Some d) = Some ?t"
    using dump_sections_concat [OF assms, of "[0..<length (sections d)]", unfolded map_nth] empty
    by (auto simp: iniparser_dump_ini_def getnsec_sections Let_def atLeast0LessThan)
  have "ini_at (ini_init ?t) (?txt @ (if sections d = [] then [] else [NL])) [] (\<lambda>_. None)"
    using ini_init_ok [of ?t] dictionary_new_empty(2) [of 0] by (auto simp: ini_at_def ini_init_def)
  from load_sections [OF assms _ this, of cb name w] obtain st1 sec where
    1: "ini_loop cb name (ini_init ?t) w = ini_loop cb name st1 w"
      "ini_at st1 (if sections d = [] then [] else [NL]) sec (dict_map d)"
    unfolding E by auto
  then obtain st2 where 2: "ini_loop cb name (ini_init ?t) w = ini_loop cb name st2 w" "ini_at st2 [] sec (dict_map d)"
    using load_empty_line [of st1 "[]" sec "dict_map d" cb name w] by (cases "sections d = []") auto
  have "ini_loop cb name st2 w = Some (Some st2, w)"
    using 2(2) by (subst ini_loop.simps) (simp add: ini_at_def fgets_def)
  then show ?thesis using dump 2 by (auto simp: iniparser_load_def ini_at_def ini_ok_def)
qed

text \<open>
  (C16) Configuration files round-trip: for a dictionary whose keys are sections and entries of its sections, each of
  which can be written on a line, \<^verbatim>\<open>iniparser_dump_ini\<close> prints a text that \<^verbatim>\<open>iniparser_load\<close> accepts without an error
  message and from which it builds a dictionary with the same contents.
\<close>

theorem ini_dump_load:
  assumes "dict_inv d" "ini_wf d"
  shows "\<exists>txt d'. iniparser_dump_ini (Some d) = Some txt \<and> iniparser_load cb (Some txt) name w = Some (Some d', w)
     \<and> dict_inv d' \<and> dict_map d' = dict_map d"
  by (rule dump_load_same [OF assms])

lemma ini_dump_load_witness:
  "let d = \<lparr>d_n = 2, d_size = 3, d_val = [Some ''Yes'', None, None], d_key = [Some ''ui:color'', None, Some ''ui''],
            d_hash = [dictionary_hash ''ui:color'', 0, dictionary_hash ''ui'']\<rparr>
   in \<exists>txt d'. iniparser_dump_ini (Some d) = Some txt
     \<and> iniparser_load (\<lambda>m w. w @ [m]) (Some txt) ''a.ini'' [] = Some (Some d', []) \<and> dict_inv d' \<and> dict_map d' = dict_map d"
proof -
  let ?d = "\<lparr>d_n = 2, d_size = 3, d_val = [Some ''Yes'', None, None], d_key = [Some ''ui:color'', None, Some ''ui''],
            d_hash = [dictionary_hash ''ui:color'', 0, dictionary_hash ''ui'']\<rparr> :: dictionary"
  have "{i. i < 3 \<and> [Some ''ui:color'', None, Some ''ui''] ! i \<noteq> None} = {0, 2 :: nat}"
    by (auto simp: less_Suc_eq numeral_eq_Suc)
  then have "dict_inv ?d" by (auto simp: dict_inv_def less_Suc_eq numeral_eq_Suc)
  moreover have "d_entries ?d = [(''ui:color'', Some ''Yes''), (''ui'', None)]"
    by (simp add: d_entries_def List.map_filter_def upt_rec)
  then have "ini_wf ?d"
    by (simp add: ini_wf_def wf_entry_def wf_section_def wf_key_def wf_value_def trimmed_def lower_def c_tolower_def
        is_space_def ASCIILINESZ_def Let_def)
  ultimately show ?thesis unfolding Let_def by (rule ini_dump_load)
qed

section \<open>Syntax errors\<close>

text \<open>What a line is, as a function of the line alone.\<close>

definition converts :: "scan_dir list \<Rightarrow> string \<Rightarrow> bool" where
  "converts fmt line \<longleftrightarrow> length (sscanf fmt line) = 2"

definition line_kind :: "string \<Rightarrow> line_status" where
  "line_kind input =
     (let line = strstrip input
      in if line = [] then LINE_EMPTY
         else if hd line \<in> {CHR ''#'', CHR '';''} then LINE_COMMENT
         else if hd line = CHR ''['' \<and> last line = CHR '']'' then LINE_SECTION
         else if list_ex (\<lambda>f. converts f line) [fmt_dquoted, fmt_squoted, fmt_plain, fmt_comment_only, fmt_no_value] then LINE_VALUE
         else LINE_ERROR)"

lemma scan_any_found: "scan_any fmts line key val = Some (b, key', val') \<Longrightarrow> b \<longleftrightarrow> list_ex (\<lambda>f. converts f line) fmts"
  by (induction fmts arbitrary: key val) (auto simp: scan2_def Let_def converts_def bind_eq_Some_conv split: if_splits)

lemma iniparser_line_kind:
  assumes "iniparser_line input section key val = Some (sta, section', key', val')"
  shows "sta = line_kind input"
proof (cases "strstrip input")
  case (Cons c cs)
  have [simp]: "(c # cs) ! length cs = last (c # cs)" by (simp add: last_conv_nth)
  show ?thesis
    using assms Cons
    by (auto simp: iniparser_line_def line_kind_def Let_def bind_eq_Some_conv simp del: scan_any.simps
        dest!: scan_any_found split: if_splits)
qed (use assms in \<open>simp add: iniparser_line_def line_kind_def\<close>)

lemma ini_parsed_errs:
  assumes "ini_parsed cb name st w = Some (nx, st', w')"
  shows "i_last st' = 0"
    "i_errs st' = i_errs st + (if line_kind (i_line st) = LINE_ERROR then 1 else 0)"
  using assms
  by (auto simp: ini_parsed_def Let_def bind_eq_Some_conv split: if_splits line_status.splits dest: iniparser_line_kind [THEN sym])

lemma strstrip_rstrip: "strstrip (rev (dropWhile is_space (rev s))) = strstrip s"
proof -
  let ?t = "rev (dropWhile is_space (rev s))" and ?sp = "rev (takeWhile is_space (rev s))"
  have s: "s = ?t @ ?sp" by (metis rev_append rev_rev_ident takeWhile_dropWhile_id)
  have sp: "list_all is_space ?sp" by (auto simp: list_all_iff dest: set_takeWhileD)
  show ?thesis
  proof (cases "?t = []")
    case True
    then have "list_all is_space s" by (auto simp: list_all_iff)
    from strstrip_trimmed [OF _ this, of "[]"] show ?thesis unfolding True by (simp add: trimmed_def strstrip_def)
  next
    case False
    then obtain x where x: "x \<in> set ?t" "\<not> is_space x" by (metis hd_dropWhile hd_in_set rev_is_Nil_conv set_rev)
    have "dropWhile is_space s = dropWhile is_space ?t @ ?sp" by (subst s) (rule dropWhile_append1 [OF x(1)], simp add: x(2))
    moreover have "dropWhile is_space (rev ?sp @ rev (dropWhile is_space ?t)) = dropWhile is_space (rev (dropWhile is_space ?t))"
      using sp by (intro dropWhile_append2) (auto simp: list_all_iff)
    ultimately show ?thesis by (simp add: strstrip_def)
  qed
qed

lemma load_lines:
  "list_all plain_line ls \<Longrightarrow> ini_ok st \<Longrightarrow> i_last st = 0 \<Longrightarrow> i_in st = concat (map (\<lambda>l. l @ [NL]) ls)
    \<Longrightarrow> \<exists>r w'. ini_loop cb name st w = Some (Some r, w')
          \<and> (i_errs r \<noteq> 0 \<longleftrightarrow> i_errs st \<noteq> 0 \<or> LINE_ERROR \<in> line_kind ` set ls)"
proof (induction ls arbitrary: st w)
  case Nil
  then show ?case by (subst ini_loop.simps) (simp add: fgets_def)
next
  case (Cons l ls)
  let ?rest = "concat (map (\<lambda>l. l @ [NL]) ls)"
  show ?case
  proof (cases "l = []")
    case True
    let ?st = "st\<lparr>i_in := ?rest, i_line := [NL], i_lineno := i_lineno st + 1\<rparr>"
    have "ini_ok ?st" using Cons.prems by (simp add: ini_ok_def)
    moreover have "line_kind l \<noteq> LINE_ERROR" using True by (simp add: line_kind_def strstrip_def)
    ultimately show ?thesis
      using Cons.IH [of ?st w] Cons.prems True ini_loop_empty_line [of st ?rest cb name w] by (auto simp: image_iff)
  next
    case False
    let ?r = "rev (dropWhile is_space (rev l))"
    let ?st = "st\<lparr>i_in := ?rest, i_lineno := i_lineno st + 1, i_line := ?r, i_last := 0\<rparr>"
    have p: "plain_line l" using Cons.prems by simp
    have "length ?r \<le> length l" by (metis length_dropWhile_le length_rev)
    then have f: "fits ?r" "CHR 0x00 \<notin> set ?r"
      using p by (auto simp: plain_line_def fits_def dest: set_dropWhileD)
    have ok: "ini_ok ?st" using Cons.prems f by (simp add: ini_ok_def)
    obtain st' w' where 1: "ini_parsed cb name ?st w = Some (Next, st', w')" "ini_ok st'" "i_in st' = ?rest"
      using ini_parsed_ok [OF ok, of cb name w] f by auto
    note e = ini_parsed_errs [OF 1(1)]
    have k: "line_kind ?r = line_kind l" by (simp add: line_kind_def strstrip_rstrip)
    show ?thesis
      using Cons.IH [OF _ 1(2) e(1) 1(3), of w'] Cons.prems False 1(1) e(2) k ini_loop_line [OF p, of st ?rest cb name w]
      by (cases "line_kind l = LINE_ERROR") auto
  qed
qed

text \<open>
  (C31) A file of lines that fit the line buffer and do not continue is rejected exactly when one of its lines is neither
  empty, a comment, a section nor an entry: the classification looks at each line alone, whatever was parsed before.
\<close>

theorem iniparser_load_syntax:
  assumes "list_all plain_line ls"
  shows "\<exists>r w'. iniparser_load cb (Some (concat (map (\<lambda>l. l @ [NL]) ls))) name w = Some (r, w')
     \<and> (r = None \<longleftrightarrow> LINE_ERROR \<in> line_kind ` set ls)"
  using load_lines [OF assms ini_init_ok [of "concat (map (\<lambda>l. l @ [NL]) ls)"], of cb name w]
  by (auto simp: iniparser_load_def ini_init_def)

lemma iniparser_load_syntax_witness:
  "\<exists>w'. iniparser_load (\<lambda>m w. w @ [m]) (Some (concat (map (\<lambda>l. l @ [NL]) [''[ui]'', ''color'']))) ''a.ini'' [] = Some (None, w')"
proof -
  have "list_all plain_line [''[ui]'', ''color'']" by (simp add: plain_line_def ASCIILINESZ_def is_space_def)
  from iniparser_load_syntax [OF this, of "\<lambda>m w. w @ [m]" "''a.ini''" "[]"]
  show ?thesis
    by (simp add: line_kind_def strstrip_def is_space_def converts_def fmt_dquoted_def fmt_squoted_def fmt_plain_def
        fmt_comment_only_def fmt_no_value_def)
qed

section \<open>Lookups\<close>

lemma getstring_content:
  assumes "dict_inv d" "length e \<le> ASCIILINESZ"
  shows "iniparser_getstring (Some d) (Some e) def
    = Some (case dict_map d (map c_tolower e) of None \<Rightarrow> def | Some v \<Rightarrow> ptr_of v)"
  using assms by (simp add: iniparser_getstring_def strlwc_def dict.get_law)

lemma iniparser_set_law:
  assumes "dict_inv d" "length e \<le> ASCIILINESZ"
  shows "\<exists>d'. iniparser_set d (Some e) v = Some (0, d') \<and> dict_inv d' \<and> dict_map d' = (dict_map d)(map c_tolower e \<mapsto> v)"
  using assms dict.set_law [OF assms(1)] by (simp add: iniparser_set_def strlwc_def)

text \<open>
  Entries are found whatever the case of their name: after \<^verbatim>\<open>iniparser_set\<close>, looking up a name that differs at most in
  case gives the new value, and every other name what it gave before.
\<close>

theorem iniparser_set_get:
  assumes "dict_inv d" "length e \<le> ASCIILINESZ" "length e' \<le> ASCIILINESZ"
  shows "\<exists>d'. iniparser_set d (Some e) v = Some (0, d')
     \<and> iniparser_getstring (Some d') (Some e') def
       = (if map c_tolower e' = map c_tolower e then Some (ptr_of v) else iniparser_getstring (Some d) (Some e') def)"
  using iniparser_set_law [OF assms(1,2), of v] assms by (auto simp: getstring_content)

lemma lower_example: "map c_tolower ''UI:Color'' = ''ui:color''" "map c_tolower ''ui:COLOR'' = ''ui:color''"
  by code_simp+

lemma iniparser_set_get_witness:
  "\<exists>d'. iniparser_set (dictionary_new 0) (Some ''UI:Color'') (Some ''no'') = Some (0, d')
     \<and> iniparser_getstring (Some d') (Some ''ui:COLOR'') Invalid = Some (Str ''no'')"
  using iniparser_set_get [OF dictionary_new_empty(1) [of 0], of "''UI:Color''" "''ui:COLOR''" "Some ''no''" Invalid]
  by (simp add: ASCIILINESZ_def lower_example ptr_of_def del: list.map)

text \<open>A boolean read from a name that is a section: its value is a null pointer, which is dereferenced.\<close>

theorem getboolean_of_section:
  assumes "dict_inv d" "length e \<le> ASCIILINESZ" "dict_map d (map c_tolower e) = Some None"
  shows "iniparser_getboolean (Some d) (Some e) notfound = None"
  using assms by (simp add: iniparser_getboolean_def getstring_content ptr_of_def)

text \<open>An empty section name keeps the name of the previous section, cut to one character.\<close>

theorem empty_section_name: "iniparser_line ''[]'' ''general'' key val = Some (LINE_SECTION, ''g'', key, val)"
  by (simp add: iniparser_line_def strstrip_def is_space_def Let_def scan2_def fmt_section_def strlwc_def c_tolower_def)

text \<open>
  A backslash before the end of the file announces a continuation that never comes: the line is dropped without an error
  message, here the only line of the file.
\<close>

theorem unfinished_line_dropped:
  assumes "l \<noteq> []" "NL \<notin> set l" "CHR 0x00 \<notin> set l" "length l + 2 < ASCIILINESZ"
  shows "iniparser_load cb (Some (l @ [backslash])) name w = Some (Some (dictionary_new 0), w)"
proof -
  let ?l = "l @ [backslash]"
  have t: "takeWhile (\<lambda>c. c \<noteq> NL) ?l = ?l" "takeWhile (\<lambda>c. c \<noteq> CHR 0x00) ?l = ?l"
    using assms(2,3) by (auto simp: takeWhile_eq_all_conv)
  have f: "fgets ASCIILINESZ ?l = Some (?l, [], True)" using assms(4) t by (simp add: fgets_def)
  have r: "rev (dropWhile (\<lambda>c. c = NL \<or> is_space c) (rev ?l)) = ?l" by (simp add: is_space_def)
  have "ini_loop cb name (ini_init ?l) w = Some (Some (ini_init ?l\<lparr>i_in := [], i_line := ?l, i_lineno := 1, i_last := length l\<rparr>), w)"
    apply (subst ini_loop.simps)
    apply (subst ini_loop.simps)
    using f t r assms(1) by (simp add: ini_init_def ini_body_def Let_def fgets_def [of _ "[]"])
  then show ?thesis by (simp add: iniparser_load_def ini_init_def)
qed

lemma unfinished_line_dropped_witness:
  "iniparser_load (\<lambda>m w. w @ [m]) (Some (''a=b'' @ [backslash])) ''a.ini'' [] = Some (Some (dictionary_new 0), [])"
  by (rule unfinished_line_dropped) (simp_all add: ASCIILINESZ_def)

end
