(* ===== verification/Getopt.thy ===== *)
theory Getopt
  imports C_Stdlib
begin

text \<open>
  The option scanner of the command line tools, \<^verbatim>\<open>getopt_long\<close>, in the version that is shipped with them
  (\<^verbatim>\<open>argtable3.c\<close>): abbreviated long options, clusters of short options, and the permutation of the argument vector that moves
  the non-options to its end. The global variables are a record. Strings hold no null characters.
\<close>

section \<open>Definitions\<close>

definition no_argument :: nat where "no_argument = 0"
definition required_argument :: nat where "required_argument = 1"
definition optional_argument :: nat where "optional_argument = 2"

text \<open>\<open>opt_flag\<close>: the pointer \<^verbatim>\<open>flag\<close> is not null. All the options of a program share one variable, \<open>flag_val\<close> below.\<close>

record c_option =
  opt_name :: string
  has_arg :: nat
  opt_flag :: bool
  opt_val :: int

text \<open>
  \<open>place\<close> points into a word, at an offset; \<open>EMSG\<close> is an empty word. \<open>None\<close> stands for the value -1 of the two marks. The
  argument vector ends with a null pointer, at the index \<^verbatim>\<open>nargc\<close>.
\<close>

record getopt_state =
  nargv :: "string list"
  opterr :: bool
  optind :: nat
  optopt :: int
  optreset :: bool
  optarg :: "string option"
  place :: "string \<times> nat"
  nonopt_start :: "nat option"
  nonopt_end :: "nat option"
  flag_val :: int
  warnings :: "string list"

definition EMSG :: "string \<times> nat" where "EMSG = ([], 0)"

definition place_str :: "getopt_state \<Rightarrow> string" where
  "place_str st = drop (snd (place st)) (fst (place st))"

definition c_int :: "char \<Rightarrow> int" where "c_int c = sint (of_nat (of_char c) :: u8)"

definition BADCH :: int where "BADCH = c_int (CHR ''?'')"
definition BADARG :: "string \<Rightarrow> int" where
  "BADARG options = (if options \<noteq> [] \<and> hd options = CHR '':'' then c_int (CHR '':'') else c_int (CHR ''?''))"
definition INORDER :: int where "INORDER = 1"

definition warnx :: "string \<Rightarrow> string \<Rightarrow> getopt_state \<Rightarrow> getopt_state" where
  "warnx options msg st =
     (if opterr st \<and> \<not> (options \<noteq> [] \<and> hd options = CHR '':'') then st\<lparr>warnings := warnings st @ [msg]\<rparr> else st)"

definition nargv_at :: "getopt_state \<Rightarrow> nat \<Rightarrow> string option option" where
  "nargv_at st i =
     (if i < length (nargv st) then Some (Some (nargv st ! i)) else if i = length (nargv st) then Some None else None)"

subsection \<open>Permutation\<close>

text \<open>The remainder by 0 is undefined.\<close>

function c_gcd :: "nat \<Rightarrow> nat \<Rightarrow> nat option" where
  "c_gcd a b = (if b = 0 then None else if a mod b = 0 then Some b else c_gcd b (a mod b))"
  by auto
termination by (relation "measure snd") auto

declare c_gcd.simps [simp del]

primrec permute_cycle :: "nat \<Rightarrow> nat \<Rightarrow> nat \<Rightarrow> nat \<Rightarrow> nat \<Rightarrow> nat \<Rightarrow> string list \<Rightarrow> string list option" where
  "permute_cycle panonopt_end nnonopts nopts cstart pos 0 argv = Some argv"
| "permute_cycle panonopt_end nnonopts nopts cstart pos (Suc j) argv =
     do { let pos = (if pos \<ge> panonopt_end then pos - nnonopts else pos + nopts);
          c_assert (pos < length argv \<and> cstart < length argv);
          permute_cycle panonopt_end nnonopts nopts cstart pos j (argv[pos := argv ! cstart, cstart := argv ! pos]) }"

primrec permute_cycles :: "nat \<Rightarrow> nat \<Rightarrow> nat \<Rightarrow> nat \<Rightarrow> nat list \<Rightarrow> string list \<Rightarrow> string list option" where
  "permute_cycles panonopt_end nnonopts nopts cyclelen [] argv = Some argv"
| "permute_cycles panonopt_end nnonopts nopts cyclelen (i # is) argv =
     do { argv \<leftarrow> permute_cycle panonopt_end nnonopts nopts (panonopt_end + i) (panonopt_end + i) cyclelen argv;
          permute_cycles panonopt_end nnonopts nopts cyclelen is argv }"

definition permute_args :: "nat \<Rightarrow> nat \<Rightarrow> nat \<Rightarrow> string list \<Rightarrow> string list option" where
  "permute_args panonopt_start panonopt_end opt_end argv =
     do { c_assert (panonopt_start \<le> panonopt_end \<and> panonopt_end \<le> opt_end);
          let nnonopts = panonopt_end - panonopt_start;
          let nopts = opt_end - panonopt_end;
          ncycle \<leftarrow> c_gcd nnonopts nopts;
          let cyclelen = (opt_end - panonopt_start) div ncycle;
          permute_cycles panonopt_end nnonopts nopts cyclelen [0..<ncycle] argv }"

subsection \<open>Long options\<close>

text \<open>The search for a long option, with the best match so far; \<open>Inl\<close> if the name is ambiguous.\<close>

fun match_long :: "c_option list \<Rightarrow> string \<Rightarrow> nat \<Rightarrow> bool \<Rightarrow> nat \<Rightarrow> nat option \<Rightarrow> unit + nat option" where
  "match_long [] current_argv len short_too i match = Inr match"
| "match_long (opt # opts) current_argv len short_too i match =
     (if take len current_argv \<noteq> take len (opt_name opt) then match_long opts current_argv len short_too (Suc i) match
      else if length (opt_name opt) = len then Inr (Some i)
      else if short_too \<and> len = 1 then match_long opts current_argv len short_too (Suc i) match
      else if match = None then match_long opts current_argv len short_too (Suc i) (Some i)
      else Inl ())"

definition parse_long_options ::
  "string \<Rightarrow> c_option list \<Rightarrow> bool \<Rightarrow> getopt_state \<Rightarrow> (int \<times> getopt_state) option" where
  "parse_long_options options long_options short_too st =
     (let current_argv = place_str st;
          st = st\<lparr>optind := optind st + 1\<rparr>;
          len = length (takeWhile (\<lambda>c. c \<noteq> CHR ''='') current_argv);
          has_equal = (if len < length current_argv then Some (drop (len + 1) current_argv) else None)
      in case match_long long_options current_argv len short_too 0 None of
           Inl _ \<Rightarrow> Some (BADCH, (warnx options (''ambiguous option -- '' @ take len current_argv) st)\<lparr>optopt := 0\<rparr>)
         | Inr None \<Rightarrow>
             if short_too then Some (-1, st\<lparr>optind := optind st - 1\<rparr>)
             else Some (BADCH, (warnx options (''unknown option -- '' @ current_argv) st)\<lparr>optopt := 0\<rparr>)
         | Inr (Some i) \<Rightarrow>
             (let opt = long_options ! i; val' = (if opt_flag opt then 0 else opt_val opt)
              in if has_arg opt = no_argument \<and> has_equal \<noteq> None then
                   Some (BADARG options,
                         (warnx options (''option doesn'' @ [CHR 0x27] @ ''t take an argument -- '' @ take len current_argv) st)\<lparr>optopt := val'\<rparr>)
                 else do {
                   st \<leftarrow> (if has_arg opt = required_argument \<or> has_arg opt = optional_argument then
                            (case has_equal of
                               Some v \<Rightarrow> Some (st\<lparr>optarg := Some v\<rparr>)
                             | None \<Rightarrow>
                                 if has_arg opt = required_argument then
                                   do { a \<leftarrow> nargv_at st (optind st); Some (st\<lparr>optarg := a, optind := optind st + 1\<rparr>) }
                                 else Some st)
                          else Some st);
                   if has_arg opt = required_argument \<and> optarg st = None then
                     Some (BADARG options,
                           (warnx options (''option requires an argument -- '' @ current_argv) st)\<lparr>optopt := val', optind := optind st - 1\<rparr>)
                   else if opt_flag opt then Some (0, st\<lparr>flag_val := opt_val opt\<rparr>)
                   else Some (opt_val opt, st) }))"

subsection \<open>The scanner\<close>

record getopt_flags =
  flag_permute :: bool
  flag_allargs :: bool
  flag_longonly :: bool

text \<open>What happens at the end of the options: the marks are forgotten, and \<open>optind\<close> is the first non-option.\<close>

definition finish_permutation :: "getopt_state \<Rightarrow> getopt_state option" where
  "finish_permutation st =
     (case (nonopt_start st, nonopt_end st) of
        (Some s, Some e) \<Rightarrow>
          do { argv \<leftarrow> permute_args s e (optind st) (nargv st);
               Some (st\<lparr>nargv := argv, optind := optind st - (e - s), nonopt_start := None, nonopt_end := None\<rparr>) }
      | (None, Some e) \<Rightarrow> None
      | _ \<Rightarrow> Some (st\<lparr>nonopt_start := None, nonopt_end := None\<rparr>))"

text \<open>
  The part of \<^verbatim>\<open>getopt_internal\<close> from the label \<^verbatim>\<open>start\<close>: going to the next option. \<open>Inl\<close> is a value
  to return, \<open>Inr\<close> goes on.
\<close>

partial_function (option) getopt_start ::
  "getopt_flags \<Rightarrow> string \<Rightarrow> getopt_state \<Rightarrow> ((int + unit) \<times> getopt_state) option" where
  "getopt_start flags options st =
     (if \<not> (optreset st \<or> place_str st = []) then Some (Inr (), st)
      else (let st = st\<lparr>optreset := False\<rparr>
            in if optind st \<ge> length (nargv st) then
                 do { let st = st\<lparr>place := EMSG\<rparr>;
                      st \<leftarrow> (if nonopt_end st = None \<and> nonopt_start st \<noteq> None
                              then Some (st\<lparr>optind := the (nonopt_start st), nonopt_start := None\<rparr>)
                              else finish_permutation st);
                      Some (Inl (-1), st) }
               else (let w = nargv st ! optind st
                     in if w = [] \<or> hd w \<noteq> CHR ''-'' \<or> (length w = 1 \<and> CHR ''-'' \<notin> set options) then
                          (let st = st\<lparr>place := EMSG\<rparr>
                           in if flag_allargs flags then Some (Inl INORDER, st\<lparr>optarg := Some w, optind := optind st + 1\<rparr>)
                              else if \<not> flag_permute flags then Some (Inl (-1), st)
                              else do {
                                st \<leftarrow> (case (nonopt_start st, nonopt_end st) of
                                   (None, _) \<Rightarrow> Some (st\<lparr>nonopt_start := Some (optind st)\<rparr>)
                                 | (Some s, None) \<Rightarrow> Some st
                                 | (Some s, Some e) \<Rightarrow>
                                     do { argv \<leftarrow> permute_args s e (optind st) (nargv st);
                                          Some (st\<lparr>nargv := argv, nonopt_start := Some (optind st - (e - s)), nonopt_end := None\<rparr>) });
                                getopt_start flags options (st\<lparr>optind := optind st + 1\<rparr>) })
                        else (let st = st\<lparr>place := (w, if length w = 1 then 0 else 1),
                                          nonopt_end := (if nonopt_start st \<noteq> None \<and> nonopt_end st = None
                                                         then Some (optind st) else nonopt_end st)\<rparr>
                              in if w = ''--'' then
                                   do { st \<leftarrow> finish_permutation (st\<lparr>optind := optind st + 1, place := EMSG\<rparr>);
                                        Some (Inl (-1), st) }
                                 else Some (Inr (), st)))))"

text \<open>
  The part after it: one option, long or short. A short option with an argument uses the rest of the word or the next
  word; \<^verbatim>\<open>-W name\<close> is a long option if the option string says so (\<^verbatim>\<open>W;\<close>).
\<close>

definition getopt_option ::
  "getopt_flags \<Rightarrow> string \<Rightarrow> c_option list option \<Rightarrow> getopt_state \<Rightarrow> (int \<times> getopt_state) option" where
  "getopt_option flags options long_options st =
     do { c_assert (place_str st \<noteq> []);
          let c = hd (place_str st);
          let is_long = (long_options \<noteq> None \<and> snd (place st) \<noteq> 0 \<and> (c = CHR ''-'' \<or> flag_longonly flags));
          (r, st) \<leftarrow> (if is_long then
              do { let short_too = (c \<noteq> CHR ''-'' \<and> c \<noteq> CHR '':'' \<and> c \<in> set options);
                   let st = (if c = CHR ''-'' then st\<lparr>place := (fst (place st), snd (place st) + 1)\<rparr> else st);
                   (optchar, st) \<leftarrow> parse_long_options options (the long_options) short_too st;
                   Some (if optchar \<noteq> -1 then Some optchar else None, if optchar \<noteq> -1 then st\<lparr>place := EMSG\<rparr> else st) }
            else Some (None, st));
          (case r of
             Some optchar \<Rightarrow> Some (optchar, st)
           | None \<Rightarrow>
               do { c_assert (place_str st \<noteq> []);
                    let optchar = hd (place_str st);
                    let rest = tl (place_str st);
                    let st = st\<lparr>place := (fst (place st), snd (place st) + 1)\<rparr>;
                    let oli = dropWhile (\<lambda>x. x \<noteq> optchar) options;
                    if optchar = CHR '':'' \<or> (optchar = CHR ''-'' \<and> rest \<noteq> []) \<or> oli = [] then
                      if optchar = CHR ''-'' \<and> rest = [] then Some (-1, st)
                      else (let st = (if rest = [] then st\<lparr>optind := optind st + 1\<rparr> else st)
                            in Some (BADCH, (warnx options (''unknown option -- '' @ [optchar]) st)\<lparr>optopt := c_int optchar\<rparr>))
                    else if long_options \<noteq> None \<and> optchar = CHR ''W'' \<and> tl oli \<noteq> [] \<and> hd (tl oli) = CHR '';'' then
                      if rest = [] \<and> optind st + 1 \<ge> length (nargv st) then
                        Some (BADARG options,
                          (warnx options (''option requires an argument -- '' @ [optchar])
                             (st\<lparr>optind := optind st + 1, place := EMSG\<rparr>))\<lparr>optopt := c_int optchar\<rparr>)
                      else
                        do { let st = (if rest \<noteq> [] then st
                                       else st\<lparr>optind := optind st + 1, place := (nargv st ! (optind st + 1), 0)\<rparr>);
                             (optchar, st) \<leftarrow> parse_long_options options (the long_options) False st;
                             Some (optchar, st\<lparr>place := EMSG\<rparr>) }
                    else (let oli = tl oli
                          in if oli = [] \<or> hd oli \<noteq> CHR '':'' then
                               Some (c_int optchar, if rest = [] then st\<lparr>optind := optind st + 1\<rparr> else st)
                             else (let st = st\<lparr>optarg := None\<rparr>
                                   in if rest \<noteq> [] then
                                        Some (c_int optchar, st\<lparr>optarg := Some rest, place := EMSG, optind := optind st + 1\<rparr>)
                                      else if tl oli = [] \<or> hd (tl oli) \<noteq> CHR '':'' then
                                        if optind st + 1 \<ge> length (nargv st) then
                                          Some (BADARG options,
                                            (warnx options (''option requires an argument -- '' @ [optchar])
                                               (st\<lparr>optind := optind st + 1, place := EMSG\<rparr>))\<lparr>optopt := c_int optchar\<rparr>)
                                        else Some (c_int optchar, st\<lparr>optarg := Some (nargv st ! (optind st + 1)), place := EMSG,
                                                                    optind := optind st + 2\<rparr>)
                                      else Some (c_int optchar, st\<lparr>place := EMSG, optind := optind st + 1\<rparr>))) }) }"

definition getopt_internal ::
  "bool \<Rightarrow> string option \<Rightarrow> c_option list option \<Rightarrow> getopt_flags \<Rightarrow> getopt_state \<Rightarrow> (int \<times> getopt_state) option" where
  "getopt_internal posixly_correct options long_options flags st =
     (case options of
        None \<Rightarrow> Some (-1, st)
      | Some options \<Rightarrow>
          do { let with_plus = (options \<noteq> [] \<and> hd options = CHR ''+'');
               let with_minus = (options \<noteq> [] \<and> hd options = CHR ''-'');
               let flags = (if posixly_correct \<or> with_plus then flags\<lparr>flag_permute := False\<rparr>
                            else if with_minus then flags\<lparr>flag_allargs := True\<rparr> else flags);
               let options = (if with_plus \<or> with_minus then tl options else options);
               let st = (if optind st = 0 then st\<lparr>optind := 1, optreset := True\<rparr> else st);
               let st = st\<lparr>optarg := None\<rparr>;
               let st = (if optreset st then st\<lparr>nonopt_start := None, nonopt_end := None\<rparr> else st);
               (r, st) \<leftarrow> getopt_start flags options st;
               (case r of
                  Inl v \<Rightarrow> Some (v, st)
                | Inr _ \<Rightarrow> getopt_option flags options long_options st) })"

definition getopt :: "bool \<Rightarrow> string option \<Rightarrow> getopt_state \<Rightarrow> (int \<times> getopt_state) option" where
  "getopt posixly_correct options st =
     getopt_internal posixly_correct options None \<lparr>flag_permute = False, flag_allargs = False, flag_longonly = False\<rparr> st"

definition getopt_long :: "bool \<Rightarrow> string option \<Rightarrow> c_option list \<Rightarrow> getopt_state \<Rightarrow> (int \<times> getopt_state) option" where
  "getopt_long posixly_correct options long_options st =
     getopt_internal posixly_correct options (Some long_options)
       \<lparr>flag_permute = True, flag_allargs = False, flag_longonly = False\<rparr> st"

definition getopt_long_only :: "bool \<Rightarrow> string option \<Rightarrow> c_option list \<Rightarrow> getopt_state \<Rightarrow> (int \<times> getopt_state) option" where
  "getopt_long_only posixly_correct options long_options st =
     getopt_internal posixly_correct options (Some long_options)
       \<lparr>flag_permute = True, flag_allargs = False, flag_longonly = True\<rparr> st"


section \<open>The permutation exchanges two blocks\<close>

lemma c_gcd_eq: "0 < b \<Longrightarrow> c_gcd a b = Some (gcd a b)"
proof (induction a b rule: c_gcd.induct)
  case (1 a b)
  show ?case
  proof (cases "a mod b = 0")
    case True
    then have "b dvd a" by (simp add: dvd_eq_mod_eq_0)
    then show ?thesis using 1 True by (simp add: c_gcd.simps [of a b] gcd_nat.absorb2)
  next
    case False
    then have "c_gcd b (a mod b) = Some (gcd b (a mod b))" using 1 by simp
    then show ?thesis using 1 False by (simp add: c_gcd.simps [of a b] gcd_red_nat [of a b])
  qed
qed

text \<open>
  The position of an element relative to the start of the blocks, after it has moved \<open>t\<close> times by the length \<open>m\<close> of the
  second block, modulo the length of both.
\<close>

definition orb :: "nat \<Rightarrow> nat \<Rightarrow> nat \<Rightarrow> nat \<Rightarrow> nat" where
  "orb n m c t = (c + t * m) mod (n + m)"

lemma orb_step:
  assumes "0 < n" "0 < m"
  shows "(if s + orb n m c t \<ge> s + n then s + orb n m c t - n else s + orb n m c t + m) = s + orb n m c (Suc t)"
proof -
  have "orb n m c (Suc t) = (orb n m c t + m) mod (n + m)" by (simp add: orb_def mod_simps ac_simps)
  moreover have "orb n m c t < n + m" using assms by (simp add: orb_def)
  ultimately show ?thesis by (auto simp: mod_if [of "orb n m c t + m"])
qed

lemma orb_lt: "0 < m \<Longrightarrow> orb n m c t < n + m" by (simp add: orb_def)

lemma orb_mod_gcd: "orb n m c t mod gcd n m = c mod gcd n m"
proof -
  have "orb n m c t mod gcd n m = (c + t * m) mod gcd n m" by (simp add: orb_def mod_mod_cancel)
  also have "\<dots> = (c + t * m mod gcd n m) mod gcd n m" by (rule mod_add_right_eq [symmetric])
  also have "t * m mod gcd n m = 0" by simp
  finally show ?thesis by simp
qed

lemma orb_inj:
  assumes "0 < n" "0 < m"
  shows "inj_on (orb n m c) {..<(n + m) div gcd n m}"
proof (rule linorder_inj_onI)
  fix t t' assume t: "t < t'" "t \<in> {..<(n + m) div gcd n m}" "t' \<in> {..<(n + m) div gcd n m}"
  let ?g = "gcd n m"
  define L where "L = (n + m) div ?g"
  define m' where "m' = m div ?g"
  have g: "gcd (n + m) m = ?g" "?g \<noteq> 0" using assms by simp_all
  have cop: "coprime L m'"
    unfolding L_def m'_def g(1) [symmetric] by (rule div_gcd_coprime) (use assms in simp)
  show "orb n m c t \<noteq> orb n m c t'"
  proof
    assume "orb n m c t = orb n m c t'"
    then have "n + m dvd (c + t' * m) - (c + t * m)"
      using t(1) mod_eq_dvd_iff_nat [of "c + t * m" "c + t' * m" "n + m"] by (simp add: orb_def)
    then have "n + m dvd (t' - t) * m" by (simp add: diff_mult_distrib)
    moreover have "n + m = ?g * L" "m = ?g * m'" unfolding L_def m'_def by (rule dvd_mult_div_cancel [symmetric]; simp)+
    ultimately have "?g * L dvd (t' - t) * (?g * m')" by metis
    then have "L dvd (t' - t) * m'" using g(2) assms by (simp add: mult.left_commute)
    then have "L dvd t' - t" using cop by (simp add: coprime_dvd_mult_left_iff)
    then show False using t by (auto simp: L_def dest: dvd_imp_le)
  qed
qed (simp add: linear)

lemma card_residues:
  assumes "i < (g :: nat)"
  shows "card {q. q < g * L \<and> q mod g = i} = L"
proof -
  have "{q. q < g * L \<and> q mod g = i} = (\<lambda>t. i + g * t) ` {..<L}"
  proof (intro set_eqI iffI)
    fix q assume q: "q \<in> {q. q < g * L \<and> q mod g = i}"
    then have "q = i + g * (q div g)" using mod_mult_div_eq [of q g] by simp
    moreover have "q div g < L" using q by (simp add: less_mult_imp_div_less mult.commute)
    ultimately show "q \<in> (\<lambda>t. i + g * t) ` {..<L}" by blast
  next
    fix q assume "q \<in> (\<lambda>t. i + g * t) ` {..<L}"
    then obtain t where t: "q = i + g * t" "t < L" by blast
    then have "g * t + g \<le> g * L" using mult_le_mono2 [of "Suc t" L g] by simp
    then show "q \<in> {q. q < g * L \<and> q mod g = i}" using t assms by auto
  qed
  moreover have "inj_on (\<lambda>t. i + g * t) {..<L}" using assms by (intro inj_onI) simp
  ultimately show ?thesis by (simp add: card_image)
qed

lemma orb_covers:
  assumes "0 < n" "0 < m" "i < gcd n m"
  shows "orb n m (n + i) ` {..<(n + m) div gcd n m} = {q. q < n + m \<and> q mod gcd n m = i}"
proof (rule card_subset_eq)
  let ?g = "gcd n m"
  have N: "?g * ((n + m) div ?g) = n + m" by (rule dvd_mult_div_cancel) simp
  show "orb n m (n + i) ` {..<(n + m) div ?g} \<subseteq> {q. q < n + m \<and> q mod ?g = i}"
    using assms orb_lt [OF assms(2)] by (auto simp: orb_mod_gcd mod_add_eq [symmetric, of n i])
  show "card (orb n m (n + i) ` {..<(n + m) div ?g}) = card {q. q < n + m \<and> q mod ?g = i}"
    using card_residues [OF assms(3), of "(n + m) div ?g"] unfolding N card_image [OF orb_inj [OF assms(1,2)]] by simp
qed simp


text \<open>One cycle moves the elements at the positions of its orbit, using the first one as the temporary variable.\<close>

lemma permute_cycle_orbit:
  fixes s n m c :: nat and a0 :: "string list"
  defines "p \<equiv> \<lambda>t. s + orb n m c t"
  assumes nm: "0 < n" "0 < m" "s + n + m \<le> length a0" and c: "c < n + m" and L: "p L = p 0" "inj_on p {..<L}"
  shows "j + k = L \<Longrightarrow> length a = length a0 \<Longrightarrow> 0 < k \<Longrightarrow> a ! p 0 = a0 ! p j \<Longrightarrow> (\<And>t. t < j \<Longrightarrow> a ! p (Suc t) = a0 ! p t)
      \<Longrightarrow> (\<And>q. q \<notin> p ` {..<L} \<Longrightarrow> a ! q = a0 ! q) \<Longrightarrow> (\<And>t. j < t \<Longrightarrow> t < L \<Longrightarrow> a ! p t = a0 ! p t)
    \<Longrightarrow> \<exists>a'. permute_cycle (s + n) n m (p 0) (p j) k a = Some a' \<and> length a' = length a0
         \<and> (\<forall>t < L. a' ! p (Suc t) = a0 ! p t) \<and> (\<forall>q. q \<notin> p ` {..<L} \<longrightarrow> a' ! q = a0 ! q)"
proof (induction k arbitrary: j a)
  case (Suc k)
  have lt: "p t < length a" for t using orb_lt [OF nm(2), of n c t] nm(3) Suc.prems(2) by (simp add: p_def)
  let ?a = "a[p (Suc j) := a ! p 0, p 0 := a ! p (Suc j)]"
  have step: "permute_cycle (s + n) n m (p 0) (p j) (Suc k) a = permute_cycle (s + n) n m (p 0) (p (Suc j)) k ?a"
    using orb_step [OF nm(1,2), of s c j] lt [of "Suc j"] lt [of 0] by (simp add: p_def c_assert_def Let_def)
  have out: "?a ! q = a0 ! q" if "q \<notin> p ` {..<L}" for q
  proof -
    have "p 0 \<in> p ` {..<L}" "p (Suc j) \<in> p ` {..<L}"
      using Suc.prems(1) L(1) by (auto simp: image_iff intro: bexI [of _ 0]) (metis lessThan_iff not_less_eq not_less_iff_gr_or_eq zero_less_Suc le_imp_less_Suc le_add1)
    then show ?thesis using that Suc.prems(6) by (metis nth_list_update_neq)
  qed
  show ?case
  proof (cases k)
    case 0
    then have "Suc j = L" using Suc.prems(1) by simp
    then have "?a = a" using L(1) by simp
    then have "a ! p (Suc t) = a0 ! p t" if "t < L" for t
      using that Suc.prems(4,5) \<open>Suc j = L\<close> L(1) by (cases "t = j") auto
    then show ?thesis unfolding step using 0 \<open>?a = a\<close> Suc.prems(2,6) by simp
  next
    case (Suc k')
    then have j: "Suc j < L" using Suc.prems(1) by simp
    have ne: "p t \<noteq> p u" if "t < L" "u < L" "t \<noteq> u" for t u using inj_onD [OF L(2), of t u] that by auto
    show ?thesis unfolding step
    proof (rule Suc.IH)
      show "?a ! p 0 = a0 ! p (Suc j)" using Suc.prems(7) [of "Suc j"] j lt [of 0] by simp
      show "?a ! p (Suc t) = a0 ! p t" if "t < Suc j" for t
        using that j lt [of "Suc j"] Suc.prems(4,5) ne [of "Suc t" "Suc j"] ne [of "Suc t" 0] ne [of "Suc j" 0]
        by (cases "t = j") auto
      show "?a ! p t = a0 ! p t" if "Suc j < t" "t < L" for t
        using that j Suc.prems(7) ne [of t "Suc j"] ne [of t 0] by simp
    qed (use Suc.prems(1,2) Suc out in auto)
  qed
qed simp

lemma shift_mod_gcd: "((q :: nat) + m) mod (n + m) mod gcd n m = q mod gcd n m"
  using orb_mod_gcd [of n m q 1] by (simp add: orb_def)

lemma permute_cycles_residues:
  fixes s n m :: nat and a0 :: "string list"
  defines "g \<equiv> gcd n m"
  assumes nm: "0 < n" "0 < m" "s + n + m \<le> length a0"
  shows "i \<le> g \<Longrightarrow> length a = length a0
    \<Longrightarrow> (\<And>q. q < n + m \<Longrightarrow> if q mod g < i then a ! (s + (q + m) mod (n + m)) = a0 ! (s + q) else a ! (s + q) = a0 ! (s + q))
    \<Longrightarrow> (\<And>x. x < s \<or> s + n + m \<le> x \<Longrightarrow> a ! x = a0 ! x)
    \<Longrightarrow> \<exists>a'. permute_cycles (s + n) n m ((n + m) div g) [i..<g] a = Some a' \<and> length a' = length a0
         \<and> (\<forall>q < n + m. a' ! (s + (q + m) mod (n + m)) = a0 ! (s + q)) \<and> (\<forall>x. x < s \<or> s + n + m \<le> x \<longrightarrow> a' ! x = a0 ! x)"
proof (induction "g - i" arbitrary: i a)
  case 0
  then show ?case using nm by (auto simp: g_def)
next
  case (Suc k)
  have i: "i < g" using Suc.hyps(2) by simp
  let ?c = "n + i" and ?L = "(n + m) div g" and ?p = "\<lambda>t. s + orb n m (n + i) t"
  have "g \<le> m" using nm(2) by (simp add: g_def gcd_le2_nat)
  then have c: "?c < n + m" using i by simp
  then have p0: "?p 0 = s + n + i" by (simp add: orb_def)
  have gN: "g dvd n + m" "g dvd m" "0 < g" using nm by (simp_all add: g_def)
  have "?L * m = (n + m) * (m div g)" using gN by (metis dvd_div_mult dvd_div_mult_self mult.commute mult.left_commute)
  then have pL: "?p ?L = ?p 0" by (simp add: orb_def)
  have inj: "inj_on ?p {..<?L}" using orb_inj [OF nm(1,2), of ?c] by (auto simp: inj_on_def g_def)
  have cov: "orb n m ?c ` {..<?L} = {q. q < n + m \<and> q mod g = i}"
    using orb_covers [OF nm(1,2), of i] i by (simp add: g_def)
  have L0: "0 < ?L" using gN nm by (simp add: div_greater_zero_iff dvd_imp_le)
  obtain b where b: "permute_cycle (s + n) n m (?p 0) (?p 0) ?L a = Some b" "length b = length a"
    "\<And>t. t < ?L \<Longrightarrow> b ! ?p (Suc t) = a ! ?p t" "\<And>q. q \<notin> ?p ` {..<?L} \<Longrightarrow> b ! q = a ! q"
    using permute_cycle_orbit [OF nm(1,2) _ c pL inj, of a 0 ?L a] nm(3) L0 Suc.prems(2) by auto
  have img: "x \<in> ?p ` {..<?L} \<longleftrightarrow> (\<exists>q < n + m. q mod g = i \<and> x = s + q)" for x
    using cov by (auto simp: image_iff set_eq_iff)
  have b1: "if q mod g < Suc i then b ! (s + (q + m) mod (n + m)) = a0 ! (s + q) else b ! (s + q) = a0 ! (s + q)" if q: "q < n + m" for q
  proof (cases "q mod g = i")
    case True
    then have "q \<in> orb n m ?c ` {..<?L}" using cov q by simp
    then obtain t where t: "q = orb n m ?c t" "t < ?L" by auto
    have "orb n m ?c (Suc t) = (q + m) mod (n + m)" by (simp add: t(1) orb_def mod_simps ac_simps)
    then have "b ! (s + (q + m) mod (n + m)) = a ! (s + q)" using b(3) [OF t(2)] t(1) by simp
    then show ?thesis using Suc.prems(3) [OF q] True by simp
  next
    case False
    have "(q + m) mod (n + m) mod g \<noteq> i" using False shift_mod_gcd [of q m n] by (simp add: g_def)
    then have "b ! (s + (q + m) mod (n + m)) = a ! (s + (q + m) mod (n + m))" by (intro b(4)) (simp add: img)
    moreover have "b ! (s + q) = a ! (s + q)" using False by (intro b(4)) (simp add: img)
    ultimately show ?thesis using Suc.prems(3) [OF q] False by auto
  qed
  have b2: "b ! x = a0 ! x" if "x < s \<or> s + n + m \<le> x" for x
  proof -
    have "x \<notin> ?p ` {..<?L}" using that by (auto simp: img)
    then show ?thesis using b(4) Suc.prems(4) [OF that] by simp
  qed
  have "k = g - Suc i" "Suc i \<le> g" using Suc.hyps(2) i by simp_all
  then obtain a' where "permute_cycles (s + n) n m ?L [Suc i..<g] b = Some a'" "length a' = length a0"
      "\<forall>q < n + m. a' ! (s + (q + m) mod (n + m)) = a0 ! (s + q)" "\<forall>x. x < s \<or> s + n + m \<le> x \<longrightarrow> a' ! x = a0 ! x"
    using Suc.hyps(1) [OF _ _ _ b1 b2] b(2) Suc.prems(2) by auto
  then show ?case using b(1) i by (simp add: upt_conv_Cons p0 add.assoc)
qed

lemma permute_args_blocks:
  assumes "blk1 \<noteq> []" "blk2 \<noteq> []"
  shows "permute_args (length pre) (length pre + length blk1) (length pre + length blk1 + length blk2) (pre @ blk1 @ blk2 @ post)
    = Some (pre @ blk2 @ blk1 @ post)"
proof -
  let ?s = "length pre" and ?n = "length blk1" and ?m = "length blk2" and ?a = "pre @ blk1 @ blk2 @ post"
  have nm: "0 < ?n" "0 < ?m" using assms by simp_all
  then obtain a' where a': "permute_cycles (?s + ?n) ?n ?m ((?n + ?m) div gcd ?n ?m) [0..<gcd ?n ?m] ?a = Some a'"
      "length a' = length ?a" "\<And>q. q < ?n + ?m \<Longrightarrow> a' ! (?s + (q + ?m) mod (?n + ?m)) = ?a ! (?s + q)"
      "\<And>x. x < ?s \<or> ?s + ?n + ?m \<le> x \<Longrightarrow> a' ! x = ?a ! x"
    using permute_cycles_residues [OF nm, of ?s ?a 0 ?a] by auto
  have "a' = pre @ blk2 @ blk1 @ post"
  proof (rule nth_equalityI)
    fix x assume x: "x < length a'"
    consider "x < ?s \<or> ?s + ?n + ?m \<le> x" | "?s \<le> x" "x < ?s + ?m" | "?s + ?m \<le> x" "x < ?s + ?n + ?m" by linarith
    then show "a' ! x = (pre @ blk2 @ blk1 @ post) ! x"
    proof cases
      case 1
      then show ?thesis using a'(4) [of x] by (auto simp: nth_append ac_simps)
    next
      case 2
      then obtain d where d: "x = ?s + d" "d < ?m" using le_Suc_ex [of ?s x] by auto
      have "(d + ?n + ?m) mod (?n + ?m) = d" using d(2) mod_add_self2 [of d "?n + ?m"] by (simp add: add.assoc)
      then have "a' ! (?s + d) = ?a ! (?s + (d + ?n))" using a'(3) [of "d + ?n"] d(2) by simp
      then show ?thesis using d by (simp add: nth_append)
    next
      case 3
      then obtain d where d: "x = ?s + ?m + d" "d < ?n" using le_Suc_ex [of "?s + ?m" x] by auto
      then have "a' ! (?s + (d + ?m)) = ?a ! (?s + d)" using a'(3) [of d] by simp
      then show ?thesis using d by (simp add: nth_append ac_simps)
    qed
  qed (simp add: a'(2))
  then show ?thesis using a'(1) nm by (simp add: permute_args_def c_gcd_eq c_assert_def Let_def add.assoc)
qed

text \<open>
  (C32) The permutation of the argument vector, which follows as many cycles as the greatest common divisor of the lengths tells,
  exchanges two adjacent blocks: the words skipped and the options behind them. It keeps the order inside of both blocks and all
  the words around them, and stays inside of the vector.
\<close>

theorem permute_args_exchanges:
  assumes "blk1 \<noteq> []" "blk2 \<noteq> []" "panonopt_start = length pre" "panonopt_end = panonopt_start + length blk1"
    "opt_end = panonopt_end + length blk2"
  shows "permute_args panonopt_start panonopt_end opt_end (pre @ blk1 @ blk2 @ post) = Some (pre @ blk2 @ blk1 @ post)"
  using permute_args_blocks [OF assms(1,2), of pre post] assms(3-5) by simp

theorem permute_args_exchanges_witness:
  "permute_args 1 3 7 [''prog'', ''x'', ''y'', ''-a'', ''-b'', ''1'', ''-c'', ''z'']
    = Some [''prog'', ''-a'', ''-b'', ''1'', ''-c'', ''x'', ''y'', ''z'']"
  using permute_args_exchanges [of "[''x'', ''y'']" "[''-a'', ''-b'', ''1'', ''-c'']" 1 "[''prog'']" 3 7 "[''z'']"] by simp


section \<open>A specification\<close>

text \<open>
  The scanner as a machine on the words that are left: the non-options met so far, the current word with the rest
  of its cluster, and the words after it. Nothing is permuted. The events are what a caller of \<^verbatim>\<open>getopt_long\<close> gets to know,
  together with the word before \<open>optind\<close>.
\<close>

datatype opt_event =
    Ev_long int "string option" string
  | Ev_short char "string option"
  | Ev_bad_long string
  | Ev_bad_short char
  | Ev_missing string

type_synonym scan_state = "string list \<times> string \<times> string \<times> string list"

definition operand :: "string \<Rightarrow> bool" where
  "operand w \<longleftrightarrow> w = [] \<or> hd w \<noteq> CHR ''-'' \<or> length w = 1"

fun scan_words :: "bool \<Rightarrow> string list \<Rightarrow> string list \<Rightarrow> string list + scan_state" where
  "scan_words px ns [] = Inl ns"
| "scan_words px ns (v # ws) =
     (if operand v then (if px then Inl (ns @ v # ws) else scan_words px (ns @ [v]) ws)
      else if v = ''--'' then Inl (ns @ ws)
      else Inr (ns, v, tl v, ws))"

fun scan_start :: "bool \<Rightarrow> scan_state \<Rightarrow> string list + scan_state" where
  "scan_start px (ns, w, cur, ws) = (if cur \<noteq> [] then Inr (ns, w, cur, ws) else scan_words px ns ws)"

definition long_event :: "c_option list \<Rightarrow> string \<Rightarrow> string \<Rightarrow> string list \<Rightarrow> opt_event \<times> nat" where
  "long_event long_options w name ws =
     (let len = length (takeWhile (\<lambda>c. c \<noteq> CHR ''='') name);
          arg = (if len < length name then Some (drop (len + 1) name) else None)
      in case match_long long_options name len False 0 None of
           Inr (Some i) \<Rightarrow>
             (let opt = long_options ! i
              in if has_arg opt = no_argument \<and> arg \<noteq> None then (Ev_missing w, 0)
                 else if has_arg opt = required_argument \<and> arg = None then
                   (case ws of [] \<Rightarrow> (Ev_missing w, 0) | x # _ \<Rightarrow> (Ev_long (opt_val opt) (Some x) x, 1))
                 else (Ev_long (opt_val opt) arg w, 0))
         | _ \<Rightarrow> (Ev_bad_long w, 0))"

text \<open>The event of a short option, whether the word is finished, and the number of further words used.\<close>

definition short_event :: "string \<Rightarrow> string \<Rightarrow> char \<Rightarrow> string \<Rightarrow> string list \<Rightarrow> opt_event \<times> bool \<times> nat" where
  "short_event options w c rest ws =
     (let oli = dropWhile (\<lambda>x. x \<noteq> c) options
      in if c = CHR '':'' \<or> oli = [] then (Ev_bad_short c, rest = [], 0)
         else if take 1 (tl oli) \<noteq> '':'' then (Ev_short c None, rest = [], 0)
         else if rest \<noteq> [] then (Ev_short c (Some rest), True, 0)
         else if take 2 (tl oli) = ''::'' then (Ev_short c None, True, 0)
         else (case ws of [] \<Rightarrow> (Ev_missing w, True, 0) | x # _ \<Rightarrow> (Ev_short c (Some x), True, 1)))"

fun scan_option :: "string \<Rightarrow> c_option list \<Rightarrow> scan_state \<Rightarrow> opt_event \<times> scan_state" where
  "scan_option options long_options (ns, w, cur, ws) =
     (if hd cur = CHR ''-'' then (case long_event long_options w (tl cur) ws of (ev, used) \<Rightarrow> (ev, ns, [], [], drop used ws))
      else (case short_event options w (hd cur) (tl cur) ws of (ev, ends, used) \<Rightarrow>
              (ev, if ends then (ns, [], [], drop used ws) else (ns, w, tl cur, ws))))"

definition scan_size :: "scan_state \<Rightarrow> nat" where
  "scan_size = (\<lambda>(ns, w, cur, ws). length cur + sum_list (map (\<lambda>v. length v + 1) ws))"

lemma scan_words_size:
  "scan_words px ns ws = Inr (ns', w, cur, ws') \<Longrightarrow> scan_size (ns', w, cur, ws') \<le> scan_size (ns, [], [], ws) \<and> cur \<noteq> []"
proof (induction ws arbitrary: ns)
  case (Cons v ws)
  have "tl v \<noteq> []" if "\<not> operand v" using that by (cases v) (auto simp: operand_def)
  then show ?case using Cons by (fastforce simp: scan_size_def split: if_splits)
qed simp

lemma scan_start_size: "scan_start px s = Inr s' \<Longrightarrow> scan_size s' \<le> scan_size s \<and> fst (snd (snd s')) \<noteq> []"
  by (cases s; cases s') (auto simp: scan_size_def dest: scan_words_size split: if_splits)

lemma sum_list_drop: "sum_list (map f (drop k xs)) \<le> sum_list (map (f :: 'a \<Rightarrow> nat) xs)"
  by (metis append_take_drop_id le_add2 map_append sum_list.append)

lemma scan_option_size:
  assumes "fst (snd (snd s)) \<noteq> []"
  shows "scan_size (snd (scan_option options long_options s)) < scan_size s"
proof -
  obtain ns w c rest ws where s: "s = (ns, w, c # rest, ws)" using assms by (cases s) (auto simp: neq_Nil_conv)
  have d: "scan_size (ns, w', [], drop k ws) < scan_size s" for w' k
    using sum_list_drop [of "\<lambda>v. length v + 1" k ws] by (simp add: s scan_size_def)
  show ?thesis
    using d by (auto simp: s scan_size_def split: prod.splits)
qed

function scan :: "bool \<Rightarrow> string \<Rightarrow> c_option list \<Rightarrow> scan_state \<Rightarrow> opt_event list \<times> string list" where
  "scan px options long_options s =
     (case scan_start px s of
        Inl left \<Rightarrow> ([], left)
      | Inr s' \<Rightarrow>
          (let r = scan px options long_options (snd (scan_option options long_options s'))
           in (fst (scan_option options long_options s') # fst r, snd r)))"
  by auto
termination
proof (relation "measure (\<lambda>(_, _, _, s). scan_size s)")
  fix px options long_options s s' assume "scan_start px s = Inr s'"
  then have "scan_size s' \<le> scan_size s" "fst (snd (snd s')) \<noteq> []" using scan_start_size by blast+
  then show "((px, options, long_options, snd (scan_option options long_options s')), px, options, long_options, s)
      \<in> measure (\<lambda>(_, _, _, s). scan_size s)"
    using scan_option_size [of s' options long_options] by simp
qed simp

declare scan.simps [simp del]


section \<open>The code implements the specification\<close>

text \<open>
  The option strings of argtable: a leading colon, then letters and digits with colons. All options share the variable that
  is set.
\<close>

definition alnum :: "char set" where
  "alnum = set ''abcdefghijklmnopqrstuvwxyzABCDEFGHIJKLMNOPQRSTUVWXYZ0123456789''"

definition good_options :: "string \<Rightarrow> bool" where
  "good_options options \<longleftrightarrow> (\<exists>cs. options = CHR '':'' # cs
     \<and> (\<forall>c \<in> set cs. c = CHR '':'' \<or> c \<in> alnum))"

definition good_long :: "c_option list \<Rightarrow> bool" where
  "good_long long_options \<longleftrightarrow> (\<forall>opt \<in> set long_options. opt_flag opt \<and> has_arg opt \<in> {no_argument, required_argument, optional_argument})"

text \<open>
  The layout of the argument vector: what has been permuted, the non-options met so far, the options
  after them, and the rest.
\<close>

definition layout :: "string list \<Rightarrow> string list \<Rightarrow> string list \<Rightarrow> string list \<Rightarrow> getopt_state \<Rightarrow> bool" where
  "layout pre ns os tail st \<longleftrightarrow> pre \<noteq> [] \<and> nargv st = pre @ ns @ os @ tail \<and> optind st = length pre + length ns + length os
     \<and> \<not> optreset st \<and> nonopt_start st = (if ns = [] then None else Some (length pre))
     \<and> (ns = [] \<longrightarrow> os = [] \<and> nonopt_end st = None)"

definition at_words :: "string list \<Rightarrow> string list \<Rightarrow> getopt_state \<Rightarrow> bool" where
  "at_words ns ws st \<longleftrightarrow> place_str st = [] \<and> (\<exists>pre os. layout pre ns os ws st
     \<and> nonopt_end st = (if os = [] then None else Some (length pre + length ns)))"

definition in_word :: "string list \<Rightarrow> string \<Rightarrow> string \<Rightarrow> string list \<Rightarrow> getopt_state \<Rightarrow> bool" where
  "in_word ns w cur ws st \<longleftrightarrow> place_str st = cur \<and> cur \<noteq> [] \<and> snd (place st) \<noteq> 0 \<and> (\<exists>pre os. layout pre ns os (w # ws) st
     \<and> (ns \<noteq> [] \<longrightarrow> nonopt_end st = Some (length pre + length ns)))"

fun scans :: "scan_state \<Rightarrow> getopt_state \<Rightarrow> bool" where
  "scans (ns, w, cur, ws) st = (if cur = [] then at_words ns ws st else in_word ns w cur ws st)"

definition prev_word :: "getopt_state \<Rightarrow> string" where "prev_word st = nargv st ! (optind st - 1)"

fun ev_match :: "opt_event \<Rightarrow> int \<Rightarrow> getopt_state \<Rightarrow> bool" where
  "ev_match (Ev_long v a p) r st \<longleftrightarrow> r = 0 \<and> flag_val st = v \<and> optarg st = a \<and> prev_word st = p"
| "ev_match (Ev_short c a) r st \<longleftrightarrow> r = c_int c \<and> optarg st = a
     \<and> c \<in> alnum"
| "ev_match (Ev_bad_long p) r st \<longleftrightarrow> r = c_int (CHR ''?'') \<and> optopt st = 0 \<and> prev_word st = p"
| "ev_match (Ev_bad_short c) r st \<longleftrightarrow> r = c_int (CHR ''?'') \<and> optopt st = c_int c"
| "ev_match (Ev_missing p) r st \<longleftrightarrow> r = c_int (CHR '':'') \<and> prev_word st = p"

text \<open>Finishing the current word, and the words used after it.\<close>

lemma layout_finish:
  assumes L: "layout pre ns os (w # ws) st" and E: "ns \<noteq> [] \<longrightarrow> nonopt_end st = Some (length pre + length ns)"
    and st': "nargv st' = nargv st" "optind st' = optind st + 1 + length us" "optreset st' = optreset st"
      "nonopt_start st' = nonopt_start st" "nonopt_end st' = nonopt_end st" "place_str st' = []"
    and ws: "ws = us @ ws'"
  shows "at_words ns ws' st' \<and> prev_word st' = last (w # us)"
proof
  show "at_words ns ws' st'"
  proof (cases "ns = []")
    case True
    then have "layout (pre @ w # us) [] [] ws' st'" using L st' ws by (simp add: layout_def)
    moreover have "nonopt_end st' = (if ([] :: string list) = [] then None else Some (length (pre @ w # us) + length ns))"
      using True L st'(5) by (simp add: layout_def)
    ultimately show ?thesis unfolding True at_words_def using st'(6) by blast
  next
    case False
    then have "layout pre ns (os @ w # us) ws' st'" using L st' ws by (simp add: layout_def)
    moreover have "nonopt_end st' = (if os @ w # us = [] then None else Some (length pre + length ns))"
      using False E st'(5) by simp
    ultimately show ?thesis unfolding at_words_def using st'(6) by blast
  qed
  have "nargv st' = (pre @ ns @ os) @ (w # us) @ ws'" "optind st' = length (pre @ ns @ os) + Suc (length us)"
    using L st' ws by (simp_all add: layout_def)
  then show "prev_word st' = last (w # us)"
    by (simp add: prev_word_def nth_append last_conv_nth)
qed

lemma in_word_finish:
  assumes "in_word ns w cur (us @ ws') st" "nargv st' = nargv st" "optind st' = optind st + 1 + length us" "optreset st' = optreset st"
      "nonopt_start st' = nonopt_start st" "nonopt_end st' = nonopt_end st" "place_str st' = []"
  shows "at_words ns ws' st' \<and> prev_word st' = last (w # us)"
  using assms(1) layout_finish [OF _ _ assms(2-7) refl] by (auto simp: in_word_def)

lemma in_word_argv:
  assumes "in_word ns w cur ws st"
  shows "length (nargv st) = optind st + 1 + length ws" "nargv_at st (optind st + 1) = Some (case ws of [] \<Rightarrow> None | x # _ \<Rightarrow> Some x)"
    "ws = x # xs \<Longrightarrow> nargv st ! (optind st + 1) = x"
  using assms by (auto simp: in_word_def layout_def nargv_at_def nth_append split: list.splits)


text \<open>\<open>rests left st\<close>: what is left from \<open>optind\<close> on.\<close>

definition rests :: "string list \<Rightarrow> getopt_state \<Rightarrow> bool" where
  "rests left st \<longleftrightarrow> optind st \<le> length (nargv st) \<and> drop (optind st) (nargv st) = left"

lemma permute_layout:
  assumes "layout pre ns os tail st" "ns \<noteq> []" "os \<noteq> []"
  shows "permute_args (length pre) (length pre + length ns) (optind st) (nargv st) = Some (pre @ os @ ns @ tail)"
  using permute_args_blocks [OF assms(2,3), of pre tail] assms(1) by (simp add: layout_def add.assoc)

lemma finish_permutation_rests:
  assumes "layout pre ns os tail st" "ns \<noteq> [] \<longrightarrow> os \<noteq> [] \<and> nonopt_end st = Some (length pre + length ns)"
  shows "\<exists>st'. finish_permutation st = Some st' \<and> rests (ns @ tail) st'"
proof (cases "ns = []")
  case True
  then show ?thesis using assms by (auto simp: finish_permutation_def layout_def rests_def)
next
  case False
  then have "nonopt_start st = Some (length pre)" "nonopt_end st = Some (length pre + length ns)" "os \<noteq> []"
    "optind st = length pre + length ns + length os"
    using assms by (auto simp: layout_def)
  then show ?thesis
    using permute_layout [OF assms(1) False] by (simp add: finish_permutation_def rests_def)
qed

lemma getopt_start_words:
  assumes F: "\<not> flag_allargs flags" "flag_permute flags = (\<not> px)" and O: "CHR ''-'' \<notin> set options"
  shows "at_words ns ws st \<Longrightarrow> (px \<longrightarrow> ns = []) \<Longrightarrow>
    (case scan_words px ns ws of
       Inl left \<Rightarrow> \<exists>st'. getopt_start flags options st = Some (Inl (-1), st') \<and> rests left st'
     | Inr s' \<Rightarrow> \<exists>st'. getopt_start flags options st = Some (Inr (), st') \<and> scans s' st' \<and> optarg st' = optarg st
         \<and> (px \<longrightarrow> fst s' = []))"
proof (induction ws arbitrary: ns st)
  case Nil
  obtain pre os where L: "layout pre ns os [] st" and E: "nonopt_end st = (if os = [] then None else Some (length pre + length ns))"
    and p: "place_str st = []" using Nil.prems by (auto simp: at_words_def)
  let ?st = "st\<lparr>optreset := False, place := EMSG\<rparr>"
  have o: "optind st = length (nargv st)" using L by (simp add: layout_def)
  have L': "layout pre ns os [] ?st" using L by (simp add: layout_def)
  show ?case
  proof (cases "ns \<noteq> [] \<and> os = []")
    case True
    then have "nonopt_end st = None" "nonopt_start st = Some (length pre)" "nargv st = pre @ ns" using L E by (auto simp: layout_def)
    then show ?thesis using p o by (simp add: getopt_start.simps Let_def rests_def)
  next
    case False
    then have n: "ns \<noteq> [] \<longrightarrow> os \<noteq> [] \<and> nonopt_end ?st = Some (length pre + length ns)" using E False by auto
    obtain st' where "finish_permutation ?st = Some st'" "rests (ns @ []) st'"
      using finish_permutation_rests [OF L' n] by blast
    moreover have "\<not> (nonopt_end st = None \<and> nonopt_start st \<noteq> None)" using False L E by (auto simp: layout_def)
    ultimately show ?thesis using p o by (auto simp: getopt_start.simps Let_def)
  qed
next
  case (Cons v ws)
  obtain pre os where L: "layout pre ns os (v # ws) st" and E: "nonopt_end st = (if os = [] then None else Some (length pre + length ns))"
    and p: "place_str st = []" using Cons.prems by (auto simp: at_words_def)
  have o: "\<not> optind st \<ge> length (nargv st)" "nargv st ! optind st = v" using L by (auto simp: layout_def nth_append)
  let ?st = "st\<lparr>optreset := False\<rparr>"
  show ?case
  proof (cases "operand v")
    case True
    then have v: "v = [] \<or> hd v \<noteq> CHR ''-'' \<or> (length v = 1 \<and> CHR ''-'' \<notin> set options)" using O by (simp add: operand_def)
    show ?thesis
    proof (cases px)
      case True
      then have "getopt_start flags options st = Some (Inl (-1), ?st\<lparr>place := EMSG\<rparr>)"
        using p o v F by (simp add: getopt_start.simps [of flags options st] Let_def)
      moreover have "rests (v # ws) (?st\<lparr>place := EMSG\<rparr>)"
        using L True Cons.prems(2) by (simp add: layout_def rests_def)
      ultimately show ?thesis using True \<open>operand v\<close> Cons.prems(2) by simp
    next
      case False
      have "\<exists>st'. getopt_start flags options st = getopt_start flags options st' \<and> at_words (ns @ [v]) ws st' \<and> optarg st' = optarg st"
      proof (cases "ns = []")
        case True
        let ?s1 = "?st\<lparr>place := EMSG, nonopt_start := Some (optind st), optind := optind st + 1\<rparr>"
        have "getopt_start flags options st = getopt_start flags options ?s1"
          using p o v F False True L by (simp add: getopt_start.simps [of flags options st] Let_def layout_def)
        moreover have "at_words [v] ws ?s1"
          using L True by (auto simp: at_words_def layout_def place_str_def EMSG_def intro!: exI [of _ pre])
        ultimately show ?thesis using True by (intro exI [of _ ?s1]) simp
      next
        case ns: False
        show ?thesis
        proof (cases "os = []")
          case True
          let ?s1 = "?st\<lparr>place := EMSG, optind := optind st + 1\<rparr>"
          have "getopt_start flags options st = getopt_start flags options ?s1"
            using p o v F False ns L E True by (simp add: getopt_start.simps [of flags options st] Let_def layout_def)
          moreover have "at_words (ns @ [v]) ws ?s1"
            using L True ns E by (auto simp: at_words_def layout_def place_str_def EMSG_def intro!: exI [of _ pre])
          ultimately show ?thesis by (intro exI [of _ ?s1]) simp
        next
          case os: False
          let ?s1 = "?st\<lparr>place := EMSG, nargv := pre @ os @ ns @ v # ws, nonopt_start := Some (optind st - length ns), nonopt_end := None,
             optind := optind st + 1\<rparr>"
          have "nonopt_start st = Some (length pre)" "nonopt_end st = Some (length pre + length ns)"
            using L E ns os by (simp_all add: layout_def)
          then have "getopt_start flags options st = getopt_start flags options ?s1"
            using p o v F False permute_layout [OF L ns os] by (simp add: getopt_start.simps [of flags options st] Let_def)
          moreover have "at_words (ns @ [v]) ws ?s1"
            using L os ns by (auto simp: at_words_def layout_def place_str_def EMSG_def intro!: exI [of _ "pre @ os"])
          ultimately show ?thesis by (intro exI [of _ ?s1]) simp
        qed
      qed
      then obtain st' where st': "getopt_start flags options st = getopt_start flags options st'" "at_words (ns @ [v]) ws st'" "optarg st' = optarg st"
        by blast
      show ?thesis using Cons.IH [OF st'(2)] False \<open>operand v\<close> unfolding st'(1,3) [symmetric] by simp
    qed
  next
    case False
    then have v: "\<not> (v = [] \<or> hd v \<noteq> CHR ''-'' \<or> (length v = 1 \<and> CHR ''-'' \<notin> set options))" "length v \<noteq> 1" "v \<noteq> []"
      by (auto simp: operand_def)
    let ?s1 = "?st\<lparr>place := (v, 1), nonopt_end := if nonopt_start st \<noteq> None \<and> nonopt_end st = None then Some (optind st) else nonopt_end st\<rparr>"
    have E1: "ns \<noteq> [] \<longrightarrow> nonopt_end ?s1 = Some (length pre + length ns)" using L E by (auto simp: layout_def)
    show ?thesis
    proof (cases "v = ''--''")
      case True
      let ?s2 = "?s1\<lparr>optind := optind st + 1, place := EMSG\<rparr>"
      have g: "getopt_start flags options st = Option.bind (finish_permutation ?s2) (\<lambda>st. Some (Inl (-1), st))"
        using p o v True by (simp add: getopt_start.simps [of flags options st] Let_def)
      show ?thesis
      proof (cases "ns = []")
        case ns: True
        then have "layout (pre @ [v]) [] [] ws ?s2" using L by (simp add: layout_def)
        then obtain st' where "finish_permutation ?s2 = Some st'" "rests ([] @ ws) st'"
          using finish_permutation_rests [of "pre @ [v]" "[]" "[]" ws ?s2] by blast
        then show ?thesis using g True False ns by (simp del: fun_upd_apply)
      next
        case ns: False
        then have "layout pre ns (os @ [v]) ws ?s2" using L by (simp add: layout_def)
        moreover have "ns \<noteq> [] \<longrightarrow> os @ [v] \<noteq> [] \<and> nonopt_end ?s2 = Some (length pre + length ns)" using E1 by simp
        ultimately obtain st' where "finish_permutation ?s2 = Some st'" "rests (ns @ ws) st'"
          using finish_permutation_rests [of pre ns "os @ [v]" ws ?s2] by blast
        then show ?thesis using g True False by simp
      qed
    next
      case dd: False
      have g: "getopt_start flags options st = Some (Inr (), ?s1)"
        using p o v dd by (simp add: getopt_start.simps [of flags options st] Let_def)
      have t: "tl v \<noteq> []" using v by (cases v) auto
      have "layout pre ns os (v # ws) ?s1" using L by (auto simp: layout_def)
      moreover have "place_str ?s1 = tl v" by (simp add: place_str_def drop_Suc)
      moreover have "snd (place ?s1) \<noteq> 0" by simp
      ultimately have "in_word ns v (tl v) ws ?s1" unfolding in_word_def using t E1 by blast
      then have sc: "scans (ns, v, tl v, ws) ?s1" using t by simp
      have "scan_words px ns (v # ws) = Inr (ns, v, tl v, ws)" using False dd by simp
      then show ?thesis using g sc Cons.prems(2) by (simp only: sum.case) (intro exI [of _ ?s1] conjI, simp_all)
    qed
  qed
qed


lemma c_int_alnum: "c \<in> alnum \<Longrightarrow> c_int c \<noteq> -1 \<and> c_int c \<noteq> 0 \<and> c_int c \<noteq> c_int (CHR ''?'') \<and> c_int c \<noteq> c_int (CHR '':'')"
proof -
  have "list_all (\<lambda>c. c_int c \<noteq> -1 \<and> c_int c \<noteq> 0 \<and> c_int c \<noteq> c_int (CHR ''?'') \<and> c_int c \<noteq> c_int (CHR '':''))
      ''abcdefghijklmnopqrstuvwxyzABCDEFGHIJKLMNOPQRSTUVWXYZ0123456789''"
    by code_simp
  then show "c \<in> alnum \<Longrightarrow> c_int c \<noteq> -1 \<and> c_int c \<noteq> 0 \<and> c_int c \<noteq> c_int (CHR ''?'') \<and> c_int c \<noteq> c_int (CHR '':'')"
    unfolding list_all_iff alnum_def by blast
qed

lemma alnum_chars: "CHR ''-'' \<notin> alnum" "CHR '';'' \<notin> alnum" "CHR '':'' \<notin> alnum" "CHR ''?'' \<notin> alnum" "CHR ''+'' \<notin> alnum"
  unfolding alnum_def by code_simp+

lemma c_int_codes: "c_int (CHR ''?'') = 63" "c_int (CHR '':'') = 58"
  by code_simp+

lemma match_long_range:
  "match_long opts cur len short_too k m = Inr (Some i) \<Longrightarrow> m = Some i \<or> k \<le> i \<and> i < k + length opts"
  by (induction opts cur len short_too k m rule: match_long.induct) (auto split: if_splits)

lemma parse_long_scan:
  assumes W: "in_word ns w cur ws st" and n: "place_str st1 = name" and o: "optarg st = None" "good_long long_options" "BADARG options = c_int (CHR '':'')"
    and st1: "nargv st1 = nargv st" "optind st1 = optind st" "optreset st1 = optreset st" "optarg st1 = optarg st"
      "nonopt_start st1 = nonopt_start st" "nonopt_end st1 = nonopt_end st"
    and ev: "long_event long_options w name ws = (ev, used)"
  shows "\<exists>r st'. parse_long_options options long_options False st1 = Some (r, st') \<and> r \<noteq> -1
     \<and> ev_match ev r (st'\<lparr>place := EMSG\<rparr>) \<and> at_words ns (drop used ws) (st'\<lparr>place := EMSG\<rparr>)"
proof -
  let ?len = "length (takeWhile (\<lambda>c. c \<noteq> CHR ''='') name)"
  let ?arg = "if ?len < length name then Some (drop (?len + 1) name) else None"
  have fin: "at_words ns ws' (st'\<lparr>place := EMSG\<rparr>) \<and> prev_word (st'\<lparr>place := EMSG\<rparr>) = last (w # us)"
    if "ws = us @ ws'" "nargv st' = nargv st" "optind st' = optind st + 1 + length us" "optreset st' = optreset st"
      "nonopt_start st' = nonopt_start st" "nonopt_end st' = nonopt_end st" for us ws' st'
    using in_word_finish [of ns w cur us ws' st "st'\<lparr>place := EMSG\<rparr>"] that W by (simp add: place_str_def EMSG_def)
  note fin0 = fin [of "[]" ws, simplified]
  have end0: "at_words ns ws s" "prev_word s = w" if "nargv s = nargv st" "optind s = Suc (optind st)" "optreset s = optreset st"
      "nonopt_start s = nonopt_start st" "nonopt_end s = nonopt_end st" "place_str s = []" for s
    using in_word_finish [of ns w cur "[]" ws st s] that W by simp_all
  have end1: "at_words ns xs s" "prev_word s = x" if "ws = x # xs" "nargv s = nargv st" "optind s = Suc (Suc (optind st))"
      "optreset s = optreset st" "nonopt_start s = nonopt_start st" "nonopt_end s = nonopt_end st" "place_str s = []" for s x xs
    using in_word_finish [of ns w cur "[x]" xs st s] that W by simp_all
  note A = in_word_argv [OF W]
  let ?s = "st1\<lparr>optind := optind st1 + 1\<rparr>"
  have warn: "nargv (warnx options m s) = nargv s" "optind (warnx options m s) = optind s" "optreset (warnx options m s) = optreset s"
    "nonopt_start (warnx options m s) = nonopt_start s" "nonopt_end (warnx options m s) = nonopt_end s" for m s
    by (simp_all add: warnx_def)
  show ?thesis
  proof (cases "match_long long_options name ?len False 0 None")
    case (Inl u)
    let ?s' = "(warnx options (''ambiguous option -- '' @ take ?len name) ?s)\<lparr>optopt := 0\<rparr>"
    have "parse_long_options options long_options False st1 = Some (BADCH, ?s')" "(ev, used) = (Ev_bad_long w, 0)"
      using Inl n ev by (simp_all add: parse_long_options_def long_event_def Let_def)
    then show ?thesis using fin0 [of ?s'] st1 warn by (auto simp: BADCH_def c_int_codes)
  next
    case (Inr m)
    show ?thesis
    proof (cases m)
      case None
      let ?s' = "(warnx options (''unknown option -- '' @ name) ?s)\<lparr>optopt := 0\<rparr>"
      have "parse_long_options options long_options False st1 = Some (BADCH, ?s')" "(ev, used) = (Ev_bad_long w, 0)"
        using Inr None n ev by (simp_all add: parse_long_options_def long_event_def Let_def)
      then show ?thesis using fin0 [of ?s'] st1 warn by (auto simp: BADCH_def c_int_codes)
    next
      case (Some i)
      let ?o = "long_options ! i"
      have "i < length long_options" using match_long_range [OF Inr [unfolded Some]] by simp
      then have g: "opt_flag ?o" "has_arg ?o \<in> {no_argument, required_argument, optional_argument}"
        using o(2) by (auto simp: good_long_def)
      consider "has_arg ?o = no_argument" "?arg \<noteq> None" | "has_arg ?o = no_argument" "?arg = None"
        | "has_arg ?o = required_argument" "?arg = None" "ws = []" | x xs where "has_arg ?o = required_argument" "?arg = None" "ws = x # xs"
        | a where "has_arg ?o = required_argument" "?arg = Some a" | "has_arg ?o = optional_argument"
        using g(2) by (cases ws; cases ?arg) auto
      then show ?thesis
      proof cases
        case 1
        then have "(ev, used) = (Ev_missing w, 0)" using ev Inr Some by (simp add: long_event_def Let_def)
        with 1 g Inr Some n o st1 warn show ?thesis
          by (auto simp: parse_long_options_def Let_def c_int_codes place_str_def EMSG_def intro!: end0)
      next
        case 2
        then have "(ev, used) = (Ev_long (opt_val ?o) None w, 0)" using ev Inr Some
          by (simp add: long_event_def Let_def no_argument_def required_argument_def)
        with 2 g Inr Some n o st1 warn show ?thesis
          by (auto simp: parse_long_options_def Let_def place_str_def EMSG_def no_argument_def required_argument_def
              optional_argument_def intro!: end0)
      next
        case 3
        then have "(ev, used) = (Ev_missing w, 0)" using ev Inr Some
          by (simp add: long_event_def Let_def no_argument_def required_argument_def)
        with 3 g Inr Some n o st1 warn A show ?thesis
          by (auto simp: parse_long_options_def Let_def place_str_def EMSG_def no_argument_def required_argument_def
              optional_argument_def nargv_at_def c_int_codes intro!: end0 [unfolded 3(3)])
      next
        case 4
        then have "(ev, used) = (Ev_long (opt_val ?o) (Some x) x, 1)" using ev Inr Some
          by (simp add: long_event_def Let_def no_argument_def required_argument_def)
        with 4 g Inr Some n o st1 warn A show ?thesis
          by (auto simp: parse_long_options_def Let_def place_str_def EMSG_def no_argument_def required_argument_def
              optional_argument_def nargv_at_def intro!: end1)
      next
        case 5
        then have "(ev, used) = (Ev_long (opt_val ?o) (Some a) w, 0)" using ev Inr Some
          by (simp add: long_event_def Let_def no_argument_def required_argument_def split: if_splits)
        with 5 g Inr Some n o st1 warn show ?thesis
          by (auto simp: parse_long_options_def Let_def place_str_def EMSG_def no_argument_def required_argument_def
              optional_argument_def intro!: end0 split: if_splits)
      next
        case 6
        then have "(ev, used) = (Ev_long (opt_val ?o) ?arg w, 0)" using ev Inr Some
          by (simp add: long_event_def Let_def no_argument_def required_argument_def optional_argument_def)
        with 6 g Inr Some n o st1 warn show ?thesis
          by (auto simp: parse_long_options_def Let_def place_str_def EMSG_def no_argument_def required_argument_def
              optional_argument_def intro!: end0 split: if_splits)
      qed
    qed
  qed
qed


lemma good_optionsD:
  assumes "good_options options"
  shows "CHR ''-'' \<notin> set options" "CHR '';'' \<notin> set options" "BADARG options = c_int (CHR '':'')"
    "c \<in> set options \<Longrightarrow> c \<noteq> CHR '':'' \<Longrightarrow> c \<in> alnum" "options \<noteq> []" "hd options = CHR '':''"
proof -
  obtain cs where cs: "options = CHR '':'' # cs" "\<forall>c \<in> set cs. c = CHR '':'' \<or> c \<in> alnum"
    using assms unfolding good_options_def by blast
  have sub: "x = CHR '':'' \<or> x \<in> alnum" if "x \<in> set options" for x using that cs by auto
  show "CHR ''-'' \<notin> set options" "CHR '';'' \<notin> set options"
    using sub [of "CHR ''-''"] sub [of "CHR '';''"] alnum_chars(1,2) by auto
  show "BADARG options = c_int (CHR '':'')" "options \<noteq> []" "hd options = CHR '':''" by (simp_all add: BADARG_def cs(1))
  show "c \<in> alnum" if "c \<in> set options" "c \<noteq> CHR '':''" using sub that by blast
qed

lemma drop_Suc_tl: "drop (Suc k) xs = tl (drop k xs)"
  by (simp only: drop_Suc tl_drop)

lemma place_next: "place s = (fst (place st), Suc (snd (place st))) \<Longrightarrow> place_str s = tl (place_str st)"
  by (simp add: place_str_def drop_Suc_tl)

lemma in_word_next:
  assumes "in_word ns w (c # rest) ws st" "rest \<noteq> []"
    and "nargv s = nargv st" "optind s = optind st" "optreset s = optreset st" "nonopt_start s = nonopt_start st"
      "nonopt_end s = nonopt_end st" "place s = (fst (place st), Suc (snd (place st)))"
  shows "in_word ns w rest ws s"
proof -
  have "place_str s = rest" using assms(1) place_next [OF assms(8)] by (simp add: in_word_def)
  moreover have "layout pre ns os (w # ws) s" if "layout pre ns os (w # ws) st" for pre os
    using that assms(3-7) by (simp add: layout_def)
  ultimately show ?thesis using assms unfolding in_word_def by fastforce
qed

lemma warnx_fields:
  "nargv (warnx options m s) = nargv s" "optind (warnx options m s) = optind s" "optreset (warnx options m s) = optreset s"
  "nonopt_start (warnx options m s) = nonopt_start s" "nonopt_end (warnx options m s) = nonopt_end s" "place (warnx options m s) = place s"
  by (simp_all add: warnx_def)

lemma getopt_option_scan:
  assumes W: "in_word ns w cur ws st" and G: "good_options options" "good_long long_options" "\<not> flag_longonly flags" "optarg st = None"
    and ev: "scan_option options long_options (ns, w, cur, ws) = (ev, s')"
  shows "\<exists>r st'. getopt_option flags options (Some long_options) st = Some (r, st') \<and> r \<noteq> -1 \<and> ev_match ev r st' \<and> scans s' st'"
proof -
  note O = good_optionsD [OF G(1)]
  obtain c rest where cur: "cur = c # rest" and p: "place_str st = c # rest" and sn: "snd (place st) \<noteq> 0"
    using W by (cases cur) (auto simp: in_word_def)
  show ?thesis
  proof (cases "c = CHR ''-''")
    case True
    obtain used where e: "long_event long_options w rest ws = (ev, used)" "s' = (ns, [], [], drop used ws)"
      using ev by (auto simp: cur True split: prod.splits)
    let ?s1 = "st\<lparr>place := (fst (place st), Suc (snd (place st)))\<rparr>"
    have n: "place_str ?s1 = rest" using place_next [of ?s1 st] p by simp
    obtain r st' where "parse_long_options options long_options False ?s1 = Some (r, st')" "r \<noteq> -1"
      "ev_match ev r (st'\<lparr>place := EMSG\<rparr>)" "at_words ns (drop used ws) (st'\<lparr>place := EMSG\<rparr>)"
      using parse_long_scan [OF W n G(4,2) O(3) _ _ _ _ _ _ e(1)] by auto
    then show ?thesis using p sn e(2) True by (simp add: getopt_option_def Let_def)
  next
    case False
    obtain ends used where e: "short_event options w c rest ws = (ev, ends, used)"
      "s' = (if ends then (ns, [], [], drop used ws) else (ns, w, rest, ws))"
      using ev False by (auto simp: cur split: prod.splits)
    let ?oli = "dropWhile (\<lambda>x. x \<noteq> c) options"
    let ?place = "(fst (place st), Suc (snd (place st)))"
    have dw: "set ?oli \<subseteq> set options" using set_dropWhileD by fast
    have step: "scans (if rest = [] then (ns, [], [], ws) else (ns, w, rest, ws)) s"
      if "nargv s = nargv st" "optind s = (if rest = [] then Suc (optind st) else optind st)" "optreset s = optreset st"
        "nonopt_start s = nonopt_start st" "nonopt_end s = nonopt_end st" "place s = ?place" for s
      using in_word_next [OF W [unfolded cur], of s] in_word_finish [of ns w cur "[]" ws st s] W place_next [OF that(6)] that p
      by auto
    have fin: "at_words ns ws' s \<and> prev_word s = last (w # us)"
      if "ws = us @ ws'" "nargv s = nargv st" "optind s = optind st + 1 + length us" "optreset s = optreset st"
        "nonopt_start s = nonopt_start st" "nonopt_end s = nonopt_end st" "place s = EMSG" for us ws' s
      using in_word_finish [of ns w cur us ws' st s] that W by (simp add: place_str_def EMSG_def)
    note warn = warnx_fields [of options]
    show ?thesis
    proof (cases "c = CHR '':'' \<or> ?oli = []")
      case True
      let ?s1 = "st\<lparr>place := ?place, optind := if rest = [] then Suc (optind st) else optind st\<rparr>"
      let ?s' = "(warnx options (''unknown option -- '' @ [c]) ?s1)\<lparr>optopt := c_int c\<rparr>"
      have "getopt_option flags options (Some long_options) st = Some (BADCH, ?s')"
        using True False G(3) p by (simp add: getopt_option_def c_assert_def Let_def)
      moreover have "s' = (if rest = [] then (ns, [], [], ws) else (ns, w, rest, ws))" "ev = Ev_bad_short c"
        using e True by (auto simp: short_event_def Let_def)
      ultimately show ?thesis using step [of ?s'] warn by (simp add: BADCH_def c_int_codes)
    next
      case found: False
      then have "c \<in> set options" by auto
      then have al: "c \<in> alnum" using O(4) [of c] found by simp
      note al' = c_int_alnum [OF al]
      obtain d os where "?oli = d # os" using found by (cases ?oli) auto
      then have oli: "?oli = c # os" using hd_dropWhile [of "\<lambda>x. x \<noteq> c" options] by simp
      have nc: "c \<noteq> CHR '':''" using found by simp
      have "CHR '';'' \<notin> set os" using O(2) dw oli by auto
      then have "os = [] \<or> (\<exists>z zs. os = z # zs \<and> z \<noteq> CHR '';'' \<and> z \<noteq> CHR '':'') \<or> (\<exists>zs. os = CHR '':'' # zs)"
        by (cases os; simp; metis)
      then consider "os = [] \<or> (\<exists>z zs. os = z # zs \<and> z \<noteq> CHR '';'' \<and> z \<noteq> CHR '':'')" | zs where "os = CHR '':'' # zs"
        by (elim disjE exE conjE) iprover+
      then show ?thesis
      proof cases
        case 1
        let ?s' = "st\<lparr>place := ?place, optind := if rest = [] then Suc (optind st) else optind st\<rparr>"
        have A: "getopt_option flags options (Some long_options) st = Some (c_int c, ?s')
            \<and> short_event options w c rest ws = (Ev_short c None, rest = [], 0)" if "os = []"
          using that oli nc False G(3) p by (simp add: getopt_option_def short_event_def c_assert_def Let_def del: dropWhile_eq_Nil_conv)
        have B: "getopt_option flags options (Some long_options) st = Some (c_int c, ?s')
            \<and> short_event options w c rest ws = (Ev_short c None, rest = [], 0)"
          if "os = z # zs" "z \<noteq> CHR '';''" "z \<noteq> CHR '':''" for z zs
          using that oli nc False G(3) p by (simp add: getopt_option_def short_event_def c_assert_def Let_def del: dropWhile_eq_Nil_conv)
        have "getopt_option flags options (Some long_options) st = Some (c_int c, ?s')"
          and "short_event options w c rest ws = (Ev_short c None, rest = [], 0)"
          using 1 A B by blast+
        moreover from this(2) have "s' = (if rest = [] then (ns, [], [], ws) else (ns, w, rest, ws))" "ev = Ev_short c None"
          using e by auto
        ultimately show ?thesis using step [of ?s'] al al' G(4) by simp
      next
        case (2 zs)
        note zs = oli [unfolded 2]
        let ?f = "getopt_option flags options (Some long_options) st"
        consider "rest \<noteq> []" | "rest = []" "zs \<noteq> []" "hd zs = CHR '':''"
          | "rest = []" "zs = [] \<or> hd zs \<noteq> CHR '':''" "ws = []"
          | x xs where "rest = []" "zs = [] \<or> hd zs \<noteq> CHR '':''" "ws = x # xs"
          by (cases ws) auto
        then show ?thesis
        proof cases
          case 1
          let ?s' = "st\<lparr>optarg := Some rest, place := EMSG, optind := optind st + 1\<rparr>"
          have "?f = Some (c_int c, ?s')"
            using 1 zs nc False G(3) p by (simp add: getopt_option_def c_assert_def Let_def del: dropWhile_eq_Nil_conv)
          moreover have "s' = (ns, [], [], ws)" "ev = Ev_short c (Some rest)"
            using e 1 zs nc by (simp_all add: short_event_def Let_def del: dropWhile_eq_Nil_conv)
          ultimately show ?thesis using fin [of "[]" ws ?s'] al al' by simp
        next
          case 2
          let ?s' = "st\<lparr>optarg := None, place := EMSG, optind := optind st + 1\<rparr>"
          have "?f = Some (c_int c, ?s')"
            using 2 zs nc False G(3) p by (simp add: getopt_option_def c_assert_def Let_def del: dropWhile_eq_Nil_conv)
          moreover have "s' = (ns, [], [], ws)" "ev = Ev_short c None"
            using e 2 zs nc by (cases zs; simp add: short_event_def Let_def del: dropWhile_eq_Nil_conv)+
          ultimately show ?thesis using fin [of "[]" ws ?s'] al al' by simp
        next
          case 3
          let ?s' = "(warnx options (''option requires an argument -- '' @ [c])
            (st\<lparr>optarg := None, optind := optind st + 1, place := EMSG\<rparr>))\<lparr>optopt := c_int c\<rparr>"
          have "?f = Some (BADARG options, ?s')"
            using 3 zs nc False G(3) p in_word_argv(1) [OF W] by (simp add: getopt_option_def c_assert_def Let_def del: dropWhile_eq_Nil_conv)
          moreover have "s' = (ns, [], [], ws)" "ev = Ev_missing w"
            using e 3 zs nc by (cases zs; auto simp: short_event_def Let_def del: dropWhile_eq_Nil_conv)+
          ultimately show ?thesis using fin [of "[]" ws ?s'] warn O(3) by (simp add: c_int_codes)
        next
          case 4
          let ?s' = "st\<lparr>optarg := Some x, place := EMSG, optind := optind st + 2\<rparr>"
          have "?f = Some (c_int c, ?s')"
            using 4 zs nc False G(3) p in_word_argv(1,3) [OF W] by (simp add: getopt_option_def c_assert_def Let_def del: dropWhile_eq_Nil_conv)
          moreover have "s' = (ns, [], [], xs)" "ev = Ev_short c (Some x)"
            using e 4 zs nc by (cases zs; auto simp: short_event_def Let_def del: dropWhile_eq_Nil_conv)+
          ultimately show ?thesis using fin [of "[x]" xs ?s'] 4 al al' by simp
        qed
      qed
    qed
  qed
qed

lemma getopt_long_scan:
  assumes S: "scans s st" "px \<longrightarrow> fst s = []" and G: "good_options options" "good_long long_options"
  shows "case scan_start px s of
      Inl left \<Rightarrow> \<exists>st'. getopt_long px (Some options) long_options st = Some (-1, st') \<and> rests left st'
    | Inr s1 \<Rightarrow> \<exists>r st'. getopt_long px (Some options) long_options st = Some (r, st') \<and> r \<noteq> -1
        \<and> ev_match (fst (scan_option options long_options s1)) r st'
        \<and> scans (snd (scan_option options long_options s1)) st'
        \<and> (px \<longrightarrow> fst (snd (scan_option options long_options s1)) = [])"
proof -
  note O = good_optionsD [OF G(1)]
  obtain ns w cur ws where s: "s = (ns, w, cur, ws)" by (cases s)
  let ?flags = "\<lparr>flag_permute = \<not> px, flag_allargs = False, flag_longonly = False\<rparr>"
  let ?st = "st\<lparr>optarg := None\<rparr>"
  have i: "optind st \<noteq> 0" "\<not> optreset st" using S(1) by (auto simp: s at_words_def in_word_def layout_def split: if_splits)
  have h: "hd options \<noteq> CHR ''+''" "hd options \<noteq> CHR ''-''" using O(6) by simp_all
  have g: "getopt_long px (Some options) long_options st = Option.bind (getopt_start ?flags options ?st)
      (\<lambda>(r, st). case r of Inl v \<Rightarrow> Some (v, st) | Inr _ \<Rightarrow> getopt_option ?flags options (Some long_options) st)"
    using i h by (cases px; simp add: getopt_long_def getopt_internal_def Let_def cong del: sum.case_cong_weak)
  have opt: "\<exists>r st'. getopt_option ?flags options (Some long_options) st1 = Some (r, st') \<and> r \<noteq> -1
        \<and> ev_match (fst (scan_option options long_options s1)) r st'
        \<and> scans (snd (scan_option options long_options s1)) st'
        \<and> (px \<longrightarrow> fst (snd (scan_option options long_options s1)) = [])"
    if "scans s1 st1" "optarg st1 = None" "fst (snd (snd s1)) \<noteq> []" "px \<longrightarrow> fst s1 = []" for s1 st1
  proof -
    obtain ns1 w1 cur1 ws1 where s1: "s1 = (ns1, w1, cur1, ws1)" by (cases s1)
    have "in_word ns1 w1 cur1 ws1 st1" using that s1 by simp
    moreover obtain ev s' where ev: "scan_option options long_options (ns1, w1, cur1, ws1) = (ev, s')" by (meson surj_pair)
    moreover have "fst s' = ns1" using ev by (auto split: prod.splits if_splits)
    ultimately show ?thesis
      using getopt_option_scan [OF _ G _ that(2), of ns1 w1 cur1 ws1 ?flags ev s'] that(4) by (auto simp: s1 simp del: scan_option.simps)
  qed
  show ?thesis
  proof (cases "cur = []")
    case True
    have A: "at_words ns ws ?st" using S(1) True by (simp add: s at_words_def layout_def place_str_def)
    have B: "px \<longrightarrow> ns = []" using S(2) by (simp add: s)
    have C: "\<not> flag_allargs ?flags" "flag_permute ?flags = (\<not> px)" by simp_all
    note W = getopt_start_words [OF C O(1) A B]
    show ?thesis
    proof (cases "scan_words px ns ws")
      case (Inl left)
      then show ?thesis using W True g by (auto simp: s)
    next
      case (Inr s1)
      then obtain st1 where st1: "getopt_start ?flags options ?st = Some (Inr (), st1)" "scans s1 st1" "optarg st1 = None" "px \<longrightarrow> fst s1 = []"
        using W by auto
      have "fst (snd (snd s1)) \<noteq> []" using Inr scan_words_size by (cases s1) fastforce
      then show ?thesis using opt [OF st1(2,3) _ st1(4)] Inr True g st1(1) by (simp add: s)
    qed
  next
    case False
    then have A: "in_word ns w cur ws ?st" using S(1) by (auto simp: s in_word_def layout_def place_str_def)
    then have "getopt_start ?flags options ?st = Some (Inr (), ?st)"
      by (auto simp: getopt_start.simps [of ?flags options ?st] in_word_def layout_def)
    then show ?thesis using opt [of s ?st] A False S(2) g by (simp add: s)
  qed
qed

end
