(* ===== verification/Argtable.thy ===== *)
theory Argtable
  imports Getopt
begin

text \<open>
  The argument tables of the command line tools (\<^verbatim>\<open>argtable3.c\<close>): the kinds of arguments the tools use (switches, strings,
  files, the end of the table), and \<^verbatim>\<open>arg_parse\<close>, which scans a command line on top of \<^verbatim>\<open>getopt_long\<close>.
\<close>

section \<open>Definitions\<close>

subsection \<open>Entries\<close>

definition ARG_TERMINATOR :: u8 where "ARG_TERMINATOR = 1"
definition ARG_HASVALUE :: u8 where "ARG_HASVALUE = 2"
definition ARG_HASOPTVALUE :: u8 where "ARG_HASOPTVALUE = 4"

definition EMINCOUNT :: int where "EMINCOUNT = 1"
definition EMAXCOUNT :: int where "EMAXCOUNT = 2"

definition ARG_ELIMIT :: int where "ARG_ELIMIT = 1"
definition ARG_ENOMATCH :: int where "ARG_ENOMATCH = 3"
definition ARG_ELONGOPT :: int where "ARG_ELONGOPT = 4"
definition ARG_EMISSARG :: int where "ARG_EMISSARG = 5"

text \<open>The counts of a header are not negative. The name of the data type is \<open>arg_datatype\<close>.\<close>

record arg_hdr =
  arg_flag :: u8
  shortopts :: "string option"
  longopts :: "string option"
  arg_datatype :: "string option"
  arg_glossary :: "string option"
  mincount :: nat
  maxcount :: nat

text \<open>
  The kinds of entries with their arrays, which stand for the functions of the header too. A parent is the index of an entry
  in the table. The three arrays of the end of the table are one list of triples, without the elements from \<open>a_count\<close> on:
  they are never read. The count itself is not initialised before \<^verbatim>\<open>arg_reset\<close>.
\<close>

datatype arg_data =
    Lit_data
  | Str_data (str_values: "string list")
  | File_data (file_names: "string list") (file_basenames: "string list") (file_extensions: "string list")
  | End_data (end_errors: "(int \<times> nat \<times> string option) list")

record arg_entry =
  hdr :: arg_hdr
  a_count :: nat
  a_data :: arg_data

definition has_flag :: "arg_entry \<Rightarrow> u8 \<Rightarrow> bool" where
  "has_flag e f \<longleftrightarrow> arg_flag (hdr e) AND f \<noteq> 0"

definition arg_litn :: "string option \<Rightarrow> string option \<Rightarrow> nat \<Rightarrow> nat \<Rightarrow> string option \<Rightarrow> arg_entry" where
  "arg_litn shorts longs mincnt maxcnt gloss =
     (let maxcnt = (if maxcnt < mincnt then mincnt else maxcnt)
      in \<lparr>hdr = \<lparr>arg_flag = 0, shortopts = shorts, longopts = longs, arg_datatype = None, arg_glossary = gloss, mincount = mincnt,
            maxcount = maxcnt\<rparr>, a_count = 0, a_data = Lit_data\<rparr>)"

definition arg_lit0 :: "string option \<Rightarrow> string option \<Rightarrow> string option \<Rightarrow> arg_entry" where
  "arg_lit0 shorts longs gloss = arg_litn shorts longs 0 1 gloss"

definition arg_lit1 :: "string option \<Rightarrow> string option \<Rightarrow> string option \<Rightarrow> arg_entry" where
  "arg_lit1 shorts longs gloss = arg_litn shorts longs 1 1 gloss"

definition arg_strn ::
  "string option \<Rightarrow> string option \<Rightarrow> string option \<Rightarrow> nat \<Rightarrow> nat \<Rightarrow> string option \<Rightarrow> arg_entry" where
  "arg_strn shorts longs dtype mincnt maxcnt gloss =
     (let maxcnt = (if maxcnt < mincnt then mincnt else maxcnt)
      in \<lparr>hdr = \<lparr>arg_flag = ARG_HASVALUE, shortopts = shorts, longopts = longs,
            arg_datatype = Some (case dtype of Some d \<Rightarrow> d | None \<Rightarrow> ''<string>''), arg_glossary = gloss, mincount = mincnt,
            maxcount = maxcnt\<rparr>, a_count = 0, a_data = Str_data (replicate maxcnt [])\<rparr>)"

definition arg_str0 :: "string option \<Rightarrow> string option \<Rightarrow> string option \<Rightarrow> string option \<Rightarrow> arg_entry" where
  "arg_str0 shorts longs dtype gloss = arg_strn shorts longs dtype 0 1 gloss"

definition arg_str1 :: "string option \<Rightarrow> string option \<Rightarrow> string option \<Rightarrow> string option \<Rightarrow> arg_entry" where
  "arg_str1 shorts longs dtype gloss = arg_strn shorts longs dtype 1 1 gloss"

definition arg_filen ::
  "string option \<Rightarrow> string option \<Rightarrow> string option \<Rightarrow> nat \<Rightarrow> nat \<Rightarrow> string option \<Rightarrow> arg_entry" where
  "arg_filen shorts longs dtype mincnt maxcnt gloss =
     (let maxcnt = (if maxcnt < mincnt then mincnt else maxcnt)
      in \<lparr>hdr = \<lparr>arg_flag = ARG_HASVALUE, shortopts = shorts, longopts = longs,
            arg_datatype = Some (case dtype of Some d \<Rightarrow> d | None \<Rightarrow> ''<file>''), arg_glossary = gloss, mincount = mincnt,
            maxcount = maxcnt\<rparr>, a_count = 0, a_data = File_data (replicate maxcnt []) (replicate maxcnt []) (replicate maxcnt [])\<rparr>)"

definition arg_file0 :: "string option \<Rightarrow> string option \<Rightarrow> string option \<Rightarrow> string option \<Rightarrow> arg_entry" where
  "arg_file0 shorts longs dtype gloss = arg_filen shorts longs dtype 0 1 gloss"

definition arg_file1 :: "string option \<Rightarrow> string option \<Rightarrow> string option \<Rightarrow> string option \<Rightarrow> arg_entry" where
  "arg_file1 shorts longs dtype gloss = arg_filen shorts longs dtype 1 1 gloss"

definition arg_end :: "nat \<Rightarrow> arg_entry" where
  "arg_end maxcnt =
     \<lparr>hdr = \<lparr>arg_flag = ARG_TERMINATOR, shortopts = None, longopts = None, arg_datatype = None, arg_glossary = None, mincount = 1,
        maxcount = maxcnt\<rparr>, a_count = 0, a_data = End_data []\<rparr>"

subsection \<open>Operations of an entry\<close>

text \<open>The position of the last occurrence of a character.\<close>

definition strrchr :: "string \<Rightarrow> char \<Rightarrow> nat option" where
  "strrchr s c = (if c \<in> set s then Some (length s - 1 - length (takeWhile (\<lambda>x. x \<noteq> c) (rev s))) else None)"

definition FILESEPARATOR :: char where "FILESEPARATOR = CHR ''/''"

definition arg_basename :: "string \<Rightarrow> string" where
  "arg_basename name =
     (let result = (case strrchr name FILESEPARATOR of Some i \<Rightarrow> drop (i + 1) name | None \<Rightarrow> name)
      in if result = ''.'' \<or> result = ''..'' then [] else result)"

text \<open>
  The last step looks at the character after the one the result points to, which is behind the end of the string if there
  is no extension; \<open>behind\<close> is what it finds there. Whatever it is, the result is the same (\<open>arg_extension_behind\<close>).
\<close>

definition arg_extension :: "char \<Rightarrow> string \<Rightarrow> string" where
  "arg_extension behind base =
     (let result = (case strrchr base (CHR ''.'') of Some i \<Rightarrow> i | None \<Rightarrow> length base);
          result = (if result = 0 then length base else result);
          next = (if result + 1 < length base then base ! (result + 1) else if result + 1 = length base then CHR 0x00 else behind);
          result = (if next = CHR 0x00 then length base else result)
      in drop result base)"

lemma arg_extension_behind: "arg_extension b base = arg_extension b' base"
  by (simp add: arg_extension_def Let_def split: option.split)

definition arg_resetfn :: "arg_entry \<Rightarrow> arg_entry" where
  "arg_resetfn e = e\<lparr>a_count := 0, a_data := (case a_data e of End_data _ \<Rightarrow> End_data [] | d \<Rightarrow> d)\<rparr>"

definition has_scanfn :: "arg_entry \<Rightarrow> bool" where
  "has_scanfn e \<longleftrightarrow> (case a_data e of End_data _ \<Rightarrow> False | _ \<Rightarrow> True)"

definition arg_lit_scanfn :: "arg_entry \<Rightarrow> string option \<Rightarrow> int \<times> arg_entry" where
  "arg_lit_scanfn e argval =
     (if a_count e < maxcount (hdr e) then (0, e\<lparr>a_count := a_count e + 1\<rparr>) else (EMAXCOUNT, e))"

definition arg_str_scanfn :: "arg_entry \<Rightarrow> string option \<Rightarrow> (int \<times> arg_entry) option" where
  "arg_str_scanfn e argval =
     (if a_count e = maxcount (hdr e) then Some (EMAXCOUNT, e)
      else case argval of
        None \<Rightarrow> Some (0, e\<lparr>a_count := a_count e + 1\<rparr>)
      | Some v \<Rightarrow>
          do { c_assert (a_count e < length (str_values (a_data e)));
               Some (0, e\<lparr>a_data := Str_data ((str_values (a_data e))[a_count e := v]), a_count := a_count e + 1\<rparr>) })"

text \<open>
  The model does not check the read behind the end of the string in \<open>arg_extension\<close>: by \<open>arg_extension_behind\<close> any character can stand for
  the one that is read.
\<close>

definition arg_file_scanfn :: "arg_entry \<Rightarrow> string option \<Rightarrow> (int \<times> arg_entry) option" where
  "arg_file_scanfn e argval =
     (if a_count e = maxcount (hdr e) then Some (EMAXCOUNT, e)
      else case argval of
        None \<Rightarrow> Some (0, e\<lparr>a_count := a_count e + 1\<rparr>)
      | Some v \<Rightarrow>
          do { let k = a_count e;
               let d = a_data e;
               c_assert (k < length (file_names d) \<and> k < length (file_basenames d) \<and> k < length (file_extensions d));
               Some (0, e\<lparr>a_data := File_data ((file_names d)[k := v]) ((file_basenames d)[k := arg_basename v])
                                      ((file_extensions d)[k := arg_extension (CHR 0x00) (arg_basename v)]), a_count := k + 1\<rparr>) })"

definition arg_scanfn :: "arg_entry \<Rightarrow> string option \<Rightarrow> (int \<times> arg_entry) option" where
  "arg_scanfn e argval =
     (case a_data e of
        Lit_data \<Rightarrow> Some (arg_lit_scanfn e argval)
      | Str_data _ \<Rightarrow> arg_str_scanfn e argval
      | File_data _ _ _ \<Rightarrow> arg_file_scanfn e argval
      | End_data _ \<Rightarrow> None)"

text \<open>The check of the counts; the end of the table has none.\<close>

definition arg_checkfn :: "arg_entry \<Rightarrow> int" where
  "arg_checkfn e = (if has_scanfn e \<and> a_count e < mincount (hdr e) then EMINCOUNT else 0)"

subsection \<open>Tables\<close>

text \<open>Registering an error in the end of the table, at the index \<open>endtable\<close>. If it is full, the last error is replaced.\<close>

definition arg_register_error :: "nat \<Rightarrow> nat \<Rightarrow> int \<Rightarrow> string option \<Rightarrow> arg_entry list \<Rightarrow> arg_entry list option" where
  "arg_register_error endtable parent error argval table =
     do { c_assert (endtable < length table);
          let e = table ! endtable;
          let errs = end_errors (a_data e);
          if a_count e < maxcount (hdr e) then
            Some (table[endtable := e\<lparr>a_data := End_data (errs @ [(error, parent, argval)]), a_count := a_count e + 1\<rparr>])
          else do {
            c_assert (0 < maxcount (hdr e));
            Some (table[endtable := e\<lparr>a_data := End_data (errs[maxcount (hdr e) - 1 := (ARG_ELIMIT, endtable, None)])\<rparr>]) } }"

text \<open>A loop over the entries before the end of the table runs out of it if there is none.\<close>

definition before_end :: "arg_entry list \<Rightarrow> arg_entry list option" where
  "before_end table =
     (if \<exists>e \<in> set table. has_flag e ARG_TERMINATOR then Some (takeWhile (\<lambda>e. \<not> has_flag e ARG_TERMINATOR) table) else None)"

definition arg_endindex :: "arg_entry list \<Rightarrow> nat option" where
  "arg_endindex table = map_option length (before_end table)"

fun find_shortoption :: "arg_entry list \<Rightarrow> char \<Rightarrow> nat \<Rightarrow> nat option option" where
  "find_shortoption [] shortopt tabindex = None"
| "find_shortoption (e # es) shortopt tabindex =
     (if has_flag e ARG_TERMINATOR then Some None
      else if (case shortopts (hdr e) of Some s \<Rightarrow> shortopt \<in> set s | None \<Rightarrow> False) then Some (Some tabindex)
      else find_shortoption es shortopt (tabindex + 1))"

text \<open>
  The long options of one entry, separated by commas; \<open>count_longopts\<close> is how many options the allocation counts for it. It
  starts to look for commas at the second character.
\<close>

function split_longopts :: "string \<Rightarrow> string list" where
  "split_longopts s =
     (if s = [] then []
      else takeWhile (\<lambda>c. c \<noteq> CHR '','') s # split_longopts (tl (dropWhile (\<lambda>c. c \<noteq> CHR '','') s)))"
  by auto
termination
proof (relation "measure length")
  fix s :: string assume "s \<noteq> []"
  have "length (dropWhile (\<lambda>c. c \<noteq> CHR '','') s) \<le> length s" by (rule length_dropWhile_le)
  then show "(tl (dropWhile (\<lambda>c. c \<noteq> CHR '','') s), s) \<in> measure length"
    using \<open>s \<noteq> []\<close> by (cases s) auto
qed simp

declare split_longopts.simps [simp del]

definition count_longopts :: "string option \<Rightarrow> nat option" where
  "count_longopts longs =
     (case longs of
        None \<Rightarrow> Some 0
      | Some [] \<Rightarrow> None
      | Some (_ # s) \<Rightarrow> Some (1 + length (filter (\<lambda>c. c = CHR '','') s)))"

definition entry_longoptions :: "nat \<Rightarrow> arg_entry \<Rightarrow> c_option list" where
  "entry_longoptions tabindex e =
     map (\<lambda>n. \<lparr>opt_name = n,
               has_arg = (if has_flag e ARG_HASOPTVALUE then 2 else if has_flag e ARG_HASVALUE then 1 else 0),
               opt_flag = True, opt_val = int tabindex\<rparr>)
       (case longopts (hdr e) of Some s \<Rightarrow> split_longopts s | None \<Rightarrow> [])"

primrec sum_options :: "nat option list \<Rightarrow> nat option" where
  "sum_options [] = Some 0"
| "sum_options (x # xs) = do { n \<leftarrow> x; m \<leftarrow> sum_options xs; Some (n + m) }"

text \<open>
  The end of the table is counted too. One more element terminates the array; the room for it and the options was counted before.
\<close>

definition alloc_longoptions :: "arg_entry list \<Rightarrow> c_option list option" where
  "alloc_longoptions table =
     do { es \<leftarrow> before_end table;
          n \<leftarrow> sum_options (map (\<lambda>e. count_longopts (longopts (hdr e))) (take (length es + 1) table));
          let options = concat (map (\<lambda>(i, e). entry_longoptions i e) (enumerate 0 es));
          c_assert (length options + 1 \<le> n + 1);
          Some options }"

definition entry_shortoptions :: "arg_entry \<Rightarrow> string" where
  "entry_shortoptions e =
     (case shortopts (hdr e) of
        None \<Rightarrow> []
      | Some s \<Rightarrow> concat (map (\<lambda>c. [c] @ (if has_flag e ARG_HASVALUE then '':'' else [])
                                      @ (if has_flag e ARG_HASOPTVALUE then '':'' else [])) s))"

definition alloc_shortoptions :: "arg_entry list \<Rightarrow> string option" where
  "alloc_shortoptions table = do { es \<leftarrow> before_end table; Some (CHR '':'' # concat (map entry_shortoptions es)) }"

subsection \<open>Parsing\<close>

text \<open>One option for an entry: its scan function, and the error it reports.\<close>

definition arg_scan_at :: "nat \<Rightarrow> nat \<Rightarrow> string option \<Rightarrow> arg_entry list \<Rightarrow> arg_entry list option" where
  "arg_scan_at endtable tabindex argval table =
     do { c_assert (tabindex < length table);
          if has_scanfn (table ! tabindex) then
            do { (errorcode, e) \<leftarrow> arg_scanfn (table ! tabindex) argval;
                 let table = table[tabindex := e];
                 if errorcode \<noteq> 0 then arg_register_error endtable tabindex errorcode argval table else Some table }
          else Some table }"

text \<open>The word before \<open>optind\<close>.\<close>

definition argv_prev :: "getopt_state \<Rightarrow> string option option" where
  "argv_prev gs = (if optind gs = 0 then None else nargv_at gs (optind gs - 1))"

text \<open>What \<^verbatim>\<open>arg_parse_tagged\<close> does with a value of \<^verbatim>\<open>getopt_long\<close>.\<close>

definition arg_tagged_option :: "nat \<Rightarrow> int \<Rightarrow> getopt_state \<Rightarrow> arg_entry list \<Rightarrow> arg_entry list option" where
  "arg_tagged_option endtable copt gs table =
     (if copt = 0 then
        do { let tabindex = nat (flag_val gs);
             c_assert (tabindex < length table);
             table \<leftarrow> (if optarg gs = Some [] \<and> has_flag (table ! tabindex) ARG_HASVALUE
                        then do { v \<leftarrow> argv_prev gs; arg_register_error endtable endtable ARG_EMISSARG v table }
                        else Some table);
             arg_scan_at endtable tabindex (optarg gs) table }
      else if copt = c_int (CHR ''?'') then
        (if optopt gs = 0 then do { v \<leftarrow> argv_prev gs; arg_register_error endtable endtable ARG_ELONGOPT v table }
         else arg_register_error endtable endtable (optopt gs) None table)
      else if copt = c_int (CHR '':'') then
        do { v \<leftarrow> argv_prev gs; arg_register_error endtable endtable ARG_EMISSARG v table }
      else
        do { tabindex \<leftarrow> find_shortoption table (char_of (nat (copt mod 256))) 0;
             (case tabindex of
                None \<Rightarrow> arg_register_error endtable endtable copt None table
              | Some i \<Rightarrow> arg_scan_at endtable i (optarg gs) table) })"

partial_function (option) arg_tagged_loop ::
  "bool \<Rightarrow> string \<Rightarrow> c_option list \<Rightarrow> nat \<Rightarrow> getopt_state \<Rightarrow> arg_entry list \<Rightarrow> (getopt_state \<times> arg_entry list) option" where
  "arg_tagged_loop posixly shortoptions longoptions endtable gs table =
     do { (copt, gs) \<leftarrow> getopt_long posixly (Some shortoptions) longoptions gs;
          if copt = -1 then Some (gs, table)
          else do { table \<leftarrow> arg_tagged_option endtable copt gs table;
                    arg_tagged_loop posixly shortoptions longoptions endtable gs table } }"

definition arg_parse_tagged :: "bool \<Rightarrow> nat \<Rightarrow> getopt_state \<Rightarrow> arg_entry list \<Rightarrow> (getopt_state \<times> arg_entry list) option" where
  "arg_parse_tagged posixly endtable gs table =
     do { longoptions \<leftarrow> alloc_longoptions table;
          shortoptions \<leftarrow> alloc_shortoptions table;
          arg_tagged_loop posixly shortoptions longoptions endtable (gs\<lparr>flag_val := 0, optind := 0, opterr := False\<rparr>) table }"

text \<open>
  The words that are no options are given to the entries without option names, in their order. The first component of the
  result tells that the words are used up; the last is the tentative error.
\<close>

function arg_untagged_loop ::
  "string list \<Rightarrow> nat \<Rightarrow> nat \<Rightarrow> arg_entry list \<Rightarrow> (int \<times> string \<times> nat) option
    \<Rightarrow> (bool \<times> nat \<times> arg_entry list \<times> (int \<times> string \<times> nat) option) option" where
  "arg_untagged_loop argv tabindex ind table lasterr =
     (if \<not> tabindex < length table then None
      else if has_flag (table ! tabindex) ARG_TERMINATOR then Some (False, ind, table, lasterr)
      else if ind \<ge> length argv then Some (True, ind, table, lasterr)
      else if longopts (hdr (table ! tabindex)) \<noteq> None \<or> shortopts (hdr (table ! tabindex)) \<noteq> None
              \<or> \<not> has_scanfn (table ! tabindex) then arg_untagged_loop argv (Suc tabindex) ind table lasterr
      else (case arg_scanfn (table ! tabindex) (Some (argv ! ind)) of
              None \<Rightarrow> None
            | Some (errorcode, e) \<Rightarrow>
                if errorcode = 0 then arg_untagged_loop argv tabindex (Suc ind) (table[tabindex := e]) None
                else arg_untagged_loop argv (Suc tabindex) ind (table[tabindex := e]) (Some (errorcode, argv ! ind, tabindex))))"
  by pat_completeness auto
termination
  by (relation "measure (\<lambda>(argv, tabindex, ind, table, _). (length table - tabindex) + (length argv - ind))") auto

declare arg_untagged_loop.simps [simp del]

primrec arg_unmatched :: "nat \<Rightarrow> string list \<Rightarrow> arg_entry list \<Rightarrow> arg_entry list option" where
  "arg_unmatched endtable [] table = Some table"
| "arg_unmatched endtable (w # ws) table =
     do { table \<leftarrow> arg_register_error endtable endtable ARG_ENOMATCH (Some w) table; arg_unmatched endtable ws table }"

definition arg_parse_untagged :: "nat \<Rightarrow> getopt_state \<Rightarrow> arg_entry list \<Rightarrow> (getopt_state \<times> arg_entry list) option" where
  "arg_parse_untagged endtable gs table =
     do { (finished, ind, table, lasterr) \<leftarrow> arg_untagged_loop (nargv gs) 0 (optind gs) table None;
          if finished then Some (gs\<lparr>optind := ind\<rparr>, table)
          else do {
            (ind, table) \<leftarrow> (case lasterr of
               None \<Rightarrow> Some (ind, table)
             | Some (errorlast, optarglast, parentlast) \<Rightarrow>
                 do { table \<leftarrow> arg_register_error endtable parentlast errorlast (Some optarglast) table; Some (ind + 1, table) });
            table \<leftarrow> arg_unmatched endtable (drop ind (nargv gs)) table;
            Some (gs\<lparr>optind := max ind (length (nargv gs))\<rparr>, table) } }"

text \<open>The indices are those of the table, up to the end of the table; running out of them is running out of the table.\<close>

primrec arg_check_from :: "nat \<Rightarrow> nat list \<Rightarrow> arg_entry list \<Rightarrow> arg_entry list option" where
  "arg_check_from endtable [] table = None"
| "arg_check_from endtable (i # is) table =
     do { let errorcode = arg_checkfn (table ! i);
          let terminator = has_flag (table ! i) ARG_TERMINATOR;
          table \<leftarrow> (if errorcode \<noteq> 0 then arg_register_error endtable i errorcode None table else Some table);
          if terminator then Some table else arg_check_from endtable is table }"

definition arg_parse_check :: "nat \<Rightarrow> arg_entry list \<Rightarrow> arg_entry list option" where
  "arg_parse_check endtable table = arg_check_from endtable [0..<length table] table"

fun arg_reset :: "arg_entry list \<Rightarrow> arg_entry list option" where
  "arg_reset [] = None"
| "arg_reset (e # es) =
     (if has_flag e ARG_TERMINATOR then Some (arg_resetfn e # es)
      else do { es \<leftarrow> arg_reset es; Some (arg_resetfn e # es) })"

text \<open>The result is the number of errors. The argument vector is copied, since \<^verbatim>\<open>getopt_long\<close> permutes it.\<close>

definition arg_parse ::
  "bool \<Rightarrow> string list \<Rightarrow> getopt_state \<Rightarrow> arg_entry list \<Rightarrow> (nat \<times> getopt_state \<times> arg_entry list) option" where
  "arg_parse posixly argv gs table =
     do { table \<leftarrow> arg_reset table;
          endindex \<leftarrow> arg_endindex table;
          if argv = [] then do { table \<leftarrow> arg_parse_check endindex table; Some (a_count (table ! endindex), gs, table) }
          else do {
            (gs, table) \<leftarrow> arg_parse_tagged posixly endindex (gs\<lparr>nargv := argv\<rparr>) table;
            (gs, table) \<leftarrow> arg_parse_untagged endindex gs table;
            table \<leftarrow> (if a_count (table ! endindex) = 0 then arg_parse_check endindex table else Some table);
            Some (a_count (table ! endindex), gs, table) } }"


section \<open>A specification\<close>

text \<open>
  What a command line means: the arguments every entry of the table gets, in their order, and the errors, however many.
\<close>

type_synonym parse_state = "(nat \<Rightarrow> string option list) \<times> (int \<times> nat \<times> string option) list"

definition add_error :: "int \<Rightarrow> nat \<Rightarrow> string option \<Rightarrow> parse_state \<Rightarrow> parse_state" where
  "add_error er p a st = (fst st, snd st @ [(er, p, a)])"

definition take_arg :: "arg_entry list \<Rightarrow> nat \<Rightarrow> string option \<Rightarrow> parse_state \<Rightarrow> parse_state" where
  "take_arg tab i a st =
     (if length (fst st i) < maxcount (hdr (tab ! i)) then ((fst st)(i := fst st i @ [a]), snd st)
      else add_error EMAXCOUNT i a st)"

definition endt :: "arg_entry list \<Rightarrow> nat" where "endt tab = length tab - 1"

definition short_index :: "arg_entry list \<Rightarrow> char \<Rightarrow> nat option" where
  "short_index tab c =
     find (\<lambda>i. case shortopts (hdr (tab ! i)) of Some s \<Rightarrow> c \<in> set s | None \<Rightarrow> False) [0..<endt tab]"

fun event_step :: "arg_entry list \<Rightarrow> opt_event \<Rightarrow> parse_state \<Rightarrow> parse_state" where
  "event_step tab (Ev_long v a p) st =
     take_arg tab (nat v) a
       (if a = Some [] \<and> has_flag (tab ! nat v) ARG_HASVALUE then add_error ARG_EMISSARG (endt tab) (Some p) st else st)"
| "event_step tab (Ev_short c a) st =
     (case short_index tab c of Some i \<Rightarrow> take_arg tab i a st | None \<Rightarrow> add_error (c_int c) (endt tab) None st)"
| "event_step tab (Ev_bad_long p) st = add_error ARG_ELONGOPT (endt tab) (Some p) st"
| "event_step tab (Ev_bad_short c) st = add_error (c_int c) (endt tab) None st"
| "event_step tab (Ev_missing p) st = add_error ARG_EMISSARG (endt tab) (Some p) st"

text \<open>The entries without option names share out the other words; those that are too many are errors.\<close>

definition untagged :: "arg_entry list \<Rightarrow> nat list" where
  "untagged tab = filter (\<lambda>i. longopts (hdr (tab ! i)) = None \<and> shortopts (hdr (tab ! i)) = None) [0..<endt tab]"

fun distribute :: "arg_entry list \<Rightarrow> nat list \<Rightarrow> string list \<Rightarrow> (nat \<Rightarrow> string option list)
    \<Rightarrow> (nat \<Rightarrow> string option list) \<times> string list" where
  "distribute tab [] ws args = (args, ws)"
| "distribute tab (i # is) ws args =
     (let k = maxcount (hdr (tab ! i)) - length (args i)
      in distribute tab is (drop k ws) (args(i := args i @ map Some (take k ws))))"

definition excess :: "arg_entry list \<Rightarrow> string list \<Rightarrow> (int \<times> nat \<times> string option) list" where
  "excess tab ws =
     (case ws of
        [] \<Rightarrow> []
      | v # vs \<Rightarrow>
          (if untagged tab = [] then (ARG_ENOMATCH, endt tab, Some v) else (EMAXCOUNT, last (untagged tab), Some v))
          # map (\<lambda>v. (ARG_ENOMATCH, endt tab, Some v)) vs)"

definition too_few :: "arg_entry list \<Rightarrow> (nat \<Rightarrow> string option list) \<Rightarrow> (int \<times> nat \<times> string option) list" where
  "too_few tab args = map (\<lambda>i. (EMINCOUNT, i, None)) (filter (\<lambda>i. length (args i) < mincount (hdr (tab ! i))) [0..<endt tab])"

definition tab_options :: "arg_entry list \<Rightarrow> string" where
  "tab_options tab = CHR '':'' # concat (map entry_shortoptions (butlast tab))"

definition tab_longoptions :: "arg_entry list \<Rightarrow> c_option list" where
  "tab_longoptions tab = concat (map (\<lambda>(i, e). entry_longoptions i e) (enumerate 0 (butlast tab)))"

definition parse_spec :: "bool \<Rightarrow> arg_entry list \<Rightarrow> string list \<Rightarrow> parse_state" where
  "parse_spec posixly tab argv =
     (let (evs, left) = scan posixly (tab_options tab) (tab_longoptions tab) ([], [], [], tl argv);
          (args, errs) = fold (event_step tab) evs (\<lambda>_. [], []);
          (args, ws) = distribute tab (untagged tab) left args;
          errs = errs @ excess tab ws
      in (args, if errs = [] then too_few tab args else errs))"

text \<open>The table that holds such a result: the arrays of the entries are filled, the errors are cut at the size of their array.\<close>

fun fill :: "(string \<Rightarrow> string) \<Rightarrow> string option list \<Rightarrow> string list \<Rightarrow> string list" where
  "fill f (a # as) (x # xs) = (case a of Some v \<Rightarrow> f v | None \<Rightarrow> x) # fill f as xs"
| "fill f as xs = xs"

definition entry_of :: "arg_entry \<Rightarrow> string option list \<Rightarrow> arg_entry" where
  "entry_of e as = e\<lparr>a_count := length as, a_data :=
     (case a_data e of
        Str_data xs \<Rightarrow> Str_data (fill id as xs)
      | File_data fs bs xs \<Rightarrow> File_data (fill id as fs) (fill arg_basename as bs) (fill (\<lambda>v. arg_extension (CHR 0x00) (arg_basename v)) as xs)
      | d \<Rightarrow> d)\<rparr>"

definition end_of :: "nat \<Rightarrow> arg_entry \<Rightarrow> (int \<times> nat \<times> string option) list \<Rightarrow> arg_entry" where
  "end_of en e errs =
     (let n = maxcount (hdr e)
      in e\<lparr>a_count := min n (length errs),
           a_data := End_data (if length errs \<le> n then errs else take (n - 1) errs @ [(ARG_ELIMIT, en, None)])\<rparr>)"

definition table_of :: "arg_entry list \<Rightarrow> parse_state \<Rightarrow> arg_entry list" where
  "table_of tab st = map (\<lambda>i. entry_of (tab ! i) (fst st i)) [0..<endt tab] @ [end_of (endt tab) (last tab) (snd st)]"

text \<open>The tables of the tools.\<close>

definition good_names :: "string option \<Rightarrow> string option \<Rightarrow> bool" where
  "good_names shorts longs \<longleftrightarrow> (case shorts of Some s \<Rightarrow> set s \<subseteq> alnum | None \<Rightarrow> True)
     \<and> (case longs of Some s \<Rightarrow> s \<noteq> [] \<and> hd s \<noteq> CHR '','' | None \<Rightarrow> True)"

definition wf_arg_entry :: "arg_entry \<Rightarrow> bool" where
  "wf_arg_entry e \<longleftrightarrow> \<not> has_flag e ARG_TERMINATOR
     \<and> (case a_data e of
          Lit_data \<Rightarrow> True
        | Str_data xs \<Rightarrow> length xs = maxcount (hdr e)
        | File_data fs bs xs \<Rightarrow> length fs = maxcount (hdr e) \<and> length bs = maxcount (hdr e) \<and> length xs = maxcount (hdr e)
        | End_data _ \<Rightarrow> False)
     \<and> good_names (shortopts (hdr e)) (longopts (hdr e))"

definition wf_end :: "arg_entry \<Rightarrow> bool" where
  "wf_end e \<longleftrightarrow> has_flag e ARG_TERMINATOR \<and> 0 < maxcount (hdr e) \<and> longopts (hdr e) = None \<and> (\<exists>es. a_data e = End_data es)"

definition wf_table :: "arg_entry list \<Rightarrow> bool" where
  "wf_table tab \<longleftrightarrow> tab \<noteq> [] \<and> list_all wf_arg_entry (butlast tab) \<and> wf_end (last tab)"


text \<open>The constructors.\<close>

lemma wf_constructors [simp]:
  "wf_arg_entry (arg_litn s l i n g) = good_names s l"
  "wf_arg_entry (arg_strn s l d i n g) = good_names s l"
  "wf_arg_entry (arg_filen s l d i n g) = good_names s l"
  "wf_end (arg_end n) \<longleftrightarrow> 0 < n"
  by (simp_all add: wf_arg_entry_def arg_litn_def arg_strn_def arg_filen_def arg_end_def has_flag_def ARG_TERMINATOR_def
      ARG_HASVALUE_def wf_end_def Let_def)

section \<open>Tables that hold a result\<close>

lemma has_flag_of [simp]: "has_flag (entry_of e as) f = has_flag e f" "has_flag (end_of en e errs) f = has_flag e f"
  "hdr (entry_of e as) = hdr e" "hdr (end_of en e errs) = hdr e" "a_count (entry_of e as) = length as"
  by (simp_all add: has_flag_def entry_of_def end_of_def Let_def)

lemma has_scanfn_of [simp]: "has_scanfn (entry_of e as) = has_scanfn e" "\<not> has_scanfn (end_of en e errs)"
  by (simp_all add: has_scanfn_def entry_of_def end_of_def Let_def split: arg_data.splits)

lemma length_table_of [simp]: "tab \<noteq> [] \<Longrightarrow> length (table_of tab st) = length tab"
  by (cases tab) (simp_all add: table_of_def endt_def)

lemma table_of_nth: "i < endt tab \<Longrightarrow> table_of tab st ! i = entry_of (tab ! i) (fst st i)"
  by (simp add: table_of_def nth_append)

lemma table_of_end: "table_of tab st ! endt tab = end_of (endt tab) (last tab) (snd st)"
  by (simp add: table_of_def nth_append)

lemma table_of_set_end:
  "(table_of tab (args, errs))[endt tab := end_of (endt tab) (last tab) errs'] = table_of tab (args, errs')"
  by (simp add: table_of_def list_update_append)

lemma table_of_set:
  assumes "i < endt tab"
  shows "(table_of tab (args, errs))[i := entry_of (tab ! i) as] = table_of tab (args(i := as), errs)"
proof -
  have "(map (\<lambda>i. entry_of (tab ! i) (args i)) [0..<endt tab])[i := entry_of (tab ! i) as]
    = map (\<lambda>j. entry_of (tab ! j) ((args(i := as)) j)) [0..<endt tab]"
    by (rule nth_equalityI) (simp_all add: nth_list_update)
  then show ?thesis using assms by (simp add: table_of_def list_update_append del: fun_upd_apply)
qed

lemma fill_snoc:
  "length as < length xs \<Longrightarrow> fill f (as @ [Some v]) xs = (fill f as xs)[length as := f v]"
  "length as < length xs \<Longrightarrow> fill f (as @ [None]) xs = fill f as xs"
  by (induction f as xs rule: fill.induct) (auto simp: neq_Nil_conv Suc_less_eq2 split: option.splits)

lemma length_fill [simp]: "length (fill f as xs) = length xs"
  by (induction f as xs rule: fill.induct) auto

lemma wf_tableD:
  assumes "wf_table tab"
  shows "tab \<noteq> []" "i < endt tab \<Longrightarrow> wf_arg_entry (tab ! i)" "wf_end (last tab)" "endt tab < length tab"
  using assms by (auto simp: wf_table_def list_all_length nth_butlast endt_def)

lemma register_table:
  assumes "wf_table tab"
  shows "arg_register_error (endt tab) p er a (table_of tab st) = Some (table_of tab (add_error er p a st))"
proof -
  obtain args errs where st: "st = (args, errs)" by (cases st)
  let ?e = "last tab" and ?N = "maxcount (hdr (last tab))"
  note W = wf_tableD [OF assms]
  have N: "0 < ?N" using W(3) by (simp add: wf_end_def)
  have e: "table_of tab st ! endt tab = end_of (endt tab) ?e errs" using table_of_end [of tab st] by (simp add: st)
  show ?thesis
  proof (cases "length errs < ?N")
    case True
    then have "(end_of (endt tab) ?e errs)\<lparr>a_data := End_data (errs @ [(er, p, a)]), a_count := length errs + 1\<rparr>
        = end_of (endt tab) ?e (errs @ [(er, p, a)])"
      by (simp add: end_of_def)
    moreover have "end_errors (a_data (end_of (endt tab) ?e errs)) = errs" "a_count (end_of (endt tab) ?e errs) = length errs"
      using True by (simp_all add: end_of_def)
    ultimately show ?thesis
      using True W e table_of_set_end [of tab args errs "errs @ [(er, p, a)]"]
      by (simp add: arg_register_error_def add_error_def st Let_def)
  next
    case False
    then have "(end_errors (a_data (end_of (endt tab) ?e errs)))[?N - 1 := (ARG_ELIMIT, endt tab, None)]
        = take (?N - 1) (errs @ [(er, p, a)]) @ [(ARG_ELIMIT, endt tab, None)]"
      using N by (cases "length errs = ?N") (auto simp: end_of_def list_update_append Let_def upd_conv_take_nth_drop min_def)
    then have "(end_of (endt tab) ?e errs)\<lparr>a_data := End_data ((end_errors (a_data (end_of (endt tab) ?e errs)))[?N - 1 := (ARG_ELIMIT, endt tab, None)])\<rparr>
        = end_of (endt tab) ?e (errs @ [(er, p, a)])"
      using False by (simp add: end_of_def Let_def)
    moreover have "\<not> a_count (end_of (endt tab) ?e errs) < ?N" using False by (simp add: end_of_def Let_def)
    ultimately show ?thesis
      using W e N table_of_set_end [of tab args errs "errs @ [(er, p, a)]"]
      by (simp add: arg_register_error_def add_error_def st Let_def)
  qed
qed

lemma scan_entry:
  assumes "wf_arg_entry e" "length as \<le> maxcount (hdr e)"
  shows "arg_scanfn (entry_of e as) a
    = Some (if length as < maxcount (hdr e) then (0, entry_of e (as @ [a])) else (EMAXCOUNT, entry_of e as))"
  using assms by (cases "a_data e"; cases a)
    (auto simp: arg_scanfn_def arg_lit_scanfn_def arg_str_scanfn_def arg_file_scanfn_def entry_of_def wf_arg_entry_def good_names_def fill_snoc Let_def)

lemma scan_at_table:
  assumes "wf_table tab" "i < endt tab" "length (fst st i) \<le> maxcount (hdr (tab ! i))"
  shows "arg_scan_at (endt tab) i a (table_of tab st) = Some (table_of tab (take_arg tab i a st))"
proof -
  obtain args errs where st: "st = (args, errs)" by (cases st)
  note W = wf_tableD [OF assms(1)]
  have s: "has_scanfn (tab ! i)" using W(2) [OF assms(2)] by (auto simp: wf_arg_entry_def good_names_def has_scanfn_def split: arg_data.splits)
  have e: "table_of tab st ! i = entry_of (tab ! i) (args i)" using table_of_nth [OF assms(2)] by (simp add: st)
  have "EMAXCOUNT \<noteq> 0" by (simp add: EMAXCOUNT_def)
  moreover have "(table_of tab st)[i := entry_of (tab ! i) (args i)] = table_of tab st"
    using table_of_set [OF assms(2), of args errs "args i"] by (simp add: st)
  ultimately show ?thesis
    using scan_entry [OF W(2) [OF assms(2)], of "args i" a] assms s e W register_table [OF assms(1), of i EMAXCOUNT a st]
      table_of_set [OF assms(2), of args errs "args i @ [a]"]
    by (simp add: arg_scan_at_def take_arg_def st Let_def del: fun_upd_apply)
qed


section \<open>The code implements the specification\<close>

lemma butlast_nth: "map ((!) tab) [0..<endt tab] = butlast tab"
  by (rule nth_equalityI) (simp_all add: endt_def nth_butlast)

lemma map_butlast: "map (\<lambda>i. f (tab ! i)) [0..<endt tab] = map f (butlast tab)"
  unfolding butlast_nth [symmetric] by simp

lemma arg_reset_append:
  "list_all (\<lambda>e. \<not> has_flag e ARG_TERMINATOR) es \<Longrightarrow> has_flag t ARG_TERMINATOR
    \<Longrightarrow> arg_reset (es @ [t]) = Some (map arg_resetfn es @ [arg_resetfn t])"
  by (induction es) auto

lemma reset_table:
  assumes "wf_table tab"
  shows "arg_reset tab = Some (table_of tab (\<lambda>_. [], []))"
proof -
  note W = wf_tableD [OF assms]
  have "list_all (\<lambda>e. \<not> has_flag e ARG_TERMINATOR) (butlast tab)"
    using assms by (auto simp: wf_table_def wf_arg_entry_def good_names_def list_all_iff)
  then have "arg_reset tab = Some (map arg_resetfn (butlast tab) @ [arg_resetfn (last tab)])"
    using arg_reset_append [of "butlast tab" "last tab"] W by (simp add: wf_end_def)
  moreover have "map arg_resetfn (butlast tab) = map (\<lambda>e. entry_of e []) (butlast tab)"
    using assms by (auto simp: wf_table_def wf_arg_entry_def good_names_def list_all_iff arg_resetfn_def entry_of_def split: arg_data.splits)
  moreover have "arg_resetfn (last tab) = end_of (endt tab) (last tab) []"
    using W(3) by (auto simp: wf_end_def arg_resetfn_def end_of_def Let_def)
  ultimately show ?thesis by (simp add: table_of_def map_butlast [of "\<lambda>e. entry_of e []"])
qed

lemma before_end_append:
  "list_all (\<lambda>e. \<not> has_flag e ARG_TERMINATOR) es \<Longrightarrow> has_flag t ARG_TERMINATOR \<Longrightarrow> before_end (es @ [t]) = Some es"
  by (auto simp: before_end_def list_all_iff takeWhile_append2)

lemma table_parts:
  assumes "wf_table tab"
  defines "es \<equiv> \<lambda>st. map (\<lambda>i. entry_of (tab ! i) (fst st i)) [0..<endt tab]"
  shows "table_of tab st = es st @ [end_of (endt tab) (last tab) (snd st)]"
    and "list_all (\<lambda>e. \<not> has_flag e ARG_TERMINATOR) (es st)" "has_flag (end_of (endt tab) (last tab) (snd st)) ARG_TERMINATOR"
  using wf_tableD [OF assms(1)] by (auto simp: es_def table_of_def list_all_iff wf_arg_entry_def good_names_def wf_end_def)

lemma before_end_table:
  "wf_table tab \<Longrightarrow> before_end (table_of tab st) = Some (map (\<lambda>i. entry_of (tab ! i) (fst st i)) [0..<endt tab])"
  using before_end_append [OF table_parts(2) [of tab st] table_parts(3) [of tab st]] by (simp add: table_parts(1))

lemma endindex_table: "wf_table tab \<Longrightarrow> arg_endindex (table_of tab st) = Some (endt tab)"
  by (simp add: arg_endindex_def before_end_table)

lemma options_of [simp]:
  "entry_shortoptions (entry_of e as) = entry_shortoptions e" "entry_longoptions i (entry_of e as) = entry_longoptions i e"
  by (simp_all add: entry_shortoptions_def entry_longoptions_def)

lemma alloc_short_table: "wf_table tab \<Longrightarrow> alloc_shortoptions (table_of tab st) = Some (tab_options tab)"
  by (simp add: alloc_shortoptions_def before_end_table tab_options_def comp_def map_butlast [of entry_shortoptions])

lemma length_split_longopts: "length (split_longopts s) \<le> (if s = [] then 0 else Suc (length (filter (\<lambda>c. c = CHR '','') s)))"
proof (induction s rule: split_longopts.induct)
  case (1 s)
  let ?P = "\<lambda>c. c \<noteq> CHR '',''"
  show ?case
  proof (cases "s = []")
    case False
    have c: "filter (\<lambda>c. c = CHR '','') s = filter (\<lambda>c. c = CHR '','') (dropWhile ?P s)"
    proof -
      have "filter (\<lambda>c. c = CHR '','') (takeWhile ?P s) = []" by (auto simp: filter_empty_conv dest: set_takeWhileD)
      then show ?thesis by (metis append_Nil filter_append takeWhile_dropWhile_id)
    qed
    show ?thesis
    proof (cases "dropWhile ?P s")
      case Nil
      then have "split_longopts (tl (dropWhile ?P s)) = []" by (simp only: list.sel split_longopts.simps [of "[]"] simp_thms if_True)
      then show ?thesis using False by (simp add: split_longopts.simps [of s])
    next
      case (Cons d r)
      then have "d = CHR '',''" using hd_dropWhile [of ?P s] by simp
      then show ?thesis using 1 [OF False] False c Cons by (simp add: split_longopts.simps [of s] split: if_splits)
    qed
  qed (simp add: split_longopts.simps)
qed

lemma length_entry_longoptions:
  assumes "wf_arg_entry e"
  shows "\<exists>n. count_longopts (longopts (hdr e)) = Some n \<and> length (entry_longoptions i e) \<le> n"
proof (cases "longopts (hdr e)")
  case (Some s)
  then obtain d r where "s = d # r" "d \<noteq> CHR '',''" using assms by (cases s) (auto simp: wf_arg_entry_def good_names_def)
  then show ?thesis using Some length_split_longopts [of s] by (simp add: count_longopts_def entry_longoptions_def)
qed (simp add: count_longopts_def entry_longoptions_def)

lemma sum_options_longoptions:
  "list_all wf_arg_entry es \<Longrightarrow> count_longopts (longopts (hdr t)) = Some 0 \<Longrightarrow>
    \<exists>n. sum_options (map (\<lambda>e. count_longopts (longopts (hdr e))) (es @ [t])) = Some n
      \<and> length (concat (map (\<lambda>(i, e). entry_longoptions i e) (enumerate k es))) \<le> n"
proof (induction es arbitrary: k)
  case (Cons e es)
  obtain n where n: "count_longopts (longopts (hdr e)) = Some n" "length (entry_longoptions k e) \<le> n"
    using length_entry_longoptions [of e k] Cons.prems(1) by auto
  obtain m where "sum_options (map (\<lambda>e. count_longopts (longopts (hdr e))) (es @ [t])) = Some m"
      "length (concat (map (\<lambda>(i, e). entry_longoptions i e) (enumerate (Suc k) es))) \<le> m"
    using Cons.IH [of "Suc k"] Cons.prems by auto
  then show ?case using n by simp
qed simp

lemma enumerate_entry_of:
  "concat (map (\<lambda>(i, e). entry_longoptions i e) (enumerate k (map (\<lambda>i. entry_of (f i) (g i)) is)))
    = concat (map (\<lambda>(i, e). entry_longoptions i e) (enumerate k (map f is)))"
  by (induction "is" arbitrary: k) simp_all

lemma alloc_long_table:
  assumes "wf_table tab"
  shows "alloc_longoptions (table_of tab st) = Some (tab_longoptions tab)"
proof -
  let ?es = "map (\<lambda>i. entry_of (tab ! i) (fst st i)) [0..<endt tab]"
  note W = wf_tableD [OF assms]
  have opts: "concat (map (\<lambda>(i, e). entry_longoptions i e) (enumerate 0 ?es)) = tab_longoptions tab"
    by (simp add: enumerate_entry_of [of 0 "(!) tab" "fst st"] butlast_nth tab_longoptions_def)
  have "map (\<lambda>e. count_longopts (longopts (hdr e))) (take (length ?es + 1) (table_of tab st))
      = map (\<lambda>e. count_longopts (longopts (hdr e))) (butlast tab @ [last tab])"
    using map_butlast [of "\<lambda>e. count_longopts (longopts (hdr e))" tab] by (simp add: table_of_def comp_def)
  moreover obtain n where "sum_options (map (\<lambda>e. count_longopts (longopts (hdr e))) (butlast tab @ [last tab])) = Some n"
      "length (tab_longoptions tab) \<le> n"
    using sum_options_longoptions [of "butlast tab" "last tab" 0] W assms
    by (auto simp: wf_table_def wf_end_def count_longopts_def tab_longoptions_def)
  ultimately show ?thesis
    unfolding alloc_longoptions_def before_end_table [OF assms] by (simp only: opts Let_def bind_simps c_assert_bind) (simp add: opts)
qed

lemma find_shortoption_append:
  "list_all (\<lambda>e. \<not> has_flag e ARG_TERMINATOR) es \<Longrightarrow> has_flag t ARG_TERMINATOR \<Longrightarrow>
    find_shortoption (es @ [t]) c k
      = Some (map_option (\<lambda>i. i + k) (find (\<lambda>i. case shortopts (hdr (es ! i)) of Some s \<Rightarrow> c \<in> set s | None \<Rightarrow> False) [0..<length es]))"
proof (induction es arbitrary: k)
  case (Cons e es)
  let ?P = "\<lambda>es i. case shortopts (hdr (es ! i)) of Some s \<Rightarrow> c \<in> set s | None \<Rightarrow> False"
  have f: "find (?P (e # es)) (map Suc xs) = map_option Suc (find (?P es) xs)" for xs by (induction xs) auto
  have "[0..<length (e # es)] = 0 # map Suc [0..<length es]" unfolding map_Suc_upt by (simp add: upt_rec [of 0] del: upt_Suc)
  then show ?case using Cons f [of "[0..<length es]"]
    by (auto simp: option.map_comp comp_def)
qed simp

lemma find_shortoption_table:
  assumes "wf_table tab"
  shows "find_shortoption (table_of tab st) c 0 = Some (short_index tab c)"
proof -
  have "find (\<lambda>i. case shortopts (hdr (map (\<lambda>i. entry_of (tab ! i) (fst st i)) [0..<endt tab] ! i)) of Some s \<Rightarrow> c \<in> set s | None \<Rightarrow> False)
      [0..<endt tab] = short_index tab c"
    unfolding short_index_def by (rule find_cong) simp_all
  then show ?thesis
    using find_shortoption_append [OF table_parts(2,3) [OF assms], of st st c 0] by (simp add: table_parts(1) [OF assms] option.map_ident)
qed


text \<open>The first call of \<^verbatim>\<open>getopt_long\<close>, with \<open>optind\<close> 0, starts afresh.\<close>

lemma getopt_start_reset:
  assumes "optreset st"
  shows "getopt_start flags options st = getopt_start flags options (st\<lparr>optreset := False, place := EMSG\<rparr>)"
  using assms by (subst (1 2) getopt_start.simps) (simp add: Let_def place_str_def EMSG_def)

definition restarted :: "getopt_state \<Rightarrow> getopt_state" where
  "restarted gs = gs\<lparr>optind := 1, optreset := False, place := EMSG, nonopt_start := None, nonopt_end := None\<rparr>"

lemma getopt_long_restart:
  assumes "optind gs = 0"
  shows "getopt_long px (Some options) longs gs = getopt_long px (Some options) longs (restarted gs)"
proof -
  have e: "gs\<lparr>optind := Suc 0, optarg := None, nonopt_start := None, nonopt_end := None, optreset := False, place := EMSG\<rparr>
      = gs\<lparr>optind := Suc 0, optreset := False, place := EMSG, nonopt_start := None, nonopt_end := None, optarg := None\<rparr>"
    by (cases gs) simp
  show ?thesis
    unfolding getopt_long_def getopt_internal_def restarted_def
    by (simp add: assms Let_def e
        getopt_start_reset [of "gs\<lparr>optind := Suc 0, optreset := True, optarg := None, nonopt_start := None, nonopt_end := None\<rparr>"])
qed

lemma restarted_scans:
  assumes "nargv gs = w # ws"
  shows "scans ([], [], [], ws) (restarted gs)"
proof -
  have "layout [w] [] [] ws (restarted gs)" using assms by (simp add: layout_def restarted_def)
  then show ?thesis by (auto simp: at_words_def restarted_def place_str_def EMSG_def)
qed

text \<open>Events of a table.\<close>

fun ok_event :: "arg_entry list \<Rightarrow> opt_event \<Rightarrow> bool" where
  "ok_event tab (Ev_long v a p) \<longleftrightarrow> nat v < endt tab"
| "ok_event tab (Ev_bad_short c) \<longleftrightarrow> c \<noteq> CHR 0x00"
| "ok_event tab _ \<longleftrightarrow> True"

definition bounded :: "arg_entry list \<Rightarrow> parse_state \<Rightarrow> bool" where
  "bounded tab st \<longleftrightarrow> (\<forall>i < endt tab. length (fst st i) \<le> maxcount (hdr (tab ! i)))"

lemma bounded_add_error [simp]: "bounded tab (add_error er p a st) = bounded tab st" "fst (add_error er p a st) = fst st"
  by (simp_all add: bounded_def add_error_def)

lemma bounded_take_arg [intro]: "bounded tab st \<Longrightarrow> bounded tab (take_arg tab i a st)"
  by (simp add: take_arg_def bounded_def)

lemma bounded_event: "bounded tab st \<Longrightarrow> bounded tab (event_step tab ev st)"
  by (cases ev) (auto split: option.splits)

lemma c_int_char: "char_of (nat (c_int c mod 256)) = c" "c_int c = 0 \<longleftrightarrow> c = CHR 0x00"
proof -
  let ?w = "of_nat (of_char c) :: u8"
  have b: "(of_char c :: nat) < 256" by (rule nat_of_char_less_256)
  then have u: "uint ?w = int (of_char c)" by (simp add: uint_nat unsigned_of_nat take_bit_nat_eq_self)
  have "c_int c mod 256 = uint ?w" using uint_sint [of ?w] by (simp add: c_int_def take_bit_eq_mod)
  then have m: "c_int c mod 256 = int (of_char c)" using u by simp
  then show "char_of (nat (c_int c mod 256)) = c" by simp
  show "c_int c = 0 \<longleftrightarrow> c = CHR 0x00"
  proof
    assume "c_int c = 0"
    then have "(of_char c :: nat) = 0" using m by simp
    then have "char_of (of_char c :: nat) = char_of (0 :: nat)" by (rule arg_cong)
    then show "c = CHR 0x00" by simp (simp add: char_of_def)
  qed (simp add: c_int_def)
qed

lemma short_index_range: "short_index tab c = Some i \<Longrightarrow> i < endt tab"
  by (auto simp: short_index_def find_Some_iff)

lemma tagged_option_table:
  assumes "wf_table tab" "bounded tab st" "ok_event tab ev" "ev_match ev r gs" "argv_prev gs = Some (Some (prev_word gs))"
  shows "arg_tagged_option (endt tab) r gs (table_of tab st) = Some (table_of tab (event_step tab ev st))"
proof -
  note W = wf_tableD [OF assms(1)]
  have b: "length (fst st' i) \<le> maxcount (hdr (tab ! i))" if "bounded tab st'" "i < endt tab" for i st'
    using that by (simp add: bounded_def)
  note reg = register_table [OF assms(1)]
  note q = c_int_codes
  show ?thesis
  proof (cases ev)
    case (Ev_long v a p)
    then have e: "r = 0" "flag_val gs = v" "optarg gs = a" "prev_word gs = p" "nat v < endt tab" using assms(3,4) by auto
    then have "has_flag (table_of tab st ! nat v) ARG_HASVALUE = has_flag (tab ! nat v) ARG_HASVALUE" by (simp add: table_of_nth)
    then show ?thesis
      using e W(4) reg scan_at_table [OF assms(1) e(5)] assms(2,5) b [OF _ e(5)] W(1)
      by (auto simp: arg_tagged_option_def Ev_long Let_def)
  next
    case (Ev_short c a)
    then have e: "r = c_int c" "optarg gs = a" "c \<in> alnum" using assms(4) by auto
    have f: "find_shortoption (table_of tab st) (char_of (nat (c_int c mod 256))) 0 = Some (short_index tab c)"
      using find_shortoption_table [OF assms(1)] by (simp only: c_int_char)
    show ?thesis
      using e f c_int_alnum [OF e(3)] reg scan_at_table [OF assms(1)] b [OF assms(2)] short_index_range [of tab c]
      by (auto simp: arg_tagged_option_def Ev_short split: option.splits)
  qed (use assms reg c_int_char(2) in \<open>auto simp: arg_tagged_option_def q\<close>)
qed


lemma good_tab_options:
  assumes "wf_table tab"
  shows "good_options (tab_options tab)"
proof -
  have "c = CHR '':'' \<or> c \<in> alnum" if "wf_arg_entry e" "c \<in> set (entry_shortoptions e)" for e c
  proof (cases "shortopts (hdr e)")
    case (Some s)
    then have "set s \<subseteq> alnum" using that(1) by (simp add: wf_arg_entry_def good_names_def)
    then show ?thesis using that(2) Some by (auto simp: entry_shortoptions_def split: if_splits)
  qed (use that in \<open>simp add: entry_shortoptions_def\<close>)
  moreover have "\<forall>e \<in> set (butlast tab). wf_arg_entry e" using assms by (simp add: wf_table_def list_all_iff)
  ultimately show ?thesis unfolding good_options_def tab_options_def by auto
qed

lemma good_tab_longoptions: "good_long (tab_longoptions tab)"
  by (auto simp: good_long_def tab_longoptions_def entry_longoptions_def no_argument_def required_argument_def optional_argument_def)

lemma tab_longoptions_val: "opt \<in> set (tab_longoptions tab) \<Longrightarrow> nat (opt_val opt) < endt tab"
  by (auto simp: tab_longoptions_def entry_longoptions_def in_set_enumerate_eq endt_def)

text \<open>Words without null characters.\<close>

fun clean :: "scan_state \<Rightarrow> bool" where
  "clean (ns, w, cur, ws) \<longleftrightarrow> CHR 0x00 \<notin> set cur \<and> (\<forall>v \<in> set ws. CHR 0x00 \<notin> set v)"

lemma in_set_tl: "x \<in> set (tl xs) \<Longrightarrow> x \<in> set xs"
  by (cases xs) auto

lemma clean_words: "scan_words px ns ws = Inr s \<Longrightarrow> \<forall>v \<in> set ws. CHR 0x00 \<notin> set v \<Longrightarrow> clean s"
  by (induction px ns ws rule: scan_words.induct) (auto split: if_splits dest: in_set_tl)

lemma clean_start: "scan_start px s = Inr s1 \<Longrightarrow> clean s \<Longrightarrow> clean s1"
  by (cases s) (auto split: if_splits dest: clean_words)

lemma clean_option: "clean s \<Longrightarrow> clean (snd (scan_option options longs s))"
  by (cases s) (auto split: prod.splits dest: in_set_tl in_set_dropD)

lemma ok_long_event:
  assumes "fst (long_event (tab_longoptions tab) w name ws) = ev"
  shows "ok_event tab ev"
proof -
  let ?len = "length (takeWhile (\<lambda>c. c \<noteq> CHR ''='') name)"
  have "ok_event tab (Ev_long (opt_val (tab_longoptions tab ! i)) a p)"
    if "match_long (tab_longoptions tab) name ?len False 0 None = Inr (Some i)" for i a p
    using match_long_range [OF that] tab_longoptions_val [of "tab_longoptions tab ! i" tab] by simp
  then show ?thesis
    using assms by (auto simp: long_event_def Let_def split: sum.splits option.splits if_splits list.splits)
qed

lemma ok_scan_option:
  assumes "clean s" "fst (snd (snd s)) \<noteq> []"
  shows "ok_event tab (fst (scan_option options (tab_longoptions tab) s))"
proof -
  obtain ns w c rest ws where s: "s = (ns, w, c # rest, ws)" using assms(2) by (cases s) (auto simp: neq_Nil_conv)
  have "c \<noteq> CHR 0x00" using assms(1) s by auto
  then have "ok_event tab (fst (short_event options w c rest ws))"
    by (auto simp: short_event_def Let_def split: list.splits)
  then show ?thesis using ok_long_event [OF refl, of tab w rest ws] by (auto simp: s split: prod.splits)
qed

lemma layout_prev: "layout pre ns os ws gs \<Longrightarrow> argv_prev gs = Some (Some (prev_word gs))"
  by (cases pre) (auto simp: layout_def argv_prev_def nargv_at_def prev_word_def)

lemma scans_prev: "scans s gs \<Longrightarrow> argv_prev gs = Some (Some (prev_word gs))"
  by (cases s) (auto simp: at_words_def in_word_def split: if_splits dest: layout_prev)

lemma tagged_loop_table:
  assumes W: "wf_table tab"
  shows "scans s gs \<Longrightarrow> (px \<longrightarrow> fst s = []) \<Longrightarrow> clean s \<Longrightarrow> bounded tab st \<Longrightarrow>
    \<exists>gs'. arg_tagged_loop px (tab_options tab) (tab_longoptions tab) (endt tab) gs (table_of tab st)
        = Some (gs', table_of tab (fold (event_step tab) (fst (scan px (tab_options tab) (tab_longoptions tab) s)) st))
      \<and> rests (snd (scan px (tab_options tab) (tab_longoptions tab) s)) gs'
      \<and> bounded tab (fold (event_step tab) (fst (scan px (tab_options tab) (tab_longoptions tab) s)) st)"
proof (induction px "tab_options tab" "tab_longoptions tab" s arbitrary: gs st rule: scan.induct)
  case (1 px s)
  let ?o = "tab_options tab" and ?l = "tab_longoptions tab"
  note G = getopt_long_scan [OF "1.prems"(1,2) good_tab_options [OF W] good_tab_longoptions [of tab]]
  show ?case
  proof (cases "scan_start px s")
    case (Inl left)
    then obtain gs' where "getopt_long px (Some ?o) ?l gs = Some (-1, gs')" "rests left gs'" using G by auto
    then show ?thesis using Inl 1 by (simp add: arg_tagged_loop.simps [of px ?o ?l] scan.simps [of px ?o ?l s])
  next
    case (Inr s1)
    let ?ev = "fst (scan_option ?o ?l s1)" and ?s2 = "snd (scan_option ?o ?l s1)"
    obtain r gs1 where r: "getopt_long px (Some ?o) ?l gs = Some (r, gs1)" "r \<noteq> -1" "ev_match ?ev r gs1" "scans ?s2 gs1"
        "px \<longrightarrow> fst ?s2 = []"
      using G Inr by auto
    have cl: "clean s1" "fst (snd (snd s1)) \<noteq> []" using clean_start scan_start_size Inr "1.prems"(3) by blast+
    have step: "arg_tagged_option (endt tab) r gs1 (table_of tab st) = Some (table_of tab (event_step tab ?ev st))"
      by (rule tagged_option_table [OF W "1.prems"(4) ok_scan_option [OF cl] r(3) scans_prev [OF r(4)]])
    show ?thesis
      using "1.hyps" [OF Inr r(4,5) clean_option [OF cl(1)] bounded_event [OF "1.prems"(4)]] Inr r(1,2) step
      by (simp add: arg_tagged_loop.simps [of px ?o ?l "endt tab" gs] scan.simps [of px ?o ?l s] Let_def)
  qed
qed

lemma parse_tagged_table:
  assumes "wf_table tab" "nargv gs = w # ws" "\<forall>v \<in> set ws. CHR 0x00 \<notin> set v" "bounded tab st"
  shows "\<exists>gs'. arg_parse_tagged px (endt tab) gs (table_of tab st)
      = Some (gs', table_of tab (fold (event_step tab) (fst (scan px (tab_options tab) (tab_longoptions tab) ([], [], [], ws))) st))
    \<and> rests (snd (scan px (tab_options tab) (tab_longoptions tab) ([], [], [], ws))) gs'
    \<and> bounded tab (fold (event_step tab) (fst (scan px (tab_options tab) (tab_longoptions tab) ([], [], [], ws))) st)"
proof -
  let ?gs = "gs\<lparr>flag_val := 0, optind := 0, opterr := False\<rparr>"
  have "getopt_long px (Some (tab_options tab)) (tab_longoptions tab) ?gs
      = getopt_long px (Some (tab_options tab)) (tab_longoptions tab) (restarted ?gs)"
    by (rule getopt_long_restart) simp
  then have "arg_tagged_loop px (tab_options tab) (tab_longoptions tab) (endt tab) ?gs (table_of tab st)
      = arg_tagged_loop px (tab_options tab) (tab_longoptions tab) (endt tab) (restarted ?gs) (table_of tab st)"
    by (subst (1 2) arg_tagged_loop.simps) (simp only:)
  moreover have "scans ([], [], [], ws) (restarted ?gs)" by (rule restarted_scans) (simp add: assms(2))
  ultimately show ?thesis
    using tagged_loop_table [OF assms(1), of "([], [], [], ws)" "restarted ?gs" px st] assms
    by (simp add: arg_parse_tagged_def alloc_long_table alloc_short_table)
qed


text \<open>The words that are no options.\<close>

lemma distribute_Nil [simp]: "distribute tab is [] args = (args, [])"
  by (induction "is" arbitrary: args) simp_all

abbreviation untagged_from :: "arg_entry list \<Rightarrow> nat \<Rightarrow> nat list" where
  "untagged_from tab i \<equiv> filter (\<lambda>i. longopts (hdr (tab ! i)) = None \<and> shortopts (hdr (tab ! i)) = None) [i..<endt tab]"

lemma untagged_loop_table:
  assumes W: "wf_table tab"
  shows "i \<le> endt tab \<Longrightarrow> ind \<le> length argv \<Longrightarrow> bounded tab (args, errs) \<Longrightarrow> (le \<noteq> None \<longrightarrow> ind < length argv) \<Longrightarrow>
    \<exists>fin ind' le'. arg_untagged_loop argv i ind (table_of tab (args, errs)) le
        = Some (fin, ind', table_of tab (fst (distribute tab (untagged_from tab i) (drop ind argv) args), errs), le')
      \<and> ind' \<le> length argv \<and> drop ind' argv = snd (distribute tab (untagged_from tab i) (drop ind argv) args)
      \<and> (if drop ind' argv = [] then \<not> fin \<longrightarrow> le' = None
         else \<not> fin \<and> le' = (if untagged_from tab i = [] then le
              else Some (EMAXCOUNT, hd (drop ind' argv), last (untagged_from tab i))))"
proof (induction "(endt tab - i) + (length argv - ind)" arbitrary: i ind args le rule: less_induct)
  case less
  note D = wf_tableD [OF W]
  let ?tab = "table_of tab (args, errs)"
  note unf = arg_untagged_loop.simps [of argv i ind ?tab le]
  show ?case
  proof (cases "i = endt tab")
    case True
    then have "arg_untagged_loop argv i ind ?tab le = Some (False, ind, ?tab, le)"
      using D table_of_end [of tab "(args, errs)"] by (simp add: unf [unfolded True] wf_end_def)
    moreover have "untagged_from tab i = []" using True by simp
    moreover have "drop ind argv = [] \<longrightarrow> le = None" using less.prems(2,4) by (cases le) auto
    ultimately show ?thesis
      using less.prems(2) by (intro exI [of _ False] exI [of _ ind] exI [of _ le]) simp
  next
    case False
    then have i: "i < endt tab" using less.prems by simp
    then have u: "untagged_from tab i = (if longopts (hdr (tab ! i)) = None \<and> shortopts (hdr (tab ! i)) = None
        then i # untagged_from tab (Suc i) else untagged_from tab (Suc i))"
      by (simp add: upt_conv_Cons)
    have e: "?tab ! i = entry_of (tab ! i) (args i)" "i < length ?tab" using table_of_nth [OF i] i D by simp_all
    have t: "\<not> has_flag (tab ! i) ARG_TERMINATOR" "has_scanfn (tab ! i)"
      using D(2) [OF i] by (auto simp: wf_arg_entry_def good_names_def has_scanfn_def split: arg_data.splits)
    show ?thesis
    proof (cases "ind < length argv")
      case False
      then have "arg_untagged_loop argv i ind ?tab le = Some (True, ind, ?tab, le)" using e t by (simp add: unf)
      then show ?thesis using False less.prems by auto
    next
      case ind: True
      show ?thesis
      proof (cases "longopts (hdr (tab ! i)) = None \<and> shortopts (hdr (tab ! i)) = None")
        case False
        then have "arg_untagged_loop argv i ind ?tab le = arg_untagged_loop argv (Suc i) ind ?tab le"
          using e t ind by (auto simp: unf)
        moreover have "untagged_from tab i = untagged_from tab (Suc i)" using u False by simp
        moreover have "Suc i \<le> endt tab" "endt tab - Suc i + (length argv - ind) < endt tab - i + (length argv - ind)" using i by simp_all
        note less.hyps [OF this(2,1) less.prems(2-4)]
        ultimately show ?thesis by (simp only:)
      next
        case tag: True
        then have u: "untagged_from tab i = i # untagged_from tab (Suc i)" using u by simp
        have d: "drop ind argv = argv ! ind # drop (Suc ind) argv" using ind by (simp add: Cons_nth_drop_Suc)
        have b: "length (args i) \<le> maxcount (hdr (tab ! i))" using less.prems(3) i by (simp add: bounded_def)
        note sc = scan_entry [OF D(2) [OF i] b, of "Some (argv ! ind)"]
        show ?thesis
        proof (cases "length (args i) < maxcount (hdr (tab ! i))")
          case True
          let ?args = "args(i := args i @ [Some (argv ! ind)])"
          have "arg_untagged_loop argv i ind ?tab le = arg_untagged_loop argv i (Suc ind) (table_of tab (?args, errs)) None"
            using sc True e t ind tag table_of_set [OF i, of args errs "args i @ [Some (argv ! ind)]"]
            by (simp add: unf del: fun_upd_apply)
          moreover have "bounded tab (?args, errs)" using less.prems(3) True by (simp add: bounded_def)
          moreover have "distribute tab (i # untagged_from tab (Suc i)) (drop (Suc ind) argv) ?args
              = distribute tab (i # untagged_from tab (Suc i)) (drop ind argv) args"
          proof -
            have "maxcount (hdr (tab ! i)) - length (args i) = Suc (maxcount (hdr (tab ! i)) - Suc (length (args i)))" using True by simp
            then show ?thesis unfolding d by (simp add: Let_def)
          qed
          moreover have "Suc ind \<le> length argv" "endt tab - i + (length argv - Suc ind) < endt tab - i + (length argv - ind)"
            "(None :: (int \<times> string \<times> nat) option) \<noteq> None \<longrightarrow> Suc ind < length argv" using ind by simp_all
          note less.hyps [OF this(2) less.prems(1) this(1) \<open>bounded tab (?args, errs)\<close> this(3)]
          ultimately show ?thesis by (simp only: u list.distinct if_False)
        next
          case False
          then have A: "arg_untagged_loop argv i ind ?tab le
              = arg_untagged_loop argv (Suc i) ind ?tab (Some (EMAXCOUNT, argv ! ind, i))"
            using sc e t ind tag table_of_set [OF i, of args errs "args i"]
            by (simp add: unf EMAXCOUNT_def)
          have B: "distribute tab (i # untagged_from tab (Suc i)) (drop ind argv) args
              = distribute tab (untagged_from tab (Suc i)) (drop ind argv) args"
            using False by (simp add: Let_def)
          have C: "hd (drop ind argv) = argv ! ind" using d by simp
          have E: "Suc i \<le> endt tab" "endt tab - Suc i + (length argv - ind) < endt tab - i + (length argv - ind)"
            "Some (EMAXCOUNT, argv ! ind, i) \<noteq> None \<longrightarrow> ind < length argv" using i ind by simp_all
          note IH = less.hyps [OF E(2,1) less.prems(2,3) E(3)]
          show ?thesis
          proof (cases "untagged_from tab (Suc i) = []")
            case True
            obtain fin ind' le' where I: "arg_untagged_loop argv (Suc i) ind ?tab (Some (EMAXCOUNT, argv ! ind, i))
                  = Some (fin, ind', ?tab, le')" "ind' \<le> length argv" "drop ind' argv = drop ind argv"
                "if drop ind' argv = [] then \<not> fin \<longrightarrow> le' = None else \<not> fin \<and> le' = Some (EMAXCOUNT, argv ! ind, i)"
              using IH unfolding True distribute.simps fst_conv snd_conv simp_thms if_True by blast
            have B1: "distribute tab [i] (drop ind argv) args = (args, drop ind argv)"
              using B unfolding True by (simp only: distribute.simps(1))
            have ne: "drop ind argv \<noteq> []" using ind by simp
            then have "\<not> fin \<and> le' = Some (EMAXCOUNT, argv ! ind, i)" using I(3,4) by simp
            then show ?thesis using I(1-3) ne
              by (intro exI [of _ fin] exI [of _ ind'] exI [of _ le'])
                (simp only: u A B1 True C fst_conv snd_conv last_ConsL list.distinct if_False simp_thms)
          next
            case False
            then show ?thesis using IH by (simp only: u A B list.distinct if_False last_ConsR [OF False])
          qed
        qed
      qed
    qed
  qed
qed

lemma unmatched_table:
  "wf_table tab \<Longrightarrow> arg_unmatched (endt tab) ws (table_of tab (args, errs))
    = Some (table_of tab (args, errs @ map (\<lambda>v. (ARG_ENOMATCH, endt tab, Some v)) ws))"
  by (induction ws arbitrary: errs) (simp_all add: register_table add_error_def)

lemma parse_untagged_table:
  assumes W: "wf_table tab" and R: "rests left gs" and B: "bounded tab (args, errs)"
    and D: "distribute tab (untagged tab) left args = (args', ws)"
  shows "\<exists>gs'. arg_parse_untagged (endt tab) gs (table_of tab (args, errs)) = Some (gs', table_of tab (args', errs @ excess tab ws))"
proof -
  have u: "untagged_from tab 0 = untagged tab" by (simp add: untagged_def)
  have left: "drop (optind gs) (nargv gs) = left" "optind gs \<le> length (nargv gs)" using R by (auto simp: rests_def)
  obtain fin ind' le' where L: "arg_untagged_loop (nargv gs) 0 (optind gs) (table_of tab (args, errs)) None
        = Some (fin, ind', table_of tab (args', errs), le')"
      "ind' \<le> length (nargv gs)" "drop ind' (nargv gs) = ws"
      "if ws = [] then \<not> fin \<longrightarrow> le' = None
         else \<not> fin \<and> le' = (if untagged tab = [] then None else Some (EMAXCOUNT, hd ws, last (untagged tab)))"
    using untagged_loop_table [OF W, of 0 "optind gs" "nargv gs" args errs None] left B unfolding u left D by auto
  note unm = unmatched_table [OF W]
  show ?thesis
  proof (cases ws)
    case Nil
    then have "drop ind' (nargv gs) = []" using L(3) by simp
    then show ?thesis using L(1,4) Nil by (auto simp: arg_parse_untagged_def excess_def)
  next
    case (Cons v vs)
    then have "drop (Suc ind') (nargv gs) = vs" using L(3) by (metis drop_Suc_tl list.sel(3))
    then show ?thesis
      using L Cons unm register_table [OF W, of _ _ "Some v" "(args', errs)"]
      by (auto simp: arg_parse_untagged_def excess_def add_error_def)
  qed
qed

text \<open>The final check of the counts.\<close>

lemma check_table:
  assumes W: "wf_table tab"
  shows "i \<le> endt tab \<Longrightarrow> arg_check_from (endt tab) [i..<length tab] (table_of tab (args, errs))
    = Some (table_of tab (args, errs @ map (\<lambda>i. (EMINCOUNT, i, None)) (filter (\<lambda>i. length (args i) < mincount (hdr (tab ! i))) [i..<endt tab])))"
proof (induction "endt tab - i" arbitrary: i errs)
  case 0
  note D = wf_tableD [OF W]
  have "length tab = Suc (endt tab)" using D(1) by (cases tab) (simp_all add: endt_def)
  then have "[i..<length tab] = [endt tab]" using 0 by simp
  then show ?case using 0 D table_of_end [of tab "(args, errs)"] by (simp add: wf_end_def arg_checkfn_def)
next
  case (Suc k)
  note D = wf_tableD [OF W]
  have i: "i < endt tab" using Suc by simp
  then have u: "[i..<length tab] = i # [Suc i..<length tab]" "[i..<endt tab] = i # [Suc i..<endt tab]"
    using D by (simp_all add: upt_conv_Cons)
  have t: "\<not> has_flag (tab ! i) ARG_TERMINATOR" "has_scanfn (tab ! i)"
    using D(2) [OF i] by (auto simp: wf_arg_entry_def good_names_def has_scanfn_def split: arg_data.splits)
  show ?case
    using Suc.hyps(1) [of "Suc i"] Suc.hyps(2) i t register_table [OF W, of i EMINCOUNT None "(args, errs)"]
      table_of_nth [OF i, of "(args, errs)"]
    by (simp add: u arg_checkfn_def EMINCOUNT_def add_error_def)
qed

lemma parse_check_table:
  "wf_table tab \<Longrightarrow> arg_parse_check (endt tab) (table_of tab (args, errs)) = Some (table_of tab (args, errs @ too_few tab args))"
  using check_table [of tab 0 args errs] wf_tableD(1) [of tab] by (simp add: arg_parse_check_def too_few_def)

lemma count_end: "wf_table tab \<Longrightarrow> a_count (table_of tab st ! endt tab) = min (maxcount (hdr (last tab))) (length (snd st))"
  by (simp add: table_of_end end_of_def Let_def)

lemma arg_parse_exact:
  assumes "wf_table tab" "\<forall>v \<in> set argv. CHR 0x00 \<notin> set v"
  shows "\<exists>gs'. arg_parse posixly argv gs tab
    = Some (min (maxcount (hdr (last tab))) (length (snd (parse_spec posixly tab argv))), gs', table_of tab (parse_spec posixly tab argv))"
proof -
  note W = assms(1)
  have N: "0 < maxcount (hdr (last tab))" using wf_tableD(3) [OF W] by (simp add: wf_end_def)
  have B: "bounded tab (\<lambda>_. [], [])" by (simp add: bounded_def)
  obtain evs left where scan: "scan posixly (tab_options tab) (tab_longoptions tab) ([], [], [], tl argv) = (evs, left)" by (meson surj_pair)
  obtain args errs where f: "fold (event_step tab) evs (\<lambda>_. [], []) = (args, errs)" by (meson surj_pair)
  obtain args' ws where d: "distribute tab (untagged tab) left args = (args', ws)" by (meson surj_pair)
  let ?errs = "errs @ excess tab ws"
  have spec: "parse_spec posixly tab argv = (args', if ?errs = [] then too_few tab args' else ?errs)"
    by (simp add: parse_spec_def scan f d Let_def)
  show ?thesis
  proof (cases argv)
    case Nil
    have "scan posixly (tab_options tab) (tab_longoptions tab) ([], [], [], []) = ([], [])" by (simp add: scan.simps)
    then have "evs = []" "left = []" using scan Nil by simp_all
    then have "args' = (\<lambda>_. [])" "errs = []" "ws = []" using f d by simp_all
    then show ?thesis
      using Nil reset_table [OF W] endindex_table [OF W] parse_check_table [OF W] count_end [OF W]
      by (simp add: arg_parse_def spec [unfolded Nil] excess_def)
  next
    case (Cons w vs)
    let ?gs = "gs\<lparr>nargv := argv\<rparr>"
    obtain gs1 where gs1: "arg_parse_tagged posixly (endt tab) ?gs (table_of tab (\<lambda>_. [], [])) = Some (gs1, table_of tab (args, errs))"
        "rests left gs1" "bounded tab (args, errs)"
      using parse_tagged_table [OF W, of ?gs w vs "(\<lambda>_. [], [])" posixly] B assms(2) Cons scan f by auto
    obtain gs2 where gs2: "arg_parse_untagged (endt tab) gs1 (table_of tab (args, errs)) = Some (gs2, table_of tab (args', ?errs))"
      using parse_untagged_table [OF W gs1(2,3) d] by blast
    moreover have "argv \<noteq> []" using Cons by simp
    moreover define E where "E = ?errs"
    moreover have "E = [] \<or> (\<exists>k. min (maxcount (hdr (last tab))) (length E) = Suc k)"
      using N by (cases E; cases "maxcount (hdr (last tab))") (auto simp: min_def)
    ultimately show ?thesis
      using reset_table [OF W] endindex_table [OF W] parse_check_table [OF W, of args' E] count_end [OF W] gs1(1)
      by (cases "E = []") (auto simp: arg_parse_def spec)
  qed
qed


text \<open>
  (C17) The command line parser implements its specification: for every table and every command line, \<^verbatim>\<open>arg_parse\<close> returns, and
  leaves in the table the arguments and errors the specification gives for the original order of the words, however the words
  are permuted meanwhile; the number of errors is cut at the size of the error table. The accesses to the words, to the table, to the options made
  from it and to the values of its entries, which the model checks, are all within their bounds; not among them is the one character
  that \<^verbatim>\<open>arg_extension\<close> reads behind the end of a file name without an extension (\<^verbatim>\<open>argtable3.c:1906\<close>, without influence on the result).
\<close>

theorem arg_parse_result:
  assumes "wf_table tab" "\<forall>v \<in> set argv. CHR 0x00 \<notin> set v"
  shows "\<exists>gs'. arg_parse posixly argv gs tab
    = Some (min (maxcount (hdr (last tab))) (length (snd (parse_spec posixly tab argv))), gs', table_of tab (parse_spec posixly tab argv))"
  using assms by (rule arg_parse_exact)

definition demo_table :: "arg_entry list" where
  "demo_table = [arg_litn (Some ''v'') (Some ''verbose'') 0 2 None, arg_filen (Some ''c'') (Some ''config'') None 0 1 None,
     arg_strn None None None 0 1 None, arg_end 20]"

text \<open>Options after a word that is none, an abbreviated name, a cluster with an unknown letter, and one word too many.\<close>

theorem arg_parse_result_witness:
  "(\<forall>gs. \<exists>gs'. arg_parse False [''tool'', ''x'', ''-vq'', ''--conf=a/b.c'', ''y''] gs demo_table
    = Some (2, gs', table_of demo_table (parse_spec False demo_table [''tool'', ''x'', ''-vq'', ''--conf=a/b.c'', ''y''])))
    \<and> snd (parse_spec False demo_table [''tool'', ''x'', ''-vq'', ''--conf=a/b.c'', ''y''])
      = [(c_int (CHR ''q''), 3, None), (EMAXCOUNT, 2, Some ''y'')]"
proof -
  have W: "wf_table demo_table"
    by (simp add: wf_table_def demo_table_def good_names_def alnum_def)
  have E: "snd (parse_spec False demo_table [''tool'', ''x'', ''-vq'', ''--conf=a/b.c'', ''y''])
      = [(c_int (CHR ''q''), 3, None), (EMAXCOUNT, 2, Some ''y'')]" by code_simp
  have N: "maxcount (hdr (last demo_table)) = 20" by (simp add: demo_table_def arg_end_def)
  have "\<forall>v \<in> set [''tool'', ''x'', ''-vq'', ''--conf=a/b.c'', ''y'']. CHR 0x00 \<notin> set v" by simp
  from arg_parse_result [OF W this, of False] E N show ?thesis by (simp add: numeral_2_eq_2)
qed

end
