(* ===== verification/Argtable_Print.thy ===== *)
theory Argtable_Print
  imports Argtable
begin

text \<open>
  The texts about an argument table (\<^verbatim>\<open>argtable3.c\<close>): the syntax of an option, usage line, glossary, and the errors of
  a command line. Options are put together in a buffer of 200 characters.
\<close>

section \<open>Definitions\<close>

subsection \<open>The buffer\<close>

text \<open>
  A string in a buffer, with the pointer into it and the number of characters from there on that \<^verbatim>\<open>arg_cat\<close> is told. \<open>cap\<close>
  is the size of the array. The terminating null character of the string is in the array too.
\<close>

record cat_buf =
  cb_text :: string
  cb_dest :: nat
  cb_ndest :: nat

definition arg_cat :: "nat \<Rightarrow> string \<Rightarrow> cat_buf \<Rightarrow> cat_buf option" where
  "arg_cat cap src b =
     (let end_ptr = cb_dest b + cb_ndest b;
          dest = min (length (cb_text b)) end_ptr;
          text = take dest (cb_text b) @ take (end_ptr - dest) src
      in do { c_assert (length text < cap);
              Some \<lparr>cb_text = text, cb_dest = length text, cb_ndest = end_ptr - length text\<rparr> })"

definition strncat :: "nat \<Rightarrow> string \<Rightarrow> nat \<Rightarrow> cat_buf \<Rightarrow> cat_buf option" where
  "strncat cap src n b =
     (let text = cb_text b @ take n src in do { c_assert (length text < cap); Some (b\<lparr>cb_text := text\<rparr>) })"

definition strcspn_comma :: "string \<Rightarrow> nat" where
  "strcspn_comma s = length (takeWhile (\<lambda>c. c \<noteq> CHR '','') s)"

text \<open>The value of an option: \<open>lead\<close> comes before it.\<close>

definition cat_value :: "nat \<Rightarrow> string option \<Rightarrow> string \<Rightarrow> bool \<Rightarrow> cat_buf \<Rightarrow> cat_buf option" where
  "cat_value cap lead dtype optvalue b =
     do { b \<leftarrow> (case lead of Some l \<Rightarrow> arg_cat cap l b | None \<Rightarrow> Some b);
          if optvalue then do { b \<leftarrow> arg_cat cap ''['' b; b \<leftarrow> arg_cat cap dtype b; arg_cat cap '']'' b }
          else arg_cat cap dtype b }"

text \<open>The first character of an empty string is its null character, which ends the text.\<close>

definition short_tag :: "string \<Rightarrow> string" where
  "short_tag s = CHR ''-'' # take 1 s"

definition arg_cat_option ::
  "nat \<Rightarrow> string option \<Rightarrow> string option \<Rightarrow> string option \<Rightarrow> bool \<Rightarrow> cat_buf \<Rightarrow> cat_buf option" where
  "arg_cat_option cap shorts longs dtype optvalue b =
     (case shorts of
        Some s \<Rightarrow>
          do { b \<leftarrow> arg_cat cap (short_tag s) b;
               (case dtype of Some d \<Rightarrow> cat_value cap (Some '' '') d optvalue b | None \<Rightarrow> Some b) }
      | None \<Rightarrow>
          (case longs of
             Some l \<Rightarrow>
               do { b \<leftarrow> arg_cat cap ''--'' b;
                    let ncspn = strcspn_comma l;
                    b \<leftarrow> strncat cap l (if ncspn < cb_ndest b then ncspn else cb_ndest b) b;
                    (case dtype of Some d \<Rightarrow> cat_value cap (Some ''='') d optvalue b | None \<Rightarrow> Some b) }
           | None \<Rightarrow> (case dtype of Some d \<Rightarrow> cat_value cap None d optvalue b | None \<Rightarrow> Some b)))"

fun cat_shorts :: "nat \<Rightarrow> string \<Rightarrow> string \<Rightarrow> cat_buf \<Rightarrow> cat_buf option" where
  "cat_shorts cap separator [] b = Some b"
| "cat_shorts cap separator (c # cs) b =
     do { b \<leftarrow> arg_cat cap [CHR ''-'', c] b;
          b \<leftarrow> (if cs \<noteq> [] then arg_cat cap separator b else Some b);
          cat_shorts cap separator cs b }"

function cat_longs :: "nat \<Rightarrow> string \<Rightarrow> string \<Rightarrow> cat_buf \<Rightarrow> cat_buf option" where
  "cat_longs cap separator c b =
     (if c = [] then Some b
      else do { b \<leftarrow> arg_cat cap ''--'' b;
                let ncspn = strcspn_comma c;
                b \<leftarrow> strncat cap c (if ncspn < cb_ndest b then ncspn else cb_ndest b) b;
                let rest = drop ncspn c;
                b \<leftarrow> (if rest \<noteq> [] then arg_cat cap separator b else Some b);
                cat_longs cap separator (tl rest) b })"
  by pat_completeness auto
termination
  by (relation "measure (\<lambda>(_, _, c, _). length c)") (auto simp: strcspn_comma_def neq_Nil_conv)

declare cat_longs.simps [simp del]

definition arg_cat_optionv ::
  "nat \<Rightarrow> string option \<Rightarrow> string option \<Rightarrow> string option \<Rightarrow> bool \<Rightarrow> string \<Rightarrow> cat_buf \<Rightarrow> cat_buf option" where
  "arg_cat_optionv cap shorts longs dtype optvalue separator b =
     do { b \<leftarrow> (case shorts of Some s \<Rightarrow> cat_shorts cap separator s b | None \<Rightarrow> Some b);
          b \<leftarrow> (if shorts \<noteq> None \<and> longs \<noteq> None then arg_cat cap separator b else Some b);
          b \<leftarrow> (case longs of Some l \<Rightarrow> cat_longs cap separator l b | None \<Rightarrow> Some b);
          (case dtype of
             Some d \<Rightarrow> cat_value cap (if longs \<noteq> None then Some ''='' else if shorts \<noteq> None then Some '' '' else None) d optvalue b
           | None \<Rightarrow> Some b) }"

definition SYNTAX_SIZE :: nat where "SYNTAX_SIZE = 200"

definition syntax_buf :: cat_buf where
  "syntax_buf = \<lparr>cb_text = [], cb_dest = 0, cb_ndest = SYNTAX_SIZE\<rparr>"

subsection \<open>Texts\<close>

text \<open>What is printed.\<close>

definition arg_print_option :: "string option \<Rightarrow> string option \<Rightarrow> string option \<Rightarrow> string \<Rightarrow> string option" where
  "arg_print_option shorts longs dtype suffix =
     do { b \<leftarrow> arg_cat_optionv SYNTAX_SIZE shorts longs dtype False ''|'' syntax_buf; Some (cb_text b @ suffix) }"

text \<open>The two loops over the switches: the prefix of the next one is the state.\<close>

fun gnu_mandatory :: "arg_entry list \<Rightarrow> string \<Rightarrow> string \<Rightarrow> string \<times> string" where
  "gnu_mandatory [] format1 format2 = ([], format2)"
| "gnu_mandatory (e # es) format1 format2 =
     (case shortopts (hdr e) of
        Some s \<Rightarrow>
          if mincount (hdr e) < 1 \<or> has_flag e ARG_HASVALUE then gnu_mandatory es format1 format2
          else (let (t, f) = gnu_mandatory es [] ''['' in (format1 @ [if s = [] then CHR 0x00 else hd s] @ t, f))
      | None \<Rightarrow> gnu_mandatory es format1 format2)"

fun gnu_optional :: "arg_entry list \<Rightarrow> string \<Rightarrow> string \<Rightarrow> string" where
  "gnu_optional [] format2 suffix = suffix"
| "gnu_optional (e # es) format2 suffix =
     (case shortopts (hdr e) of
        Some s \<Rightarrow>
          if mincount (hdr e) > 0 \<or> has_flag e ARG_HASVALUE then gnu_optional es format2 suffix
          else format2 @ [if s = [] then CHR 0x00 else hd s] @ gnu_optional es [] '']''
      | None \<Rightarrow> gnu_optional es format2 suffix)"

definition arg_print_gnuswitch :: "arg_entry list \<Rightarrow> string option" where
  "arg_print_gnuswitch table =
     do { es \<leftarrow> before_end table;
          let (mandatory, format2) = gnu_mandatory es '' -'' '' [-'';
          Some (mandatory @ gnu_optional es format2 []) }"

text \<open>The instances of an option: the mandatory ones, and the optional ones in brackets.\<close>

definition print_instances :: "arg_entry \<Rightarrow> string \<Rightarrow> string" where
  "print_instances e syntax =
     concat (replicate (mincount (hdr e)) ('' '' @ syntax))
     @ (let n = int (maxcount (hdr e)) - int (mincount (hdr e)); opt = '' ['' @ syntax @ '']''
        in if n = 0 then [] else if n = 1 then opt else if n = 2 then opt @ opt else opt @ ''...'')"

primrec concat_texts :: "string option list \<Rightarrow> string option" where
  "concat_texts [] = Some []"
| "concat_texts (t # ts) = do { s \<leftarrow> t; r \<leftarrow> concat_texts ts; Some (s @ r) }"

definition print_syntax_entry :: "arg_entry \<Rightarrow> string option" where
  "print_syntax_entry e =
     (if shortopts (hdr e) \<noteq> None \<and> \<not> has_flag e ARG_HASVALUE then Some []
      else do { b \<leftarrow> arg_cat_option SYNTAX_SIZE (shortopts (hdr e)) (longopts (hdr e)) (arg_datatype (hdr e))
                     (has_flag e ARG_HASOPTVALUE) syntax_buf;
                Some (if length (cb_text b) > 0 then print_instances e (cb_text b) else []) })"

definition arg_print_syntax :: "arg_entry list \<Rightarrow> string option \<Rightarrow> string option" where
  "arg_print_syntax table suffix =
     do { switches \<leftarrow> arg_print_gnuswitch table;
          es \<leftarrow> before_end table;
          t \<leftarrow> concat_texts (map print_syntax_entry es);
          Some (switches @ t @ (case suffix of Some s \<Rightarrow> s | None \<Rightarrow> [])) }"

definition arg_print_syntaxv :: "arg_entry list \<Rightarrow> string option \<Rightarrow> string option" where
  "arg_print_syntaxv table suffix =
     do { es \<leftarrow> before_end table;
          t \<leftarrow> concat_texts (map (\<lambda>e. do {
                b \<leftarrow> arg_cat_optionv SYNTAX_SIZE (shortopts (hdr e)) (longopts (hdr e)) (arg_datatype (hdr e))
                      (has_flag e ARG_HASOPTVALUE) ''|'' syntax_buf;
                Some (print_instances e (cb_text b)) }) es);
          Some (t @ (case suffix of Some s \<Rightarrow> s | None \<Rightarrow> [])) }"

text \<open>The format of a line of the glossary is a function of the syntax and the explanation.\<close>

definition fmt_left :: "nat \<Rightarrow> string \<Rightarrow> string" where
  "fmt_left n s = s @ replicate (n - length s) (CHR '' '')"

definition print_glossary_entry :: "(string \<Rightarrow> string \<Rightarrow> string) \<Rightarrow> arg_entry \<Rightarrow> string option" where
  "print_glossary_entry fmt e =
     (case arg_glossary (hdr e) of
        None \<Rightarrow> Some []
      | Some g \<Rightarrow>
          do { b \<leftarrow> arg_cat_optionv SYNTAX_SIZE (shortopts (hdr e)) (longopts (hdr e)) (arg_datatype (hdr e))
                      (has_flag e ARG_HASOPTVALUE) '', '' syntax_buf;
               Some (fmt (cb_text b) g) })"

definition arg_print_glossary :: "arg_entry list \<Rightarrow> (string \<Rightarrow> string \<Rightarrow> string) option \<Rightarrow> string option" where
  "arg_print_glossary table fmt =
     do { es \<leftarrow> before_end table;
          let fmt = (case fmt of Some f \<Rightarrow> f | None \<Rightarrow> (\<lambda>s g. ''  '' @ fmt_left 20 s @ '' '' @ g @ [NL]));
          concat_texts (map (print_glossary_entry fmt) es) }"

subsection \<open>Errors\<close>

definition arg_lit_errorfn :: "arg_entry \<Rightarrow> int \<Rightarrow> string option \<Rightarrow> string \<Rightarrow> string option" where
  "arg_lit_errorfn e errorcode argval progname =
     (let h = hdr e
      in if errorcode = EMINCOUNT then
           do { t \<leftarrow> arg_print_option (shortopts h) (longopts h) (arg_datatype h) [NL];
                Some (progname @ '': missing option '' @ t @ [NL]) }
         else if errorcode = EMAXCOUNT then
           do { t \<leftarrow> arg_print_option (shortopts h) (longopts h) (arg_datatype h) [NL];
                Some (progname @ '': extraneous option '' @ t) }
         else Some [])"

definition arg_str_errorfn :: "arg_entry \<Rightarrow> int \<Rightarrow> string option \<Rightarrow> string \<Rightarrow> string option" where
  "arg_str_errorfn e errorcode argval progname =
     (let h = hdr e; argval = (case argval of Some v \<Rightarrow> v | None \<Rightarrow> [])
      in if errorcode = EMINCOUNT then
           do { t \<leftarrow> arg_print_option (shortopts h) (longopts h) (arg_datatype h) [NL]; Some (progname @ '': missing option '' @ t) }
         else if errorcode = EMAXCOUNT then
           do { t \<leftarrow> arg_print_option (shortopts h) (longopts h) (Some argval) [NL]; Some (progname @ '': excess option '' @ t) }
         else Some (progname @ '': ''))"

definition arg_file_errorfn :: "arg_entry \<Rightarrow> int \<Rightarrow> string option \<Rightarrow> string \<Rightarrow> string option" where
  "arg_file_errorfn e errorcode argval progname =
     (let h = hdr e; argval = (case argval of Some v \<Rightarrow> v | None \<Rightarrow> [])
      in if errorcode = EMINCOUNT then
           do { t \<leftarrow> arg_print_option (shortopts h) (longopts h) (arg_datatype h) [NL]; Some (progname @ '': missing option '' @ t) }
         else if errorcode = EMAXCOUNT then
           do { t \<leftarrow> arg_print_option (shortopts h) (longopts h) (Some argval) [NL]; Some (progname @ '': excess option '' @ t) }
         else Some (progname @ '': unknown error at '' @ [CHR 0x22] @ argval @ [CHR 0x22, NL]))"

definition ARG_EMALLOC :: int where "ARG_EMALLOC = 2"

definition arg_end_errorfn :: "int \<Rightarrow> string option \<Rightarrow> string \<Rightarrow> string" where
  "arg_end_errorfn error argval progname =
     (let argval = (case argval of Some v \<Rightarrow> v | None \<Rightarrow> []); quoted = [CHR 0x22] @ argval @ [CHR 0x22]
      in progname @ '': ''
         @ (if error = ARG_ELIMIT then ''too many errors to display''
            else if error = ARG_EMALLOC then ''insufficent memory''
            else if error = ARG_ENOMATCH then ''unexpected argument '' @ quoted
            else if error = ARG_EMISSARG then ''option '' @ quoted @ '' requires an argument''
            else if error = ARG_ELONGOPT then ''invalid option '' @ quoted
            else ''invalid option '' @ [CHR 0x22, CHR ''-'', char_of (nat (error mod 256)), CHR 0x22])
         @ [NL])"

definition arg_errorfn :: "arg_entry \<Rightarrow> int \<Rightarrow> string option \<Rightarrow> string \<Rightarrow> string option" where
  "arg_errorfn e errorcode argval progname =
     (case a_data e of
        Lit_data \<Rightarrow> arg_lit_errorfn e errorcode argval progname
      | Str_data _ \<Rightarrow> arg_str_errorfn e errorcode argval progname
      | File_data _ _ _ \<Rightarrow> arg_file_errorfn e errorcode argval progname
      | End_data _ \<Rightarrow> Some (arg_end_errorfn errorcode argval progname))"

text \<open>The errors of the end of the table, with the entries they belong to.\<close>

definition arg_print_errors :: "arg_entry list \<Rightarrow> nat \<Rightarrow> string \<Rightarrow> string option" where
  "arg_print_errors table endtable progname =
     concat_texts (map (\<lambda>(error, parent, argval).
         do { c_assert (parent < length table); arg_errorfn (table ! parent) error argval progname })
       (take (a_count (table ! endtable)) (end_errors (a_data (table ! endtable)))))"


section \<open>The buffer holds what fits\<close>

definition cat_inv :: "nat \<Rightarrow> cat_buf \<Rightarrow> bool" where
  "cat_inv cap b \<longleftrightarrow> length (cb_text b) < cap \<and> cb_dest b \<le> length (cb_text b) \<and> cb_dest b + cb_ndest b = cap"

text \<open>\<open>appends cap b t f\<close>: the step \<open>f\<close> appends the text \<open>t\<close>, if and only if there is room.\<close>

definition appends :: "nat \<Rightarrow> string \<Rightarrow> (cat_buf \<Rightarrow> cat_buf option) \<Rightarrow> bool" where
  "appends cap t f \<longleftrightarrow> (\<forall>b. cat_inv cap b \<longrightarrow>
     (if length (cb_text b) + length t < cap then \<exists>b'. f b = Some b' \<and> cb_text b' = cb_text b @ t \<and> cat_inv cap b'
      else f b = None))"

lemma appends_cat: "appends cap t (arg_cat cap t)"
  by (auto simp: appends_def arg_cat_def cat_inv_def Let_def)

lemma appends_skip: "appends cap [] Some"
  by (simp add: appends_def cat_inv_def)

lemma appends_seq:
  assumes "appends cap s f" "appends cap t g"
  shows "appends cap (s @ t) (\<lambda>b. Option.bind (f b) g)"
  unfolding appends_def
proof (intro allI impI)
  fix b assume b: "cat_inv cap b"
  show "if length (cb_text b) + length (s @ t) < cap
      then \<exists>b'. Option.bind (f b) g = Some b' \<and> cb_text b' = cb_text b @ s @ t \<and> cat_inv cap b' else Option.bind (f b) g = None"
  proof (cases "length (cb_text b) + length s < cap")
    case True
    obtain b1 where b1: "f b = Some b1" "cb_text b1 = cb_text b @ s" "cat_inv cap b1"
      using assms(1) [unfolded appends_def, rule_format, OF b] unfolding if_P [OF True] by blast
    then show ?thesis using assms(2) [unfolded appends_def, rule_format, OF b1(3)] b1 by (auto simp: add.assoc)
  next
    case False
    then have "f b = None" using assms(1) b by (auto simp: appends_def)
    then show ?thesis using False by simp
  qed
qed

lemma appends_if: "(P \<Longrightarrow> appends cap s f) \<Longrightarrow> (\<not> P \<Longrightarrow> appends cap t g)
    \<Longrightarrow> appends cap (if P then s else t) (\<lambda>b. if P then f b else g b)"
  by simp

lemma appends_case: "(\<And>x. v = Some x \<Longrightarrow> appends cap (s x) (f x)) \<Longrightarrow> (v = None \<Longrightarrow> appends cap t g)
    \<Longrightarrow> appends cap (case v of Some x \<Rightarrow> s x | None \<Rightarrow> t) (\<lambda>b. case v of Some x \<Rightarrow> f x b | None \<Rightarrow> g b)"
  by (cases v) simp_all

text \<open>The texts themselves.\<close>

definition value_text :: "string option \<Rightarrow> string \<Rightarrow> bool \<Rightarrow> string" where
  "value_text lead dtype optvalue =
     (case lead of Some l \<Rightarrow> l | None \<Rightarrow> []) @ (if optvalue then ''['' @ dtype @ '']'' else dtype)"

fun shorts_text :: "string \<Rightarrow> string \<Rightarrow> string" where
  "shorts_text separator [] = []"
| "shorts_text separator (c # cs) = [CHR ''-'', c] @ (if cs \<noteq> [] then separator else []) @ shorts_text separator cs"

function longs_text :: "string \<Rightarrow> string \<Rightarrow> string" where
  "longs_text separator c =
     (if c = [] then []
      else ''--'' @ takeWhile (\<lambda>c. c \<noteq> CHR '','') c @ (if drop (strcspn_comma c) c \<noteq> [] then separator else [])
        @ longs_text separator (tl (drop (strcspn_comma c) c)))"
  by pat_completeness auto
termination
  by (relation "measure (\<lambda>(_, c). length c)") (auto simp: strcspn_comma_def neq_Nil_conv)

declare longs_text.simps [simp del]

definition option_text :: "string option \<Rightarrow> string option \<Rightarrow> string option \<Rightarrow> bool \<Rightarrow> string \<Rightarrow> string" where
  "option_text shorts longs dtype optvalue separator =
     (case shorts of Some s \<Rightarrow> shorts_text separator s | None \<Rightarrow> [])
     @ (if shorts \<noteq> None \<and> longs \<noteq> None then separator else [])
     @ (case longs of Some l \<Rightarrow> longs_text separator l | None \<Rightarrow> [])
     @ (case dtype of
          Some d \<Rightarrow> value_text (if longs \<noteq> None then Some ''='' else if shorts \<noteq> None then Some '' '' else None) d optvalue
        | None \<Rightarrow> [])"

definition first_option_text :: "string option \<Rightarrow> string option \<Rightarrow> string option \<Rightarrow> bool \<Rightarrow> string" where
  "first_option_text shorts longs dtype optvalue =
     (case shorts of
        Some s \<Rightarrow> short_tag s @ (case dtype of Some d \<Rightarrow> value_text (Some '' '') d optvalue | None \<Rightarrow> [])
      | None \<Rightarrow>
          (case longs of
             Some l \<Rightarrow> (''--'' @ takeWhile (\<lambda>c. c \<noteq> CHR '','') l)
               @ (case dtype of Some d \<Rightarrow> value_text (Some ''='') d optvalue | None \<Rightarrow> [])
           | None \<Rightarrow> (case dtype of Some d \<Rightarrow> value_text None d optvalue | None \<Rightarrow> [])))"

lemma appends_value: "appends cap (value_text lead dtype optvalue) (cat_value cap lead dtype optvalue)"
  unfolding value_text_def cat_value_def
  by (intro appends_seq appends_if appends_case appends_cat appends_skip)

lemma appends_name:
  "appends cap (''--'' @ takeWhile (\<lambda>c. c \<noteq> CHR '','') l)
     (\<lambda>b. do { b \<leftarrow> arg_cat cap ''--'' b; strncat cap l (if strcspn_comma l < cb_ndest b then strcspn_comma l else cb_ndest b) b })"
  unfolding appends_def
proof (intro allI impI)
  fix b assume b: "cat_inv cap b"
  let ?n = "takeWhile (\<lambda>c. c \<noteq> CHR '','') l"
  have n: "length ?n \<le> length l" "take (length ?n) l = ?n" by (rule length_takeWhile_le) (rule takeWhile_eq_take [symmetric])
  show "if length (cb_text b) + length (''--'' @ ?n) < cap
      then \<exists>b'. Option.bind (arg_cat cap ''--'' b)
             (\<lambda>b. strncat cap l (if strcspn_comma l < cb_ndest b then strcspn_comma l else cb_ndest b) b) = Some b'
           \<and> cb_text b' = cb_text b @ ''--'' @ ?n \<and> cat_inv cap b'
      else Option.bind (arg_cat cap ''--'' b)
             (\<lambda>b. strncat cap l (if strcspn_comma l < cb_ndest b then strcspn_comma l else cb_ndest b) b) = None"
  proof (cases "length (cb_text b) + 2 < cap")
    case True
    then have "arg_cat cap ''--'' b = Some \<lparr>cb_text = cb_text b @ ''--'', cb_dest = length (cb_text b) + 2, cb_ndest = cap - (length (cb_text b) + 2)\<rparr>"
      using b by (auto simp: arg_cat_def cat_inv_def Let_def)
    then show ?thesis using True n by (auto simp: strncat_def strcspn_comma_def cat_inv_def Let_def)
  next
    case False
    then have "arg_cat cap ''--'' b = None" using b by (auto simp: arg_cat_def cat_inv_def Let_def)
    then show ?thesis using False by simp
  qed
qed

lemma appends_shorts: "appends cap (shorts_text separator s) (cat_shorts cap separator s)"
proof (induction s)
  case (Cons c cs)
  show ?case unfolding shorts_text.simps cat_shorts.simps
    by (intro appends_seq appends_if appends_cat appends_skip Cons.IH)
qed (simp add: appends_skip)

lemma appends_longs: "appends cap (longs_text separator c) (cat_longs cap separator c)"
proof (induction separator c rule: longs_text.induct)
  case (1 separator c)
  show ?case
  proof (cases "c = []")
    case False
    let ?rest = "drop (strcspn_comma c) c"
    have "appends cap ((''--'' @ takeWhile (\<lambda>c. c \<noteq> CHR '','') c) @ (if ?rest \<noteq> [] then separator else []) @ longs_text separator (tl ?rest))
        (\<lambda>b. Option.bind (do { b \<leftarrow> arg_cat cap ''--'' b;
                               strncat cap c (if strcspn_comma c < cb_ndest b then strcspn_comma c else cb_ndest b) b })
            (\<lambda>b. Option.bind (if ?rest \<noteq> [] then arg_cat cap separator b else Some b) (cat_longs cap separator (tl ?rest))))"
      by (intro appends_seq appends_name appends_if appends_cat appends_skip 1 False)
    then show ?thesis
      using False by (simp only: append_assoc longs_text.simps [of separator c] cat_longs.simps [of cap separator c] if_False Let_def bind_assoc)
  qed (simp add: longs_text.simps cat_longs.simps appends_skip)
qed

lemma appends_optionv:
  "appends cap (option_text shorts longs dtype optvalue separator) (arg_cat_optionv cap shorts longs dtype optvalue separator)"
  unfolding option_text_def arg_cat_optionv_def
  by (intro appends_seq appends_if appends_case appends_cat appends_skip appends_shorts appends_longs appends_value)

lemma appends_option: "appends cap (first_option_text shorts longs dtype optvalue) (arg_cat_option cap shorts longs dtype optvalue)"
proof -
  have N: "appends cap ((''--'' @ takeWhile (\<lambda>c. c \<noteq> CHR '','') l) @ (case dtype of Some d \<Rightarrow> value_text (Some ''='') d optvalue | None \<Rightarrow> []))
      (\<lambda>b. Option.bind (do { b \<leftarrow> arg_cat cap ''--'' b;
                             strncat cap l (if strcspn_comma l < cb_ndest b then strcspn_comma l else cb_ndest b) b })
         (\<lambda>b. case dtype of Some d \<Rightarrow> cat_value cap (Some ''='') d optvalue b | None \<Rightarrow> Some b))" for l
    by (intro appends_seq appends_name appends_case appends_value appends_skip)
  have S: "appends cap (short_tag s @ (case dtype of Some d \<Rightarrow> value_text (Some '' '') d optvalue | None \<Rightarrow> []))
      (\<lambda>b. do { b \<leftarrow> arg_cat cap (short_tag s) b; (case dtype of Some d \<Rightarrow> cat_value cap (Some '' '') d optvalue b | None \<Rightarrow> Some b) })" for s
    by (intro appends_seq appends_case appends_cat appends_skip appends_value)
  have V: "appends cap (case dtype of Some d \<Rightarrow> value_text None d optvalue | None \<Rightarrow> [])
      (\<lambda>b. case dtype of Some d \<Rightarrow> cat_value cap None d optvalue b | None \<Rightarrow> Some b)"
    by (intro appends_case appends_skip appends_value)
  show ?thesis unfolding first_option_text_def arg_cat_option_def Let_def
    by (cases shorts; cases longs; simp only: option.case) (use S N V in \<open>simp_all only: bind_assoc\<close>)
qed

lemma cat_inv_syntax: "cat_inv SYNTAX_SIZE syntax_buf"
  by (simp add: cat_inv_def syntax_buf_def SYNTAX_SIZE_def)

lemma syntax_appends:
  assumes "appends SYNTAX_SIZE t f"
  shows "Option.bind (f syntax_buf) (\<lambda>b. Some (g (cb_text b))) = (if length t < 200 then Some (g t) else None)"
proof -
  have "cb_text syntax_buf = []" by (simp add: syntax_buf_def)
  then show ?thesis using assms [unfolded appends_def, rule_format, OF cat_inv_syntax] by (auto simp: SYNTAX_SIZE_def split: if_splits)
qed

lemma print_option_text:
  "arg_print_option shorts longs dtype suffix
    = (if length (option_text shorts longs dtype False ''|'') < 200 then Some (option_text shorts longs dtype False ''|'' @ suffix) else None)"
  unfolding arg_print_option_def by (rule syntax_appends [OF appends_optionv, where g = "\<lambda>t. t @ suffix"])

text \<open>
  (C35) The text of an option: \<^verbatim>\<open>arg_print_option\<close> prints the names and the value of an option, separated by bars, if these are
  fewer than 200 characters; otherwise it writes behind its buffer (by one character, the terminating null character).
\<close>

theorem arg_print_option_text:
  "arg_print_option shorts longs dtype suffix
    = (if length (option_text shorts longs dtype False ''|'') < 200 then Some (option_text shorts longs dtype False ''|'' @ suffix) else None)"
  by (rule print_option_text)

end
