(* ===== verification/Cmdline.thy ===== *)
theory Cmdline
  imports Argtable
begin

text \<open>
  Command lines for a table of arguments (\<open>Argtable\<close>): a list of settings is written as words, and parsing the words gives the
  settings back.
\<close>

section \<open>Settings as words\<close>

datatype setting = Set_long string "string option" | Set_short char "string option"

fun render :: "setting \<Rightarrow> string list" where
  "render (Set_long n None) = [''--'' @ n]"
| "render (Set_long n (Some v)) = [''--'' @ n @ ''='' @ v]"
| "render (Set_short c None) = [[CHR ''-'', c]]"
| "render (Set_short c (Some v)) = [[CHR ''-'', c], v]"

fun setting_value :: "setting \<Rightarrow> string option" where
  "setting_value (Set_long n a) = a"
| "setting_value (Set_short c a) = a"

text \<open>
  The entry of the table a setting is for. A long name may be abbreviated, as long as it is not ambiguous. A value is given exactly
  where the entry wants one, and the value of a long option is not empty.
\<close>

fun setting_entry :: "arg_entry list \<Rightarrow> setting \<Rightarrow> nat option" where
  "setting_entry tab (Set_long n a) =
     (if n = [] \<or> CHR ''='' \<in> set n then None
      else case match_long (tab_longoptions tab) n (length n) False 0 None of
        Inr (Some k) \<Rightarrow>
          (let opt = tab_longoptions tab ! k
           in if (case a of None \<Rightarrow> has_arg opt = required_argument | Some v \<Rightarrow> has_arg opt = no_argument \<or> v = []) then None
              else Some (nat (opt_val opt)))
      | _ \<Rightarrow> None)"
| "setting_entry tab (Set_short c a) =
     (case short_index tab c of
        Some i \<Rightarrow> if has_flag (tab ! i) ARG_HASOPTVALUE \<or> has_flag (tab ! i) ARG_HASVALUE \<noteq> (a \<noteq> None) then None else Some i
      | None \<Rightarrow> None)"

definition command_line :: "setting list \<Rightarrow> string list" where
  "command_line ss = concat (map render ss)"

text \<open>The values the settings give to an entry, in their order.\<close>

definition values_for :: "arg_entry list \<Rightarrow> setting list \<Rightarrow> nat \<Rightarrow> string option list" where
  "values_for tab ss i = map setting_value (filter (\<lambda>s. setting_entry tab s = Some i) ss)"

fun setting_event :: "arg_entry list \<Rightarrow> setting \<Rightarrow> opt_event" where
  "setting_event tab (Set_long n a) = Ev_long (int (the (setting_entry tab (Set_long n a)))) a (hd (render (Set_long n a)))"
| "setting_event tab (Set_short c a) = Ev_short c a"


section \<open>Scanning the words gives the settings\<close>

lemma match_long_take:
  assumes "take len x = take len y"
  shows "match_long opts x len st k m = match_long opts y len st k m"
proof (induction opts arbitrary: k m)
  case (Cons opt opts)
  show ?case by (simp only: match_long.simps assms Cons.IH)
qed simp

lemma match_long_prefix: "match_long opts (n @ r) (length n) st k m = match_long opts n (length n) st k m"
  by (rule match_long_take) simp

lemma long_option_val_nonneg: "opt \<in> set (tab_longoptions tab) \<Longrightarrow> 0 \<le> opt_val opt"
  by (auto simp: tab_longoptions_def entry_longoptions_def)

lemma scan_long:
  assumes "setting_entry tab (Set_long n a) = Some i"
  shows "scan_option options (tab_longoptions tab) ([], hd (render (Set_long n a)), tl (hd (render (Set_long n a))), ws)
    = (setting_event tab (Set_long n a), [], [], [], ws)"
proof -
  have n: "n \<noteq> []" "CHR ''='' \<notin> set n" using assms by (auto split: if_splits)
  obtain k where k: "match_long (tab_longoptions tab) n (length n) False 0 None = Inr (Some k)"
    using assms n by (auto split: sum.splits option.splits if_splits)
  let ?opt = "tab_longoptions tab ! k"
  have a: "case a of None \<Rightarrow> has_arg ?opt \<noteq> required_argument | Some v \<Rightarrow> has_arg ?opt \<noteq> no_argument \<and> v \<noteq> []"
    using assms n k by (auto simp: Let_def split: if_splits option.splits)
  have i: "int (the (setting_entry tab (Set_long n a))) = opt_val ?opt"
    using assms n k a match_long_range [OF k] long_option_val_nonneg [of ?opt tab] by (auto simp: Let_def split: option.splits)
  have tw: "takeWhile (\<lambda>c. c \<noteq> CHR ''='') n = n" "takeWhile (\<lambda>c. c \<noteq> CHR ''='') (n @ CHR ''='' # v) = n" for v
  proof -
    have "\<forall>x \<in> set n. x \<noteq> CHR ''=''" using n(2) by blast
    then show "takeWhile (\<lambda>c. c \<noteq> CHR ''='') n = n" "takeWhile (\<lambda>c. c \<noteq> CHR ''='') (n @ CHR ''='' # v) = n"
      by (simp_all add: takeWhile_append2 takeWhile_eq_all_conv)
  qed
  show ?thesis
  proof (cases a)
    case None
    then have "long_event (tab_longoptions tab) (''--'' @ n) n ws = (Ev_long (opt_val ?opt) None (''--'' @ n), 0)"
      using k a by (simp add: long_event_def Let_def tw)
    then show ?thesis using None i by (simp del: setting_entry.simps)
  next
    case (Some v)
    have "match_long (tab_longoptions tab) (n @ CHR ''='' # v) (length n) False 0 None = Inr (Some k)"
      using k match_long_prefix by simp
    then have "long_event (tab_longoptions tab) (''--'' @ n @ ''='' @ v) (n @ ''='' @ v) ws
        = (Ev_long (opt_val ?opt) (Some v) (''--'' @ n @ ''='' @ v), 0)"
      using a Some by (simp add: long_event_def Let_def tw)
    then show ?thesis using Some i by (simp del: setting_entry.simps)
  qed
qed

lemma hd_concat: "\<forall>x \<in> set xss. x = [] \<or> hd x \<noteq> y \<Longrightarrow> concat xss = [] \<or> hd (concat xss) \<noteq> y"
  by (induction xss) (auto simp: hd_append)

lemma options_of_short:
  assumes W: "wf_table tab" and c: "short_index tab c = Some i"
  shows "\<exists>rest. dropWhile (\<lambda>x. x \<noteq> c) (tab_options tab)
      = c # (if has_flag (tab ! i) ARG_HASVALUE then '':'' else []) @ (if has_flag (tab ! i) ARG_HASOPTVALUE then '':'' else []) @ rest
    \<and> (rest = [] \<or> hd rest \<noteq> CHR '':'') \<and> c \<noteq> CHR '':'' \<and> c \<noteq> CHR ''-''"
proof -
  let ?P = "\<lambda>i. case shortopts (hdr (tab ! i)) of Some s \<Rightarrow> c \<in> set s | None \<Rightarrow> False"
  obtain k where k: "k < length [0..<endt tab]" "?P ([0..<endt tab] ! k)" "i = [0..<endt tab] ! k" "\<forall>j < k. \<not> ?P ([0..<endt tab] ! j)"
    using c unfolding short_index_def find_Some_iff by auto
  then have i: "i < endt tab" "?P i" "\<forall>j < i. \<not> ?P j" by auto
  obtain s where s: "shortopts (hdr (tab ! i)) = Some s" "c \<in> set s" using i(2) by (auto split: option.splits)
  have al: "x \<in> alnum" if "j < endt tab" "shortopts (hdr (tab ! j)) = Some t" "x \<in> set t" for j t x
    using wf_tableD(2) [OF W that(1)] that(2,3) by (auto simp: wf_arg_entry_def good_names_def)
  have cne: "c \<noteq> CHR '':''" "c \<noteq> CHR ''-''" using al [OF i(1) s] alnum_chars by auto
  obtain s1 s2 where ss: "s = s1 @ c # s2" "c \<notin> set s1" using split_list_first [OF s(2)] by blast
  let ?g = "\<lambda>x. [x] @ (if has_flag (tab ! i) ARG_HASVALUE then '':'' else []) @ (if has_flag (tab ! i) ARG_HASOPTVALUE then '':'' else [])"
  let ?as = "concat (map entry_shortoptions (take i (butlast tab)))" and ?bs = "concat (map entry_shortoptions (drop (Suc i) (butlast tab)))"
  have bl: "i < length (butlast tab)" "butlast tab ! i = tab ! i" using i(1) by (simp_all add: endt_def nth_butlast)
  have opts: "tab_options tab = (CHR '':'' # ?as @ concat (map ?g s1)) @ c # tl (?g c) @ concat (map ?g s2) @ ?bs"
  proof -
    have "concat (map entry_shortoptions (butlast tab)) = ?as @ entry_shortoptions (tab ! i) @ ?bs"
      using id_take_nth_drop [OF bl(1)] bl(2) by (metis concat.simps(2) concat_append list.simps(9) map_append)
    moreover have "entry_shortoptions (tab ! i) = concat (map ?g s1) @ ?g c @ concat (map ?g s2)"
      by (simp add: entry_shortoptions_def s(1) ss(1))
    ultimately show ?thesis by (simp add: tab_options_def)
  qed
  have "c \<notin> set ?as"
  proof
    assume "c \<in> set ?as"
    then obtain e where e: "e \<in> set (take i (butlast tab))" "c \<in> set (entry_shortoptions e)" by auto
    then obtain j where j: "j < i" "e = tab ! j" using bl(1) by (auto simp: in_set_conv_nth nth_butlast)
    show False using e(2) j i(3) cne by (auto simp: entry_shortoptions_def split: option.splits if_splits)
  qed
  moreover have "c \<notin> set (concat (map ?g s1))" using ss(2) cne by auto
  ultimately have pre: "\<forall>x \<in> set (CHR '':'' # ?as @ concat (map ?g s1)). x \<noteq> c" using cne by auto
  let ?rest = "concat (map ?g s2) @ ?bs"
  have "dropWhile (\<lambda>x. x \<noteq> c) (tab_options tab) = c # tl (?g c) @ ?rest"
    unfolding opts using pre by (subst dropWhile_append2) auto
  moreover have "?rest = [] \<or> hd ?rest \<noteq> CHR '':''"
  proof -
    have "\<forall>x \<in> set (map ?g s2). x = [] \<or> hd x \<noteq> CHR '':''" using al [OF i(1) s(1)] ss(1) alnum_chars by auto
    moreover have "x = [] \<or> hd x \<noteq> CHR '':''" if x: "x \<in> set (map entry_shortoptions (drop (Suc i) (butlast tab)))" for x
    proof -
      obtain e where "e \<in> set (drop (Suc i) (butlast tab))" and e: "x = entry_shortoptions e" using x unfolding set_map by blast
      from this(1) have "e \<in> set (butlast tab)" by (rule in_set_dropD)
      with e obtain j where j: "j < endt tab" "x = entry_shortoptions (tab ! j)"
        by (auto simp: in_set_conv_nth nth_butlast endt_def)
      show ?thesis
      proof (cases "shortopts (hdr (tab ! j))")
        case (Some t)
        then show ?thesis using j al [OF j(1) Some] alnum_chars by (cases t) (auto simp: entry_shortoptions_def)
      qed (simp add: j(2) entry_shortoptions_def)
    qed
    ultimately have "\<forall>x \<in> set (map ?g s2 @ map entry_shortoptions (drop (Suc i) (butlast tab))). x = [] \<or> hd x \<noteq> CHR '':''"
      unfolding set_append ball_Un by blast
    from hd_concat [OF this] show ?thesis by (simp only: concat_append)
  qed
  ultimately show ?thesis using cne by (intro exI [of _ ?rest]) simp
qed


lemma scan_short:
  assumes W: "wf_table tab" and e: "setting_entry tab (Set_short c a) = Some i"
  shows "scan_option (tab_options tab) longs ([], [CHR ''-'', c], [c], tl (render (Set_short c a)) @ ws)
    = (setting_event tab (Set_short c a), [], [], [], ws)"
proof -
  have i: "short_index tab c = Some i" "\<not> has_flag (tab ! i) ARG_HASOPTVALUE" "has_flag (tab ! i) ARG_HASVALUE \<longleftrightarrow> a \<noteq> None"
    using e by (auto split: option.splits if_splits)
  obtain rest where o: "dropWhile (\<lambda>x. x \<noteq> c) (tab_options tab)
      = c # (if has_flag (tab ! i) ARG_HASVALUE then '':'' else []) @ (if has_flag (tab ! i) ARG_HASOPTVALUE then '':'' else []) @ rest"
      "rest = [] \<or> hd rest \<noteq> CHR '':''" "c \<noteq> CHR '':''" "c \<noteq> CHR ''-''"
    using options_of_short [OF W i(1)] by blast
  show ?thesis
  proof (cases a)
    case None
    then have d: "dropWhile (\<lambda>x. x \<noteq> c) (tab_options tab) = c # rest" using o(1) i by simp
    have "short_event (tab_options tab) [CHR ''-'', c] c [] ws = (Ev_short c None, True, 0)"
      unfolding short_event_def Let_def d using o(2,3) by (cases rest) simp_all
    then show ?thesis using None o(4) by simp
  next
    case (Some v)
    then have d: "dropWhile (\<lambda>x. x \<noteq> c) (tab_options tab) = c # CHR '':'' # rest" using o(1) i by simp
    have "short_event (tab_options tab) [CHR ''-'', c] c [] (v # ws) = (Ev_short c (Some v), True, 1)"
      unfolding short_event_def Let_def d using o(2,3) by (cases rest) simp_all
    then show ?thesis using Some o(4) by simp
  qed
qed

lemma scan_setting:
  assumes W: "wf_table tab" and e: "setting_entry tab s = Some i"
  shows "scan px (tab_options tab) (tab_longoptions tab) ([], [], [], render s @ ws)
    = (let r = scan px (tab_options tab) (tab_longoptions tab) ([], [], [], ws) in (setting_event tab s # fst r, snd r))"
proof (cases s)
  case (Set_long n a)
  let ?w = "hd (render (Set_long n a))"
  have w: "render s @ ws = ?w # ws" "\<not> operand ?w" "?w \<noteq> ''--''"
    using e Set_long by (cases a; auto simp: operand_def split: if_splits)+
  show ?thesis
    using scan_long [of tab n a i "tab_options tab" ws] e Set_long w
    by (simp only: w(1)) (subst scan.simps, simp add: w(2,3) Let_def del: render.simps setting_event.simps setting_entry.simps)
next
  case (Set_short c a)
  have "c \<noteq> CHR ''-''" using options_of_short [OF W, of c] e Set_short by (auto split: option.splits)
  moreover have "render s @ ws = [CHR ''-'', c] # tl (render (Set_short c a)) @ ws" by (cases a) (simp_all add: Set_short)
  ultimately show ?thesis
    using scan_short [OF W, of c a i "tab_longoptions tab" ws] e Set_short
    by (simp only:) (subst scan.simps, simp add: operand_def Let_def del: render.simps setting_event.simps setting_entry.simps scan_option.simps)
qed

lemma scan_command_line:
  assumes W: "wf_table tab"
  shows "\<forall>s \<in> set ss. setting_entry tab s \<noteq> None \<Longrightarrow>
    scan px (tab_options tab) (tab_longoptions tab) ([], [], [], command_line ss) = (map (setting_event tab) ss, [])"
proof (induction ss)
  case Nil
  then show ?case by (simp add: command_line_def scan.simps)
next
  case (Cons s ss)
  then obtain i where "setting_entry tab s = Some i" by auto
  then show ?case using scan_setting [OF W, of s i px "command_line ss"] Cons by (simp add: command_line_def)
qed


section \<open>Parsing them fills the table\<close>

lemma event_of_setting:
  assumes "setting_entry tab s = Some i" "length (args i) < maxcount (hdr (tab ! i))"
  shows "event_step tab (setting_event tab s) (args, []) = (args(i := args i @ [setting_value s]), [])"
proof (cases s)
  case (Set_long n a)
  have "a \<noteq> Some []" using assms(1) Set_long by (auto simp: Let_def split: if_splits sum.splits option.splits)
  then show ?thesis using assms Set_long by (simp add: take_arg_def del: setting_entry.simps)
next
  case (Set_short c a)
  then have "short_index tab c = Some i" using assms(1) by (auto split: option.splits if_splits)
  then show ?thesis using assms Set_short by (simp add: take_arg_def)
qed

lemma values_for_Cons:
  "values_for tab (s # ss) i = (if setting_entry tab s = Some i then setting_value s # values_for tab ss i else values_for tab ss i)"
  by (simp add: values_for_def)

lemma events_of_settings:
  "\<forall>s \<in> set ss. setting_entry tab s \<noteq> None \<Longrightarrow> \<forall>i. length (args i) + length (values_for tab ss i) \<le> maxcount (hdr (tab ! i)) \<or> values_for tab ss i = []
    \<Longrightarrow> fold (event_step tab) (map (setting_event tab) ss) (args, []) = (\<lambda>i. args i @ values_for tab ss i, [])"
proof (induction ss arbitrary: args)
  case Nil
  then show ?case by (simp add: values_for_def)
next
  case (Cons s ss)
  obtain i where i: "setting_entry tab s = Some i" using Cons.prems(1) by auto
  let ?args = "args(i := args i @ [setting_value s])"
  have b: "length (args i) < maxcount (hdr (tab ! i))"
    using Cons.prems(2) [rule_format, of i] i by (simp add: values_for_Cons)
  have "\<forall>j. length (?args j) + length (values_for tab ss j) \<le> maxcount (hdr (tab ! j)) \<or> values_for tab ss j = []"
  proof
    fix j show "length (?args j) + length (values_for tab ss j) \<le> maxcount (hdr (tab ! j)) \<or> values_for tab ss j = []"
      using Cons.prems(2) [rule_format, of j] i by (cases "i = j") (simp_all add: values_for_Cons)
  qed
  then have "fold (event_step tab) (map (setting_event tab) ss) (?args, []) = (\<lambda>j. ?args j @ values_for tab ss j, [])"
    using Cons.IH Cons.prems(1) by simp
  moreover have "(\<lambda>j. ?args j @ values_for tab ss j) = (\<lambda>j. args j @ values_for tab (s # ss) j)"
    using i by (auto simp: fun_eq_iff values_for_Cons)
  ultimately show ?case using event_of_setting [OF i, of args, OF b] by simp
qed

lemma setting_entry_range: "setting_entry tab s = Some i \<Longrightarrow> i < endt tab"
proof (cases s)
  case (Set_long n a)
  assume "setting_entry tab s = Some i"
  then obtain k where "match_long (tab_longoptions tab) n (length n) False 0 None = Inr (Some k)"
      "i = nat (opt_val (tab_longoptions tab ! k))"
    using Set_long by (auto simp: Let_def split: if_splits sum.splits option.splits)
  then show ?thesis using match_long_range tab_longoptions_val by fastforce
next
  case (Set_short c a)
  assume "setting_entry tab s = Some i"
  then show ?thesis using Set_short short_index_range by (auto split: option.splits if_splits)
qed

lemma values_for_range: "\<not> i < endt tab \<Longrightarrow> values_for tab ss i = []"
  by (auto simp: values_for_def filter_empty_conv dest: setting_entry_range)

lemma parse_command_line:
  assumes W: "wf_table tab" and S: "\<forall>s \<in> set ss. setting_entry tab s \<noteq> None"
    and n: "\<forall>i < endt tab. mincount (hdr (tab ! i)) \<le> length (values_for tab ss i) \<and> length (values_for tab ss i) \<le> maxcount (hdr (tab ! i))"
  shows "parse_spec px tab (prog # command_line ss) = (values_for tab ss, [])"
proof -
  have "\<forall>i. length ((\<lambda>_. []) i) + length (values_for tab ss i) \<le> maxcount (hdr (tab ! i)) \<or> values_for tab ss i = []"
    using n values_for_range by auto
  from events_of_settings [OF S this]
  have f: "fold (event_step tab) (map (setting_event tab) ss) (\<lambda>_. [], []) = (values_for tab ss, [])" by simp
  have "too_few tab (values_for tab ss) = []" using n by (auto simp: too_few_def filter_empty_conv)
  then show ?thesis using scan_command_line [OF W S] f by (simp add: parse_spec_def excess_def Let_def)
qed

text \<open>
  (C20) Writing settings as a command line and parsing it gives the settings back: if every setting is for an entry of the table and
  their numbers are within the limits, \<^verbatim>\<open>arg_parse\<close> reports no error and every entry holds its values in their order.
\<close>

theorem command_line_roundtrip:
  assumes "wf_table tab" "\<forall>s \<in> set ss. setting_entry tab s \<noteq> None"
    and "\<forall>i < endt tab. mincount (hdr (tab ! i)) \<le> length (values_for tab ss i) \<and> length (values_for tab ss i) \<le> maxcount (hdr (tab ! i))"
    and "\<forall>v \<in> set (prog # command_line ss). CHR 0x00 \<notin> set v"
  shows "\<exists>gs'. arg_parse posixly (prog # command_line ss) gs tab = Some (0, gs', table_of tab (values_for tab ss, []))"
  using arg_parse_exact [OF assms(1,4), of posixly gs] parse_command_line [OF assms(1-3), of posixly prog] by simp


text \<open>An abbreviated long name, and a switch given twice.\<close>

theorem command_line_roundtrip_witness:
  "(\<forall>gs. \<exists>gs'. arg_parse False (''tool'' # command_line [Set_short (CHR ''v'') None, Set_long ''conf'' (Some ''a=b''), Set_short (CHR ''v'') None])
      gs demo_table = Some (0, gs', table_of demo_table
        (values_for demo_table [Set_short (CHR ''v'') None, Set_long ''conf'' (Some ''a=b''), Set_short (CHR ''v'') None], [])))
    \<and> map (values_for demo_table [Set_short (CHR ''v'') None, Set_long ''conf'' (Some ''a=b''), Set_short (CHR ''v'') None]) [0, 1, 2]
      = [[None, None], [Some ''a=b''], []]"
proof -
  let ?ss = "[Set_short (CHR ''v'') None, Set_long ''conf'' (Some ''a=b''), Set_short (CHR ''v'') None]"
  have W: "wf_table demo_table"
    by (simp add: wf_table_def demo_table_def good_names_def alnum_def)
  have S: "setting_entry demo_table (Set_short (CHR ''v'') None) = Some 0" "setting_entry demo_table (Set_long ''conf'' (Some ''a=b'')) = Some 1"
    by code_simp+
  then have V: "values_for demo_table ?ss = (\<lambda>i. if i = 0 then [None, None] else if i = 1 then [Some ''a=b''] else [])"
    by (auto simp: fun_eq_iff values_for_def simp del: setting_entry.simps)
  have l: "\<forall>i < endt demo_table. mincount (hdr (demo_table ! i)) \<le> length (values_for demo_table ?ss i)
      \<and> length (values_for demo_table ?ss i) \<le> maxcount (hdr (demo_table ! i))"
    unfolding V by (simp add: endt_def demo_table_def arg_litn_def arg_filen_def arg_strn_def less_Suc_eq numeral_eq_Suc all_conj_distrib)
  have c: "\<forall>v \<in> set (''tool'' # command_line ?ss). CHR 0x00 \<notin> set v" by (simp add: command_line_def)
  have s: "\<forall>s \<in> set ?ss. setting_entry demo_table s \<noteq> None" using S by (simp del: setting_entry.simps)
  show ?thesis using command_line_roundtrip [OF W s l c, of False] V by simp
qed


section \<open>Peculiarities\<close>

text \<open>A name that is exactly that of an option is ambiguous if two options before it start with it.\<close>

theorem exact_name_ambiguous:
  assumes "take (length n) (opt_name o1) = n" "length (opt_name o1) \<noteq> length n" "take (length n) (opt_name o2) = n"
    "length (opt_name o2) \<noteq> length n"
  shows "match_long (o1 # o2 # os) n (length n) False 0 None = Inl ()"
proof -
  have "take (length n) n = n" by simp
  then show ?thesis using assms by (simp only: match_long.simps) simp
qed

text \<open>A value for a switch is reported as a missing argument.\<close>

theorem switch_with_value:
  assumes "match_long longs n (length n) False 0 None = Inr (Some k)" "has_arg (longs ! k) = no_argument" "CHR ''='' \<notin> set n"
  shows "long_event longs w (n @ ''='' @ v) ws = (Ev_missing w, 0)"
proof -
  have "\<forall>x \<in> set n. x \<noteq> CHR ''=''" using assms(3) by blast
  then have "takeWhile (\<lambda>c. c \<noteq> CHR ''='') (n @ CHR ''='' # v) = n" by (simp add: takeWhile_append2)
  then show ?thesis using assms(1,2) match_long_prefix [of longs n "CHR ''='' # v"] by (simp add: long_event_def Let_def)
qed

end
