(* ===== verification/Cli_Util.thy ===== *)
theory Cli_Util
  imports Iniparser Osd_Log Argtable_Print
begin

text \<open>
  What the command line tools share (\<^verbatim>\<open>cli-util.h\<close>): the log output, the configuration made of defaults, command line
  and configuration file, and \<^verbatim>\<open>main\<close>. Terminals, files and the environment are arguments.
\<close>

section \<open>Definitions\<close>

definition LOG_EMERG :: int where "LOG_EMERG = 0"
definition LOG_ALERT :: int where "LOG_ALERT = 1"
definition LOG_CRIT :: int where "LOG_CRIT = 2"
definition LOG_WARNING :: int where "LOG_WARNING = 4"
definition LOG_NOTICE :: int where "LOG_NOTICE = 5"

definition DEFAULT_CONFIG_FILE :: string where "DEFAULT_CONFIG_FILE = ''/etc/osd/osd.conf''"
definition DEFAULT_HOSTCTRL_EP :: string where "DEFAULT_HOSTCTRL_EP = ''tcp://localhost:9537''"
definition DEFAULT_HOSTCTRL_BIND_EP :: string where "DEFAULT_HOSTCTRL_BIND_EP = ''tcp://0.0.0.0:9537''"
definition DEFAULT_LOG_LEVEL :: int where "DEFAULT_LOG_LEVEL = LOG_ERR"

definition ANSI_COLOR_RED :: string where "ANSI_COLOR_RED = CHR 0x1B # ''[31m''"
definition ANSI_COLOR_YELLOW :: string where "ANSI_COLOR_YELLOW = CHR 0x1B # ''[33m''"
definition ANSI_COLOR_RESET :: string where "ANSI_COLOR_RESET = CHR 0x1B # ''[0m''"

record config =
  log_level :: int
  color_output :: int

definition cfg_init :: config where "cfg_init = \<lparr>log_level = DEFAULT_LOG_LEVEL, color_output = 0\<rparr>"

text \<open>
  The output streams, as the text written to them. The lock is taken and released within one call. All messages
  have a format that is not empty and ends in a newline exactly if the formatted message does.
\<close>

record cli_io =
  cli_out :: string
  cli_err :: string

definition cli_vlog :: "config \<Rightarrow> int \<Rightarrow> string \<Rightarrow> string \<Rightarrow> cli_io \<Rightarrow> cli_io" where
  "cli_vlog cfg priority category msg io =
     (if priority > log_level cfg then io
      else (let red = (if color_output cfg \<noteq> 0 then ANSI_COLOR_RED else []);
                yellow = (if color_output cfg \<noteq> 0 then ANSI_COLOR_YELLOW else []);
                prefix = (if priority = LOG_DEBUG then ''[DEBUG] ''
                          else if priority = LOG_INFO then yellow @ ''[INFO]  ''
                          else if priority = LOG_ERR then red @ ''[ERROR] ''
                          else if priority = LOG_CRIT then red @ ''[FATAL] ''
                          else []);
                txt = prefix @ category @ '': '' @ msg
                  @ (if color_output cfg \<noteq> 0 then ANSI_COLOR_RESET else [])
                  @ (if last msg \<noteq> NL then [NL] else [])
            in io\<lparr>cli_err := cli_err io @ txt\<rparr>))"

definition cli_log :: "config \<Rightarrow> int \<Rightarrow> string \<Rightarrow> string \<Rightarrow> cli_io \<Rightarrow> cli_io" where
  "cli_log cfg priority category msg io = cli_vlog cfg priority category msg io"

definition cfg_set_runtime_defaults :: "bool \<Rightarrow> bool \<Rightarrow> config \<Rightarrow> config" where
  "cfg_set_runtime_defaults isatty_stdout isatty_stderr cfg =
     cfg\<lparr>color_output := of_bool (isatty_stdout \<or> isatty_stderr)\<rparr>"

definition cfg_update_with_cli_args :: "int \<Rightarrow> config \<Rightarrow> config" where
  "cfg_update_with_cli_args verbose_count cfg =
     (let cfg = cfg\<lparr>log_level := log_level cfg + verbose_count\<rparr>
      in if log_level cfg > LOG_DEBUG then cfg\<lparr>log_level := LOG_DEBUG\<rparr> else cfg)"

definition cfg_parser_error_cb :: "config \<Rightarrow> string \<Rightarrow> string \<Rightarrow> cli_io \<Rightarrow> cli_io" where
  "cfg_parser_error_cb cfg progname msg io = cli_vlog cfg LOG_INFO progname msg io"

definition strcasecmp_eq :: "string \<Rightarrow> string \<Rightarrow> bool" where
  "strcasecmp_eq a b \<longleftrightarrow> map c_tolower a = map c_tolower b"

definition log_level_names :: "(string \<times> int) list" where
  "log_level_names =
     [(''emerg'', LOG_EMERG), (''alert'', LOG_ALERT), (''crit'', LOG_CRIT), (''err'', LOG_CRIT), (''warning'', LOG_WARNING),
      (''notice'', LOG_NOTICE), (''info'', LOG_INFO), (''debug'', LOG_DEBUG)]"

text \<open>The chain of comparisons with the names of the levels: the first that matches.\<close>

definition parse_log_level :: "string \<Rightarrow> int option" where
  "parse_log_level str = map_option snd (find (\<lambda>(n, l). strcasecmp_eq str n) log_level_names)"

definition cfg_parse_config_file ::
  "(string \<Rightarrow> string option) \<Rightarrow> string \<Rightarrow> string \<Rightarrow> config \<Rightarrow> cli_io \<Rightarrow> (osd_result \<times> config \<times> cli_io) option" where
  "cfg_parse_config_file fs progname filename cfg io =
     do { let io = cli_log cfg LOG_DEBUG progname (''Reading configuration from file '' @ filename) io;
          (ini, io) \<leftarrow> iniparser_load (cfg_parser_error_cb cfg progname) (fs filename) filename io;
          if ini = None then
            Some (OSD_ERROR_FAILURE, cfg,
                  cli_log cfg LOG_INFO progname (''Unable to parse configuration file '' @ filename) io)
          else do {
            str \<leftarrow> iniparser_getstring ini (Some ''general:log_level'') Null;
            (cfg_file_log_level, io) \<leftarrow> (case str of
               Null \<Rightarrow> Some (DEFAULT_LOG_LEVEL, io)
             | Invalid \<Rightarrow> None
             | Str s \<Rightarrow>
                 (case parse_log_level s of
                    Some l \<Rightarrow> Some (l, io)
                  | None \<Rightarrow> Some (DEFAULT_LOG_LEVEL,
                      cli_log cfg LOG_ERR progname
                        (''Invalid value '' @ [squote] @ s @ [squote] @ '' for configuration key general.log_level'') io)));
            color \<leftarrow> iniparser_getboolean ini (Some ''general:color_output'') (color_output cfg);
            let cfg = cfg\<lparr>color_output := color\<rparr>;
            Some (OSD_OK, cfg\<lparr>log_level := cfg_file_log_level\<rparr>, io) } }"

text \<open>The log callback the tools give to the library.\<close>

definition osd_log_handler :: "config \<Rightarrow> int \<Rightarrow> string \<Rightarrow> cli_io \<Rightarrow> cli_io" where
  "osd_log_handler cfg priority msg io = cli_vlog cfg priority ''libosd'' msg io"

subsection \<open>Command line\<close>

text \<open>The table is null until the first argument is added.\<close>

definition osd_tool_add_arg :: "arg_entry \<Rightarrow> arg_entry list option \<Rightarrow> osd_result \<times> arg_entry list option" where
  "osd_tool_add_arg arg argtable =
     (case argtable of None \<Rightarrow> (OSD_OK, Some [arg]) | Some tab \<Rightarrow> (OSD_OK, Some (tab @ [arg])))"

definition add_args :: "arg_entry list \<Rightarrow> arg_entry list option \<Rightarrow> arg_entry list option" where
  "add_args args argtable = foldl (\<lambda>t a. snd (osd_tool_add_arg a t)) argtable args"

text \<open>The value of an argument, \<^verbatim>\<open>a->sval[0]\<close> or \<^verbatim>\<open>a->filename[0]\<close>, and its default.\<close>

definition arg_value :: "arg_entry \<Rightarrow> string" where
  "arg_value e = (case a_data e of Str_data xs \<Rightarrow> xs ! 0 | File_data fs bs xs \<Rightarrow> fs ! 0 | _ \<Rightarrow> [])"

definition with_default :: "string \<Rightarrow> arg_entry \<Rightarrow> arg_entry" where
  "with_default v e = e\<lparr>a_data :=
     (case a_data e of Str_data xs \<Rightarrow> Str_data (xs[0 := v]) | File_data fs bs xs \<Rightarrow> File_data (fs[0 := v]) bs xs | d \<Rightarrow> d)\<rparr>"

record osd_version =
  v_major :: int
  v_minor :: int
  v_micro :: int
  v_suffix :: string

definition version_text :: "osd_version \<Rightarrow> string" where
  "version_text v = fmt_d (v_major v) @ ''.'' @ fmt_d (v_minor v) @ ''.'' @ fmt_d (v_micro v) @ v_suffix v"

definition print_version :: "osd_version \<Rightarrow> osd_version \<Rightarrow> string \<Rightarrow> cli_io \<Rightarrow> cli_io" where
  "print_version tool libosd progname io =
     io\<lparr>cli_out := cli_out io @ progname @ '' '' @ version_text tool @ '' (using libosd '' @ version_text libosd @ '')'' @ [NL]\<rparr>"

text \<open>The program environment: name and description of the tool, versions, terminals, environment variable and file system.\<close>

record cli_env =
  progname :: string
  shortdesc :: string
  tool_version :: osd_version
  lib_version :: osd_version
  stdout_tty :: bool
  stderr_tty :: bool
  posixly_correct :: bool
  files :: "string \<Rightarrow> string option"

definition common_args :: "arg_entry list" where
  "common_args =
     [arg_litn None (Some ''help'') 0 1 (Some ''display this help and exit''),
      arg_litn None (Some ''version'') 0 1 (Some ''display version info and exit''),
      arg_filen (Some ''c'') (Some ''config-file'') (Some ''<file>'') 0 1 (Some ''non-standard configuration file location. ''),
      arg_litn (Some ''v'') None 0 10 (Some ''increase verbosity (can be used multiple times)'')]"

text \<open>The global variables of \<^verbatim>\<open>getopt_long\<close> when the program starts.\<close>

definition getopt_init :: getopt_state where
  "getopt_init = \<lparr>nargv = [], opterr = True, optind = 1, optopt = c_int (CHR ''?''), optreset = False, optarg = None, place = EMSG,
     nonopt_start = None, nonopt_end = None, flag_val = 0, warnings = []\<rparr>"

definition glossary_format :: "string \<Rightarrow> string \<Rightarrow> string" where
  "glossary_format syntax gloss = ''  '' @ fmt_left 25 syntax @ '' '' @ gloss @ [NL]"

text \<open>
  \<^verbatim>\<open>setup\<close> is the list of the arguments of the tool, \<^verbatim>\<open>run\<close> its main function, which reads them in the table after the
  common ones.
\<close>

definition cli_main ::
  "cli_env \<Rightarrow> arg_entry list \<Rightarrow> (arg_entry list \<Rightarrow> config \<Rightarrow> cli_io \<Rightarrow> 'w \<Rightarrow> (int \<times> cli_io \<times> 'w) option)
    \<Rightarrow> string list \<Rightarrow> cli_io \<Rightarrow> 'w \<Rightarrow> (int \<times> cli_io \<times> 'w) option" where
  "cli_main env setup run argv io w =
     (let cfg = cfg_set_runtime_defaults (stdout_tty env) (stderr_tty env) cfg_init;
          argtable = the (add_args [arg_end 20] (add_args setup (add_args common_args None)));
          argtable = argtable[2 := with_default DEFAULT_CONFIG_FILE (argtable ! 2)]
      in do {
        (nerrors, _, argtable) \<leftarrow> arg_parse (posixly_correct env) argv getopt_init argtable;
        if a_count (argtable ! 0) > 0 then
          do { syntax \<leftarrow> arg_print_syntax argtable (Some [NL]);
               glossary \<leftarrow> arg_print_glossary argtable (Some glossary_format);
               Some (0, io\<lparr>cli_out := cli_out io @ ''Usage: '' @ progname env @ syntax @ shortdesc env @ [NL, NL] @ glossary\<rparr>, w) }
        else if a_count (argtable ! 1) > 0 then
          Some (0, print_version (tool_version env) (lib_version env) (progname env) io, w)
        else if nerrors > 0 then
          do { errors \<leftarrow> arg_print_errors argtable (length argtable - 1) (progname env);
               Some (1, io\<lparr>cli_out := cli_out io @ errors @ ''Try '' @ [squote] @ progname env @ '' --help''
                            @ [squote] @ '' for more information.'' @ [NL]\<rparr>, w) }
        else do {
          let verbose_count = int (a_count (argtable ! 3));
          let cfg = cfg_update_with_cli_args verbose_count cfg;
          (rv, cfg, io) \<leftarrow> cfg_parse_config_file (files env) (progname env) (arg_value (argtable ! 2)) cfg io;
          let cfg = (if OSD_SUCCEEDED rv then cfg_update_with_cli_args verbose_count cfg else cfg);
          run argtable cfg io w } })"

section \<open>Properties\<close>

text \<open>The level named \<^verbatim>\<open>err\<close> is not the one for errors: with it, error messages are suppressed.\<close>

theorem config_err_is_crit: "parse_log_level ''err'' = Some LOG_CRIT" "LOG_CRIT < LOG_ERR"
  by (code_simp, simp add: LOG_CRIT_def LOG_ERR_def)

lemma parse_log_level_range: "parse_log_level s = Some l \<Longrightarrow> 0 \<le> l \<and> l \<le> LOG_DEBUG"
  by (auto simp: parse_log_level_def log_level_names_def LOG_EMERG_def LOG_ALERT_def LOG_CRIT_def LOG_WARNING_def
      LOG_NOTICE_def LOG_INFO_def LOG_DEBUG_def split: if_splits)

lemma add_args_Some: "add_args args (Some tab) = Some (tab @ args)"
  unfolding add_args_def by (induction args arbitrary: tab) (simp_all add: osd_tool_add_arg_def)

lemma add_args_None: "args \<noteq> [] \<Longrightarrow> add_args args None = Some args"
  using add_args_Some [of "tl args" "[hd args]"] by (cases args) (simp_all add: add_args_def osd_tool_add_arg_def)

text \<open>The table of arguments is complete and in order, with its end last.\<close>

definition tool_table :: "arg_entry list \<Rightarrow> arg_entry list" where
  "tool_table setup = common_args[2 := with_default DEFAULT_CONFIG_FILE (common_args ! 2)] @ setup @ [arg_end 20]"

lemma argtable_eq:
  "the (add_args [arg_end 20] (add_args setup (add_args common_args None))) = common_args @ setup @ [arg_end 20]"
  "(common_args @ setup @ [arg_end 20])[2 := with_default DEFAULT_CONFIG_FILE ((common_args @ setup @ [arg_end 20]) ! 2)] = tool_table setup"
  by (simp_all add: add_args_Some add_args_None common_args_def tool_table_def numeral_2_eq_2)

text \<open>What a configuration asks for.\<close>

definition configured_level :: "dictionary option \<Rightarrow> int" where
  "configured_level ini =
     (case ini of
        Some d \<Rightarrow> (case dict_map d ''general:log_level'' of
            Some (Some s) \<Rightarrow> (case parse_log_level s of Some l \<Rightarrow> l | None \<Rightarrow> DEFAULT_LOG_LEVEL)
          | _ \<Rightarrow> DEFAULT_LOG_LEVEL)
      | None \<Rightarrow> DEFAULT_LOG_LEVEL)"

definition configured_color :: "int \<Rightarrow> dictionary option \<Rightarrow> int" where
  "configured_color def ini =
     (case ini of
        Some d \<Rightarrow> (case dict_map d ''general:color_output'' of
            Some (Some (c # _)) \<Rightarrow> if c \<in> set ''yY1tT'' then 1 else if c \<in> set ''nN0fF'' then 0 else def
          | _ \<Rightarrow> def)
      | None \<Rightarrow> def)"

lemma configured_level_range: "0 \<le> configured_level ini \<and> configured_level ini \<le> LOG_DEBUG"
  by (auto simp: configured_level_def DEFAULT_LOG_LEVEL_def LOG_ERR_def LOG_DEBUG_def
      dest: parse_log_level_range split: option.splits)

lemma lower_keys:
  "map c_tolower ''general:log_level'' = ''general:log_level''" "map c_tolower ''general:color_output'' = ''general:color_output''"
  by code_simp+

lemma parse_config_content:
  assumes C: "ini_content (fs filename) = Some d" and nn: "dict_map d ''general:color_output'' \<noteq> Some None"
  shows "\<exists>io'. cfg_parse_config_file fs p filename cfg io
    = Some (OSD_OK, \<lparr>log_level = configured_level (Some d), color_output = configured_color (color_output cfg) (Some d)\<rparr>, io')"
proof -
  let ?io = "cli_log cfg LOG_DEBUG p (''Reading configuration from file '' @ filename) io"
  obtain io1 where l: "iniparser_load (cfg_parser_error_cb cfg p) (fs filename) filename ?io = Some (Some d, io1)"
    using load_content [of "cfg_parser_error_cb cfg p" "fs filename" filename ?io] C by auto
  have get: "iniparser_getstring (Some d) (Some ''general:log_level'') v'
      = Some (case dict_map d ''general:log_level'' of None \<Rightarrow> v' | Some v \<Rightarrow> ptr_of v)"
    "iniparser_getstring (Some d) (Some ''general:color_output'') v'
      = Some (case dict_map d ''general:color_output'' of None \<Rightarrow> v' | Some v \<Rightarrow> ptr_of v)" for v'
    using getstring_content [OF content_inv [OF C]] by (simp_all add: lower_keys ASCIILINESZ_def del: list.map)
  have color: "iniparser_getboolean (Some d) (Some ''general:color_output'') c = Some (configured_color c (Some d))" for c
    unfolding iniparser_getboolean_def get configured_color_def using nn by (auto simp: ptr_of_def split: option.splits list.splits)
  show ?thesis
    unfolding cfg_parse_config_file_def
    using l color by (auto simp: get configured_level_def ptr_of_def Let_def split: option.splits)
qed

lemma parse_config_none:
  assumes "ini_content (fs filename) = None"
  shows "\<exists>io'. cfg_parse_config_file fs p filename cfg io = Some (OSD_ERROR_FAILURE, cfg, io')"
proof -
  let ?io = "cli_log cfg LOG_DEBUG p (''Reading configuration from file '' @ filename) io"
  obtain io1 where "iniparser_load (cfg_parser_error_cb cfg p) (fs filename) filename ?io = Some (None, io1)"
    using load_content [of "cfg_parser_error_cb cfg p" "fs filename" filename ?io] assms by auto
  then show ?thesis by (simp add: cfg_parse_config_file_def Let_def)
qed

lemma wf_with_default [simp]: "wf_arg_entry (with_default v e) = wf_arg_entry e" "hdr (with_default v e) = hdr e"
  by (simp_all add: wf_arg_entry_def with_default_def has_flag_def split: arg_data.splits)

lemma wf_common: "list_all wf_arg_entry common_args"
  by (simp add: common_args_def good_names_def alnum_def)

lemma wf_tool_table: "list_all wf_arg_entry setup \<Longrightarrow> wf_table (tool_table setup)"
  using wf_common by (simp add: wf_table_def tool_table_def butlast_append common_args_def)

text \<open>The arguments of an entry fill its table entry.\<close>

lemma table_entry: "i < endt tab \<Longrightarrow> table_of tab (args, errs) ! i = entry_of (tab ! i) (args i)"
  by (simp add: table_of_nth)

lemma tool_table_common:
  "3 < endt (tool_table setup)" "tool_table setup ! 0 = common_args ! 0" "tool_table setup ! 1 = common_args ! 1"
  "tool_table setup ! 2 = with_default DEFAULT_CONFIG_FILE (common_args ! 2)" "tool_table setup ! 3 = common_args ! 3"
  "maxcount (hdr (last (tool_table setup))) = 20" "endt (tool_table setup) = length setup + 4"
  by (simp_all add: tool_table_def common_args_def endt_def nth_append arg_end_def)

definition given :: "string \<Rightarrow> string option list \<Rightarrow> string" where
  "given v as = (case as of Some f # _ \<Rightarrow> f | _ \<Rightarrow> v)"

lemma given_value:
  "arg_value (entry_of (with_default v (arg_filen s l d 0 1 g)) as) = given v as"
  "arg_value (entry_of (with_default v (arg_str0 s l d g)) as) = given v as"
  "arg_value (entry_of (arg_str0 s l d g) as) = given [] as"
  by (auto simp: arg_filen_def arg_str0_def arg_strn_def with_default_def entry_of_def arg_value_def given_def
      split: list.splits option.splits)

lemma config_value: "arg_value (entry_of (tool_table setup ! 2) as) = given DEFAULT_CONFIG_FILE as"
  using given_value(1) by (simp add: tool_table_common common_args_def)

text \<open>What \<^verbatim>\<open>main\<close> does after parsing.\<close>

lemma main_parsed:
  assumes "list_all wf_arg_entry setup" "\<forall>v \<in> set argv. CHR 0x00 \<notin> set v"
    and "parse_spec (posixly_correct env) (tool_table setup) argv = (args, errs)"
  shows "\<exists>gs'. arg_parse (posixly_correct env) argv getopt_init (tool_table setup)
    = Some (min 20 (length errs), gs', table_of (tool_table setup) (args, errs))"
  using arg_parse_exact [OF wf_tool_table [OF assms(1)] assms(2), of "posixly_correct env" getopt_init] assms(3)
  by (simp add: tool_table_common)

lemma parsed_counts:
  "a_count (table_of (tool_table setup) (args, errs) ! 0) = length (args 0)"
  "a_count (table_of (tool_table setup) (args, errs) ! 1) = length (args 1)"
  "a_count (table_of (tool_table setup) (args, errs) ! 3) = length (args 3)"
  "arg_value (table_of (tool_table setup) (args, errs) ! 2) = given DEFAULT_CONFIG_FILE (args 2)"
  using tool_table_common(1) [of "setup"] by (simp_all add: table_entry config_value)

lemma main_runs:
  assumes "list_all wf_arg_entry setup" "\<forall>v \<in> set argv. CHR 0x00 \<notin> set v"
    and "parse_spec (posixly_correct env) (tool_table setup) argv = (args, [])" "args 0 = []" "args 1 = []"
    and "conf = ini_content (files env (given DEFAULT_CONFIG_FILE (args 2)))"
    and "\<And>d. conf = Some d \<Longrightarrow> dict_map d ''general:color_output'' \<noteq> Some None"
  shows "\<exists>io'. cli_main env setup run argv io w
    = run (table_of (tool_table setup) (args, []))
          \<lparr>log_level = min LOG_DEBUG (configured_level conf + int (length (args 3))),
           color_output = configured_color (of_bool (stdout_tty env \<or> stderr_tty env)) conf\<rparr> io' w"
proof -
  let ?fn = "given DEFAULT_CONFIG_FILE (args 2)" and ?n = "int (length (args 3))" and ?tab = "table_of (tool_table setup) (args, [])"
  let ?c = "cfg_update_with_cli_args ?n (cfg_set_runtime_defaults (stdout_tty env) (stderr_tty env) cfg_init)"
  have col: "color_output ?c = of_bool (stdout_tty env \<or> stderr_tty env)"
    by (simp add: cfg_update_with_cli_args_def cfg_set_runtime_defaults_def Let_def)
  have upd: "cfg_update_with_cli_args ?n \<lparr>log_level = l, color_output = x\<rparr>
      = \<lparr>log_level = min LOG_DEBUG (l + ?n), color_output = x\<rparr>" for l x
    by (simp add: cfg_update_with_cli_args_def Let_def)
  obtain gs' where P: "arg_parse (posixly_correct env) argv getopt_init (tool_table setup) = Some (0, gs', ?tab)"
    using main_parsed [OF assms(1-3)] by auto
  have main: "cli_main env setup run argv io w
    = do { (rv, cfg, io) \<leftarrow> cfg_parse_config_file (files env) (progname env) ?fn ?c io;
           run ?tab (if OSD_SUCCEEDED rv then cfg_update_with_cli_args ?n cfg else cfg) io w }"
    unfolding cli_main_def argtable_eq Let_def P bind.bind_lunit prod.case parsed_counts assms(4,5) by simp
  show ?thesis
  proof (cases conf)
    case None
    then have "\<exists>io'. cfg_parse_config_file (files env) (progname env) ?fn ?c io = Some (OSD_ERROR_FAILURE, ?c, io')"
      using parse_config_none [of "files env" ?fn "progname env" ?c io] assms(6) by simp
    moreover have "?c = \<lparr>log_level = min LOG_DEBUG (configured_level conf + ?n),
        color_output = configured_color (of_bool (stdout_tty env \<or> stderr_tty env)) conf\<rparr>"
      using upd None by (simp add: cfg_set_runtime_defaults_def cfg_init_def configured_level_def configured_color_def)
    ultimately show ?thesis using main by (auto simp: OSD_SUCCEEDED_iff)
  next
    case (Some d)
    then obtain io' where "cfg_parse_config_file (files env) (progname env) ?fn ?c io
      = Some (OSD_OK, \<lparr>log_level = configured_level conf, color_output = configured_color (color_output ?c) conf\<rparr>, io')"
      using parse_config_content [of "files env" ?fn d "progname env" ?c io] assms(6,7) by auto
    then show ?thesis using main upd col by (auto simp: OSD_SUCCEEDED_iff)
  qed
qed

text \<open>
  (C19) The effective configuration of every tool: for a command line without errors and without a request for help or the
  version, and whatever the configuration file contains (except a section named \<^verbatim>\<open>general:color_output\<close>, on which the code fails, see
  \<open>getboolean_of_section\<close>), \<^verbatim>\<open>main\<close> runs the tool with the log level of the configuration file the command line names (the default level if
  the file is absent or rejected, or names none or an unknown one) increased by the number of \<^verbatim>\<open>-v\<close> options, at most \<open>LOG_DEBUG\<close>, and with
  the color setting of the file or else the terminals. The tool finds its own arguments in the table.
\<close>

theorem main_configuration:
  assumes "list_all wf_arg_entry setup" "\<forall>v \<in> set argv. CHR 0x00 \<notin> set v"
    and "parse_spec (posixly_correct env) (tool_table setup) argv = (args, [])" "args 0 = []" "args 1 = []"
    and "conf = ini_content (files env (given DEFAULT_CONFIG_FILE (args 2)))"
    and "\<And>d. conf = Some d \<Longrightarrow> dict_map d ''general:color_output'' \<noteq> Some None"
  shows "\<exists>io'. cli_main env setup run argv io w
    = run (table_of (tool_table setup) (args, []))
          \<lparr>log_level = min LOG_DEBUG (configured_level conf + int (length (args 3))),
           color_output = configured_color (of_bool (stdout_tty env \<or> stderr_tty env)) conf\<rparr> io' w"
  using assms by (rule main_runs)

text \<open>The configuration file of the repository, \<^verbatim>\<open>src/tools/share/osd.conf\<close>.\<close>

definition shipped_conf :: string where
  "shipped_conf = ''# Open SoC Debug main configuration file'' @ [NL] @ ''[general]'' @ [NL] @ ''log_level = error'' @ [NL]
     @ ''log_dir = /var/log/osd'' @ [NL, NL]"

lemma shipped_content:
  "\<exists>d. ini_content (Some shipped_conf) = Some d
     \<and> dict_map d = [''general'' \<mapsto> None, ''general:log_level'' \<mapsto> Some ''error'', ''general:log_dir'' \<mapsto> Some ''/var/log/osd'']"
proof -
  note d = plain_line_def wf_section_def wf_key_def wf_value_def trimmed_def lower_def c_tolower_def is_space_def ASCIILINESZ_def
  let ?loop = "\<lambda>st. ini_loop (\<lambda>_ w. w) [] st ()"
  have 0: "ini_at (ini_init shipped_conf) ((CHR ''#'' # '' Open SoC Debug main configuration file'') @ NL # ''['' @ ''general'' @ '']'' @ NL #
      ''log_level'' @ '' '' @ ''= '' @ ''error'' @ NL # ''log_dir'' @ '' '' @ ''= '' @ ''/var/log/osd'' @ NL # NL # []) [] Map.empty"
    using ini_init_ok [of shipped_conf] dictionary_new_empty(2) [of 0] by (simp add: ini_at_def ini_init_def shipped_conf_def)
  have "plain_line (CHR ''#'' # '' Open SoC Debug main configuration file'')" by (simp add: d)
  from load_comment_line [OF 0 this, of "\<lambda>_ w. w" "[]" "()"] obtain s1 where 1: "?loop (ini_init shipped_conf) = ?loop s1"
    "ini_at s1 (''['' @ ''general'' @ '']'' @ NL #
      ''log_level'' @ '' '' @ ''= '' @ ''error'' @ NL # ''log_dir'' @ '' '' @ ''= '' @ ''/var/log/osd'' @ NL # NL # []) [] Map.empty" by blast
  from load_section_line [OF 1(2), of "\<lambda>_ w. w" "[]" "()"] obtain s2 where 2: "?loop s1 = ?loop s2"
    "ini_at s2 (''log_level'' @ '' '' @ ''= '' @ ''error'' @ NL # ''log_dir'' @ '' '' @ ''= '' @ ''/var/log/osd'' @ NL # NL # []) ''general''
       [''general'' \<mapsto> None]" by (auto simp: d)
  from load_value_line [OF 2(2), of "\<lambda>_ w. w" "[]" "()"] obtain s3 where 3: "?loop s2 = ?loop s3"
    "ini_at s3 (''log_dir'' @ '' '' @ ''= '' @ ''/var/log/osd'' @ NL # NL # []) ''general''
       [''general'' \<mapsto> None, ''general'' @ '':'' @ ''log_level'' \<mapsto> Some ''error'']" by (auto simp: d)
  from load_value_line [OF 3(2), of "\<lambda>_ w. w" "[]" "()"] obtain s4 where 4: "?loop s3 = ?loop s4"
    "ini_at s4 (NL # []) ''general''
       [''general'' \<mapsto> None, ''general'' @ '':'' @ ''log_level'' \<mapsto> Some ''error'', ''general'' @ '':'' @ ''log_dir'' \<mapsto> Some ''/var/log/osd'']"
    by (auto simp: d)
  from load_empty_line [OF 4(2), of "\<lambda>_ w. w" "[]" "()"] obtain s5 where 5: "?loop s4 = ?loop s5" "ini_at s5 [] ''general''
       [''general'' \<mapsto> None, ''general'' @ '':'' @ ''log_level'' \<mapsto> Some ''error'', ''general'' @ '':'' @ ''log_dir'' \<mapsto> Some ''/var/log/osd'']"
    by blast
  have "?loop s5 = Some (Some s5, ())"
    using 5(2) by (simp add: ini_loop.simps [of _ _ s5] ini_at_def fgets_def)
  then have "?loop (ini_init shipped_conf) = Some (Some s5, ())" using 1(1) 2(1) 3(1) 4(1) 5(1) by simp
  then show ?thesis using 5(2) by (simp add: ini_content_def iniparser_load_def ini_at_def)
qed

text \<open>It asks for the level \<^verbatim>\<open>error\<close>, which is no name of a level: an error is logged, and the default is used.\<close>

lemma shipped_level_unknown: "parse_log_level ''error'' = None"
  by code_simp

text \<open>A demonstration environment: this configuration file, and \<^verbatim>\<open>-v\<close> on the command line.\<close>

definition demo_env :: cli_env where
  "demo_env = \<lparr>progname = ''demo'', shortdesc = ''Demo'', tool_version = \<lparr>v_major = 0, v_minor = 1, v_micro = 0, v_suffix = []\<rparr>,
     lib_version = \<lparr>v_major = 0, v_minor = 1, v_micro = 0, v_suffix = []\<rparr>, stdout_tty = True, stderr_tty = True,
     posixly_correct = False, files = (\<lambda>f. if f = ''osd.conf'' then Some shipped_conf else None)\<rparr>"

definition demo_argv :: "string list" where
  "demo_argv = [''demo'', ''-vcosd.conf'']"

lemma demo_argv_spec:
  "parse_spec False (tool_table []) demo_argv
    = (\<lambda>i. if i = 2 then [Some ''osd.conf''] else if i = 3 then [None] else [], [])"
proof -
  have "scan False (tab_options (tool_table [])) (tab_longoptions (tool_table [])) ([], [], [], tl demo_argv)
      = ([Ev_short (CHR ''v'') None, Ev_short (CHR ''c'') (Some ''osd.conf'')], [])" by code_simp
  moreover have "short_index (tool_table []) (CHR ''v'') = Some 3" "short_index (tool_table []) (CHR ''c'') = Some 2"
    "untagged (tool_table []) = []" by code_simp+
  moreover have "too_few (tool_table []) (\<lambda>i. if i = 2 then [Some ''osd.conf''] else if i = 3 then [None] else []) = []" by code_simp
  moreover have "(\<lambda>_. [])(3 :: nat := [None], 2 := [Some ''osd.conf''])
      = (\<lambda>i. if i = 2 then [Some ''osd.conf''] else if i = 3 then [None] else [])" by (auto simp: fun_eq_iff)
  ultimately show ?thesis
    by (simp add: parse_spec_def take_arg_def tool_table_common excess_def common_args_def arg_litn_def arg_filen_def Let_def)
qed

theorem main_configuration_witness:
  "\<exists>io' tab. cli_main demo_env [] (\<lambda>tab cfg io w. Some (0, io, w @ [cfg])) demo_argv \<lparr>cli_out = [], cli_err = []\<rparr> []
    = Some (0, io', [\<lparr>log_level = 4, color_output = 1\<rparr>])"
proof -
  let ?args = "\<lambda>i :: nat. if i = 2 then [Some ''osd.conf''] else if i = 3 then [None] else []"
  obtain d where d: "ini_content (Some shipped_conf) = Some d" "dict_map d ''general:log_level'' = Some (Some ''error'')"
    "dict_map d ''general:color_output'' = None"
    using shipped_content by auto
  have c: "configured_level (Some d) = 3" "configured_color 1 (Some d) = 1"
    by (simp_all add: configured_level_def configured_color_def d(2,3) shipped_level_unknown DEFAULT_LOG_LEVEL_def LOG_ERR_def)
  have v: "\<forall>v \<in> set demo_argv. CHR 0x00 \<notin> set v" by (simp add: demo_argv_def)
  have f: "Some d = ini_content (files demo_env (given DEFAULT_CONFIG_FILE (?args 2)))"
    using d(1) by (simp add: demo_env_def given_def)
  show ?thesis
    using main_configuration [of "[]" demo_argv demo_env ?args "Some d" "\<lambda>tab cfg io w. Some (0, io, w @ [cfg])"
        "\<lparr>cli_out = [], cli_err = []\<rparr>" "[]", OF _ v _ _ _ f] demo_argv_spec d(3) c
    by (auto simp: demo_env_def LOG_DEBUG_def)
qed


section \<open>Errors on the command line\<close>

lemma tool_options:
  "tab_options (tool_table setup) = '':c:v'' @ concat (map entry_shortoptions setup)"
  by (simp add: tab_options_def tool_table_def common_args_def butlast_append entry_shortoptions_def arg_litn_def arg_filen_def
      with_default_def has_flag_def ARG_HASVALUE_def ARG_HASOPTVALUE_def numeral_2_eq_2)

lemma short_index_config: "short_index (tool_table setup) (CHR ''c'') = Some 2"
proof -
  have "[0..<endt (tool_table setup)] = 0 # 1 # 2 # [3..<endt (tool_table setup)]"
    using tool_table_common(1) [of "setup"] by (simp add: upt_rec numeral_eq_Suc)
  then show ?thesis
    using tool_table_common(3) [of "setup"]
    by (simp add: short_index_def tool_table_common common_args_def arg_litn_def arg_filen_def)
qed

lemma scan_config_twice:
  "scan posixly (tab_options (tool_table setup)) longs ([], [], [], [''-c'', f, ''-c'', g])
    = ([Ev_short (CHR ''c'') (Some f), Ev_short (CHR ''c'') (Some g)], [])"
  by (simp add: scan.simps tool_options operand_def short_event_def Let_def)

lemma spec_config_twice:
  "\<exists>args. parse_spec posixly (tool_table setup) [p, ''-c'', f, ''-c'', g] = (args, [(EMAXCOUNT, 2, Some g)])
    \<and> args 0 = [] \<and> args 1 = [] \<and> args 2 = [Some f]"
  by (simp add: parse_spec_def scan_config_twice short_index_config take_arg_def add_error_def tool_table_common excess_def
      common_args_def arg_filen_def Let_def)

text \<open>
  (C34) A second configuration file is an error, and reporting it is only safe for short names: the message is put together in a
  buffer of 200 characters that holds the option and the name; from 183 characters on, the terminating null character is written
  behind the buffer.
\<close>

theorem main_excess_option:
  assumes "list_all wf_arg_entry setup" "CHR 0x00 \<notin> set p" "CHR 0x00 \<notin> set f" "CHR 0x00 \<notin> set g"
  shows "cli_main env setup run [p, ''-c'', f, ''-c'', g] io w
    = (if length g < 183
       then Some (1, io\<lparr>cli_out := cli_out io @ progname env @ '': excess option -c|--config-file='' @ g @ [NL]
              @ ''Try '' @ [squote] @ progname env @ '' --help'' @ [squote] @ '' for more information.'' @ [NL]\<rparr>, w)
       else None)"
proof -
  obtain args where S: "parse_spec (posixly_correct env) (tool_table setup) [p, ''-c'', f, ''-c'', g] = (args, [(EMAXCOUNT, 2, Some g)])"
      "args 0 = []" "args 1 = []" "args 2 = [Some f]"
    using spec_config_twice [of "posixly_correct env" "setup" p f g] by blast
  let ?tab = "table_of (tool_table setup) (args, [(EMAXCOUNT, 2, Some g)])"
  have "\<forall>v \<in> set [p, ''-c'', f, ''-c'', g]. CHR 0x00 \<notin> set v" using assms(2-4) by simp
  then obtain gs' where P: "arg_parse (posixly_correct env) [p, ''-c'', f, ''-c'', g] getopt_init (tool_table setup) = Some (1, gs', ?tab)"
    using main_parsed [OF assms(1) _ S(1)] by auto
  have len: "length ?tab - 1 = endt (tool_table setup)" "2 < length ?tab"
    by (simp_all add: table_of_def endt_def tool_table_common tool_table_def common_args_def)
  have e: "?tab ! 2 = entry_of (tool_table setup ! 2) (args 2)" using tool_table_common(1) [of "setup"] by (simp add: table_entry)
  have ot: "option_text (Some ''c'') (Some ''config-file'') (Some g) False ''|'' = ''-c|--config-file='' @ g"
    by (simp add: option_text_def longs_text.simps strcspn_comma_def value_text_def)
  have "arg_errorfn (?tab ! 2) EMAXCOUNT (Some g) (progname env)
      = (if length g < 183 then Some (progname env @ '': excess option -c|--config-file='' @ g @ [NL]) else None)"
    unfolding e
    by (simp add: arg_errorfn_def arg_file_errorfn_def entry_of_def tool_table_common common_args_def arg_filen_def with_default_def
        print_option_text ot EMAXCOUNT_def EMINCOUNT_def)
  moreover have "a_count (?tab ! endt (tool_table setup)) = 1" "end_errors (a_data (?tab ! endt (tool_table setup))) = [(EMAXCOUNT, 2, Some g)]"
    unfolding table_of_end by (simp_all add: end_of_def tool_table_common)
  ultimately have E: "arg_print_errors ?tab (endt (tool_table setup)) (progname env)
      = (if length g < 183 then Some (progname env @ '': excess option -c|--config-file='' @ g @ [NL]) else None)"
    using len(2) by (simp add: arg_print_errors_def)
  show ?thesis
    unfolding cli_main_def argtable_eq Let_def P bind.bind_lunit prod.case parsed_counts S(2,3) len(1) E by simp
qed

theorem main_excess_option_witness:
  "cli_main demo_env [] (\<lambda>tab cfg io w. Some (0, io, w)) [''demo'', ''-c'', ''a'', ''-c'', replicate 183 (CHR ''b'')]
     \<lparr>cli_out = [], cli_err = []\<rparr> () = None"
  by (subst main_excess_option) simp_all

end
