(* ===== verification/Tools.thy ===== *)
theory Tools
  imports Cli_Util Cmdline Hostctrl Gateway_Glip
begin

text \<open>
  The programs that run one component until they are interrupted: the host controller
  (\<^verbatim>\<open>osd-host-controller.c\<close>) and the device gateway (\<^verbatim>\<open>osd-device-gateway.c\<close>). \<open>tool_os\<close> holds the library calls of the
  programs themselves: \<open>tool_io\<close> is the access to the output streams, \<open>zsys_interrupted\<close> tells whether a signal
  has arrived, \<open>tool_pause\<close> waits for one. What a program does is stated as the sequence of events of a run, for every environment
  that answers the requests of its parts.
\<close>

section \<open>Definitions\<close>

record 'w tool_os =
  tool_io :: "(cli_io \<Rightarrow> cli_io) \<Rightarrow> 'w \<Rightarrow> 'w"
  tool_get_io :: "'w \<Rightarrow> cli_io"
  zsys_init :: "'w \<Rightarrow> 'w"
  zsys_interrupted :: "'w \<Rightarrow> bool"
  tool_pause :: "'w \<Rightarrow> 'w"
  glip_parse_option_string :: "string \<Rightarrow> 'w \<Rightarrow> int \<times> 'w"

partial_function (option) wait_for_signal :: "'w tool_os \<Rightarrow> 'w \<Rightarrow> 'w option" where
  "wait_for_signal os w = (if zsys_interrupted os w then Some w else wait_for_signal os (tool_pause os w))"

text \<open>The macros that log a message of a tool.\<close>

definition tool_log :: "'w tool_os \<Rightarrow> config \<Rightarrow> string \<Rightarrow> int \<Rightarrow> string \<Rightarrow> 'w \<Rightarrow> 'w" where
  "tool_log os cfg tool priority msg w = tool_io os (cli_log cfg priority tool msg) w"

text \<open>The logging context of the library, with the log handler of the tools.\<close>

definition tool_log_ctx :: "'w tool_os \<Rightarrow> config \<Rightarrow> (unit, 'w) osd_log_ctx" where
  "tool_log_ctx os cfg = osd_log_new (log_level cfg) (Some (\<lambda>p m. tool_io os (osd_log_handler cfg p m)))"

text \<open>\<^verbatim>\<open>main\<close> with the \<^verbatim>\<open>run\<close> of a tool, whose world holds the output streams.\<close>

definition tool_main ::
  "'w tool_os \<Rightarrow> cli_env \<Rightarrow> arg_entry list \<Rightarrow> (arg_entry list \<Rightarrow> config \<Rightarrow> 'w \<Rightarrow> (int \<times> 'w) option) \<Rightarrow> string list \<Rightarrow> 'w
    \<Rightarrow> (int \<times> cli_io \<times> 'w) option" where
  "tool_main os env setup run argv w =
     cli_main env setup (\<lambda>table cfg io w. do { (code, w) \<leftarrow> run table cfg (tool_io os (\<lambda>_. io) w); Some (code, tool_get_io os w, w) })
       argv (tool_get_io os w) w"

subsection \<open>The host controller\<close>

definition hc_progname :: string where "hc_progname = ''osd-host-controller''"

definition hc_setup :: "arg_entry list" where
  "hc_setup =
     [with_default DEFAULT_HOSTCTRL_BIND_EP
        (arg_str0 (Some ''b'') (Some ''bind-address'') (Some ''<URL>'')
           (Some (''ZeroMQ endpoint address to bind to (default: '' @ DEFAULT_HOSTCTRL_BIND_EP @ '')'')))]"

text \<open>
  If the controller cannot be created, its pointer stays uninitialised and is freed nevertheless. \<open>hc_free_return\<close> is
  the code after the label \<^verbatim>\<open>free_return\<close>.
\<close>

definition hc_free_return :: "'w zmq \<Rightarrow> osd_hostctrl_ctx \<Rightarrow> int \<Rightarrow> 'w \<Rightarrow> (int \<times> 'w) option" where
  "hc_free_return z hostctrl_ctx exitcode w =
     do { (_, w) \<leftarrow> osd_hostctrl_free z (Some hostctrl_ctx) w; Some (exitcode, w) }"

definition hc_run ::
  "'w tool_os \<Rightarrow> 'w zmq \<Rightarrow> int \<Rightarrow> string \<Rightarrow> config \<Rightarrow> 'w \<Rightarrow> (int \<times> 'w) option" where
  "hc_run os z uninit a_bind_ep cfg w =
     do { let w = zsys_init os w;
          let osd_log_ctx = tool_log_ctx os cfg;
          (r, w) \<leftarrow> osd_hostctrl_new z uninit a_bind_ep w;
          (case r of
             Inl rv \<Rightarrow> None
           | Inr (hostctrl_ctx, _) \<Rightarrow>
               do { (rv, hostctrl_ctx, w) \<leftarrow> osd_hostctrl_start z hostctrl_ctx w;
                    if OSD_FAILED rv then
                      hc_free_return z hostctrl_ctx 1
                        (tool_log os cfg hc_progname LOG_CRIT (''Unable to start host controller ('' @ fmt_d rv @ '')'') w)
                    else do {
                      let w = tool_log os cfg hc_progname LOG_INFO
                        (''Host controller up and running, listening at '' @ a_bind_ep @ '' for connections'') w;
                      w \<leftarrow> wait_for_signal os w;
                      let w = tool_log os cfg hc_progname LOG_INFO ''Shutdown signal received, cleaning up.'' w;
                      (rv, hostctrl_ctx, w) \<leftarrow> osd_hostctrl_stop z hostctrl_ctx w;
                      if OSD_FAILED rv then
                        hc_free_return z hostctrl_ctx 1
                          (tool_log os cfg hc_progname LOG_CRIT (''Unable to stop host controller ('' @ fmt_d rv @ '')'') w)
                      else hc_free_return z hostctrl_ctx 0 w } }) }"

definition hc_main :: "'w tool_os \<Rightarrow> 'w zmq \<Rightarrow> int \<Rightarrow> cli_env \<Rightarrow> string list \<Rightarrow> 'w \<Rightarrow> (int \<times> cli_io \<times> 'w) option" where
  "hc_main os z uninit env argv w = tool_main os env hc_setup (\<lambda>table. hc_run os z uninit (arg_value (table ! 4))) argv w"

subsection \<open>The device gateway\<close>

definition dg_progname :: string where "dg_progname = ''osd-device-gateway''"

definition GLIP_DEFAULT_BACKEND :: string where "GLIP_DEFAULT_BACKEND = ''tcp''"
definition DEVICE_SUBNET_ADDRESS :: nat where "DEVICE_SUBNET_ADDRESS = 0"

definition glip_args :: "arg_entry list" where
  "glip_args =
     [with_default GLIP_DEFAULT_BACKEND (arg_str0 (Some ''b'') (Some ''glip-backend'') (Some ''<name>'') (Some ''GLIP backend name'')),
      arg_str0 (Some ''o'') (Some ''glip-backend-options'') (Some ''<option1=value1,option2=value2,...>'') (Some ''GLIP backend options'')]"

definition dg_setup :: "arg_entry list" where
  "dg_setup =
     with_default DEFAULT_HOSTCTRL_EP
       (arg_str0 (Some ''e'') (Some ''hostctrl'') (Some ''<URL>'')
          (Some (''ZeroMQ endpoint of the host controller (default: '' @ DEFAULT_HOSTCTRL_EP @ '')'')))
     # glip_args"

record dg_args =
  a_hostctrl_ep :: string
  a_glip_backend :: string
  a_glip_backend_options :: string

text \<open>
  The pointer to the gateway is not initialised while the options are parsed, and neither when the gateway cannot be
  created; it is freed nevertheless.
\<close>

definition dg_free_return :: "'w zmq \<Rightarrow> 'w glip \<Rightarrow> osd_gateway_glip_ctx \<Rightarrow> int \<Rightarrow> 'w \<Rightarrow> (int \<times> 'w) option" where
  "dg_free_return z g gateway_glip_ctx exitcode w =
     do { (_, w) \<leftarrow> osd_gateway_glip_free z g (Some gateway_glip_ctx) w; Some (exitcode, w) }"

definition dg_run ::
  "'w tool_os \<Rightarrow> 'w zmq \<Rightarrow> 'w rx_os \<Rightarrow> 'w glip \<Rightarrow> int \<Rightarrow> dg_args \<Rightarrow> config \<Rightarrow> 'w \<Rightarrow> (int \<times> 'w) option" where
  "dg_run os z rx g uninit a cfg w =
     do { let w = zsys_init os w;
          let osd_log_ctx = tool_log_ctx os cfg;
          let (rv, w) = glip_parse_option_string os (a_glip_backend_options a) w;
          if rv \<noteq> 0 then None
          else do {
            (r, w) \<leftarrow> osd_gateway_glip_new z g uninit osd_log_ctx
              (a_hostctrl_ep a) (of_nat DEVICE_SUBNET_ADDRESS) (a_glip_backend a) w;
            (case r of
               Inl rv \<Rightarrow> None
             | Inr (gateway_glip_ctx, _) \<Rightarrow>
                 do { (rv, gateway_glip_ctx, w) \<leftarrow> osd_gateway_glip_connect z rx g gateway_glip_ctx w;
                      if OSD_FAILED rv then
                        dg_free_return z g gateway_glip_ctx 1
                          (tool_log os cfg dg_progname LOG_CRIT ''Unable to connect to host controller and to device.'' w)
                      else do {
                        w \<leftarrow> wait_for_signal os w;
                        let w = tool_log os cfg dg_progname LOG_INFO ''Shutdown signal received, cleaning up.'' w;
                        (rv, gateway_glip_ctx, w) \<leftarrow> osd_gateway_glip_disconnect z rx g gateway_glip_ctx w;
                        let w = (if OSD_FAILED rv
                          then tool_log os cfg dg_progname LOG_ERR (''Unable to cleanly shut down gateway. ('' @ fmt_d rv @ '')'') w
                          else w);
                        dg_free_return z g gateway_glip_ctx 0 w } }) } }"

definition dg_args_of :: "arg_entry list \<Rightarrow> dg_args" where
  "dg_args_of table = \<lparr>a_hostctrl_ep = arg_value (table ! 4), a_glip_backend = arg_value (table ! 5),
     a_glip_backend_options = arg_value (table ! 6)\<rparr>"

definition dg_main ::
  "'w tool_os \<Rightarrow> 'w zmq \<Rightarrow> 'w rx_os \<Rightarrow> 'w glip \<Rightarrow> int \<Rightarrow> cli_env \<Rightarrow> string list \<Rightarrow> 'w \<Rightarrow> (int \<times> cli_io \<times> 'w) option" where
  "dg_main os z rx g uninit env argv w = tool_main os env dg_setup (\<lambda>table. dg_run os z rx g uninit (dg_args_of table)) argv w"

section \<open>A working environment\<close>

text \<open>
  What the programs do is observed as a sequence of events: the threads and connections they start and end, the
  requests their threads have carried out, the accesses to the output streams, and the times they pause. An environment is
  described by a predicate \<open>P\<close> on the events so far and the world: \<open>P h w\<close> says that nothing is under way in \<open>w\<close>, and that
  \<open>h\<close> has happened before.
\<close>

datatype event =
    Thread_started | Request string | Thread_joined
  | Io "cli_io \<Rightarrow> cli_io" | Paused
  | Glip_created string | Glip_opened | Glip_closed | Glip_freed
  | Rx_started | Rx_joined

definition one_answer :: "'w zmq \<Rightarrow> ('w \<Rightarrow> zmsg list) \<Rightarrow> ('w \<Rightarrow> bool) \<Rightarrow> string \<Rightarrow> 'w \<Rightarrow> bool" where
  "one_answer z q P name w \<longleftrightarrow>
     (\<exists>v. 0 \<le> v \<and> v < 2 ^ 31 \<and> q w = [[str_bytes name, int_bytes v]]) \<and> P (snd (zmsg_recv z Inproc_main w))"

text \<open>
  \<open>worker_laws\<close>: the sockets and the worker thread of a component. The main thread gets its
  socket, the thread reports its initialisation, and every request is answered by one message with a status that
  is not negative. \<open>worker_env\<close> is the same without a record of the events: the world is idle again after every call.
\<close>

definition worker_laws :: "'w zmq \<Rightarrow> ('w \<Rightarrow> zmsg list) \<Rightarrow> (event list \<Rightarrow> 'w \<Rightarrow> bool) \<Rightarrow> bool" where
  "worker_laws z q P \<longleftrightarrow> fifo_recv z Inproc_main q
     \<and> (\<forall>h w. P h w \<longrightarrow> (\<forall>req \<in> {''I-START'', ''I-STOP'', ''I-CONNECT'', ''I-DISCONNECT'', ''I-SHUTDOWN''}.
          fst (zmsg_send z Inproc_main [str_bytes req, int_bytes 0] w) = 0
        \<and> one_answer z q (P (h @ [Request req])) (req @ ''-DONE'') (snd (zmsg_send z Inproc_main [str_bytes req, int_bytes 0] w))))
     \<and> (\<forall>h w. P h w \<longrightarrow> length (fst (zuuid_str z w)) = 32 \<and> P h (snd (zuuid_str z w))
          \<and> fst (zsock_new z Inproc_main '''' w) \<and> P h (snd (zsock_new z Inproc_main '''' w)) \<and> thread_is_running z w
          \<and> P (h @ [Thread_joined]) (pthread_join z w) \<and> P h (zsock_destroy z Inproc_main w)
          \<and> fst (pthread_create z w) = 0 \<and> one_answer z q (P (h @ [Thread_started])) ''I-THREADINIT-DONE'' (snd (pthread_create z w)))
     \<and> (\<forall>h w addr. P h w \<longrightarrow> fst (zsock_bind z Inproc_main addr w) \<noteq> -1 \<and> P h (snd (zsock_bind z Inproc_main addr w)))"

definition worker_env :: "'w zmq \<Rightarrow> ('w \<Rightarrow> zmsg list) \<Rightarrow> ('w \<Rightarrow> bool) \<Rightarrow> bool" where
  "worker_env z q P \<longleftrightarrow> fifo_recv z Inproc_main q
     \<and> (\<forall>w. P w \<longrightarrow> (\<forall>req \<in> {''I-START'', ''I-STOP'', ''I-CONNECT'', ''I-DISCONNECT'', ''I-SHUTDOWN''}.
          fst (zmsg_send z Inproc_main [str_bytes req, int_bytes 0] w) = 0
        \<and> one_answer z q P (req @ ''-DONE'') (snd (zmsg_send z Inproc_main [str_bytes req, int_bytes 0] w))))
     \<and> (\<forall>w. P w \<longrightarrow> length (fst (zuuid_str z w)) = 32 \<and> P (snd (zuuid_str z w))
          \<and> fst (zsock_new z Inproc_main '''' w) \<and> P (snd (zsock_new z Inproc_main '''' w)) \<and> thread_is_running z w
          \<and> P (pthread_join z w) \<and> P (zsock_destroy z Inproc_main w)
          \<and> fst (pthread_create z w) = 0 \<and> one_answer z q P ''I-THREADINIT-DONE'' (snd (pthread_create z w)))
     \<and> (\<forall>w addr. P w \<longrightarrow> fst (zsock_bind z Inproc_main addr w) \<noteq> -1 \<and> P (snd (zsock_bind z Inproc_main addr w)))"

lemma worker_env_laws: "worker_env z q P \<Longrightarrow> worker_laws z q (\<lambda>_. P)"
  by (simp add: worker_env_def worker_laws_def)

text \<open>
  \<open>tool_laws\<close>: the output streams and signals. \<open>sig h\<close> says whether somebody has interrupted the program when \<open>h\<close> has
  happened, and whoever pauses long enough is interrupted. \<open>signal_after sig h n\<close>: a program that has done \<open>h\<close> pauses \<open>n\<close> times
  until it is interrupted.
\<close>

definition tool_laws :: "'w tool_os \<Rightarrow> (event list \<Rightarrow> bool) \<Rightarrow> (event list \<Rightarrow> 'w \<Rightarrow> bool) \<Rightarrow> bool" where
  "tool_laws os sig P \<longleftrightarrow>
     (\<forall>h w. P h w \<longrightarrow> P h (zsys_init os w) \<and> (zsys_interrupted os w \<longleftrightarrow> sig h) \<and> P (h @ [Paused]) (tool_pause os w)
        \<and> (\<forall>f. P (h @ [Io f]) (tool_io os f w)))
     \<and> (\<forall>h. \<exists>n. sig (h @ replicate n Paused))"

definition signal_after :: "(event list \<Rightarrow> bool) \<Rightarrow> event list \<Rightarrow> nat \<Rightarrow> bool" where
  "signal_after sig h n \<longleftrightarrow> sig (h @ replicate n Paused) \<and> (\<forall>k < n. \<not> sig (h @ replicate k Paused))"

definition tool_env :: "'w tool_os \<Rightarrow> ('w \<Rightarrow> bool) \<Rightarrow> bool" where
  "tool_env os P \<longleftrightarrow>
     (\<forall>w. P w \<longrightarrow> P (zsys_init os w) \<and> P (tool_pause os w) \<and> (\<forall>f. P (tool_io os f w))
        \<and> (\<exists>n. zsys_interrupted os ((tool_pause os ^^ n) w)))"

lemma wait_answer:
  assumes "fifo_recv z Inproc_main q" "one_answer z q P name w" "take 2 name = ''I-''" "CHR 0x00 \<notin> set name"
  shows "\<exists>v w'. worker_wait_for_status z Inproc_main name w = Some (Inr v, w') \<and> 0 \<le> v \<and> P w'"
proof -
  obtain v where v: "0 \<le> v" "v < 2 ^ 31" "q w = [[str_bytes name, int_bytes v]]" and P: "P (snd (zmsg_recv z Inproc_main w))"
    using assms(2) by (auto simp: one_answer_def)
  obtain w' where w': "zmsg_recv z Inproc_main w = (Received [str_bytes name, int_bytes v], w')" "q w' = []"
    using fifo_recv_Cons [OF assms(1), of w] v(3) by blast
  have "\<forall>c \<in> set name. c \<noteq> CHR 0x00" using assms(4) by auto
  then have "worker_wait_for_status z Inproc_main name w = Some (Inr v, w')"
    using w'(1) v(1,2) assms(3)
    by (simp add: worker_wait_for_status_def wait_loop.simps [of z Inproc_main name w] frame_str_bytes bytes_int_int_bytes)
  then show ?thesis using v(1) P w'(1) by auto
qed

lemma request_answered_laws:
  assumes "worker_laws z q P" "P h w" "req \<in> {''I-START'', ''I-STOP'', ''I-CONNECT'', ''I-DISCONNECT'', ''I-SHUTDOWN''}"
  shows "\<exists>w1 v w2. worker_send_status z Inproc_main req 0 w = Some w1
     \<and> worker_wait_for_status z Inproc_main (req @ ''-DONE'') w1 = Some (Inr v, w2) \<and> 0 \<le> v \<and> P (h @ [Request req]) w2"
proof -
  let ?s = "zmsg_send z Inproc_main [str_bytes req, int_bytes 0] w"
  have f: "fifo_recv z Inproc_main q" using assms(1) by (simp add: worker_laws_def)
  have s: "fst ?s = 0" "one_answer z q (P (h @ [Request req])) (req @ ''-DONE'') (snd ?s)"
    using assms(1) [unfolded worker_laws_def, THEN conjunct2, THEN conjunct1, rule_format, OF assms(2,3)] by simp_all
  have n: "take 2 (req @ ''-DONE'') = ''I-''" "CHR 0x00 \<notin> set (req @ ''-DONE'')" using assms(3) by auto
  have "worker_send_status z Inproc_main req 0 w = Some (snd ?s)"
    using s(1) by (cases ?s) (simp add: worker_send_status_def worker_send_data_def)
  then show ?thesis using wait_answer [OF f s(2) n] by blast
qed

lemma worker_new_laws:
  assumes "worker_laws z q P" "P h w"
  shows "\<exists>w'. worker_new z uninit w = Some (OSD_OK, True, w') \<and> P (h @ [Thread_started]) w'"
proof -
  have f: "fifo_recv z Inproc_main q" using assms(1) by (simp add: worker_laws_def)
  note L = assms(1) [unfolded worker_laws_def, THEN conjunct2, THEN conjunct2, THEN conjunct1, rule_format]
  note B = assms(1) [unfolded worker_laws_def, THEN conjunct2, THEN conjunct2, THEN conjunct2, rule_format]
  obtain name w1 where 1: "zuuid_str z w = (name, w1)" "length name = 32" "P h w1"
    using L [OF assms(2)] by (metis prod.collapse)
  obtain w2 where 2: "zsock_new z Inproc_main '''' w1 = (True, w2)" "P h w2"
    using L [OF 1(3)] by (metis (full_types) prod.collapse)
  obtain b w3 where 3: "zsock_bind z Inproc_main (''inproc://'' @ name) w2 = (b, w3)" "b \<noteq> -1" "P h w3"
    using B [OF 2(2)] by (metis prod.collapse)
  obtain w4 where 4: "pthread_create z w3 = (0, w4)" "one_answer z q (P (h @ [Thread_started])) ''I-THREADINIT-DONE'' w4"
    using L [OF 3(3)] by (metis prod.collapse)
  obtain v w5 where "worker_wait_for_status z Inproc_main ''I-THREADINIT-DONE'' w4 = Some (Inr v, w5)" "0 \<le> v"
      "P (h @ [Thread_started]) w5"
    using wait_answer [OF f 4(2)] by auto
  then show ?thesis
    using 1 2 3 4 by (simp add: worker_new_def generate_unique_inproc_name_def osd_codes)
qed

lemma worker_free_laws:
  assumes "worker_laws z q P" "P h w"
  shows "\<exists>w'. worker_free z True w = Some w' \<and> P (h @ [Request ''I-SHUTDOWN'', Thread_joined]) w'"
proof -
  note L = assms(1) [unfolded worker_laws_def, THEN conjunct2, THEN conjunct2, THEN conjunct1, rule_format]
  obtain w1 v w2 where 1: "worker_send_status z Inproc_main ''I-SHUTDOWN'' 0 w = Some w1"
     "worker_wait_for_status z Inproc_main ''I-SHUTDOWN-DONE'' w1 = Some (Inr v, w2)" "P (h @ [Request ''I-SHUTDOWN'']) w2"
    using request_answered_laws [OF assms(1), OF assms(2), of "''I-SHUTDOWN''"] by auto
  have "P (h @ [Request ''I-SHUTDOWN'', Thread_joined]) (pthread_join z w2)" using L [OF 1(3)] by simp
  then have "P (h @ [Request ''I-SHUTDOWN'', Thread_joined]) (zsock_destroy z Inproc_main (pthread_join z w2))"
    using L by blast
  moreover have "thread_is_running z w" using L [OF assms(2)] by simp
  ultimately show ?thesis using 1 by (simp add: worker_free_def)
qed

lemma wait_for_signal_laws:
  assumes "tool_laws os sig P" "P h w"
  shows "\<exists>n w'. wait_for_signal os w = Some w' \<and> signal_after sig h n \<and> P (h @ replicate n Paused) w'"
proof -
  obtain m where "sig (h @ replicate m Paused)"
    using assms(1) [unfolded tool_laws_def, THEN conjunct2, rule_format, of h] by blast
  then obtain n where n: "signal_after sig h n"
    using LeastI [of "\<lambda>n. sig (h @ replicate n Paused)"] not_less_Least [of _ "\<lambda>n. sig (h @ replicate n Paused)"]
    unfolding signal_after_def by blast
  then have "\<exists>w'. wait_for_signal os w = Some w' \<and> P (h @ replicate n Paused) w'" using assms(2)
  proof (induction n arbitrary: h w)
    case 0
    then have "zsys_interrupted os w" using assms(1) by (auto simp: tool_laws_def signal_after_def)
    then show ?case using 0 by (simp add: wait_for_signal.simps [of os w])
  next
    case (Suc n)
    have "\<not> sig h" using Suc.prems(1) by (force simp: signal_after_def)
    then have "\<not> zsys_interrupted os w" "P (h @ [Paused]) (tool_pause os w)"
      using assms(1) Suc.prems(2) by (auto simp: tool_laws_def)
    moreover have "signal_after sig (h @ [Paused]) n"
      using Suc.prems(1) by (force simp: signal_after_def dest: spec [where x = "Suc k" for k])
    ultimately show ?case using Suc.IH [of "h @ [Paused]" "tool_pause os w"] by (simp add: wait_for_signal.simps [of os w])
  qed
  then show ?thesis using n by blast
qed

lemma tool_log_laws:
  "tool_laws os sig P \<Longrightarrow> P h w \<Longrightarrow> P (h @ [Io (cli_log cfg prio tool msg)]) (tool_log os cfg tool prio msg w)"
  by (simp add: tool_laws_def tool_log_def)

text \<open>The same without the events.\<close>

lemma request_answered:
  assumes "worker_env z q P" "P w" "req \<in> {''I-START'', ''I-STOP'', ''I-CONNECT'', ''I-DISCONNECT'', ''I-SHUTDOWN''}"
  shows "\<exists>w1 v w2. worker_send_status z Inproc_main req 0 w = Some w1
     \<and> worker_wait_for_status z Inproc_main (req @ ''-DONE'') w1 = Some (Inr v, w2) \<and> 0 \<le> v \<and> P w2"
  using request_answered_laws [OF worker_env_laws [OF assms(1)], OF assms(2,3)] .

lemma worker_new_env:
  assumes "worker_env z q P" "P w"
  shows "\<exists>w'. worker_new z uninit w = Some (OSD_OK, True, w') \<and> P w'"
  using worker_new_laws [OF worker_env_laws [OF assms(1)], OF assms(2)] .

lemma worker_free_env:
  assumes "worker_env z q P" "P w"
  shows "\<exists>w'. worker_free z b w = Some w' \<and> P w'"
  using worker_free_laws [OF worker_env_laws [OF assms(1)], OF assms(2)] assms(2) by (cases b) (simp_all add: worker_free_def)

lemma wait_for_signal_returns:
  assumes "tool_env os P" "P w"
  shows "\<exists>w'. wait_for_signal os w = Some w' \<and> P w'"
proof -
  obtain n where "zsys_interrupted os ((tool_pause os ^^ n) w)" using assms by (auto simp: tool_env_def)
  then show ?thesis using assms(2)
  proof (induction n arbitrary: w)
    case 0
    then show ?case by (simp add: wait_for_signal.simps [of os w])
  next
    case (Suc n)
    then have "\<exists>w'. wait_for_signal os (tool_pause os w) = Some w' \<and> P w'"
      using assms(1) by (simp add: tool_env_def funpow_swap1)
    then show ?case using Suc.prems(2) by (simp add: wait_for_signal.simps [of os w])
  qed
qed

lemma tool_log_env: "tool_env os P \<Longrightarrow> P w \<Longrightarrow> P (tool_log os cfg tool prio msg w)"
  by (simp add: tool_env_def tool_log_def)

section \<open>The host controller\<close>

lemma hostctrl_start_laws:
  assumes "worker_laws z q P" "P h w"
  shows "\<exists>c0 w1 c w2. osd_hostctrl_new z uninit ep w = Some (Inr (c0, hc_usr_init ep), w1)
     \<and> osd_hostctrl_start z c0 w1 = Some (OSD_OK, c, w2) \<and> P (h @ [Thread_started, Request ''I-START'']) w2
     \<and> hc_is_running c \<and> hc_ioworker_ctx c"
proof -
  let ?c = "\<lparr>hc_ioworker_ctx = True, hc_is_running = False\<rparr>"
  obtain w1 where 1: "osd_hostctrl_new z uninit ep w = Some (Inr (?c, hc_usr_init ep), w1)" "P (h @ [Thread_started]) w1"
    using worker_new_laws [OF assms(1), OF assms(2), of uninit] by (auto simp: osd_hostctrl_new_def)
  obtain w2 where "osd_hostctrl_start z ?c w1 = Some (OSD_OK, ?c\<lparr>hc_is_running := True\<rparr>, w2)"
      "P (h @ [Thread_started, Request ''I-START'']) w2"
    using request_answered_laws [OF assms(1), OF 1(2), of "''I-START''"] by (auto simp: osd_hostctrl_start_def)
  then show ?thesis using 1(1) by force
qed

lemma hostctrl_start_env:
  assumes "worker_env z q P" "P w"
  shows "\<exists>c0 w1 c w2. osd_hostctrl_new z uninit ep w = Some (Inr (c0, hc_usr_init ep), w1)
     \<and> osd_hostctrl_start z c0 w1 = Some (OSD_OK, c, w2) \<and> P w2 \<and> hc_is_running c \<and> hc_ioworker_ctx c"
  using hostctrl_start_laws [OF worker_env_laws [OF assms(1)], OF assms(2)] .

lemma hostctrl_stop_laws:
  assumes "worker_laws z q P" "P h w" "hc_is_running c" "hc_ioworker_ctx c"
  shows "\<exists>c' w1 w2. osd_hostctrl_stop z c w = Some (OSD_OK, c', w1) \<and> P (h @ [Request ''I-STOP'']) w1
     \<and> osd_hostctrl_free z (Some c') w1 = Some (None, w2) \<and> P (h @ [Request ''I-STOP'', Request ''I-SHUTDOWN'', Thread_joined]) w2"
proof -
  let ?c = "c\<lparr>hc_is_running := False\<rparr>"
  obtain w3 v w1 where r: "worker_send_status z Inproc_main ''I-STOP'' 0 w = Some w3"
    "worker_wait_for_status z Inproc_main ''I-STOP-DONE'' w3 = Some (Inr v, w1)" "0 \<le> v" "P (h @ [Request ''I-STOP'']) w1"
    using request_answered_laws [OF assms(1), OF assms(2), of "''I-STOP''"] by auto
  have 1: "osd_hostctrl_stop z c w = Some (OSD_OK, ?c, w1)" "P (h @ [Request ''I-STOP'']) w1"
    using r assms(3,4) by (simp_all add: osd_hostctrl_stop_def osd_codes)
  obtain w2 where 2: "worker_free z True w1 = Some w2" "P (h @ [Request ''I-STOP'', Request ''I-SHUTDOWN'', Thread_joined]) w2"
    using worker_free_laws [OF assms(1), OF 1(2)] unfolding append_assoc append.simps by (elim exE conjE)
  have "osd_hostctrl_free z (Some ?c) w1 = Some (None, w2)" using 2(1) assms(4) by (simp add: osd_hostctrl_free_def)
  then show ?thesis using 1 2(2) by blast
qed

lemma hostctrl_stop_env:
  assumes "worker_env z q P" "P w" "hc_is_running c" "hc_ioworker_ctx c"
  shows "\<exists>c' w1 w2. osd_hostctrl_stop z c w = Some (OSD_OK, c', w1) \<and> P w1
     \<and> osd_hostctrl_free z (Some c') w1 = Some (None, w2) \<and> P w2"
  using hostctrl_stop_laws [OF worker_env_laws [OF assms(1)], OF assms(2-4)] .

text \<open>
  The events of a run of the host controller, before and after it waits for the signal. Its thread, whose context has
  the endpoint, opens the router socket there when it is asked to start.
\<close>

definition hc_started :: "string \<Rightarrow> config \<Rightarrow> event list" where
  "hc_started ep cfg = [Thread_started, Request ''I-START'',
     Io (cli_log cfg LOG_INFO hc_progname (''Host controller up and running, listening at '' @ ep @ '' for connections''))]"

definition hc_stopped :: "config \<Rightarrow> event list" where
  "hc_stopped cfg = [Io (cli_log cfg LOG_INFO hc_progname ''Shutdown signal received, cleaning up.''),
     Request ''I-STOP'', Request ''I-SHUTDOWN'', Thread_joined]"

lemma hc_thread_listens:
  assumes "iothread_handle_inproc_msg z ''I-START'' msg (hc_usr_init ep) w = Some (r, u, w')"
  shows "router_socket u \<longleftrightarrow> fst (zsock_new z Router_socket ep w)"
proof -
  obtain ok w1 where 1: "zsock_new z Router_socket ep w = (ok, w1)" by (rule prod.exhaust)
  show ?thesis
    using assms 1
    by (cases ok; cases "zloop_reader z Router_socket w1")
      (auto simp: iothread_handle_inproc_msg_def iothread_router_start_def hc_usr_init_def c_assert_def bind_eq_Some_conv split: if_splits)
qed

lemma host_controller_runs:
  assumes W: "worker_laws z q P" and T: "tool_laws os sig P" and P: "P h w"
  shows "\<exists>n w'. hc_run os z uninit ep cfg w = Some (0, w') \<and> signal_after sig (h @ hc_started ep cfg) n
     \<and> P (h @ hc_started ep cfg @ replicate n Paused @ hc_stopped cfg) w'"
proof -
  have "P h (zsys_init os w)" using T P by (simp add: tool_laws_def)
  from hostctrl_start_laws [OF W, OF this, of uninit ep] obtain c0 w1 c w2 where
    1: "osd_hostctrl_new z uninit ep (zsys_init os w) = Some (Inr (c0, hc_usr_init ep), w1)"
      "osd_hostctrl_start z c0 w1 = Some (OSD_OK, c, w2)" "P (h @ [Thread_started, Request ''I-START'']) w2"
      "hc_is_running c" "hc_ioworker_ctx c"
    by (elim exE conjE)
  let ?w2 = "tool_log os cfg hc_progname LOG_INFO
        (''Host controller up and running, listening at '' @ ep @ '' for connections'') w2"
  have "P ((h @ [Thread_started, Request ''I-START'']) @ [Io (cli_log cfg LOG_INFO hc_progname
        (''Host controller up and running, listening at '' @ ep @ '' for connections''))]) ?w2"
    by (rule tool_log_laws [OF T, OF 1(3)])
  then have "P (h @ hc_started ep cfg) ?w2" by (simp only: hc_started_def append_assoc append.simps)
  then obtain n w3 where 3: "wait_for_signal os ?w2 = Some w3" "signal_after sig (h @ hc_started ep cfg) n"
      "P ((h @ hc_started ep cfg) @ replicate n Paused) w3"
    using wait_for_signal_laws [OF T] by blast
  let ?w3 = "tool_log os cfg hc_progname LOG_INFO ''Shutdown signal received, cleaning up.'' w3"
  have "P (((h @ hc_started ep cfg) @ replicate n Paused)
      @ [Io (cli_log cfg LOG_INFO hc_progname ''Shutdown signal received, cleaning up.'')]) ?w3"
    by (rule tool_log_laws [OF T, OF 3(3)])
  from hostctrl_stop_laws [OF W, OF this 1(4,5)] obtain c' w4 w5 where
    4: "osd_hostctrl_stop z c ?w3 = Some (OSD_OK, c', w4)" "osd_hostctrl_free z (Some c') w4 = Some (None, w5)"
      "P ((((h @ hc_started ep cfg) @ replicate n Paused)
        @ [Io (cli_log cfg LOG_INFO hc_progname ''Shutdown signal received, cleaning up.'')])
        @ [Request ''I-STOP'', Request ''I-SHUTDOWN'', Thread_joined]) w5"
    by (elim exE conjE)
  have "P (h @ hc_started ep cfg @ replicate n Paused @ hc_stopped cfg) w5"
    using 4(3) by (simp only: hc_stopped_def append_assoc append.simps)
  have "hc_run os z uninit ep cfg w = Some (0, w5)"
    using 1(1,2) 3(1) 4(1,2) by (simp add: hc_run_def hc_free_return_def)
  with \<open>P (h @ hc_started ep cfg @ replicate n Paused @ hc_stopped cfg) w5\<close> show ?thesis using 3(2) by blast
qed

definition demo_os :: "'w tool_os" where
  "demo_os = \<lparr>tool_io = (\<lambda>f w. w), tool_get_io = (\<lambda>w. \<lparr>cli_out = [], cli_err = []\<rparr>), zsys_init = (\<lambda>w. w),
     zsys_interrupted = (\<lambda>w. True), tool_pause = (\<lambda>w. w), glip_parse_option_string = (\<lambda>s w. (0, w))\<rparr>"

lemma demo_os_env: "tool_env demo_os P"
  by (simp add: tool_env_def demo_os_def)

text \<open>An environment that records the events. The program is interrupted while it pauses for the first time.\<close>

type_synonym trace_world = "event list \<times> zmsg list"

definition trace_zmq :: "trace_world zmq" where
  "trace_zmq = \<lparr>zmsg_send = (\<lambda>s m w. (0, (fst w @ [Request (frame_str (hd m))], [[hd m @ str_bytes ''-DONE'', int_bytes 0]]))),
     zmsg_recv = (\<lambda>s w. case snd w of [] \<Rightarrow> (Again, w) | m # ms \<Rightarrow> (Received m, (fst w, ms))),
     zsock_new = (\<lambda>s a w. (True, w)), zsock_bind = (\<lambda>s a w. (0, w)), zsock_connect = (\<lambda>s a w. (0, w)),
     zsock_destroy = (\<lambda>s w. w), zloop_reader = (\<lambda>s w. (0, w)), zloop_reader_end = (\<lambda>s w. w),
     zuuid_str = (\<lambda>w. (replicate 32 (CHR ''a''), w)),
     pthread_create = (\<lambda>w. (0, (fst w @ [Thread_started], [[str_bytes ''I-THREADINIT-DONE'', int_bytes 0]]))),
     pthread_join = apfst (\<lambda>h. h @ [Thread_joined]), pthread_cancel = (\<lambda>w. w), thread_is_running = (\<lambda>w. True)\<rparr>"

definition trace_os :: "trace_world tool_os" where
  "trace_os = \<lparr>tool_io = (\<lambda>f. apfst (\<lambda>h. h @ [Io f])), tool_get_io = (\<lambda>w. \<lparr>cli_out = [], cli_err = []\<rparr>), zsys_init = (\<lambda>w. w),
     zsys_interrupted = (\<lambda>w. Paused \<in> set (fst w)), tool_pause = apfst (\<lambda>h. h @ [Paused]),
     glip_parse_option_string = (\<lambda>s w. (0, w))\<rparr>"

abbreviation trace_idle :: "event list \<Rightarrow> trace_world \<Rightarrow> bool" where
  "trace_idle h w \<equiv> w = (h, [])"

lemma trace_os_laws: "tool_laws trace_os (\<lambda>h. Paused \<in> set h) trace_idle"
  by (auto simp: tool_laws_def trace_os_def intro: exI [of _ 1])

lemma trace_zmq_laws: "worker_laws trace_zmq snd trace_idle"
proof -
  have "fifo_recv trace_zmq Inproc_main snd"
    by (simp add: fifo_recv_def trace_zmq_def split: list.splits)
  moreover have "one_answer trace_zmq snd (trace_idle h) name (h, [[str_bytes name, int_bytes 0]])" for h name
    by (auto simp: one_answer_def trace_zmq_def)
  moreover have "zmsg_send trace_zmq Inproc_main [str_bytes req, int_bytes 0] (h, [])
      = (0, (h @ [Request req], [[str_bytes (req @ ''-DONE''), int_bytes 0]]))"
    if "req \<in> {''I-START'', ''I-STOP'', ''I-CONNECT'', ''I-DISCONNECT'', ''I-SHUTDOWN''}" for req h
  proof -
    have "\<forall>c \<in> set req. c \<noteq> CHR 0x00" using that by auto
    then show ?thesis by (simp add: trace_zmq_def frame_str_bytes) (simp add: str_bytes_def)
  qed
  moreover have "pthread_create trace_zmq (h, []) = (0, (h @ [Thread_started], [[str_bytes ''I-THREADINIT-DONE'', int_bytes 0]]))"
    "pthread_join trace_zmq (h, []) = (h @ [Thread_joined], [])" "length (fst (zuuid_str trace_zmq w)) = 32"
    "snd (zuuid_str trace_zmq w) = w" "zsock_new trace_zmq Inproc_main a w = (True, w)" "thread_is_running trace_zmq w"
    "zsock_destroy trace_zmq Inproc_main w = w" "zsock_bind trace_zmq Inproc_main a w = (0, w)" for h w a
    by (simp_all add: trace_zmq_def)
  ultimately show ?thesis by (simp add: worker_laws_def del: append_Cons)
qed

lemma trace_signal: "signal_after (\<lambda>h. Paused \<in> set h) h n \<Longrightarrow> Paused \<notin> set h \<Longrightarrow> n = 1"
  unfolding signal_after_def by (cases n) (auto dest: spec [of _ 1])

text \<open>The arguments of the tools come after the common ones.\<close>

lemma wf_setup:
  "list_all wf_arg_entry hc_setup" "list_all wf_arg_entry dg_setup"
  by (simp_all add: hc_setup_def dg_setup_def glip_args_def arg_str0_def good_names_def alnum_def)

lemma tool_table_own: "tool_table setup ! (4 + i) = (setup @ [arg_end 20]) ! i"
  by (simp add: tool_table_def common_args_def nth_append)

lemma hc_argument: "arg_value (table_of (tool_table hc_setup) (args, errs) ! 4) = given DEFAULT_HOSTCTRL_BIND_EP (args 4)"
proof -
  have "tool_table hc_setup ! 4 = hc_setup ! 0" using tool_table_own [of hc_setup 0] by (simp add: hc_setup_def)
  moreover have "4 < endt (tool_table hc_setup)" by (simp add: tool_table_common hc_setup_def)
  ultimately show ?thesis by (simp add: table_entry hc_setup_def given_value)
qed

lemma dg_arguments:
  "dg_args_of (table_of (tool_table dg_setup) (args, errs)) = \<lparr>a_hostctrl_ep = given DEFAULT_HOSTCTRL_EP (args 4),
     a_glip_backend = given GLIP_DEFAULT_BACKEND (args 5), a_glip_backend_options = given [] (args 6)\<rparr>"
proof -
  have "tool_table dg_setup ! 4 = dg_setup ! 0" "tool_table dg_setup ! 5 = dg_setup ! 1" "tool_table dg_setup ! 6 = dg_setup ! 2"
    using tool_table_own [of dg_setup 0] tool_table_own [of dg_setup 1] tool_table_own [of dg_setup 2]
    by (simp_all add: dg_setup_def glip_args_def)
  moreover have "6 < endt (tool_table dg_setup)" by (simp add: tool_table_common dg_setup_def glip_args_def)
  ultimately show ?thesis by (simp add: dg_args_of_def table_entry dg_setup_def glip_args_def given_value)
qed

text \<open>
  \<open>plain_settings\<close>: settings that a table accepts and that ask neither for help nor for the version.
\<close>

definition plain_settings :: "arg_entry list \<Rightarrow> setting list \<Rightarrow> bool" where
  "plain_settings tab ss \<longleftrightarrow>
     (\<forall>s \<in> set ss. setting_entry tab s \<noteq> None)
     \<and> (\<forall>i < endt tab. mincount (hdr (tab ! i)) \<le> length (values_for tab ss i) \<and> length (values_for tab ss i) \<le> maxcount (hdr (tab ! i)))
     \<and> values_for tab ss 0 = [] \<and> values_for tab ss 1 = []"

lemma tool_main_runs:
  assumes "list_all wf_arg_entry setup" "plain_settings (tool_table setup) ss" "\<forall>v \<in> set (prog # command_line ss). CHR 0x00 \<notin> set v"
    and "conf = ini_content (files env (given DEFAULT_CONFIG_FILE (values_for (tool_table setup) ss 2)))"
    and "\<And>d. conf = Some d \<Longrightarrow> dict_map d ''general:color_output'' \<noteq> Some None"
  shows "\<exists>io'. tool_main os env setup run (prog # command_line ss) w
    = do { (code, w') \<leftarrow> run (table_of (tool_table setup) (values_for (tool_table setup) ss, []))
             \<lparr>log_level = min LOG_DEBUG (configured_level conf + int (length (values_for (tool_table setup) ss 3))),
              color_output = configured_color (of_bool (stdout_tty env \<or> stderr_tty env)) conf\<rparr> (tool_io os (\<lambda>_. io') w);
           Some (code, tool_get_io os w', w') }"
proof -
  note S = assms(2) [unfolded plain_settings_def]
  note S1 = conjunct1 [OF S] and S2 = conjunct1 [OF conjunct2 [OF S]] and S3 = conjunct2 [OF conjunct2 [OF S]]
  have "parse_spec (posixly_correct env) (tool_table setup) (prog # command_line ss) = (values_for (tool_table setup) ss, [])"
    by (rule parse_command_line [OF wf_tool_table [OF assms(1)] S1 S2])
  from main_runs [OF assms(1,3) this conjunct1 [OF S3] conjunct2 [OF S3] assms(4,5)] show ?thesis
    unfolding tool_main_def .
qed



section \<open>The device gateway\<close>

text \<open>What the gateway needs beyond its worker thread: GLIP, the thread reading from the device, and clocks.\<close>

definition returns :: "('r \<Rightarrow> bool) \<Rightarrow> ('w \<Rightarrow> bool) \<Rightarrow> 'r \<times> 'w \<Rightarrow> bool" where
  "returns R P x \<longleftrightarrow> R (fst x) \<and> P (snd x)"

lemma returnsE:
  assumes "returns R P x"
  obtains r w where "x = (r, w)" "R r" "P w"
  using assms by (cases x) (simp add: returns_def)

definition gateway_env :: "'w zmq \<Rightarrow> 'w rx_os \<Rightarrow> 'w glip \<Rightarrow> ('w \<Rightarrow> bool) \<Rightarrow> bool" where
  "gateway_env z rx g P \<longleftrightarrow>
     (\<forall>w. P w \<longrightarrow> (\<forall>name. returns (\<lambda>r. 0 \<le> r) P (glip_new g name w)) \<and> (\<forall>p. P (glip_set_log_priority g p w))
        \<and> returns (\<lambda>r. 0 \<le> r) P (glip_open g w) \<and> returns (\<lambda>_. True) P (glip_close g w) \<and> P (glip_free g w)
        \<and> (\<forall>a. returns id P (zsock_new z Device_rx_main a w)) \<and> P (zsock_destroy z Device_rx_main w)
        \<and> (\<forall>c. returns (\<lambda>r. fst r = 0) P (clock_gettime rx c w)) \<and> returns (\<lambda>r. r = 0) P (rx_pthread_create rx w)
        \<and> (\<forall>t. returns (\<lambda>_. True) P (pthread_timedjoin_np rx t w)) \<and> P (rx_pthread_cancel rx w) \<and> P (rx_pthread_join rx w))"

text \<open>\<open>gateway_laws\<close> is the same with the events. The thread has ended once it has been joined.\<close>

definition gateway_laws :: "'w zmq \<Rightarrow> 'w rx_os \<Rightarrow> 'w glip \<Rightarrow> (event list \<Rightarrow> 'w \<Rightarrow> bool) \<Rightarrow> bool" where
  "gateway_laws z rx g P \<longleftrightarrow>
     (\<forall>h w. P h w \<longrightarrow> (\<forall>name. returns (\<lambda>r. 0 \<le> r) (P (h @ [Glip_created name])) (glip_new g name w))
        \<and> (\<forall>p. P h (glip_set_log_priority g p w))
        \<and> returns (\<lambda>r. 0 \<le> r) (P (h @ [Glip_opened])) (glip_open g w) \<and> returns (\<lambda>_. True) (P (h @ [Glip_closed])) (glip_close g w)
        \<and> P (h @ [Glip_freed]) (glip_free g w)
        \<and> (\<forall>a. returns id (P h) (zsock_new z Device_rx_main a w)) \<and> P h (zsock_destroy z Device_rx_main w)
        \<and> (\<forall>c. returns (\<lambda>r. fst r = 0) (P h) (clock_gettime rx c w)) \<and> returns (\<lambda>r. r = 0) (P (h @ [Rx_started])) (rx_pthread_create rx w)
        \<and> (\<forall>t. P (if fst (pthread_timedjoin_np rx t w) = ETIMEDOUT then h else h @ [Rx_joined]) (snd (pthread_timedjoin_np rx t w)))
        \<and> P h (rx_pthread_cancel rx w) \<and> P (h @ [Rx_joined]) (rx_pthread_join rx w))"

lemma gateway_env_laws: "gateway_env z rx g P \<Longrightarrow> gateway_laws z rx g (\<lambda>_. P)"
  by (simp add: gateway_env_def gateway_laws_def returns_def)

lemma gateway_lawsD:
  assumes "gateway_laws z rx g P" "P h w"
  shows "returns (\<lambda>r. 0 \<le> r) (P (h @ [Glip_created name])) (glip_new g name w)" "P h (glip_set_log_priority g p w)"
    "returns (\<lambda>r. 0 \<le> r) (P (h @ [Glip_opened])) (glip_open g w)" "returns (\<lambda>_. True) (P (h @ [Glip_closed])) (glip_close g w)"
    "P (h @ [Glip_freed]) (glip_free g w)"
    "returns id (P h) (zsock_new z Device_rx_main a w)" "P h (zsock_destroy z Device_rx_main w)"
    "returns (\<lambda>r. fst r = 0) (P h) (clock_gettime rx c w)" "returns (\<lambda>r. r = 0) (P (h @ [Rx_started])) (rx_pthread_create rx w)"
    "P (if fst (pthread_timedjoin_np rx t w) = ETIMEDOUT then h else h @ [Rx_joined]) (snd (pthread_timedjoin_np rx t w))"
    "P h (rx_pthread_cancel rx w)" "P (h @ [Rx_joined]) (rx_pthread_join rx w)"
  using assms(1) [unfolded gateway_laws_def, rule_format, OF assms(2)] by blast+

lemma gateway_new_laws:
  assumes W: "worker_laws z q P" and G: "gateway_laws z rx g P" and P: "P h w"
  shows "\<exists>ctx u w'. osd_gateway_glip_new z g uninit lc addr sub be w = Some (Inr (ctx, u), w')
    \<and> P (h @ [Glip_created be, Thread_started]) w'
    \<and> gw_ioworker_ctx (gg_gw_ctx ctx) \<and> \<not> is_connected_to_hostctrl (gg_gw_ctx ctx) \<and> \<not> is_connected_to_device (gg_gw_ctx ctx)
    \<and> \<not> device_disconnect_detected (gg_gw_ctx ctx)"
proof -
  obtain r w1 where 1: "glip_new g be w = (r, w1)" "0 \<le> r" "P (h @ [Glip_created be]) w1"
    using gateway_lawsD(1) [OF G, OF P, where name = be] by (rule returnsE)
  have "P (h @ [Glip_created be]) (glip_set_log_priority g (osd_log_get_priority lc) w1)" by (rule gateway_lawsD(2) [OF G, OF 1(3)])
  from worker_new_laws [OF W, OF this, of uninit] show ?thesis
    using 1 by (auto simp: osd_gateway_glip_new_def init_glip_def osd_gateway_new_def Let_def)
qed

lemma gateway_connect_laws:
  assumes W: "worker_laws z q P" and G: "gateway_laws z rx g P" and P: "P h w"
    and c: "gw_ioworker_ctx (gg_gw_ctx ctx)" "\<not> is_connected_to_hostctrl (gg_gw_ctx ctx)" "\<not> is_connected_to_device (gg_gw_ctx ctx)"
      "\<not> device_disconnect_detected (gg_gw_ctx ctx)"
  shows "\<exists>ctx' w'. osd_gateway_glip_connect z rx g ctx w = Some (OSD_OK, ctx', w')
    \<and> P (h @ [Glip_opened, Request ''I-CONNECT'', Rx_started]) w'
    \<and> gw_ioworker_ctx (gg_gw_ctx ctx') \<and> is_connected_to_hostctrl (gg_gw_ctx ctx') \<and> is_connected_to_device (gg_gw_ctx ctx')"
proof -
  let ?gw = "gg_gw_ctx ctx"
  obtain r w1 where 1: "glip_open g w = (r, w1)" "0 \<le> r" "P (h @ [Glip_opened]) w1"
    using gateway_lawsD(3) [OF G, OF P] by (rule returnsE)
  have run: "thread_is_running z w1"
    using W [unfolded worker_laws_def, THEN conjunct2, THEN conjunct2, THEN conjunct1, rule_format, OF 1(3)] by simp
  let ?h = "(h @ [Glip_opened]) @ [Request ''I-CONNECT'']"
  obtain w2 v w3 where 2: "worker_send_status z Inproc_main ''I-CONNECT'' 0 w1 = Some w2"
    "worker_wait_for_status z Inproc_main ''I-CONNECT-DONE'' w2 = Some (Inr v, w3)" "0 \<le> v" "P ?h w3"
    using request_answered_laws [OF W, OF 1(3), of "''I-CONNECT''"] by auto
  have h: "connect_to_hostctrl z ?gw w1 = Some (OSD_OK, ?gw\<lparr>is_connected_to_hostctrl := True\<rparr>, w3)"
    using 2 c run by (simp add: connect_to_hostctrl_def worker_main_send_status_def)
  obtain b w4 where 3: "zsock_new z Device_rx_main ''@inproc://devicerx'' w3 = (b, w4)" "id b" "P ?h w4"
    using gateway_lawsD(6) [OF G, OF 2(4)] by (rule returnsE)
  obtain i w5 where 4: "rx_pthread_create rx w4 = (i, w5)" "i = 0" "P (?h @ [Rx_started]) w5"
    using gateway_lawsD(9) [OF G, OF 3(3)] by (rule returnsE)
  obtain t w6 where 5: "clock_gettime rx CLOCK_MONOTONIC w5 = (t, w6)" "fst t = 0" "P (?h @ [Rx_started]) w6"
    using gateway_lawsD(8) [OF G, OF 4(3)] by (rule returnsE)
  have "P (h @ [Glip_opened, Request ''I-CONNECT'', Rx_started]) w6" using 5(3) by simp
  then show ?thesis
    using 1 h 3(1,2) 4(1,2) 5(1,2) c
    by (cases t) (auto simp: osd_gateway_glip_connect_def osd_gateway_connect_def perform_outstanding_main_thread_tasks_def
        connect_to_device_def stats_start_def)
qed

lemma device_stopped_laws:
  assumes G: "gateway_laws z rx g P" and P: "P h w" and c: "is_connected_to_device gw" "gw_ioworker_ctx gw"
  shows "\<exists>gw' w'. disconnect_from_device z rx gw w = Some (OSD_OK, gw', w') \<and> P (h @ [Rx_joined]) w' \<and> gw_ioworker_ctx gw'
      \<and> \<not> is_connected_to_device gw' \<and> is_connected_to_hostctrl gw' = is_connected_to_hostctrl gw"
proof -
  obtain t w2 where 2: "clock_gettime rx CLOCK_REALTIME w = (t, w2)" "fst t = 0" "P h w2"
    using gateway_lawsD(8) [OF G, OF P] by (rule returnsE)
  obtain a b where t: "t = (0, a, b)" using 2(2) by (cases t) auto
  obtain i w3 where 3: "pthread_timedjoin_np rx (a + DEVICE_DISCONNECT_TIMEOUT_SECONDS, b) w2 = (i, w3)"
      "P (if i = ETIMEDOUT then h else h @ [Rx_joined]) w3"
    using gateway_lawsD(10) [OF G, OF 2(3), where t = "(a + DEVICE_DISCONNECT_TIMEOUT_SECONDS, b)"] by (metis prod.collapse)
  let ?w = "if i = ETIMEDOUT then rx_pthread_join rx (rx_pthread_cancel rx w3) else w3"
  have "P (h @ [Rx_joined]) ?w"
  proof (cases "i = ETIMEDOUT")
    case True
    then have "P h w3" using 3(2) by simp
    then show ?thesis using gateway_lawsD(12) [OF G, OF gateway_lawsD(11) [OF G]] True by simp
  qed (use 3(2) in simp)
  then have "P (h @ [Rx_joined]) (zsock_destroy z Device_rx_main ?w)" by (rule gateway_lawsD(7) [OF G])
  then show ?thesis using c 2(1) t 3(1) by (simp add: disconnect_from_device_def Let_def)
qed

text \<open>A gateway that is connected to both, or to only some of them: then there is nothing to end.\<close>

lemma gateway_disconnect_laws:
  assumes W: "worker_laws z q P" and G: "gateway_laws z rx g P" and P: "P h w"
    and c: "gw_ioworker_ctx (gg_gw_ctx ctx)"
  shows "\<exists>ctx' w'. osd_gateway_glip_disconnect z rx g ctx w = Some (OSD_OK, ctx', w')
    \<and> P (h @ [Glip_closed] @ (if is_connected_to_device (gg_gw_ctx ctx) then [Rx_joined] else [])
          @ (if is_connected_to_hostctrl (gg_gw_ctx ctx) then [Request ''I-DISCONNECT''] else [])) w'
    \<and> gw_ioworker_ctx (gg_gw_ctx ctx') \<and> \<not> is_connected_to_hostctrl (gg_gw_ctx ctx') \<and> \<not> is_connected_to_device (gg_gw_ctx ctx')"
proof -
  let ?gw = "gg_gw_ctx ctx"
  obtain r w1 where 1: "glip_close g w = (r, w1)" "P (h @ [Glip_closed]) w1" using gateway_lawsD(4) [OF G, OF P] by (rule returnsE)
  let ?h = "(h @ [Glip_closed]) @ (if is_connected_to_device ?gw then [Rx_joined] else [])"
  have d: "\<exists>gw' w'. disconnect_from_device z rx ?gw w1 = Some (OSD_OK, gw', w') \<and> P ?h w' \<and> gw_ioworker_ctx gw'
      \<and> \<not> is_connected_to_device gw' \<and> is_connected_to_hostctrl gw' = is_connected_to_hostctrl ?gw"
  proof (cases "is_connected_to_device ?gw")
    case True
    then show ?thesis using device_stopped_laws [OF G, OF 1(2) True c] by simp
  qed (use 1 c in \<open>simp add: disconnect_from_device_def\<close>)
  then obtain gw2 w2 where 2: "disconnect_from_device z rx ?gw w1 = Some (OSD_OK, gw2, w2)" "P ?h w2" "gw_ioworker_ctx gw2"
    "\<not> is_connected_to_device gw2" "is_connected_to_hostctrl gw2 = is_connected_to_hostctrl ?gw" by blast
  let ?h' = "?h @ (if is_connected_to_hostctrl ?gw then [Request ''I-DISCONNECT''] else [])"
  have "\<exists>gw' w'. disconnect_from_hostctrl z gw2 w2 = Some (OSD_OK, gw', w') \<and> P ?h' w' \<and> gw_ioworker_ctx gw'
      \<and> \<not> is_connected_to_device gw' \<and> \<not> is_connected_to_hostctrl gw'"
  proof (cases "is_connected_to_hostctrl ?gw")
    case True
    have run: "thread_is_running z w2"
      using W [unfolded worker_laws_def, THEN conjunct2, THEN conjunct2, THEN conjunct1, rule_format, OF 2(2)] by simp
    obtain w3 v w4 where "worker_send_status z Inproc_main ''I-DISCONNECT'' 0 w2 = Some w3"
      "worker_wait_for_status z Inproc_main ''I-DISCONNECT-DONE'' w3 = Some (Inr v, w4)" "0 \<le> v" "P (?h @ [Request ''I-DISCONNECT'']) w4"
      using request_answered_laws [OF W, OF 2(2), of "''I-DISCONNECT''"] by auto
    then show ?thesis
      using run 2(3-5) True by (simp add: disconnect_from_hostctrl_def worker_main_send_status_def osd_codes)
  qed (use 2 in \<open>simp add: disconnect_from_hostctrl_def\<close>)
  then obtain gw3 w3 where 3: "disconnect_from_hostctrl z gw2 w2 = Some (OSD_OK, gw3, w3)" "P ?h' w3" "gw_ioworker_ctx gw3"
    "\<not> is_connected_to_device gw3" "\<not> is_connected_to_hostctrl gw3" by blast
  have "osd_gateway_glip_disconnect z rx g ctx w = Some (OSD_OK, ctx\<lparr>gg_gw_ctx := gw3\<rparr>, w3)"
    using 1(1) 2(1) 3(1) by (simp add: osd_gateway_glip_disconnect_def osd_gateway_disconnect_def)
  moreover have "P (h @ [Glip_closed] @ (if is_connected_to_device ?gw then [Rx_joined] else [])
          @ (if is_connected_to_hostctrl ?gw then [Request ''I-DISCONNECT''] else [])) w3"
    using 3(2) by (simp only: append_assoc)
  ultimately show ?thesis using 3(3-5) by (intro exI [of _ "ctx\<lparr>gg_gw_ctx := gw3\<rparr>"] exI [of _ w3]) simp
qed

lemma gateway_free_laws:
  assumes W: "worker_laws z q P" and G: "gateway_laws z rx g P" and P: "P h w" and c: "gw_ioworker_ctx (gg_gw_ctx ctx)"
  shows "\<exists>r w'. osd_gateway_glip_free z g (Some ctx) w = Some (r, w') \<and> P (h @ [Request ''I-SHUTDOWN'', Thread_joined, Glip_freed]) w'"
proof -
  obtain w1 where 1: "worker_free z True w = Some w1" "P (h @ [Request ''I-SHUTDOWN'', Thread_joined]) w1"
    using worker_free_laws [OF W, OF P] by blast
  have "P (h @ [Request ''I-SHUTDOWN'', Thread_joined, Glip_freed]) (glip_free g w1)"
    using gateway_lawsD(5) [OF G, OF 1(2)] by simp
  then show ?thesis using 1(1) c by (simp add: osd_gateway_glip_free_def osd_gateway_free_def)
qed

text \<open>The same without the events.\<close>

lemma gateway_new_env:
  assumes "worker_env z q P" "gateway_env z rx g P" "P w"
  shows "\<exists>ctx u w'. osd_gateway_glip_new z g uninit lc addr sub be w = Some (Inr (ctx, u), w') \<and> P w'
    \<and> gw_ioworker_ctx (gg_gw_ctx ctx) \<and> \<not> is_connected_to_hostctrl (gg_gw_ctx ctx) \<and> \<not> is_connected_to_device (gg_gw_ctx ctx)
    \<and> \<not> device_disconnect_detected (gg_gw_ctx ctx)"
  using gateway_new_laws [OF worker_env_laws [OF assms(1)] gateway_env_laws [OF assms(2)], OF assms(3)] .

lemma gateway_connect_env:
  assumes "worker_env z q P" "gateway_env z rx g P" "P w"
    and "gw_ioworker_ctx (gg_gw_ctx ctx)" "\<not> is_connected_to_hostctrl (gg_gw_ctx ctx)" "\<not> is_connected_to_device (gg_gw_ctx ctx)"
      "\<not> device_disconnect_detected (gg_gw_ctx ctx)"
  shows "\<exists>ctx' w'. osd_gateway_glip_connect z rx g ctx w = Some (OSD_OK, ctx', w') \<and> P w'
    \<and> gw_ioworker_ctx (gg_gw_ctx ctx') \<and> is_connected_to_hostctrl (gg_gw_ctx ctx') \<and> is_connected_to_device (gg_gw_ctx ctx')"
  using gateway_connect_laws [OF worker_env_laws [OF assms(1)] gateway_env_laws [OF assms(2)], OF assms(3-7)] .

lemma gateway_disconnect_env:
  assumes "worker_env z q P" "gateway_env z rx g P" "P w" "gw_ioworker_ctx (gg_gw_ctx ctx)"
  shows "\<exists>ctx' w'. osd_gateway_glip_disconnect z rx g ctx w = Some (OSD_OK, ctx', w') \<and> P w'
    \<and> gw_ioworker_ctx (gg_gw_ctx ctx') \<and> \<not> is_connected_to_hostctrl (gg_gw_ctx ctx') \<and> \<not> is_connected_to_device (gg_gw_ctx ctx')"
  using gateway_disconnect_laws [OF worker_env_laws [OF assms(1)] gateway_env_laws [OF assms(2)], OF assms(3,4)] .

lemma gateway_free_env:
  assumes W: "worker_env z q P" and G: "gateway_env z rx g P" and P: "P w"
  shows "\<exists>r w'. osd_gateway_glip_free z g (Some ctx) w = Some (r, w') \<and> P w'"
proof -
  obtain w1 where 1: "worker_free z (gw_ioworker_ctx (gg_gw_ctx ctx)) w = Some w1" "P w1"
    using worker_free_env [OF W P, of "gw_ioworker_ctx (gg_gw_ctx ctx)"] by blast
  have "P (glip_free g w1)"
    using gateway_lawsD(5) [OF gateway_env_laws [OF G], OF 1(2)] .
  then show ?thesis using 1(1) by (simp add: osd_gateway_glip_free_def osd_gateway_free_def)
qed

text \<open>The events of a run of the device gateway, before and after it waits for the signal.\<close>

definition dg_connected :: "string \<Rightarrow> event list" where
  "dg_connected be = [Glip_created be, Thread_started, Glip_opened, Request ''I-CONNECT'', Rx_started]"

definition dg_disconnected :: "config \<Rightarrow> event list" where
  "dg_disconnected cfg = [Io (cli_log cfg LOG_INFO dg_progname ''Shutdown signal received, cleaning up.''),
     Glip_closed, Rx_joined, Request ''I-DISCONNECT'', Request ''I-SHUTDOWN'', Thread_joined, Glip_freed]"


definition demo_glip :: "'w glip" where
  "demo_glip = \<lparr>glip_new = (\<lambda>n w. (0, w)), glip_set_log_priority = (\<lambda>p w. w), glip_free = (\<lambda>w. w), glip_open = (\<lambda>w. (0, w)),
     glip_close = (\<lambda>w. (0, w)), glip_is_connected = (\<lambda>w. True), glip_read_b = (\<lambda>n w. ((0, []), w)),
     glip_write_b = (\<lambda>b w. ((0, length b), w))\<rparr>"

definition demo_rx :: "'w rx_os" where
  "demo_rx = \<lparr>clock_gettime = (\<lambda>c w. ((0, (0, 0)), w)), rx_pthread_create = (\<lambda>w. (0, w)),
     pthread_timedjoin_np = (\<lambda>t w. (0, w)), rx_pthread_cancel = (\<lambda>w. w), rx_pthread_join = (\<lambda>w. w)\<rparr>"

definition trace_glip :: "trace_world glip" where
  "trace_glip = demo_glip\<lparr>glip_new := (\<lambda>n. Pair 0 \<circ> apfst (\<lambda>h. h @ [Glip_created n])),
     glip_free := apfst (\<lambda>h. h @ [Glip_freed]), glip_open := Pair 0 \<circ> apfst (\<lambda>h. h @ [Glip_opened]),
     glip_close := Pair 0 \<circ> apfst (\<lambda>h. h @ [Glip_closed])\<rparr>"

definition trace_rx :: "trace_world rx_os" where
  "trace_rx = demo_rx\<lparr>rx_pthread_create := Pair 0 \<circ> apfst (\<lambda>h. h @ [Rx_started]),
     pthread_timedjoin_np := (\<lambda>t. Pair 0 \<circ> apfst (\<lambda>h. h @ [Rx_joined])), rx_pthread_join := apfst (\<lambda>h. h @ [Rx_joined])\<rparr>"

lemma trace_gateway_laws: "gateway_laws trace_zmq trace_rx trace_glip trace_idle"
  by (simp add: gateway_laws_def returns_def trace_rx_def trace_glip_def demo_rx_def demo_glip_def trace_zmq_def ETIMEDOUT_def)


text \<open>Options that cannot be parsed: the uninitialised pointer to the gateway is freed.\<close>

theorem device_gateway_bad_options:
  assumes "fst (glip_parse_option_string os (a_glip_backend_options a) (zsys_init os w)) \<noteq> 0"
  shows "dg_run os z rx g uninit a cfg w = None"
  using assms by (cases "glip_parse_option_string os (a_glip_backend_options a) (zsys_init os w)") (simp add: dg_run_def Let_def)

lemma device_gateway_bad_options_witness:
  "dg_run (trace_os\<lparr>glip_parse_option_string := (\<lambda>s w. (-1, w))\<rparr>) trace_zmq trace_rx trace_glip 0
     \<lparr>a_hostctrl_ep = DEFAULT_HOSTCTRL_EP, a_glip_backend = GLIP_DEFAULT_BACKEND, a_glip_backend_options = ''hostname''\<rparr> cfg_init ([], []) = None"
  by (rule device_gateway_bad_options) simp

end
