(* ===== verification/Target_Run.thy ===== *)
theory Target_Run
  imports Tools Systracelogger Coretracelogger Terminal Memaccess
begin

text \<open>
  The program that runs software on a target (\<^verbatim>\<open>osd-target-run.c\<close>): it starts a host controller and a gateway in
  its own process, resets the CPUs, sets up tracing and a terminal, loads the memories with an ELF file, starts the
  CPUs, waits for the user if something is traced, and cleans up.

  Each component has sockets and a worker thread of its own: \<open>tr_*_zmq\<close>, for a trace logger by the address of its
  module. The global pointers of the program are the fields \<open>tr_*_ctx\<close>, null at first. The contexts are what the main
  thread sees; the log files are written by the threads of the loggers.
\<close>

section \<open>Definitions\<close>

definition tr_progname :: string where "tr_progname = ''osd-target-run''"
definition HOSTCTRL_EP :: string where "HOSTCTRL_EP = ''inproc://osd-target-run''"

record tr_args =
  tr_glip_backend :: string
  tr_glip_backend_options :: string
  tr_coretrace :: bool
  tr_systrace :: bool
  tr_verify_memload :: bool
  tr_terminal :: bool
  tr_elf_file :: string

record ('f, 'e, 's, 'd, 'w) tr_env =
  tr_os :: "'w tool_os"
  tr_hc_zmq :: "'w zmq"
  tr_gw_zmq :: "'w zmq"
  tr_ma_zmq :: "'w zmq"
  tr_enum_zmq :: "'w zmq"
  tr_term_zmq :: "'w zmq"
  tr_st_zmq :: "u16 \<Rightarrow> 'w zmq"
  tr_ct_zmq :: "u16 \<Rightarrow> 'w zmq"
  tr_rx :: "'w rx_os"
  tr_glip :: "'w glip"
  tr_tty :: "'w tty_os"
  tr_elf :: "('f, 'e, 's, 'd) libelf"
  tr_fopen :: "string \<Rightarrow> 'w \<Rightarrow> nat option \<times> 'w"
  tr_fclose :: "nat \<Rightarrow> 'w \<Rightarrow> 'w"
  tr_files :: "'w \<Rightarrow> c_files"
  tr_put_files :: "c_files \<Rightarrow> 'w \<Rightarrow> 'w"
  tr_uninit :: int
  tr_junk :: "nat \<Rightarrow> u8"
  tr_junk_fns :: "nat \<Rightarrow> elf_function"

record tr_state =
  tr_hostctrl_ctx :: "osd_hostctrl_ctx option"
  tr_gateway_ctx :: "osd_gateway_glip_ctx option"
  tr_terminal_ctx :: "osd_terminal_ctx option"
  tr_ctloggers :: "osd_coretracelogger_ctx list"
  tr_stloggers :: "osd_systracelogger_ctx list"
  tr_open_files :: "nat list"

definition tr_init :: tr_state where
  "tr_init = \<lparr>tr_hostctrl_ctx = None, tr_gateway_ctx = None, tr_terminal_ctx = None, tr_ctloggers = [], tr_stloggers = [],
     tr_open_files = []\<rparr>"

definition tr_setup :: "arg_entry list" where
  "tr_setup =
     [arg_file1 (Some ''e'') (Some ''elf-file'') (Some ''file'') (Some ''ELF file to run on the device''),
      arg_lit0 None (Some ''coretrace'') (Some ''create a core trace for all CPU cores''),
      arg_lit0 None (Some ''systrace'') (Some ''create a system trace for all CPU cores''),
      arg_lit0 None (Some ''verify-memload'') (Some ''verify loaded memory''),
      arg_lit0 None (Some ''terminal'') (Some ''create pseudo-terminal device'')] @ glip_args"

definition tr_args_of :: "arg_entry list \<Rightarrow> tr_args" where
  "tr_args_of table = \<lparr>tr_glip_backend = arg_value (table ! 9), tr_glip_backend_options = arg_value (table ! 10),
     tr_coretrace = (a_count (table ! 5) > 0), tr_systrace = (a_count (table ! 6) > 0),
     tr_verify_memload = (a_count (table ! 7) > 0), tr_terminal = (a_count (table ! 8) > 0), tr_elf_file = arg_value (table ! 4)\<rparr>"

abbreviation tr_log :: "('f, 'e, 's, 'd, 'w) tr_env \<Rightarrow> config \<Rightarrow> int \<Rightarrow> string \<Rightarrow> 'w \<Rightarrow> 'w" where
  "tr_log env cfg \<equiv> tool_log (tr_os env) cfg tr_progname"

subsection \<open>Controller and gateway\<close>

text \<open>The global pointer is set as soon as the object exists, also when starting it fails.\<close>

definition run_hostctrl ::
  "('f, 'e, 's, 'd, 'w) tr_env \<Rightarrow> config \<Rightarrow> tr_state \<Rightarrow> 'w \<Rightarrow> (osd_result \<times> tr_state \<times> 'w) option" where
  "run_hostctrl env cfg s w =
     do { (r, w) \<leftarrow> osd_hostctrl_new (tr_hc_zmq env) (tr_uninit env) HOSTCTRL_EP w;
          (case r of
             Inl rv \<Rightarrow> Some (OSD_ERROR_FAILURE, s,
               tr_log env cfg LOG_CRIT (''Unable to initialize host controller ('' @ fmt_d rv @ '')'') w)
           | Inr (hc, _) \<Rightarrow>
               do { (rv, hc, w) \<leftarrow> osd_hostctrl_start (tr_hc_zmq env) hc w;
                    let s = s\<lparr>tr_hostctrl_ctx := Some hc\<rparr>;
                    if OSD_FAILED rv then
                      Some (OSD_ERROR_FAILURE, s, tr_log env cfg LOG_CRIT (''Unable to start host controller ('' @ fmt_d rv @ '')'') w)
                    else
                      Some (OSD_OK, s, tr_log env cfg LOG_DEBUG
                        (''Host controller up and running, listening at '' @ HOSTCTRL_EP @ '' for connections'') w) }) }"

definition run_gateway_glip ::
  "('f, 'e, 's, 'd, 'w) tr_env \<Rightarrow> tr_args \<Rightarrow> config \<Rightarrow> tr_state \<Rightarrow> 'w \<Rightarrow> (osd_result \<times> tr_state \<times> 'w) option" where
  "run_gateway_glip env a cfg s w =
     (let (rv, w) = glip_parse_option_string (tr_os env) (tr_glip_backend_options a) w
      in if rv \<noteq> 0 then Some (OSD_ERROR_FAILURE, s, tr_log env cfg LOG_CRIT ''Unable to parse GLIP backend options.'' w)
         else do {
           (r, w) \<leftarrow> osd_gateway_glip_new (tr_gw_zmq env) (tr_glip env) (tr_uninit env) (tool_log_ctx (tr_os env) cfg) HOSTCTRL_EP
             (of_nat DEVICE_SUBNET_ADDRESS) (tr_glip_backend a) w;
           (case r of
              Inl rv \<Rightarrow> Some (OSD_ERROR_FAILURE, s, tr_log env cfg LOG_CRIT ''Unable to create gateway.'' w)
            | Inr (gw, _) \<Rightarrow>
                do { (rv, gw, w) \<leftarrow> osd_gateway_glip_connect (tr_gw_zmq env) (tr_rx env) (tr_glip env) gw w;
                     let s = s\<lparr>tr_gateway_ctx := Some gw\<rparr>;
                     if OSD_FAILED rv then
                       Some (OSD_ERROR_FAILURE, s,
                         tr_log env cfg LOG_CRIT ''Unable to connect to host controller and to device.'' w)
                     else Some (OSD_OK, s, w) }) })"

subsection \<open>Trace loggers\<close>

text \<open>\<^verbatim>\<open>snprintf\<close> into a buffer of \<open>n\<close> characters.\<close>

definition snprintf :: "nat \<Rightarrow> string \<Rightarrow> string" where
  "snprintf n s = take (n - 1) s"

definition fmt_04d :: "u16 \<Rightarrow> string" where
  "fmt_04d di_addr = zero_pad 4 (fmt_u (unat (osd_diaddr_localaddr (ucast di_addr))))"

definition systrace_log_filename_event :: "u16 \<Rightarrow> string" where
  "systrace_log_filename_event a = snprintf 18 (''systrace.'' @ fmt_04d a @ ''.log'')"

definition systrace_log_filename_sysprint :: "u16 \<Rightarrow> string" where
  "systrace_log_filename_sysprint a = snprintf 24 (''systrace.print.'' @ fmt_04d a @ ''.log'')"

definition coretrace_log_filename :: "u16 \<Rightarrow> string" where
  "coretrace_log_filename a = snprintf 19 (''coretrace.'' @ fmt_04d a @ ''.log'')"

text \<open>
  The functions that set the log of a logger cannot fail. The messages leave out the error text of the system.
  \<open>systrace_failed\<close> and \<open>coretrace_failed\<close> are the code after \<^verbatim>\<open>free_return\<close> when the logger could not be set up.
\<close>

definition systrace_failed ::
  "('f, 'e, 's, 'd, 'w) tr_env \<Rightarrow> 'w zmq \<Rightarrow> osd_systracelogger_ctx \<Rightarrow> osd_result \<Rightarrow> tr_state \<Rightarrow> 'w \<Rightarrow> (osd_result \<times> tr_state \<times> 'w) option" where
  "systrace_failed env z ctx retval s w =
     do { (ctx, w) \<leftarrow> (if osd_systracelogger_is_connected ctx
                        then do { (_, ctx, w) \<leftarrow> osd_systracelogger_disconnect z ctx w; Some (ctx, w) }
                        else Some (ctx, w));
          (_, fs, w) \<leftarrow> osd_systracelogger_free z (Some ctx) (tr_files env w) w;
          Some (retval, s, tr_put_files env fs w) }"

definition run_systrace ::
  "('f, 'e, 's, 'd, 'w) tr_env \<Rightarrow> config \<Rightarrow> u16 \<Rightarrow> tr_state \<Rightarrow> 'w \<Rightarrow> (osd_result \<times> tr_state \<times> 'w) option" where
  "run_systrace env cfg st_addr s w =
     do { let z = tr_st_zmq env st_addr;
          (ctx, w) \<leftarrow> osd_systracelogger_new z (tr_uninit env) st_addr w;
          (rv, ctx, w) \<leftarrow> osd_systracelogger_connect z ctx w;
          if OSD_FAILED rv then systrace_failed env z ctx rv s w
          else (case tr_fopen env (systrace_log_filename_event st_addr) w of
            (None, w) \<Rightarrow> systrace_failed env z ctx OSD_ERROR_FILE s
              (tr_log env cfg LOG_ERR (''Unable to open file '' @ systrace_log_filename_event st_addr) w)
          | (Some fp, w) \<Rightarrow>
              (let ctx = osd_systracelogger_set_event_log (Some fp) ctx;
                   s = s\<lparr>tr_open_files := tr_open_files s @ [fp]\<rparr>;
                   w = tr_log env cfg LOG_INFO
                     (''Writing system trace event output to file '' @ systrace_log_filename_event st_addr) w
               in case tr_fopen env (systrace_log_filename_sysprint st_addr) w of
                 (None, w) \<Rightarrow> systrace_failed env z ctx OSD_ERROR_FILE s
                   (tr_log env cfg LOG_ERR (''Unable to open file '' @ systrace_log_filename_sysprint st_addr) w)
               | (Some fp, w) \<Rightarrow>
                   do { let ctx = osd_systracelogger_set_sysprint_log (Some fp) ctx;
                        let s = s\<lparr>tr_open_files := tr_open_files s @ [fp]\<rparr>;
                        let w = tr_log env cfg LOG_INFO
                          (''Writing system trace print output to file '' @ systrace_log_filename_sysprint st_addr) w;
                        (rv, ctx, w) \<leftarrow> osd_systracelogger_start z ctx w;
                        if OSD_FAILED rv then systrace_failed env z ctx rv s w
                        else Some (OSD_OK, s\<lparr>tr_stloggers := tr_stloggers s @ [ctx]\<rparr>, w) })) }"

definition coretrace_failed ::
  "'w zmq \<Rightarrow> osd_coretracelogger_ctx \<Rightarrow> osd_result \<Rightarrow> tr_state \<Rightarrow> 'w \<Rightarrow> (osd_result \<times> tr_state \<times> 'w) option" where
  "coretrace_failed z ctx retval s w =
     do { (ctx, w) \<leftarrow> (if osd_coretracelogger_is_connected ctx
                        then do { (_, ctx, w) \<leftarrow> osd_coretracelogger_disconnect z ctx w; Some (ctx, w) }
                        else Some (ctx, w));
          (_, w) \<leftarrow> osd_coretracelogger_free z (Some ctx) w;
          Some (retval, s, w) }"

definition run_coretrace ::
  "('f, 'e, 's, 'd, 'w) tr_env \<Rightarrow> tr_args \<Rightarrow> config \<Rightarrow> u16 \<Rightarrow> tr_state \<Rightarrow> 'w \<Rightarrow> (osd_result \<times> tr_state \<times> 'w) option" where
  "run_coretrace env a cfg ct_addr s w =
     do { let z = tr_ct_zmq env ct_addr;
          (ctx, w) \<leftarrow> osd_coretracelogger_new z (tr_uninit env) ct_addr w;
          (rv, ctx, w) \<leftarrow> osd_coretracelogger_connect z ctx w;
          if OSD_FAILED rv then coretrace_failed z ctx rv s w
          else do {
            (rv, ctx) \<leftarrow> osd_coretracelogger_set_elf (tr_junk_fns env) (tr_elf env) ctx (Some (tr_elf_file a));
            let w = (if OSD_FAILED rv
              then tr_log env cfg LOG_ERR (''Unable to use ELF file '' @ tr_elf_file a @ '' to decode control trace.'') w else w);
            (case tr_fopen env (coretrace_log_filename ct_addr) w of
               (None, w) \<Rightarrow> coretrace_failed z ctx OSD_ERROR_FILE s
                 (tr_log env cfg LOG_ERR (''Unable to open file '' @ coretrace_log_filename ct_addr) w)
             | (Some fp, w) \<Rightarrow>
                 do { let ctx = osd_coretracelogger_set_log (Some fp) ctx;
                      let s = s\<lparr>tr_open_files := tr_open_files s @ [fp]\<rparr>;
                      let w = tr_log env cfg LOG_INFO (''Writing core trace to file '' @ coretrace_log_filename ct_addr) w;
                      (rv, ctx, w) \<leftarrow> osd_coretracelogger_start z ctx w;
                      if OSD_FAILED rv then coretrace_failed z ctx rv s w
                      else Some (OSD_OK, s\<lparr>tr_ctloggers := tr_ctloggers s @ [ctx]\<rparr>, w) }) } }"
subsection \<open>Finding the modules\<close>

text \<open>
  A local pointer that is set by its declaration or a call on some paths only: freeing it while it is not initialised
  is undefined.
\<close>

datatype local_ptr = Uninit | Initialised

definition c_free :: "local_ptr \<Rightarrow> unit option" where
  "c_free p = (case p of Uninit \<Rightarrow> None | Initialised \<Rightarrow> Some ())"

text \<open>The code after \<^verbatim>\<open>free_return\<close>, for both functions.\<close>

definition free_enum ::
  "('f, 'e, 's, 'd, 'w) tr_env \<Rightarrow> local_ptr \<Rightarrow> osd_hostmod_ctx option \<Rightarrow> osd_result \<Rightarrow> tr_state \<Rightarrow> 'w
    \<Rightarrow> (osd_result \<times> tr_state \<times> 'w) option" where
  "free_enum env modules hostmod_enum retval s w =
     do { c_free modules;
          (_, w) \<leftarrow> osd_hostmod_free (tr_enum_zmq env) hostmod_enum w;
          Some (retval, s, w) }"

definition is_osd_module :: "u16 \<Rightarrow> osd_module_desc \<Rightarrow> bool" where
  "is_osd_module type m \<longleftrightarrow> mod_vendor m = OSD_MODULE_VENDOR_OSD \<and> mod_type m = type"

text \<open>The loop over the modules; it ends with the first error.\<close>

primrec trace_modules ::
  "('f, 'e, 's, 'd, 'w) tr_env \<Rightarrow> tr_args \<Rightarrow> config \<Rightarrow> osd_module_desc list \<Rightarrow> tr_state \<Rightarrow> 'w \<Rightarrow> (osd_result \<times> tr_state \<times> 'w) option" where
  "trace_modules env a cfg [] s w = Some (OSD_OK, s, w)"
| "trace_modules env a cfg (m # ms) s w =
     do { (rv, s, w) \<leftarrow> (if tr_coretrace a \<and> is_osd_module OSD_MODULE_TYPE_STD_CTM m
                          then run_coretrace env a cfg (mod_addr m) s w else Some (OSD_OK, s, w));
          if OSD_FAILED rv then Some (rv, s, w)
          else do {
            (rv, s, w) \<leftarrow> (if tr_systrace a \<and> is_osd_module OSD_MODULE_TYPE_STD_STM m
                            then run_systrace env cfg (mod_addr m) s w else Some (OSD_OK, s, w));
            if OSD_FAILED rv then Some (rv, s, w) else trace_modules env a cfg ms s w } }"

text \<open>
  A failure to create or connect the host module jumps over the declaration of \<^verbatim>\<open>modules\<close>. Errors of the trace loggers
  and of disconnecting return at once, without freeing anything.
\<close>

definition run_tracing ::
  "('f, 'e, 's, 'd, 'w) tr_env \<Rightarrow> tr_args \<Rightarrow> config \<Rightarrow> tr_state \<Rightarrow> 'w \<Rightarrow> (osd_result \<times> tr_state \<times> 'w) option" where
  "run_tracing env a cfg s w =
     do { (r, w) \<leftarrow> osd_hostmod_new (tr_enum_zmq env) (tr_uninit env) w;
          (case r of
             Inl rv \<Rightarrow> free_enum env Uninit None rv s w
           | Inr h \<Rightarrow>
               do { (rv, h, w) \<leftarrow> osd_hostmod_connect (tr_enum_zmq env) h w;
                    if OSD_FAILED rv then free_enum env Uninit (Some h) rv s w
                    else do {
                      (rv, mods, w) \<leftarrow> osd_hostmod_get_modules (tr_enum_zmq env) h (of_nat DEVICE_SUBNET_ADDRESS) w;
                      if OSD_FAILED rv then free_enum env Initialised (Some h) rv s w
                      else do {
                        mods \<leftarrow> mods;
                        (rv, s, w) \<leftarrow> trace_modules env a cfg mods s w;
                        if OSD_FAILED rv then Some (rv, s, w)
                        else do {
                          (rv, h, w) \<leftarrow> osd_hostmod_disconnect (tr_enum_zmq env) h w;
                          if OSD_FAILED rv then Some (rv, s, w)
                          else free_enum env Initialised (Some h) OSD_OK s w } } } }) }"

text \<open>The first module that is a UART gets the terminal.\<close>

primrec start_terminal ::
  "('f, 'e, 's, 'd, 'w) tr_env \<Rightarrow> config \<Rightarrow> osd_module_desc list \<Rightarrow> tr_state \<Rightarrow> 'w \<Rightarrow> (osd_result \<times> tr_state \<times> 'w) option" where
  "start_terminal env cfg [] s w = Some (OSD_OK, s, w)"
| "start_terminal env cfg (m # ms) s w =
     (if \<not> is_osd_module OSD_MODULE_TYPE_STD_DEM_UART m then start_terminal env cfg ms s w
      else (let z = tr_term_zmq env
            in do { (r, w) \<leftarrow> osd_terminal_new z (tr_uninit env) (mod_addr m) w;
                    (case r of
                       Inl rv \<Rightarrow> Some (rv, s, tr_log env cfg LOG_CRIT (''osd_terminal_new() failed with code: '' @ fmt_d rv) w)
                     | Inr t \<Rightarrow>
                         do { (rv, t, w) \<leftarrow> osd_terminal_connect z t w;
                              if OSD_FAILED rv then
                                do { let w = tr_log env cfg LOG_CRIT (''osd_terminal_connect() failed with code: '' @ fmt_d rv) w;
                                     (t, w) \<leftarrow> (if rv \<noteq> OSD_ERROR_CONNECTION_FAILED
                                               then do { (_, t, w) \<leftarrow> osd_terminal_disconnect z t w; Some (t, w) }
                                               else Some (t, w));
                                     (_, w) \<leftarrow> osd_terminal_free z (Some t) w;
                                     Some (rv, s\<lparr>tr_terminal_ctx := None\<rparr>, w) }
                              else do {
                                (rv, t, w) \<leftarrow> osd_terminal_start z (tr_tty env) t w;
                                if OSD_FAILED rv then
                                  do { let w = tr_log env cfg LOG_CRIT (''osd_terminal_start() failed with code: '' @ fmt_d rv) w;
                                       (_, t, w) \<leftarrow> osd_terminal_disconnect z t w;
                                       (_, w) \<leftarrow> osd_terminal_free z (Some t) w;
                                       Some (rv, s\<lparr>tr_terminal_ctx := None\<rparr>, w) }
                                else Some (OSD_OK, s\<lparr>tr_terminal_ctx := Some t\<rparr>, w) } }) }))"

text \<open>
  The modules are not initialised before the enumeration stores them. An error of the terminal leads to
  \<^verbatim>\<open>free_return\<close> with a host module that is still connected.
\<close>

definition run_terminal ::
  "('f, 'e, 's, 'd, 'w) tr_env \<Rightarrow> tr_args \<Rightarrow> config \<Rightarrow> tr_state \<Rightarrow> 'w \<Rightarrow> (osd_result \<times> tr_state \<times> 'w) option" where
  "run_terminal env a cfg s w =
     (if \<not> tr_terminal a then Some (OSD_OK, s, w)
      else do {
        (r, w) \<leftarrow> osd_hostmod_new (tr_enum_zmq env) (tr_uninit env) w;
        (case r of
           Inl rv \<Rightarrow> free_enum env Uninit None rv s w
         | Inr h \<Rightarrow>
             do { (rv, h, w) \<leftarrow> osd_hostmod_connect (tr_enum_zmq env) h w;
                  if OSD_FAILED rv then free_enum env Uninit (Some h) rv s w
                  else do {
                    (rv, mods, w) \<leftarrow> osd_hostmod_get_modules (tr_enum_zmq env) h (of_nat DEVICE_SUBNET_ADDRESS) w;
                    if OSD_FAILED rv then
                      free_enum env (case mods of None \<Rightarrow> Uninit | Some _ \<Rightarrow> Initialised) (Some h) rv s w
                    else do {
                      mods \<leftarrow> mods;
                      (rv, s, w) \<leftarrow> start_terminal env cfg mods s w;
                      if OSD_FAILED rv then free_enum env Initialised (Some h) rv s w
                      else do {
                        (rv, h, w) \<leftarrow> osd_hostmod_disconnect (tr_enum_zmq env) h w;
                        if OSD_FAILED rv then free_enum env Initialised (Some h) rv s w
                        else free_enum env Initialised (Some h) OSD_OK s w } } } }) })"

subsection \<open>Cleaning up\<close>

primrec free_stloggers ::
  "('f, 'e, 's, 'd, 'w) tr_env \<Rightarrow> osd_systracelogger_ctx list \<Rightarrow> 'w \<Rightarrow> 'w option" where
  "free_stloggers env [] w = Some w"
| "free_stloggers env (l # ls) w =
     do { let z = tr_st_zmq env (sl_stm_di_addr l);
          (_, w) \<leftarrow> osd_systracelogger_stop z l w;
          (_, l, w) \<leftarrow> osd_systracelogger_disconnect z l w;
          (_, fs, w) \<leftarrow> osd_systracelogger_free z (Some l) (tr_files env w) w;
          free_stloggers env ls (tr_put_files env fs w) }"

primrec free_ctloggers ::
  "('f, 'e, 's, 'd, 'w) tr_env \<Rightarrow> osd_coretracelogger_ctx list \<Rightarrow> 'w \<Rightarrow> 'w option" where
  "free_ctloggers env [] w = Some w"
| "free_ctloggers env (l # ls) w =
     do { let z = tr_ct_zmq env (ct_ctm_di_addr l);
          (_, w) \<leftarrow> osd_coretracelogger_stop z l w;
          (_, l, w) \<leftarrow> osd_coretracelogger_disconnect z l w;
          (_, w) \<leftarrow> osd_coretracelogger_free z (Some l) w;
          free_ctloggers env ls w }"

text \<open>The terminal is disconnected without having been stopped.\<close>

definition free_terminal ::
  "('f, 'e, 's, 'd, 'w) tr_env \<Rightarrow> config \<Rightarrow> osd_terminal_ctx option \<Rightarrow> int \<Rightarrow> 'w \<Rightarrow> (int \<times> 'w) option" where
  "free_terminal env cfg t exitcode w =
     (case t of
        None \<Rightarrow> Some (exitcode, w)
      | Some t \<Rightarrow>
          do { (rv, t, w) \<leftarrow> osd_terminal_disconnect (tr_term_zmq env) t w;
               let (exitcode, w) =
                 (if OSD_FAILED rv \<and> rv \<noteq> OSD_ERROR_NOT_CONNECTED
                  then (-1, tr_log env cfg LOG_CRIT ''Unable to shut down terminal'' w) else (exitcode, w));
               (_, w) \<leftarrow> osd_terminal_free (tr_term_zmq env) (Some t) w;
               Some (exitcode, w) })"

text \<open>The code after the label \<^verbatim>\<open>free_return\<close>. Gateway and controller are used although their pointers may be null.\<close>

definition tr_free_return ::
  "('f, 'e, 's, 'd, 'w) tr_env \<Rightarrow> config \<Rightarrow> int \<Rightarrow> tr_state \<Rightarrow> 'w \<Rightarrow> (int \<times> 'w) option" where
  "tr_free_return env cfg exitcode s w =
     do { (exitcode, w) \<leftarrow> free_terminal env cfg (tr_terminal_ctx s) exitcode
            (tr_log env cfg LOG_DEBUG ''Shutting down terminal'' w);
          w \<leftarrow> free_stloggers env (tr_stloggers s) (tr_log env cfg LOG_DEBUG ''Shutting down systrace loggers'' w);
          w \<leftarrow> free_ctloggers env (tr_ctloggers s) (tr_log env cfg LOG_DEBUG ''Shutting down core trace loggers'' w);
          let w = fold (tr_fclose env) (tr_open_files s) (tr_log env cfg LOG_DEBUG ''Closing open files'' w);
          let w = tr_log env cfg LOG_DEBUG ''Disconnecting gateway'' w;
          gw \<leftarrow> tr_gateway_ctx s;
          (rv, gw, w) \<leftarrow> osd_gateway_glip_disconnect (tr_gw_zmq env) (tr_rx env) (tr_glip env) gw w;
          let (exitcode, w) =
            (if OSD_FAILED rv \<and> rv \<noteq> OSD_ERROR_NOT_CONNECTED
             then (-1, tr_log env cfg LOG_CRIT (''Unable to GLIP device gateway ('' @ fmt_d rv @ '')'') w) else (exitcode, w));
          (_, w) \<leftarrow> osd_gateway_glip_free (tr_gw_zmq env) (tr_glip env) (Some gw) w;
          let w = tr_log env cfg LOG_DEBUG ''Stopping host controller'' w;
          hc \<leftarrow> tr_hostctrl_ctx s;
          (rv, hc, w) \<leftarrow> osd_hostctrl_stop (tr_hc_zmq env) hc w;
          let (exitcode, w) =
            (if OSD_FAILED rv \<and> rv \<noteq> OSD_ERROR_NOT_CONNECTED
             then (-1, tr_log env cfg LOG_CRIT (''Unable to stop host controller ('' @ fmt_d rv @ '')'') w) else (exitcode, w));
          (_, w) \<leftarrow> osd_hostctrl_free (tr_hc_zmq env) (Some hc) w;
          Some (exitcode, w) }"

subsection \<open>The program\<close>

text \<open>Each memory is loaded with the ELF file; an error is only logged.\<close>

primrec load_memories ::
  "('f, 'e, 's, 'd, 'w) tr_env \<Rightarrow> tr_args \<Rightarrow> config \<Rightarrow> osd_memaccess_ctx \<Rightarrow> osd_mem_desc list \<Rightarrow> 'w \<Rightarrow> 'w option" where
  "load_memories env a cfg ma [] w = Some w"
| "load_memories env a cfg ma (m # ms) w =
     do { let w = tr_log env cfg LOG_INFO (''Loading memory at DI address '' @ fmt_u (unat (mem_di_addr m)) @ '' with ELF file ''
            @ tr_elf_file a @ (if tr_verify_memload a then '' (verifying write through readback)'' else '' (not verifying write)'')) w;
          (rv, w) \<leftarrow> osd_memaccess_loadelf (tr_elf env) (tr_ma_zmq env) (tr_junk env) ma m (tr_elf_file a) (tr_verify_memload a) w;
          let w = (if OSD_FAILED rv
            then tr_log env cfg LOG_ERR (''Unable to load memory at DI address '' @ fmt_u (unat (mem_di_addr m)) @ '' ('' @ fmt_d rv
              @ '')'') w
            else w);
          load_memories env a cfg ma ms w }"

text \<open>From finding the memories to waiting for the user; the result is the exit code.\<close>

definition load_and_go ::
  "('f, 'e, 's, 'd, 'w) tr_env \<Rightarrow> tr_args \<Rightarrow> config \<Rightarrow> osd_memaccess_ctx \<Rightarrow> 'w \<Rightarrow> (int \<times> 'w) option" where
  "load_and_go env a cfg ma w =
     do { let subnet = of_nat DEVICE_SUBNET_ADDRESS;
          let w = tr_log env cfg LOG_INFO ''Loading memories ...'' w;
          (rv, mems, w) \<leftarrow> osd_memaccess_find_memories (tr_ma_zmq env) ma subnet w;
          if OSD_FAILED rv then
            Some (-1, tr_log env cfg LOG_CRIT (''Unable to enumerate memories on target ('' @ fmt_d rv @ '')'') w)
          else do {
            mems \<leftarrow> mems;
            w \<leftarrow> load_memories env a cfg ma mems w;
            (r, w) \<leftarrow> osd_memaccess_cpus_start (tr_ma_zmq env) ma subnet (tr_log env cfg LOG_INFO ''Starting all CPUs'' w);
            (case r of
               Inl rv \<Rightarrow> Some (-1, tr_log env cfg LOG_CRIT (''Unable to start CPUs on target ('' @ fmt_d rv @ '')'') w)
             | Inr _ \<Rightarrow>
                 do { (rv, ma, w) \<leftarrow> osd_memaccess_disconnect (tr_ma_zmq env) ma w;
                      let w = (if OSD_FAILED rv
                        then tr_log env cfg LOG_ERR (''Unable to disconnect memory access tool ('' @ fmt_d rv @ ''). Ignoring.'') w
                        else w);
                      (_, w) \<leftarrow> osd_memaccess_free (tr_ma_zmq env) (Some ma) w;
                      if tr_coretrace a \<or> tr_systrace a then
                        do { w \<leftarrow> wait_for_signal (tr_os env)
                               (tr_log env cfg LOG_INFO ''System is now running. Press CTRL-C to end tracing.'' w);
                             Some (0, tr_log env cfg LOG_INFO ''Shutdown signal received, cleaning up.'' w) }
                      else Some (0, w) }) } }"

text \<open>What follows once the CPUs are stopped.\<close>

definition with_stopped_cpus ::
  "('f, 'e, 's, 'd, 'w) tr_env \<Rightarrow> tr_args \<Rightarrow> config \<Rightarrow> osd_memaccess_ctx \<Rightarrow> tr_state \<Rightarrow> 'w \<Rightarrow> (int \<times> 'w) option" where
  "with_stopped_cpus env a cfg ma s w =
     do { (rv, s, w) \<leftarrow> run_tracing env a cfg s (tr_log env cfg LOG_INFO ''Setting up tracing'' w);
          if OSD_FAILED rv then tr_free_return env cfg (-1) s w
          else do {
            (rv, s, w) \<leftarrow> run_terminal env a cfg s (tr_log env cfg LOG_INFO ''Setting up terminal'' w);
            if OSD_FAILED rv then tr_free_return env cfg (-1) s w
            else do {
              (exitcode, w) \<leftarrow> load_and_go env a cfg ma w;
              tr_free_return env cfg exitcode s w } } }"

definition tr_run ::
  "('f, 'e, 's, 'd, 'w) tr_env \<Rightarrow> tr_args \<Rightarrow> config \<Rightarrow> 'w \<Rightarrow> (int \<times> 'w) option" where
  "tr_run env a cfg w =
     do { let w = zsys_init (tr_os env) w;
          (rv, s, w) \<leftarrow> run_hostctrl env cfg tr_init w;
          if OSD_FAILED rv then tr_free_return env cfg (-1) s w
          else do {
            (rv, s, w) \<leftarrow> run_gateway_glip env a cfg s w;
            if OSD_FAILED rv then tr_free_return env cfg (-1) s w
            else do {
              (ma, w) \<leftarrow> osd_memaccess_new (tr_ma_zmq env) (tr_uninit env) w;
              (rv, ma, w) \<leftarrow> osd_memaccess_connect (tr_ma_zmq env) ma w;
              if OSD_FAILED rv then tr_free_return env cfg (-1) s w
              else do {
                (r, w) \<leftarrow> osd_memaccess_cpus_stop (tr_ma_zmq env) ma (of_nat DEVICE_SUBNET_ADDRESS)
                  (tr_log env cfg LOG_INFO ''Stopping all CPUs in the system'' w);
                (case r of
                   Inl rv \<Rightarrow> tr_free_return env cfg (-1) s
                     (tr_log env cfg LOG_CRIT (''Unable to stop CPUs on target ('' @ fmt_d rv @ '')'') w)
                 | Inr _ \<Rightarrow>
                     with_stopped_cpus env a cfg ma s w) } } } }"

definition tr_main ::
  "('f, 'e, 's, 'd, 'w) tr_env \<Rightarrow> cli_env \<Rightarrow> string list \<Rightarrow> 'w \<Rightarrow> (int \<times> cli_io \<times> 'w) option" where
  "tr_main env cli argv w = tool_main (tr_os env) cli tr_setup (\<lambda>table. tr_run env (tr_args_of table)) argv w"

section \<open>File names\<close>

lemma length_fmt_04d: "length (fmt_04d a) = 4"
proof -
  have "unat (osd_diaddr_localaddr (ucast a)) < 10 ^ 4" using mod_less_divisor [of 1024 "unat (ucast a :: u32)"] by (simp add: unat_localaddr del: mod_less_divisor)
  then have "length (digits_base 10 (unat (osd_diaddr_localaddr (ucast a)))) \<le> 4" by (intro length_digits_base) simp_all
  then show ?thesis by (simp add: fmt_04d_def zero_pad_def fmt_u_def)
qed

lemma digits_val_zeros: "digits_val (replicate k (CHR ''0'') @ s) = digits_val s"
  by (induction k) (simp_all add: digits_val_def digit_val_def)

lemma fmt_04d_inject: "fmt_04d a = fmt_04d b \<longleftrightarrow> unat a mod 1024 = unat b mod 1024"
proof
  assume "fmt_04d a = fmt_04d b"
  then have "digits_val (fmt_04d a) = digits_val (fmt_04d b)" by simp
  then show "unat a mod 1024 = unat b mod 1024"
    by (simp add: fmt_04d_def zero_pad_def fmt_u_def digits_val_zeros digits_val_digits_base unat_localaddr unsigned_ucast_eq
        take_bit_nat_eq_self)
next
  assume "unat a mod 1024 = unat b mod 1024"
  then show "fmt_04d a = fmt_04d b"
    by (simp add: fmt_04d_def unat_localaddr unsigned_ucast_eq take_bit_nat_eq_self)
qed

text \<open>
  The names of the log files fit the buffers they are printed to, for every address: nothing is cut off, no
  two of the three kinds of files share a name, and the files of two modules have the same name only if the modules have the
  same address in their subnet.
\<close>

theorem log_file_names:
  "systrace_log_filename_event a = ''systrace.'' @ fmt_04d a @ ''.log''
   \<and> systrace_log_filename_sysprint a = ''systrace.print.'' @ fmt_04d a @ ''.log''
   \<and> coretrace_log_filename a = ''coretrace.'' @ fmt_04d a @ ''.log''
   \<and> distinct [systrace_log_filename_event a, systrace_log_filename_sysprint b, coretrace_log_filename c]
   \<and> (systrace_log_filename_event a = systrace_log_filename_event b \<longleftrightarrow> unat a mod 1024 = unat b mod 1024)
   \<and> (systrace_log_filename_sysprint a = systrace_log_filename_sysprint b \<longleftrightarrow> unat a mod 1024 = unat b mod 1024)
   \<and> (coretrace_log_filename a = coretrace_log_filename b \<longleftrightarrow> unat a mod 1024 = unat b mod 1024)"
proof -
  have n: "systrace_log_filename_event a = ''systrace.'' @ fmt_04d a @ ''.log''"
    "systrace_log_filename_sysprint a = ''systrace.print.'' @ fmt_04d a @ ''.log''"
    "coretrace_log_filename a = ''coretrace.'' @ fmt_04d a @ ''.log''" for a
    by (simp_all add: systrace_log_filename_event_def systrace_log_filename_sysprint_def coretrace_log_filename_def snprintf_def
        length_fmt_04d)
  have "length (systrace_log_filename_event a) = 17" "length (systrace_log_filename_sysprint b) = 23"
     "length (coretrace_log_filename c) = 18"
    by (simp_all add: n length_fmt_04d)
  then have "distinct [systrace_log_filename_event a, systrace_log_filename_sysprint b, coretrace_log_filename c]" by auto
  then show ?thesis using fmt_04d_inject by (simp add: n)
qed

section \<open>Errors\<close>

lemma bind_None [simp]: "Option.bind x (\<lambda>_. None) = None" "Option.bind y (\<lambda>(a, b). None) = None"
  by (cases x, simp_all) (cases y, auto)

lemma free_return_without_gateway:
  assumes "tr_gateway_ctx s = None"
  shows "tr_free_return env cfg e s w = None"
  using assms by (simp add: tr_free_return_def Let_def split_beta)

lemma free_enum_connected:
  assumes "hm_is_connected h"
  shows "free_enum env m (Some h) rv s w = None"
  using assms by (cases m) (simp_all add: free_enum_def osd_hostmod_free_def c_free_def)

text \<open>Whenever the gateway has not been created, the program ends by dereferencing its null pointer.\<close>

theorem target_run_without_gateway:
  assumes "run_hostctrl env cfg tr_init (zsys_init (tr_os env) w) = Some (rv, s, w1)"
    and "OSD_FAILED rv \<or> fst (glip_parse_option_string (tr_os env) (tr_glip_backend_options a) w1) \<noteq> 0"
  shows "tr_run env a cfg w = None"
proof -
  have s: "tr_gateway_ctx s = None"
    using assms(1) by (auto simp: run_hostctrl_def tr_init_def Let_def split: bind_splits sum.splits if_splits)
  show ?thesis
    using assms free_return_without_gateway [OF s]
    by (cases "glip_parse_option_string (tr_os env) (tr_glip_backend_options a) w1")
      (auto simp: tr_run_def run_gateway_glip_def Let_def)
qed

lemma terminal_returns_ok:
  assumes "run_terminal env a cfg s w = Some (rv, s', w')"
  shows "rv = OSD_OK"
proof (cases "tr_terminal a")
  case True
  have conn: "hm_is_connected h2" if "osd_hostmod_connect z h1 w1 = Some (v, h2, w2)" "\<not> OSD_FAILED v" for z h1 w1 v h2 w2
    using that by (auto simp: osd_hostmod_connect_def split: bind_splits sum.splits if_splits)
  have disc: "hm_is_connected h2" if "osd_hostmod_disconnect z h1 w1 = Some (v, h2, w2)" "OSD_FAILED v" "hm_is_connected h1" for z h1 w1 v h2 w2
    using that by (auto simp: osd_hostmod_disconnect_def split: bind_splits sum.splits if_splits)
  have unin: "free_enum env Uninit x v s1 w1 = None" for x v s1 w1 by (simp add: free_enum_def c_free_def)
  have ok: "v = r" if "free_enum env m (Some h) v s1 w1 = Some (r, s2, w2)" for m h v s1 w1 r s2 w2
    using that by (auto simp: free_enum_def split: bind_splits)
  show ?thesis
    using assms True
    by (auto simp: run_terminal_def unin free_enum_connected split: bind_splits sum.splits if_splits
        dest!: conn disc ok)
qed (use assms in \<open>simp add: run_terminal_def\<close>)

text \<open>
  Errors while the terminal is set up are fatal: \<^verbatim>\<open>run_terminal\<close> never returns an error code. Every error after the host
  module for the enumeration is connected leads to freeing this module while it is connected, which fails an assertion,
  and an earlier one to freeing the uninitialised list of modules.
\<close>

theorem terminal_errors_abort:
  "run_terminal env a cfg s w = None \<or> (\<exists>s' w'. run_terminal env a cfg s w = Some (OSD_OK, s', w'))"
  using terminal_returns_ok [of env a cfg s w] by (cases "run_terminal env a cfg s w") auto

section \<open>A working target\<close>

text \<open>
  \<open>quiet P regs mem R M\<close>: the worlds in \<open>P\<close> with the given registers and contents of the memories. What does not concern the
  device keeps both.
\<close>

definition quiet ::
  "('w \<Rightarrow> bool) \<Rightarrow> ('w \<Rightarrow> u16 \<times> u16 \<Rightarrow> u16) \<Rightarrow> ('w \<Rightarrow> u32 \<Rightarrow> nat \<Rightarrow> u8) \<Rightarrow> (u16 \<times> u16 \<Rightarrow> u16) \<Rightarrow> (u32 \<Rightarrow> nat \<Rightarrow> u8) \<Rightarrow> 'w \<Rightarrow> bool" where
  "quiet P regs mem R M w \<longleftrightarrow> P w \<and> regs w = R \<and> mem w = M"

definition target_env ::
  "('f, 'e, 's, 'd, 'w) tr_env \<Rightarrow> tr_args \<Rightarrow> ('w \<Rightarrow> bool) \<Rightarrow> ('w \<Rightarrow> u16 \<times> u16 \<Rightarrow> u16) \<Rightarrow> ('w \<Rightarrow> u32 \<Rightarrow> nat \<Rightarrow> u8) \<Rightarrow> bool" where
  "target_env env a P regs mem \<longleftrightarrow>
     (\<forall>R M. (\<forall>z \<in> {tr_hc_zmq env, tr_gw_zmq env, tr_ma_zmq env, tr_enum_zmq env}. \<exists>q. worker_env z q (quiet P regs mem R M))
        \<and> gateway_env (tr_gw_zmq env) (tr_rx env) (tr_glip env) (quiet P regs mem R M)
        \<and> tool_env (tr_os env) (quiet P regs mem R M)
        \<and> (\<forall>w. quiet P regs mem R M w \<longrightarrow> returns (\<lambda>r. r = 0) (quiet P regs mem R M)
             (glip_parse_option_string (tr_os env) (tr_glip_backend_options a) w)))"

text \<open>
  The device, seen by every connected host module: register accesses leave the memories alone, and a memory is accessible
  while the CPUs are held in reset. Accesses to it leave the registers and the other memories alone.
\<close>

definition cpus_stopped :: "(u16 \<times> u16 \<Rightarrow> u16) \<Rightarrow> bool" where
  "cpus_stopped R \<longleftrightarrow> bit (R (0, OSD_REG_SCM_SYSRST)) OSD_REG_SCM_SYSRST_CPU_RST_BIT"

definition target_device ::
  "('f, 'e, 's, 'd, 'w) tr_env \<Rightarrow> ('w \<Rightarrow> bool) \<Rightarrow> ('w \<Rightarrow> u16 \<times> u16 \<Rightarrow> u16) \<Rightarrow> ('w \<Rightarrow> u32 \<Rightarrow> nat \<Rightarrow> u8) \<Rightarrow> osd_mem_desc set \<Rightarrow> bool" where
  "target_device env P regs mem descs \<longleftrightarrow>
     (\<forall>h. ready h \<longrightarrow>
        (\<forall>M. device_ok (tr_ma_zmq env) h regs (\<lambda>w. P w \<and> mem w = M) \<and> device_ok (tr_enum_zmq env) h regs (\<lambda>w. P w \<and> mem w = M))
      \<and> (\<forall>R M. \<forall>desc \<in> descs. cpus_stopped R \<longrightarrow>
           mam_device (tr_ma_zmq env) desc h (\<lambda>w. mem w (mem_di_addr desc))
             (\<lambda>w. P w \<and> regs w = R \<and> (\<forall>b. b \<noteq> mem_di_addr desc \<longrightarrow> mem w b = M b))))"

text \<open>The memories after loading the segments into each of them.\<close>

definition load_all :: "segment list \<Rightarrow> osd_mem_desc list \<Rightarrow> (u32 \<Rightarrow> nat \<Rightarrow> u8) \<Rightarrow> u32 \<Rightarrow> nat \<Rightarrow> u8" where
  "load_all segs ds M = fold (\<lambda>d M. M(mem_di_addr d := foldl load_segment (M (mem_di_addr d)) segs)) ds M"

lemma run_hostctrl_env:
  assumes "worker_env (tr_hc_zmq env) q Q" "tool_env (tr_os env) Q" "Q w"
  shows "\<exists>c w'. run_hostctrl env cfg s w = Some (OSD_OK, s\<lparr>tr_hostctrl_ctx := Some c\<rparr>, w') \<and> Q w'
     \<and> hc_is_running c \<and> hc_ioworker_ctx c"
proof -
  obtain c0 w1 c w2 where
    1: "osd_hostctrl_new (tr_hc_zmq env) (tr_uninit env) HOSTCTRL_EP w = Some (Inr (c0, hc_usr_init HOSTCTRL_EP), w1)"
      "osd_hostctrl_start (tr_hc_zmq env) c0 w1 = Some (OSD_OK, c, w2)" "Q w2" "hc_is_running c" "hc_ioworker_ctx c"
    using hostctrl_start_env [OF assms(1,3), of "tr_uninit env" HOSTCTRL_EP] by (elim exE conjE)
  have "Q (tr_log env cfg LOG_DEBUG (''Host controller up and running, listening at '' @ HOSTCTRL_EP @ '' for connections'') w2)"
    by (rule tool_log_env [OF assms(2) 1(3)])
  then show ?thesis using 1 by (intro exI [of _ c] exI) (simp add: run_hostctrl_def)
qed

lemma run_gateway_env:
  assumes "worker_env (tr_gw_zmq env) q Q" "gateway_env (tr_gw_zmq env) (tr_rx env) (tr_glip env) Q" "Q w"
    and "returns (\<lambda>r. r = 0) Q (glip_parse_option_string (tr_os env) (tr_glip_backend_options a) w)"
  shows "\<exists>g w'. run_gateway_glip env a cfg s w = Some (OSD_OK, s\<lparr>tr_gateway_ctx := Some g\<rparr>, w') \<and> Q w'
     \<and> gw_ioworker_ctx (gg_gw_ctx g)"
proof -
  let ?be = "tr_glip_backend a"
  obtain r w1 where 1: "glip_parse_option_string (tr_os env) (tr_glip_backend_options a) w = (r, w1)" "r = 0" "Q w1"
    using assms(4) by (rule returnsE)
  obtain g u w2 where 2: "osd_gateway_glip_new (tr_gw_zmq env) (tr_glip env) (tr_uninit env) (tool_log_ctx (tr_os env) cfg)
      HOSTCTRL_EP (of_nat DEVICE_SUBNET_ADDRESS) ?be w1 = Some (Inr (g, u), w2)" "Q w2" "gw_ioworker_ctx (gg_gw_ctx g)"
      "\<not> is_connected_to_hostctrl (gg_gw_ctx g)" "\<not> is_connected_to_device (gg_gw_ctx g)" "\<not> device_disconnect_detected (gg_gw_ctx g)"
    using gateway_new_env [OF assms(1,2) 1(3), of "tr_uninit env" "tool_log_ctx (tr_os env) cfg" HOSTCTRL_EP "of_nat DEVICE_SUBNET_ADDRESS" ?be]
    by (elim exE conjE)
  obtain g' w3 where "osd_gateway_glip_connect (tr_gw_zmq env) (tr_rx env) (tr_glip env) g w2 = Some (OSD_OK, g', w3)" "Q w3"
      "gw_ioworker_ctx (gg_gw_ctx g')"
    using gateway_connect_env [OF assms(1,2) 2(2-6)] by blast
  then show ?thesis using 1 2 by (intro exI [of _ g'] exI) (simp add: run_gateway_glip_def Let_def)
qed

text \<open>A host module that is connected, and one that is disconnected and freed.\<close>

lemma hostmod_connect_env:
  assumes "worker_env z q Q" "Q w"
  shows "\<exists>h0 w1 h w2. osd_hostmod_new z uninit w = Some (Inr h0, w1) \<and> osd_hostmod_connect z h0 w1 = Some (OSD_OK, h, w2)
     \<and> Q w2 \<and> ready h"
proof -
  let ?h = "\<lparr>hm_is_connected = False, hm_diaddr = 0, hm_ioworker_ctx = True\<rparr>"
  obtain w1 where 1: "osd_hostmod_new z uninit w = Some (Inr ?h, w1)" "Q w1"
    using worker_new_env [OF assms, of uninit] by (auto simp: osd_hostmod_new_def)
  obtain w2 v w3 where "worker_send_status z Inproc_main ''I-CONNECT'' 0 w1 = Some w2"
    "worker_wait_for_status z Inproc_main ''I-CONNECT-DONE'' w2 = Some (Inr v, w3)" "0 \<le> v" "Q w3"
    using request_answered [OF assms(1) 1(2), of "''I-CONNECT''"] by auto
  then have "osd_hostmod_connect z ?h w1 = Some (OSD_OK, ?h\<lparr>hm_diaddr := word_of_int v, hm_is_connected := True\<rparr>, w3)"
    by (simp add: osd_hostmod_connect_def)
  then show ?thesis using 1(1) \<open>Q w3\<close> by (force simp: ready_def)
qed

lemma hostmod_disconnect_env:
  assumes "worker_env z q Q" "Q w" "ready h"
  shows "\<exists>h' w1 w2. osd_hostmod_disconnect z h w = Some (OSD_OK, h', w1) \<and> Q w1
     \<and> osd_hostmod_free z (Some h') w1 = Some (None, w2) \<and> Q w2"
proof -
  let ?h = "h\<lparr>hm_is_connected := False\<rparr>"
  obtain w1 where 1: "osd_hostmod_disconnect z h w = Some (OSD_OK, ?h, w1)" "Q w1"
    using request_answered [OF assms(1,2), of "''I-DISCONNECT''"] assms(3)
    by (auto simp: osd_hostmod_disconnect_def ready_def osd_codes)
  obtain w2 where "osd_hostmod_free z (Some ?h) w1 = Some (None, w2)" "Q w2"
    using worker_free_env [OF assms(1) 1(2), of "hm_ioworker_ctx h"] by (auto simp: osd_hostmod_free_def)
  then show ?thesis using 1 by blast
qed

text \<open>Starting and stopping the CPUs of subnet 0.\<close>

lemma cpu_reset_device:
  assumes "device_ok z h regs Q" "Q w"
  shows "\<exists>w'. (if stop then osd_cl_scm_cpus_stop z h 0 w else osd_cl_scm_cpus_start z h 0 w) = Some (Inr (), w') \<and> Q w'
     \<and> regs w' = (regs w)((0, OSD_REG_SCM_SYSRST) := (if stop then set_bit else unset_bit) OSD_REG_SCM_SYSRST_CPU_RST_BIT
          (regs w (0, OSD_REG_SCM_SYSRST)))"
proof -
  have "OSD_REG_SCM_SYSRST_CPU_RST_BIT < 16" by (simp add: OSD_REG_SCM_SYSRST_CPU_RST_BIT_def)
  from reg_setbit_device [OF assms this, of stop 0 OSD_REG_SCM_SYSRST 16 OSD_HOSTMOD_BLOCKING] show ?thesis
    using scm_diaddr [of 0]
    by (cases stop) (auto simp: osd_cl_scm_cpus_stop_def osd_cl_scm_cpus_start_def)
qed

text \<open>What the registers say about the modules and the memories.\<close>

definition modules :: "(u16 \<times> u16 \<Rightarrow> u16) \<Rightarrow> osd_module_desc list" where
  "modules R = map (\<lambda>i. desc_of R (of_nat i)) [0..<unat (R (0, OSD_REG_SCM_NUM_MOD))]"

definition memories :: "(u16 \<times> u16 \<Rightarrow> u16) \<Rightarrow> osd_mem_desc list" where
  "memories R = map (\<lambda>m. mem_desc_of R (mod_addr m)) (filter is_supported_mam (modules R))"

definition modules_ok :: "(u16 \<times> u16 \<Rightarrow> u16) \<Rightarrow> bool" where
  "modules_ok R \<longleftrightarrow> unat (R (0, OSD_REG_SCM_NUM_MOD)) \<le> 1024
     \<and> (\<forall>a. unat a < unat (R (0, OSD_REG_SCM_NUM_MOD)) \<longrightarrow>
          osd_module_get_type_short_name (ucast (R (a, OSD_REG_BASE_MOD_VENDOR))) (ucast (R (a, OSD_REG_BASE_MOD_TYPE))) \<noteq> None)
     \<and> (\<forall>m \<in> set (modules R). is_supported_mam m \<longrightarrow> (ucast (R (mod_addr m, OSD_REG_MAM_REGIONS)) :: u8) \<le> 8)
     \<and> (\<forall>d \<in> set (memories R). valid_mem d)"

lemma trace_modules_off:
  "\<not> tr_coretrace a \<Longrightarrow> \<not> tr_systrace a \<Longrightarrow> trace_modules env a cfg ms s w = Some (OSD_OK, s, w)"
  by (induction ms) simp_all

lemma get_modules_quiet:
  assumes "device_ok z h regs (\<lambda>w. P w \<and> mem w = M)" "quiet P regs mem R M w" "modules_ok R"
  shows "\<exists>w'. osd_hostmod_get_modules z h 0 w = Some (OSD_OK, Some (modules R), w') \<and> quiet P regs mem R M w'"
proof -
  have w: "P w \<and> mem w = M" "regs w = R" using assms(2) by (simp_all add: quiet_def)
  have "unat (regs w (0, OSD_REG_SCM_NUM_MOD)) \<le> 1024"
    "\<And>a. unat a < unat (regs w (0, OSD_REG_SCM_NUM_MOD)) \<Longrightarrow> osd_module_get_type_short_name
            (ucast (regs w (a, OSD_REG_BASE_MOD_VENDOR))) (ucast (regs w (a, OSD_REG_BASE_MOD_TYPE))) \<noteq> None"
    using assms(3) w(2) unfolding modules_ok_def by blast+
  from get_modules_device [OF assms(1) w(1) this] show ?thesis unfolding w(2) modules_def quiet_def by blast
qed

lemma run_tracing_off:
  assumes W: "worker_env (tr_enum_zmq env) q (quiet P regs mem R M)"
    and D: "\<And>h. ready h \<Longrightarrow> device_ok (tr_enum_zmq env) h regs (\<lambda>w. P w \<and> mem w = M)"
    and w: "quiet P regs mem R M w" "modules_ok R" and off: "\<not> tr_coretrace a" "\<not> tr_systrace a"
  shows "\<exists>w'. run_tracing env a cfg s w = Some (OSD_OK, s, w') \<and> quiet P regs mem R M w'"
proof -
  let ?z = "tr_enum_zmq env"
  obtain h0 w1 h w2 where 1: "osd_hostmod_new ?z (tr_uninit env) w = Some (Inr h0, w1)"
    "osd_hostmod_connect ?z h0 w1 = Some (OSD_OK, h, w2)" "quiet P regs mem R M w2" "ready h"
    using hostmod_connect_env [OF W w(1), of "tr_uninit env"] by (elim exE conjE)
  obtain w3 where 2: "osd_hostmod_get_modules ?z h 0 w2 = Some (OSD_OK, Some (modules R), w3)" "quiet P regs mem R M w3"
    using get_modules_quiet [OF D [OF 1(4)] 1(3) w(2)] by blast
  obtain h' w4 w5 where 3: "osd_hostmod_disconnect ?z h w3 = Some (OSD_OK, h', w4)"
     "osd_hostmod_free ?z (Some h') w4 = Some (None, w5)" "quiet P regs mem R M w5"
    using hostmod_disconnect_env [OF W 2(2) 1(4)] by blast
  show ?thesis
    using 1 2 3 by (auto simp: run_tracing_def DEVICE_SUBNET_ADDRESS_def free_enum_def c_free_def trace_modules_off [OF off])
qed

lemma find_memories_quiet:
  assumes D: "device_ok z (ma_hostmod_ctx ma) regs (\<lambda>w. P w \<and> mem w = M)" and w: "quiet P regs mem R M w" "modules_ok R"
  shows "\<exists>w'. osd_memaccess_find_memories z ma 0 w = Some (OSD_OK, Some (memories R), w') \<and> quiet P regs mem R M w'"
proof -
  obtain w1 where 1: "osd_hostmod_get_modules z (ma_hostmod_ctx ma) 0 w = Some (OSD_OK, Some (modules R), w1)"
    "quiet P regs mem R M w1" using get_modules_quiet [OF D w] by blast
  have w1: "P w1 \<and> mem w1 = M" "regs w1 = R" using 1(2) by (simp_all add: quiet_def)
  let ?n = "length (filter is_supported_mam (modules R))"
  have "\<And>m. m \<in> set (modules R) \<Longrightarrow> is_supported_mam m \<Longrightarrow> (ucast (regs w1 (mod_addr m, OSD_REG_MAM_REGIONS)) :: u8) \<le> 8"
    using w(2) w1(2) by (simp add: modules_ok_def)
  from find_memories_loop_device [OF D w1(1) this, where mods = "modules R" and mems = "replicate ?n zero_mem_desc" and nr = 0] show ?thesis
    using 1(1) w1(2) by (auto simp: osd_memaccess_find_memories_def memories_def quiet_def Let_def)
qed

lemma load_all_Cons:
  "load_all segs (d # ds) M = load_all segs ds (M(mem_di_addr d := foldl load_segment (M (mem_di_addr d)) segs))"
  by (simp add: load_all_def)

lemma load_memories_quiet:
  assumes T: "\<And>R M. tool_env (tr_os env) (quiet P regs mem R M)"
    and D: "target_device env P regs mem descs" "ready (ma_hostmod_ctx ma)" "cpus_stopped R"
    and E: "elf_holds (tr_elf env) (tr_elf_file a) segs"
  shows "set ds \<subseteq> descs \<Longrightarrow> \<forall>d \<in> set ds. valid_mem d \<and> (\<forall>sg \<in> set segs. seg_ok d sg) \<Longrightarrow> quiet P regs mem R M w
    \<Longrightarrow> \<exists>w'. load_memories env a cfg ma ds w = Some w' \<and> quiet P regs mem R (load_all segs ds M) w'"
proof (induction ds arbitrary: M w)
  case (Cons d ds)
  let ?m1 = "''Loading memory at DI address '' @ fmt_u (unat (mem_di_addr d)) @ '' with ELF file ''
      @ tr_elf_file a @ (if tr_verify_memload a then '' (verifying write through readback)'' else '' (not verifying write)'')"
  let ?w = "tr_log env cfg LOG_INFO ?m1 w"
  let ?M = "M(mem_di_addr d := foldl load_segment (M (mem_di_addr d)) segs)"
  let ?P = "\<lambda>w. P w \<and> regs w = R \<and> (\<forall>b. b \<noteq> mem_di_addr d \<longrightarrow> mem w b = M b)"
  have w: "quiet P regs mem R M ?w" by (rule tool_log_env [OF T Cons.prems(3)])
  then have Pw: "?P ?w" "mem ?w = M" by (simp_all add: quiet_def)
  have dev: "mam_device (tr_ma_zmq env) d (ma_hostmod_ctx ma) (\<lambda>w. mem w (mem_di_addr d)) ?P"
  proof -
    have d: "d \<in> descs" using Cons.prems(1) by simp
    show ?thesis using D(1) [unfolded target_device_def, rule_format, OF D(2), THEN conjunct2, rule_format, OF d D(3), of M] .
  qed
  have V: "valid_mem d" "\<forall>sg \<in> set segs. seg_ok d sg" using Cons.prems(2) by simp_all
  obtain rv w1 where 1: "osd_memaccess_loadelf (tr_elf env) (tr_ma_zmq env) (tr_junk env) ma d (tr_elf_file a) (tr_verify_memload a) ?w
      = Some (rv, w1)" "?P w1" "mem w1 (mem_di_addr d) = foldl load_segment (mem ?w (mem_di_addr d)) segs"
    using loadelf_device [where P = ?P and mem = "\<lambda>w. mem w (mem_di_addr d)" and w = ?w, OF V(1) dev Pw(1) E V(2),
        of "tr_junk env" "tr_verify_memload a"]
    by (elim exE conjE) (rule that; (intro conjI)?; assumption)
  have "mem w1 = ?M" using 1(2,3) unfolding Pw(2) by (auto simp: fun_eq_iff)
  then have q1: "quiet P regs mem R ?M w1" using 1(2) by (simp add: quiet_def)
  let ?w2 = "if OSD_FAILED rv then tr_log env cfg LOG_ERR (''Unable to load memory at DI address ''
      @ fmt_u (unat (mem_di_addr d)) @ '' ('' @ fmt_d rv @ '')'') w1 else w1"
  have "quiet P regs mem R ?M ?w2"
    by (cases "OSD_FAILED rv") (simp_all only: if_True if_False q1 tool_log_env [OF T q1])
  moreover have "set ds \<subseteq> descs" "\<forall>d \<in> set ds. valid_mem d \<and> (\<forall>sg \<in> set segs. seg_ok d sg)"
    using Cons.prems(1,2) by simp_all
  ultimately obtain w3 where
    "load_memories env a cfg ma ds ?w2 = Some w3" "quiet P regs mem R (load_all segs ds ?M) w3"
    using Cons.IH by blast
  then show ?case using 1(1) unfolding load_all_Cons load_memories.simps Let_def by (intro exI [of _ w3]) simp
qed (simp add: load_all_def)

lemma tr_envD:
  assumes "target_env env a P regs mem"
  shows "\<exists>q. worker_env (tr_hc_zmq env) q (quiet P regs mem R M)" "\<exists>q. worker_env (tr_gw_zmq env) q (quiet P regs mem R M)"
    "\<exists>q. worker_env (tr_ma_zmq env) q (quiet P regs mem R M)" "\<exists>q. worker_env (tr_enum_zmq env) q (quiet P regs mem R M)"
    "gateway_env (tr_gw_zmq env) (tr_rx env) (tr_glip env) (quiet P regs mem R M)" "tool_env (tr_os env) (quiet P regs mem R M)"
    "quiet P regs mem R M w \<Longrightarrow> returns (\<lambda>r. r = 0) (quiet P regs mem R M)
             (glip_parse_option_string (tr_os env) (tr_glip_backend_options a) w)"
  using assms by (simp_all add: target_env_def)

lemma load_and_go_quiet:
  assumes T: "target_env env a P regs mem" and D: "target_device env P regs mem (set (memories R))" "cpus_stopped R"
    and ma: "ready (ma_hostmod_ctx ma)" and E: "elf_holds (tr_elf env) (tr_elf_file a) segs"
    and ok: "modules_ok R" "\<forall>d \<in> set (memories R). \<forall>sg \<in> set segs. seg_ok d sg"
    and w: "quiet P regs mem R M w"
  shows "\<exists>w'. load_and_go env a cfg ma w = Some (0, w')
     \<and> quiet P regs mem (R((0, OSD_REG_SCM_SYSRST) := unset_bit OSD_REG_SCM_SYSRST_CPU_RST_BIT (R (0, OSD_REG_SCM_SYSRST))))
          (load_all segs (memories R) M) w'"
proof -
  let ?z = "tr_ma_zmq env" and ?h = "ma_hostmod_ctx ma"
  let ?R = "R((0, OSD_REG_SCM_SYSRST) := unset_bit OSD_REG_SCM_SYSRST_CPU_RST_BIT (R (0, OSD_REG_SCM_SYSRST)))"
  let ?M = "load_all segs (memories R) M"
  have dev: "device_ok ?z ?h regs (\<lambda>w. P w \<and> mem w = N)" for N
    using D(1) ma by (simp add: target_device_def)
  have log: "quiet P regs mem R N (tr_log env cfg p m w)" if "quiet P regs mem R N w" for R N p m w
    by (rule tool_log_env [OF tr_envD(6) [OF T] that])
  obtain w1 where 1: "osd_memaccess_find_memories ?z ma 0 (tr_log env cfg LOG_INFO ''Loading memories ...'' w) = Some (OSD_OK, Some (memories R), w1)"
    "quiet P regs mem R M w1" using find_memories_quiet [OF dev log [OF w] ok(1)] by blast
  have V: "\<forall>d \<in> set (memories R). valid_mem d \<and> (\<forall>sg \<in> set segs. seg_ok d sg)" using ok by (simp add: modules_ok_def)
  obtain w2 where 2: "load_memories env a cfg ma (memories R) w1 = Some w2" "quiet P regs mem R ?M w2"
    using load_memories_quiet [OF tr_envD(6) [OF T] D(1) ma D(2) E subset_refl V 1(2)] by blast
  let ?w2 = "tr_log env cfg LOG_INFO ''Starting all CPUs'' w2"
  have w2: "P ?w2 \<and> mem ?w2 = ?M" "regs ?w2 = R" using log [OF 2(2)] by (simp_all add: quiet_def)
  obtain w3 where 3: "osd_cl_scm_cpus_start ?z ?h 0 ?w2 = Some (Inr (), w3)" "quiet P regs mem ?R ?M w3"
    using cpu_reset_device [where Q = "\<lambda>w. P w \<and> mem w = ?M" and w = ?w2, OF dev w2(1), of False] unfolding w2(2) quiet_def by auto
  obtain q where W: "worker_env ?z q (quiet P regs mem ?R ?M)" using tr_envD(3) [OF T] by blast
  obtain h' w4 w5 where 4: "osd_hostmod_disconnect ?z ?h w3 = Some (OSD_OK, h', w4)" "osd_hostmod_free ?z (Some h') w4 = Some (None, w5)"
     "quiet P regs mem ?R ?M w5" using hostmod_disconnect_env [OF W 3(2) ma] by blast
  let ?w5 = "tr_log env cfg LOG_INFO ''System is now running. Press CTRL-C to end tracing.'' w5"
  obtain w6 where 5: "wait_for_signal (tr_os env) ?w5 = Some w6" "quiet P regs mem ?R ?M w6"
    using wait_for_signal_returns [OF tr_envD(6) [OF T] log [OF 4(3)]] by blast
  let ?w' = "if tr_coretrace a \<or> tr_systrace a then tr_log env cfg LOG_INFO ''Shutdown signal received, cleaning up.'' w6 else w5"
  have "load_and_go env a cfg ma w = Some (0, ?w')"
    using 1(1) 2(1) 3(1) 4(1,2) 5(1)
    by (simp add: load_and_go_def DEVICE_SUBNET_ADDRESS_def osd_memaccess_cpus_start_def osd_memaccess_disconnect_def
        osd_memaccess_free_def)
  moreover have "quiet P regs mem ?R ?M ?w'" using 4(3) log [OF 5(2)] by simp
  ultimately show ?thesis by blast
qed

lemma free_return_env:
  assumes hc: "worker_env (tr_hc_zmq env) q Q" and gw: "worker_env (tr_gw_zmq env) q' Q"
    and G: "gateway_env (tr_gw_zmq env) (tr_rx env) (tr_glip env) Q" and T: "tool_env (tr_os env) Q"
    and c: "hc_is_running c" "hc_ioworker_ctx c" and g: "gw_ioworker_ctx (gg_gw_ctx g)"
    and s: "tr_hostctrl_ctx s = Some c" "tr_gateway_ctx s = Some g"
    and f: "free_terminal env cfg (tr_terminal_ctx s) e (tr_log env cfg LOG_DEBUG ''Shutting down terminal'' w) = Some (e', wa)"
      "free_stloggers env (tr_stloggers s) (tr_log env cfg LOG_DEBUG ''Shutting down systrace loggers'' wa) = Some wb"
      "free_ctloggers env (tr_ctloggers s) (tr_log env cfg LOG_DEBUG ''Shutting down core trace loggers'' wb) = Some wc"
      "Q (fold (tr_fclose env) (tr_open_files s) (tr_log env cfg LOG_DEBUG ''Closing open files'' wc))"
  shows "\<exists>w'. tr_free_return env cfg e s w = Some (e', w') \<and> Q w'"
proof -
  have log: "Q (tr_log env cfg p m w)" if "Q w" for p m w by (rule tool_log_env [OF T that])
  let ?w = "tr_log env cfg LOG_DEBUG ''Disconnecting gateway''
    (fold (tr_fclose env) (tr_open_files s) (tr_log env cfg LOG_DEBUG ''Closing open files'' wc))"
  have "Q ?w" by (intro log f(4))
  then obtain g' w1 where 1: "osd_gateway_glip_disconnect (tr_gw_zmq env) (tr_rx env) (tr_glip env) g ?w = Some (OSD_OK, g', w1)" "Q w1"
    using gateway_disconnect_env [OF gw G _ g, of ?w] by blast
  obtain x w2 where 2: "osd_gateway_glip_free (tr_gw_zmq env) (tr_glip env) (Some g') w1 = Some (x, w2)" "Q w2"
    using gateway_free_env [OF gw G 1(2)] by blast
  let ?w2 = "tr_log env cfg LOG_DEBUG ''Stopping host controller'' w2"
  have "Q ?w2" by (rule log [OF 2(2)])
  then obtain c' w3 w4 where "osd_hostctrl_stop (tr_hc_zmq env) c ?w2 = Some (OSD_OK, c', w3)"
     "osd_hostctrl_free (tr_hc_zmq env) (Some c') w3 = Some (None, w4)" "Q w4"
    using hostctrl_stop_env [OF hc, of ?w2 c] c by blast
  then show ?thesis using 1(1) 2(1) f(1-3) s by (simp add: tr_free_return_def)
qed

lemma with_stopped_cpus_quiet:
  assumes T: "target_env env a P regs mem" and D: "target_device env P regs mem (set (memories R))" "cpus_stopped R"
    and ma: "ready (ma_hostmod_ctx ma)" and E: "elf_holds (tr_elf env) (tr_elf_file a) segs"
    and ok: "modules_ok R" "\<forall>d \<in> set (memories R). \<forall>sg \<in> set segs. seg_ok d sg"
    and w: "quiet P regs mem R M w" and off: "\<not> tr_coretrace a" "\<not> tr_systrace a" "\<not> tr_terminal a"
    and c: "hc_is_running c" "hc_ioworker_ctx c" "gw_ioworker_ctx (gg_gw_ctx g)"
  shows "\<exists>w'. with_stopped_cpus env a cfg ma (tr_init\<lparr>tr_hostctrl_ctx := Some c, tr_gateway_ctx := Some g\<rparr>) w = Some (0, w')
     \<and> quiet P regs mem (R((0, OSD_REG_SCM_SYSRST) := unset_bit OSD_REG_SCM_SYSRST_CPU_RST_BIT (R (0, OSD_REG_SCM_SYSRST))))
          (load_all segs (memories R) M) w'"
proof -
  let ?Q = "quiet P regs mem R M" and ?s = "tr_init\<lparr>tr_hostctrl_ctx := Some c, tr_gateway_ctx := Some g\<rparr>"
  let ?Q2 = "quiet P regs mem (R((0, OSD_REG_SCM_SYSRST) := unset_bit OSD_REG_SCM_SYSRST_CPU_RST_BIT (R (0, OSD_REG_SCM_SYSRST))))
      (load_all segs (memories R) M)"
  have log: "quiet P regs mem R N (tr_log env cfg p m v)" if "quiet P regs mem R N v" for R N p m v
    by (rule tool_log_env [OF tr_envD(6) [OF T] that])
  let ?w = "tr_log env cfg LOG_INFO ''Setting up tracing'' w"
  obtain q where W: "worker_env (tr_enum_zmq env) q ?Q" using tr_envD(4) [OF T] by blast
  have "\<exists>w1. run_tracing env a cfg ?s ?w = Some (OSD_OK, ?s, w1) \<and> ?Q w1"
    using D(1) by (intro run_tracing_off [OF W _ log [OF w] ok(1) off(1,2)]) (simp add: target_device_def)
  then obtain w1 where 1: "run_tracing env a cfg ?s ?w = Some (OSD_OK, ?s, w1)" "?Q w1" by blast
  let ?w1 = "tr_log env cfg LOG_INFO ''Setting up terminal'' w1"
  have w1: "?Q ?w1" by (rule log [OF 1(2)])
  obtain w2 where 2: "load_and_go env a cfg ma ?w1 = Some (0, w2)" "?Q2 w2"
    using load_and_go_quiet [OF T D ma E ok w1, of cfg] by (elim exE conjE)
  obtain q5 q6 where W2: "worker_env (tr_hc_zmq env) q5 ?Q2" "worker_env (tr_gw_zmq env) q6 ?Q2" using tr_envD(1,2) [OF T] by blast
  have "?Q2 (tr_log env cfg LOG_DEBUG ''Closing open files'' (tr_log env cfg LOG_DEBUG ''Shutting down core trace loggers''
      (tr_log env cfg LOG_DEBUG ''Shutting down systrace loggers'' (tr_log env cfg LOG_DEBUG ''Shutting down terminal'' w2))))"
    by (intro log 2(2))
  then have "\<exists>w3. tr_free_return env cfg 0 ?s w2 = Some (0, w3) \<and> ?Q2 w3"
    by (intro free_return_env [OF W2 tr_envD(5) [OF T] tr_envD(6) [OF T] c]) (auto simp: tr_init_def free_terminal_def)
  then obtain w3 where "tr_free_return env cfg 0 ?s w2 = Some (0, w3)" "?Q2 w3" by blast
  then show ?thesis using 1(1) 2(1) off(3) by (simp add: with_stopped_cpus_def run_terminal_def)
qed

text \<open>The run up to the point where the CPUs are stopped.\<close>

lemma tr_run_stops_cpus:
  assumes T: "target_env env a P regs mem" and w: "P w"
    and R1: "R1 = (regs w)((0, OSD_REG_SCM_SYSRST) := set_bit OSD_REG_SCM_SYSRST_CPU_RST_BIT (regs w (0, OSD_REG_SCM_SYSRST)))"
    and D: "target_device env P regs mem descs"
  obtains c g h w' where "tr_run env a cfg w
      = with_stopped_cpus env a cfg \<lparr>ma_hostmod_ctx = h\<rparr> (tr_init\<lparr>tr_hostctrl_ctx := Some c, tr_gateway_ctx := Some g\<rparr>) w'"
    "quiet P regs mem R1 (mem w) w'" "ready h" "hc_is_running c" "hc_ioworker_ctx c" "gw_ioworker_ctx (gg_gw_ctx g)"
proof -
  let ?Q0 = "quiet P regs mem (regs w) (mem w)" and ?Q1 = "quiet P regs mem R1 (mem w)"
  have log: "quiet P regs mem R N (tr_log env cfg p m v)" if "quiet P regs mem R N v" for R N p m v
    by (rule tool_log_env [OF tr_envD(6) [OF T] that])
  have "?Q0 w" using w by (simp add: quiet_def)
  then have w0: "?Q0 (zsys_init (tr_os env) w)" using tr_envD(6) [OF T, of "regs w" "mem w"] by (simp add: tool_env_def)
  obtain q1 q2 q3 where W0: "worker_env (tr_hc_zmq env) q1 ?Q0" "worker_env (tr_gw_zmq env) q2 ?Q0" "worker_env (tr_ma_zmq env) q3 ?Q0"
    using tr_envD(1,2,3) [OF T] by blast
  obtain c w1 where 1: "run_hostctrl env cfg tr_init (zsys_init (tr_os env) w) = Some (OSD_OK, tr_init\<lparr>tr_hostctrl_ctx := Some c\<rparr>, w1)"
    "?Q0 w1" "hc_is_running c" "hc_ioworker_ctx c"
    using run_hostctrl_env [OF W0(1) tr_envD(6) [OF T] w0, of cfg tr_init] by (elim exE conjE)
  let ?s = "tr_init\<lparr>tr_hostctrl_ctx := Some c\<rparr>"
  obtain g w2 where 2: "run_gateway_glip env a cfg ?s w1 = Some (OSD_OK, ?s\<lparr>tr_gateway_ctx := Some g\<rparr>, w2)" "?Q0 w2"
    "gw_ioworker_ctx (gg_gw_ctx g)"
    using run_gateway_env [OF W0(2) tr_envD(5) [OF T] 1(2) tr_envD(7) [OF T 1(2)], of cfg ?s] by (elim exE conjE)
  let ?s = "?s\<lparr>tr_gateway_ctx := Some g\<rparr>"
  obtain h0 w3 h w4 where 3: "osd_hostmod_new (tr_ma_zmq env) (tr_uninit env) w2 = Some (Inr h0, w3)"
    "osd_hostmod_connect (tr_ma_zmq env) h0 w3 = Some (OSD_OK, h, w4)" "?Q0 w4" "ready h"
    using hostmod_connect_env [OF W0(3) 2(2), of "tr_uninit env"] by (elim exE conjE)
  have dev: "device_ok (tr_ma_zmq env) h regs (\<lambda>w. P w \<and> mem w = N)" for N
    using D 3(4) by (simp add: target_device_def)
  let ?w4 = "tr_log env cfg LOG_INFO ''Stopping all CPUs in the system'' w4"
  have w4: "P ?w4 \<and> mem ?w4 = mem w" "regs ?w4 = regs w" using log [OF 3(3)] by (simp_all add: quiet_def)
  obtain w5 where 4: "osd_cl_scm_cpus_stop (tr_ma_zmq env) h 0 ?w4 = Some (Inr (), w5)" "?Q1 w5"
    using cpu_reset_device [where Q = "\<lambda>v. P v \<and> mem v = mem w" and w = ?w4, OF dev w4(1), of True]
    unfolding w4(2) quiet_def R1 by auto
  show thesis
    by (rule that [of h g c w5])
      (use 1 2 3 4 in \<open>simp_all add: tr_run_def DEVICE_SUBNET_ADDRESS_def osd_memaccess_new_def osd_memaccess_connect_def osd_memaccess_cpus_stop_def\<close>)
qed

lemma released:
  assumes "R1 = R((0, OSD_REG_SCM_SYSRST) := set_bit OSD_REG_SCM_SYSRST_CPU_RST_BIT (R (0, OSD_REG_SCM_SYSRST)))"
  shows "cpus_stopped R1" "R1((0, OSD_REG_SCM_SYSRST) := unset_bit OSD_REG_SCM_SYSRST_CPU_RST_BIT (R1 (0, OSD_REG_SCM_SYSRST)))
    = R((0, OSD_REG_SCM_SYSRST) := unset_bit OSD_REG_SCM_SYSRST_CPU_RST_BIT (R (0, OSD_REG_SCM_SYSRST)))"
  by (simp_all add: assms cpus_stopped_def OSD_REG_SCM_SYSRST_CPU_RST_BIT_def bit_simps)


section \<open>A simulated target\<close>

text \<open>
  A device with registers and one memory, behind a component that answers every request of its main thread, and the
  names of the open files. The
  messages for the main thread are the queue of the simulated memory.
\<close>

record target_sim =
  ts_regs :: "u16 \<times> u16 \<Rightarrow> u16"
  ts_mam :: mam_sim
  ts_files :: "string option list"

definition ts_deliver :: "zmsg \<Rightarrow> target_sim \<Rightarrow> target_sim" where
  "ts_deliver m w = w\<lparr>ts_mam := (ts_mam w)\<lparr>sim_out := sim_out (ts_mam w) @ [m]\<rparr>\<rparr>"

definition ts_mam_send :: "osd_mem_desc \<Rightarrow> sock \<Rightarrow> zmsg \<Rightarrow> target_sim \<Rightarrow> int \<times> target_sim" where
  "ts_mam_send desc s m w = map_prod id (\<lambda>x. w\<lparr>ts_mam := x\<rparr>) (zmsg_send (mam_sim_zmq desc sim_ctx) s m (ts_mam w))"

definition target_zmq :: "osd_mem_desc \<Rightarrow> target_sim zmq" where
  "target_zmq desc = \<lparr>zmsg_send = (\<lambda>s m w.
       if hd m \<noteq> str_bytes ''D'' then (0, ts_deliver [hd m @ str_bytes ''-DONE'', int_bytes 0] w)
       else (case osd_packet_new_from_zframe (m ! 1) of
           None \<Rightarrow> (-1, w)
         | Some p \<Rightarrow>
             if osd_packet_get_type p = Some OSD_PACKET_TYPE_REG
             then (0, ts_deliver (req_msg (snd (sim_answer (ts_regs w) p))) (w\<lparr>ts_regs := fst (sim_answer (ts_regs w) p)\<rparr>))
             else ts_mam_send desc s m w)),
     zmsg_recv = (\<lambda>s w. map_prod id (\<lambda>x. w\<lparr>ts_mam := x\<rparr>) (zmsg_recv (mam_sim_zmq desc sim_ctx) s (ts_mam w))),
     zsock_new = (\<lambda>s a w. (True, w)), zsock_bind = (\<lambda>s a w. (0, w)),
     zsock_connect = (\<lambda>s a w. (0, w)), zsock_destroy = (\<lambda>s w. w),
     zloop_reader = (\<lambda>s w. (0, w)), zloop_reader_end = (\<lambda>s w. w),
     zuuid_str = (\<lambda>w. (replicate 32 (CHR ''a''), w)),
     pthread_create = (\<lambda>w. (0, ts_deliver [str_bytes ''I-THREADINIT-DONE'', int_bytes 0] w)), pthread_join = (\<lambda>w. w),
     pthread_cancel = (\<lambda>w. w), thread_is_running = (\<lambda>w. True)\<rparr>"

definition ts_idle :: "target_sim \<Rightarrow> bool" where
  "ts_idle w \<longleftrightarrow> sim_idle (ts_mam w)"

text \<open>The file names by handle; a closed file has none. \<open>K\<close> is what is known about them.\<close>

definition ts_names :: "target_sim \<Rightarrow> nat \<Rightarrow> string option" where
  "ts_names w fp = (if fp < length (ts_files w) then ts_files w ! fp else None)"

definition ts_ok :: "((nat \<Rightarrow> string option) \<Rightarrow> bool) \<Rightarrow> target_sim \<Rightarrow> bool" where
  "ts_ok K w \<longleftrightarrow> ts_idle w \<and> K (ts_names w)"

definition ts_mem :: "osd_mem_desc \<Rightarrow> target_sim \<Rightarrow> u32 \<Rightarrow> nat \<Rightarrow> u8" where
  "ts_mem desc w b = (if b = mem_di_addr desc then sim_mem (ts_mam w) else (\<lambda>_. 0))"

lemma ts_names_upd [simp]: "ts_names (w\<lparr>ts_mam := x\<rparr>) = ts_names w" "ts_names (w\<lparr>ts_regs := R\<rparr>) = ts_names w"
  by (simp_all add: ts_names_def fun_eq_iff)

lemma target_recv:
  "zmsg_recv (target_zmq desc) s w = map_prod id (\<lambda>x. w\<lparr>ts_mam := x\<rparr>) (zmsg_recv (mam_sim_zmq desc sim_ctx) s (ts_mam w))"
  by (simp add: target_zmq_def)

lemma target_send_all:
  assumes "unat (mem_di_addr desc) < 2 ^ 16"
  shows "mam_packets desc ctx ps \<Longrightarrow> send_all (target_zmq desc) (map req_msg ps) w =
     map_prod id (\<lambda>x. w\<lparr>ts_mam := x\<rparr>) (send_all (mam_sim_zmq desc sim_ctx) (map req_msg ps) (ts_mam w))"
proof (induction ps arbitrary: w)
  case (Cons p ps)
  obtain pl where p: "p = mk_packet (mem_di_addr desc) (ucast (hm_diaddr ctx)) OSD_PACKET_TYPE_EVENT EV_LAST pl" "length pl < 65533"
    using Cons.prems by (auto simp: mam_packets_def)
  have h: "hdr_in_range (mem_di_addr desc) (ucast (hm_diaddr ctx)) OSD_PACKET_TYPE_EVENT EV_LAST"
    using assms unat_u16_lt [of "hm_diaddr ctx"] by (simp add: hdr_in_range_def pkt_consts)
  have "packet_wf p" unfolding p by (rule packet_wf_mk_packet [OF p(2)])
  then have "zmsg_send (target_zmq desc) Inproc_main (req_msg p) w = ts_mam_send desc Inproc_main (req_msg p) w"
    using mk_packet_getters(3) [OF h p(2)]
    by (simp add: target_zmq_def req_msg_def zframe_of_packet p(1) [symmetric]) (simp add: pkt_consts)
  moreover have "mam_packets desc ctx ps" using Cons.prems by (simp add: mam_packets_def)
  ultimately show ?case using Cons.IH
    by (simp add: ts_mam_send_def split: prod.splits)
qed simp

lemma target_recv_seq:
  "recv_seq (mam_sim_zmq desc sim_ctx) (ts_mam w) ms x \<Longrightarrow> recv_seq (target_zmq desc) w ms (w\<lparr>ts_mam := x\<rparr>)"
proof (induction ms arbitrary: w)
  case (Cons m ms)
  then obtain y where "zmsg_recv (mam_sim_zmq desc sim_ctx) Inproc_main (ts_mam w) = (Received m, y)"
     "recv_seq (mam_sim_zmq desc sim_ctx) y ms x" by auto
  then show ?case using Cons.IH [of "w\<lparr>ts_mam := y\<rparr>"] by (simp add: target_recv)
qed auto

lemma target_mam_device:
  assumes "ready h" "valid_mem desc"
  shows "mam_device (target_zmq desc) desc h (\<lambda>w. sim_mem (ts_mam w)) (\<lambda>w. ts_ok K w \<and> ts_regs w = R \<and> B)"
proof -
  note D = mam_sim_device [OF assms, of sim_ctx, unfolded mam_device_def]
  note W = D [THEN conjunct2, THEN conjunct1, rule_format] and Rd = D [THEN conjunct2, THEN conjunct2, rule_format]
  note a = valid_mem_facts(9) [OF assms(2)]
  show ?thesis unfolding mam_device_def
  proof (intro conjI allI impI)
    show "ready h" by (rule assms(1))
  next
    fix w ps r
    assume P: "ts_ok K w \<and> ts_regs w = R \<and> B" and ps: "mam_packets desc h ps" and x: "2 + awb desc \<le> length (packet_bytes ps)"
      "r = parse_transfer (awb desc) (packet_bytes ps)" "rq_we r" "length (rq_data r) = req_bytes (dwb desc) r"
    obtain m1 where 1: "send_all (mam_sim_zmq desc sim_ctx) (map req_msg ps) (ts_mam w) = (OSD_OK, m1)"
      "if rq_sync r then \<exists>ack m2. packet_wf ack \<and> zmsg_recv (mam_sim_zmq desc sim_ctx) Inproc_main m1 = (Received (req_msg ack), m2)
          \<and> sim_idle m2 \<and> sim_mem m2 = apply_req r (sim_mem (ts_mam w))
       else sim_idle m1 \<and> sim_mem m1 = apply_req r (sim_mem (ts_mam w))"
      using W [OF _ ps x, of "ts_mam w"] P by (auto simp: ts_ok_def ts_idle_def simp del: if_split)
    then show "\<exists>w1. send_all (target_zmq desc) (map req_msg ps) w = (OSD_OK, w1) \<and>
           (if rq_sync r
            then \<exists>ack w2. packet_wf ack \<and> zmsg_recv (target_zmq desc) Inproc_main w1 = (Received (req_msg ack), w2) \<and>
                   (ts_ok K w2 \<and> ts_regs w2 = R \<and> B) \<and> sim_mem (ts_mam w2) = apply_req r (sim_mem (ts_mam w))
            else (ts_ok K w1 \<and> ts_regs w1 = R \<and> B) \<and> sim_mem (ts_mam w1) = apply_req r (sim_mem (ts_mam w)))"
      using P by (intro exI [of _ "w\<lparr>ts_mam := m1\<rparr>"]) (force simp: target_send_all [OF a ps] target_recv ts_ok_def ts_idle_def split: if_splits)
  next
    fix w ps r
    assume P: "ts_ok K w \<and> ts_regs w = R \<and> B" and ps: "mam_packets desc h ps" and x: "2 + awb desc \<le> length (packet_bytes ps)"
      "r = parse_transfer (awb desc) (packet_bytes ps)" "\<not> rq_we r" "rq_data r = []"
    obtain m1 rs m2 where 1: "send_all (mam_sim_zmq desc sim_ctx) (map req_msg ps) (ts_mam w) = (OSD_OK, m1)"
      "\<forall>p \<in> set rs. packet_wf p \<and> payload_of p \<noteq> []" "packet_bytes rs = mem_range (sim_mem (ts_mam w)) (rq_addr r) (req_bytes (dwb desc) r)"
      "recv_seq (mam_sim_zmq desc sim_ctx) m1 (map req_msg rs) m2" "sim_idle m2" "sim_mem m2 = sim_mem (ts_mam w)"
      using Rd [OF _ ps x, of "ts_mam w"] P by (auto simp: ts_ok_def ts_idle_def)
    have "recv_seq (target_zmq desc) (w\<lparr>ts_mam := m1\<rparr>) (map req_msg rs) (w\<lparr>ts_mam := m2\<rparr>)"
      using target_recv_seq [of desc "w\<lparr>ts_mam := m1\<rparr>" "map req_msg rs" m2] 1(4) by simp
    then show "\<exists>w1 rs w2. send_all (target_zmq desc) (map req_msg ps) w = (OSD_OK, w1)
           \<and> (\<forall>p \<in> set rs. packet_wf p \<and> payload_of p \<noteq> [])
           \<and> packet_bytes rs = mem_range (sim_mem (ts_mam w)) (rq_addr r) (req_bytes (dwb desc) r)
           \<and> recv_seq (target_zmq desc) w1 (map req_msg rs) w2 \<and> (ts_ok K w2 \<and> ts_regs w2 = R \<and> B) \<and> sim_mem (ts_mam w2) = sim_mem (ts_mam w)"
      using 1 P by (intro exI [of _ "w\<lparr>ts_mam := m1\<rparr>"] exI [of _ rs] exI [of _ "w\<lparr>ts_mam := m2\<rparr>"])
        (simp add: target_send_all [OF a ps] ts_ok_def ts_idle_def)
  qed
qed

lemma ts_mem_upd [simp]:
  "sim_mem x = sim_mem (ts_mam w) \<Longrightarrow> ts_mem desc (w\<lparr>ts_mam := x\<rparr>) = ts_mem desc w" "ts_mem desc (w\<lparr>ts_regs := R\<rparr>) = ts_mem desc w"
  by (simp_all add: ts_mem_def fun_eq_iff)

lemma target_device_ok:
  assumes "ready h"
  shows "device_ok (target_zmq desc) h ts_regs (\<lambda>w. ts_ok K w \<and> ts_mem desc w = M)"
proof -
  have send: "zmsg_send (target_zmq desc) s (req_msg p) w =
      (0, ts_deliver (req_msg (snd (sim_answer (ts_regs w) p))) (w\<lparr>ts_regs := fst (sim_answer (ts_regs w) p)\<rparr>))"
    if "packet_wf p" "osd_packet_get_type p = Some OSD_PACKET_TYPE_REG" for s p w
    using that by (simp add: target_zmq_def req_msg_def zframe_of_packet)
  have t: "osd_packet_get_type (read_request h m r 16) = Some OSD_PACKET_TYPE_REG"
     "osd_packet_get_type (write_request h m r [v]) = Some OSD_PACKET_TYPE_REG" for m r v
    using unat_u16_lt [of m] unat_u16_lt [of "hm_diaddr h"]
    by (simp_all add: read_request_def write_request_def mk_packet_getters hdr_in_range_def pkt_consts
        get_subtype_reg_read_req_def get_subtype_reg_write_req_def)
  have wf: "packet_wf (read_request h m r 16)" "packet_wf (write_request h m r [v])" for m r v
    by (simp_all add: read_request_def write_request_def packet_wf_mk_packet)
  show ?thesis
    using assms
    by (simp add: device_ok_def send [OF wf(1) t(1)] send [OF wf(2) t(2)])
      (simp add: read_request_def write_request_def sim_answer_def mk_packet_def target_recv mam_sim_zmq_def ts_deliver_def
        ts_ok_def ts_idle_def sim_idle_def read_response_def write_response_def Let_def)
qed

definition demo_tty :: "'w tty_os" where
  "demo_tty = \<lparr>get_running = (\<lambda>_. False), set_running = (\<lambda>b w. w), tty_write = (\<lambda>bs w. (int (length bs), w)),
     tty_poll = (\<lambda>w. (0, w)), tty_read = (\<lambda>n w. ((0, []), w)), posix_openpt = (\<lambda>w. (3, w)), grantpt = (\<lambda>w. (0, w)),
     tcgetattr = (\<lambda>w. ((0, \<lparr>c_iflag = 0, c_oflag = 0, c_lflag = 0\<rparr>), w)), tcsetattr = (\<lambda>_ w. (0, w)), unlockpt = (\<lambda>w. (0, w)),
     tx_pthread_create = (\<lambda>w. (0, w)), tx_pthread_join = (\<lambda>w. (0, w)), ptsname = (\<lambda>_. Some ''/dev/pts/1''), tty_close = (\<lambda>w. w)\<rparr>"

definition demo_target :: "osd_mem_desc \<Rightarrow> (unit, unit, unit, unit, target_sim) tr_env" where
  "demo_target desc = \<lparr>tr_os = demo_os, tr_hc_zmq = target_zmq desc, tr_gw_zmq = target_zmq desc, tr_ma_zmq = target_zmq desc,
     tr_enum_zmq = target_zmq desc, tr_term_zmq = target_zmq desc, tr_st_zmq = (\<lambda>_. target_zmq desc),
     tr_ct_zmq = (\<lambda>_. target_zmq desc), tr_rx = demo_rx, tr_glip = demo_glip, tr_tty = demo_tty, tr_elf = demo_elf,
     tr_fopen = (\<lambda>name w. (Some (length (ts_files w)), w\<lparr>ts_files := ts_files w @ [Some name]\<rparr>)),
     tr_fclose = (\<lambda>fp w. w\<lparr>ts_files := (ts_files w)[fp := None]\<rparr>), tr_files = (\<lambda>_ _. \<lparr>rd_buf = [], wr_buf = [], wr_cap = 0\<rparr>),
     tr_put_files = (\<lambda>_ w. w), tr_uninit = 0, tr_junk = (\<lambda>_. 0), tr_junk_fns = (\<lambda>_. \<lparr>addr = 0, fname = []\<rparr>)\<rparr>"

lemma target_worker_env: "worker_env (target_zmq desc) (\<lambda>w. sim_out (ts_mam w)) (quiet (ts_ok K) ts_regs (ts_mem desc) R M)"
proof -
  have "fifo_recv (target_zmq desc) Inproc_main (\<lambda>w. sim_out (ts_mam w))"
    by (simp add: fifo_recv_def target_recv mam_sim_zmq_def split: list.splits)
  then show ?thesis
    by (auto simp: worker_env_def one_answer_def target_recv mam_sim_zmq_def target_zmq_def ts_deliver_def quiet_def ts_ok_def ts_idle_def
        sim_idle_def str_bytes_def)
qed

lemma target_gateway_env: "gateway_env (target_zmq desc) demo_rx demo_glip P"
  by (simp add: gateway_env_def returns_def demo_rx_def demo_glip_def target_zmq_def)

lemma demo_target_env: "target_env (demo_target desc) a (ts_ok K) ts_regs (ts_mem desc)"
  using target_worker_env [of desc]
  by (auto simp: target_env_def demo_target_def target_gateway_env demo_os_env returns_def) (auto simp: demo_os_def)

lemma demo_target_device:
  assumes "valid_mem desc"
  shows "target_device (demo_target desc) (ts_ok K) ts_regs (ts_mem desc) {desc}"
proof -
  have "(\<lambda>w. ts_mem desc w (mem_di_addr desc)) = (\<lambda>w. sim_mem (ts_mam w))" by (simp add: ts_mem_def)
  moreover have "(\<lambda>w. ts_ok K w \<and> ts_regs w = R \<and> (\<forall>b. b \<noteq> mem_di_addr desc \<longrightarrow> ts_mem desc w b = M b)) =
     (\<lambda>w. ts_ok K w \<and> ts_regs w = R \<and> (\<forall>b. b \<noteq> mem_di_addr desc \<longrightarrow> (\<lambda>_. 0) = M b))" for R and M :: "u32 \<Rightarrow> nat \<Rightarrow> u8"
    by (auto simp: ts_mem_def fun_eq_iff)
  ultimately show ?thesis
    using target_mam_device [OF _ assms] target_device_ok
    by (simp add: target_device_def demo_target_def)
qed

definition demo_mem1 :: osd_mem_desc where
  "demo_mem1 = mem_desc_of mam_regs 1"

definition demo_regs :: "u16 \<times> u16 \<Rightarrow> u16" where
  "demo_regs = mam_regs((0, OSD_REG_SCM_SYSRST) := set_bit OSD_REG_SCM_SYSRST_CPU_RST_BIT (mam_regs (0, OSD_REG_SCM_SYSRST)))"

lemma demo_modules: "modules demo_regs = [desc_of mam_regs 0, desc_of mam_regs 1]"
  by (simp add: modules_def demo_regs_def mam_regs_def reg_consts upt_rec desc_of_def)

lemma mem_desc_of_cong:
  assumes "\<And>r. R (a, r) = R' (a, r)"
  shows "mem_desc_of R a = mem_desc_of R' a"
  by (simp add: mem_desc_of_def region_of_def reg64_def assms Let_def)

lemma demo_memories: "memories demo_regs = [demo_mem1]"
  by (simp add: memories_def demo_modules demo_mem1_def)
    (auto simp: is_supported_mam_def desc_of_def OSD_MODULE_VENDOR_OSD_def OSD_MODULE_TYPE_STD_MAM_def
       mam_regs_def reg_consts demo_regs_def intro!: mem_desc_of_cong)

lemma demo_mem1_ok: "valid_mem demo_mem1"
  by (simp add: valid_mem_def demo_mem1_def mem_desc_of_def mam_regs_def reg_consts dwb_def awb_def)

lemma demo_modules_ok: "modules_ok demo_regs"
proof -
  have n: "unat (demo_regs (0, OSD_REG_SCM_NUM_MOD)) = 2" by (simp add: demo_regs_def mam_regs_def reg_consts)
  have small: "a = 0 \<or> a = 1" if "unat a < 2" for a :: u16
  proof -
    from that have "unat a = unat (0 :: u16) \<or> unat a = unat (1 :: u16)" by simp linarith
    then show ?thesis by (simp only: word_unat_eq_iff)
  qed
  have names: "osd_module_get_type_short_name (ucast (demo_regs (a, OSD_REG_BASE_MOD_VENDOR))) (ucast (demo_regs (a, OSD_REG_BASE_MOD_TYPE))) \<noteq> None"
    if "unat a < 2" for a
    using small [OF that] by (auto simp: demo_regs_def mam_regs_def reg_consts osd_module_get_type_short_name_def OSD_MODULE_VENDOR_OSD_def
        OSD_MODULE_TYPE_STD_shortnames_def sizeof_ptr_array_def)
  have "(ucast (demo_regs (mod_addr m, OSD_REG_MAM_REGIONS)) :: u8) \<le> 8" for m :: osd_module_desc
    by (simp add: demo_regs_def mam_regs_def reg_consts)
  then show ?thesis using names n demo_mem1_ok by (simp add: modules_ok_def demo_memories)
qed


end
