(* ===== verification/Target_Trace.thy ===== *)
theory Target_Trace
  imports Target_Run
begin

text \<open>
  A traced run of \<^verbatim>\<open>osd-target-run.c\<close> from end to end: every trace module of the device gets a logger with log files of its
  own before the CPUs are started; after the user has ended the run the loggers are stopped and their files closed.
\<close>

section \<open>Registers\<close>

text \<open>
  The registers of a device \<open>R\<close> whose modules in \<open>dom D\<close> send their events to the addresses \<open>D\<close> gives; the modules in \<open>A\<close> are
  active.
\<close>

definition routed :: "(u16 \<Rightarrow> u16 option) \<Rightarrow> u16 set \<Rightarrow> (u16 \<times> u16 \<Rightarrow> u16) \<Rightarrow> u16 \<times> u16 \<Rightarrow> u16" where
  "routed D A R = (\<lambda>(a, r). case D a of
       None \<Rightarrow> R (a, r)
     | Some d \<Rightarrow> if r = OSD_REG_BASE_MOD_EVENT_DEST then d
                  else if r = OSD_REG_BASE_MOD_CS then (if a \<in> A then set_bit else unset_bit) OSD_REG_BASE_MOD_CS_ACTIVE_BIT (R (a, r))
                  else R (a, r))"

lemma routed_none: "D a = None \<Longrightarrow> routed D A R (a, r) = R (a, r)"
  by (simp add: routed_def)

lemma routed_other: "r \<noteq> OSD_REG_BASE_MOD_EVENT_DEST \<Longrightarrow> r \<noteq> OSD_REG_BASE_MOD_CS \<Longrightarrow> routed D A R (a, r) = R (a, r)"
  by (simp add: routed_def split: option.split)

lemma routed_empty [simp]: "routed Map.empty A R = R"
  by (simp add: routed_def fun_eq_iff)

lemma routed_start:
  assumes "D a = None"
  shows "events_routed a d True (routed D A R) = routed (D(a \<mapsto> d)) (insert a A) R"
proof
  fix x :: "u16 \<times> u16"
  obtain b r where x: "x = (b, r)" by (cases x)
  have e: "OSD_REG_BASE_MOD_EVENT_DEST \<noteq> OSD_REG_BASE_MOD_CS" by (simp add: reg_consts)
  show "events_routed a d True (routed D A R) x = routed (D(a \<mapsto> d)) (insert a A) R x"
    using assms e by (cases "b = a") (auto simp: x events_routed_def routed_def Let_def split: option.split)
qed

lemma routed_stop:
  assumes "a \<in> dom D"
  shows "(routed D A R)((a, OSD_REG_BASE_MOD_CS) := unset_bit OSD_REG_BASE_MOD_CS_ACTIVE_BIT (routed D A R (a, OSD_REG_BASE_MOD_CS)))
    = routed D (A - {a}) R"
proof
  fix x :: "u16 \<times> u16"
  obtain b r where x: "x = (b, r)" by (cases x)
  have e: "OSD_REG_BASE_MOD_EVENT_DEST \<noteq> OSD_REG_BASE_MOD_CS" by (simp add: reg_consts)
  show "((routed D A R)((a, OSD_REG_BASE_MOD_CS) := unset_bit OSD_REG_BASE_MOD_CS_ACTIVE_BIT (routed D A R (a, OSD_REG_BASE_MOD_CS)))) x
    = routed D (A - {a}) R x"
    using assms e by (cases "b = a"; cases "r = OSD_REG_BASE_MOD_CS") (auto simp: x routed_def split: option.split)
qed

lemma routed_upd:
  assumes "r \<noteq> OSD_REG_BASE_MOD_EVENT_DEST" "r \<noteq> OSD_REG_BASE_MOD_CS"
  shows "(routed D A R)((a, r) := v) = routed D A (R((a, r) := v))"
  using assms by (auto simp: routed_def fun_eq_iff split: option.split)

lemma desc_of_routed [simp]: "desc_of (routed D A R) = desc_of R"
  by (simp add: desc_of_def routed_other fun_eq_iff reg_consts)

lemma modules_routed [simp]: "modules (routed D A R) = modules R"
  by (simp add: modules_def routed_other reg_consts)

lemma sysrst_routed [simp]: "routed D A R (a, OSD_REG_SCM_SYSRST) = R (a, OSD_REG_SCM_SYSRST)"
  by (simp add: routed_other reg_consts)

section \<open>The environment of a traced run\<close>

definition with_files :: "('w \<Rightarrow> bool) \<Rightarrow> ('w \<Rightarrow> nat \<Rightarrow> string option) \<Rightarrow> (nat \<Rightarrow> string option) \<Rightarrow> 'w \<Rightarrow> bool" where
  "with_files P names N w \<longleftrightarrow> P w \<and> names w = N"

text \<open>
  The environment of a run, where \<open>names\<close> gives the names of the open files by their handles. The loggers have worker threads, opening a
  file gives a new handle, and what else happens leaves the files open.
\<close>

definition trace_env ::
  "('f, 'e, 's, 'd, 'w) tr_env \<Rightarrow> tr_args \<Rightarrow> ('w \<Rightarrow> bool) \<Rightarrow> ('w \<Rightarrow> u16 \<times> u16 \<Rightarrow> u16) \<Rightarrow> ('w \<Rightarrow> u32 \<Rightarrow> nat \<Rightarrow> u8)
    \<Rightarrow> ('w \<Rightarrow> nat \<Rightarrow> string option) \<Rightarrow> bool" where
  "trace_env env a P regs mem names \<longleftrightarrow> (\<forall>N. target_env env a (with_files P names N) regs mem
     \<and> (\<forall>R M. (\<forall>b. \<forall>z \<in> {tr_st_zmq env b, tr_ct_zmq env b}. \<exists>q. worker_env z q (quiet (with_files P names N) regs mem R M))
          \<and> (\<forall>w. quiet (with_files P names N) regs mem R M w \<longrightarrow>
               (\<forall>name. \<exists>fp w'. tr_fopen env name w = (Some fp, w') \<and> N fp = None \<and> quiet (with_files P names (N(fp \<mapsto> name))) regs mem R M w')
             \<and> (\<forall>fp. quiet (with_files P names (N(fp := None))) regs mem R M (tr_fclose env fp w))
             \<and> (\<forall>fs. quiet (with_files P names N) regs mem R M (tr_put_files env fs w)))))"

definition trace_device ::
  "('f, 'e, 's, 'd, 'w) tr_env \<Rightarrow> ('w \<Rightarrow> bool) \<Rightarrow> ('w \<Rightarrow> u16 \<times> u16 \<Rightarrow> u16) \<Rightarrow> ('w \<Rightarrow> u32 \<Rightarrow> nat \<Rightarrow> u8)
    \<Rightarrow> ('w \<Rightarrow> nat \<Rightarrow> string option) \<Rightarrow> osd_mem_desc set \<Rightarrow> bool" where
  "trace_device env P regs mem names descs \<longleftrightarrow> (\<forall>N. target_device env (with_files P names N) regs mem descs
     \<and> (\<forall>h. ready h \<longrightarrow> (\<forall>M b. \<forall>z \<in> {tr_st_zmq env b, tr_ct_zmq env b}.
          device_ok z h regs (\<lambda>w. with_files P names N w \<and> mem w = M))))"

text \<open>What the registers of the trace modules hold.\<close>

definition trace_ok :: "(u16 \<times> u16 \<Rightarrow> u16) \<Rightarrow> osd_module_desc \<Rightarrow> bool" where
  "trace_ok R m \<longleftrightarrow> m = desc_of R (mod_addr m)
     \<and> (is_osd_module OSD_MODULE_TYPE_STD_STM m \<longrightarrow> mod_version m = 0 \<and> valid_width (R (mod_addr m, OSD_REG_STM_VALWIDTH)))
     \<and> (is_osd_module OSD_MODULE_TYPE_STD_CTM m \<longrightarrow> mod_version m = 0 \<and> valid_width (R (mod_addr m, OSD_REG_CTM_ADDR_WIDTH))
          \<and> valid_width (R (mod_addr m, OSD_REG_CTM_DATA_WIDTH)))"

text \<open>A logger that has been started for the module at an address; \<open>R\<close> are the registers.\<close>

definition st_logger :: "(u16 \<times> u16 \<Rightarrow> u16) \<Rightarrow> (nat \<Rightarrow> string option) \<Rightarrow> osd_systracelogger_ctx \<Rightarrow> bool" where
  "st_logger R N l \<longleftrightarrow> ready (sl_hostmod_ctx l) \<and> sl_handler_desc l
     \<and> sl_stm_desc l = \<lparr>stm_di_addr = ucast (sl_stm_di_addr l), value_width_bit = R (sl_stm_di_addr l, OSD_REG_STM_VALWIDTH)\<rparr>
     \<and> sysprint_buf l = empty_print_buf
     \<and> Option.bind (fp_event l) N = Some (systrace_log_filename_event (sl_stm_di_addr l))
     \<and> Option.bind (fp_sysprint l) N = Some (systrace_log_filename_sysprint (sl_stm_di_addr l))"

definition ct_logger :: "(u16 \<times> u16 \<Rightarrow> u16) \<Rightarrow> (nat \<Rightarrow> string option) \<Rightarrow> osd_coretracelogger_ctx \<Rightarrow> bool" where
  "ct_logger R N l \<longleftrightarrow> ready (ct_hostmod_ctx l) \<and> ct_handler_desc l
     \<and> ct_ctm_desc l = \<lparr>ctm_di_addr = ucast (ct_ctm_di_addr l), addr_width_bit = R (ct_ctm_di_addr l, OSD_REG_CTM_ADDR_WIDTH),
          data_width_bit = R (ct_ctm_di_addr l, OSD_REG_CTM_DATA_WIDTH)\<rparr>
     \<and> Option.bind (fp_log l) N = Some (coretrace_log_filename (ct_ctm_di_addr l))"

lemma logger_mono:
  assumes "N \<subseteq>\<^sub>m N'"
  shows "st_logger R N l \<Longrightarrow> st_logger R N' l" "ct_logger R N c \<Longrightarrow> ct_logger R N' c"
proof -
  have m: "N f = Some x \<Longrightarrow> N' f = Some x" for f x using assms by (metis map_le_def domI)
  show "st_logger R N l \<Longrightarrow> st_logger R N' l" "ct_logger R N c \<Longrightarrow> ct_logger R N' c"
    by (auto simp: st_logger_def ct_logger_def bind_eq_Some_conv m)
qed

lemma logger_routed [simp]: "st_logger (routed D A R) N l = st_logger R N l" "ct_logger (routed D A R) N c = ct_logger R N c"
  by (simp_all add: st_logger_def ct_logger_def routed_other reg_consts)

lemma trace_envD:
  assumes "trace_env env a P regs mem names"
  shows "target_env env a (with_files P names N) regs mem"
    "\<exists>q. worker_env (tr_st_zmq env b) q (quiet (with_files P names N) regs mem R M)"
    "\<exists>q. worker_env (tr_ct_zmq env b) q (quiet (with_files P names N) regs mem R M)"
    "quiet (with_files P names N) regs mem R M w \<Longrightarrow>
       \<exists>fp w'. tr_fopen env name w = (Some fp, w') \<and> N fp = None \<and> quiet (with_files P names (N(fp \<mapsto> name))) regs mem R M w'"
    "quiet (with_files P names N) regs mem R M w \<Longrightarrow> quiet (with_files P names (N(fp := None))) regs mem R M (tr_fclose env fp w)"
    "quiet (with_files P names N) regs mem R M w \<Longrightarrow> quiet (with_files P names N) regs mem R M (tr_put_files env fs w)"
  using assms unfolding trace_env_def by blast+

lemma trace_log:
  assumes "trace_env env a P regs mem names" "quiet (with_files P names N) regs mem R M w"
  shows "quiet (with_files P names N) regs mem R M (tr_log env cfg p m w)"
  by (rule tool_log_env [OF tr_envD(6) [OF trace_envD(1) [OF assms(1)]] assms(2)])

lemma trace_deviceD:
  assumes "trace_device env P regs mem names descs" "ready h"
  shows "device_ok (tr_st_zmq env b) h regs (\<lambda>w. with_files P names N w \<and> mem w = M)"
    "device_ok (tr_ct_zmq env b) h regs (\<lambda>w. with_files P names N w \<and> mem w = M)"
  using assms unfolding trace_device_def by blast+

lemma quiet_files: "quiet (with_files P names N) regs mem R M w \<longleftrightarrow> (with_files P names N w \<and> mem w = M) \<and> regs w = R"
  by (auto simp: quiet_def)


section \<open>Setting up the loggers\<close>

lemma run_systrace_env:
  assumes T: "trace_env env a P regs mem names" and D: "trace_device env P regs mem names descs"
    and w: "quiet (with_files P names N) regs mem R M w"
    and m: "identifies OSD_MODULE_TYPE_STD_STM (desc_of R b)" "valid_width (R (b, OSD_REG_STM_VALWIDTH))"
  obtains l f g w' where "run_systrace env cfg b s w
      = Some (OSD_OK, s\<lparr>tr_open_files := tr_open_files s @ [f, g], tr_stloggers := tr_stloggers s @ [l]\<rparr>, w')"
    "N f = None" "N g = None" "f \<noteq> g" "sl_stm_di_addr l = b"
    "st_logger R (N(f \<mapsto> systrace_log_filename_event b, g \<mapsto> systrace_log_filename_sysprint b)) l"
    "quiet (with_files P names (N(f \<mapsto> systrace_log_filename_event b, g \<mapsto> systrace_log_filename_sysprint b))) regs mem
       (events_routed b (hm_diaddr (sl_hostmod_ctx l)) True R) M w'"
proof -
  let ?z = "tr_st_zmq env b" and ?ev = "systrace_log_filename_event b" and ?pr = "systrace_log_filename_sysprint b"
  note log = trace_log [OF T]
  obtain q where W: "worker_env ?z q (quiet (with_files P names N) regs mem R M)" using trace_envD(2) [OF T] by blast
  obtain h0 w1 h w2 where 1: "osd_hostmod_new ?z (tr_uninit env) w = Some (Inr h0, w1)"
    "osd_hostmod_connect ?z h0 w1 = Some (OSD_OK, h, w2)" "quiet (with_files P names N) regs mem R M w2" "ready h"
    using hostmod_connect_env [OF W w, of "tr_uninit env"] by (elim exE conjE)
  obtain f w3 where 2: "tr_fopen env ?ev w2 = (Some f, w3)" "N f = None" "quiet (with_files P names (N(f \<mapsto> ?ev))) regs mem R M w3"
    using trace_envD(4) [OF T 1(3)] by blast
  let ?w3 = "tr_log env cfg LOG_INFO (''Writing system trace event output to file '' @ ?ev) w3"
  obtain g w4 where 3: "tr_fopen env ?pr ?w3 = (Some g, w4)" "(N(f \<mapsto> ?ev)) g = None"
    "quiet (with_files P names (N(f \<mapsto> ?ev, g \<mapsto> ?pr))) regs mem R M w4"
    using trace_envD(4) [OF T log [OF 2(3)]] by blast
  let ?w4 = "tr_log env cfg LOG_INFO (''Writing system trace print output to file '' @ ?pr) w4"
  let ?l = "\<lparr>sl_hostmod_ctx = h, sl_stm_di_addr = b, sl_stm_desc = \<lparr>stm_di_addr = 0, value_width_bit = 0\<rparr>,
     sl_handler_desc = False, fp_sysprint = Some g, fp_event = Some f, sysprint_buf = empty_print_buf,
     sl_stats = \<lparr>overflowed_events = 0, sysprint_events = 0, trace_events = 0\<rparr>\<rparr>"
  let ?l' = "?l\<lparr>sl_stm_desc := \<lparr>stm_di_addr = ucast b, value_width_bit = R (b, OSD_REG_STM_VALWIDTH)\<rparr>, sl_handler_desc := True\<rparr>"
  let ?N = "N(f \<mapsto> ?ev, g \<mapsto> ?pr)"
  have w4: "with_files P names ?N ?w4 \<and> mem ?w4 = M" "regs ?w4 = R" using log [OF 3(3)] by (simp_all add: quiet_files)
  have dev: "device_ok ?z (sl_hostmod_ctx ?l) regs (\<lambda>w. with_files P names ?N w \<and> mem w = M)" using trace_deviceD(1) [OF D 1(4)] by simp
  obtain w5 where 5: "osd_systracelogger_start ?z ?l ?w4 = Some (OSD_OK, ?l', w5)" "with_files P names ?N w5 \<and> mem w5 = M"
    "regs w5 = events_routed b (hm_diaddr h) True R"
    using systrace_start_device [where ctx = ?l and w = ?w4, OF dev w4(1)] m unfolding w4(2) osd_systracelogger_ctx.select_convs by blast
  show thesis
  proof (rule that [of ?l' f g w5])
    show "run_systrace env cfg b s w = Some (OSD_OK, s\<lparr>tr_open_files := tr_open_files s @ [f, g], tr_stloggers := tr_stloggers s @ [?l']\<rparr>, w5)"
      using 1(1,2) 2(1) 3(1) 5(1)
      by (simp add: run_systrace_def osd_systracelogger_new_def osd_systracelogger_connect_def osd_systracelogger_set_event_log_def
          osd_systracelogger_set_sysprint_log_def Let_def)
  qed (use 1(4) 2(2) 3(2) 5(2,3) m(2) in \<open>auto simp: st_logger_def quiet_files split: if_splits\<close>)
qed

lemma set_elf_table:
  assumes "osd_coretracelogger_set_elf junk elf ctx name = Some (rv, ctx')"
  shows "\<exists>n fs. ctx' = ctx\<lparr>num_funcs := n, funcs := fs\<rparr>"
  using assms unfolding osd_coretracelogger_set_elf_def Let_def
  by (auto split: option.splits bind_splits if_splits)

lemma run_coretrace_env:
  assumes T: "trace_env env a P regs mem names" and D: "trace_device env P regs mem names descs"
    and w: "quiet (with_files P names N) regs mem R M w"
    and m: "identifies OSD_MODULE_TYPE_STD_CTM (desc_of R b)" "valid_width (R (b, OSD_REG_CTM_ADDR_WIDTH))"
      "valid_width (R (b, OSD_REG_CTM_DATA_WIDTH))"
    and E: "\<And>ctx. osd_coretracelogger_set_elf (tr_junk_fns env) (tr_elf env) ctx (Some (tr_elf_file args)) \<noteq> None"
  obtains l f w' where "run_coretrace env args cfg b s w
      = Some (OSD_OK, s\<lparr>tr_open_files := tr_open_files s @ [f], tr_ctloggers := tr_ctloggers s @ [l]\<rparr>, w')"
    "N f = None" "ct_ctm_di_addr l = b" "ct_logger R (N(f \<mapsto> coretrace_log_filename b)) l"
    "quiet (with_files P names (N(f \<mapsto> coretrace_log_filename b))) regs mem
       (events_routed b (hm_diaddr (ct_hostmod_ctx l)) True R) M w'"
proof -
  let ?z = "tr_ct_zmq env b" and ?nm = "coretrace_log_filename b"
  note log = trace_log [OF T]
  obtain q where W: "worker_env ?z q (quiet (with_files P names N) regs mem R M)" using trace_envD(3) [OF T] by blast
  obtain h0 w1 h w2 where 1: "osd_hostmod_new ?z (tr_uninit env) w = Some (Inr h0, w1)"
    "osd_hostmod_connect ?z h0 w1 = Some (OSD_OK, h, w2)" "quiet (with_files P names N) regs mem R M w2" "ready h"
    using hostmod_connect_env [OF W w, of "tr_uninit env"] by (elim exE conjE)
  let ?l0 = "\<lparr>ct_hostmod_ctx = h, ct_ctm_di_addr = b, ct_ctm_desc = \<lparr>ctm_di_addr = 0, addr_width_bit = 0, data_width_bit = 0\<rparr>,
     ct_handler_desc = False, fp_log = None, num_funcs = 0, funcs = None\<rparr>"
  obtain rv n fs where e: "osd_coretracelogger_set_elf (tr_junk_fns env) (tr_elf env) ?l0 (Some (tr_elf_file args))
      = Some (rv, ?l0\<lparr>num_funcs := n, funcs := fs\<rparr>)"
    using E [of ?l0] set_elf_table by fastforce
  let ?w2 = "if OSD_FAILED rv
              then tr_log env cfg LOG_ERR (''Unable to use ELF file '' @ tr_elf_file args @ '' to decode control trace.'') w2 else w2"
  have "quiet (with_files P names N) regs mem R M ?w2" using log [OF 1(3)] 1(3) by simp
  then obtain f w3 where 2: "tr_fopen env ?nm ?w2 = (Some f, w3)" "N f = None" "quiet (with_files P names (N(f \<mapsto> ?nm))) regs mem R M w3"
    using trace_envD(4) [OF T] by blast
  let ?w3 = "tr_log env cfg LOG_INFO (''Writing core trace to file '' @ ?nm) w3"
  let ?N = "N(f \<mapsto> ?nm)" and ?l = "?l0\<lparr>num_funcs := n, funcs := fs, fp_log := Some f\<rparr>"
  let ?l' = "?l\<lparr>ct_ctm_desc := \<lparr>ctm_di_addr = ucast b, addr_width_bit = R (b, OSD_REG_CTM_ADDR_WIDTH),
        data_width_bit = R (b, OSD_REG_CTM_DATA_WIDTH)\<rparr>, ct_handler_desc := True\<rparr>"
  have w3: "with_files P names ?N ?w3 \<and> mem ?w3 = M" "regs ?w3 = R" using log [OF 2(3)] by (simp_all add: quiet_files)
  have dev: "device_ok ?z (ct_hostmod_ctx ?l) regs (\<lambda>w. with_files P names ?N w \<and> mem w = M)"
    using trace_deviceD(2) [OF D 1(4)] by simp
  obtain w5 where 5: "osd_coretracelogger_start ?z ?l ?w3 = Some (OSD_OK, ?l', w5)" "with_files P names ?N w5 \<and> mem w5 = M"
    "regs w5 = events_routed b (hm_diaddr h) True R"
    using coretrace_start_device [where ctx = ?l and w = ?w3, OF dev w3(1)] m
    unfolding w3(2) osd_coretracelogger_ctx.select_convs osd_coretracelogger_ctx.update_convs by blast
  show thesis
  proof (rule that [of ?l' f w5])
    show "run_coretrace env args cfg b s w = Some (OSD_OK, s\<lparr>tr_open_files := tr_open_files s @ [f], tr_ctloggers := tr_ctloggers s @ [?l']\<rparr>, w5)"
      using 1(1,2) e 2(1) 5(1)
      by (simp add: run_coretrace_def osd_coretracelogger_new_def osd_coretracelogger_connect_def osd_coretracelogger_set_log_def Let_def)
  qed (use 1(4) 2(2) 5(2,3) m(2,3) in \<open>auto simp: ct_logger_def quiet_files split: if_splits\<close>)
qed


text \<open>
  \<open>traced R N0 s N D\<close>: the loggers of the program know the widths in the registers \<open>R\<close> of their modules, are where \<open>D\<close> says that these send their events, and write to open files with
  the names of their modules; \<open>N0\<close> are the other files.
\<close>

definition traced :: "(u16 \<times> u16 \<Rightarrow> u16) \<Rightarrow> (nat \<Rightarrow> string option) \<Rightarrow> tr_state \<Rightarrow> (nat \<Rightarrow> string option) \<Rightarrow> (u16 \<Rightarrow> u16 option) \<Rightarrow> bool" where
  "traced R N0 s N D \<longleftrightarrow>
     (\<exists>opened. N = N0 ++ map_of opened \<and> distinct (map fst opened) \<and> set (map fst opened) \<inter> dom N0 = {} \<and> tr_open_files s = map fst opened)
   \<and> (\<forall>l \<in> set (tr_stloggers s). st_logger R N l \<and> D (sl_stm_di_addr l) = Some (hm_diaddr (sl_hostmod_ctx l)))
   \<and> (\<forall>l \<in> set (tr_ctloggers s). ct_logger R N l \<and> D (ct_ctm_di_addr l) = Some (hm_diaddr (ct_hostmod_ctx l)))
   \<and> dom D = sl_stm_di_addr ` set (tr_stloggers s) \<union> ct_ctm_di_addr ` set (tr_ctloggers s)"

lemma opened_file:
  assumes "\<exists>opened. N = N0 ++ map_of opened \<and> distinct (map fst opened) \<and> set (map fst opened) \<inter> dom N0 = {} \<and> fs = map fst opened"
    and "N f = None"
  shows "\<exists>opened. N(f \<mapsto> name) = N0 ++ map_of opened \<and> distinct (map fst opened) \<and> set (map fst opened) \<inter> dom N0 = {}
     \<and> fs @ [f] = map fst opened"
proof -
  obtain os where os: "N = N0 ++ map_of os" "distinct (map fst os)" "set (map fst os) \<inter> dom N0 = {}" "fs = map fst os"
    using assms(1) by blast
  have f: "map_of os f = None" "N0 f = None" using assms(2) os(1) by (auto simp: map_add_None)
  then have "f \<notin> set (map fst os)" by (simp add: map_of_eq_None_iff)
  moreover have "N(f \<mapsto> name) = N0 ++ map_of (os @ [(f, name)])"
    using f by (auto simp: os(1) fun_eq_iff map_add_def split: option.split)
  ultimately show ?thesis using os f by (intro exI [of _ "os @ [(f, name)]"]) auto
qed

lemma traced_systrace:
  assumes "traced R N0 s N D" "N f = None" "N g = None" "f \<noteq> g" "D b = None" "sl_stm_di_addr l = b" "st_logger R (N(f \<mapsto> n1, g \<mapsto> n2)) l"
  shows "traced R N0 (s\<lparr>tr_open_files := tr_open_files s @ [f, g], tr_stloggers := tr_stloggers s @ [l]\<rparr>) (N(f \<mapsto> n1, g \<mapsto> n2))
    (D(b \<mapsto> hm_diaddr (sl_hostmod_ctx l)))"
proof -
  note t = assms(1) [unfolded traced_def]
  have le: "N \<subseteq>\<^sub>m N(f \<mapsto> n1, g \<mapsto> n2)" using assms(2,3) by (auto simp: map_le_def)
  have "\<exists>opened. N(f \<mapsto> n1, g \<mapsto> n2) = N0 ++ map_of opened \<and> distinct (map fst opened) \<and> set (map fst opened) \<inter> dom N0 = {}
     \<and> (tr_open_files s @ [f]) @ [g] = map fst opened"
    by (rule opened_file [OF opened_file [OF t [THEN conjunct1] assms(2)]]) (use assms(3,4) in simp)
  moreover have "sl_stm_di_addr x \<noteq> b" if "x \<in> set (tr_stloggers s)" for x using t that assms(5) by auto
  moreover have "ct_ctm_di_addr x \<noteq> b" if "x \<in> set (tr_ctloggers s)" for x using t that assms(5) by auto
  ultimately show ?thesis
    unfolding traced_def using t assms(6,7) logger_mono [OF le] by auto
qed

lemma traced_coretrace:
  assumes "traced R N0 s N D" "N f = None" "D b = None" "ct_ctm_di_addr l = b" "ct_logger R (N(f \<mapsto> n)) l"
  shows "traced R N0 (s\<lparr>tr_open_files := tr_open_files s @ [f], tr_ctloggers := tr_ctloggers s @ [l]\<rparr>) (N(f \<mapsto> n))
    (D(b \<mapsto> hm_diaddr (ct_hostmod_ctx l)))"
proof -
  note t = assms(1) [unfolded traced_def]
  have le: "N \<subseteq>\<^sub>m N(f \<mapsto> n)" using assms(2) by (auto simp: map_le_def)
  have "\<exists>opened. N(f \<mapsto> n) = N0 ++ map_of opened \<and> distinct (map fst opened) \<and> set (map fst opened) \<inter> dom N0 = {}
     \<and> tr_open_files s @ [f] = map fst opened"
    by (rule opened_file [OF t [THEN conjunct1] assms(2)])
  moreover have "sl_stm_di_addr x \<noteq> b" if "x \<in> set (tr_stloggers s)" for x using t that assms(3) by auto
  moreover have "ct_ctm_di_addr x \<noteq> b" if "x \<in> set (tr_ctloggers s)" for x using t that assms(3) by auto
  ultimately show ?thesis
    unfolding traced_def using t assms(4,5) logger_mono [OF le] by auto
qed

definition st_modules :: "tr_args \<Rightarrow> osd_module_desc list \<Rightarrow> osd_module_desc list" where
  "st_modules a ms = filter (\<lambda>m. tr_systrace a \<and> is_osd_module OSD_MODULE_TYPE_STD_STM m) ms"

definition ct_modules :: "tr_args \<Rightarrow> osd_module_desc list \<Rightarrow> osd_module_desc list" where
  "ct_modules a ms = filter (\<lambda>m. tr_coretrace a \<and> is_osd_module OSD_MODULE_TYPE_STD_CTM m) ms"

definition same_devices :: "tr_state \<Rightarrow> tr_state \<Rightarrow> bool" where
  "same_devices s s' \<longleftrightarrow> tr_hostctrl_ctx s' = tr_hostctrl_ctx s \<and> tr_gateway_ctx s' = tr_gateway_ctx s \<and> tr_terminal_ctx s' = tr_terminal_ctx s"

lemma st_not_ct: "is_osd_module OSD_MODULE_TYPE_STD_STM m \<Longrightarrow> \<not> is_osd_module OSD_MODULE_TYPE_STD_CTM m"
  by (simp add: is_osd_module_def OSD_MODULE_TYPE_STD_STM_def OSD_MODULE_TYPE_STD_CTM_def)

lemma trace_modules_env:
  assumes T: "trace_env env a P regs mem names" and D: "trace_device env P regs mem names descs"
    and E: "tr_coretrace a \<longrightarrow> (\<forall>ctx. osd_coretracelogger_set_elf (tr_junk_fns env) (tr_elf env) ctx (Some (tr_elf_file a)) \<noteq> None)"
  shows "traced R N0 s N Dst \<Longrightarrow> quiet (with_files P names N) regs mem (routed Dst (dom Dst) R) M w \<Longrightarrow> distinct (map mod_addr ms)
    \<Longrightarrow> \<forall>m \<in> set ms. Dst (mod_addr m) = None \<and> trace_ok R m
    \<Longrightarrow> \<exists>s' N' D' w'. trace_modules env a cfg ms s w = Some (OSD_OK, s', w') \<and> traced R N0 s' N' D'
       \<and> quiet (with_files P names N') regs mem (routed D' (dom D') R) M w' \<and> same_devices s s'
       \<and> map sl_stm_di_addr (tr_stloggers s') = map sl_stm_di_addr (tr_stloggers s) @ map mod_addr (st_modules a ms)
       \<and> map ct_ctm_di_addr (tr_ctloggers s') = map ct_ctm_di_addr (tr_ctloggers s) @ map mod_addr (ct_modules a ms)"
proof (induction ms arbitrary: s N Dst w)
  case Nil
  then show ?case by (auto simp: same_devices_def st_modules_def ct_modules_def)
next
  case (Cons m ms)
  let ?b = "mod_addr m"
  have b: "Dst ?b = None" "m = desc_of R ?b" "\<forall>m \<in> set ms. mod_addr m \<noteq> ?b" using Cons.prems(3,4) by (auto simp: trace_ok_def image_iff)
  have rest: "distinct (map mod_addr ms)" "\<forall>m \<in> set ms. (Dst(?b \<mapsto> d)) (mod_addr m) = None \<and> trace_ok R m" for d
    using Cons.prems(3,4) b(3) by auto
  show ?case
  proof (cases "tr_coretrace a \<and> is_osd_module OSD_MODULE_TYPE_STD_CTM m")
    case True
    have m: "identifies OSD_MODULE_TYPE_STD_CTM (desc_of (routed Dst (dom Dst) R) ?b)"
      "valid_width (routed Dst (dom Dst) R (?b, OSD_REG_CTM_ADDR_WIDTH))" "valid_width (routed Dst (dom Dst) R (?b, OSD_REG_CTM_DATA_WIDTH))"
      using True Cons.prems(4) b by (auto simp: trace_ok_def identifies_def is_osd_module_def routed_none desc_of_def)
    obtain l f w1 where 1: "run_coretrace env a cfg ?b s w
        = Some (OSD_OK, s\<lparr>tr_open_files := tr_open_files s @ [f], tr_ctloggers := tr_ctloggers s @ [l]\<rparr>, w1)"
      "N f = None" "ct_ctm_di_addr l = ?b" "ct_logger R (N(f \<mapsto> coretrace_log_filename ?b)) l"
      "quiet (with_files P names (N(f \<mapsto> coretrace_log_filename ?b))) regs mem
        (events_routed ?b (hm_diaddr (ct_hostmod_ctx l)) True (routed Dst (dom Dst) R)) M w1"
      using run_coretrace_env [OF T D Cons.prems(2) m, of a, unfolded logger_routed] E True by metis
    let ?s = "s\<lparr>tr_open_files := tr_open_files s @ [f], tr_ctloggers := tr_ctloggers s @ [l]\<rparr>"
    have q: "quiet (with_files P names (N(f \<mapsto> coretrace_log_filename ?b))) regs mem
       (routed (Dst(?b \<mapsto> hm_diaddr (ct_hostmod_ctx l))) (dom (Dst(?b \<mapsto> hm_diaddr (ct_hostmod_ctx l)))) R) M w1"
      using 1(5) by (simp add: routed_start b(1))
    obtain s' N' D' w' where 2: "trace_modules env a cfg ms ?s w1 = Some (OSD_OK, s', w')" "traced R N0 s' N' D'"
       "quiet (with_files P names N') regs mem (routed D' (dom D') R) M w'" "same_devices ?s s'"
       "map sl_stm_di_addr (tr_stloggers s') = map sl_stm_di_addr (tr_stloggers ?s) @ map mod_addr (st_modules a ms)"
       "map ct_ctm_di_addr (tr_ctloggers s') = map ct_ctm_di_addr (tr_ctloggers ?s) @ map mod_addr (ct_modules a ms)"
      using Cons.IH [OF traced_coretrace [OF Cons.prems(1) 1(2) b(1) 1(3,4)] q rest] by (elim exE conjE)
    have "\<not> is_osd_module OSD_MODULE_TYPE_STD_STM m" using True st_not_ct by blast
    then show ?thesis using True 1(1,3) 2 by (intro exI [of _ s'] exI) (auto simp: same_devices_def st_modules_def ct_modules_def)
  next
    case noct: False
    show ?thesis
    proof (cases "tr_systrace a \<and> is_osd_module OSD_MODULE_TYPE_STD_STM m")
      case True
      have m: "identifies OSD_MODULE_TYPE_STD_STM (desc_of (routed Dst (dom Dst) R) ?b)"
        "valid_width (routed Dst (dom Dst) R (?b, OSD_REG_STM_VALWIDTH))"
        using True Cons.prems(4) b by (auto simp: trace_ok_def identifies_def is_osd_module_def routed_none desc_of_def)
      obtain l f g w1 where 1: "run_systrace env cfg ?b s w
          = Some (OSD_OK, s\<lparr>tr_open_files := tr_open_files s @ [f, g], tr_stloggers := tr_stloggers s @ [l]\<rparr>, w1)"
        "N f = None" "N g = None" "f \<noteq> g" "sl_stm_di_addr l = ?b"
        "st_logger R (N(f \<mapsto> systrace_log_filename_event ?b, g \<mapsto> systrace_log_filename_sysprint ?b)) l"
        "quiet (with_files P names (N(f \<mapsto> systrace_log_filename_event ?b, g \<mapsto> systrace_log_filename_sysprint ?b))) regs mem
          (events_routed ?b (hm_diaddr (sl_hostmod_ctx l)) True (routed Dst (dom Dst) R)) M w1"
        using run_systrace_env [OF T D Cons.prems(2) m, unfolded logger_routed] .
      let ?s = "s\<lparr>tr_open_files := tr_open_files s @ [f, g], tr_stloggers := tr_stloggers s @ [l]\<rparr>"
      have q: "quiet (with_files P names (N(f \<mapsto> systrace_log_filename_event ?b, g \<mapsto> systrace_log_filename_sysprint ?b))) regs mem
         (routed (Dst(?b \<mapsto> hm_diaddr (sl_hostmod_ctx l))) (dom (Dst(?b \<mapsto> hm_diaddr (sl_hostmod_ctx l)))) R) M w1"
        using 1(7) by (simp add: routed_start b(1))
      obtain s' N' D' w' where 2: "trace_modules env a cfg ms ?s w1 = Some (OSD_OK, s', w')" "traced R N0 s' N' D'"
         "quiet (with_files P names N') regs mem (routed D' (dom D') R) M w'" "same_devices ?s s'"
         "map sl_stm_di_addr (tr_stloggers s') = map sl_stm_di_addr (tr_stloggers ?s) @ map mod_addr (st_modules a ms)"
         "map ct_ctm_di_addr (tr_ctloggers s') = map ct_ctm_di_addr (tr_ctloggers ?s) @ map mod_addr (ct_modules a ms)"
        using Cons.IH [OF traced_systrace [OF Cons.prems(1) 1(2,3,4) b(1) 1(5,6)] q rest] by (elim exE conjE)
      show ?thesis using True noct 1(1,5) 2 by (intro exI [of _ s'] exI) (auto simp: same_devices_def st_modules_def ct_modules_def)
    next
      case False
      have "\<forall>m \<in> set ms. Dst (mod_addr m) = None \<and> trace_ok R m" using Cons.prems(4) by simp
      from Cons.IH [OF Cons.prems(1,2) rest(1) this] show ?thesis
        using False noct by (auto simp: st_modules_def ct_modules_def)
    qed
  qed
qed


section \<open>Enumerating the modules\<close>

lemma distinct_modules:
  assumes "modules_ok R"
  shows "distinct (map mod_addr (modules R))" "m \<in> set (modules R) \<Longrightarrow> m = desc_of R (mod_addr m)"
proof -
  have n: "unat (R (0, OSD_REG_SCM_NUM_MOD)) \<le> 1024" using assms by (simp add: modules_ok_def)
  have of_nat_eq: "i = j" if "(of_nat i :: u16) = of_nat j" "i < unat (R (0, OSD_REG_SCM_NUM_MOD))" "j < unat (R (0, OSD_REG_SCM_NUM_MOD))" for i j
  proof -
    have "unat (of_nat k :: u16) = k" if "k < unat (R (0, OSD_REG_SCM_NUM_MOD))" for k
      using that n by (simp add: unsigned_of_nat take_bit_nat_eq_self)
    then show ?thesis using that by metis
  qed
  then have "inj_on (of_nat :: nat \<Rightarrow> u16) {0..<unat (R (0, OSD_REG_SCM_NUM_MOD))}"
    using of_nat_eq by (intro inj_onI) auto
  then show "distinct (map mod_addr (modules R))" by (simp add: modules_def desc_of_def comp_def distinct_map)
  show "m \<in> set (modules R) \<Longrightarrow> m = desc_of R (mod_addr m)" by (auto simp: modules_def desc_of_def)
qed

lemma run_tracing_env:
  assumes T: "trace_env env a P regs mem names" and D: "trace_device env P regs mem names descs"
    and E: "tr_coretrace a \<longrightarrow> (\<forall>ctx. osd_coretracelogger_set_elf (tr_junk_fns env) (tr_elf env) ctx (Some (tr_elf_file a)) \<noteq> None)"
    and w: "quiet (with_files P names N) regs mem R M w" and ok: "modules_ok R" "\<forall>m \<in> set (modules R). trace_ok R m"
    and s: "tr_stloggers s = []" "tr_ctloggers s = []" "tr_open_files s = []"
  shows "\<exists>s' N' D' w'. run_tracing env a cfg s w = Some (OSD_OK, s', w') \<and> traced R N s' N' D'
       \<and> quiet (with_files P names N') regs mem (routed D' (dom D') R) M w' \<and> same_devices s s'
       \<and> map sl_stm_di_addr (tr_stloggers s') = map mod_addr (st_modules a (modules R))
       \<and> map ct_ctm_di_addr (tr_ctloggers s') = map mod_addr (ct_modules a (modules R))"
proof -
  let ?z = "tr_enum_zmq env"
  have TD: "target_device env (with_files P names N) regs mem descs" for N using D by (simp add: trace_device_def)
  obtain q where W: "worker_env ?z q (quiet (with_files P names N) regs mem R M)" using tr_envD(4) [OF trace_envD(1) [OF T]] by blast
  obtain h0 w1 h w2 where 1: "osd_hostmod_new ?z (tr_uninit env) w = Some (Inr h0, w1)"
    "osd_hostmod_connect ?z h0 w1 = Some (OSD_OK, h, w2)" "quiet (with_files P names N) regs mem R M w2" "ready h"
    using hostmod_connect_env [OF W w, of "tr_uninit env"] by (elim exE conjE)
  have dev: "device_ok ?z h regs (\<lambda>w. with_files P names N w \<and> mem w = M)" using TD 1(4) unfolding target_device_def by blast
  obtain w3 where 2: "osd_hostmod_get_modules ?z h 0 w2 = Some (OSD_OK, Some (modules R), w3)" "quiet (with_files P names N) regs mem R M w3"
    using get_modules_quiet [OF dev 1(3) ok(1)] by blast
  have t0: "traced R N s N Map.empty" using s by (simp add: traced_def)
  have m0: "\<forall>m \<in> set (modules R). Map.empty (mod_addr m) = None \<and> trace_ok R m" using ok(2) by simp
  have q0: "quiet (with_files P names N) regs mem (routed Map.empty (dom Map.empty) R) M w3" using 2(2) by simp
  obtain s' N' D' w4 where 3: "trace_modules env a cfg (modules R) s w3 = Some (OSD_OK, s', w4)" "traced R N s' N' D'"
     "quiet (with_files P names N') regs mem (routed D' (dom D') R) M w4" "same_devices s s'"
     "map sl_stm_di_addr (tr_stloggers s') = map sl_stm_di_addr (tr_stloggers s) @ map mod_addr (st_modules a (modules R))"
     "map ct_ctm_di_addr (tr_ctloggers s') = map ct_ctm_di_addr (tr_ctloggers s) @ map mod_addr (ct_modules a (modules R))"
    using trace_modules_env [OF T D E t0 q0 distinct_modules(1) [OF ok(1)] m0, where cfg = cfg] by (elim exE conjE)
  obtain q' where W': "worker_env ?z q' (quiet (with_files P names N') regs mem (routed D' (dom D') R) M)"
    using tr_envD(4) [OF trace_envD(1) [OF T]] by blast
  obtain h' w5 w6 where 4: "osd_hostmod_disconnect ?z h w4 = Some (OSD_OK, h', w5)"
     "osd_hostmod_free ?z (Some h') w5 = Some (None, w6)" "quiet (with_files P names N') regs mem (routed D' (dom D') R) M w6"
    using hostmod_disconnect_env [OF W' 3(3) 1(4)] by blast
  have "run_tracing env a cfg s w = Some (OSD_OK, s', w6)"
    using 1(1,2) 2(1) 3(1) 4(1,2) by (simp add: run_tracing_def DEVICE_SUBNET_ADDRESS_def free_enum_def c_free_def)
  then show ?thesis using 3 4(3) s by (intro exI [of _ s'] exI [of _ N'] exI [of _ D'] exI [of _ w6]) simp
qed

section \<open>Cleaning up\<close>

lemma free_stloggers_env:
  assumes T: "trace_env env a P regs mem names" and D: "trace_device env P regs mem names descs"
  shows "\<forall>l \<in> set ls. ready (sl_hostmod_ctx l) \<and> sysprint_buf l = empty_print_buf \<and> sl_stm_di_addr l \<in> dom Dst
    \<Longrightarrow> quiet (with_files P names N) regs mem (routed Dst A R) M w
    \<Longrightarrow> \<exists>w'. free_stloggers env ls w = Some w' \<and> quiet (with_files P names N) regs mem (routed Dst (A - sl_stm_di_addr ` set ls) R) M w'"
proof (induction ls arbitrary: A w)
  case (Cons l ls)
  let ?b = "sl_stm_di_addr l"
  let ?z = "tr_st_zmq env ?b"
  have l: "ready (sl_hostmod_ctx l)" "len_str (sysprint_buf l) = 0" "?b \<in> dom Dst" using Cons.prems(1) by (auto simp: empty_print_buf_def)
  have w: "with_files P names N w \<and> mem w = M" "regs w = routed Dst A R" using Cons.prems(2) by (simp_all add: quiet_files)
  obtain w1 where 1: "osd_systracelogger_stop ?z l w = Some (OSD_OK, w1)" "with_files P names N w1 \<and> mem w1 = M"
    "regs w1 = (regs w)((?b, OSD_REG_BASE_MOD_CS) := unset_bit OSD_REG_BASE_MOD_CS_ACTIVE_BIT (regs w (?b, OSD_REG_BASE_MOD_CS)))"
    using systrace_stop_device [OF trace_deviceD(1) [OF D l(1)] w(1)] .
  have q1: "quiet (with_files P names N) regs mem (routed Dst (A - {?b}) R) M w1"
    using 1(2,3) w(2) by (simp add: quiet_files routed_stop [OF l(3)])
  obtain q where W: "worker_env ?z q (quiet (with_files P names N) regs mem (routed Dst (A - {?b}) R) M)" using trace_envD(2) [OF T] by blast
  obtain h w2 w3 where 2: "osd_hostmod_disconnect ?z (sl_hostmod_ctx l) w1 = Some (OSD_OK, h, w2)"
     "osd_hostmod_free ?z (Some h) w2 = Some (None, w3)" "quiet (with_files P names N) regs mem (routed Dst (A - {?b}) R) M w3"
    using hostmod_disconnect_env [OF W q1 l(1)] by blast
  have "quiet (with_files P names N) regs mem (routed Dst (A - {?b}) R) M (tr_put_files env (tr_files env w2) w3)"
    by (rule trace_envD(6) [OF T 2(3)])
  moreover have "\<forall>l \<in> set ls. ready (sl_hostmod_ctx l) \<and> sysprint_buf l = empty_print_buf \<and> sl_stm_di_addr l \<in> dom Dst"
    using Cons.prems(1) by simp
  ultimately obtain w4 where
    3: "free_stloggers env ls (tr_put_files env (tr_files env w2) w3) = Some w4"
    "quiet (with_files P names N) regs mem (routed Dst (A - {?b} - sl_stm_di_addr ` set ls) R) M w4" using Cons.IH by blast
  have "free_stloggers env (l # ls) w = Some w4"
    using 1(1) 2(1,2) 3(1) l(2) by (simp add: osd_systracelogger_disconnect_def osd_systracelogger_free_def Let_def)
  moreover have "A - {?b} - sl_stm_di_addr ` set ls = A - sl_stm_di_addr ` set (l # ls)" by auto
  ultimately show ?case using 3(2) by metis
qed simp

lemma free_ctloggers_env:
  assumes T: "trace_env env a P regs mem names" and D: "trace_device env P regs mem names descs"
  shows "\<forall>l \<in> set ls. ready (ct_hostmod_ctx l) \<and> ct_ctm_di_addr l \<in> dom Dst
    \<Longrightarrow> quiet (with_files P names N) regs mem (routed Dst A R) M w
    \<Longrightarrow> \<exists>w'. free_ctloggers env ls w = Some w' \<and> quiet (with_files P names N) regs mem (routed Dst (A - ct_ctm_di_addr ` set ls) R) M w'"
proof (induction ls arbitrary: A w)
  case (Cons l ls)
  let ?b = "ct_ctm_di_addr l"
  let ?z = "tr_ct_zmq env ?b"
  have l: "ready (ct_hostmod_ctx l)" "?b \<in> dom Dst" using Cons.prems(1) by auto
  have w: "with_files P names N w \<and> mem w = M" "regs w = routed Dst A R" using Cons.prems(2) by (simp_all add: quiet_files)
  obtain w1 where 1: "osd_coretracelogger_stop ?z l w = Some (OSD_OK, w1)" "with_files P names N w1 \<and> mem w1 = M"
    "regs w1 = (regs w)((?b, OSD_REG_BASE_MOD_CS) := unset_bit OSD_REG_BASE_MOD_CS_ACTIVE_BIT (regs w (?b, OSD_REG_BASE_MOD_CS)))"
    using coretrace_stop_device [OF trace_deviceD(2) [OF D l(1)] w(1)] .
  have q1: "quiet (with_files P names N) regs mem (routed Dst (A - {?b}) R) M w1"
    using 1(2,3) w(2) by (simp add: quiet_files routed_stop [OF l(2)])
  obtain q where W: "worker_env ?z q (quiet (with_files P names N) regs mem (routed Dst (A - {?b}) R) M)" using trace_envD(3) [OF T] by blast
  obtain h w2 w3 where 2: "osd_hostmod_disconnect ?z (ct_hostmod_ctx l) w1 = Some (OSD_OK, h, w2)"
     "osd_hostmod_free ?z (Some h) w2 = Some (None, w3)" "quiet (with_files P names N) regs mem (routed Dst (A - {?b}) R) M w3"
    using hostmod_disconnect_env [OF W q1 l(1)] by blast
  have "\<forall>l \<in> set ls. ready (ct_hostmod_ctx l) \<and> ct_ctm_di_addr l \<in> dom Dst" using Cons.prems(1) by simp
  from Cons.IH [OF this 2(3)] obtain w4 where 3: "free_ctloggers env ls w3 = Some w4"
    "quiet (with_files P names N) regs mem (routed Dst (A - {?b} - ct_ctm_di_addr ` set ls) R) M w4" by blast
  have "free_ctloggers env (l # ls) w = Some w4"
    using 1(1) 2(1,2) 3(1) by (simp add: osd_coretracelogger_disconnect_def osd_coretracelogger_free_def Let_def)
  moreover have "A - {?b} - ct_ctm_di_addr ` set ls = A - ct_ctm_di_addr ` set (l # ls)" by auto
  ultimately show ?case using 3(2) by metis
qed simp

lemma close_files_env:
  assumes T: "trace_env env a P regs mem names"
  shows "distinct (map fst opened) \<Longrightarrow> set (map fst opened) \<inter> dom N = {}
    \<Longrightarrow> quiet (with_files P names (N ++ map_of opened)) regs mem R M w
    \<Longrightarrow> quiet (with_files P names N) regs mem R M (fold (tr_fclose env) (map fst opened) w)"
proof (induction opened arbitrary: w)
  case (Cons x opened)
  obtain f n where x: "x = (f, n)" by (cases x)
  have f: "N f = None" "map_of opened f = None" using Cons.prems(1,2) by (auto simp: x map_of_eq_None_iff)
  have "(N ++ map_of (x # opened))(f := None) = N ++ map_of opened"
    using f by (auto simp: x fun_eq_iff map_add_def split: option.split)
  from trace_envD(5) [OF T Cons.prems(3), of f, unfolded this]
  have "quiet (with_files P names (N ++ map_of opened)) regs mem R M (tr_fclose env f w)" .
  then show ?case using Cons by (simp add: x)
qed simp


section \<open>The run\<close>

lemma memories_routed:
  assumes "\<forall>b \<in> dom D. \<not> is_supported_mam (desc_of R b)" "modules_ok R"
  shows "memories (routed D A R) = memories R"
proof -
  have "mem_desc_of (routed D A R) (mod_addr m) = mem_desc_of R (mod_addr m)" if "m \<in> set (filter is_supported_mam (modules R))" for m
  proof (rule mem_desc_of_cong)
    fix r
    have m: "m = desc_of R (mod_addr m)" "is_supported_mam m" using distinct_modules(2) [OF assms(2)] that by simp_all
    then have "mod_addr m \<notin> dom D" using assms(1) by metis
    then have "D (mod_addr m) = None" by blast
    then show "routed D A R (mod_addr m, r) = R (mod_addr m, r)" by (rule routed_none)
  qed
  then show ?thesis unfolding memories_def modules_routed by (intro map_cong refl)
qed

lemma modules_ok_routed:
  assumes "\<forall>b \<in> dom D. \<not> is_supported_mam (desc_of R b)" "modules_ok R"
  shows "modules_ok (routed D A R)"
  using assms(2) memories_routed [OF assms, of A] unfolding modules_ok_def modules_routed
  by (simp add: routed_other reg_consts)

lemma traced_modules:
  assumes "traced R N s N' D" "modules_ok R" "map sl_stm_di_addr (tr_stloggers s) = map mod_addr (st_modules a (modules R))"
    "map ct_ctm_di_addr (tr_ctloggers s) = map mod_addr (ct_modules a (modules R))"
  shows "dom D = mod_addr ` set (st_modules a (modules R) @ ct_modules a (modules R))" "\<forall>b \<in> dom D. \<not> is_supported_mam (desc_of R b)"
proof -
  have "sl_stm_di_addr ` set (tr_stloggers s) = mod_addr ` set (st_modules a (modules R))"
    "ct_ctm_di_addr ` set (tr_ctloggers s) = mod_addr ` set (ct_modules a (modules R))"
    using assms(3,4) by (metis list.set_map)+
  then show d: "dom D = mod_addr ` set (st_modules a (modules R) @ ct_modules a (modules R))"
    using assms(1) by (simp add: traced_def image_Un)
  show "\<forall>b \<in> dom D. \<not> is_supported_mam (desc_of R b)"
  proof
    fix b assume "b \<in> dom D"
    then obtain m where m: "m \<in> set (st_modules a (modules R)) \<union> set (ct_modules a (modules R))" "b = mod_addr m" unfolding d by auto
    then have "m = desc_of R b" using distinct_modules(2) [OF assms(2)] by (auto simp: st_modules_def ct_modules_def)
    then show "\<not> is_supported_mam (desc_of R b)"
      using m(1) by (auto simp: st_modules_def ct_modules_def is_osd_module_def is_supported_mam_def OSD_MODULE_TYPE_STD_STM_def
          OSD_MODULE_TYPE_STD_CTM_def OSD_MODULE_TYPE_STD_MAM_def)
  qed
qed

lemma free_return_traced:
  assumes T: "trace_env env a P regs mem names" and D: "trace_device env P regs mem names descs"
    and s: "traced R0 N s N' Dst" "tr_hostctrl_ctx s = Some c" "tr_gateway_ctx s = Some g" "tr_terminal_ctx s = None"
    and c: "hc_is_running c" "hc_ioworker_ctx c" "gw_ioworker_ctx (gg_gw_ctx g)"
    and w: "quiet (with_files P names N') regs mem (routed Dst (dom Dst) R) M w"
  shows "\<exists>w'. tr_free_return env cfg 0 s w = Some (0, w') \<and> quiet (with_files P names N) regs mem (routed Dst {} R) M w'"
proof -
  note log = trace_log [OF T]
  note t = s(1) [unfolded traced_def]
  let ?w = "tr_log env cfg LOG_DEBUG ''Shutting down systrace loggers'' (tr_log env cfg LOG_DEBUG ''Shutting down terminal'' w)"
  have st: "\<forall>l \<in> set (tr_stloggers s). ready (sl_hostmod_ctx l) \<and> sysprint_buf l = empty_print_buf \<and> sl_stm_di_addr l \<in> dom Dst"
    using t by (auto simp: st_logger_def)
  have ct: "\<forall>l \<in> set (tr_ctloggers s). ready (ct_hostmod_ctx l) \<and> ct_ctm_di_addr l \<in> dom Dst" using t by (auto simp: ct_logger_def)
  obtain w1 where 1: "free_stloggers env (tr_stloggers s) ?w = Some w1"
    "quiet (with_files P names N') regs mem (routed Dst (dom Dst - sl_stm_di_addr ` set (tr_stloggers s)) R) M w1"
    using free_stloggers_env [OF T D st log [OF log [OF w]]] by blast
  let ?w1 = "tr_log env cfg LOG_DEBUG ''Shutting down core trace loggers'' w1"
  obtain w2 where 2: "free_ctloggers env (tr_ctloggers s) ?w1 = Some w2"
    "quiet (with_files P names N') regs mem
       (routed Dst (dom Dst - sl_stm_di_addr ` set (tr_stloggers s) - ct_ctm_di_addr ` set (tr_ctloggers s)) R) M w2"
    using free_ctloggers_env [OF T D ct log [OF 1(2)]] by blast
  have "dom Dst - sl_stm_di_addr ` set (tr_stloggers s) - ct_ctm_di_addr ` set (tr_ctloggers s) = {}" using t by auto
  from 2(2) [unfolded this]
  have q2: "quiet (with_files P names N') regs mem (routed Dst {} R) M (tr_log env cfg LOG_DEBUG ''Closing open files'' w2)" by (rule log)
  obtain opened where o: "N' = N ++ map_of opened" "distinct (map fst opened)" "set (map fst opened) \<inter> dom N = {}"
    "tr_open_files s = map fst opened" using t by blast
  let ?Q = "quiet (with_files P names N) regs mem (routed Dst {} R) M"
  have q3: "?Q (fold (tr_fclose env) (tr_open_files s) (tr_log env cfg LOG_DEBUG ''Closing open files'' w2))"
    unfolding o(4) by (rule close_files_env [OF T o(2,3) q2 [unfolded o(1)]])
  note TE = trace_envD(1) [OF T]
  obtain q5 q6 where W: "worker_env (tr_hc_zmq env) q5 ?Q" "worker_env (tr_gw_zmq env) q6 ?Q" using tr_envD(1,2) [OF TE] by blast
  show ?thesis
    by (rule free_return_env [OF W tr_envD(5) [OF TE] tr_envD(6) [OF TE] c s(2,3) _ 1(1) 2(1) q3]) (simp add: free_terminal_def s(4))
qed

lemma with_stopped_cpus_traced:
  assumes T: "trace_env env a P regs mem names" and D: "trace_device env P regs mem names (set (memories R))" "cpus_stopped R"
    and E: "tr_coretrace a \<longrightarrow> (\<forall>ctx. osd_coretracelogger_set_elf (tr_junk_fns env) (tr_elf env) ctx (Some (tr_elf_file a)) \<noteq> None)"
    and ma: "ready (ma_hostmod_ctx ma)" and S: "elf_holds (tr_elf env) (tr_elf_file a) segs" "\<forall>d \<in> set (memories R). \<forall>sg \<in> set segs. seg_ok d sg"
    and ok: "modules_ok R" "\<forall>m \<in> set (modules R). trace_ok R m" and off: "\<not> tr_terminal a"
    and w: "quiet (with_files P names N) regs mem R M w" and c: "hc_is_running c" "hc_ioworker_ctx c" "gw_ioworker_ctx (gg_gw_ctx g)"
  shows "\<exists>D' w'. with_stopped_cpus env a cfg ma (tr_init\<lparr>tr_hostctrl_ctx := Some c, tr_gateway_ctx := Some g\<rparr>) w = Some (0, w')
     \<and> dom D' = mod_addr ` set (st_modules a (modules R) @ ct_modules a (modules R))
     \<and> quiet (with_files P names N) regs mem
         (routed D' {} (R((0, OSD_REG_SCM_SYSRST) := unset_bit OSD_REG_SCM_SYSRST_CPU_RST_BIT (R (0, OSD_REG_SCM_SYSRST)))))
         (load_all segs (memories R) M) w'"
proof -
  note log = trace_log [OF T]
  let ?s = "tr_init\<lparr>tr_hostctrl_ctx := Some c, tr_gateway_ctx := Some g\<rparr>"
  let ?w = "tr_log env cfg LOG_INFO ''Setting up tracing'' w"
  have s: "tr_stloggers ?s = []" "tr_ctloggers ?s = []" "tr_open_files ?s = []" by (simp_all add: tr_init_def)
  have w0: "quiet (with_files P names N) regs mem R M ?w" by (rule log [OF w])
  obtain s' N' D' w1 where 1: "run_tracing env a cfg ?s ?w = Some (OSD_OK, s', w1)" "traced R N s' N' D'"
       "quiet (with_files P names N') regs mem (routed D' (dom D') R) M w1" "same_devices ?s s'"
       "map sl_stm_di_addr (tr_stloggers s') = map mod_addr (st_modules a (modules R))"
       "map ct_ctm_di_addr (tr_ctloggers s') = map mod_addr (ct_modules a (modules R))"
    using run_tracing_env [OF T D(1) E w0 ok s, where cfg = cfg] by (elim exE conjE)
  note dom = traced_modules [OF 1(2) ok(1) 1(5,6)]
  let ?R = "routed D' (dom D') R"
  note mm = memories_routed [OF dom(2) ok(1), of "dom D'"]
  have TD: "target_device env (with_files P names N') regs mem (set (memories ?R))" using D(1) by (simp add: trace_device_def mm)
  have st: "cpus_stopped ?R" using D(2) by (simp add: cpus_stopped_def)
  have sg: "\<forall>d \<in> set (memories ?R). \<forall>sg \<in> set segs. seg_ok d sg" using S(2) by (simp add: mm)
  let ?w1 = "tr_log env cfg LOG_INFO ''Setting up terminal'' w1"
  have w1: "quiet (with_files P names N') regs mem ?R M ?w1" by (rule log [OF 1(3)])
  obtain w2 where 2: "load_and_go env a cfg ma ?w1 = Some (0, w2)"
    "quiet (with_files P names N') regs mem
       (?R((0, OSD_REG_SCM_SYSRST) := unset_bit OSD_REG_SCM_SYSRST_CPU_RST_BIT (?R (0, OSD_REG_SCM_SYSRST))))
       (load_all segs (memories ?R) M) w2"
    using load_and_go_quiet [OF trace_envD(1) [OF T] TD st ma S(1) modules_ok_routed [OF dom(2) ok(1)] sg w1, where cfg = cfg]
    by (elim exE conjE)
  let ?R2 = "R((0, OSD_REG_SCM_SYSRST) := unset_bit OSD_REG_SCM_SYSRST_CPU_RST_BIT (R (0, OSD_REG_SCM_SYSRST)))"
  have r: "OSD_REG_SCM_SYSRST \<noteq> OSD_REG_BASE_MOD_EVENT_DEST" "OSD_REG_SCM_SYSRST \<noteq> OSD_REG_BASE_MOD_CS" by (simp_all add: reg_consts)
  have q: "quiet (with_files P names N') regs mem (routed D' (dom D') ?R2) (load_all segs (memories R) M) w2"
    using 2(2) unfolding mm sysrst_routed routed_upd [OF r] .
  have d: "tr_hostctrl_ctx s' = Some c" "tr_gateway_ctx s' = Some g" "tr_terminal_ctx s' = None"
    using 1(4) by (simp_all add: same_devices_def tr_init_def)
  obtain w3 where "tr_free_return env cfg 0 s' w2 = Some (0, w3)"
    "quiet (with_files P names N) regs mem (routed D' {} ?R2) (load_all segs (memories R) M) w3"
    using free_return_traced [OF T D(1) 1(2) d c q, of cfg] by blast
  then show ?thesis using 1(1) 2(1) off dom(1) by (intro exI [of _ D'] exI [of _ w3]) (simp add: with_stopped_cpus_def run_terminal_def)
qed

section \<open>A simulated target with trace modules\<close>

lemma with_files_ts: "with_files (ts_ok (\<lambda>_. True)) ts_names N = ts_ok (\<lambda>x. x = N)"
  by (simp add: with_files_def ts_ok_def fun_eq_iff)

lemma ts_files_upd:
  "ts_names (w\<lparr>ts_files := ts_files w @ [Some name]\<rparr>) = (ts_names w)(length (ts_files w) \<mapsto> name)"
  "ts_names (w\<lparr>ts_files := (ts_files w)[fp := None]\<rparr>) = (ts_names w)(fp := None)"
  "ts_names w (length (ts_files w)) = None" "ts_mem desc (w\<lparr>ts_files := fs\<rparr>) = ts_mem desc w"
  by (auto simp: ts_names_def ts_mem_def fun_eq_iff nth_append)

lemma demo_trace_env: "trace_env (demo_target desc) a (ts_ok (\<lambda>_. True)) ts_regs (ts_mem desc) ts_names"
proof -
  have w: "\<exists>q. worker_env (target_zmq desc) q (quiet (ts_ok (\<lambda>x. x = N)) ts_regs (ts_mem desc) R M)" for N R M
    using target_worker_env by blast
  have o: "N (length (ts_files w)) = None \<and> quiet (ts_ok (\<lambda>x. x = N(length (ts_files w) \<mapsto> name))) ts_regs (ts_mem desc) R M
       (w\<lparr>ts_files := ts_files w @ [Some name]\<rparr>)"
    if "quiet (ts_ok (\<lambda>x. x = N)) ts_regs (ts_mem desc) R M w" for N R M w name
    using that by (auto simp: quiet_def ts_ok_def ts_idle_def ts_files_upd)
  have c: "quiet (ts_ok (\<lambda>x. x = N(fp := None))) ts_regs (ts_mem desc) R M (w\<lparr>ts_files := (ts_files w)[fp := None]\<rparr>)"
    if "quiet (ts_ok (\<lambda>x. x = N)) ts_regs (ts_mem desc) R M w" for N R M w fp
    using that by (auto simp: quiet_def ts_ok_def ts_idle_def ts_files_upd)
  show ?thesis
    unfolding trace_env_def with_files_ts
    using demo_target_env w o c by (simp add: demo_target_def)
qed

lemma demo_trace_device:
  assumes "valid_mem desc"
  shows "trace_device (demo_target desc) (ts_ok (\<lambda>_. True)) ts_regs (ts_mem desc) ts_names {desc}"
  unfolding trace_device_def with_files_ts
  using demo_target_device [OF assms] target_device_ok by (simp add: demo_target_def)

definition trace_regs :: "u16 \<times> u16 \<Rightarrow> u16" where
  "trace_regs = mam_regs((0, OSD_REG_SCM_NUM_MOD) := 4, (2, 0) := 1, (2, 1) := 4, (2, 0x200) := 32,
     (3, 0) := 1, (3, 1) := 5, (3, 0x200) := 32, (3, 0x201) := 64)"

definition trace_regs1 :: "u16 \<times> u16 \<Rightarrow> u16" where
  "trace_regs1 = trace_regs((0, OSD_REG_SCM_SYSRST) := set_bit OSD_REG_SCM_SYSRST_CPU_RST_BIT (trace_regs (0, OSD_REG_SCM_SYSRST)))"

definition demo_args :: tr_args where
  "demo_args = \<lparr>tr_glip_backend = GLIP_DEFAULT_BACKEND, tr_glip_backend_options = [], tr_coretrace = True,
     tr_systrace = True, tr_verify_memload = False, tr_terminal = False, tr_elf_file = ''a.out''\<rparr>"

lemma trace_modules_demo:
  "modules trace_regs1 = map (desc_of trace_regs) [0, 1, 2, 3]"
  "map mod_addr (st_modules demo_args (modules trace_regs1)) = [2]"
  "map mod_addr (ct_modules demo_args (modules trace_regs1)) = [3]"
  "\<forall>m \<in> set (modules trace_regs1). trace_ok trace_regs1 m"
  "memories trace_regs1 = [demo_mem1]"
proof -
  show m: "modules trace_regs1 = map (desc_of trace_regs) [0, 1, 2, 3]"
    by (simp add: modules_def trace_regs1_def trace_regs_def mam_regs_def reg_consts upt_rec desc_of_def)
  note d = trace_regs_def mam_regs_def reg_consts desc_of_def is_osd_module_def OSD_MODULE_VENDOR_OSD_def
    OSD_MODULE_TYPE_STD_STM_def OSD_MODULE_TYPE_STD_CTM_def OSD_MODULE_TYPE_STD_MAM_def
  show "map mod_addr (st_modules demo_args (modules trace_regs1)) = [2]" "map mod_addr (ct_modules demo_args (modules trace_regs1)) = [3]"
    by (simp_all add: m st_modules_def ct_modules_def demo_args_def d)
  show "\<forall>m \<in> set (modules trace_regs1). trace_ok trace_regs1 m"
  proof -
    have "trace_ok trace_regs1 (desc_of trace_regs a)" if "a \<in> {0, 1, 2, 3}" for a
      using that by (auto simp: trace_ok_def trace_regs1_def valid_width_def d)
    then show ?thesis by (auto simp: m)
  qed
  have "mem_desc_of trace_regs1 1 = demo_mem1"
    unfolding demo_mem1_def by (rule mem_desc_of_cong) (simp add: trace_regs1_def trace_regs_def)
  then show "memories trace_regs1 = [demo_mem1]" by (simp add: memories_def m is_supported_mam_def d)
qed

lemma trace_regs_ok: "modules_ok trace_regs1"
proof -
  have n: "unat (trace_regs1 (0, OSD_REG_SCM_NUM_MOD)) = 4" by (simp add: trace_regs1_def trace_regs_def reg_consts)
  have small: "a = 0 \<or> a = 1 \<or> a = 2 \<or> a = 3" if "unat a < 4" for a :: u16
  proof -
    from that have "unat a = unat (0 :: u16) \<or> unat a = unat (1 :: u16) \<or> unat a = unat (2 :: u16) \<or> unat a = unat (3 :: u16)"
      by simp linarith
    then show ?thesis by (simp only: word_unat_eq_iff)
  qed
  have "osd_module_get_type_short_name (ucast (trace_regs1 (a, OSD_REG_BASE_MOD_VENDOR))) (ucast (trace_regs1 (a, OSD_REG_BASE_MOD_TYPE))) \<noteq> None"
    if "unat a < 4" for a
    using small [OF that] by (auto simp: trace_regs1_def trace_regs_def mam_regs_def reg_consts osd_module_get_type_short_name_def
        OSD_MODULE_VENDOR_OSD_def OSD_MODULE_TYPE_STD_shortnames_def sizeof_ptr_array_def)
  moreover have "(ucast (trace_regs1 (mod_addr m, OSD_REG_MAM_REGIONS)) :: u8) \<le> 8" for m :: osd_module_desc
    by (simp add: trace_regs1_def trace_regs_def mam_regs_def reg_consts)
  ultimately show ?thesis using n demo_mem1_ok by (simp add: modules_ok_def trace_modules_demo(5))
qed

lemma demo_elf_table:
  "\<forall>ctx. osd_coretracelogger_set_elf (tr_junk_fns (demo_target desc)) (tr_elf (demo_target desc)) ctx (Some (tr_elf_file demo_args)) \<noteq> None"
  by (simp add: osd_coretracelogger_set_elf_def demo_target_def demo_elf_def read_sections.simps Let_def)

section \<open>Properties\<close>

text \<open>
  (C12) Tracing is set up completely: in a working environment, for a device with at most 1024 modules whose trace modules have the
  known version and widths of 16, 32 or 64 bit (\<open>modules_ok\<close>, \<open>trace_ok\<close>), \<^verbatim>\<open>run_tracing\<close> starts one logger for every trace module of the device
  that is asked for, in the order of the modules. Each of them is connected, holds the widths that the registers of its module contain (the value
  width of a system trace module, the address and the data width of a core trace module) and writes to open files of its own
  that have the names for its module; the module sends its events to the address of its logger and is active. The memories,
  the other registers and the other files are unchanged.
\<close>

theorem tracing_set_up:
  assumes "trace_env env a P regs mem names" "trace_device env P regs mem names descs" "P w"
    and "tr_coretrace a \<longrightarrow> (\<forall>ctx. osd_coretracelogger_set_elf (tr_junk_fns env) (tr_elf env) ctx (Some (tr_elf_file a)) \<noteq> None)"
    and "modules_ok (regs w)" "\<forall>m \<in> set (modules (regs w)). trace_ok (regs w) m"
    and "tr_stloggers s = []" "tr_ctloggers s = []" "tr_open_files s = []"
  shows "\<exists>s' dest w'. run_tracing env a cfg s w = Some (OSD_OK, s', w') \<and> P w' \<and> mem w' = mem w
     \<and> map sl_stm_di_addr (tr_stloggers s') = map mod_addr (st_modules a (modules (regs w)))
     \<and> map ct_ctm_di_addr (tr_ctloggers s') = map mod_addr (ct_modules a (modules (regs w)))
     \<and> traced (regs w) (names w) s' (names w') dest \<and> regs w' = routed dest (dom dest) (regs w)"
proof -
  have "quiet (with_files P names (names w)) regs mem (regs w) (mem w) w" using assms(3) by (simp add: quiet_files with_files_def)
  from run_tracing_env [OF assms(1,2,4) this assms(5-9), where cfg = cfg] show ?thesis
    by (auto simp: quiet_files with_files_def)
qed

text \<open>A system trace module at address 2 and a core trace module at address 3.\<close>

theorem tracing_set_up_witness:
  "\<exists>s' w'. run_tracing (demo_target demo_mem1) demo_args cfg_init tr_init \<lparr>ts_regs = trace_regs1, ts_mam = demo_sim, ts_files = []\<rparr>
       = Some (OSD_OK, s', w')
     \<and> map sl_stm_di_addr (tr_stloggers s') = [2] \<and> map ct_ctm_di_addr (tr_ctloggers s') = [3]
     \<and> (\<forall>l \<in> set (tr_stloggers s'). Option.bind (fp_event l) (ts_names w') = Some ''systrace.0002.log''
          \<and> ts_regs w' (2, OSD_REG_BASE_MOD_EVENT_DEST) = hm_diaddr (sl_hostmod_ctx l))"
proof -
  let ?w = "\<lparr>ts_regs = trace_regs1, ts_mam = demo_sim, ts_files = []\<rparr>"
  have i: "ts_ok (\<lambda>_. True) ?w" by (simp add: ts_ok_def ts_idle_def sim_idle_def demo_sim_def)
  have ok: "modules_ok (ts_regs ?w)" "\<forall>m \<in> set (modules (ts_regs ?w)). trace_ok (ts_regs ?w) m"
    using trace_regs_ok trace_modules_demo(4) by simp_all
  obtain s' dest w' where 1: "run_tracing (demo_target demo_mem1) demo_args cfg_init tr_init ?w = Some (OSD_OK, s', w')"
    "map sl_stm_di_addr (tr_stloggers s') = [2]" "map ct_ctm_di_addr (tr_ctloggers s') = [3]"
    "traced (ts_regs ?w) (ts_names ?w) s' (ts_names w') dest" "ts_regs w' = routed dest (dom dest) trace_regs1"
    using tracing_set_up [where cfg = cfg_init and s = tr_init and a = demo_args,
        OF demo_trace_env demo_trace_device [OF demo_mem1_ok] i _ ok] demo_elf_table
    by (auto simp: tr_init_def trace_modules_demo(2,3))
  have n: "systrace_log_filename_event 2 = ''systrace.0002.log''" by code_simp
  have "Option.bind (fp_event l) (ts_names w') = Some ''systrace.0002.log'' \<and> ts_regs w' (2, OSD_REG_BASE_MOD_EVENT_DEST) = hm_diaddr (sl_hostmod_ctx l)"
    if l: "l \<in> set (tr_stloggers s')" for l
  proof -
    have "sl_stm_di_addr l = 2" using 1(2) l by (metis empty_iff empty_set image_eqI list.set_map set_ConsD)
    moreover have "st_logger (ts_regs ?w) (ts_names w') l" "dest (sl_stm_di_addr l) = Some (hm_diaddr (sl_hostmod_ctx l))"
      using 1(4) l by (simp_all add: traced_def)
    ultimately show ?thesis using n by (simp add: 1(5) st_logger_def routed_def)
  qed
  with 1(1-3) show ?thesis by (intro exI [of _ s'] exI [of _ w']) simp
qed




end
