(* ===== verification/Spec2Isabelle.thy ===== *)
theory Spec2Isabelle
  imports Packet Diaddr Modules Osd_Log Worker Hostmod Hostctrl Cl_Scm Cl_Stm Cl_Ctm Cl_Dem_Uart Cl_Cdm Mam_Memory
    Memaccess Gateway Gateway_Glip Network Systracelogger Coretracelogger Terminal Dictionary Iniparser
    Getopt Argtable Argtable_Print Cmdline Cli_Util Tools Target_Run Target_Trace
begin

text \<open>
  \<^bold>\<open>Open SoC Debug, host software: a verification of the library and its tools\<close>

  The host software of Open SoC Debug talks to the debug modules of a chip by exchanging packets of
  16 bit words. Host modules (memory access, trace loggers, the terminal, ...) and gateways (one per
  device) are clients of a host controller, which assigns addresses and routes packets. All of them
  are built on the C library under \<^verbatim>\<open>src/src/libosd\<close>. The command line tools under \<^verbatim>\<open>src/src/tools\<close> run a controller, a
  gateway, or both together with the components that load and observe a program. This development models and verifies the library and
  the tools, with the parsers of the configuration files and the command lines they read.

  \<^bold>\<open>Modelling.\<close> A C function is a HOL function of the same name. Functions that change state take it and
  return it; \<open>'w\<close> is the type of the world outside. \<open>None\<close> stands for "does not return normally": a
  failed assertion, undefined behaviour (an access outside of an allocation, a null pointer) or a loop
  that does not end (\<^verbatim>\<open>partial_function\<close>). Thus a theorem with the result \<open>Some\<close> says that the code
  terminates without any of these, and no fuel is needed anywhere. Error codes are values of \<open>osd_result\<close>; a function with an output
  parameter that is set on success only returns \<open>Inl\<close> of the code or \<open>Inr\<close> of the output. Integers
  keep their width as words where they can overflow. Allocations succeed (the code asserts that they
  do); memory from \<^verbatim>\<open>malloc\<close> or \<^verbatim>\<open>realloc\<close> has arbitrary contents (\<open>junk\<close>). The host is little endian.

  \<^bold>\<open>Parameters.\<close> Third-party code is an argument: czmq and POSIX threads (\<open>zmq\<close> in \<open>Zmq\<close>), the GLIP
  library (\<open>glip\<close> in \<open>Gateway_Glip\<close>), libelf (\<open>libelf\<close> in \<open>Elf\<close>), clocks (\<open>rx_os\<close> in \<open>Gateway\<close>), terminal system
  calls (\<open>tty_os\<close> in \<open>Terminal\<close>), signals and output of a tool (\<open>tool_os\<close> in \<open>Tools\<close>), files, terminals and environment variables
  (\<open>cli_env\<close> in \<open>Cli_Util\<close>), and the callbacks of the user. What a theorem assumes of them is
  a named predicate (\<open>fifo_recv\<close>, \<open>zlist_laws\<close>, \<open>glip_stream\<close>, \<open>tty_user\<close>, \<open>router_laws\<close>, \<open>client_laws\<close>, \<open>worker_laws\<close>, \<open>gateway_laws\<close>, \<open>tool_laws\<close>, ...) that describes documented behaviour; likewise
  \<open>device_ok\<close>, \<open>mam_device\<close> and \<open>target_device\<close> describe a device that answers register and memory accesses. Each has
  a concrete instance in a witness of the theorem.

  \<^bold>\<open>Theories.\<close>

  \<^item> \<open>Prelude\<close>, \<open>C_Stdlib\<close>, \<open>Zmq\<close>, \<open>Elf\<close>: words and byte orders (locale \<open>word_codec\<close>, interpreted for both orders),
    the parts of the C library used (number formatting, \<^verbatim>\<open>strtol\<close>, streams), and the parameters.
  \<^item> \<open>Packet\<close> (\<^verbatim>\<open>packet.c\<close>), \<open>Diaddr\<close> (\<^verbatim>\<open>util.c\<close>), \<open>Modules\<close> (\<^verbatim>\<open>module.c\<close>), \<open>Osd_Log\<close> (\<^verbatim>\<open>log.c\<close>): data packets with their
    header fields, combination, file format and dump; addresses; module names; logging. Every packet
    built by the operations is well formed, headers and files round-trip, combination is
    concatenation of payloads.
  \<^item> \<open>Worker\<close> (\<^verbatim>\<open>worker.c\<close>): the thread every component has, and the status messages between it and the
    main thread. Waiting for a status refines a search in a queue of messages.
  \<^item> \<open>Hostmod_Io\<close>, \<open>Hostmod\<close> (\<^verbatim>\<open>hostmod.c\<close>): the two threads of a host module. The I/O thread reassembles
    split events on a heap of packets; the main thread accesses registers. The locale \<open>reg_file\<close> is the contract
    of register access the clients rely on; it is interpreted by the model of the host module on a device.
  \<^item> \<open>Hostctrl\<close> (\<^verbatim>\<open>hostctrl.c\<close>): the controller. Its tables keep an invariant under all messages, as a step relation with
    reachable states; assigned addresses are unique and packets are routed by them.
  \<^item> \<open>Cl_Base\<close>, \<open>Cl_Scm\<close>, \<open>Cl_Stm\<close>, \<open>Cl_Ctm\<close>, \<open>Cl_Cdm\<close>, \<open>Cl_Dem_Uart\<close>, \<open>Cl_Mam\<close> (\<^verbatim>\<open>cl_*.c\<close>): clients of the debug modules. The
    locale \<open>module_probe\<close> is the contract of the functions that identify a module. Trace events
    are decoded to what the module encoded; core registers round-trip.
  \<^item> \<open>Mam_Memory\<close>: reads and writes of the memory client act on the memory of the device as one
    access to a byte range, although they are split into transfers and packets (locale \<open>byte_store\<close>).
  \<^item> \<open>Hostmod_User\<close>: the contract \<open>hostmod_user\<close> of the components that wrap a host module. It is
    interpreted by \<open>Memaccess\<close> (\<^verbatim>\<open>memaccess.c\<close>: loading ELF files, finding memories), \<open>Systracelogger\<close>
    (\<^verbatim>\<open>systracelogger.c\<close>: complete logs), \<open>Coretracelogger\<close> (\<^verbatim>\<open>coretracelogger.c\<close>: sorted function table, logging of calls
    and returns) and \<open>Terminal\<close> (\<^verbatim>\<open>terminal.c\<close>: transparent in both directions).
  \<^item> \<open>Gateway\<close> (\<^verbatim>\<open>gateway.c\<close>) and \<open>Gateway_Glip\<close> (\<^verbatim>\<open>gateway_glip.c\<close>): between the controller and a device. Packets are
    forwarded unchanged and in order until the device is disconnected, over a byte stream of
    datagrams in the case of GLIP; a connection loss is cleaned up by the main thread.
  \<^item> \<open>Network\<close>: controller, gateways and host modules together, over any transport with the laws of the sockets of czmq that are
    used: the messages of one sender arrive in their order, and messages to a client that is not connected are dropped
    (\<open>router_laws\<close>); while a client waits for an answer, the controller runs for a while (\<open>client_laws\<close>). Packets reach the gateway
    of their subnet and are written to its device, and those of the device reach the controller; under every interleaving of
    clients and controller, what a client receives is exactly what the specification of the controller answers to the messages handled
    so far; a host module can be reached at the address it obtains. \<open>demo_router\<close> and \<open>demo_client\<close> only serve the witnesses.
  \<^item> \<open>Dictionary\<close> (\<^verbatim>\<open>dictionary.c\<close>) and \<open>Iniparser\<close> (\<^verbatim>\<open>iniparser.c\<close>): configuration files. The arrays of the dictionary refine a
    finite map (locale \<open>string_map\<close>); the parser returns for every file without overflowing a buffer, reads back what the writer writes, and
    rejects a file exactly if one of its lines is malformed.
  \<^item> \<open>Getopt\<close>, \<open>Argtable\<close>, \<open>Argtable_Print\<close>, \<open>Cmdline\<close> (\<^verbatim>\<open>argtable3.c\<close>): command lines. \<open>Getopt\<close> is the option scanner, whose state are the
    global variables; it permutes the argument vector (by an exchange of blocks), and its successive results are those of the
    specification \<open>scan\<close>, which leaves the words in their order. \<open>Argtable\<close> has the tables of
    arguments and \<^verbatim>\<open>arg_parse\<close>, which refines \<open>parse_spec\<close>: the arguments every entry gets, and the errors. \<open>Argtable_Print\<close>
    has the usage, the glossary and the error messages, with the limit of their buffer. \<open>Cmdline\<close> writes settings as words,
    and the parser gives them back.
  \<^item> \<open>Cli_Util\<close> (\<^verbatim>\<open>cli-util.h\<close>): log output, configuration and \<^verbatim>\<open>main\<close> of the tools. The effective configuration is the one of
    the file, whatever its text is (\<open>ini_content\<close>), adjusted by the command line. The file that is shipped with the tools is worked
    out as an example.
  \<^item> \<open>Tools\<close> (\<^verbatim>\<open>osd-host-controller.c\<close>, \<^verbatim>\<open>osd-device-gateway.c\<close>): both tools run until they are interrupted and clean up, in
    an environment whose threads answer every request; for the controller, from the words of the command line and the text of the
    configuration file on. The theorems give the sequence of events of a run: threads, requests, output, pauses and calls of GLIP.
    \<open>worker_env\<close>, \<open>gateway_env\<close> and \<open>tool_env\<close> are the same laws without the events, for programs observed at their device.
  \<^item> \<open>Target_Run\<close> (\<^verbatim>\<open>osd-target-run.c\<close>): controller, gateway, memory access, trace loggers and terminal in one program. Without
    tracing, it loads every memory of the device while the CPUs are held in reset, and then starts them. \<open>Target_Trace\<close> is a run
    with tracing: every trace module gets a logger with open files of its own before the CPUs start, and all of them are stopped
    and closed at the end.

  Some theorems state what the code does where it deviates from its intention: freed packets that stay in the
  reassembly buffer, comparison without the last word, addresses that are never released, writes
  that cross a word boundary, reads behind the end of the function table, null pointers for sections of a configuration
  (\<open>getboolean_of_section\<close>), section names cut to one character (\<open>empty_section_name\<close>), lines that are dropped (\<open>unfinished_line_dropped\<close>),
  options that are misreported (\<open>switch_with_value\<close>, \<open>exact_name_ambiguous\<close>), uninitialised or null pointers that are freed (\<open>device_gateway_bad_options\<close>, \<open>target_run_without_gateway\<close>), errors that
  always abort (\<open>terminal_errors_abort\<close>), and others. Most of them have no claim number.

  \<^bold>\<open>Bounds.\<close> Files have a capacity (\<open>wr_cap\<close>) and theorems about logs assume room for the output. Packets have less than
  65536 words, the limit of their size field. Addresses and sizes of memory accesses stay below the limits given by the
  module (\<open>range_ok\<close>). Buffers of the configuration parser and of the messages about options have the
  sizes of the code, and writing behind them is \<open>None\<close>. Tables of arguments satisfy \<open>wf_table\<close>: one end, as the last entry, and option names
  without the characters that have a meaning for the scanner; those of the tools do.

  \<^bold>\<open>Not modelled.\<close> Logging calls inside of the functions (no effect on the state), the timing of threads (a function of a thread is
  one step; the interleaving of components is the subject of \<open>Network\<close>), the release of memory without other effects (\<^verbatim>\<open>dictionary_del\<close>,
  \<^verbatim>\<open>free_elf_data\<close>, \<^verbatim>\<open>arg_freetable\<close>), \<^verbatim>\<open>iniparser_getdouble\<close>, which needs floating point numbers, the kinds of arguments of argtable3 that no
  tool uses (numbers, dates, regular expressions, remarks) with their parsers and its second glossary format, the Python bindings, which are generated from Cython, and the tests with their mocks. In \<open>Target_Run\<close>
  every component has sockets and a thread of its own, what the threads of the loggers write is the subject of their own theories, and a run with
  a terminal has definitions and a theorem about its errors, but no theorem about the whole run.
\<close>

section \<open>Clients of the host module\<close>

text \<open>
  (C36) Every client of the host module connects with the address it gets: when the I/O thread reports that it
  has connected with address \<open>a\<close>, then connecting the memory access component, each of the trace loggers and the
  terminal succeeds, and the component is connected and ready to access registers under the address \<open>a\<close>.
\<close>

theorem clients_connect:
  assumes "fifo_recv z Inproc_main q" "zmsg_send z Inproc_main [str_bytes ''I-CONNECT'', int_bytes 0] w = (0, w1)"
    and "q w1 = [str_bytes ''I-CONNECT-DONE'', int_bytes (uint a)] # ms"
    and "\<not> hm_is_connected h" "hm_ioworker_ctx h"
    and "ma_hostmod_ctx m = h" "sl_hostmod_ctx s = h" "ct_hostmod_ctx c = h" "tm_hostmod_ctx t = h"
  shows "\<exists>m' s' c' t' w2 w3 w4 w5.
      osd_memaccess_connect z m w = Some (OSD_OK, m', w2) \<and> osd_memaccess_is_connected m'
    \<and> ready (ma_hostmod_ctx m') \<and> hm_diaddr (ma_hostmod_ctx m') = a
    \<and> osd_systracelogger_connect z s w = Some (OSD_OK, s', w3) \<and> osd_systracelogger_is_connected s'
    \<and> ready (sl_hostmod_ctx s') \<and> hm_diaddr (sl_hostmod_ctx s') = a
    \<and> osd_coretracelogger_connect z c w = Some (OSD_OK, c', w4) \<and> osd_coretracelogger_is_connected c'
    \<and> ready (ct_hostmod_ctx c') \<and> hm_diaddr (ct_hostmod_ctx c') = a
    \<and> osd_terminal_connect z t w = Some (OSD_OK, t', w5) \<and> osd_terminal_is_connected t'
    \<and> ready (tm_hostmod_ctx t') \<and> hm_diaddr (tm_hostmod_ctx t') = a"
proof -
  note nc = assms(4) [folded assms(6)] assms(4) [folded assms(7)] assms(4) [folded assms(8)] assms(4) [folded assms(9)]
  note wk = assms(5) [folded assms(6)] assms(5) [folded assms(7)] assms(5) [folded assms(8)] assms(5) [folded assms(9)]
  obtain m' w2 where 1: "osd_memaccess_connect z m w = Some (OSD_OK, m', w2)" "osd_memaccess_is_connected m'"
    "ready (ma_hostmod_ctx m')" "hm_diaddr (ma_hostmod_ctx m') = a"
    using memaccess.connect_succeeds [OF assms(1) _ wk(1) assms(2,3)] nc(1) by (auto simp: memaccess.is_connected_law)
  obtain s' w3 where 2: "osd_systracelogger_connect z s w = Some (OSD_OK, s', w3)" "osd_systracelogger_is_connected s'"
    "ready (sl_hostmod_ctx s')" "hm_diaddr (sl_hostmod_ctx s') = a"
    using systracelogger.connect_succeeds [OF assms(1) _ wk(2) assms(2,3)] nc(2) by (auto simp: systracelogger.is_connected_law)
  obtain c' w4 where 3: "osd_coretracelogger_connect z c w = Some (OSD_OK, c', w4)" "osd_coretracelogger_is_connected c'"
    "ready (ct_hostmod_ctx c')" "hm_diaddr (ct_hostmod_ctx c') = a"
    using coretracelogger.connect_succeeds [OF assms(1) _ wk(3) assms(2,3)] nc(3) by (auto simp: coretracelogger.is_connected_law)
  obtain t' w5 where 4: "osd_terminal_connect z t w = Some (OSD_OK, t', w5)" "osd_terminal_is_connected t'"
    "ready (tm_hostmod_ctx t')" "hm_diaddr (tm_hostmod_ctx t') = a"
    using terminal.connect_succeeds [OF assms(1) _ wk(4) assms(2,3)] nc(4) by (auto simp: terminal.is_connected_law)
  from 1 2 3 4 show ?thesis by blast
qed

theorem clients_connect_witness:
  "\<exists>m' w2. osd_memaccess_connect (queue_zmq\<lparr>zmsg_send := \<lambda>s m w. (0, w)\<rparr>)
       \<lparr>ma_hostmod_ctx = \<lparr>hm_is_connected = False, hm_diaddr = 0, hm_ioworker_ctx = True\<rparr>\<rparr>
       [[str_bytes ''I-CONNECT-DONE'', int_bytes (uint (0x402 :: u16))]] = Some (OSD_OK, m', w2)
     \<and> hm_diaddr (ma_hostmod_ctx m') = 0x402"
proof -
  let ?z = "queue_zmq\<lparr>zmsg_send := \<lambda>s m w. (0, w)\<rparr>" and ?h = "\<lparr>hm_is_connected = False, hm_diaddr = 0, hm_ioworker_ctx = True\<rparr>"
  have f: "fifo_recv ?z Inproc_main (\<lambda>w. w)"
    by (simp add: fifo_recv_def queue_zmq_def split: list.splits)
  show ?thesis
    using clients_connect [OF f, where h = ?h and a = "0x402" and ms = "[]"
        and w = "[[str_bytes ''I-CONNECT-DONE'', int_bytes (uint (0x402 :: u16))]]"
        and m = "\<lparr>ma_hostmod_ctx = ?h\<rparr>" and s = "sl_demo\<lparr>sl_hostmod_ctx := ?h\<rparr>"
        and c = "\<lparr>ct_hostmod_ctx = ?h, ct_ctm_di_addr = 3,
          ct_ctm_desc = \<lparr>ctm_di_addr = 0, addr_width_bit = 0, data_width_bit = 0\<rparr>, ct_handler_desc = False,
          fp_log = None, num_funcs = 0, funcs = None\<rparr>"
        and t = "\<lparr>tm_hostmod_ctx = ?h, tm_dem_uart_desc = \<lparr>dem_uart_di_addr = 2\<rparr>, pts_path = None, masterfd = 3, tm_dem_uart_di_addr = 2\<rparr>"]
    by auto
qed

end
